(* ===== verification/Kdump_Prelude.thy ===== *)
theory Kdump_Prelude
  imports Main "HOL-Library.Word" "HOL-Library.List_Lexorder" "HOL-Library.Char_ord"
    "HOL-Library.Sublist"
begin

text \<open>
  What every component shares: the exceptions of \<^verbatim>\<open>global.h\<close> and \<^verbatim>\<open>debug.h\<close> as an error
  datatype and a result type, the operations of \<^verbatim>\<open>std::string\<close>, \<^verbatim>\<open>std::map\<close> and
  \<^verbatim>\<open>istringstream\<close> that the sources call, and the generic lemmas about them. Strings are lists
  of bytes (\<^typ>\<open>char\<close>); \<^verbatim>\<open>npos\<close> is \<^const>\<open>None\<close>.
\<close>

section \<open>Errors and results\<close>

text \<open>
  The exceptions the program throws, with the message it builds. \<open>OutOfRange\<close> and \<open>BadAlloc\<close>
  are exceptions of the standard library. \<open>Undefined\<close> marks a point where
  the C++ has undefined behaviour (a read outside a buffer, a dereferenced end iterator, an
  uninitialised variable).
\<close>

datatype errno = ENOENT | EEXIST | ENOTDIR | ELOOP | EACCES | EIO | EINTR | EOTHER nat

datatype kerror =
    KError string
  | KSystemError string errno
  | KSFTPError string nat
  | KGaiError string int
  | KELFError string nat
  | OutOfRange
  | BadAlloc
  | Undefined string

type_synonym 'a res = "kerror + 'a"

definition res_bind :: "'e + 'a \<Rightarrow> ('a \<Rightarrow> 'e + 'b) \<Rightarrow> 'e + 'b" where
  "res_bind m f = (case m of Inl e \<Rightarrow> Inl e | Inr x \<Rightarrow> f x)"

lemma res_bind_simps [simp]:
  "res_bind (Inl e) f = Inl e"
  "res_bind (Inr x) f = f x"
  by (simp_all add: res_bind_def)

lemma res_bind_eq_Inr_iff:
  "res_bind m f = Inr y \<longleftrightarrow> (\<exists>x. m = Inr x \<and> f x = Inr y)"
  by (cases m) auto

lemma res_bind_cong [fundef_cong]:
  "m = m' \<Longrightarrow> (\<And>x. m' = Inr x \<Longrightarrow> f x = f' x) \<Longrightarrow> res_bind m f = res_bind m' f'"
  by (cases m') auto

section \<open>Characters\<close>

definition ord :: "char \<Rightarrow> nat" where
  "ord c = of_char c"

definition chr :: "nat \<Rightarrow> char" where
  "chr n = char_of n"

lemma ord_less_256 [simp]: "ord c < 256"
  by (simp add: ord_def)

lemma chr_ord [simp]: "chr (ord c) = c"
  by (simp add: chr_def ord_def)

lemma ord_chr [simp]: "n < 256 \<Longrightarrow> ord (chr n) = n"
  by (simp add: chr_def ord_def)

lemma ord_eq_iff: "ord c = ord d \<longleftrightarrow> c = d"
  by (metis chr_ord)

text \<open>The C locale's character classes (\<^verbatim>\<open>ctype.h\<close>).\<close>

definition isdigit :: "char \<Rightarrow> bool" where
  "isdigit c \<longleftrightarrow> 48 \<le> ord c \<and> ord c \<le> 57"

definition isxdigit :: "char \<Rightarrow> bool" where
  "isxdigit c \<longleftrightarrow> isdigit c \<or> (97 \<le> ord c \<and> ord c \<le> 102) \<or> (65 \<le> ord c \<and> ord c \<le> 70)"

definition isupper :: "char \<Rightarrow> bool" where
  "isupper c \<longleftrightarrow> 65 \<le> ord c \<and> ord c \<le> 90"

definition isalpha :: "char \<Rightarrow> bool" where
  "isalpha c \<longleftrightarrow> isupper c \<or> (97 \<le> ord c \<and> ord c \<le> 122)"

definition isspace :: "char \<Rightarrow> bool" where
  "isspace c \<longleftrightarrow> (9 \<le> ord c \<and> ord c \<le> 13) \<or> ord c = 32"

definition tolower :: "char \<Rightarrow> char" where
  "tolower c = (if isupper c then chr (ord c + 32) else c)"

definition NUL :: char where
  "NUL = CHR 0x00"

definition NL :: char where
  "NL = CHR 0x0A"

definition CR :: char where
  "CR = CHR 0x0D"

definition TAB :: char where
  "TAB = CHR 0x09"

definition DQUOTE :: char where
  "DQUOTE = CHR 0x22"

definition SQUOTE :: char where
  "SQUOTE = CHR 0x27"

definition BSLASH :: char where
  "BSLASH = CHR 0x5C"

named_theorems char_class
lemmas [char_class] = isdigit_def isxdigit_def isupper_def isalpha_def isspace_def ord_def

named_theorems char_consts
lemmas [char_consts] = NUL_def NL_def CR_def TAB_def DQUOTE_def SQUOTE_def BSLASH_def

lemma isdigit_not_space: "isdigit c \<Longrightarrow> \<not> isspace c"
  by (auto simp: isdigit_def isspace_def)

text \<open>\<^verbatim>\<open>strcasecmp(a, b) == 0\<close>\<close>

definition strcaseeq :: "string \<Rightarrow> string \<Rightarrow> bool" where
  "strcaseeq a b \<longleftrightarrow> map tolower a = map tolower b"

section \<open>std::string\<close>

text \<open>
  \<^verbatim>\<open>s.find(c, pos)\<close>, \<^verbatim>\<open>s.rfind(c)\<close>, \<^verbatim>\<open>s.find(str)\<close>, \<^verbatim>\<open>s.find_first_not_of\<close> and
  \<^verbatim>\<open>s.find_last_not_of\<close>; \<open>c_at\<close> reads \<^verbatim>\<open>s[i]\<close>, which is the terminating NUL at \<^verbatim>\<open>size()\<close>.
\<close>

definition find_char :: "char \<Rightarrow> string \<Rightarrow> nat option" where
  "find_char c s = (if c \<in> set s then Some (length (takeWhile (\<lambda>x. x \<noteq> c) s)) else None)"

definition find_char_from :: "char \<Rightarrow> string \<Rightarrow> nat \<Rightarrow> nat option" where
  "find_char_from c s pos = map_option (\<lambda>i. i + pos) (find_char c (drop pos s))"

definition rfind_char :: "char \<Rightarrow> string \<Rightarrow> nat option" where
  "rfind_char c s =
     (if c \<in> set s then Some (length (dropWhile (\<lambda>x. x \<noteq> c) (rev s)) - 1) else None)"

fun find_str :: "string \<Rightarrow> string \<Rightarrow> nat option" where
  "find_str pat [] = (if pat = [] then Some 0 else None)"
| "find_str pat (c # s) =
     (if prefix pat (c # s) then Some 0 else map_option Suc (find_str pat s))"

definition find_first_not_of :: "string \<Rightarrow> string \<Rightarrow> nat option" where
  "find_first_not_of chars s =
     (if \<forall>c \<in> set s. c \<in> set chars then None
      else Some (length (takeWhile (\<lambda>c. c \<in> set chars) s)))"

definition find_last_not_of :: "string \<Rightarrow> string \<Rightarrow> nat option" where
  "find_last_not_of chars s =
     (if \<forall>c \<in> set s. c \<in> set chars then None
      else Some (length (dropWhile (\<lambda>c. c \<in> set chars) (rev s)) - 1))"

definition substr :: "string \<Rightarrow> nat \<Rightarrow> nat \<Rightarrow> string" where
  "substr s pos len = take len (drop pos s)"

definition c_at :: "string \<Rightarrow> nat \<Rightarrow> char" where
  "c_at s i = (if i < length s then s ! i else NUL)"

lemma find_char_None_iff [simp]: "find_char c s = None \<longleftrightarrow> c \<notin> set s"
  by (simp add: find_char_def)

lemma find_char_SomeD:
  assumes "find_char c s = Some i"
  shows "i < length s" and "s ! i = c" and "c \<notin> set (take i s)"
    and "s = take i s @ c # drop (Suc i) s"
proof -
  from assms have c: "c \<in> set s" and i: "i = length (takeWhile (\<lambda>x. x \<noteq> c) s)"
    by (auto simp: find_char_def split: if_splits)
  from c have ne: "dropWhile (\<lambda>x. x \<noteq> c) s \<noteq> []"
    by auto
  then have len: "i < length s"
    unfolding i by (metis takeWhile_dropWhile_id length_append add.right_neutral
        length_greater_0_conv nat_add_left_cancel_less)
  then show "i < length s" .
  show nth: "s ! i = c"
    using nth_length_takeWhile [of "\<lambda>x. x \<noteq> c" s] len i by simp
  have "take i s = takeWhile (\<lambda>x. x \<noteq> c) s"
    unfolding i by (simp add: takeWhile_eq_take [symmetric])
  then show "c \<notin> set (take i s)"
    by (auto dest: set_takeWhileD)
  from len nth show "s = take i s @ c # drop (Suc i) s"
    by (metis id_take_nth_drop)
qed

lemma takeWhile_neq_append: "c \<notin> set a \<Longrightarrow> takeWhile (\<lambda>x. x \<noteq> c) (a @ c # b) = a"
  by (induction a) auto

lemma dropWhile_neq_append: "c \<notin> set a \<Longrightarrow> dropWhile (\<lambda>x. x \<noteq> c) (a @ c # b) = c # b"
  by (induction a) auto

lemma takeWhile_all_append: "\<forall>x \<in> set xs. P x \<Longrightarrow> takeWhile P (xs @ ys) = xs @ takeWhile P ys"
  by (induction xs) auto

lemma dropWhile_all_append: "\<forall>x \<in> set xs. P x \<Longrightarrow> dropWhile P (xs @ ys) = dropWhile P ys"
  by (induction xs) auto

lemma find_char_append_Some: "c \<notin> set a \<Longrightarrow> find_char c (a @ c # b) = Some (length a)"
  by (simp add: find_char_def takeWhile_neq_append)

lemma rfind_char_append_Some: "c \<notin> set b \<Longrightarrow> rfind_char c (a @ c # b) = Some (length a)"
proof -
  assume "c \<notin> set b"
  then have "dropWhile (\<lambda>x. x \<noteq> c) (rev b @ c # rev a) = c # rev a"
    by (subst dropWhile_append2) auto
  then show ?thesis by (simp add: rfind_char_def)
qed

lemma rfind_char_None_iff [simp]: "rfind_char c s = None \<longleftrightarrow> c \<notin> set s"
  by (simp add: rfind_char_def)

lemma rfind_char_Some_less: "rfind_char c s = Some i \<Longrightarrow> i < length s"
proof -
  assume a: "rfind_char c s = Some i"
  then have c: "c \<in> set s" by (metis option.distinct(1) rfind_char_None_iff)
  then obtain b d where s: "s = b @ c # d" "c \<notin> set d"
    by (meson split_list_last)
  with a have "i = length b" by (simp add: rfind_char_append_Some)
  with s show ?thesis by simp
qed

lemma find_str_Some_iff: "(\<exists>i. find_str pat s = Some i) \<longleftrightarrow> sublist pat s"
proof (induction s)
  case Nil
  then show ?case by simp
next
  case (Cons c s)
  then show ?case by (auto simp: sublist_Cons_right)
qed

section \<open>Numbers in text\<close>

text \<open>
  \<^verbatim>\<open>ostream << n\<close> in base 10, and \<^verbatim>\<open>istream >> n\<close>: skip white space, an optional sign, the
  longest run of digits. On an exhausted stream the variable is left alone (\<^const>\<open>None\<close>); without
  a digit it is set to 0 and the stream fails; out of range it is clamped and the stream fails.
\<close>

fun dec_of_nat :: "nat \<Rightarrow> string" where
  "dec_of_nat n =
     (if n < 10 then [chr (48 + n)] else dec_of_nat (n div 10) @ [chr (48 + n mod 10)])"

declare dec_of_nat.simps [simp del]

definition dec_of_int :: "int \<Rightarrow> string" where
  "dec_of_int i = (if i < 0 then CHR ''-'' # dec_of_nat (nat (- i)) else dec_of_nat (nat i))"

definition dec_val :: "string \<Rightarrow> nat" where
  "dec_val s = foldl (\<lambda>a c. 10 * a + (ord c - 48)) 0 s"

record scanned =
  sc_val :: int
  sc_ok :: bool
  sc_rest :: string

definition clamp_int :: "int \<Rightarrow> int \<Rightarrow> int \<Rightarrow> int" where
  "clamp_int lo hi v = (if v < lo then lo else if hi < v then hi else v)"

definition scan_int :: "int \<Rightarrow> int \<Rightarrow> string \<Rightarrow> scanned option" where
  "scan_int lo hi s =
     (case dropWhile isspace s of
        [] \<Rightarrow> None
      | c # cs \<Rightarrow>
          let neg = (c = CHR ''-'');
              u = (if c = CHR ''-'' \<or> c = CHR ''+'' then cs else c # cs);
              ds = takeWhile isdigit u;
              v = (if neg then - int (dec_val ds) else int (dec_val ds))
          in Some (if ds = [] then \<lparr>sc_val = 0, sc_ok = False, sc_rest = u\<rparr>
                   else \<lparr>sc_val = clamp_int lo hi v, sc_ok = (lo \<le> v \<and> v \<le> hi),
                         sc_rest = dropWhile isdigit u\<rparr>))"

lemma dec_val_snoc [simp]: "dec_val (s @ [c]) = 10 * dec_val s + (ord c - 48)"
  by (simp add: dec_val_def)

lemma isdigit_chr: "n < 10 \<Longrightarrow> isdigit (chr (48 + n))"
  by (simp add: isdigit_def)

lemma dec_of_nat_digits: "\<forall>c \<in> set (dec_of_nat n). isdigit c"
proof (induction n rule: dec_of_nat.induct)
  case (1 n)
  then show ?case
    by (subst dec_of_nat.simps) (auto simp: isdigit_chr)
qed

lemma dec_of_nat_nonempty [simp]: "dec_of_nat n \<noteq> []"
  by (subst dec_of_nat.simps) simp

lemma dec_val_dec_of_nat [simp]: "dec_val (dec_of_nat n) = n"
proof (induction n rule: dec_of_nat.induct)
  case (1 n)
  show ?case
  proof (cases "n < 10")
    case True
    then show ?thesis by (subst dec_of_nat.simps) (simp add: dec_val_def)
  next
    case False
    with 1 have "dec_val (dec_of_nat (n div 10)) = n div 10" by simp
    with False show ?thesis by (subst dec_of_nat.simps) simp
  qed
qed

lemma takeWhile_isdigit_dec [simp]: "takeWhile isdigit (dec_of_nat n) = dec_of_nat n"
  using dec_of_nat_digits by (simp add: takeWhile_eq_all_conv)

lemma dec_of_nat_Cons: obtains c cs where "dec_of_nat n = c # cs" and "isdigit c"
  using dec_of_nat_nonempty [of n] dec_of_nat_digits [of n] by (cases "dec_of_nat n") auto

text \<open>Printing and reading back a number in range is the identity.\<close>

lemma scan_int_dec_of_int:
  assumes "lo \<le> i" and "i \<le> hi"
  shows "scan_int lo hi (dec_of_int i) = Some \<lparr>sc_val = i, sc_ok = True, sc_rest = []\<rparr>"
proof (cases "i < 0")
  case True
  have "\<not> isspace (CHR ''-'')" by (simp add: char_class)
  with True assms show ?thesis
    by (simp add: scan_int_def dec_of_int_def clamp_int_def Let_def dec_of_nat_digits)
next
  case False
  obtain c cs where c: "dec_of_nat (nat i) = c # cs" "isdigit c"
    by (rule dec_of_nat_Cons)
  then have ns: "\<not> isspace c" "c \<noteq> CHR ''-''" "c \<noteq> CHR ''+''"
    by (auto simp: char_class)
  have cs: "takeWhile isdigit cs = cs" "dropWhile isdigit cs = []" "dec_val (c # cs) = nat i"
    using c(1) dec_of_nat_digits [of "nat i"] dec_val_dec_of_nat [of "nat i"]
    by (auto simp: takeWhile_eq_all_conv)
  from c ns False assms show ?thesis
    by (simp add: scan_int_def dec_of_int_def clamp_int_def Let_def cs)
qed

section \<open>Words and lines of a stream\<close>

text \<open>\<^verbatim>\<open>while (iss >> elem)\<close> and \<^verbatim>\<open>while (getline(ss, line))\<close>.\<close>

function stream_words :: "string \<Rightarrow> string list" where
  "stream_words s =
     (case dropWhile isspace s of
        [] \<Rightarrow> []
      | c # cs \<Rightarrow> (c # takeWhile (\<lambda>x. \<not> isspace x) cs) #
                  stream_words (dropWhile (\<lambda>x. \<not> isspace x) cs))"
  by pat_completeness auto
termination
proof (relation "measure length")
  fix s c cs
  assume "dropWhile isspace s = c # cs"
  then have "length (c # cs) \<le> length s" by (metis length_dropWhile_le)
  then show "(dropWhile (\<lambda>x. \<not> isspace x) cs, s) \<in> measure length"
    using length_dropWhile_le [of "\<lambda>x. \<not> isspace x" cs] by simp
qed simp

declare stream_words.simps [simp del]

function stream_lines :: "string \<Rightarrow> string list" where
  "stream_lines s =
     (if s = [] then []
      else takeWhile (\<lambda>x. x \<noteq> NL) s # stream_lines (drop 1 (dropWhile (\<lambda>x. x \<noteq> NL) s)))"
  by pat_completeness auto
termination
proof (relation "measure length")
  fix s :: string
  assume "s \<noteq> []"
  then show "(drop 1 (dropWhile (\<lambda>x. x \<noteq> NL) s), s) \<in> measure length"
    using length_dropWhile_le [of "\<lambda>x. x \<noteq> NL" s] by (cases s) auto
qed simp

declare stream_lines.simps [simp del]

lemma stream_lines_Nil [simp]: "stream_lines [] = []"
  by (simp add: stream_lines.simps)

lemma stream_lines_line:
  "NL \<notin> set l \<Longrightarrow> stream_lines (l @ NL # r) = l # stream_lines r"
  by (subst stream_lines.simps) (simp add: takeWhile_neq_append dropWhile_neq_append)

section \<open>std::map\<close>

text \<open>
  \<^verbatim>\<open>std::map<std::string, T>\<close> as the list of its pairs in iteration order, which is the order of
  the keys. The interface (find after assignment, the order kept) is a locale, interpreted on the
  model.
\<close>

fun smap_insert :: "'k::linorder \<Rightarrow> 'v \<Rightarrow> ('k \<times> 'v) list \<Rightarrow> ('k \<times> 'v) list" where
  "smap_insert k v [] = [(k, v)]"
| "smap_insert k v ((a, b) # m) =
     (if k < a then (k, v) # (a, b) # m
      else if k = a then (k, v) # m
      else (a, b) # smap_insert k v m)"

definition smap_ok :: "('k::linorder \<times> 'v) list \<Rightarrow> bool" where
  "smap_ok m \<longleftrightarrow> sorted_wrt (<) (map fst m)"

locale ordered_map =
  fixes empty :: 'm
    and insert :: "'k::linorder \<Rightarrow> 'v \<Rightarrow> 'm \<Rightarrow> 'm"
    and find :: "'m \<Rightarrow> 'k \<Rightarrow> 'v option"
    and pairs :: "'m \<Rightarrow> ('k \<times> 'v) list"
    and invar :: "'m \<Rightarrow> bool"
  assumes find_empty: "find empty = Map.empty"
    and find_insert: "find (insert k v m) = (find m)(k \<mapsto> v)"
    and invar_empty: "invar empty"
    and invar_insert: "invar m \<Longrightarrow> invar (insert k v m)"
    and pairs_sorted: "invar m \<Longrightarrow> sorted_wrt (<) (map fst (pairs m))"
    and find_pairs: "invar m \<Longrightarrow> find m = map_of (pairs m)"
begin

definition insert_all :: "('k \<times> 'v) list \<Rightarrow> 'm \<Rightarrow> 'm" where
  "insert_all kvs m = foldl (\<lambda>m (k, v). insert k v m) m kvs"

lemma insert_all_simps [simp]:
  "insert_all [] m = m"
  "insert_all ((k, v) # kvs) m = insert_all kvs (insert k v m)"
  by (simp_all add: insert_all_def)

lemma find_insert_all: "find (insert_all kvs m) = find m ++ map_of (rev kvs)"
  by (induction kvs arbitrary: m) (auto simp: find_insert map_add_def fun_eq_iff split: option.splits)

lemma invar_insert_all: "invar m \<Longrightarrow> invar (insert_all kvs m)"
proof (induction kvs arbitrary: m)
  case Nil
  then show ?case by simp
next
  case (Cons kv kvs)
  then show ?case by (cases kv) (simp add: invar_insert)
qed

lemma find_in_dom: "invar m \<Longrightarrow> k \<in> fst ` set (pairs m) \<longleftrightarrow> find m k \<noteq> None"
  by (simp add: find_pairs map_of_eq_None_iff)

end

lemma map_of_smap_insert: "map_of (smap_insert k v m) = (map_of m)(k \<mapsto> v)"
  by (induction m) (auto simp: fun_eq_iff)

lemma fst_set_smap_insert: "fst ` set (smap_insert k v m) = insert k (fst ` set m)"
  by (induction k v m rule: smap_insert.induct) (simp_all add: insert_commute)

lemma smap_ok_insert: "smap_ok m \<Longrightarrow> smap_ok (smap_insert k v m)"
proof (induction m)
  case Nil
  then show ?case by (simp add: smap_ok_def)
next
  case (Cons p m)
  obtain a b where p: "p = (a, b)" by (cases p)
  from Cons.prems have *: "smap_ok m" "\<forall>x \<in> fst ` set m. a < x"
    by (auto simp: smap_ok_def p)
  have "set (map fst (smap_insert k v m)) = insert k (fst ` set m)"
    using fst_set_smap_insert [of k v m] by simp
  with Cons.IH [OF *(1)] *(2) Cons.prems show ?case
    by (auto simp: smap_ok_def p)
qed

interpretation smap: ordered_map "[]" smap_insert map_of "\<lambda>m. m" smap_ok
  by unfold_locales (auto simp: map_of_smap_insert smap_ok_insert, auto simp: smap_ok_def)

section \<open>Numbers in the byte order of the machine\<close>

fun le_nat :: "string \<Rightarrow> nat" where
  "le_nat [] = 0"
| "le_nat (c # cs) = ord c + 256 * le_nat cs"

fun le_bytes :: "nat \<Rightarrow> nat \<Rightarrow> string" where
  "le_bytes 0 v = []"
| "le_bytes (Suc n) v = chr (v mod 256) # le_bytes n (v div 256)"

lemma length_le_bytes [simp]: "length (le_bytes n v) = n"
  by (induction n v rule: le_bytes.induct) simp_all

lemma le_nat_bytes: "v < 256 ^ n \<Longrightarrow> le_nat (le_bytes n v) = v"
  by (induction n v rule: le_bytes.induct) (simp_all add: less_mult_imp_div_less mult.commute)

end
