(* ===== verification/StringUtil.thy ===== *)
theory StringUtil
  imports Kdump_Prelude
begin

text \<open>
  \<^verbatim>\<open>kdumptool/stringutil.cc\<close>, \<^verbatim>\<open>stringutil.h\<close> and \<^verbatim>\<open>stringvector.cc\<close>: the string class
  \<^verbatim>\<open>KString\<close> with its number tests, trimming, splitting and URL decoding (the in-place loop over
  two iterators), \<^verbatim>\<open>StringVector::join\<close> and the conversions of \<^verbatim>\<open>StringUtil\<close>.
\<close>

section \<open>Conversions\<close>

definition INT_MIN :: int where "INT_MIN = - (2 ^ 31)"
definition INT_MAX :: int where "INT_MAX = 2 ^ 31 - 1"
definition LLONG_MIN :: int where "LLONG_MIN = - (2 ^ 63)"
definition LLONG_MAX :: int where "LLONG_MAX = 2 ^ 63 - 1"

named_theorems int_limits
lemmas [int_limits] = INT_MIN_def INT_MAX_def LLONG_MIN_def LLONG_MAX_def

definition number2string :: "int \<Rightarrow> string" where
  "number2string number = dec_of_int number"

definition hex_digit :: "nat \<Rightarrow> char" where
  "hex_digit d = (if d < 10 then chr (48 + d) else chr (87 + d))"

fun hex_of_nat :: "nat \<Rightarrow> string" where
  "hex_of_nat n =
     (if n < 16 then [hex_digit n] else hex_of_nat (n div 16) @ [hex_digit (n mod 16)])"

declare hex_of_nat.simps [simp del]

definition number2hex :: "nat \<Rightarrow> string" where
  "number2hex number = ''0x'' @ hex_of_nat number"

definition hex2int :: "char \<Rightarrow> nat res" where
  "hex2int c =
     (if isdigit c then Inr (ord c - 48)
      else if 97 \<le> ord c \<and> ord c \<le> 102 then Inr (ord c - 97 + 10)
      else if 65 \<le> ord c \<and> ord c \<le> 70 then Inr (ord c - 65 + 10)
      else Inl (KError (''StringUtil::hex2int: '' @ [SQUOTE, c, SQUOTE] @ '' is not a hex digit'')))"

lemma hex2int_ok_iff: "(\<exists>n. hex2int c = Inr n) \<longleftrightarrow> isxdigit c"
  by (auto simp: hex2int_def isxdigit_def)

lemma hex2int_less_16: "hex2int c = Inr n \<Longrightarrow> n < 16"
  by (auto simp: hex2int_def isdigit_def split: if_splits)

lemma hex2int_hex_digit: "d < 16 \<Longrightarrow> hex2int (hex_digit d) = Inr d"
  by (auto simp: hex2int_def hex_digit_def isdigit_def)

lemma isxdigit_hex_digit: "d < 16 \<Longrightarrow> isxdigit (hex_digit d)"
  using hex2int_hex_digit hex2int_ok_iff by blast

section \<open>KString: tests and trimming\<close>

definition isNumber :: "string \<Rightarrow> bool" where
  "isNumber s =
     (let t = (case s of [] \<Rightarrow> [] | c # cs \<Rightarrow> if c = CHR ''-'' \<or> c = CHR ''+'' then cs else s)
      in t \<noteq> [] \<and> list_all isdigit t)"

definition asInt :: "string \<Rightarrow> int res" where
  "asInt s = (case scan_int INT_MIN INT_MAX s of
                None \<Rightarrow> Inl (Undefined ''asInt: value not set'') | Some r \<Rightarrow> Inr (sc_val r))"

definition asLongLong :: "string \<Rightarrow> int res" where
  "asLongLong s = (case scan_int LLONG_MIN LLONG_MAX s of
                None \<Rightarrow> Inl (Undefined ''asLongLong: value not set'') | Some r \<Rightarrow> Inr (sc_val r))"

definition isHexNumber :: "string \<Rightarrow> bool" where
  "isHexNumber s \<longleftrightarrow> s \<noteq> [] \<and> list_all isxdigit s"

definition ltrim :: "string \<Rightarrow> string \<Rightarrow> string" where
  "ltrim chars s = (case find_first_not_of chars s of None \<Rightarrow> [] | Some i \<Rightarrow> drop i s)"

definition rtrim :: "string \<Rightarrow> string \<Rightarrow> string" where
  "rtrim chars s = (case find_last_not_of chars s of None \<Rightarrow> [] | Some i \<Rightarrow> take (i + 1) s)"

definition trim :: "string \<Rightarrow> string \<Rightarrow> string" where
  "trim chars s = ltrim chars (rtrim chars s)"

definition trim_default :: string where
  "trim_default = [CHR '' '', TAB, NL]"

definition startsWith :: "string \<Rightarrow> string \<Rightarrow> bool" where
  "startsWith s part \<longleftrightarrow> take (length part) s = part"

definition endsWith :: "string \<Rightarrow> string \<Rightarrow> bool" where
  "endsWith s part \<longleftrightarrow>
     (if length part \<le> length s then substr s (length s - length part) (length part) = part
      else False)"

lemma startsWith_iff_prefix: "startsWith s part \<longleftrightarrow> prefix part s"
  by (metis append_eq_conv_conj append_take_drop_id prefixE prefixI startsWith_def)

lemma endsWith_iff_suffix: "endsWith s part \<longleftrightarrow> suffix part s"
proof
  assume "endsWith s part"
  then have "drop (length s - length part) s = part"
    by (auto simp: endsWith_def substr_def split: if_splits)
  then show "suffix part s" by (metis suffix_drop)
next
  assume "suffix part s"
  then show "endsWith s part"
    by (auto simp: endsWith_def substr_def suffix_def)
qed

lemma ltrim_dropWhile: "ltrim chars s = dropWhile (\<lambda>c. c \<in> set chars) s"
  by (auto simp: ltrim_def find_first_not_of_def dropWhile_eq_drop [symmetric]
      eq_commute [of "[]"])

lemma rtrim_dropWhile: "rtrim chars s = rev (dropWhile (\<lambda>c. c \<in> set chars) (rev s))"
proof (cases "\<forall>c \<in> set s. c \<in> set chars")
  case True
  then show ?thesis by (auto simp: rtrim_def find_last_not_of_def)
next
  case False
  let ?d = "dropWhile (\<lambda>c. c \<in> set chars) (rev s)"
  from False have "?d \<noteq> []" by auto
  then have "length ?d - 1 + 1 = length ?d" by (cases ?d) auto
  moreover have "take (length ?d) s = rev ?d"
    by (metis append_eq_conv_conj length_rev rev_append rev_rev_ident takeWhile_dropWhile_id)
  ultimately show ?thesis
    using False by (auto simp: rtrim_def find_last_not_of_def)
qed

lemma ltrim_no_lead: "ltrim chars s \<noteq> [] \<Longrightarrow> hd (ltrim chars s) \<notin> set chars"
  by (metis hd_dropWhile ltrim_dropWhile)

lemma rtrim_no_trail: "rtrim chars s \<noteq> [] \<Longrightarrow> last (rtrim chars s) \<notin> set chars"
  by (metis hd_dropWhile last_rev rev_is_Nil_conv rtrim_dropWhile)

lemma rtrim_prefix: "prefix (rtrim chars s) s"
  by (metis prefixI rev_append rev_rev_ident rtrim_dropWhile takeWhile_dropWhile_id)

lemma rtrim_decomp: "\<exists>t. s = rtrim chars s @ t \<and> set t \<subseteq> set chars"
proof -
  let ?P = "\<lambda>c. c \<in> set chars"
  have "s = rev (dropWhile ?P (rev s)) @ rev (takeWhile ?P (rev s))"
    by (metis rev_append rev_rev_ident takeWhile_dropWhile_id)
  moreover have "set (rev (takeWhile ?P (rev s))) \<subseteq> set chars"
    by (auto dest: set_takeWhileD)
  ultimately show ?thesis by (metis rtrim_dropWhile)
qed

lemma rtrim_id: "s = [] \<or> last s \<notin> set chars \<Longrightarrow> rtrim chars s = s"
  by (cases s rule: rev_cases) (auto simp: rtrim_dropWhile)

lemma rtrim_all: "set t \<subseteq> set chars \<Longrightarrow> rtrim chars (s @ t) = rtrim chars s"
  by (induction t rule: rev_induct) (auto simp: rtrim_dropWhile)

text \<open>A numeric string is read as the clamped value of its digits, for every length.\<close>

lemma scan_int_isNumber:
  assumes "isNumber s"
  shows "\<exists>r. scan_int lo hi s = Some r \<and> sc_val r = clamp_int lo hi
           (if hd s = CHR ''-'' then - int (dec_val (tl s))
            else int (dec_val (if hd s = CHR ''+'' then tl s else s)))"
proof -
  from assms obtain c cs where s: "s = c # cs" by (cases s) (auto simp: isNumber_def)
  show ?thesis
  proof (cases "c = CHR ''-'' \<or> c = CHR ''+''")
    case True
    with assms s have u: "cs \<noteq> []" "takeWhile isdigit cs = cs"
      by (auto simp: isNumber_def list_all_iff takeWhile_eq_all_conv)
    from True have "\<not> isspace c" by (auto simp: char_class)
    with True u(1) show ?thesis
      by (auto simp: s scan_int_def Let_def u(2))
  next
    case False
    with assms s have u: "isdigit c" "takeWhile isdigit cs = cs"
      by (auto simp: isNumber_def list_all_iff takeWhile_eq_all_conv)
    from u(1) have "\<not> isspace c" by (rule isdigit_not_space)
    with False u(1) show ?thesis
      by (auto simp: s scan_int_def Let_def u(2))
  qed
qed

lemma asInt_number2string:
  "INT_MIN \<le> i \<Longrightarrow> i \<le> INT_MAX \<Longrightarrow> asInt (number2string i) = Inr i"
  by (simp add: asInt_def number2string_def scan_int_dec_of_int)

section \<open>Splitting and joining\<close>

function split_from :: "char \<Rightarrow> string \<Rightarrow> nat \<Rightarrow> string list" where
  "split_from c s start =
     (case find_char_from c s start of
        None \<Rightarrow> [drop start s]
      | Some next \<Rightarrow> substr s start (next - start) # split_from c s (next + 1))"
  by pat_completeness auto
termination
proof (relation "measure (\<lambda>(c, s, start). length s - start)")
  fix c s start nxt
  assume "find_char_from c s start = Some nxt"
  then obtain i where "find_char c (drop start s) = Some i" "nxt = i + start"
    by (auto simp: find_char_from_def)
  then have "start \<le> nxt" "nxt < length s"
    using find_char_SomeD(1) by fastforce+
  then show "((c, s, nxt + 1), c, s, start) \<in> measure (\<lambda>(c, s, start). length s - start)"
    by simp
qed simp

declare split_from.simps [simp del]

definition ksplit :: "char \<Rightarrow> string \<Rightarrow> string list" where
  "ksplit c s = split_from c s 0"

definition join :: "char \<Rightarrow> string list \<Rightarrow> string" where
  "join joiner xs = (case xs of [] \<Rightarrow> [] | x # ys \<Rightarrow> foldl (\<lambda>r y. r @ [joiner] @ y) x ys)"

lemma find_char_from_append:
  "find_char_from c (p @ s) (length p + k) = map_option (\<lambda>i. length p + i) (find_char_from c s k)"
  by (simp add: find_char_from_def option.map_comp comp_def add.commute add.left_commute)

lemma split_from_append: "split_from c (p @ s) (length p + k) = split_from c s k"
proof (induction c s k rule: split_from.induct)
  case (1 c s k)
  show ?case
  proof (cases "find_char_from c s k")
    case None
    then show ?thesis
      by (simp add: split_from.simps [of c s k] split_from.simps [of c "p @ s" "length p + k"]
          find_char_from_append)
  next
    case (Some i)
    with "1.IH" [of i] show ?thesis
      by (simp add: split_from.simps [of c s k] split_from.simps [of c "p @ s" "length p + k"]
          find_char_from_append substr_def)
  qed
qed

lemma ksplit_single: "c \<notin> set s \<Longrightarrow> ksplit c s = [s]"
  by (simp add: ksplit_def split_from.simps find_char_from_def find_char_def)

lemma ksplit_sep: "c \<notin> set a \<Longrightarrow> ksplit c (a @ c # b) = a # ksplit c b"
  using split_from_append [of c "a @ [c]" b 0]
  by (simp add: ksplit_def split_from.simps [of c "a @ c # b" 0] find_char_from_def
      find_char_append_Some substr_def)

lemma ksplit_cases:
  obtains "c \<notin> set s" and "ksplit c s = [s]"
  | a b where "s = a @ c # b" and "c \<notin> set a" and "ksplit c s = a # ksplit c b"
  by (metis ksplit_sep ksplit_single split_list_first)

lemma ksplit_nonempty [simp]: "ksplit c s \<noteq> []"
  by (cases c s rule: ksplit_cases) auto

lemma ksplit_no_sep: "x \<in> set (ksplit c s) \<Longrightarrow> c \<notin> set x"
proof (induction "length s" arbitrary: s x rule: less_induct)
  case less
  show ?case
  proof (cases c s rule: ksplit_cases)
    case 1
    with less.prems show ?thesis by simp
  next
    case (2 a b)
    with less.prems less.hyps [of b x] show ?thesis by auto
  qed
qed

lemma foldl_join: "foldl (\<lambda>r y. r @ [c] @ y) (a @ x) ys = a @ foldl (\<lambda>r y. r @ [c] @ y) x ys"
  by (induction ys arbitrary: x) simp_all

lemma join_Cons: "ys \<noteq> [] \<Longrightarrow> join c (x # ys) = x @ c # join c ys"
  using foldl_join [of c "x @ [c]"] by (cases ys) (simp_all add: join_def)

lemma join_single [simp]: "join c [x] = x" "join c [] = []"
  by (simp_all add: join_def)

lemma join_ksplit: "join c (ksplit c s) = s"
proof (induction "length s" arbitrary: s rule: less_induct)
  case less
  show ?case
  proof (cases c s rule: ksplit_cases)
    case 1
    then show ?thesis by simp
  next
    case (2 a b)
    with less.hyps [of b] show ?thesis by (simp add: join_Cons)
  qed
qed

lemma ksplit_join: "xs \<noteq> [] \<Longrightarrow> \<forall>x \<in> set xs. c \<notin> set x \<Longrightarrow> ksplit c (join c xs) = xs"
proof (induction xs)
  case Nil
  then show ?case by simp
next
  case (Cons x xs)
  then show ?case
    by (cases "xs = []") (auto simp: join_Cons ksplit_sep ksplit_single)
qed

lemma join_eq_iff: "\<lbrakk>xs \<noteq> []; ys \<noteq> []; \<forall>x \<in> set xs \<union> set ys. c \<notin> set x\<rbrakk> \<Longrightarrow>
    join c xs = join c ys \<longleftrightarrow> xs = ys"
  by (metis UnCI ksplit_join)

section \<open>URL decoding\<close>

text \<open>
  \<open>KString::decodeURL\<close> runs two iterators over one buffer: \<open>src\<close> reads, \<open>dst\<close> writes, and the
  buffer is cut at \<open>dst\<close>. The reads of \<open>src[1]\<close> and \<open>src[2]\<close> happen only when at least two
  characters are left, so the furthest is the terminating NUL.
\<close>

definition hex_pair :: "char \<Rightarrow> char \<Rightarrow> char res" where
  "hex_pair c1 c2 =
     res_bind (hex2int c1) (\<lambda>h1. res_bind (hex2int c2) (\<lambda>h2. Inr (chr (16 * h1 + h2))))"

function decodeURL_loop :: "bool \<Rightarrow> string \<Rightarrow> nat \<Rightarrow> nat \<Rightarrow> string res" where
  "decodeURL_loop formenc s src dst =
     (if src < length s then
        if s ! src = CHR ''%'' \<and> 2 \<le> length s - src \<and>
           isxdigit (c_at s (src + 1)) \<and> isxdigit (c_at s (src + 2))
        then res_bind (hex_pair (c_at s (src + 1)) (c_at s (src + 2)))
               (\<lambda>c. decodeURL_loop formenc (s[dst := c]) (src + 3) (dst + 1))
        else if formenc \<and> s ! src = CHR ''+''
        then decodeURL_loop formenc (s[dst := CHR '' '']) (src + 1) (dst + 1)
        else decodeURL_loop formenc (s[dst := s ! src]) (src + 1) (dst + 1)
      else Inr (take dst s))"
  by pat_completeness auto
termination
  by (relation "measure (\<lambda>(f, s, src, dst). length s - src)") auto

declare decodeURL_loop.simps [simp del]

definition decodeURL :: "bool \<Rightarrow> string \<Rightarrow> string res" where
  "decodeURL formenc s = decodeURL_loop formenc s 0 0"

text \<open>The specification: percent decoding as a function from text to text.\<close>

definition hexval :: "char \<Rightarrow> nat" where
  "hexval c = (case hex2int c of Inl _ \<Rightarrow> 0 | Inr n \<Rightarrow> n)"

fun url_decode :: "bool \<Rightarrow> string \<Rightarrow> string" where
  "url_decode f [] = []"
| "url_decode f [c] = [if f \<and> c = CHR ''+'' then CHR '' '' else c]"
| "url_decode f [c, d] = (if f \<and> c = CHR ''+'' then CHR '' '' else c) # url_decode f [d]"
| "url_decode f (c # h1 # h2 # s) =
     (if c = CHR ''%'' \<and> isxdigit h1 \<and> isxdigit h2
      then chr (16 * hexval h1 + hexval h2) # url_decode f s
      else (if f \<and> c = CHR ''+'' then CHR '' '' else c) # url_decode f (h1 # h2 # s))"

definition pct_encode :: "(char \<Rightarrow> bool) \<Rightarrow> string \<Rightarrow> string" where
  "pct_encode keep s = concat (map (\<lambda>c. if keep c then [c]
      else [CHR ''%'', hex_digit (ord c div 16), hex_digit (ord c mod 16)]) s)"

lemma not_isxdigit_NUL: "\<not> isxdigit NUL"
  by (simp add: char_class char_consts)

lemma url_decode_plain:
  assumes "\<not> (c = CHR ''%'' \<and> 2 \<le> length s \<and> isxdigit (s ! 0) \<and> isxdigit (s ! 1))"
  shows "url_decode f (c # s) = (if f \<and> c = CHR ''+'' then CHR '' '' else c) # url_decode f s"
  using assms by (cases "(f, c # s)" rule: url_decode.cases) auto

lemma hex_pair_hexval:
  "isxdigit c1 \<Longrightarrow> isxdigit c2 \<Longrightarrow> hex_pair c1 c2 = Inr (chr (16 * hexval c1 + hexval c2))"
  unfolding hex2int_ok_iff [symmetric] hexval_def hex_pair_def by auto

lemma take_update_snoc: "dst < length s \<Longrightarrow> take (Suc dst) (s[dst := c]) = take dst s @ [c]"
  by (simp add: take_Suc_conv_app_nth)

lemma decodeURL_loop_url_decode:
  "dst \<le> src \<Longrightarrow> src \<le> length s \<Longrightarrow>
     decodeURL_loop f s src dst = Inr (take dst s @ url_decode f (drop src s))"
proof (induction f s src dst rule: decodeURL_loop.induct)
  case (1 f s src dst)
  show ?case
  proof (cases "src < length s")
    case False
    with "1.prems" show ?thesis by (simp add: decodeURL_loop.simps)
  next
    case True
    let ?c1 = "c_at s (src + 1)" and ?c2 = "c_at s (src + 2)"
    have d: "drop src s = s ! src # drop (Suc src) s"
      using True by (rule Cons_nth_drop_Suc [symmetric])
    show ?thesis
    proof (cases "s ! src = CHR ''%'' \<and> 2 \<le> length s - src \<and> isxdigit ?c1 \<and> isxdigit ?c2")
      case hex: True
      then have len: "src + 2 < length s"
        by (auto simp: c_at_def not_isxdigit_NUL split: if_splits)
      then have d3: "drop src s = s ! src # ?c1 # ?c2 # drop (src + 3) s"
        by (simp add: d c_at_def Cons_nth_drop_Suc [symmetric] numeral_3_eq_3)
      from hex have hp: "hex_pair ?c1 ?c2 = Inr (chr (16 * hexval ?c1 + hexval ?c2))"
        by (simp add: hex_pair_hexval)
      have "decodeURL_loop f s src dst =
          decodeURL_loop f (s[dst := chr (16 * hexval ?c1 + hexval ?c2)]) (src + 3) (dst + 1)"
        using True hex hp by (subst decodeURL_loop.simps) simp
      also have "\<dots> = Inr (take dst s @ url_decode f (drop src s))"
        using "1.IH"(1) [OF True hex hp] "1.prems" len hex
        by (simp add: d3 take_update_snoc)
      finally show ?thesis .
    next
      case nohex: False
      then have plain: "url_decode f (drop src s) =
          (if f \<and> s ! src = CHR ''+'' then CHR '' '' else s ! src) # url_decode f (drop (Suc src) s)"
        unfolding d by (intro url_decode_plain)
          (use True in \<open>auto simp: c_at_def less_diff_conv Suc_le_eq numeral_2_eq_2 split: if_splits\<close>)
      show ?thesis
      proof (cases "f \<and> s ! src = CHR ''+''")
        case plus: True
        with True nohex "1.IH"(2) [OF True nohex plus] "1.prems" plain show ?thesis
          by (subst decodeURL_loop.simps) (simp add: take_update_snoc)
      next
        case noplus: False
        with True nohex "1.IH"(3) [OF True nohex noplus] "1.prems" plain show ?thesis
          by (subst decodeURL_loop.simps) (auto simp: take_update_snoc)
      qed
    qed
  qed
qed

lemma decodeURL_eq_url_decode: "decodeURL f s = Inr (url_decode f s)"
  by (simp add: decodeURL_def decodeURL_loop_url_decode)

lemma length_url_decode: "length (url_decode f s) \<le> length s"
  by (induction f s rule: url_decode.induct) auto

lemma hexval_hex_digit: "d < 16 \<Longrightarrow> hexval (hex_digit d) = d"
  by (simp add: hexval_def hex2int_hex_digit)

lemma url_decode_pct_Cons:
  "url_decode f (CHR ''%'' # hex_digit (ord c div 16) # hex_digit (ord c mod 16) # s) = c # url_decode f s"
proof -
  have "ord c div 16 < 16" "ord c mod 16 < 16"
    using ord_less_256 [of c] by (simp_all add: less_mult_imp_div_less)
  then show ?thesis
    by (simp add: isxdigit_hex_digit hexval_hex_digit)
qed

lemma url_decode_pct_encode:
  assumes "\<And>c. keep c \<Longrightarrow> c \<noteq> CHR ''%'' \<and> \<not> (f \<and> c = CHR ''+'')"
  shows "url_decode f (pct_encode keep s) = s"
proof (induction s)
  case Nil
  then show ?case by (simp add: pct_encode_def)
next
  case (Cons c s)
  have *: "pct_encode keep (c # s) = (if keep c then c # pct_encode keep s
      else CHR ''%'' # hex_digit (ord c div 16) # hex_digit (ord c mod 16) # pct_encode keep s)"
    by (simp add: pct_encode_def)
  show ?case
  proof (cases "keep c")
    case True
    with assms Cons show ?thesis by (simp add: * url_decode_plain)
  next
    case False
    with Cons show ?thesis by (simp only: * if_False url_decode_pct_Cons)
  qed
qed

lemma url_decode_no_pct: "CHR ''%'' \<notin> set s \<Longrightarrow> url_decode False s = s"
  by (induction "False" s rule: url_decode.induct) auto

lemma url_decode_hd: "s \<noteq> [] \<Longrightarrow> hd s = CHR ''/'' \<Longrightarrow>
    url_decode f s = CHR ''/'' # url_decode f (tl s)"
  by (cases s) (simp_all add: url_decode_plain)

end
