(* ===== verification/QuotedString.thy ===== *)
theory QuotedString
  imports Kdump_Prelude
begin

text \<open>
  \<^verbatim>\<open>kdumptool/quotedstring.cc\<close>: the two quoting classes. \<open>ShellQuotedString\<close> is undone by the quote
  removal of a POSIX shell, \<open>KernelQuotedString\<close> by the kernel command line parser of
  \<^verbatim>\<open>configparser.cc\<close> (theory ConfigParser); the locale \<open>quoting\<close> states that contract.
\<close>

section \<open>The contract\<close>

locale quoting =
  fixes quote :: "string \<Rightarrow> string"
    and unquote :: "string \<Rightarrow> string option"
  assumes unquote_quote: "unquote (quote s) = Some s"
begin

lemma inj_quote: "inj quote"
  by (rule injI) (metis option.inject unquote_quote)

lemma quote_eq_iff: "quote s = quote t \<longleftrightarrow> s = t"
  using inj_quote by (auto dest: injD)

end

section \<open>Shell quoting\<close>

definition is_shell_safe :: "char \<Rightarrow> bool" where
  "is_shell_safe c \<longleftrightarrow>
     (48 \<le> ord c \<and> ord c \<le> 57) \<or> (65 \<le> ord c \<and> ord c \<le> 90) \<or> (97 \<le> ord c \<and> ord c \<le> 122) \<or>
     c \<in> set ''_/@.,:''"

fun shell_quoted_loop :: "string \<Rightarrow> string \<Rightarrow> bool \<Rightarrow> string \<times> bool" where
  "shell_quoted_loop [] ret quotes_needed = (ret, quotes_needed)"
| "shell_quoted_loop (c # cs) ret quotes_needed =
     (let ret1 = ret @ [c];
          q1 = (if \<not> is_shell_safe c then True else quotes_needed);
          ret2 = (if c = SQUOTE then ret1 @ [BSLASH, SQUOTE, SQUOTE] else ret1)
      in shell_quoted_loop cs ret2 q1)"

definition shell_quoted :: "string \<Rightarrow> string" where
  "shell_quoted s =
     (let (ret, quotes_needed) = shell_quoted_loop s [] False
      in if quotes_needed
         then let ret1 = SQUOTE # ret
              in if last ret1 = SQUOTE then butlast ret1 else ret1 @ [SQUOTE]
         else ret)"

text \<open>
  The specification is quote removal as POSIX (Shell Command Language, 2.2) describes it for one
  word: a single-quoted string is literal up to the next quote, a backslash takes the next
  character literally, and the characters of \<open>sh_special\<close> have a meaning of their own unless
  quoted, so that a word with an unquoted one is no plain word (\<^const>\<open>None\<close>).
\<close>

definition sh_special :: "char \<Rightarrow> bool" where
  "sh_special c \<longleftrightarrow> c \<in> set ''|&;<>()$`*?[#~=%'' \<or> c = DQUOTE \<or> c = CHR '' '' \<or> c = TAB \<or> c = NL"

fun sh_unquote :: "bool \<Rightarrow> string \<Rightarrow> string option" where
  "sh_unquote inq [] = (if inq then None else Some [])"
| "sh_unquote True (c # s) =
     (if c = SQUOTE then sh_unquote False s else map_option (Cons c) (sh_unquote True s))"
| "sh_unquote False [c] = (if c = SQUOTE \<or> c = BSLASH \<or> sh_special c then None else Some [c])"
| "sh_unquote False (c # d # s) =
     (if c = SQUOTE then sh_unquote True (d # s)
      else if c = BSLASH then (if d = NL then None else map_option (Cons d) (sh_unquote False s))
      else if sh_special c then None
      else map_option (Cons c) (sh_unquote False (d # s)))"

definition sq_escape :: "string \<Rightarrow> string" where
  "sq_escape s = concat (map (\<lambda>c. if c = SQUOTE then [SQUOTE, BSLASH, SQUOTE, SQUOTE] else [c]) s)"

lemma sq_escape_simps [simp]:
  "sq_escape [] = []"
  "sq_escape (c # s) = (if c = SQUOTE then [SQUOTE, BSLASH, SQUOTE, SQUOTE] else [c]) @ sq_escape s"
  "sq_escape (s @ t) = sq_escape s @ sq_escape t"
  by (simp_all add: sq_escape_def)

lemma shell_quoted_loop_eq:
  "shell_quoted_loop s ret q = (ret @ sq_escape s, q \<or> (\<exists>c \<in> set s. \<not> is_shell_safe c))"
  by (induction s arbitrary: ret q) (auto simp: Let_def)

lemma SQUOTE_neq_BSLASH [simp]: "SQUOTE \<noteq> BSLASH" "BSLASH \<noteq> SQUOTE"
  by (simp_all add: char_consts)

lemma sh_unquote_open [simp]: "sh_unquote False (SQUOTE # x) = sh_unquote True x"
  by (cases x) auto

lemma sh_unquote_escape:
  "sh_unquote True (sq_escape s @ SQUOTE # t) = map_option (append s) (sh_unquote False t)"
proof (induction s)
  case Nil
  then show ?case by (simp add: option.map_ident_strong)
next
  case (Cons c s)
  have "SQUOTE \<noteq> NL" by (simp add: char_consts)
  with Cons show ?case
    by (auto simp: option.map_comp comp_def)
qed

lemma is_shell_safe_plain:
  assumes "is_shell_safe c"
  shows "c \<noteq> SQUOTE" and "c \<noteq> BSLASH" and "\<not> sh_special c"
proof -
  have "\<forall>d. sh_special d \<or> d = SQUOTE \<or> d = BSLASH \<longrightarrow> \<not> is_shell_safe d"
    by (auto simp: sh_special_def is_shell_safe_def ord_def char_consts)
  with assms show "c \<noteq> SQUOTE" "c \<noteq> BSLASH" "\<not> sh_special c" by blast+
qed

lemma sh_unquote_safe: "\<forall>c \<in> set s. is_shell_safe c \<Longrightarrow> sh_unquote False s = Some s"
proof (induction "False" s rule: sh_unquote.induct)
  case (3 c)
  then show ?case by (auto dest: is_shell_safe_plain)
next
  case (4 c d s)
  then show ?case by (auto dest: is_shell_safe_plain)
qed simp_all

lemma last_sq_escape: "s \<noteq> [] \<Longrightarrow> last (sq_escape s) = last s"
  by (cases s rule: rev_cases) auto

lemma sq_escape_nonempty: "s \<noteq> [] \<Longrightarrow> sq_escape s \<noteq> []"
  by (cases s) auto

lemma sh_unquote_shell_quoted: "sh_unquote False (shell_quoted s) = Some s"
proof (cases "\<exists>c \<in> set s. \<not> is_shell_safe c")
  case False
  then have "sq_escape s = s"
    by (induction s) (auto dest: is_shell_safe_plain)
  with False show ?thesis
    by (auto simp: shell_quoted_def shell_quoted_loop_eq sh_unquote_safe)
next
  case True
  then have ne: "s \<noteq> []" by auto
  then have l: "last (SQUOTE # sq_escape s) = last s"
    by (simp add: last_sq_escape sq_escape_nonempty)
  have start: "sh_unquote False (SQUOTE # c # t) = sh_unquote True (c # t)" for c t
    by simp
  show ?thesis
  proof (cases "last s = SQUOTE")
    case sq: True
    with ne obtain s' where s: "s = s' @ [SQUOTE]" by (metis append_butlast_last_id)
    have "shell_quoted s = SQUOTE # sq_escape s' @ SQUOTE # [BSLASH, SQUOTE]"
      using True l sq by (simp add: shell_quoted_def shell_quoted_loop_eq s butlast_append)
    then show ?thesis
      by (simp add: sh_unquote_escape s) (simp add: char_consts)
  next
    case False
    with True l have "shell_quoted s = SQUOTE # sq_escape s @ [SQUOTE]"
      by (simp add: shell_quoted_def shell_quoted_loop_eq)
    then show ?thesis
      by (simp add: sh_unquote_escape)
  qed
qed

interpretation shell_quoting: quoting shell_quoted "sh_unquote False"
  by unfold_locales (rule sh_unquote_shell_quoted)

section \<open>Kernel command line quoting\<close>

definition is_kernel_space :: "char \<Rightarrow> bool" where
  "is_kernel_space c \<longleftrightarrow> (9 \<le> ord c \<and> ord c \<le> 13) \<or> ord c = 32 \<or> ord c = 160"

fun kernel_quoted_loop :: "string \<Rightarrow> string \<Rightarrow> bool \<Rightarrow> string \<times> bool" where
  "kernel_quoted_loop [] ret quotes_needed = (ret, quotes_needed)"
| "kernel_quoted_loop (c # cs) ret quotes_needed =
     (let q1 = (if is_kernel_space c then True else quotes_needed);
          ret1 = (if c = DQUOTE then ret @ BSLASH # ''042''
                  else if c = BSLASH then ret @ [BSLASH, BSLASH]
                  else ret @ [c])
      in kernel_quoted_loop cs ret1 q1)"

definition kernel_quoted :: "string \<Rightarrow> string" where
  "kernel_quoted s =
     (let (ret, quotes_needed) = kernel_quoted_loop s [] False
      in if quotes_needed then DQUOTE # ret @ [DQUOTE] else ret)"

definition kesc_char :: "char \<Rightarrow> string" where
  "kesc_char c = (if c = DQUOTE then BSLASH # ''042''
                  else if c = BSLASH then [BSLASH, BSLASH] else [c])"

lemma kernel_quoted_loop_eq:
  "kernel_quoted_loop s ret q = (ret @ concat (map kesc_char s), q \<or> (\<exists>c \<in> set s. is_kernel_space c))"
  by (induction s arbitrary: ret q) (auto simp: Let_def kesc_char_def)

lemma kernel_quoted_eq:
  "kernel_quoted s =
     (if \<exists>c \<in> set s. is_kernel_space c then DQUOTE # concat (map kesc_char s) @ [DQUOTE]
      else concat (map kesc_char s))"
  by (simp add: kernel_quoted_def kernel_quoted_loop_eq)

end
