(* ===== verification/ConfigParser.thy ===== *)
theory ConfigParser
  imports StringUtil QuotedString
begin

text \<open>
  \<^verbatim>\<open>kdumptool/configparser.cc\<close>: the variable table of \<open>ConfigParser\<close>, the shell based parser
  (the shell is a parameter: a function from the script on its standard input to its standard
  output) and the reimplementation of the kernel command line parser, which is proved to undo
  \<^const>\<open>kernel_quoted\<close>.
\<close>

section \<open>The variable table\<close>

record config_parser =
  m_configFile :: string
  m_variables :: "(string \<times> string) list"

definition config_parser_new :: "string \<Rightarrow> config_parser" where
  "config_parser_new filename = \<lparr>m_configFile = filename, m_variables = []\<rparr>"

definition addVariable :: "string \<Rightarrow> string \<Rightarrow> config_parser \<Rightarrow> config_parser" where
  "addVariable name defvalue cp = cp\<lparr>m_variables := smap_insert name defvalue (m_variables cp)\<rparr>"

definition getValue :: "string \<Rightarrow> config_parser \<Rightarrow> string res" where
  "getValue name cp =
     (case map_of (m_variables cp) name of
        None \<Rightarrow> Inl (KError (''Variable '' @ name @ '' does not exist.''))
      | Some v \<Rightarrow> Inr v)"

lemma getValue_addVariable:
  "getValue k (addVariable name v cp) = (if k = name then Inr v else getValue k cp)"
  by (simp add: getValue_def addVariable_def smap.find_insert)

section \<open>ShellConfigParser\<close>

definition open_config :: "(string \<Rightarrow> errno + string) \<Rightarrow> string \<Rightarrow> string res" where
  "open_config files filename =
     (case files filename of
        Inl e \<Rightarrow> Inl (KSystemError (''Cannot open config file '' @ filename) e)
      | Inr content \<Rightarrow> Inr content)"

definition shell_script :: "(string \<times> string) list \<Rightarrow> string \<Rightarrow> string" where
  "shell_script vars content =
     ''#!/bin/sh'' @ [NL] @
     concat (map (\<lambda>(name, v). name @ ''='' @ shell_quoted v @ [NL]) vars) @
     content @
     concat (map (\<lambda>(name, v). ''echo '' @ [SQUOTE] @ name @ ''='' @ [SQUOTE] @ ''$'' @ name @ [NL]) vars)"

fun shell_output :: "string list \<Rightarrow> nat \<Rightarrow> config_parser \<Rightarrow> config_parser res" where
  "shell_output [] no cp = Inr cp"
| "shell_output (s # ss) no cp =
     (case find_char (CHR ''='') s of
        None \<Rightarrow> Inl (KError (''Parsing line number '' @ number2string (int no) @ '' failed.''))
      | Some loc \<Rightarrow> shell_output ss no
          (cp\<lparr>m_variables := smap_insert (take loc s) (drop (loc + 1) s) (m_variables cp)\<rparr>))"

definition shell_parse ::
    "(string \<Rightarrow> errno + string) \<Rightarrow> (string \<Rightarrow> string) \<Rightarrow> config_parser \<Rightarrow> config_parser res" where
  "shell_parse files sh cp =
     res_bind (open_config files (m_configFile cp)) (\<lambda>content.
       shell_output (stream_lines (sh (shell_script (m_variables cp) content))) 1 cp)"

text \<open>A well-formed answer of the shell, one \<^verbatim>\<open>name=value\<close> line per variable, is stored as it is.\<close>

definition env_lines :: "(string \<times> string) list \<Rightarrow> string" where
  "env_lines env = concat (map (\<lambda>(name, v). name @ ''='' @ v @ [NL]) env)"

lemma stream_lines_env:
  "\<forall>(name, v) \<in> set env. NL \<notin> set name \<and> NL \<notin> set v \<Longrightarrow>
   stream_lines (env_lines env) = map (\<lambda>(name, v). name @ ''='' @ v) env"
proof (induction env)
  case Nil
  then show ?case by (simp add: env_lines_def)
next
  case (Cons p env)
  obtain name v where p: "p = (name, v)" by (cases p)
  have "NL \<notin> set (name @ ''='' @ v)"
    using Cons.prems p by (auto simp: char_consts)
  then have "stream_lines ((name @ ''='' @ v) @ NL # env_lines env) =
      (name @ ''='' @ v) # stream_lines (env_lines env)"
    by (rule stream_lines_line)
  with Cons p show ?case by (simp add: env_lines_def)
qed

lemma shell_output_env:
  "\<forall>(name, v) \<in> set env. CHR ''='' \<notin> set name \<Longrightarrow>
   shell_output (map (\<lambda>(name, v). name @ ''='' @ v) env) no cp =
     Inr (cp\<lparr>m_variables := smap.insert_all env (m_variables cp)\<rparr>)"
  by (induction env arbitrary: cp) (auto simp: find_char_append_Some)

section \<open>KernelConfigParser\<close>

text \<open>
  The loop over the characters of the file. \<open>kp_in_value\<close> says which of the two strings the
  output pointer \<open>outp\<close> points to; \<open>fin.peek()\<close> is the head of the remaining input.
\<close>

record kparse =
  kp_name :: string
  kp_value :: string
  kp_in_value :: bool
  kp_inquote :: bool
  kp_vars :: "(string \<times> string) list"

definition kp_append :: "string \<Rightarrow> kparse \<Rightarrow> kparse" where
  "kp_append s st =
     (if kp_in_value st then st\<lparr>kp_value := kp_value st @ s\<rparr>
      else st\<lparr>kp_name := kp_name st @ s\<rparr>)"

definition kp_commit :: "kparse \<Rightarrow> kparse" where
  "kp_commit st =
     st\<lparr>kp_vars := smap_insert (kp_name st) (kp_value st) (kp_vars st),
        kp_name := [], kp_value := [], kp_in_value := False\<rparr>"

definition is_octal :: "char \<Rightarrow> bool" where
  "is_octal c \<longleftrightarrow> 48 \<le> ord c \<and> ord c \<le> 55"

definition octal_char :: "string \<Rightarrow> char" where
  "octal_char s =
     chr ((64 * (ord (s ! 0) - 48) + 8 * (ord (s ! 1) - 48) + (ord (s ! 2) - 48)) mod 256)"

function kernel_parse_loop :: "string \<Rightarrow> kparse \<Rightarrow> kparse" where
  "kernel_parse_loop [] st = st"
| "kernel_parse_loop (c # cs) st =
     (if c = DQUOTE then kernel_parse_loop cs (st\<lparr>kp_inquote := \<not> kp_inquote st\<rparr>)
      else if c = CHR ''='' \<and> \<not> kp_in_value st then kernel_parse_loop cs (st\<lparr>kp_in_value := True\<rparr>)
      else if (is_kernel_space c \<and> \<not> kp_inquote st) \<or> cs = [] then
        (if kp_name st = [] then kernel_parse_loop cs st else kernel_parse_loop cs (kp_commit st))
      else if c = BSLASH then
        (if hd cs = BSLASH then kernel_parse_loop (tl cs) (kp_append [BSLASH] st)
         else let seq = takeWhile is_octal (take 3 cs)
              in if length seq < 3
                 then kernel_parse_loop (drop (length seq) cs) (kp_append (BSLASH # seq) st)
                 else kernel_parse_loop (drop 3 cs) (kp_append [octal_char seq] st))
      else kernel_parse_loop cs (kp_append [c] st))"
  by pat_completeness auto
termination
  by (relation "measure (\<lambda>(cs, st). length cs)") (auto simp: le_imp_less_Suc)

declare kernel_parse_loop.simps(2) [simp del]

definition kparse_init :: "(string \<times> string) list \<Rightarrow> kparse" where
  "kparse_init vars = \<lparr>kp_name = [], kp_value = [], kp_in_value = False, kp_inquote = False,
     kp_vars = vars\<rparr>"

definition kernel_parse :: "(string \<Rightarrow> errno + string) \<Rightarrow> config_parser \<Rightarrow> config_parser res" where
  "kernel_parse files cp =
     res_bind (open_config files (m_configFile cp)) (\<lambda>content.
       Inr (cp\<lparr>m_variables := kp_vars (kernel_parse_loop content (kparse_init (m_variables cp)))\<rparr>))"

subsection \<open>The parser undoes the quoting\<close>

definition plain_name :: "string \<Rightarrow> bool" where
  "plain_name n \<longleftrightarrow> n \<noteq> [] \<and>
     (\<forall>c \<in> set n. c \<noteq> DQUOTE \<and> c \<noteq> CHR ''='' \<and> c \<noteq> BSLASH \<and> \<not> is_kernel_space c)"

lemma kp_append_append: "kp_append t (kp_append s st) = kp_append (s @ t) st"
  by (simp add: kp_append_def)

lemma kp_append_simps [simp]:
  "kp_in_value (kp_append s st) = kp_in_value st"
  "kp_inquote (kp_append s st) = kp_inquote st"
  "kp_vars (kp_append s st) = kp_vars st"
  "kp_append [] st = st"
  by (simp_all add: kp_append_def)

lemma kernel_parse_plain:
  assumes "\<forall>c \<in> set s. c \<noteq> DQUOTE \<and> c \<noteq> CHR ''='' \<and> c \<noteq> BSLASH \<and> \<not> is_kernel_space c" and "t \<noteq> []"
  shows "kernel_parse_loop (s @ t) st = kernel_parse_loop t (kp_append s st)"
  using assms(1)
proof (induction s arbitrary: st)
  case Nil
  then show ?case by simp
next
  case (Cons c s)
  with assms(2) have "kernel_parse_loop ((c # s) @ t) st = kernel_parse_loop (s @ t) (kp_append [c] st)"
    by (simp add: kernel_parse_loop.simps(2))
  with Cons show ?case by (simp add: kp_append_append)
qed

lemma takeWhile_octal_042: "takeWhile is_octal (take 3 (''042'' @ t)) = ''042''"
  by (simp add: is_octal_def ord_def)

lemma octal_char_042: "octal_char ''042'' = DQUOTE"
proof -
  have "octal_char ''042'' = chr 34" by (simp add: octal_char_def ord_def)
  also have "34 = ord DQUOTE" by (simp add: ord_def char_consts)
  finally show ?thesis by simp
qed

lemma kernel_parse_kesc_char:
  assumes "t \<noteq> []" and "kp_in_value st" and "kp_inquote st \<or> \<not> is_kernel_space c"
  shows "kernel_parse_loop (kesc_char c @ t) st = kernel_parse_loop t (kp_append [c] st)"
proof -
  consider "c = DQUOTE" | "c = BSLASH" | "c \<noteq> DQUOTE" "c \<noteq> BSLASH" by blast
  then show ?thesis
  proof cases
    case 1
    have "\<not> is_kernel_space BSLASH" "BSLASH \<noteq> DQUOTE" "BSLASH \<noteq> CHR ''=''" "BSLASH \<noteq> CHR ''0''"
      by (simp_all add: is_kernel_space_def ord_def char_consts)
    with 1 takeWhile_octal_042 [of t] octal_char_042 show ?thesis
      by (simp add: kesc_char_def kernel_parse_loop.simps(2) [of BSLASH] Let_def)
  next
    case 2
    have "\<not> is_kernel_space BSLASH" "BSLASH \<noteq> DQUOTE" "BSLASH \<noteq> CHR ''=''"
      by (simp_all add: is_kernel_space_def ord_def char_consts)
    with 2 show ?thesis
      by (simp add: kesc_char_def kernel_parse_loop.simps(2) [of BSLASH])
  next
    case 3
    with assms show ?thesis
      by (auto simp: kesc_char_def kernel_parse_loop.simps(2))
  qed
qed

lemma kernel_parse_kesc:
  assumes "t \<noteq> []" and "kp_in_value st" and "kp_inquote st \<or> (\<forall>c \<in> set v. \<not> is_kernel_space c)"
  shows "kernel_parse_loop (concat (map kesc_char v) @ t) st = kernel_parse_loop t (kp_append v st)"
  using assms(2,3)
proof (induction v arbitrary: st)
  case Nil
  then show ?case by simp
next
  case (Cons c v)
  from Cons.prems assms(1) have "kernel_parse_loop (kesc_char c @ concat (map kesc_char v) @ t) st =
      kernel_parse_loop (concat (map kesc_char v) @ t) (kp_append [c] st)"
    by (intro kernel_parse_kesc_char) auto
  moreover have "kernel_parse_loop (concat (map kesc_char v) @ t) (kp_append [c] st) =
      kernel_parse_loop t (kp_append v (kp_append [c] st))"
    using Cons.prems by (intro Cons.IH) auto
  ultimately show ?case by (simp add: kp_append_append)
qed

lemma kernel_parse_quote:
  "kernel_parse_loop (DQUOTE # cs) st = kernel_parse_loop cs (st\<lparr>kp_inquote := \<not> kp_inquote st\<rparr>)"
  by (simp add: kernel_parse_loop.simps(2))

lemma kernel_parse_quoted_value:
  assumes "kp_in_value st" and "\<not> kp_inquote st" and "t \<noteq> []"
  shows "kernel_parse_loop (kernel_quoted v @ t) st = kernel_parse_loop t (kp_append v st)"
proof (cases "\<exists>c \<in> set v. is_kernel_space c")
  case True
  have "kernel_parse_loop (kernel_quoted v @ t) st =
      kernel_parse_loop (concat (map kesc_char v) @ DQUOTE # t) (st\<lparr>kp_inquote := True\<rparr>)"
    using True assms by (simp add: kernel_quoted_eq kernel_parse_quote)
  also have "\<dots> = kernel_parse_loop (DQUOTE # t) (kp_append v (st\<lparr>kp_inquote := True\<rparr>))"
    by (rule kernel_parse_kesc) (use assms in auto)
  also have "\<dots> = kernel_parse_loop t (kp_append v st)"
    using assms by (cases st) (simp add: kernel_parse_quote kp_append_def)
  finally show ?thesis .
next
  case False
  with assms show ?thesis
    by (simp add: kernel_quoted_eq kernel_parse_kesc)
qed

text \<open>One \<^verbatim>\<open>name=quoted-value\<close> parameter followed by white space sets exactly that variable.\<close>

lemma kernel_parse_assignment:
  assumes n: "plain_name n" and d: "is_kernel_space d"
  shows "kernel_parse_loop (n @ CHR ''='' # kernel_quoted v @ d # t) (kparse_init vars) =
         kernel_parse_loop t (kparse_init (smap_insert n v vars))"
proof -
  let ?st = "(kp_append n (kparse_init vars))\<lparr>kp_in_value := True\<rparr>"
  have dq: "d \<noteq> DQUOTE" "d \<noteq> CHR ''=''"
    using d by (auto simp: is_kernel_space_def ord_def char_consts)
  have "CHR ''='' \<noteq> DQUOTE" by (simp add: char_consts)
  then have "kernel_parse_loop (n @ CHR ''='' # kernel_quoted v @ d # t) (kparse_init vars) =
      kernel_parse_loop (kernel_quoted v @ d # t) ?st"
    using n by (subst kernel_parse_plain)
      (auto simp: plain_name_def kernel_parse_loop.simps(2) kparse_init_def)
  also have "\<dots> = kernel_parse_loop (d # t) (kp_append v ?st)"
    by (rule kernel_parse_quoted_value) (auto simp: kparse_init_def)
  also have "\<dots> = kernel_parse_loop t (kparse_init (smap_insert n v vars))"
    using n d dq by (simp add: kernel_parse_loop.simps(2) plain_name_def kparse_init_def
        kp_append_def kp_commit_def)
  finally show ?thesis .
qed

lemma kernel_parse_assignments:
  assumes "\<forall>(n, v) \<in> set env. plain_name n"
  shows "kernel_parse_loop
           (concat (map (\<lambda>(n, v). n @ CHR ''='' # kernel_quoted v @ [CHR '' '']) env))
           (kparse_init vars) = kparse_init (smap.insert_all env vars)"
  using assms
proof (induction env arbitrary: vars)
  case Nil
  then show ?case by simp
next
  case (Cons p env)
  have "is_kernel_space (CHR '' '')" by (simp add: is_kernel_space_def ord_def)
  with Cons show ?case
    by (cases p) (simp add: kernel_parse_assignment)
qed

definition kernel_unquote :: "string \<Rightarrow> string option" where
  "kernel_unquote q =
     map_of (kp_vars (kernel_parse_loop (''v='' @ q @ '' '') (kparse_init []))) ''v''"

interpretation kernel_quoting: quoting kernel_quoted kernel_unquote
proof
  fix s
  have "plain_name ''v''" "is_kernel_space (CHR '' '')"
    by (simp_all add: plain_name_def is_kernel_space_def ord_def char_consts)
  then show "kernel_unquote (kernel_quoted s) = Some s"
    using kernel_parse_assignment [of "''v''" "CHR '' ''" s "[]" "[]"]
    by (simp add: kernel_unquote_def) (simp add: kparse_init_def)
qed

subsection \<open>A parameter without a name\<close>

text \<open>
  White space after a parameter with an empty name neither clears the value nor points \<open>outp\<close>
  back to the name, so everything after a parameter such as \<^verbatim>\<open>=x\<close> is collected as its value and
  no variable is set any more.
\<close>

lemma kernel_parse_no_name:
  "kp_name st = [] \<Longrightarrow> kp_in_value st \<Longrightarrow> kp_vars (kernel_parse_loop cs st) = kp_vars st"
  by (induction cs st rule: kernel_parse_loop.induct)
    (auto simp: kernel_parse_loop.simps(2) Let_def kp_append_def)

end
