(* ===== verification/URLParser.thy ===== *)
theory URLParser
  imports StringUtil
begin

text \<open>
  \<^verbatim>\<open>kdumptool/urlparser.cc\<close> and \<^verbatim>\<open>urlparser.h\<close>: the protocol names and the constructor that takes
  a dump target URL apart. The iterators of \<open>extractScheme\<close> and \<open>extractAuthority\<close> are the
  characters that remain from them on.
\<close>

section \<open>Protocols\<close>

datatype protocol = PROT_FILE | PROT_FTP | PROT_SFTP | PROT_SSH | PROT_NFS | PROT_CIFS

definition string2protocol :: "string \<Rightarrow> protocol res" where
  "string2protocol protocol =
     (if length protocol = 0 then Inl (KError ''Empty protocols are not allowed.'')
      else if strcaseeq protocol ''file'' then Inr PROT_FILE
      else if strcaseeq protocol ''ftp'' then Inr PROT_FTP
      else if strcaseeq protocol ''scp'' then Inr PROT_SFTP
      else if strcaseeq protocol ''sftp'' then Inr PROT_SFTP
      else if strcaseeq protocol ''scp'' then Inr PROT_SFTP
      else if strcaseeq protocol ''ssh'' then Inr PROT_SSH
      else if strcaseeq protocol ''nfs'' then Inr PROT_NFS
      else if strcaseeq protocol ''cifs'' then Inr PROT_CIFS
      else if strcaseeq protocol ''smb'' then Inr PROT_CIFS
      else Inl (KError (''Protocol '' @ protocol @ '' is invalid.'')))"

fun protocol2string :: "protocol \<Rightarrow> string" where
  "protocol2string PROT_FILE = ''file''"
| "protocol2string PROT_FTP = ''ftp''"
| "protocol2string PROT_SFTP = ''sftp''"
| "protocol2string PROT_SSH = ''ssh''"
| "protocol2string PROT_NFS = ''nfs''"
| "protocol2string PROT_CIFS = ''cifs''"

lemma string2protocol_protocol2string: "string2protocol (protocol2string p) = Inr p"
  by (cases p) (simp_all add: string2protocol_def strcaseeq_def tolower_def isupper_def ord_def)

section \<open>Taking the URL apart\<close>

record url_parser =
  m_url :: string
  m_protocol :: protocol
  m_hostname :: string
  m_password :: string
  m_username :: string
  m_port :: int
  m_path :: string

definition FTP_DEFAULT_USER :: string where
  "FTP_DEFAULT_USER = ''anonymous''"

definition SFTP_DEFAULT_USER :: string where
  "SFTP_DEFAULT_USER = ''root''"

definition scheme_end :: "char \<Rightarrow> bool" where
  "scheme_end c \<longleftrightarrow> c \<in> set '':/?#''"

definition authority_end :: "char \<Rightarrow> bool" where
  "authority_end c \<longleftrightarrow> c \<in> set ''/?#''"

definition extractScheme :: "string \<Rightarrow> string \<times> string" where
  "extractScheme it =
     (case it of
        [] \<Rightarrow> ([], it)
      | c # cs \<Rightarrow>
          if \<not> isalpha c then ([], it)
          else (case dropWhile (\<lambda>x. \<not> scheme_end x) cs of
                  [] \<Rightarrow> ([], it)
                | d # r \<Rightarrow> if d \<noteq> CHR '':'' then ([], it)
                           else (c # takeWhile (\<lambda>x. \<not> scheme_end x) cs, r)))"

definition extractAuthority :: "string \<Rightarrow> string \<times> string" where
  "extractAuthority it =
     (if length it < 2 \<or> it ! 0 \<noteq> CHR ''/'' \<or> it ! 1 \<noteq> CHR ''/'' then ([], it)
      else (takeWhile (\<lambda>x. \<not> authority_end x) (drop 2 it),
            dropWhile (\<lambda>x. \<not> authority_end x) (drop 2 it)))"

definition extractPort :: "string \<Rightarrow> (string \<times> int) res" where
  "extractPort authority =
     (let port = rev (takeWhile isdigit (rev authority));
          before = rev (dropWhile isdigit (rev authority))
      in if before \<noteq> [] \<and> last before = CHR '':''
         then (if length port > 0
               then res_bind (asInt port) (\<lambda>p. Inr (butlast before, p))
               else Inr (butlast before, -1))
         else Inr (authority, -1))"

definition extractUserinfo :: "string \<Rightarrow> string \<times> string \<times> string" where
  "extractUserinfo authority =
     (case rfind_char (CHR ''@'') authority of
        None \<Rightarrow> (authority, [], [])
      | Some last_at \<Rightarrow>
          let hostname = drop (last_at + 1) authority;
              userinfo = take last_at authority
          in (case find_char (CHR '':'') userinfo of
                None \<Rightarrow> (hostname, userinfo, [])
              | Some first_colon \<Rightarrow>
                  (hostname, take first_colon userinfo, drop (first_colon + 1) userinfo)))"

definition guess_protocol :: "string \<Rightarrow> string \<Rightarrow> protocol res" where
  "guess_protocol scheme hostname =
     (if scheme = []
      then Inr (if hostname = [] \<or> hostname = ''localhost'' then PROT_FILE else PROT_NFS)
      else string2protocol scheme)"

definition default_username :: "protocol \<Rightarrow> string \<Rightarrow> string" where
  "default_username prot username =
     (if username = []
      then (if prot = PROT_FTP then FTP_DEFAULT_USER
            else if prot = PROT_SFTP \<or> prot = PROT_SSH then SFTP_DEFAULT_USER
            else username)
      else username)"

definition URLParser :: "string \<Rightarrow> url_parser res" where
  "URLParser url =
     (let (scheme, it1) = extractScheme url;
          (authority, path) = extractAuthority it1
      in if path = [] \<or> hd path \<noteq> CHR ''/''
         then Inl (KError ''URLParser: Only absolute paths are supported.'')
         else
           res_bind (extractPort authority) (\<lambda>(auth, port).
           let (host, user, pass) = extractUserinfo auth in
           res_bind (decodeURL False host) (\<lambda>hostname.
           res_bind (decodeURL False pass) (\<lambda>password.
           res_bind (decodeURL False user) (\<lambda>username.
           res_bind (decodeURL False path) (\<lambda>dpath.
           res_bind (guess_protocol scheme hostname) (\<lambda>prot.
           let hostname = (if prot = PROT_FILE \<and> hostname = ''localhost'' then [] else hostname)
           in if prot = PROT_FILE \<and> hostname \<noteq> []
              then Inl (KError ''File protocol cannot specify a remote host'')
              else Inr \<lparr>m_url = url, m_protocol = prot, m_hostname = hostname,
                        m_password = password, m_username = default_username prot username,
                        m_port = port, m_path = dpath\<rparr>)))))))"

text \<open>The getters.\<close>

definition getProtocol :: "url_parser \<Rightarrow> protocol" where
  "getProtocol u = m_protocol u"

definition getProtocolAsString :: "url_parser \<Rightarrow> string" where
  "getProtocolAsString u = protocol2string (m_protocol u)"

definition getUsername :: "url_parser \<Rightarrow> string" where
  "getUsername u = m_username u"

definition getPassword :: "url_parser \<Rightarrow> string" where
  "getPassword u = m_password u"

definition getHostname :: "url_parser \<Rightarrow> string" where
  "getHostname u = m_hostname u"

definition getPort :: "url_parser \<Rightarrow> int" where
  "getPort u = m_port u"

definition getPath :: "url_parser \<Rightarrow> string" where
  "getPath u = m_path u"

definition getURL :: "url_parser \<Rightarrow> string" where
  "getURL u = m_url u"

named_theorems url_getters
lemmas [url_getters] = getProtocol_def getProtocolAsString_def getUsername_def getPassword_def
  getHostname_def getPort_def getPath_def getURL_def

lemma URLParser_stages:
  assumes "extractScheme url = (scheme, it1)" and "extractAuthority it1 = (authority, path)"
    and "extractPort authority = Inr (auth, port)" and "extractUserinfo auth = (host, user, pass)"
    and "path \<noteq> []" and "hd path = CHR ''/''"
  shows "URLParser url =
     res_bind (guess_protocol scheme (url_decode False host)) (\<lambda>prot.
       let hostname = (if prot = PROT_FILE \<and> url_decode False host = ''localhost'' then []
                       else url_decode False host)
       in if prot = PROT_FILE \<and> hostname \<noteq> []
          then Inl (KError ''File protocol cannot specify a remote host'')
          else Inr \<lparr>m_url = url, m_protocol = prot, m_hostname = hostname,
                    m_password = url_decode False pass,
                    m_username = default_username prot (url_decode False user),
                    m_port = port, m_path = url_decode False path\<rparr>)"
  unfolding URLParser_def assms(1) Let_def prod.case assms(2)
  using assms(3-6) by (simp add: decodeURL_eq_url_decode Let_def)

section \<open>What the parser guarantees\<close>

definition url_ok :: "url_parser \<Rightarrow> bool" where
  "url_ok u \<longleftrightarrow>
     m_path u \<noteq> [] \<and> hd (m_path u) = CHR ''/'' \<and>
     (m_protocol u = PROT_FILE \<longrightarrow> m_hostname u = []) \<and>
     (m_protocol u \<in> {PROT_FTP, PROT_SFTP, PROT_SSH} \<longrightarrow> m_username u \<noteq> []) \<and>
     -1 \<le> m_port u \<and> m_port u \<le> INT_MAX"

lemma digits_asInt:
  assumes "ds \<noteq> []" and "\<forall>c \<in> set ds. isdigit c"
  shows "asInt ds = Inr (min (int (dec_val ds)) INT_MAX)"
proof -
  obtain c cs where ds: "ds = c # cs" using assms(1) by (cases ds) auto
  with assms(2) have "c \<noteq> CHR ''-'' \<and> c \<noteq> CHR ''+''" by (auto simp: char_class)
  with ds assms have n: "isNumber ds" "hd ds \<noteq> CHR ''-''" "hd ds \<noteq> CHR ''+''"
    by (auto simp: isNumber_def list_all_iff)
  from scan_int_isNumber [OF n(1), of INT_MIN INT_MAX] n(2,3)
  obtain r where "scan_int INT_MIN INT_MAX ds = Some r"
      "sc_val r = clamp_int INT_MIN INT_MAX (int (dec_val ds))"
    by auto
  then show ?thesis
    by (simp add: asInt_def clamp_int_def int_limits min_def)
qed

lemma extractPort_ok:
  assumes "extractPort auth = Inr (a, p)"
  shows "-1 \<le> p \<and> p \<le> INT_MAX"
proof -
  let ?ds = "rev (takeWhile isdigit (rev auth))"
  have "?ds \<noteq> [] \<Longrightarrow> asInt ?ds = Inr (min (int (dec_val ?ds)) INT_MAX)"
    by (rule digits_asInt) (auto dest: set_takeWhileD)
  with assms show ?thesis
    by (auto simp: extractPort_def Let_def int_limits split: if_splits)
qed

lemma extractPort_total: "\<exists>a p. extractPort auth = Inr (a, p)"
proof -
  let ?ds = "rev (takeWhile isdigit (rev auth))"
  have "?ds \<noteq> [] \<Longrightarrow> asInt ?ds = Inr (min (int (dec_val ?ds)) INT_MAX)"
    by (rule digits_asInt) (auto dest: set_takeWhileD)
  then show ?thesis
    by (auto simp: extractPort_def Let_def)
qed

lemma default_username_nonempty:
  "prot \<in> {PROT_FTP, PROT_SFTP, PROT_SSH} \<Longrightarrow> default_username prot username \<noteq> []"
  by (auto simp: default_username_def FTP_DEFAULT_USER_def SFTP_DEFAULT_USER_def)

lemma URLParser_ok:
  assumes "URLParser url = Inr u"
  shows "url_ok u"
proof -
  obtain scheme it1 where s: "extractScheme url = (scheme, it1)" by fastforce
  obtain authority path where a: "extractAuthority it1 = (authority, path)" by fastforce
  obtain auth port where p: "extractPort authority = Inr (auth, port)"
    using extractPort_total by blast
  obtain host user pass where h: "extractUserinfo auth = (host, user, pass)"
    using prod_cases3 by blast
  from assms have path: "path \<noteq> []" "hd path = CHR ''/''"
    by (auto simp: URLParser_def s a split: if_splits)
  obtain prot hostname where
      host: "prot = PROT_FILE \<longrightarrow> hostname = []" and
      u: "u = \<lparr>m_url = url, m_protocol = prot, m_hostname = hostname,
              m_password = url_decode False pass,
              m_username = default_username prot (url_decode False user),
              m_port = port, m_path = url_decode False path\<rparr>"
    using assms unfolding URLParser_stages [OF s a p h path] res_bind_eq_Inr_iff
    by (auto simp: Let_def simp del: decodeURL_eq_url_decode split: if_splits)
  from path have "url_decode False path = CHR ''/'' # url_decode False (tl path)"
    by (rule url_decode_hd)
  with host extractPort_ok [OF p] default_username_nonempty show ?thesis
    unfolding u url_ok_def by simp
qed

section \<open>Printing and parsing\<close>

text \<open>A URL from its parts, percent-encoded; the parser gives the parts back.\<close>

definition unreserved :: "char \<Rightarrow> bool" where
  "unreserved c \<longleftrightarrow> isalpha c \<or> isdigit c \<or> c \<in> set ''-._~''"

definition url_enc :: "string \<Rightarrow> string" where
  "url_enc s = pct_encode unreserved s"

definition url_enc_path :: "string \<Rightarrow> string" where
  "url_enc_path s = pct_encode (\<lambda>c. unreserved c \<or> c = CHR ''/'') s"

definition print_url ::
    "protocol \<Rightarrow> string \<Rightarrow> string \<Rightarrow> string \<Rightarrow> int \<Rightarrow> string \<Rightarrow> string" where
  "print_url prot user pass host port path =
     protocol2string prot @ ''://'' @ url_enc user @ '':'' @ url_enc pass @ ''@'' @ url_enc host @
     (if port < 0 then [] else '':'' @ number2string port) @ url_enc_path path"

lemma hex_digit_set: "d < 16 \<Longrightarrow> unreserved (hex_digit d)"
proof -
  assume d: "d < 16"
  then have "isxdigit (hex_digit d)" by (rule isxdigit_hex_digit)
  then show ?thesis
    by (auto simp: isxdigit_def unreserved_def isalpha_def isupper_def)
qed

lemma pct_encode_set:
  assumes "c \<in> set (pct_encode keep s)"
  shows "keep c \<or> unreserved c \<or> c = CHR ''%''"
proof -
  from assms obtain x where "c \<in> set (if keep x then [x]
      else [CHR ''%'', hex_digit (ord x div 16), hex_digit (ord x mod 16)])"
    unfolding pct_encode_def set_concat set_map by blast
  moreover have "ord x div 16 < 16" "ord x mod 16 < 16"
    using ord_less_256 [of x] by (simp_all add: less_mult_imp_div_less)
  ultimately show ?thesis
    by (auto simp: hex_digit_set split: if_splits)
qed

lemma unreserved_not:
  "unreserved c \<Longrightarrow> c \<notin> set '':/?#@%''"
proof -
  have "\<forall>d \<in> set '':/?#@%''. \<not> unreserved d"
    by (auto simp: unreserved_def char_class)
  then show "unreserved c \<Longrightarrow> c \<notin> set '':/?#@%''" by blast
qed

lemma url_enc_set: "c \<in> set (url_enc s) \<Longrightarrow> c \<notin> set '':/?#@''"
  unfolding url_enc_def by (drule pct_encode_set) (auto dest: unreserved_not)

lemma url_enc_clean:
  "\<forall>c \<in> set (url_enc s). \<not> authority_end c \<and> c \<noteq> CHR '':'' \<and> c \<noteq> CHR ''@''"
  using url_enc_set by (auto simp: authority_end_def)

lemma url_decode_url_enc: "url_decode False (url_enc s) = s"
  unfolding url_enc_def by (rule url_decode_pct_encode) (auto dest: unreserved_not)

lemma url_decode_url_enc_path: "url_decode False (url_enc_path s) = s"
  unfolding url_enc_path_def by (rule url_decode_pct_encode) (auto dest: unreserved_not)

lemma url_enc_path_Cons: "url_enc_path (CHR ''/'' # s) = CHR ''/'' # url_enc_path s"
  by (simp add: url_enc_path_def pct_encode_def)

lemma extractScheme_print:
  "extractScheme (protocol2string prot @ CHR '':'' # r) = (protocol2string prot, r)"
  by (cases prot) (simp_all add: extractScheme_def isalpha_def isupper_def ord_def scheme_end_def)

lemma extractAuthority_print:
  assumes "\<forall>c \<in> set a. \<not> authority_end c"
  shows "extractAuthority (''//'' @ a @ CHR ''/'' # p) = (a, CHR ''/'' # p)"
  using assms by (simp add: extractAuthority_def takeWhile_all_append dropWhile_all_append)
    (simp add: authority_end_def)

lemma extractPort_none:
  assumes "\<forall>c \<in> set h. c \<noteq> CHR '':''"
  shows "extractPort (u @ ''@'' @ h) = Inr (u @ ''@'' @ h, -1)"
proof -
  let ?b = "rev (dropWhile isdigit (rev (u @ ''@'' @ h)))"
  have nd: "\<not> isdigit (CHR ''@'')" by (simp add: isdigit_def ord_def)
  have "?b \<noteq> [] \<Longrightarrow> last ?b \<noteq> CHR '':''"
  proof (cases "\<forall>c \<in> set h. isdigit c")
    case True
    then have "dropWhile isdigit (rev h @ CHR ''@'' # rev u) = CHR ''@'' # rev u"
      by (subst dropWhile_all_append) (simp_all add: nd)
    then show ?thesis by simp
  next
    case False
    then have "dropWhile isdigit (rev h) \<noteq> []" by auto
    moreover have "set (dropWhile isdigit (rev h)) \<subseteq> set h"
      using set_dropWhileD by fastforce
    ultimately have "hd (dropWhile isdigit (rev h)) \<noteq> CHR '':''"
      using assms hd_in_set by blast
    moreover have "dropWhile isdigit (rev h @ CHR ''@'' # rev u) =
        dropWhile isdigit (rev h) @ CHR ''@'' # rev u"
      using False by (metis dropWhile_append1 set_rev)
    ultimately show ?thesis
      using \<open>dropWhile isdigit (rev h) \<noteq> []\<close> by (simp add: last_rev)
  qed
  then have "\<not> (?b \<noteq> [] \<and> last ?b = CHR '':'')" by blast
  then show ?thesis unfolding extractPort_def Let_def by (rule if_not_P)
qed

lemma extractPort_some:
  assumes "0 \<le> port" and "port \<le> INT_MAX"
  shows "extractPort (a @ '':'' @ number2string port) = Inr (a, port)"
proof -
  let ?ds = "dec_of_nat (nat port)"
  have ds: "\<forall>c \<in> set (rev ?ds). isdigit c" using dec_of_nat_digits by simp
  have nd: "\<not> isdigit (CHR '':'')" by (simp add: isdigit_def ord_def)
  have n: "number2string port = ?ds"
    using assms(1) by (simp add: number2string_def dec_of_int_def)
  have "asInt ?ds = Inr port"
    using asInt_number2string [of port] assms n by (simp add: int_limits)
  moreover have "takeWhile isdigit (rev ?ds @ CHR '':'' # rev a) = rev ?ds"
    "dropWhile isdigit (rev ?ds @ CHR '':'' # rev a) = CHR '':'' # rev a"
    using ds nd by (simp_all only: takeWhile_all_append dropWhile_all_append) simp_all
  ultimately show ?thesis
    by (simp add: extractPort_def n)
qed

lemma extractUserinfo_print:
  assumes "\<forall>c \<in> set u. c \<noteq> CHR '':''" and "\<forall>c \<in> set h. c \<noteq> CHR ''@''"
  shows "extractUserinfo (u @ '':'' @ p @ ''@'' @ h) = (h, u, p)"
proof -
  have r: "rfind_char (CHR ''@'') ((u @ '':'' @ p) @ CHR ''@'' # h) = Some (length (u @ '':'' @ p))"
    by (rule rfind_char_append_Some) (use assms in auto)
  have f: "find_char (CHR '':'') (u @ CHR '':'' # p) = Some (length u)"
    by (rule find_char_append_Some) (use assms in auto)
  show ?thesis
    using r f by (simp add: extractUserinfo_def Let_def)
qed

lemma URLParser_print_url:
  assumes prot: "prot \<noteq> PROT_FILE" and user: "user \<noteq> []"
    and port: "-1 \<le> port" "port \<le> INT_MAX"
    and path: "path \<noteq> []" "hd path = CHR ''/''"
  shows "URLParser (print_url prot user pass host port path) =
     Inr \<lparr>m_url = print_url prot user pass host port path, m_protocol = prot, m_hostname = host,
          m_password = pass, m_username = user, m_port = port, m_path = path\<rparr>"
proof -
  let ?u = "url_enc user" and ?p = "url_enc pass" and ?h = "url_enc host"
  let ?port = "if port < 0 then [] else '':'' @ number2string port"
  let ?auth = "?u @ '':'' @ ?p @ ''@'' @ ?h @ ?port"
  obtain tl where tl: "path = CHR ''/'' # tl" using path by (cases path) auto
  have dig: "isdigit c \<Longrightarrow> \<not> authority_end c" for c
    by (auto simp: authority_end_def char_class)
  have "\<forall>c \<in> set ?port. \<not> authority_end c"
    using dec_of_nat_digits [of "nat port"] dig
    by (simp add: number2string_def dec_of_int_def) (simp add: authority_end_def)
  moreover have "\<not> authority_end (CHR '':'')" "\<not> authority_end (CHR ''@'')"
    by (simp_all add: authority_end_def)
  ultimately have auth: "\<forall>c \<in> set ?auth. \<not> authority_end c"
    using url_enc_clean by (simp only: set_append ball_Un set_simps ball_simps) simp
  have s: "extractScheme (print_url prot user pass host port path) =
      (protocol2string prot, ''//'' @ ?auth @ CHR ''/'' # url_enc_path tl)"
    using extractScheme_print [of prot] by (simp add: print_url_def tl url_enc_path_Cons)
  have a: "extractAuthority (''//'' @ ?auth @ CHR ''/'' # url_enc_path tl) =
      (?auth, CHR ''/'' # url_enc_path tl)"
    using auth by (rule extractAuthority_print)
  have hset: "\<forall>c \<in> set ?h. c \<noteq> CHR '':''" "\<forall>c \<in> set ?h. c \<noteq> CHR ''@''" "\<forall>c \<in> set ?u. c \<noteq> CHR '':''"
    using url_enc_clean by blast+
  have p: "extractPort ?auth = Inr (?u @ '':'' @ ?p @ ''@'' @ ?h, port)"
  proof (cases "port < 0")
    case True
    with port have "port = -1" by simp
    with extractPort_none [OF hset(1), of "?u @ '':'' @ ?p"] show ?thesis by simp
  next
    case False
    with extractPort_some [of port "?u @ '':'' @ ?p @ ''@'' @ ?h"] port show ?thesis by simp
  qed
  have i: "extractUserinfo (?u @ '':'' @ ?p @ ''@'' @ ?h) = (?h, ?u, ?p)"
    by (rule extractUserinfo_print) (use hset in auto)
  have d: "url_decode False (CHR ''/'' # url_enc_path tl) = path"
    using url_decode_url_enc_path [of path] by (simp add: tl url_enc_path_Cons)
  have ne: "protocol2string prot \<noteq> []" by (cases prot) auto
  have g: "guess_protocol (protocol2string prot) host = Inr prot"
    using ne by (simp add: guess_protocol_def string2protocol_protocol2string)
  show ?thesis
    unfolding URLParser_stages [OF s a p i list.distinct(2) list.sel(1)] d url_decode_url_enc g
    using prot user by (simp add: default_username_def)
qed

end
