(* ===== verification/Configuration.thy ===== *)
theory Configuration
  imports ConfigParser URLParser
begin

text \<open>
  \<^verbatim>\<open>kdumptool/configuration.cc\<close>, \<^verbatim>\<open>configuration.h\<close> and the option table \<^verbatim>\<open>define_opt.h\<close>. The class
  has one member per row of the table and a vector of pointers to them; the model is the list of
  the options in the table's order, and a member is looked up by its name.
\<close>

unbundle bit_operations_syntax

section \<open>Options\<close>

datatype optval = StringVal string | IntVal int | BoolVal bool

record config_option =
  co_name :: string
  co_usage :: "32 word"
  co_defvalue :: optval
  co_value :: optval

definition USE_MKINITRD :: nat where "USE_MKINITRD = 0"
definition USE_KEXEC :: nat where "USE_KEXEC = 1"
definition USE_DUMP :: nat where "USE_DUMP = 2"
definition USE_MAX :: nat where "USE_MAX = 3"

definition usage_bit :: "nat \<Rightarrow> 32 word" where
  "usage_bit n = push_bit n 1"

fun valueAsString :: "optval \<Rightarrow> string" where
  "valueAsString (StringVal s) = s"
| "valueAsString (IntVal i) = number2string i"
| "valueAsString (BoolVal b) = (if b then ''yes'' else ''no'')"

text \<open>
  \<open>IntConfigOption::update\<close> reads from a stream: with nothing to read the old value stays, and a
  value that is no number sets 0.
\<close>

fun update_value :: "string \<Rightarrow> optval \<Rightarrow> optval" where
  "update_value v (StringVal s) = StringVal v"
| "update_value v (IntVal i) =
     (case scan_int INT_MIN INT_MAX v of None \<Rightarrow> IntVal i | Some r \<Rightarrow> IntVal (sc_val r))"
| "update_value v (BoolVal b) =
     (let val = map tolower v
      in BoolVal (\<not> (val = ''0'' \<or> val = ''false'' \<or> val = ''no'')))"

definition update_option :: "string \<Rightarrow> config_option \<Rightarrow> config_option" where
  "update_option v opt = opt\<lparr>co_value := update_value v (co_value opt)\<rparr>"

definition isDefault :: "config_option \<Rightarrow> bool" where
  "isDefault opt \<longleftrightarrow> co_value opt = co_defvalue opt"

section \<open>The table\<close>

text \<open>
  \<^verbatim>\<open>KDUMP_COPY_KERNEL\<close> is a \<^verbatim>\<open>Bool\<close> whose default is written \<^verbatim>\<open>""\<close>: a pointer converted to \<^verbatim>\<open>bool\<close>,
  that is, true. The table is that of a build with \<^verbatim>\<open>HAVE_FADUMP\<close>.
\<close>

definition define_opt :: "(string \<times> optval \<times> 32 word) list" where
  "define_opt =
     (let MKINITRD = usage_bit USE_MKINITRD; KEXEC = usage_bit USE_KEXEC; DUMP = usage_bit USE_DUMP
      in [(''KDUMP_KERNELVER'', StringVal '''', KEXEC),
          (''KDUMP_CPUS'', IntVal 1, KEXEC OR DUMP),
          (''KDUMP_COMMANDLINE'', StringVal '''', KEXEC),
          (''KDUMP_COMMANDLINE_APPEND'', StringVal '''', KEXEC),
          (''KDUMP_FADUMP'', BoolVal False, MKINITRD),
          (''KDUMP_FADUMP_SHELL'', BoolVal False, MKINITRD OR DUMP),
          (''KEXEC_OPTIONS'', StringVal '''', KEXEC),
          (''MAKEDUMPFILE_OPTIONS'', StringVal '''', DUMP),
          (''KDUMP_IMMEDIATE_REBOOT'', BoolVal True, DUMP),
          (''KDUMP_TRANSFER'', StringVal '''', DUMP),
          (''KDUMP_SAVEDIR'', StringVal ''/var/log/dump'', MKINITRD OR DUMP),
          (''KDUMP_KEEP_OLD_DUMPS'', IntVal 0, DUMP),
          (''KDUMP_FREE_DISK_SIZE'', IntVal 64, DUMP),
          (''KDUMP_VERBOSE'', IntVal 0, KEXEC OR DUMP),
          (''KDUMP_DUMPLEVEL'', IntVal 31, DUMP),
          (''KDUMP_DUMPFORMAT'', StringVal ''compressed'', DUMP),
          (''KDUMP_CONTINUE_ON_ERROR'', BoolVal True, DUMP),
          (''KDUMP_REQUIRED_PROGRAMS'', StringVal '''', MKINITRD),
          (''KDUMP_PRESCRIPT'', StringVal '''', DUMP),
          (''KDUMP_POSTSCRIPT'', StringVal '''', DUMP),
          (''KDUMP_COPY_KERNEL'', BoolVal True, DUMP),
          (''KDUMPTOOL_FLAGS'', StringVal '''', DUMP),
          (''KDUMP_NETCONFIG'', StringVal ''auto'', MKINITRD),
          (''KDUMP_NET_TIMEOUT'', IntVal 30, DUMP),
          (''KDUMP_SMTP_SERVER'', StringVal '''', DUMP),
          (''KDUMP_SMTP_USER'', StringVal '''', DUMP),
          (''KDUMP_SMTP_PASSWORD'', StringVal '''', DUMP),
          (''KDUMP_NOTIFICATION_TO'', StringVal '''', DUMP),
          (''KDUMP_NOTIFICATION_CC'', StringVal '''', DUMP),
          (''KDUMP_HOST_KEY'', StringVal '''', DUMP),
          (''KDUMP_SSH_IDENTITY'', StringVal '''', MKINITRD)])"

record configuration =
  m_readConfig :: bool
  m_options :: "config_option list"

definition configuration_new :: configuration where
  "configuration_new =
     \<lparr>m_readConfig = False,
      m_options = map (\<lambda>(name, defval, usage).
        \<lparr>co_name = name, co_usage = usage, co_defvalue = defval, co_value = defval\<rparr>) define_opt\<rparr>"

definition config_value :: "string \<Rightarrow> configuration \<Rightarrow> optval option" where
  "config_value name config =
     map_option co_value (find (\<lambda>opt. co_name opt = name) (m_options config))"

definition config_string :: "string \<Rightarrow> configuration \<Rightarrow> string" where
  "config_string name config =
     (case config_value name config of Some (StringVal s) \<Rightarrow> s | _ \<Rightarrow> [])"

definition config_int :: "string \<Rightarrow> configuration \<Rightarrow> int" where
  "config_int name config = (case config_value name config of Some (IntVal i) \<Rightarrow> i | _ \<Rightarrow> 0)"

definition config_bool :: "string \<Rightarrow> configuration \<Rightarrow> bool" where
  "config_bool name config = (case config_value name config of Some (BoolVal b) \<Rightarrow> b | _ \<Rightarrow> False)"

section \<open>Reading\<close>

definition add_variables :: "config_option list \<Rightarrow> config_parser \<Rightarrow> config_parser" where
  "add_variables opts cp =
     foldl (\<lambda>cp opt. addVariable (co_name opt) (valueAsString (co_value opt)) cp) cp opts"

fun update_options :: "config_parser \<Rightarrow> config_option list \<Rightarrow> config_option list res" where
  "update_options cp [] = Inr []"
| "update_options cp (opt # opts) =
     res_bind (getValue (co_name opt) cp) (\<lambda>v.
       res_bind (update_options cp opts) (\<lambda>opts'. Inr (update_option v opt # opts')))"

definition readFile ::
    "(string \<Rightarrow> errno + string) \<Rightarrow> (string \<Rightarrow> string) \<Rightarrow> string \<Rightarrow> configuration \<Rightarrow> configuration res" where
  "readFile files sh filename config =
     (let cp = add_variables (m_options config) (config_parser_new filename)
      in res_bind (shell_parse files sh cp) (\<lambda>cp'.
           res_bind (update_options cp' (m_options config)) (\<lambda>opts.
             Inr (config\<lparr>m_options := opts, m_readConfig := True\<rparr>))))"

definition readCmdLine ::
    "(string \<Rightarrow> errno + string) \<Rightarrow> string \<Rightarrow> configuration \<Rightarrow> configuration res" where
  "readCmdLine files filename config =
     (let cp = add_variables (m_options config) (config_parser_new filename)
      in res_bind (kernel_parse files cp) (\<lambda>cp'.
           res_bind (update_options cp' (m_options config)) (\<lambda>opts.
             Inr (config\<lparr>m_options := opts, m_readConfig := True\<rparr>))))"

section \<open>Questions about the configuration\<close>

definition kdumptoolContainsFlag :: "string \<Rightarrow> configuration \<Rightarrow> bool" where
  "kdumptoolContainsFlag flag config \<longleftrightarrow> find_str flag (config_string ''KDUMPTOOL_FLAGS'' config) \<noteq> None"

fun any_remote :: "string list \<Rightarrow> bool res" where
  "any_remote [] = Inr False"
| "any_remote (elem # elems) =
     res_bind (URLParser elem) (\<lambda>url.
       if getProtocol url \<noteq> PROT_FILE then Inr True else any_remote elems)"

definition needsNetwork :: "configuration \<Rightarrow> bool res" where
  "needsNetwork config =
     (let netconfig = config_string ''KDUMP_NETCONFIG'' config
      in if netconfig = [] then Inr False
         else if netconfig \<noteq> ''auto'' then Inr True
         else res_bind (any_remote (stream_words (config_string ''KDUMP_SAVEDIR'' config))) (\<lambda>remote.
           if remote then Inr True
           else Inr (config_string ''KDUMP_SMTP_SERVER'' config \<noteq> [] \<and>
                     config_string ''KDUMP_NOTIFICATION_TO'' config \<noteq> [])))"

definition needsMakedumpfile :: "configuration \<Rightarrow> bool" where
  "needsMakedumpfile config =
     (if config_int ''KDUMP_DUMPLEVEL'' config \<noteq> 0 then True
      else \<not> strcaseeq (config_string ''KDUMP_DUMPFORMAT'' config) ''none'' \<and>
           \<not> strcaseeq (config_string ''KDUMP_DUMPFORMAT'' config) ''elf'')"

section \<open>Well-formed configurations\<close>

text \<open>
  The options are those of the table, in its order, each with a value of its declared type and
  the integers in the range of \<^verbatim>\<open>int\<close>. The constructor makes such a configuration, and reading a file or
  a command line keeps it one.
\<close>

fun value_ok :: "optval \<Rightarrow> optval \<Rightarrow> bool" where
  "value_ok (StringVal d) (StringVal s) = True"
| "value_ok (IntVal d) (IntVal i) = (INT_MIN \<le> i \<and> i \<le> INT_MAX)"
| "value_ok (BoolVal d) (BoolVal b) = True"
| "value_ok d v = False"

definition config_ok :: "configuration \<Rightarrow> bool" where
  "config_ok config \<longleftrightarrow>
     map (\<lambda>opt. (co_name opt, co_defvalue opt, co_usage opt)) (m_options config) = define_opt \<and>
     (\<forall>opt \<in> set (m_options config). value_ok (co_defvalue opt) (co_value opt))"

lemma clamp_int_range: "lo \<le> hi \<Longrightarrow> lo \<le> clamp_int lo hi v \<and> clamp_int lo hi v \<le> hi"
  by (simp add: clamp_int_def)

lemma scan_int_range:
  "scan_int lo hi s = Some r \<Longrightarrow> lo \<le> 0 \<Longrightarrow> 0 \<le> hi \<Longrightarrow> lo \<le> sc_val r \<and> sc_val r \<le> hi"
  using clamp_int_range [of lo hi]
  by (auto simp: scan_int_def Let_def split: list.splits if_splits)

lemma value_ok_update: "value_ok d v \<Longrightarrow> value_ok d (update_value s v)"
  by (cases "(d, v)" rule: value_ok.cases)
    (auto simp: Let_def int_limits dest: scan_int_range split: option.splits)

lemma update_value_valueAsString:
  "value_ok d v \<Longrightarrow> value_ok d v' \<Longrightarrow> update_value (valueAsString v) v' = v"
  by (cases "(d, v)" rule: value_ok.cases; cases "(d, v')" rule: value_ok.cases)
    (auto simp: number2string_def scan_int_dec_of_int tolower_def isupper_def ord_def)

lemma update_option_sel [simp]:
  "co_name (update_option v opt) = co_name opt"
  "co_defvalue (update_option v opt) = co_defvalue opt"
  "co_usage (update_option v opt) = co_usage opt"
  "co_value (update_option v opt) = update_value v (co_value opt)"
  by (simp_all add: update_option_def)

lemma update_options_shape:
  "update_options cp opts = Inr opts' \<Longrightarrow>
     map (\<lambda>opt. (co_name opt, co_defvalue opt, co_usage opt)) opts' =
     map (\<lambda>opt. (co_name opt, co_defvalue opt, co_usage opt)) opts \<and>
     (\<forall>opt' \<in> set opts'. \<exists>opt \<in> set opts. \<exists>v. opt' = update_option v opt)"
  by (induction opts arbitrary: opts') (auto simp: res_bind_eq_Inr_iff, blast+)

lemma update_options_config_ok:
  assumes "config_ok config" and "update_options cp (m_options config) = Inr opts"
  shows "config_ok (config\<lparr>m_options := opts, m_readConfig := True\<rparr>)"
  using assms(1) update_options_shape [OF assms(2)]
  by (fastforce simp: config_ok_def value_ok_update)

lemma config_ok_new: "config_ok configuration_new"
  by (simp add: config_ok_def configuration_new_def define_opt_def Let_def int_limits)

lemma readFile_config_ok:
  "config_ok config \<Longrightarrow> readFile files sh filename config = Inr config' \<Longrightarrow> config_ok config'"
  by (auto simp: readFile_def Let_def res_bind_eq_Inr_iff intro: update_options_config_ok)

lemma readCmdLine_config_ok:
  "config_ok config \<Longrightarrow> readCmdLine files filename config = Inr config' \<Longrightarrow> config_ok config'"
  by (auto simp: readCmdLine_def Let_def res_bind_eq_Inr_iff intro: update_options_config_ok)

section \<open>Variables that are set\<close>

lemma map_of_add_variables:
  "map_of (m_variables (add_variables opts cp)) =
   map_of (m_variables cp) ++ map_of (rev (map (\<lambda>opt. (co_name opt, valueAsString (co_value opt))) opts))"
  by (induction opts arbitrary: cp)
    (auto simp: add_variables_def addVariable_def smap.find_insert fun_eq_iff map_add_def
      split: option.splits)

lemma update_options_ok:
  assumes "\<And>opt. opt \<in> set opts \<Longrightarrow> map_of (m_variables cp) (co_name opt) = Some (f opt)"
  shows "update_options cp opts = Inr (map (\<lambda>opt. update_option (f opt) opt) opts)"
  using assms by (induction opts) (simp_all add: getValue_def)

lemma distinct_option_names: "distinct (map fst define_opt)"
  by (simp add: define_opt_def Let_def)

lemma config_ok_names: "config_ok config \<Longrightarrow> map co_name (m_options config) = map fst define_opt"
  unfolding config_ok_def by (metis (no_types, lifting) fst_conv list.map_comp map_eq_conv o_apply)

lemma plain_option_names: "\<forall>n \<in> set (map fst define_opt). plain_name n"
  by (simp add: define_opt_def Let_def plain_name_def char_consts is_kernel_space_def ord_def)

end
