(* ===== verification/DumpConfig.thy ===== *)
theory DumpConfig
  imports Configuration
begin

text \<open>
  \<^verbatim>\<open>kdumptool/dumpconfig.cc\<close>: the subcommand that prints the configuration for a shell or for the
  kernel command line, and the proof that \<^const>\<open>readCmdLine\<close> reads back what it prints.
\<close>

datatype dump_format = FMT_SHELL | FMT_KERNEL

record dump_config =
  m_format :: dump_format
  m_usage :: "32 word"
  m_nodefault :: bool

definition all_usage :: "32 word" where
  "all_usage = push_bit USE_MAX 1 - 1"

definition dump_config_new :: "bool \<Rightarrow> dump_config" where
  "dump_config_new nodefault =
     \<lparr>m_format = FMT_SHELL, m_usage = all_usage, m_nodefault = nodefault\<rparr>"

definition format_names :: "(string \<times> dump_format) list" where
  "format_names = [(''shell'', FMT_SHELL), (''kernel'', FMT_KERNEL)]"

definition usage_names :: "(string \<times> nat) list" where
  "usage_names = [(''mkinitrd'', USE_MKINITRD), (''kexec'', USE_KEXEC), (''dump'', USE_DUMP)]"

text \<open>
  The options \<open>-f\<close> and \<open>-u\<close>, \<^const>\<open>None\<close> when not set. The loop over the usage string cuts it at
  commas.
\<close>

definition usage_token :: "string \<Rightarrow> 32 word \<Rightarrow> (32 word) res" where
  "usage_token token usage =
     (case map_of usage_names token of
        Some i \<Rightarrow> Inr (usage OR usage_bit i)
      | None \<Rightarrow> if token = ''all'' then Inr all_usage
                else Inl (KError (''Unknown usage string: '' @ token)))"

function usage_loop :: "string \<Rightarrow> nat \<Rightarrow> 32 word \<Rightarrow> (32 word) res" where
  "usage_loop s pos usage =
     (case find_char_from (CHR '','') s pos of
        None \<Rightarrow> usage_token (drop pos s) usage
      | Some n \<Rightarrow> res_bind (usage_token (substr s pos (n - pos)) usage) (usage_loop s (n + 1)))"
  by pat_completeness auto
termination
proof (relation "measure (\<lambda>(s, pos, usage). length s - pos)")
  fix s pos n y and usage :: "32 word"
  assume "find_char_from (CHR '','') s pos = Some n"
  then obtain i where "find_char (CHR '','') (drop pos s) = Some i" "n = i + pos"
    by (auto simp: find_char_from_def)
  then have "pos \<le> n" "n < length s"
    using find_char_SomeD(1) by fastforce+
  then show "((s, n + 1, y), s, pos, usage) \<in> measure (\<lambda>(s, pos, usage). length s - pos)"
    by simp
qed simp

declare usage_loop.simps [simp del]

definition dump_config_parseArgs ::
    "string option \<Rightarrow> string option \<Rightarrow> dump_config \<Rightarrow> dump_config res" where
  "dump_config_parseArgs formatString usageString dc =
     res_bind (case formatString of
                 None \<Rightarrow> Inr dc
               | Some f \<Rightarrow> (case map_of format_names f of
                              Some fmt \<Rightarrow> Inr (dc\<lparr>m_format := fmt\<rparr>)
                            | None \<Rightarrow> Inl (KError (''Unknown value format: '' @ f)))) (\<lambda>dc1.
       case usageString of
         None \<Rightarrow> Inr dc1
       | Some u \<Rightarrow> res_bind (usage_loop u 0 0) (\<lambda>m. Inr (dc1\<lparr>m_usage := m\<rparr>)))"

definition printed :: "dump_config \<Rightarrow> config_option \<Rightarrow> bool" where
  "printed dc opt \<longleftrightarrow> co_usage opt AND m_usage dc \<noteq> 0 \<and> \<not> (m_nodefault dc \<and> isDefault opt)"

definition dump_config_execute :: "dump_config \<Rightarrow> configuration \<Rightarrow> string" where
  "dump_config_execute dc config =
     (let quoted = (case m_format dc of FMT_SHELL \<Rightarrow> shell_quoted | FMT_KERNEL \<Rightarrow> kernel_quoted);
          delim = (case m_format dc of FMT_SHELL \<Rightarrow> NL | FMT_KERNEL \<Rightarrow> CHR '' '')
      in concat (map (\<lambda>opt. co_name opt @ ''='' @ quoted (valueAsString (co_value opt)) @ [delim])
                   (filter (printed dc) (m_options config))))"

section \<open>The usage mask\<close>

lemma usage_loop_split:
  "usage_loop s pos u =
     foldl (\<lambda>acc token. res_bind acc (usage_token token)) (Inr u) (split_from (CHR '','') s pos)"
proof -
  let ?f = "\<lambda>acc token. res_bind acc (usage_token token)"
  have stuck: "foldl ?f (Inl e) ts = Inl e" for e ts
    by (induction ts) simp_all
  show ?thesis
  proof (induction s pos u rule: usage_loop.induct)
    case (1 s pos usage)
    show ?case
    proof (cases "find_char_from (CHR '','') s pos")
      case None
      then show ?thesis
        by (simp add: usage_loop.simps [of s pos usage] split_from.simps [of _ s pos])
    next
      case (Some n)
      let ?u1 = "usage_token (substr s pos (n - pos)) usage"
      have "usage_loop s pos usage = res_bind ?u1 (usage_loop s (n + 1))"
        by (simp add: usage_loop.simps [of s pos usage] Some)
      also have "\<dots> = foldl ?f ?u1 (split_from (CHR '','') s (n + 1))"
        using "1.IH" [OF Some] by (cases ?u1) (simp_all add: stuck)
      finally show ?thesis
        by (simp add: split_from.simps [of _ s pos] Some)
    qed
  qed
qed

section \<open>Reading the printed configuration back\<close>

lemma map_of_filtered_options:
  assumes "distinct (map co_name opts)" and "opt \<in> set opts"
  shows "map_of (rev (map (\<lambda>opt. (co_name opt, val opt)) (filter P opts))) (co_name opt) =
    (if P opt then Some (val opt) else None)"
proof (cases "P opt")
  case True
  have "distinct (map co_name (filter P opts))"
    using assms(1) by (simp add: distinct_map inj_on_def)
  then have "distinct (map fst (rev (map (\<lambda>opt. (co_name opt, val opt)) (filter P opts))))"
    by (simp add: rev_map [symmetric] comp_def)
  with True assms(2) show ?thesis
    by (auto intro: map_of_is_SomeI)
next
  case False
  have "\<forall>o' \<in> set (filter P opts). co_name opt \<noteq> co_name o'"
    using False assms by (auto simp: distinct_map inj_on_def)
  then have "co_name opt \<notin> fst ` set (rev (map (\<lambda>opt. (co_name opt, val opt)) (filter P opts)))"
    by force
  with False show ?thesis by (simp add: map_of_eq_None_iff)
qed

lemma map_of_all_options:
  "distinct (map co_name opts) \<Longrightarrow> opt \<in> set opts \<Longrightarrow>
   map_of (rev (map (\<lambda>opt. (co_name opt, val opt)) opts)) (co_name opt) = Some (val opt)"
  using map_of_filtered_options [of opts opt val "\<lambda>_. True"] by simp

lemma m_configFile_add_variables [simp]:
  "m_configFile (add_variables opts cp) = m_configFile cp"
  by (induction opts arbitrary: cp) (simp_all add: add_variables_def addVariable_def)

definition merge_printed :: "dump_config \<Rightarrow> config_option \<Rightarrow> config_option \<Rightarrow> config_option" where
  "merge_printed dc opt opt0 = (if printed dc opt then opt else opt0)"

lemma config_ok_length:
  assumes "config_ok c" and "config_ok c0"
  shows "length (m_options c) = length (m_options c0)"
proof -
  have "map co_name (m_options c) = map co_name (m_options c0)"
    using assms by (simp add: config_ok_names)
  then show ?thesis by (rule map_eq_imp_length_eq)
qed

lemma config_ok_nth:
  assumes "config_ok c" and "config_ok c0" and "i < length (m_options c)"
  shows "co_name (m_options c ! i) = co_name (m_options c0 ! i)"
    and "co_usage (m_options c ! i) = co_usage (m_options c0 ! i)"
    and "co_defvalue (m_options c ! i) = co_defvalue (m_options c0 ! i)"
    and "i < length (m_options c0)"
proof -
  let ?t = "\<lambda>opt. (co_name opt, co_defvalue opt, co_usage opt)"
  from assms have e: "map ?t (m_options c) = map ?t (m_options c0)"
    by (simp add: config_ok_def)
  then show l: "i < length (m_options c0)"
    using assms(3) map_eq_imp_length_eq [OF e] by simp
  have "map ?t (m_options c) ! i = map ?t (m_options c0) ! i"
    by (simp only: e)
  with assms(3) l have "?t (m_options c ! i) = ?t (m_options c0 ! i)"
    by simp
  then show "co_name (m_options c ! i) = co_name (m_options c0 ! i)"
    "co_usage (m_options c ! i) = co_usage (m_options c0 ! i)"
    "co_defvalue (m_options c ! i) = co_defvalue (m_options c0 ! i)"
    by simp_all
qed

lemma readCmdLine_dump_config:
  assumes c: "config_ok c" and c0: "config_ok c0" and fmt: "m_format dc = FMT_KERNEL"
    and content: "files filename = Inr (dump_config_execute dc c)"
  shows "readCmdLine files filename c0 =
    Inr (c0\<lparr>m_options := map2 (merge_printed dc) (m_options c) (m_options c0),
            m_readConfig := True\<rparr>)"
proof -
  let ?val = "\<lambda>opt. valueAsString (co_value opt)"
  let ?env = "map (\<lambda>opt. (co_name opt, ?val opt)) (filter (printed dc) (m_options c))"
  let ?cp = "add_variables (m_options c0) (config_parser_new filename)"
  have dist: "distinct (map co_name (m_options c))" "distinct (map co_name (m_options c0))"
    using config_ok_names [OF c] config_ok_names [OF c0] distinct_option_names by simp_all
  have plain: "\<forall>(n, v) \<in> set ?env. plain_name n"
  proof -
    have "co_name opt \<in> set (map fst define_opt)" if "opt \<in> set (m_options c)" for opt
      using that config_ok_names [OF c] by (metis imageI list.set_map)
    then show ?thesis using plain_option_names by fastforce
  qed
  have "dump_config_execute dc c =
      concat (map (\<lambda>(n, v). n @ CHR ''='' # kernel_quoted v @ [CHR '' '']) ?env)"
    by (simp add: dump_config_execute_def fmt comp_def)
  then have parse: "kernel_parse files ?cp =
      Inr (?cp\<lparr>m_variables := smap.insert_all ?env (m_variables ?cp)\<rparr>)"
    using content kernel_parse_assignments [OF plain]
    by (simp add: kernel_parse_def open_config_def config_parser_new_def kparse_init_def)
  let ?cp' = "?cp\<lparr>m_variables := smap.insert_all ?env (m_variables ?cp)\<rparr>"
  let ?v = "\<lambda>opt. the (map_of (m_variables ?cp') (co_name opt))"
  have v: "map_of (m_variables ?cp') (co_name (m_options c0 ! i)) =
      Some (?val (if printed dc (m_options c ! i) then m_options c ! i else m_options c0 ! i))"
    if i: "i < length (m_options c0)" for i
  proof -
    have ic: "i < length (m_options c)" using config_ok_nth(4) [OF c0 c i] .
    have "co_name (m_options c0 ! i) = co_name (m_options c ! i)"
      using config_ok_nth(1) [OF c c0 ic] by simp
    then have 1: "map_of (rev ?env) (co_name (m_options c0 ! i)) =
        (if printed dc (m_options c ! i) then Some (?val (m_options c ! i)) else None)"
      using map_of_filtered_options [OF dist(1), of "m_options c ! i" ?val "printed dc"] ic by simp
    have 2: "map_of (m_variables ?cp) (co_name (m_options c0 ! i)) = Some (?val (m_options c0 ! i))"
      using map_of_all_options [OF dist(2), of "m_options c0 ! i" ?val] i
      by (simp add: map_of_add_variables config_parser_new_def)
    show ?thesis
      using 1 2 by (simp add: smap.find_insert_all map_add_def)
  qed
  have "update_options ?cp' (m_options c0) =
      Inr (map (\<lambda>opt. update_option (?v opt) opt) (m_options c0))"
  proof (rule update_options_ok)
    fix opt assume "opt \<in> set (m_options c0)"
    then obtain i where "i < length (m_options c0)" "opt = m_options c0 ! i"
      by (auto simp: in_set_conv_nth)
    then show "map_of (m_variables ?cp') (co_name opt) = Some (?v opt)"
      using v [of i] by (simp only: option.sel)
  qed
  moreover have "map (\<lambda>opt. update_option (?v opt) opt) (m_options c0) =
      map2 (merge_printed dc) (m_options c) (m_options c0)"
  proof (rule nth_equalityI)
    show "length (map (\<lambda>opt. update_option (?v opt) opt) (m_options c0)) =
        length (map2 (merge_printed dc) (m_options c) (m_options c0))"
      using config_ok_length [OF c c0] by simp
  next
    fix i assume "i < length (map (\<lambda>opt. update_option (?v opt) opt) (m_options c0))"
    then have i: "i < length (m_options c0)" by simp
    have ic: "i < length (m_options c)" using config_ok_nth(4) [OF c0 c i] .
    have "value_ok (co_defvalue (m_options c ! i)) (co_value (m_options c ! i))"
      using c ic by (simp add: config_ok_def)
    moreover have "value_ok (co_defvalue (m_options c0 ! i)) (co_value (m_options c0 ! i))"
      using c0 i by (simp add: config_ok_def)
    ultimately have ok: "value_ok (co_defvalue (m_options c0 ! i)) (co_value (m_options c ! i))"
        "value_ok (co_defvalue (m_options c0 ! i)) (co_value (m_options c0 ! i))"
      by (simp_all add: config_ok_nth(3) [OF c c0 ic])
    have "update_option (?v (m_options c0 ! i)) (m_options c0 ! i) =
        merge_printed dc (m_options c ! i) (m_options c0 ! i)"
      using ok config_ok_nth(1-3) [OF c c0 ic] unfolding v [OF i] option.sel
      by (cases "m_options c ! i"; cases "m_options c0 ! i")
        (auto simp: merge_printed_def update_option_def update_value_valueAsString)
    then show "map (\<lambda>opt. update_option (?v opt) opt) (m_options c0) ! i =
        map2 (merge_printed dc) (m_options c) (m_options c0) ! i"
      using i ic by simp
  qed
  ultimately show ?thesis
    by (simp add: readCmdLine_def parse)
qed

text \<open>With every option printed the configuration itself comes back.\<close>

lemma all_usage_printed:
  assumes "config_ok c" and "m_usage dc = all_usage" and "opt \<in> set (m_options c)"
  shows "printed dc opt \<longleftrightarrow> \<not> (m_nodefault dc \<and> isDefault opt)"
proof -
  have "(co_name opt, co_defvalue opt, co_usage opt) \<in> set define_opt"
    using assms(1,3) by (metis (no_types, lifting) config_ok_def imageI list.set_map)
  then have "co_usage opt AND all_usage \<noteq> 0"
    by (auto simp: define_opt_def Let_def all_usage_def usage_bit_def USE_MKINITRD_def USE_KEXEC_def
        USE_DUMP_def USE_MAX_def)
  with assms(2) show ?thesis by (simp add: printed_def)
qed

lemma map2_fst: "length xs = length ys \<Longrightarrow> (\<And>x y. (x, y) \<in> set (zip xs ys) \<Longrightarrow> f x y = x) \<Longrightarrow> map2 f xs ys = xs"
  by (induction xs ys rule: list_induct2) auto

lemma dump_config_roundtrip:
  assumes "config_ok c" and "config_ok c0"
    and "m_format dc = FMT_KERNEL" and "m_usage dc = all_usage" and "\<not> m_nodefault dc"
    and "files filename = Inr (dump_config_execute dc c)"
  shows "readCmdLine files filename c0 = Inr \<lparr>m_readConfig = True, m_options = m_options c\<rparr>"
proof -
  have "map2 (merge_printed dc) (m_options c) (m_options c0) = m_options c"
    using all_usage_printed [OF assms(1,4)] assms(5)
    by (intro map2_fst) (auto simp: merge_printed_def config_ok_length [OF assms(1,2)] dest: set_zip_leftD)
  then show ?thesis
    using readCmdLine_dump_config [OF assms(1,2,3), of files filename] assms(6) by (cases c0) simp
qed

text \<open>Without the defaults it comes back too, when read over a fresh configuration.\<close>

lemma dump_config_nodefault_roundtrip:
  assumes "config_ok c"
    and "m_format dc = FMT_KERNEL" and "m_usage dc = all_usage"
    and "files filename = Inr (dump_config_execute dc c)"
  shows "readCmdLine files filename configuration_new =
    Inr \<lparr>m_readConfig = True, m_options = m_options c\<rparr>"
proof -
  have "merge_printed dc (m_options c ! i) (m_options configuration_new ! i) = m_options c ! i"
    if i: "i < length (m_options c)" for i
  proof (cases "printed dc (m_options c ! i)")
    case True
    then show ?thesis by (simp add: merge_printed_def)
  next
    case False
    then have d: "co_value (m_options c ! i) = co_defvalue (m_options c ! i)"
      using all_usage_printed [OF assms(1,3), of "m_options c ! i"] i by (auto simp: isDefault_def)
    have "\<forall>opt \<in> set (m_options configuration_new). co_value opt = co_defvalue opt"
      by (auto simp: configuration_new_def)
    then have "co_value (m_options configuration_new ! i) = co_defvalue (m_options configuration_new ! i)"
      using config_ok_nth(4) [OF assms(1) config_ok_new i] by simp
    with d False config_ok_nth(1-3) [OF assms(1) config_ok_new i] show ?thesis
      by (cases "m_options c ! i"; cases "m_options configuration_new ! i") (simp add: merge_printed_def)
  qed
  then have "map2 (merge_printed dc) (m_options c) (m_options configuration_new) = m_options c"
    using config_ok_length [OF assms(1) config_ok_new] by (intro nth_equalityI) auto
  then show ?thesis
    using readCmdLine_dump_config [OF assms(1) config_ok_new assms(2), of files filename] assms(4)
    by (cases configuration_new) simp
qed

end
