(* ===== verification/FilePath.thy ===== *)
theory FilePath
  imports StringUtil
begin

text \<open>
  \<^verbatim>\<open>kdumptool/fileutil.cc\<close>: path arithmetic, the resolution of symbolic links below a root
  directory, directory listing with its filters, and directory creation. The operating system is a
  parameter: a function from paths to what \<^verbatim>\<open>lstat\<close>/\<^verbatim>\<open>readlink\<close> report, the raw directory entries,
  and a system call on an abstract world for \<^verbatim>\<open>mkdir\<close>.
\<close>

section \<open>Path arithmetic\<close>

definition SLASH :: char where
  "SLASH = CHR ''/''"

definition PATH_SEPARATOR :: string where
  "PATH_SEPARATOR = [SLASH]"

definition appendPath :: "string \<Rightarrow> string \<Rightarrow> string" where
  "appendPath this p =
     (let s = rtrim PATH_SEPARATOR this @ PATH_SEPARATOR
      in case find_first_not_of PATH_SEPARATOR p of
           None \<Rightarrow> s
         | Some idx \<Rightarrow> s @ drop idx p)"

text \<open>\<^verbatim>\<open>basename\<close> and \<^verbatim>\<open>dirname\<close> of \<^verbatim>\<open>libgen.h\<close>, as POSIX defines them.\<close>

definition baseName :: "string \<Rightarrow> string" where
  "baseName path =
     (if path = [] then ''.''
      else let t = rtrim PATH_SEPARATOR path
           in if t = [] then PATH_SEPARATOR
              else (case rfind_char SLASH t of None \<Rightarrow> t | Some i \<Rightarrow> drop (i + 1) t))"

definition dirName :: "string \<Rightarrow> string" where
  "dirName path =
     (if path = [] then ''.''
      else let t = rtrim PATH_SEPARATOR path
           in if t = [] then PATH_SEPARATOR
              else (case rfind_char SLASH t of
                      None \<Rightarrow> ''.''
                    | Some i \<Rightarrow> let d = rtrim PATH_SEPARATOR (take i t)
                                in if d = [] then PATH_SEPARATOR else d))"

definition bytes_to_megabytes :: "64 word \<Rightarrow> 64 word" where
  "bytes_to_megabytes bytes = bytes div 1024 div 1024"

lemma appendPath_eq: "appendPath d p = rtrim PATH_SEPARATOR d @ SLASH # ltrim PATH_SEPARATOR p"
  by (auto simp: appendPath_def ltrim_def PATH_SEPARATOR_def split: option.splits)

lemma appendPath_component:
  assumes "f \<noteq> []" and "SLASH \<notin> set f"
  shows "appendPath d f = rtrim PATH_SEPARATOR d @ SLASH # f"
proof -
  from assms have "hd f \<noteq> SLASH" by (cases f) auto
  with assms(1) show ?thesis
    by (cases f) (simp_all add: appendPath_eq ltrim_dropWhile PATH_SEPARATOR_def)
qed

lemma rtrim_component:
  "f \<noteq> [] \<Longrightarrow> SLASH \<notin> set f \<Longrightarrow> rtrim PATH_SEPARATOR (d @ SLASH # f) = d @ SLASH # f"
  by (rule rtrim_id) (metis PATH_SEPARATOR_def last_append last_ConsR last_in_set list.distinct(1)
      list.set(1) list.set(2) singletonD)

lemma baseName_component:
  assumes "f \<noteq> []" and "SLASH \<notin> set f"
  shows "baseName (d @ SLASH # f) = f"
  using assms by (simp add: baseName_def rtrim_component rfind_char_append_Some)

lemma dirName_component:
  assumes "f \<noteq> []" and "SLASH \<notin> set f"
  shows "dirName (d @ SLASH # f) =
    (if rtrim PATH_SEPARATOR d = [] then PATH_SEPARATOR else rtrim PATH_SEPARATOR d)"
  using assms by (simp add: dirName_def rtrim_component rfind_char_append_Some)

text \<open>A path built by \<^const>\<open>appendPath\<close> is taken apart again.\<close>

lemma baseName_appendPath:
  "f \<noteq> [] \<Longrightarrow> SLASH \<notin> set f \<Longrightarrow> baseName (appendPath d f) = f"
  by (simp add: appendPath_component baseName_component)

lemma dirName_appendPath:
  "f \<noteq> [] \<Longrightarrow> SLASH \<notin> set f \<Longrightarrow> rtrim PATH_SEPARATOR d \<noteq> [] \<Longrightarrow>
   dirName (appendPath d f) = rtrim PATH_SEPARATOR d"
  by (simp add: appendPath_component dirName_component rtrim_id rtrim_no_trail)

section \<open>Canonical paths below a root directory\<close>

datatype node =
    Missing
  | StatFails errno
  | Symlink string
  | Directory
  | OtherFile

definition MAXSYMLINKS :: nat where
  "MAXSYMLINKS = 20"

definition BUFSIZ :: nat where
  "BUFSIZ = 8192"

definition readLink :: "string \<Rightarrow> string" where
  "readLink target = takeWhile (\<lambda>c. c \<noteq> NUL) (take (BUFSIZ - 1) target)"

definition resize :: "string \<Rightarrow> nat \<Rightarrow> string" where
  "resize s n = take n s @ replicate (n - length s) NUL"

text \<open>
  One round of the main loop of \<open>getCanonicalPath\<close>: \<open>p\<close> is what remains of \<open>*rpath\<close> from the
  iterator on (both branches for a symbolic link leave the link's target in front of the rest).
  \<^verbatim>\<open>resize(npos)\<close> would throw, and \<open>*ret.rbegin()\<close> on an empty \<open>ret\<close> is undefined.
\<close>

definition next_component :: "string \<Rightarrow> string \<times> string" where
  "next_component p =
     (let p1 = dropWhile (\<lambda>c. c = SLASH) p
      in (takeWhile (\<lambda>c. c \<noteq> SLASH) p1, dropWhile (\<lambda>c. c \<noteq> SLASH) p1))"

type_synonym canon_state = "string \<times> string \<times> nat"

definition canonical_parent :: "string \<Rightarrow> string res" where
  "canonical_parent ret =
     (case rfind_char SLASH ret of
        None \<Rightarrow> Inl (KError ''basic_string::resize'')
      | Some i \<Rightarrow> Inr (take i ret))"

definition canonical_step :: "(string \<Rightarrow> node) \<Rightarrow> string \<Rightarrow> canon_state \<Rightarrow> canon_state res" where
  "canonical_step fs root = (\<lambda>(ret, p, num_links).
     let (dir, p2) = next_component p
     in if dir = [] then Inr (ret, p2, num_links)
        else if dir = ''.'' then Inr (ret, p2, num_links)
        else if dir = ''..'' then
          (if length root < length ret
           then res_bind (canonical_parent ret) (\<lambda>r. Inr (r, p2, num_links))
           else Inr (ret, p2, num_links))
        else if ret = [] then Inl (Undefined ''*ret.rbegin() of an empty string'')
        else
          let ret1 = (if last ret \<noteq> SLASH then ret @ [SLASH] else ret) @ dir
          in case fs ret1 of
               Missing \<Rightarrow> Inr (ret1, p2, num_links)
             | StatFails e \<Rightarrow> Inl (KSystemError (''Stat failed on '' @ ret1) e)
             | Symlink target \<Rightarrow>
                 if MAXSYMLINKS < num_links + 1
                 then Inl (KSystemError ''getCanonicalPath() failed'' ELOOP)
                 else
                   let p3 = readLink target @ p2
                   in if c_at p3 0 = SLASH then Inr (resize ret1 (length root), p3, num_links + 1)
                      else res_bind (canonical_parent ret1) (\<lambda>r. Inr (r, p3, num_links + 1))
             | Directory \<Rightarrow> Inr (ret1, p2, num_links)
             | OtherFile \<Rightarrow>
                 if p2 \<noteq> [] then Inl (KSystemError ''getCanonicalPath() failed'' ENOTDIR)
                 else Inr (ret1, p2, num_links))"

lemma next_component_len:
  assumes "p \<noteq> []" and "next_component p = (dir, p2)"
  shows "length p2 < length p"
proof -
  obtain c q where p: "p = c # q" using assms(1) by (cases p) auto
  have le: "length (dropWhile (\<lambda>c. c \<noteq> SLASH) (dropWhile (\<lambda>c. c = SLASH) q)) \<le> length q"
    by (meson le_trans length_dropWhile_le)
  have "length (dropWhile (\<lambda>c. c \<noteq> SLASH) q) \<le> length q" by (rule length_dropWhile_le)
  with assms(2) p le show ?thesis
    by (cases "c = SLASH") (auto simp: next_component_def Let_def)
qed

lemma canonical_step_progress:
  assumes "canonical_step fs root (ret, p, n) = Inr (ret', p', n')" and "p \<noteq> []"
  shows "MAXSYMLINKS - n' < MAXSYMLINKS - n \<or> n' = n \<and> length p' < length p"
proof -
  obtain dir p2 where nc: "next_component p = (dir, p2)" by fastforce
  from next_component_len [OF assms(2) nc] assms(1) show ?thesis
    unfolding canonical_step_def prod.case nc
    by (auto simp: res_bind_eq_Inr_iff Let_def split: if_splits node.splits)
qed

function canonical_loop :: "(string \<Rightarrow> node) \<Rightarrow> string \<Rightarrow> canon_state \<Rightarrow> string res" where
  "canonical_loop fs root (ret, p, n) =
     (if p = [] then Inr ret
      else res_bind (canonical_step fs root (ret, p, n)) (canonical_loop fs root))"
  by pat_completeness auto
termination
proof (relation "measures [\<lambda>(fs, root, ret, p, n). MAXSYMLINKS - n, \<lambda>(fs, root, ret, p, n). length p]")
  fix fs root ret p n st'
  assume "p \<noteq> []" and "canonical_step fs root (ret, p, n) = Inr st'"
  then show "((fs, root, st'), (fs, root, ret, p, n)) \<in>
      measures [\<lambda>(fs, root, ret, p, n). MAXSYMLINKS - n, \<lambda>(fs, root, ret, p, n). length p]"
    by (cases st') (auto dest: canonical_step_progress)
qed simp

declare canonical_loop.simps [simp del]

definition getCanonicalPath :: "(string \<Rightarrow> node) \<Rightarrow> string \<Rightarrow> string \<Rightarrow> string \<Rightarrow> string res" where
  "getCanonicalPath fs cwd root path =
     (if path = [] then Inr path
      else
        let rootp = (if root = [] then PATH_SEPARATOR else root)
        in if hd path \<noteq> SLASH
           then (if length cwd < length rootp \<or> substr cwd 0 (length rootp) \<noteq> rootp
                 then Inl (KSystemError ''Cannot get current directory'' ENOENT)
                 else canonical_loop fs rootp (cwd, path, 0))
           else canonical_loop fs rootp (rootp, path, 0))"

subsection \<open>The result stays below the root\<close>

definition joinp :: "string \<Rightarrow> string list \<Rightarrow> string" where
  "joinp root ds = root @ concat (map (Cons SLASH) ds)"

definition normal_component :: "string \<Rightarrow> bool" where
  "normal_component d \<longleftrightarrow> d \<noteq> [] \<and> d \<noteq> ''.'' \<and> d \<noteq> ''..'' \<and> SLASH \<notin> set d"

fun resolved :: "node \<Rightarrow> bool" where
  "resolved (StatFails e) = False"
| "resolved (Symlink t) = False"
| "resolved _ = True"

definition canonical_below :: "(string \<Rightarrow> node) \<Rightarrow> string \<Rightarrow> string \<Rightarrow> bool" where
  "canonical_below fs root ret \<longleftrightarrow>
     (\<exists>ds. ret = joinp root ds \<and> (\<forall>d \<in> set ds. normal_component d) \<and>
           (\<forall>k < length ds. resolved (fs (joinp root (take (Suc k) ds)))))"

definition root_ok :: "string \<Rightarrow> bool" where
  "root_ok root \<longleftrightarrow> root \<noteq> [] \<and> last root \<noteq> SLASH"

lemma joinp_simps [simp]:
  "joinp root [] = root"
  "joinp root (ds @ [d]) = joinp root ds @ SLASH # d"
  by (simp_all add: joinp_def)

lemma length_joinp_le: "length root \<le> length (joinp root ds)"
  by (simp add: joinp_def)

lemma prefix_joinp: "prefix root (joinp root ds)"
  by (simp add: joinp_def)

lemma last_joinp:
  assumes "root_ok root" and "\<forall>d \<in> set ds. normal_component d"
  shows "joinp root ds \<noteq> [] \<and> last (joinp root ds) \<noteq> SLASH"
  using assms by (cases ds rule: rev_cases)
    (auto simp: root_ok_def normal_component_def dest: last_in_set)

lemma canonical_parent_joinp:
  "SLASH \<notin> set d \<Longrightarrow> canonical_parent (joinp root ds @ SLASH # d) = Inr (joinp root ds)"
  by (simp add: canonical_parent_def rfind_char_append_Some)

lemma canonical_below_root: "canonical_below fs root root"
  unfolding canonical_below_def by (rule exI [of _ "[]"]) simp

lemma canonical_below_pop:
  assumes "canonical_below fs root ret" and "length root < length ret"
  shows "\<exists>r. canonical_parent ret = Inr r \<and> canonical_below fs root r"
proof -
  obtain ds where ds: "ret = joinp root ds" "\<forall>d \<in> set ds. normal_component d"
      "\<forall>k < length ds. resolved (fs (joinp root (take (Suc k) ds)))"
    using assms(1) by (auto simp: canonical_below_def)
  with assms(2) have "ds \<noteq> []" by auto
  then obtain ds' d where s: "ds = ds' @ [d]" by (metis rev_exhaust)
  with ds(2) have "canonical_parent ret = Inr (joinp root ds')"
    by (simp add: ds(1) canonical_parent_joinp normal_component_def)
  moreover have "resolved (fs (joinp root (take (Suc k) ds')))" if "k < length ds'" for k
    using ds(3) that by (auto simp: s dest!: spec [of _ k])
  then have "canonical_below fs root (joinp root ds')"
    using ds(2) by (auto simp: canonical_below_def s)
  ultimately show ?thesis by blast
qed

lemma canonical_below_push:
  assumes "canonical_below fs root ret" and "normal_component dir"
    and "resolved (fs (ret @ SLASH # dir))"
  shows "canonical_below fs root (ret @ SLASH # dir)"
proof -
  obtain ds where ds: "ret = joinp root ds" "\<forall>d \<in> set ds. normal_component d"
      "\<forall>k < length ds. resolved (fs (joinp root (take (Suc k) ds)))"
    using assms(1) by (auto simp: canonical_below_def)
  have "resolved (fs (joinp root (take (Suc k) (ds @ [dir]))))" if "k < length (ds @ [dir])" for k
    using that ds(1,3) assms(3) by (cases "k < length ds") (auto simp: less_Suc_eq)
  with ds assms(2) show ?thesis
    unfolding canonical_below_def by (intro exI [of _ "ds @ [dir]"]) auto
qed

lemma next_component_no_slash: "next_component p = (dir, p2) \<Longrightarrow> SLASH \<notin> set dir"
  by (auto simp: next_component_def Let_def dest: set_takeWhileD)

text \<open>
  One round keeps the invariant, and with it neither the undefined read nor the failing
  \<^verbatim>\<open>resize\<close> can happen.
\<close>

lemma canonical_step_cases:
  assumes root: "root_ok root" and inv: "canonical_below fs root ret"
  shows "(\<exists>m x. canonical_step fs root (ret, p, n) = Inl (KSystemError m x)) \<or>
    (\<exists>ret' p' n'. canonical_step fs root (ret, p, n) = Inr (ret', p', n') \<and>
                   canonical_below fs root ret')"
proof -
  obtain dir p2 where nc: "next_component p = (dir, p2)" by fastforce
  have ns: "SLASH \<notin> set dir" by (rule next_component_no_slash [OF nc])
  obtain ds where ds: "ret = joinp root ds" "\<forall>d \<in> set ds. normal_component d"
    using inv by (auto simp: canonical_below_def)
  have l: "ret \<noteq> []" "last ret \<noteq> SLASH" using last_joinp [OF root ds(2)] ds(1) by auto
  show ?thesis
  proof (cases "dir = [] \<or> dir = ''.'' \<or> dir = ''..''")
    case True
    then show ?thesis
    proof (elim disjE)
      assume "dir = ''..''"
      with canonical_below_pop [OF inv] inv show ?thesis
        by (cases "length root < length ret") (auto simp: canonical_step_def nc)
    qed (use inv in \<open>auto simp: canonical_step_def nc\<close>)
  next
    case False
    with ns have normal: "normal_component dir" by (simp add: normal_component_def)
    let ?r = "ret @ SLASH # dir"
    have step: "canonical_step fs root (ret, p, n) =
       (case fs ?r of
          Missing \<Rightarrow> Inr (?r, p2, n)
        | StatFails e \<Rightarrow> Inl (KSystemError (''Stat failed on '' @ ?r) e)
        | Symlink target \<Rightarrow>
            if MAXSYMLINKS < n + 1 then Inl (KSystemError ''getCanonicalPath() failed'' ELOOP)
            else if c_at (readLink target @ p2) 0 = SLASH
            then Inr (resize ?r (length root), readLink target @ p2, n + 1)
            else Inr (ret, readLink target @ p2, n + 1)
        | Directory \<Rightarrow> Inr (?r, p2, n)
        | OtherFile \<Rightarrow> if p2 \<noteq> [] then Inl (KSystemError ''getCanonicalPath() failed'' ENOTDIR)
                       else Inr (?r, p2, n))"
      using False l canonical_parent_joinp [OF ns, of root ds]
      by (simp add: canonical_step_def nc ds(1) Let_def split: node.splits)
    have "resize ?r (length root) = root"
      using prefix_joinp [of root ds] by (auto simp: resize_def ds(1) prefix_def)
    with inv canonical_below_push [OF inv normal] canonical_below_root [of fs root] show ?thesis
      by (cases "fs ?r") (simp_all add: step)
  qed
qed

lemma canonical_loop_below:
  "root_ok root \<Longrightarrow> canonical_below fs root ret \<Longrightarrow>
   (\<exists>r. canonical_loop fs root (ret, p, n) = Inr r \<and> canonical_below fs root r) \<or>
   (\<exists>m x. canonical_loop fs root (ret, p, n) = Inl (KSystemError m x))"
proof (induction fs root "(ret, p, n)" arbitrary: ret p n rule: canonical_loop.induct)
  case (1 fs root ret p n)
  show ?case
  proof (cases "p = []")
    case True
    with "1.prems" show ?thesis by (simp add: canonical_loop.simps)
  next
    case False
    from canonical_step_cases [OF "1.prems", of p n] show ?thesis
    proof (elim disjE exE conjE)
      fix m x assume "canonical_step fs root (ret, p, n) = Inl (KSystemError m x)"
      with False show ?thesis by (simp add: canonical_loop.simps)
    next
      fix ret' p' n'
      assume "canonical_step fs root (ret, p, n) = Inr (ret', p', n')" "canonical_below fs root ret'"
      with "1.hyps" [OF False, of ret' p' n'] "1.prems" False show ?thesis
        by (simp add: canonical_loop.simps [of fs root ret p n])
    qed
  qed
qed

lemma getCanonicalPath_below:
  assumes "root_ok root" and "path \<noteq> []" and "hd path = SLASH"
  shows "(\<exists>r. getCanonicalPath fs cwd root path = Inr r \<and> canonical_below fs root r) \<or>
         (\<exists>m x. getCanonicalPath fs cwd root path = Inl (KSystemError m x))"
  using canonical_loop_below [OF assms(1) canonical_below_root, of fs path 0] assms
  by (auto simp: getCanonicalPath_def root_ok_def)

subsection \<open>Where the checks are too weak\<close>

text \<open>
  With the default root \<^verbatim>\<open>/\<close> the parent of a top level entry is the empty string: a relative
  symbolic link in \<^verbatim>\<open>/\<close> (\<^verbatim>\<open>/bin -> usr/bin\<close>) or a path such as \<^verbatim>\<open>/a/../b\<close> leads to the undefined
  read, and \<^verbatim>\<open>/a/..\<close> to the empty path. A working directory that merely starts with the root's
  name is taken to be below it.
\<close>

definition fs_dirs :: "string \<Rightarrow> node" where
  "fs_dirs path = Directory"

definition fs_bin :: "string \<Rightarrow> node" where
  "fs_bin path = (if path = ''/bin'' then Symlink ''usr/bin'' else Directory)"

lemmas canonical_eval = getCanonicalPath_def canonical_loop.simps canonical_step_def
  next_component_def canonical_parent_def rfind_char_def find_char_def PATH_SEPARATOR_def SLASH_def
  readLink_def BUFSIZ_def MAXSYMLINKS_def substr_def c_at_def char_consts

lemma canonical_root_parent_empty:
  "getCanonicalPath fs_dirs cwd [] ''/a/..'' = Inr []"
  by (simp add: canonical_eval fs_dirs_def)

lemma canonical_root_undefined:
  "getCanonicalPath fs_bin cwd [] ''/bin/sh'' = Inl (Undefined ''*ret.rbegin() of an empty string'')"
  by (simp add: canonical_eval fs_bin_def)

lemma canonical_cwd_escapes:
  "getCanonicalPath fs_dirs ''/x/rootfs'' ''/x/root'' ''../etc'' = Inr ''/x/etc''"
  by (simp add: canonical_eval fs_dirs_def)

section \<open>Listing directories\<close>

datatype d_type = DT_DIR | DT_UNKNOWN | DT_OTHER

record dirent =
  d_name :: string
  d_type :: d_type

text \<open>
  The filters as the class hierarchy has them; \<open>stat_dir\<close> is \<^verbatim>\<open>fstatat\<close> on an entry (\<^const>\<open>None\<close>: it
  failed, otherwise whether it is a directory), \<open>stat_ok\<close> whether \<^verbatim>\<open>fstatat\<close> on a path succeeds.
\<close>

definition FilterDots :: "dirent \<Rightarrow> bool" where
  "FilterDots d =
     (if d_name d = ''.'' then False else if d_name d = ''..'' then False else True)"

definition FilterDotsAndNondirs :: "(string \<Rightarrow> bool option) \<Rightarrow> dirent \<Rightarrow> bool" where
  "FilterDotsAndNondirs stat_dir d =
     (if \<not> FilterDots d then False
      else if d_type d = DT_DIR then True
      else if d_type d \<noteq> DT_UNKNOWN then False
      else (case stat_dir (d_name d) of None \<Rightarrow> False | Some isdir \<Rightarrow> isdir))"

definition FilterKdumpDirs ::
    "(string \<Rightarrow> bool option) \<Rightarrow> (string \<Rightarrow> bool) \<Rightarrow> dirent \<Rightarrow> bool" where
  "FilterKdumpDirs stat_dir stat_ok d =
     (if \<not> FilterDotsAndNondirs stat_dir d then False
      else stat_ok (appendPath (d_name d) ''vmcore''))"

definition listDir ::
    "(string \<Rightarrow> errno + dirent list) \<Rightarrow> (dirent \<Rightarrow> bool) \<Rightarrow> string \<Rightarrow> string list res" where
  "listDir opendir test this =
     (case opendir this of
        Inl e \<Rightarrow> Inl (KSystemError (''Cannot open directory '' @ this @ ''.'') e)
      | Inr entries \<Rightarrow> Inr (sort (map d_name (filter test entries))))"

lemma listDir_sorted: "listDir opendir test this = Inr v \<Longrightarrow> sorted v"
  by (auto simp: listDir_def split: sum.splits)

lemma listDir_mem:
  "listDir opendir test this = Inr v \<Longrightarrow> opendir this = Inr es \<Longrightarrow>
   x \<in> set v \<longleftrightarrow> (\<exists>d \<in> set es. test d \<and> d_name d = x)"
  by (auto simp: listDir_def)

section \<open>Creating directories\<close>

text \<open>
  \<open>sys_mkdir\<close> is the system call on the world \<open>'w\<close>. The recursive form strips trailing slashes and
  creates every prefix that ends before a slash, then the directory itself.
\<close>

definition mkdir_one :: "(string \<Rightarrow> 'w \<Rightarrow> 'w \<times> errno option) \<Rightarrow> string \<Rightarrow> 'w \<Rightarrow> 'w \<times> unit res" where
  "mkdir_one sys_mkdir this w =
     (case sys_mkdir this w of
        (w', None) \<Rightarrow> (w', Inr ())
      | (w', Some e) \<Rightarrow>
          if e \<noteq> EEXIST then (w', Inl (KSystemError (''mkdir of '' @ this @ '' failed.'') e))
          else (w', Inr ()))"

function mkdir_loop ::
    "(string \<Rightarrow> 'w \<Rightarrow> 'w \<times> errno option) \<Rightarrow> string \<Rightarrow> nat \<Rightarrow> 'w \<Rightarrow> 'w \<times> unit res" where
  "mkdir_loop sys_mkdir directory current_slash w =
     (case find_char_from SLASH directory (current_slash + 1) of
        None \<Rightarrow> mkdir_one sys_mkdir directory w
      | Some slash \<Rightarrow>
          (case mkdir_one sys_mkdir (take slash directory) w of
             (w', Inl e) \<Rightarrow> (w', Inl e)
           | (w', Inr _) \<Rightarrow> mkdir_loop sys_mkdir directory slash w'))"
  by pat_completeness auto
termination
proof (relation "measure (\<lambda>(sys, directory, current_slash, w). length directory - current_slash)")
  fix sys :: "string \<Rightarrow> 'w \<Rightarrow> 'w \<times> errno option" and directory current_slash w slash p w' r u
  assume "find_char_from SLASH directory (current_slash + 1) = Some slash"
  then obtain i where "find_char SLASH (drop (current_slash + 1) directory) = Some i"
      "slash = i + (current_slash + 1)"
    by (auto simp: find_char_from_def)
  then have "current_slash < slash" "slash < length directory"
    using find_char_SomeD(1) by fastforce+
  then show "((sys, directory, slash, w'), sys, directory, current_slash, w) \<in>
      measure (\<lambda>(sys, directory, current_slash, w). length directory - current_slash)"
    by simp
qed simp

declare mkdir_loop.simps [simp del]

definition mkdir :: "(string \<Rightarrow> 'w \<Rightarrow> 'w \<times> errno option) \<Rightarrow> bool \<Rightarrow> string \<Rightarrow> 'w \<Rightarrow> 'w \<times> unit res" where
  "mkdir sys_mkdir recursive this w =
     (if \<not> recursive then mkdir_one sys_mkdir this w
      else
        let directory = rtrim [SLASH] this
        in if directory = [] then (w, Inl (Undefined ''directory[size() - 1] of an empty path''))
           else mkdir_loop sys_mkdir directory 0 w)"

text \<open>
  The directories requested: with a system call that logs its argument and succeeds, every
  ancestor of the directory, outermost first, and then the directory.
\<close>

definition log_mkdir :: "string \<Rightarrow> string list \<Rightarrow> string list \<times> errno option" where
  "log_mkdir path w = (w @ [path], None)"

fun parents :: "string \<Rightarrow> string list \<Rightarrow> string list" where
  "parents p [] = []"
| "parents p (d # ds) = (p @ SLASH # d) # parents (p @ SLASH # d) ds"

lemma mkdir_loop_parents:
  assumes "\<forall>d \<in> set (d # ds). SLASH \<notin> set d"
  shows "mkdir_loop log_mkdir (joinp p (d # ds)) (length p) w = (w @ parents p (d # ds), Inr ())"
  using assms
proof (induction ds arbitrary: p d w)
  case Nil
  then have "find_char_from SLASH (joinp p [d]) (length p + 1) = None"
    by (simp add: find_char_from_def joinp_def)
  then show ?case
    by (simp add: mkdir_loop.simps mkdir_one_def log_mkdir_def) (simp add: joinp_def)
next
  case (Cons e ds)
  let ?q = "p @ SLASH # d"
  have j: "joinp p (d # e # ds) = joinp ?q (e # ds)"
    by (simp add: joinp_def)
  have f: "find_char_from SLASH (joinp ?q (e # ds)) (length p + 1) = Some (length ?q)"
    using Cons.prems by (simp add: find_char_from_def joinp_def find_char_append_Some)
  have "take (length ?q) (joinp ?q (e # ds)) = ?q"
    by (simp add: joinp_def)
  with f have "mkdir_loop log_mkdir (joinp ?q (e # ds)) (length p) w =
      mkdir_loop log_mkdir (joinp ?q (e # ds)) (length ?q) (w @ [?q])"
    by (subst mkdir_loop.simps) (simp add: mkdir_one_def log_mkdir_def del: length_append)
  also have "\<dots> = ((w @ [?q]) @ parents ?q (e # ds), Inr ())"
    by (rule Cons.IH) (use Cons.prems in auto)
  finally show ?case by (simp add: j)
qed

lemma mkdir_recursive:
  assumes "\<forall>d \<in> set (d # ds). d \<noteq> [] \<and> SLASH \<notin> set d" and "set t \<subseteq> {SLASH}"
  shows "mkdir log_mkdir True (joinp [] (d # ds) @ t) w = (w @ parents [] (d # ds), Inr ())"
proof -
  obtain ds' l where l: "d # ds = ds' @ [l]" by (metis append_butlast_last_id list.distinct(1))
  then have "l \<noteq> []" "SLASH \<notin> set l" using assms(1) by (metis in_set_conv_decomp)+
  then have r: "rtrim [SLASH] (joinp [] (d # ds)) = joinp [] (d # ds)"
    by (intro rtrim_id) (auto simp: l dest: last_in_set)
  have "rtrim [SLASH] (joinp [] (d # ds) @ t) = joinp [] (d # ds)"
    using assms(2) by (simp add: rtrim_all r)
  moreover have "joinp [] (d # ds) \<noteq> []" by (simp add: joinp_def)
  ultimately show ?thesis
    using mkdir_loop_parents [of d ds "[]" w] assms(1) by (simp add: mkdir_def)
qed

end
