(* ===== verification/RootDirURL.thy ===== *)
theory RootDirURL
  imports URLParser FilePath
begin

text \<open>
  \<^verbatim>\<open>kdumptool/rootdirurl.cc\<close> and \<^verbatim>\<open>rootdirurl.h\<close>: the URL with the real path of a local target below
  a root directory. The class derives from \<open>URLParser\<close>; here its record extends \<^typ>\<open>url_parser\<close>.
\<close>

record root_dir_url = url_parser +
  m_realpath :: string

definition RootDirURL ::
    "(string \<Rightarrow> node) \<Rightarrow> string \<Rightarrow> string \<Rightarrow> string \<Rightarrow> root_dir_url res" where
  "RootDirURL fs cwd url rootdir =
     res_bind (URLParser url) (\<lambda>u.
       if getProtocol u = PROT_FILE
       then res_bind (getCanonicalPath fs cwd rootdir (getPath u)) (\<lambda>rp.
              Inr (url_parser.extend u \<lparr>m_realpath = rp\<rparr>))
       else Inr (url_parser.extend u \<lparr>m_realpath = []\<rparr>))"

definition getRealPath :: "root_dir_url \<Rightarrow> string" where
  "getRealPath u = (if m_realpath u = [] then m_path u else m_realpath u)"

text \<open>
  A local target given below a proper root directory has its real path below that root, with every
  component resolved.
\<close>

lemma extend_sel [simp]:
  "m_protocol (url_parser.extend u r) = m_protocol u"
  "m_path (url_parser.extend u r) = m_path u"
  "m_hostname (url_parser.extend u r) = m_hostname u"
  "m_realpath (url_parser.extend u \<lparr>m_realpath = rp\<rparr>) = rp"
  by (simp_all add: url_parser.defs)

lemma RootDirURL_confined:
  assumes "root_ok rootdir" and "RootDirURL fs cwd url rootdir = Inr u" and "m_protocol u = PROT_FILE"
  shows "canonical_below fs rootdir (getRealPath u)"
proof -
  from assms(2) obtain p where p: "URLParser url = Inr p"
      "(if getProtocol p = PROT_FILE
        then res_bind (getCanonicalPath fs cwd rootdir (getPath p)) (\<lambda>rp.
               Inr (url_parser.extend p \<lparr>m_realpath = rp\<rparr>))
        else Inr (url_parser.extend p \<lparr>m_realpath = []\<rparr>)) = Inr u"
    unfolding RootDirURL_def res_bind_eq_Inr_iff by blast
  from p(2) assms(3) have "m_protocol p = PROT_FILE"
    by (auto simp: getProtocol_def split: if_splits)
  with p(2) obtain rp where rp: "getCanonicalPath fs cwd rootdir (m_path p) = Inr rp"
      and u: "u = url_parser.extend p \<lparr>m_realpath = rp\<rparr>"
    by (auto simp: getProtocol_def getPath_def res_bind_eq_Inr_iff)
  have ok: "m_path p \<noteq> []" "hd (m_path p) = SLASH"
    using URLParser_ok [OF p(1)] by (auto simp: url_ok_def SLASH_def)
  with getCanonicalPath_below [OF assms(1) ok, of fs cwd] rp have b: "canonical_below fs rootdir rp"
    by auto
  then have "rp \<noteq> []"
    using assms(1) by (auto simp: canonical_below_def root_ok_def joinp_def)
  with b u show ?thesis by (simp add: getRealPath_def)
qed

end
