(* ===== verification/DeleteDumps.thy ===== *)
theory DeleteDumps
  imports RootDirURL Configuration
begin

text \<open>
  \<^verbatim>\<open>kdumptool/deletedumps.cc\<close>: removal of old dumps, and \<^verbatim>\<open>print_target.cc\<close>. The operating system is
  a record of operations on a world \<open>'w\<close>; \<open>op_rmdir\<close> is \<^verbatim>\<open>FilePath::rmdir(true)\<close>. The notes printed
  to \<^verbatim>\<open>cerr\<close> are left out.
\<close>

record 'w dir_ops =
  op_exists :: "'w \<Rightarrow> string \<Rightarrow> bool"
  op_opendir :: "'w \<Rightarrow> string \<Rightarrow> errno + dirent list"
  op_stat_dir :: "'w \<Rightarrow> string \<Rightarrow> string \<Rightarrow> bool option"
  op_stat_ok :: "'w \<Rightarrow> string \<Rightarrow> string \<Rightarrow> bool"
  op_rmdir :: "string \<Rightarrow> 'w \<Rightarrow> 'w \<times> unit res"

definition kdump_dirs :: "'w dir_ops \<Rightarrow> 'w \<Rightarrow> string \<Rightarrow> string list res" where
  "kdump_dirs ops w dir =
     listDir (op_opendir ops w) (FilterKdumpDirs (op_stat_dir ops w dir) (op_stat_ok ops w dir)) dir"

fun delete_loop :: "'w dir_ops \<Rightarrow> bool \<Rightarrow> string \<Rightarrow> string list \<Rightarrow> 'w \<Rightarrow> 'w \<times> unit res" where
  "delete_loop ops dryRun dir [] w = (w, Inr ())"
| "delete_loop ops dryRun dir (it # its) w =
     (if \<not> dryRun
      then (case op_rmdir ops (appendPath dir it) w of
              (w', Inl e) \<Rightarrow> (w', Inl e)
            | (w', Inr _) \<Rightarrow> delete_loop ops dryRun dir its w')
      else delete_loop ops dryRun dir its w)"

definition delete_one :: "'w dir_ops \<Rightarrow> bool \<Rightarrow> root_dir_url \<Rightarrow> int \<Rightarrow> 'w \<Rightarrow> 'w \<times> unit res" where
  "delete_one ops dryRun url oldDumps w =
     (if m_protocol url \<noteq> PROT_FILE then (w, Inr ())
      else
        let dir = getRealPath url
        in if \<not> op_exists ops w dir then (w, Inr ())
           else (case kdump_dirs ops w dir of
                   Inl e \<Rightarrow> (w, Inl e)
                 | Inr contents \<Rightarrow>
                     if oldDumps \<noteq> -1 \<and> oldDumps > int (length contents) then (w, Inr ())
                     else
                       let deleteItems = (if oldDumps = -1 then int (length contents)
                                          else int (length contents) - oldDumps)
                       in if deleteItems > int (length contents)
                          then (w, Inl (Undefined ''copy_n past the end''))
                          else delete_loop ops dryRun dir (take (nat deleteItems) contents) w))"

fun delete_urls ::
    "'w dir_ops \<Rightarrow> (string \<Rightarrow> root_dir_url res) \<Rightarrow> bool \<Rightarrow> int \<Rightarrow> string list \<Rightarrow> 'w \<Rightarrow> 'w \<times> unit res"
where
  "delete_urls ops mkurl dryRun oldDumps [] w = (w, Inr ())"
| "delete_urls ops mkurl dryRun oldDumps (elem # elems) w =
     (case mkurl elem of
        Inl e \<Rightarrow> (w, Inl e)
      | Inr url \<Rightarrow>
          (case delete_one ops dryRun url oldDumps w of
             (w', Inl e) \<Rightarrow> (w', Inl e)
           | (w', Inr _) \<Rightarrow> delete_urls ops mkurl dryRun oldDumps elems w'))"

definition delete_dumps_execute ::
    "'w dir_ops \<Rightarrow> (string \<Rightarrow> node) \<Rightarrow> string \<Rightarrow> string \<Rightarrow> bool \<Rightarrow> configuration \<Rightarrow> 'w \<Rightarrow> 'w \<times> unit res"
where
  "delete_dumps_execute ops fs cwd rootdir dryRun config w =
     (let oldDumps = config_int ''KDUMP_KEEP_OLD_DUMPS'' config
      in if oldDumps = 0 then (w, Inr ())
         else delete_urls ops (\<lambda>elem. RootDirURL fs cwd elem rootdir) dryRun oldDumps
                (stream_words (config_string ''KDUMP_SAVEDIR'' config)) w)"

section \<open>Which dumps go\<close>

text \<open>
  Against a world that records the directories removed, the oldest dumps in the order of their
  names go and as many as configured stay.
\<close>

definition log_rmdir :: "string \<Rightarrow> string list \<Rightarrow> string list \<times> unit res" where
  "log_rmdir path w = (w @ [path], Inr ())"

lemma delete_loop_log:
  "op_rmdir ops = log_rmdir \<Longrightarrow>
   delete_loop ops dryRun dir its w = (if dryRun then w else w @ map (appendPath dir) its, Inr ())"
  by (induction its arbitrary: w) (auto simp: log_rmdir_def)

lemma sorted_take_drop: "sorted v \<Longrightarrow> x \<in> set (take n v) \<Longrightarrow> y \<in> set (drop n v) \<Longrightarrow> x \<le> y"
  by (metis append_take_drop_id sorted_append)

lemma delete_one_keeps_newest:
  assumes "op_rmdir ops = log_rmdir" and "m_protocol url = PROT_FILE"
    and "op_exists ops w (getRealPath url)"
    and dirs: "kdump_dirs ops w (getRealPath url) = Inr v"
    and "0 \<le> k" and "k \<le> int (length v)"
  shows "\<exists>old new. v = old @ new \<and> int (length new) = k \<and> (\<forall>x \<in> set old. \<forall>y \<in> set new. x \<le> y) \<and>
    delete_one ops False url k w = (w @ map (appendPath (getRealPath url)) old, Inr ())"
proof (intro exI conjI)
  let ?n = "nat (int (length v) - k)"
  show "v = take ?n v @ drop ?n v" by simp
  show "int (length (drop ?n v)) = k" using assms(5,6) by simp
  have "sorted v" using dirs unfolding kdump_dirs_def by (rule listDir_sorted)
  then show "\<forall>x \<in> set (take ?n v). \<forall>y \<in> set (drop ?n v). x \<le> y"
    using sorted_take_drop by blast
  show "delete_one ops False url k w =
      (w @ map (appendPath (getRealPath url)) (take ?n v), Inr ())"
    using assms by (simp add: delete_one_def Let_def delete_loop_log)
qed

lemma delete_one_few:
  assumes "kdump_dirs ops w (getRealPath url) = Inr v" and "int (length v) < k"
  shows "delete_one ops dryRun url k w = (w, Inr ())"
  using assms by (auto simp: delete_one_def Let_def)

lemma delete_one_all:
  assumes "op_rmdir ops = log_rmdir" and "m_protocol url = PROT_FILE"
    and "op_exists ops w (getRealPath url)" and "kdump_dirs ops w (getRealPath url) = Inr v"
  shows "delete_one ops False url (-1) w = (w @ map (appendPath (getRealPath url)) v, Inr ())"
  using assms by (simp add: delete_one_def Let_def delete_loop_log)

text \<open>A count below \<open>-1\<close> makes \<^verbatim>\<open>copy_n\<close> read past the end of the list.\<close>

lemma delete_one_undefined:
  assumes "m_protocol url = PROT_FILE" and "op_exists ops w (getRealPath url)"
    and "kdump_dirs ops w (getRealPath url) = Inr v" and "k < -1"
  shows "delete_one ops dryRun url k w = (w, Inl (Undefined ''copy_n past the end''))"
  using assms by (simp add: delete_one_def Let_def)

text \<open>A dry run removes nothing, whatever the operating system would do.\<close>

lemma delete_loop_dry: "delete_loop ops True dir its w = (w, Inr ())"
  by (induction its) simp_all

lemma delete_one_dry: "fst (delete_one ops True url k w) = w"
  by (simp add: delete_one_def Let_def delete_loop_dry split: sum.splits)

lemma delete_urls_dry: "fst (delete_urls ops mkurl True k elems w) = w"
proof (induction elems)
  case Nil
  then show ?case by simp
next
  case (Cons elem elems)
  have "w' = w" if "delete_one ops True url k w = (w', r)" for url w' r
    using delete_one_dry [of ops url k w] that by simp
  with Cons show ?case
    by (auto split: sum.splits prod.splits)
qed

section \<open>The print_target subcommand\<close>

definition print_one :: "root_dir_url \<Rightarrow> string" where
  "print_one parser =
     ''Protocol:   '' @ protocol2string (m_protocol parser) @ [NL] @
     ''URL:        '' @ m_url parser @ [NL] @
     ''Username:   '' @ m_username parser @ [NL] @
     ''Password:   '' @ m_password parser @ [NL] @
     ''Host:       '' @ m_hostname parser @ [NL] @
     ''Port:       '' @ (if m_port parser \<noteq> -1 then number2string (m_port parser) else []) @ [NL] @
     ''Path:       '' @ m_path parser @ [NL] @
     ''Realpath:   '' @ getRealPath parser @ [NL]"

fun print_target_loop :: "(string \<Rightarrow> root_dir_url res) \<Rightarrow> bool \<Rightarrow> string list \<Rightarrow> string \<times> unit res" where
  "print_target_loop mkurl isfirst [] = ([], Inr ())"
| "print_target_loop mkurl isfirst (elem # elems) =
     (case mkurl elem of
        Inl e \<Rightarrow> ([], Inl e)
      | Inr url \<Rightarrow>
          (case print_target_loop mkurl False elems of
             (out, r) \<Rightarrow> ((if isfirst then [] else [NL]) @ print_one url @ out, r)))"

definition print_target_execute ::
    "(string \<Rightarrow> node) \<Rightarrow> string \<Rightarrow> string \<Rightarrow> configuration \<Rightarrow> string \<times> unit res" where
  "print_target_execute fs cwd rootdir config =
     print_target_loop (\<lambda>elem. RootDirURL fs cwd elem rootdir) True
       (stream_words (config_string ''KDUMP_SAVEDIR'' config))"

end
