(* ===== verification/RemoveDir.thy ===== *)
theory RemoveDir
  imports DeleteDumps
begin

text \<open>
  \<open>FilePath::rmdir\<close> of \<^verbatim>\<open>kdumptool/fileutil.cc\<close>, and the operations of \<^const>\<open>delete_one\<close> built on it. The
  system calls are a record of operations on a world; a directory is read in one go when it is opened.
  The recursion into subdirectories has fuel, because a world need not be a tree; for a tree
  its depth is enough.
\<close>

record 'w remove_ops =
  ro_opendir :: "'w \<Rightarrow> string \<Rightarrow> errno + dirent list"
  ro_remove :: "string \<Rightarrow> 'w \<Rightarrow> 'w \<times> errno option"
  ro_rmdir :: "string \<Rightarrow> 'w \<Rightarrow> 'w \<times> errno option"

definition sys_rmdir :: "'w remove_ops \<Rightarrow> string \<Rightarrow> 'w \<Rightarrow> 'w \<times> unit res" where
  "sys_rmdir ops this w =
     (case ro_rmdir ops this w of
        (w', None) \<Rightarrow> (w', Inr ())
      | (w', Some e) \<Rightarrow> (w', Inl (KSystemError (''Cannot rmdir('' @ this @ '').'') e)))"

definition remove_entry :: "'w remove_ops \<Rightarrow> string \<Rightarrow> string \<Rightarrow> 'w \<Rightarrow> 'w \<times> unit res" where
  "remove_entry ops this name w =
     (case ro_remove ops (appendPath this name) w of
        (w', None) \<Rightarrow> (w', Inr ())
      | (w', Some e) \<Rightarrow> (w', Inl (KSystemError (''Cannot remove '' @ name @ ''.'') e)))"

text \<open>The loop over the entries; \<open>sub\<close> removes a subdirectory.\<close>

fun rmdir_entries ::
    "(string \<Rightarrow> 'w \<Rightarrow> ('w \<times> unit res) option) \<Rightarrow> 'w remove_ops \<Rightarrow> string \<Rightarrow> dirent list \<Rightarrow> 'w \<Rightarrow>
     ('w \<times> unit res) option" where
  "rmdir_entries sub ops this [] w = Some (w, Inr ())"
| "rmdir_entries sub ops this (d # ds) w =
     (if d_name d = ''.'' \<or> d_name d = ''..'' then rmdir_entries sub ops this ds w
      else case (if d_type d = DT_DIR then sub (appendPath this (d_name d)) w
                 else Some (remove_entry ops this (d_name d) w)) of
             None \<Rightarrow> None
           | Some (w', Inl e) \<Rightarrow> Some (w', Inl e)
           | Some (w', Inr _) \<Rightarrow> rmdir_entries sub ops this ds w')"

fun rmdir :: "nat \<Rightarrow> 'w remove_ops \<Rightarrow> bool \<Rightarrow> string \<Rightarrow> 'w \<Rightarrow> ('w \<times> unit res) option" where
  "rmdir fuel ops False this w = Some (sys_rmdir ops this w)"
| "rmdir 0 ops True this w = None"
| "rmdir (Suc fuel) ops True this w =
     (case ro_opendir ops w this of
        Inl e \<Rightarrow> Some (w, Inl (KSystemError (''Cannot opendir('' @ this @ '').'') e))
      | Inr es \<Rightarrow>
          (case rmdir_entries (rmdir fuel ops True) ops this es w of
             None \<Rightarrow> None
           | Some (w', Inl e) \<Rightarrow> Some (w', Inl e)
           | Some (w', Inr _) \<Rightarrow> Some (sys_rmdir ops this w')))"

text \<open>What \<^const>\<open>delete_one\<close> uses.\<close>

definition with_rmdir :: "nat \<Rightarrow> 'w remove_ops \<Rightarrow> 'w dir_ops \<Rightarrow> 'w dir_ops" where
  "with_rmdir fuel rops ops = ops\<lparr>op_rmdir := \<lambda>path w.
     (case rmdir fuel rops True path w of None \<Rightarrow> (w, Inl (Undefined ''fuel'')) | Some r \<Rightarrow> r)\<rparr>"

section \<open>Trees\<close>

datatype tree = File | Dir "(string \<times> tree) list"

fun is_dir :: "tree \<Rightarrow> bool" where
  "is_dir File = False"
| "is_dir (Dir es) = True"

fun depth :: "tree \<Rightarrow> nat" where
  "depth File = 0"
| "depth (Dir es) = Suc (foldr max (map (depth \<circ> snd) es) 0)"

fun entry_ok :: "string \<times> tree \<Rightarrow> bool" where
  "entry_ok (n, t) = (n \<noteq> [] \<and> n \<noteq> ''.'' \<and> n \<noteq> ''..'' \<and> SLASH \<notin> set n)"

fun tree_ok :: "tree \<Rightarrow> bool" where
  "tree_ok File = True"
| "tree_ok (Dir es) = (list_all entry_ok es \<and> list_all (tree_ok \<circ> snd) es \<and> distinct (map fst es))"

text \<open>The entries as \<^verbatim>\<open>readdir\<close> gives them, with the two dots.\<close>

definition dirents :: "(string \<times> tree) list \<Rightarrow> dirent list" where
  "dirents es =
     \<lparr>d_name = ''.'', d_type = DT_DIR\<rparr> # \<lparr>d_name = ''..'', d_type = DT_DIR\<rparr> #
     map (\<lambda>(n, t). \<lparr>d_name = n, d_type = (if is_dir t then DT_DIR else DT_OTHER)\<rparr>) es"

datatype removal = Removed string | Rmdired string

text \<open>The system calls that take a tree away: everything inside a directory before the directory.\<close>

fun removals :: "string \<Rightarrow> tree \<Rightarrow> removal list" where
  "removals p File = [Removed p]"
| "removals p (Dir es) = concat (map (\<lambda>(n, t). removals (appendPath p n) t) es) @ [Rmdired p]"

text \<open>A world that logs the calls, over a file system in which \<open>ls\<close> lists the directories.\<close>

definition log_ops :: "(string \<Rightarrow> dirent list) \<Rightarrow> removal list remove_ops" where
  "log_ops ls =
     \<lparr>ro_opendir = (\<lambda>_ p. Inr (ls p)), ro_remove = (\<lambda>p w. (w @ [Removed p], None)),
      ro_rmdir = (\<lambda>p w. (w @ [Rmdired p], None))\<rparr>"

lemma log_ops_sel:
  "ro_opendir (log_ops ls) w p = Inr (ls p)"
  "ro_remove (log_ops ls) p v = (v @ [Removed p], None)"
  "ro_rmdir (log_ops ls) p v = (v @ [Rmdired p], None)"
  by (simp_all add: log_ops_def)

fun listed :: "(string \<Rightarrow> dirent list) \<Rightarrow> string \<Rightarrow> tree \<Rightarrow> bool" where
  "listed ls p File = True"
| "listed ls p (Dir es) =
     (ls p = dirents es \<and> list_all (\<lambda>(n, t). listed ls (appendPath p n) t) es)"

lemma rmdir_entries_tree:
  assumes "\<And>n t w. (n, t) \<in> set es \<Longrightarrow> is_dir t \<Longrightarrow>
      sub (appendPath p n) w = Some (w @ removals (appendPath p n) t, Inr ())"
    and "list_all entry_ok es"
  shows "rmdir_entries sub (log_ops ls) p
      (map (\<lambda>(n, t). \<lparr>d_name = n, d_type = (if is_dir t then DT_DIR else DT_OTHER)\<rparr>) es) w =
    Some (w @ concat (map (\<lambda>(n, t). removals (appendPath p n) t) es), Inr ())"
  using assms
proof (induction es arbitrary: w)
  case Nil
  then show ?case by simp
next
  case (Cons e es)
  obtain n t where e: "e = (n, t)" by fastforce
  have n: "n \<noteq> ''.''" "n \<noteq> ''..''" using Cons.prems(2) e by auto
  have IH: "rmdir_entries sub (log_ops ls) p
      (map (\<lambda>(n, t). \<lparr>d_name = n, d_type = (if is_dir t then DT_DIR else DT_OTHER)\<rparr>) es) w' =
      Some (w' @ concat (map (\<lambda>(n, t). removals (appendPath p n) t) es), Inr ())" for w'
    by (rule Cons.IH) (use Cons.prems in auto)
  show ?case
  proof (cases t)
    case File
    then show ?thesis using n IH by (simp add: e remove_entry_def log_ops_def)
  next
    case (Dir ts)
    then have "sub (appendPath p n) w = Some (w @ removals (appendPath p n) t, Inr ())"
      using Cons.prems(1) [of n t w] e by simp
    then show ?thesis using Dir n IH by (simp add: e)
  qed
qed

lemma depth_entry: "(n, t) \<in> set es \<Longrightarrow> depth t < depth (Dir es)"
proof -
  assume "(n, t) \<in> set es"
  then have "depth t \<le> foldr max (map (depth \<circ> snd) es) 0"
    by (induction es) (auto simp: max_def)
  then show ?thesis by simp
qed

text \<open>Removing a tree makes exactly these calls, in this order, and returns.\<close>

lemma rmdir_tree:
  "is_dir t \<Longrightarrow> tree_ok t \<Longrightarrow> listed ls p t \<Longrightarrow> depth t \<le> fuel \<Longrightarrow>
   rmdir fuel (log_ops ls) True p w = Some (w @ removals p t, Inr ())"
proof (induction fuel arbitrary: t p w)
  case 0
  then show ?case by (cases t) auto
next
  case (Suc fuel)
  then obtain es where t: "t = Dir es" by (cases t) auto
  have sub: "rmdir fuel (log_ops ls) True (appendPath p n) w = Some (w @ removals (appendPath p n) t', Inr ())"
    if m: "(n, t') \<in> set es" and d: "is_dir t'" for n t' w
  proof (rule Suc.IH [OF d])
    show "tree_ok t'" using Suc.prems(2) m unfolding t by (auto simp: list_all_iff)
    show "listed ls (appendPath p n) t'" using Suc.prems(3) m unfolding t by (auto simp: list_all_iff)
    show "depth t' \<le> fuel" using Suc.prems(4) depth_entry [OF m] unfolding t by linarith
  qed
  have "list_all entry_ok es" using Suc.prems(2) unfolding t by simp
  from rmdir_entries_tree [of es "rmdir fuel (log_ops ls) True" p, OF sub this]
  have "rmdir_entries (rmdir fuel (log_ops ls) True) (log_ops ls) p (dirents es) w =
      Some (w @ concat (map (\<lambda>(n, t). removals (appendPath p n) t) es), Inr ())"
    by (simp add: dirents_def)
  moreover have "ls p = dirents es" using Suc.prems(3) unfolding t by simp
  ultimately show ?case
    unfolding t by (simp add: log_ops_sel sys_rmdir_def)
qed

text \<open>Nothing outside the directory is touched.\<close>

lemma appendPath_prefix: "SLASH \<notin> set n \<Longrightarrow> n \<noteq> [] \<Longrightarrow> p \<noteq> [] \<Longrightarrow> last p \<noteq> SLASH \<Longrightarrow> appendPath p n = p @ SLASH # n"
  by (simp add: appendPath_component rtrim_id PATH_SEPARATOR_def SLASH_def)

fun removal_path :: "removal \<Rightarrow> string" where
  "removal_path (Removed p) = p"
| "removal_path (Rmdired p) = p"

lemma removals_below:
  "tree_ok t \<Longrightarrow> p \<noteq> [] \<Longrightarrow> last p \<noteq> SLASH \<Longrightarrow> r \<in> set (removals p t) \<Longrightarrow>
   removal_path r = p \<or> prefix (p @ [SLASH]) (removal_path r)"
proof (induction p t rule: removals.induct)
  case (1 p)
  then show ?case by simp
next
  case (2 p es)
  show ?case
  proof (cases "r = Rmdired p")
    case False
    then obtain n t where m: "(n, t) \<in> set es" and r: "r \<in> set (removals (appendPath p n) t)"
      using "2.prems"(4) by auto
    have ok: "n \<noteq> []" "SLASH \<notin> set n" "tree_ok t"
      using "2.prems"(1) m by (auto simp: list_all_iff)
    then have a: "appendPath p n = p @ SLASH # n"
      using "2.prems"(2,3) by (simp add: appendPath_prefix)
    have "last (p @ SLASH # n) \<noteq> SLASH" using ok by (auto dest: last_in_set)
    then have "removal_path r = p @ SLASH # n \<or> prefix ((p @ SLASH # n) @ [SLASH]) (removal_path r)"
      using "2.IH" [OF m, of n t] ok r by (simp add: a)
    then show ?thesis by (auto simp: prefix_def)
  qed simp
qed

end
