(* ===== verification/StateExn.thy ===== *)
theory StateExn
  imports Kdump_Prelude
begin

text \<open>
  Code that changes state and throws: a function from a state to a result and the state at the
  moment it returned or threw. What was written before an exception stays written.
\<close>

type_synonym ('s, 'a) sx = "'s \<Rightarrow> 'a res \<times> 's"

definition sx_return :: "'a \<Rightarrow> ('s, 'a) sx" where
  "sx_return a s = (Inr a, s)"

definition sx_throw :: "kerror \<Rightarrow> ('s, 'a) sx" where
  "sx_throw e s = (Inl e, s)"

definition sx_lift :: "'a res \<Rightarrow> ('s, 'a) sx" where
  "sx_lift r s = (r, s)"

definition sx_bind :: "('s, 'a) sx \<Rightarrow> ('a \<Rightarrow> ('s, 'b) sx) \<Rightarrow> ('s, 'b) sx" where
  "sx_bind m f s = (case m s of (Inl e, s') \<Rightarrow> (Inl e, s') | (Inr a, s') \<Rightarrow> f a s')"

definition sx_seq :: "('s, 'a) sx \<Rightarrow> ('s, 'b) sx \<Rightarrow> ('s, 'b) sx" where
  "sx_seq m k = sx_bind m (\<lambda>_. k)"

text \<open>\<^verbatim>\<open>try { m } catch (...) { handler; throw; }\<close>: an exception of the handler replaces the first one.\<close>

definition sx_catch :: "('s, 'a) sx \<Rightarrow> ('s, unit) sx \<Rightarrow> ('s, 'a) sx" where
  "sx_catch m handler s =
     (case m s of
        (Inl e, s') \<Rightarrow>
          (case handler s' of (Inl e', s'') \<Rightarrow> (Inl e', s'') | (Inr _, s'') \<Rightarrow> (Inl e, s''))
      | (Inr a, s') \<Rightarrow> (Inr a, s'))"

named_theorems sx_simps

lemma sx_basic [sx_simps]:
  "sx_return a s = (Inr a, s)"
  "sx_throw e s = (Inl e, s)"
  "sx_lift r s = (r, s)"
  by (simp_all add: sx_return_def sx_throw_def sx_lift_def)

lemma sx_bind_Inr: "m s = (Inr a, s') \<Longrightarrow> sx_bind m f s = f a s'"
  by (simp add: sx_bind_def)

lemma sx_bind_Inl: "m s = (Inl e, s') \<Longrightarrow> sx_bind m f s = (Inl e, s')"
  by (simp add: sx_bind_def)

lemma sx_seq_Inr: "m s = (Inr a, s') \<Longrightarrow> sx_seq m k s = k s'"
  by (simp add: sx_seq_def sx_bind_def)

lemma sx_seq_Inl: "m s = (Inl e, s') \<Longrightarrow> sx_seq m k s = (Inl e, s')"
  by (simp add: sx_seq_def sx_bind_def)

lemma sx_bind_eq_Inr_iff:
  "sx_bind m f s = (Inr b, s'') \<longleftrightarrow> (\<exists>a s'. m s = (Inr a, s') \<and> f a s' = (Inr b, s''))"
  by (auto simp: sx_bind_def split: prod.splits sum.splits)

lemma sx_seq_eq_Inr_iff:
  "sx_seq m k s = (Inr b, s'') \<longleftrightarrow> (\<exists>a s'. m s = (Inr a, s') \<and> k s' = (Inr b, s''))"
  by (simp add: sx_seq_def sx_bind_eq_Inr_iff)

lemma sx_catch_eq_Inr_iff: "sx_catch m h s = (Inr a, s') \<longleftrightarrow> m s = (Inr a, s')"
  by (auto simp: sx_catch_def split: prod.splits sum.splits)

lemma sx_catch_Inr: "m s = (Inr a, s') \<Longrightarrow> sx_catch m h s = (Inr a, s')"
  by (simp add: sx_catch_eq_Inr_iff)

text \<open>An error is never lost: what \<^const>\<open>sx_catch\<close> returns is a value only if the body returned it.\<close>

lemma sx_catch_Inl:
  "m s = (Inl e, s') \<Longrightarrow> \<exists>e' s''. sx_catch m h s = (Inl e', s'')"
  by (auto simp: sx_catch_def split: prod.splits sum.splits)

text \<open>
  \<^verbatim>\<open>try { m } catch (KError &e) { h }\<close>: exceptions of the standard library pass, and undefined behaviour is no exception. A body without effects
  has the value \<open>d\<close> when it fails.
\<close>

fun is_kerror :: "kerror \<Rightarrow> bool" where
  "is_kerror OutOfRange = False"
| "is_kerror BadAlloc = False"
| "is_kerror (Undefined what) = False"
| "is_kerror e = True"

definition sx_try :: "('s, 'a) sx \<Rightarrow> (kerror \<Rightarrow> ('s, 'a) sx) \<Rightarrow> ('s, 'a) sx" where
  "sx_try m h s =
     (case m s of
        (Inl e, s') \<Rightarrow> if is_kerror e then h e s' else (Inl e, s')
      | (Inr a, s') \<Rightarrow> (Inr a, s'))"

definition res_or :: "'a \<Rightarrow> 'a res \<Rightarrow> 'a res" where
  "res_or d m = (case m of Inl e \<Rightarrow> if is_kerror e then Inr d else Inl e | Inr a \<Rightarrow> Inr a)"

lemma sx_bind_lift: "sx_bind (sx_lift r) f s = (case r of Inl e \<Rightarrow> (Inl e, s) | Inr a \<Rightarrow> f a s)"
  by (simp add: sx_bind_def sx_lift_def)

lemma sx_try_Inr: "m s = (Inr a, s') \<Longrightarrow> sx_try m h s = (Inr a, s')"
  by (simp add: sx_try_def)

lemma sx_try_Inl: "m s = (Inl e, s') \<Longrightarrow> is_kerror e \<Longrightarrow> sx_try m h s = h e s'"
  by (simp add: sx_try_def)

text \<open>
  An invariant of the state that every step keeps, whether it returns or throws.
\<close>

definition sx_preserves :: "('s \<Rightarrow> 's \<Rightarrow> bool) \<Rightarrow> ('s, 'a) sx \<Rightarrow> bool" where
  "sx_preserves R m \<longleftrightarrow> (\<forall>s. R s (snd (m s)))"

lemma sx_preserves_basic:
  assumes "\<And>s. R s s"
  shows "sx_preserves R (sx_return a)" and "sx_preserves R (sx_throw e)" and "sx_preserves R (sx_lift r)"
  using assms by (simp_all add: sx_preserves_def sx_simps)

lemma sx_preserves_bind:
  assumes "\<And>a b c. R a b \<Longrightarrow> R b c \<Longrightarrow> R a c"
    and "sx_preserves R m" and "\<And>a. sx_preserves R (f a)"
  shows "sx_preserves R (sx_bind m f)"
  unfolding sx_preserves_def
proof
  fix s
  obtain r s1 where m: "m s = (r, s1)" by fastforce
  then have 1: "R s s1" using assms(2) by (metis sx_preserves_def snd_conv)
  show "R s (snd (sx_bind m f s))"
  proof (cases r)
    case (Inl e)
    then show ?thesis using m 1 by (simp add: sx_bind_def)
  next
    case (Inr a)
    then show ?thesis using m 1 assms(1) assms(3) [of a]
      by (auto simp: sx_bind_def sx_preserves_def)
  qed
qed

lemma sx_preserves_seq:
  assumes "\<And>a b c. R a b \<Longrightarrow> R b c \<Longrightarrow> R a c"
    and "sx_preserves R m" and "sx_preserves R k"
  shows "sx_preserves R (sx_seq m k)"
  unfolding sx_seq_def by (rule sx_preserves_bind) (use assms in auto)

end
