(* ===== verification/DataProvider.thy ===== *)
theory DataProvider
  imports StringUtil StateExn
begin

text \<open>
  The data providers of \<^verbatim>\<open>kdumptool/dataprovider.cc\<close>: where the bytes of a transfer come from. The
  kernel and libc calls are answered by an environment held in the state: \<^verbatim>\<open>fopen\<close> and \<^verbatim>\<open>popen\<close>
  give a stream, which has its bytes, a read position and possibly an offset behind which every
  read fails.
\<close>

section \<open>The interface\<close>

record 'p data_provider =
  dp_prepare :: "('p, unit) sx"
  dp_getData :: "nat \<Rightarrow> ('p, string) sx"
  dp_finish :: "('p, unit) sx"
  dp_canSaveToFile :: bool
  dp_saveToFile :: "string list \<Rightarrow> ('p, unit) sx"
  dp_setError :: "bool \<Rightarrow> 'p \<Rightarrow> 'p"

section \<open>AbstractDataProvider\<close>

text \<open>The calls on the \<^verbatim>\<open>Progress\<close> object; \<^const>\<open>None\<close> is the null pointer.\<close>

datatype progress_call = PStart | PProgressed int int | PStop bool

record abstract_dp =
  m_progress :: "progress_call list option"
  m_error :: bool

definition AbstractDataProvider :: abstract_dp where
  "AbstractDataProvider = \<lparr>m_progress = None, m_error = False\<rparr>"

definition notify :: "progress_call \<Rightarrow> 'a abstract_dp_scheme \<Rightarrow> 'a abstract_dp_scheme" where
  "notify call p = p\<lparr>m_progress := map_option (\<lambda>l. l @ [call]) (m_progress p)\<rparr>"

definition adp_prepare :: "('a abstract_dp_scheme, unit) sx" where
  "adp_prepare p = (Inr (), notify PStart p)"

definition adp_finish :: "('a abstract_dp_scheme, unit) sx" where
  "adp_finish p = (Inr (), notify (PStop (\<not> m_error p)) p)"

definition adp_setProgress :: "progress_call list option \<Rightarrow> 'a abstract_dp_scheme \<Rightarrow> 'a abstract_dp_scheme" where
  "adp_setProgress progress p = p\<lparr>m_progress := progress\<rparr>"

definition adp_setError :: "bool \<Rightarrow> 'a abstract_dp_scheme \<Rightarrow> 'a abstract_dp_scheme" where
  "adp_setError e p = p\<lparr>m_error := e\<rparr>"

definition adp_saveToFile :: "string list \<Rightarrow> ('p, unit) sx" where
  "adp_saveToFile targets = sx_throw (KError ''That DataProvider cannot save to a file.'')"

section \<open>Streams\<close>

record stdio_file =
  f_bytes :: string
  f_rpos :: nat
  f_fault :: "(nat \<times> errno) option"

text \<open>The bytes that can still be read, and the error a read at their end sets (none: end of file).\<close>

definition stream_rest :: "stdio_file \<Rightarrow> string" where
  "stream_rest f =
     (case f_fault f of
        None \<Rightarrow> drop (f_rpos f) (f_bytes f)
      | Some (q, _) \<Rightarrow> drop (f_rpos f) (take q (f_bytes f)))"

definition stream_errno :: "stdio_file \<Rightarrow> errno option" where
  "stream_errno f = map_option snd (f_fault f)"

text \<open>
  \<^verbatim>\<open>fread(buffer, 1, n, f)\<close> after \<^verbatim>\<open>errno = 0\<close>: the bytes read and \<^verbatim>\<open>errno\<close>, which is set whenever
  fewer than \<open>n\<close> bytes came in front of a fault.
\<close>

definition fread :: "nat \<Rightarrow> stdio_file \<Rightarrow> string \<times> errno option \<times> stdio_file" where
  "fread n f =
     (let r = take n (stream_rest f)
      in (r, if length r < n then stream_errno f else None, f\<lparr>f_rpos := f_rpos f + length r\<rparr>))"

lemma stream_rest_advance:
  "stream_rest (f\<lparr>f_rpos := f_rpos f + length (take n (stream_rest f))\<rparr>) = drop n (stream_rest f)"
  by (auto simp: stream_rest_def add.commute min_def split: option.splits prod.splits)

section \<open>FileDataProvider\<close>

text \<open>
  The environment of a file: what \<^verbatim>\<open>fopen\<close>, \<^verbatim>\<open>fileno\<close> and the two \<^verbatim>\<open>lseek\<close> calls answer, and the
  position of the descriptor, which runs ahead of the stream's because of its buffer.
\<close>

record file_env =
  fe_fopen :: "errno + stdio_file"
  fe_fileno :: "errno option"
  fe_size :: "errno + int"
  fe_rewind :: "errno option"
  fe_fdpos :: "nat \<Rightarrow> int"

record file_dp = abstract_dp +
  fdp_filename :: string
  fdp_file :: "stdio_file option"
  fdp_fileSize :: int
  fdp_currentPos :: nat
  fdp_env :: file_env

definition FileDataProvider :: "file_env \<Rightarrow> string \<Rightarrow> file_dp" where
  "FileDataProvider env filename =
     \<lparr>m_progress = None, m_error = False, fdp_filename = filename, fdp_file = None,
      fdp_fileSize = 0, fdp_currentPos = 0, fdp_env = env\<rparr>"

definition fdp_prepare :: "(file_dp, unit) sx" where
  "fdp_prepare p =
     (case fe_fopen (fdp_env p) of
        Inl e \<Rightarrow> (Inl (KSystemError (''Cannot open file '' @ fdp_filename p) e), p)
      | Inr f \<Rightarrow>
          let p = p\<lparr>fdp_file := Some f\<rparr>
          in (case fe_fileno (fdp_env p) of
                Some e \<Rightarrow> (Inl (KSystemError (''fileno() failed with '' @ fdp_filename p @ ''.'') e), p)
              | None \<Rightarrow>
                  (case fe_size (fdp_env p) of
                     Inl e \<Rightarrow> (Inl (KSystemError (''lseek() failed with '' @ fdp_filename p @ ''.'') e),
                               p\<lparr>fdp_fileSize := -1\<rparr>)
                   | Inr n \<Rightarrow>
                       let p = p\<lparr>fdp_fileSize := n\<rparr>
                       in (case fe_rewind (fdp_env p) of
                             Some e \<Rightarrow>
                               (Inl (KSystemError (''lseek() failed with '' @ fdp_filename p @ ''.'') e), p)
                           | None \<Rightarrow> adp_prepare p))))"

definition fdp_getData :: "nat \<Rightarrow> (file_dp, string) sx" where
  "fdp_getData maxread p =
     (case fdp_file p of
        None \<Rightarrow> (Inl (KError (''File '' @ fdp_filename p @ '' not opened.'')), p)
      | Some f \<Rightarrow>
          let (buffer, err, f') = fread maxread f;
              p' = p\<lparr>fdp_file := Some f'\<rparr>
          in (case (buffer, err) of
                ([], Some e) \<Rightarrow>
                  (Inl (KSystemError (''Error reading from '' @ fdp_filename p @ '' at '' @
                      number2hex (fdp_currentPos p)) e), adp_setError True p')
              | _ \<Rightarrow>
                  (Inr buffer,
                   (notify (PProgressed (fe_fdpos (fdp_env p) (f_rpos f')) (fdp_fileSize p)) p')
                     \<lparr>fdp_currentPos := fdp_currentPos p + length buffer\<rparr>)))"

definition fdp_finish :: "(file_dp, unit) sx" where
  "fdp_finish p = adp_finish (p\<lparr>fdp_file := None\<rparr>)"

definition file_provider :: "file_dp data_provider" where
  "file_provider =
     \<lparr>dp_prepare = fdp_prepare, dp_getData = fdp_getData, dp_finish = fdp_finish,
      dp_canSaveToFile = False, dp_saveToFile = adp_saveToFile, dp_setError = adp_setError\<rparr>"

section \<open>BufferDataProvider\<close>

text \<open>The pointer and the size are the part of the buffer not yet read.\<close>

record buffer_dp = abstract_dp +
  bdp_data :: string

definition BufferDataProvider :: "string \<Rightarrow> buffer_dp" where
  "BufferDataProvider data = \<lparr>m_progress = None, m_error = False, bdp_data = data\<rparr>"

definition bdp_getData :: "nat \<Rightarrow> (buffer_dp, string) sx" where
  "bdp_getData maxread p =
     (let size = min maxread (length (bdp_data p))
      in if size = 0 then (Inr [], p)
         else (Inr (take size (bdp_data p)), p\<lparr>bdp_data := drop size (bdp_data p)\<rparr>))"

definition buffer_provider :: "buffer_dp data_provider" where
  "buffer_provider =
     \<lparr>dp_prepare = adp_prepare, dp_getData = bdp_getData, dp_finish = adp_finish,
      dp_canSaveToFile = False, dp_saveToFile = adp_saveToFile, dp_setError = adp_setError\<rparr>"

section \<open>ProcessDataProvider\<close>

text \<open>
  \<^verbatim>\<open>popen\<close> answers with a stream, \<^verbatim>\<open>pclose\<close> and \<^verbatim>\<open>system\<close> with a wait status, of which
  \<^verbatim>\<open>WEXITSTATUS\<close> takes bits 8 to 15. \<^verbatim>\<open>pclose\<close> of a null pointer is undefined.
\<close>

definition WEXITSTATUS :: "int \<Rightarrow> int" where
  "WEXITSTATUS status = (status div 256) mod 256"

record process_dp = abstract_dp +
  pdp_pipeCmdline :: string
  pdp_directCmdline :: string
  pdp_processFile :: "stdio_file option"
  pdp_popen :: "errno + stdio_file"
  pdp_pclose :: int
  pdp_system :: "string \<Rightarrow> int"
  pdp_commands :: "string list"

definition ProcessDataProvider ::
  "errno + stdio_file \<Rightarrow> int \<Rightarrow> (string \<Rightarrow> int) \<Rightarrow> string \<Rightarrow> string \<Rightarrow> process_dp" where
  "ProcessDataProvider popen pclose sys pipe_cmdline direct_cmdline =
     \<lparr>m_progress = None, m_error = False, pdp_pipeCmdline = pipe_cmdline,
      pdp_directCmdline = direct_cmdline, pdp_processFile = None, pdp_popen = popen,
      pdp_pclose = pclose, pdp_system = sys, pdp_commands = []\<rparr>"

definition pdp_prepare :: "(process_dp, unit) sx" where
  "pdp_prepare p =
     (case pdp_popen p of
        Inl e \<Rightarrow> (Inl (KSystemError (''Could not start process '' @ pdp_pipeCmdline p) e), p)
      | Inr f \<Rightarrow> (Inr (), p\<lparr>pdp_processFile := Some f\<rparr>))"

definition pdp_getData :: "nat \<Rightarrow> (process_dp, string) sx" where
  "pdp_getData maxread p =
     (case pdp_processFile p of
        None \<Rightarrow> (Inl (KError (''Process '' @ pdp_pipeCmdline p @ '' not started.'')), p)
      | Some f \<Rightarrow>
          let (buffer, err, f') = fread maxread f;
              p' = p\<lparr>pdp_processFile := Some f'\<rparr>
          in (case (buffer, err) of
                ([], Some e) \<Rightarrow>
                  (Inl (KSystemError (''Error reading from '' @ pdp_pipeCmdline p) e), adp_setError True p')
              | _ \<Rightarrow> (Inr buffer, p')))"

definition pdp_finish :: "(process_dp, unit) sx" where
  "pdp_finish p =
     (case pdp_processFile p of
        None \<Rightarrow> (Inl (Undefined ''pclose(NULL)''), p)
      | Some _ \<Rightarrow>
          let err = pdp_pclose p; p' = p\<lparr>pdp_processFile := None\<rparr>
          in if WEXITSTATUS err \<noteq> 0
             then (Inl (KError (pdp_pipeCmdline p @ '' failed ('' @ number2string (WEXITSTATUS err) @ '').'')), p')
             else (Inr (), p'))"

definition pdp_saveToFile :: "string list \<Rightarrow> (process_dp, unit) sx" where
  "pdp_saveToFile targets p =
     (let cmdline = foldl (\<lambda>c t. c @ '' '' @ t) (pdp_directCmdline p) targets;
          err = pdp_system p cmdline;
          p' = p\<lparr>pdp_commands := pdp_commands p @ [cmdline]\<rparr>
      in if WEXITSTATUS err \<noteq> 0
         then (Inl (KError (''Running '' @ pdp_directCmdline p @ '' failed ('' @
                number2string (WEXITSTATUS err) @ '').'')), p')
         else (Inr (), p'))"

definition process_provider :: "process_dp data_provider" where
  "process_provider =
     \<lparr>dp_prepare = pdp_prepare, dp_getData = pdp_getData, dp_finish = pdp_finish,
      dp_canSaveToFile = True, dp_saveToFile = pdp_saveToFile, dp_setError = adp_setError\<rparr>"

section \<open>Reading a provider to its end\<close>

text \<open>
  The loop that \<open>FileTransfer::performPipe\<close>, \<open>SSHTransfer::perform\<close> and \<open>SFTPTransfer::perform\<close> share:
  read up to \<open>n\<close> bytes and hand them to \<open>put\<close>, until nothing is read. A provider may never end.
\<close>

partial_function (option) pump ::
  "(nat \<Rightarrow> ('p, string) sx) \<Rightarrow> nat \<Rightarrow> (string \<Rightarrow> ('s, unit) sx) \<Rightarrow> 'p \<Rightarrow> 's \<Rightarrow> (unit res \<times> 'p \<times> 's) option"
where
  "pump get n put p s =
     (case get n p of
        (Inl e, p') \<Rightarrow> Some (Inl e, p', s)
      | (Inr [], p') \<Rightarrow> Some (Inr (), p', s)
      | (Inr (b # buf), p') \<Rightarrow>
          (case put (b # buf) s of
             (Inl e, s') \<Rightarrow> Some (Inl e, p', s')
           | (Inr _, s') \<Rightarrow> pump get n put p' s'))"

lemmas [code] = pump.simps

function chunks :: "nat \<Rightarrow> 'a list \<Rightarrow> 'a list list" where
  "chunks n xs = (if xs = [] \<or> n = 0 then [] else take n xs # chunks n (drop n xs))"
  by pat_completeness auto
termination
  by (relation "measure (\<lambda>(n, xs). length xs)") auto

declare chunks.simps [simp del]

fun put_all :: "(string \<Rightarrow> ('s, unit) sx) \<Rightarrow> string list \<Rightarrow> ('s, unit) sx" where
  "put_all put [] s = (Inr (), s)"
| "put_all put (c # cs) s =
     (case put c s of (Inl e, s') \<Rightarrow> (Inl e, s') | (Inr _, s') \<Rightarrow> put_all put cs s')"

lemma concat_chunks: "0 < n \<Longrightarrow> concat (chunks n xs) = xs"
  by (induction n xs rule: chunks.induct) (subst chunks.simps, auto)

lemma chunks_sizes: "c \<in> set (chunks n xs) \<Longrightarrow> c \<noteq> [] \<and> length c \<le> n"
proof (induction n xs rule: chunks.induct)
  case (1 n xs)
  then show ?case by (subst (asm) (2) chunks.simps) (auto split: if_splits)
qed

lemma chunks_Nil [simp]: "chunks n [] = []"
  by (simp add: chunks.simps)

lemma chunks_Cons: "xs \<noteq> [] \<Longrightarrow> 0 < n \<Longrightarrow> chunks n xs = take n xs # chunks n (drop n xs)"
  by (subst chunks.simps) simp

text \<open>
  What a transfer relies on: a provider in a good state delivers its bytes in order, as many as asked
  for, and an empty read means the end.
\<close>

locale provider =
  fixes get :: "nat \<Rightarrow> ('p, string) sx"
    and remaining :: "'p \<Rightarrow> string"
    and ready :: "'p \<Rightarrow> bool"
  assumes get_chunk: "ready p \<Longrightarrow> 0 < n \<Longrightarrow>
      \<exists>p'. get n p = (Inr (take n (remaining p)), p') \<and> remaining p' = drop n (remaining p) \<and> ready p'"
begin

text \<open>The loop ends, and it writes the chunks of what the provider holds, up to the first error.\<close>

lemma pump_put_all:
  assumes "ready p" and "0 < n"
  shows "\<exists>p'. pump get n put p s =
      Some (fst (put_all put (chunks n (remaining p)) s), p', snd (put_all put (chunks n (remaining p)) s)) \<and>
      ready p'"
  using assms
proof (induction "length (remaining p)" arbitrary: p s rule: less_induct)
  case less
  obtain p1 where get: "get n p = (Inr (take n (remaining p)), p1)"
    and rest: "remaining p1 = drop n (remaining p)" and ready: "ready p1"
    using get_chunk [OF less.prems] by blast
  show ?case
  proof (cases "take n (remaining p)")
    case Nil
    then have "remaining p = []" using less.prems(2) by simp
    then show ?thesis using get ready by (subst pump.simps) simp
  next
    case (Cons b buf)
    then have ne: "remaining p \<noteq> []" by auto
    have chunks: "chunks n (remaining p) = (b # buf) # chunks n (remaining p1)"
      using chunks_Cons [OF ne less.prems(2)] Cons rest by simp
    obtain r s1 where put: "put (b # buf) s = (r, s1)" by fastforce
    show ?thesis
    proof (cases r)
      case (Inl e)
      then show ?thesis using get Cons put ready by (subst pump.simps) (simp add: chunks)
    next
      case (Inr u)
      have "length (remaining p1) < length (remaining p)"
        using rest ne less.prems(2) by simp
      from less.hyps [OF this ready less.prems(2), of s1]
      show ?thesis using get Cons put Inr by (subst pump.simps) (simp add: chunks)
    qed
  qed
qed

text \<open>In particular an error of \<open>put\<close> is what the loop reports, and without one everything is handed on.\<close>

lemma pump_Inr:
  assumes "ready p" and "0 < n" and "pump get n put p s = Some (Inr (), p', s')"
  shows "put_all put (chunks n (remaining p)) s = (Inr (), s')"
  using pump_put_all [OF assms(1,2), of put s] assms(3) by (metis Pair_inject option.inject prod.collapse)

end

interpretation buffer: provider bdp_getData bdp_data "\<lambda>_. True"
  by unfold_locales (auto simp: bdp_getData_def Let_def min_def)

text \<open>An open file or process that no read of can fail.\<close>

definition opened :: "stdio_file option \<Rightarrow> bool" where
  "opened f \<longleftrightarrow> (case f of None \<Rightarrow> False | Some f \<Rightarrow> f_fault f = None)"

definition opened_rest :: "stdio_file option \<Rightarrow> string" where
  "opened_rest f = (case f of None \<Rightarrow> [] | Some f \<Rightarrow> stream_rest f)"

lemma fread_ok: "f_fault f = None \<Longrightarrow>
    fread n f = (take n (stream_rest f), None, f\<lparr>f_rpos := f_rpos f + length (take n (stream_rest f))\<rparr>)"
  by (simp add: fread_def Let_def stream_errno_def)

lemma fdp_getData_ok:
  "fdp_file p = Some f \<Longrightarrow> f_fault f = None \<Longrightarrow>
   \<exists>p'. fdp_getData n p = (Inr (take n (stream_rest f)), p') \<and>
     fdp_file p' = Some (f\<lparr>f_rpos := f_rpos f + length (take n (stream_rest f))\<rparr>)"
  by (cases "take n (stream_rest f)") (simp_all add: fdp_getData_def fread_ok notify_def Let_def del: take_eq_Nil)

interpretation opened_file: provider fdp_getData "\<lambda>p. opened_rest (fdp_file p)" "\<lambda>p. opened (fdp_file p)"
proof
  fix p :: file_dp and n
  assume "opened (fdp_file p)"
  then obtain f where f: "fdp_file p = Some f" and ok: "f_fault f = None"
    by (auto simp: opened_def split: option.splits)
  from fdp_getData_ok [OF this, of n]
  show "\<exists>p'. fdp_getData n p = (Inr (take n (opened_rest (fdp_file p))), p') \<and>
      opened_rest (fdp_file p') = drop n (opened_rest (fdp_file p)) \<and> opened (fdp_file p')"
    using f ok stream_rest_advance [of f n] by (auto simp: opened_rest_def opened_def)
qed

lemma pdp_getData_ok:
  "pdp_processFile p = Some f \<Longrightarrow> f_fault f = None \<Longrightarrow>
   pdp_getData n p = (Inr (take n (stream_rest f)),
     p\<lparr>pdp_processFile := Some (f\<lparr>f_rpos := f_rpos f + length (take n (stream_rest f))\<rparr>)\<rparr>)"
  by (cases "take n (stream_rest f)") (simp_all add: pdp_getData_def fread_ok Let_def del: take_eq_Nil)

text \<open>A process that exits with status 0; its end is part of the state so that \<open>finish\<close> succeeds.\<close>

definition exits_ok :: "process_dp \<Rightarrow> bool" where
  "exits_ok p \<longleftrightarrow> opened (pdp_processFile p) \<and> WEXITSTATUS (pdp_pclose p) = 0"

lemma pdp_finish_exits_ok: "exits_ok p \<Longrightarrow> fst (pdp_finish p) = Inr ()"
  by (auto simp: exits_ok_def opened_def pdp_finish_def Let_def split: option.splits)

interpretation opened_process: provider pdp_getData "\<lambda>p. opened_rest (pdp_processFile p)"
    "\<lambda>p. opened (pdp_processFile p)"
proof
  fix p :: process_dp and n
  assume "opened (pdp_processFile p)"
  then obtain f where f: "pdp_processFile p = Some f" and ok: "f_fault f = None"
    by (auto simp: opened_def split: option.splits)
  from pdp_getData_ok [OF this, of n]
  show "\<exists>p'. pdp_getData n p = (Inr (take n (opened_rest (pdp_processFile p))), p') \<and>
      opened_rest (pdp_processFile p') = drop n (opened_rest (pdp_processFile p)) \<and>
      opened (pdp_processFile p')"
    using f ok stream_rest_advance [of f n] by (auto simp: opened_rest_def opened_def)
qed

interpretation exiting_process: provider pdp_getData "\<lambda>p. opened_rest (pdp_processFile p)" exits_ok
proof
  fix p :: process_dp and n
  assume ok: "exits_ok p"
  then obtain f where f: "pdp_processFile p = Some f" and "f_fault f = None"
    by (auto simp: exits_ok_def opened_def split: option.splits)
  from pdp_getData_ok [OF this, of n]
  show "\<exists>p'. pdp_getData n p = (Inr (take n (opened_rest (pdp_processFile p))), p') \<and>
      opened_rest (pdp_processFile p') = drop n (opened_rest (pdp_processFile p)) \<and> exits_ok p'"
    using f ok stream_rest_advance [of f n] by (auto simp: opened_rest_def opened_def exits_ok_def)
qed

end
