(* ===== verification/SftpPacket.thy ===== *)
theory SftpPacket
  imports StringUtil
begin

text \<open>
  \<open>SFTPPacket\<close> of \<^verbatim>\<open>kdumptool/sshtransfer.cc\<close>: a byte vector with a read position, integers in network
  byte order. \<^verbatim>\<open>unsigned long\<close> is 64 bits wide. \<^verbatim>\<open>at()\<close> throws \<^verbatim>\<open>out_of_range\<close>.
\<close>

unbundle bit_operations_syntax

type_synonym byte = "8 word"

section \<open>The packet\<close>

record sftp_packet =
  m_vector :: "byte list"
  m_gpos :: nat

definition SFTPPacket :: sftp_packet where
  "SFTPPacket = \<lparr>m_vector = replicate 4 0, m_gpos = 0\<rparr>"

definition setData :: "byte list \<Rightarrow> sftp_packet \<Rightarrow> sftp_packet" where
  "setData val p = p\<lparr>m_vector := val, m_gpos := 0\<rparr>"

definition addByte :: "byte \<Rightarrow> sftp_packet \<Rightarrow> sftp_packet" where
  "addByte val p = p\<lparr>m_vector := m_vector p @ [val]\<rparr>"

definition addByteVector :: "byte list \<Rightarrow> sftp_packet \<Rightarrow> sftp_packet" where
  "addByteVector val p = p\<lparr>m_vector := m_vector p @ val\<rparr>"

fun add_be :: "nat \<Rightarrow> 64 word \<Rightarrow> sftp_packet \<Rightarrow> sftp_packet" where
  "add_be 0 val p = p"
| "add_be (Suc i) val p = add_be i val (addByte (ucast (drop_bit (i * 8) val AND 0xff)) p)"

definition addInt32 :: "64 word \<Rightarrow> sftp_packet \<Rightarrow> sftp_packet" where
  "addInt32 val p = add_be 4 val p"

definition addInt64 :: "64 word \<Rightarrow> sftp_packet \<Rightarrow> sftp_packet" where
  "addInt64 val p = add_be 8 val p"

definition bytes_of_string :: "string \<Rightarrow> byte list" where
  "bytes_of_string s = map (\<lambda>c. of_nat (ord c)) s"

definition string_of_bytes :: "byte list \<Rightarrow> string" where
  "string_of_bytes bs = map (\<lambda>b. chr (unat b)) bs"

definition addString :: "string \<Rightarrow> sftp_packet \<Rightarrow> sftp_packet" where
  "addString val p = addByteVector (bytes_of_string val) (addInt32 (of_nat (length val)) p)"

definition getByte :: "sftp_packet \<Rightarrow> (byte \<times> sftp_packet) res" where
  "getByte p =
     (if m_gpos p < length (m_vector p)
      then Inr (m_vector p ! m_gpos p, p\<lparr>m_gpos := m_gpos p + 1\<rparr>)
      else Inl OutOfRange)"

fun get_be :: "nat \<Rightarrow> 64 word \<Rightarrow> sftp_packet \<Rightarrow> (64 word \<times> sftp_packet) res" where
  "get_be 0 ret p = Inr (ret, p)"
| "get_be (Suc i) ret p =
     res_bind (getByte p) (\<lambda>(b, p'). get_be i (push_bit 8 ret OR ucast b) p')"

definition getInt32 :: "sftp_packet \<Rightarrow> (64 word \<times> sftp_packet) res" where
  "getInt32 p = get_be 4 0 p"

definition getInt64 :: "sftp_packet \<Rightarrow> (64 word \<times> sftp_packet) res" where
  "getInt64 p = get_be 8 0 p"

text \<open>
  \<open>getString\<close> builds the string from two iterators and does not move the read position past it;
  a length beyond the end of the vector is undefined.
\<close>

definition getString :: "sftp_packet \<Rightarrow> (string \<times> sftp_packet) res" where
  "getString p =
     res_bind (getInt32 p) (\<lambda>(len, p').
       if m_gpos p' + unat len \<le> length (m_vector p')
       then Inr (string_of_bytes (take (unat len) (drop (m_gpos p') (m_vector p'))), p')
       else Inl (Undefined ''getString past the end of the packet''))"

definition update :: "sftp_packet \<Rightarrow> sftp_packet" where
  "update p =
     (let len = of_nat (length (m_vector p) - 4) :: 64 word
      in p\<lparr>m_vector := (m_vector p)
            [0 := ucast (drop_bit 24 len AND 0xff),
             1 := ucast (drop_bit 16 len AND 0xff),
             2 := ucast (drop_bit 8 len AND 0xff),
             3 := ucast (len AND 0xff)]\<rparr>)"

section \<open>Fields of a packet\<close>

text \<open>
  What a pair of an adding and a reading operation promises: the bytes \<open>enc v\<close> are appended, and a
  reader standing in front of them gets \<open>v\<close> and stands behind them.
\<close>

locale packet_field =
  fixes put :: "'a \<Rightarrow> sftp_packet \<Rightarrow> sftp_packet"
    and get :: "sftp_packet \<Rightarrow> ('a \<times> sftp_packet) res"
    and enc :: "'a \<Rightarrow> byte list"
    and valid :: "'a \<Rightarrow> bool"
  assumes put_enc: "put v p = addByteVector (enc v) p"
    and get_enc: "\<lbrakk>valid v; m_vector p = pre @ enc v @ post; m_gpos p = length pre\<rbrakk> \<Longrightarrow>
      get p = Inr (v, p\<lparr>m_gpos := m_gpos p + length (enc v)\<rparr>)"
begin

lemma put_gpos [simp]: "m_gpos (put v p) = m_gpos p"
  by (simp add: put_enc addByteVector_def)

lemma put_vector: "m_vector (put v p) = m_vector p @ enc v"
  by (simp add: put_enc addByteVector_def)

lemma get_put: "valid v \<Longrightarrow> m_gpos p = length (m_vector p) \<Longrightarrow>
    get (put v p) = Inr (v, (put v p)\<lparr>m_gpos := length (m_vector (put v p))\<rparr>)"
  using get_enc [of v "put v p" "m_vector p" "[]"] by (simp add: put_vector)

text \<open>Fields added later do not disturb a field in front of them.\<close>

lemma get_put_more: "valid v \<Longrightarrow> m_gpos p = length (m_vector p) \<Longrightarrow>
    get (addByteVector extra (put v p)) =
    Inr (v, (addByteVector extra (put v p))\<lparr>m_gpos := length (m_vector p) + length (enc v)\<rparr>)"
  using get_enc [of v "addByteVector extra (put v p)" "m_vector p" extra]
  by (simp add: put_vector addByteVector_def)

end

definition be_bytes :: "nat \<Rightarrow> 64 word \<Rightarrow> byte list" where
  "be_bytes n val = map (\<lambda>i. ucast (drop_bit (i * 8) val AND 0xff)) (rev [0..<n])"

lemma be_bytes_simps [simp]:
  "be_bytes 0 val = []"
  "be_bytes (Suc n) val = ucast (drop_bit (n * 8) val AND 0xff) # be_bytes n val"
  "length (be_bytes n val) = n"
  by (simp_all add: be_bytes_def)

lemma addByteVector_append: "addByteVector b (addByteVector a p) = addByteVector (a @ b) p"
  by (simp add: addByteVector_def)

lemma addByte_addByteVector: "addByte b p = addByteVector [b] p"
  by (simp add: addByte_def addByteVector_def)

lemma add_be_bytes: "add_be n val p = addByteVector (be_bytes n val) p"
proof (induction n arbitrary: p)
  case 0
  then show ?case by (simp add: addByteVector_def)
next
  case (Suc n)
  then show ?case by (simp add: addByte_addByteVector addByteVector_append)
qed

lemma and_low_byte: "x AND 0xff = take_bit 8 (x :: 64 word)"
  by (simp add: take_bit_eq_mask mask_eq_exp_minus_1)

lemma ucast_low_byte: "(ucast (ucast (x AND 0xff :: 64 word) :: byte) :: 64 word) = x AND 0xff"
  unfolding and_low_byte by (rule bit_word_eqI) (auto simp: bit_simps)

lemma be_step:
  "push_bit (n * 8) (push_bit 8 ret OR (drop_bit (n * 8) val AND 0xff)) OR take_bit (n * 8) val =
   push_bit (Suc n * 8) ret OR take_bit (Suc n * 8) (val :: 64 word)"
unfolding and_low_byte
  by (rule bit_word_eqI) (auto simp: bit_simps algebra_simps)

lemma get_be_bytes:
  "m_vector p = pre @ be_bytes n val @ post \<Longrightarrow> m_gpos p = length pre \<Longrightarrow>
   get_be n ret p = Inr (push_bit (n * 8) ret OR take_bit (n * 8) val, p\<lparr>m_gpos := m_gpos p + n\<rparr>)"
proof (induction n arbitrary: p pre ret)
  case 0
  then show ?case by simp
next
  case (Suc n)
  let ?b = "ucast (drop_bit (n * 8) val AND 0xff) :: byte"
  let ?p = "p\<lparr>m_gpos := m_gpos p + 1\<rparr>"
  have g: "getByte p = Inr (?b, ?p)"
    using Suc.prems by (simp add: getByte_def nth_append)
  have "get_be n (push_bit 8 ret OR ucast ?b) ?p =
      Inr (push_bit (n * 8) (push_bit 8 ret OR ucast ?b) OR take_bit (n * 8) val,
           ?p\<lparr>m_gpos := m_gpos ?p + n\<rparr>)"
    by (rule Suc.IH [of _ "pre @ [?b]"]) (use Suc.prems in auto)
  then show ?case
    using be_step [of n ret val] by (simp add: g ucast_low_byte)
qed

interpretation byte_field: packet_field addByte getByte "\<lambda>b. [b]" "\<lambda>_. True"
  by unfold_locales (auto simp: addByte_addByteVector getByte_def nth_append)

interpretation int32_field: packet_field addInt32 getInt32 "be_bytes 4" "\<lambda>v. v < 2 ^ 32"
proof
  fix v p pre post
  show "addInt32 v p = addByteVector (be_bytes 4 v) p"
    by (simp add: addInt32_def add_be_bytes)
  assume v: "v < 2 ^ 32" and p: "m_vector p = pre @ be_bytes 4 v @ post" "m_gpos p = length pre"
  from v have "take_bit 32 v = v"
    by (metis less_mask_eq take_bit_eq_mask)
  with get_be_bytes [OF p, of 0] show "getInt32 p = Inr (v, p\<lparr>m_gpos := m_gpos p + length (be_bytes 4 v)\<rparr>)"
    by (simp add: getInt32_def)
qed

interpretation int64_field: packet_field addInt64 getInt64 "be_bytes 8" "\<lambda>_. True"
proof
  fix v p pre post
  show "addInt64 v p = addByteVector (be_bytes 8 v) p"
    by (simp add: addInt64_def add_be_bytes)
  assume p: "m_vector p = pre @ be_bytes 8 v @ post" "m_gpos p = length pre"
  have "take_bit 64 v = v" by (simp add: take_bit_word_eq_self)
  with get_be_bytes [OF p, of 0] show "getInt64 p = Inr (v, p\<lparr>m_gpos := m_gpos p + length (be_bytes 8 v)\<rparr>)"
    by (simp add: getInt64_def)
qed

section \<open>Strings\<close>

lemma string_of_bytes_of_string [simp]: "string_of_bytes (bytes_of_string s) = s"
proof -
  have "chr (unat (of_nat (ord c) :: byte)) = c" for c
  proof -
    have "ord c mod 256 = ord c" by simp
    then have "unat (of_nat (ord c) :: byte) = ord c" by (simp add: unat_of_nat)
    then show ?thesis by simp
  qed
  then show ?thesis by (simp add: string_of_bytes_def bytes_of_string_def map_idI)
qed

lemma length_bytes_of_string [simp]: "length (bytes_of_string s) = length s"
  by (simp add: bytes_of_string_def)

definition string_bytes :: "string \<Rightarrow> byte list" where
  "string_bytes s = be_bytes 4 (of_nat (length s)) @ bytes_of_string s"

lemma addString_bytes: "addString s p = addByteVector (string_bytes s) p"
  by (simp add: addString_def addInt32_def add_be_bytes addByteVector_append string_bytes_def)

lemma getString_string_bytes:
  assumes "length s < 2 ^ 32" and "m_vector p = pre @ string_bytes s @ post" and "m_gpos p = length pre"
  shows "getString p = Inr (s, p\<lparr>m_gpos := m_gpos p + 4\<rparr>)"
proof -
  have u: "unat (of_nat (length s) :: 64 word) = length s"
    using assms(1) by (simp add: unat_of_nat)
  then have "(of_nat (length s) :: 64 word) < 2 ^ 32"
    using assms(1) by (simp add: word_less_nat_alt)
  then have g: "getInt32 p = Inr (of_nat (length s), p\<lparr>m_gpos := m_gpos p + 4\<rparr>)"
    using int32_field.get_enc [of "of_nat (length s)" p pre "bytes_of_string s @ post"] assms
    by (simp add: string_bytes_def)
  show ?thesis
    using assms(2,3) by (simp add: getString_def g u string_bytes_def)
qed

section \<open>The length header\<close>

lemma length_update [simp]: "length (m_vector (update p)) = length (m_vector p)"
  by (simp add: update_def Let_def)

lemma update_header:
  assumes "4 \<le> length (m_vector p)"
  shows "m_vector (update p) =
    be_bytes 4 (of_nat (length (m_vector p) - 4)) @ drop 4 (m_vector p)"
proof -
  obtain a b c d rest where v: "m_vector p = a # b # c # d # rest"
    using assms by (metis Suc_le_length_iff numeral_eq_Suc pred_numeral_simps(2) eval_nat_numeral(2,3)
        semiring_norm(26,27))
  have "be_bytes 4 x = [ucast (drop_bit 24 x AND 0xff), ucast (drop_bit 16 x AND 0xff),
      ucast (drop_bit 8 x AND 0xff), ucast (x AND 0xff)]" for x
    by (simp add: numeral_eq_Suc)
  then show ?thesis by (simp add: update_def Let_def v)
qed

lemma update_idem: "4 \<le> length (m_vector p) \<Longrightarrow> update (update p) = update p"
  using update_header [of p] update_header [of "update p"]
  by (cases p) (simp add: update_def Let_def)

end
