(* ===== verification/SftpTransfer.thy ===== *)
theory SftpTransfer
  imports DataProvider SftpPacket RootDirURL
begin

text \<open>
  \<open>SFTPTransfer\<close> of \<^verbatim>\<open>kdumptool/sshtransfer.cc\<close>. The \<^verbatim>\<open>ssh\<close> child is two byte
  streams: what is written to it is collected, with the result of each \<^verbatim>\<open>write\<close> drawn from a list
  (an exhausted list means that everything is taken at once); what it answers is a list of chunks,
  one per \<^verbatim>\<open>read\<close>, where an empty chunk or the end of the list is end of file.
\<close>

section \<open>Writing\<close>

text \<open>The loop around \<^verbatim>\<open>write\<close>: what is written, the error, and the results not used.\<close>

fun write_loop :: "(errno + nat) list \<Rightarrow> 'b list \<Rightarrow> 'b list \<times> errno option \<times> (errno + nat) list" where
  "write_loop [] buf = (buf, None, [])"
| "write_loop (r # rs) buf =
     (if buf = [] then ([], None, r # rs)
      else case r of
             Inl e \<Rightarrow> ([], Some e, rs)
           | Inr n \<Rightarrow>
               let (out, e, rs') = write_loop rs (drop n buf) in (take n buf @ out, e, rs'))"

lemma write_loop_all: "write_loop rs buf = (out, None, rs') \<Longrightarrow> out = buf"
proof (induction rs buf arbitrary: out rule: write_loop.induct)
  case (2 r rs buf)
  then show ?case
    using append_take_drop_id [of _ buf]
    by (fastforce simp: Let_def split: if_splits sum.splits prod.splits)
qed simp

lemma write_loop_prefix: "write_loop rs buf = (out, e, rs') \<Longrightarrow> prefix out buf"
proof (induction rs buf arbitrary: out e rs' rule: write_loop.induct)
  case (2 r rs buf)
  show ?case
  proof (cases "buf = [] \<or> isl r")
    case False
    then obtain n where r: "r = Inr n" and ne: "buf \<noteq> []" by (cases r) auto
    obtain out' e' rs'' where l: "write_loop rs (drop n buf) = (out', e', rs'')" by (metis prod_cases3)
    then have "prefix out' (drop n buf)" using "2.IH" ne r l by blast
    then have "prefix (take n buf @ out') (take n buf @ drop n buf)" by (simp only: same_prefix_prefix)
    then show ?thesis using "2.prems" l r ne by (simp add: append_take_drop_id)
  qed (use "2.prems" in \<open>auto split: sum.splits if_splits\<close>)
qed simp

section \<open>The ssh child\<close>

definition ssh_config_args :: "root_dir_url \<Rightarrow> string list" where
  "ssh_config_args target =
     [''-F'', ''/kdump/.ssh/config'', ''-l'', m_username target] @
     (if m_port target \<noteq> -1 then [''-p'', number2string (m_port target)] else [])"

lemma BUFSIZ_pos [simp]: "0 < BUFSIZ"
  by (simp add: BUFSIZ_def)

section \<open>The protocol's constants\<close>

definition SSH_FXP_INIT :: byte where "SSH_FXP_INIT = 1"
definition SSH_FXP_VERSION :: byte where "SSH_FXP_VERSION = 2"
definition SSH_FXP_OPEN :: byte where "SSH_FXP_OPEN = 3"
definition SSH_FXP_CLOSE :: byte where "SSH_FXP_CLOSE = 4"
definition SSH_FXP_WRITE :: byte where "SSH_FXP_WRITE = 6"
definition SSH_FXP_MKDIR :: byte where "SSH_FXP_MKDIR = 14"
definition SSH_FXP_STAT :: byte where "SSH_FXP_STAT = 17"
definition SSH_FXP_STATUS :: byte where "SSH_FXP_STATUS = 101"
definition SSH_FXP_HANDLE :: byte where "SSH_FXP_HANDLE = 102"
definition SSH_FXP_ATTRS :: byte where "SSH_FXP_ATTRS = 105"

named_theorems fxp
lemmas [fxp] = SSH_FXP_INIT_def SSH_FXP_VERSION_def SSH_FXP_OPEN_def SSH_FXP_CLOSE_def SSH_FXP_WRITE_def
  SSH_FXP_MKDIR_def SSH_FXP_STAT_def SSH_FXP_STATUS_def SSH_FXP_HANDLE_def SSH_FXP_ATTRS_def

definition SSH_FX_OK :: "64 word" where "SSH_FX_OK = 0"
definition SSH_FX_NO_SUCH_FILE :: "64 word" where "SSH_FX_NO_SUCH_FILE = 2"

definition SSH_FXF_WRITE :: "64 word" where "SSH_FXF_WRITE = 0x02"
definition SSH_FXF_CREAT :: "64 word" where "SSH_FXF_CREAT = 0x08"
definition SSH_FXF_TRUNC :: "64 word" where "SSH_FXF_TRUNC = 0x10"

definition MY_PROTO_VER :: "64 word" where "MY_PROTO_VER = 3"

definition fx_messages :: "string list" where
  "fx_messages =
     [''OK'', ''End of file'', ''No such file'', ''Permission denied'', ''Failure'', ''Bad message'',
      ''No connection'', ''Connection lost'', ''Operation unsupported'', ''Invalid handle'',
      ''No such path'', ''File already exists'', ''Write protect'', ''No media'',
      ''No space on file system'', ''Quote exceeded'', ''Unknown principal'', ''Lock conflict'',
      ''Directory not empty'', ''Not a directory'', ''Invalid file name'', ''Link loop'']"

definition KSFTPErrorCode_message :: "nat \<Rightarrow> string" where
  "KSFTPErrorCode_message code =
     (if code < length fx_messages then fx_messages ! code else ''Unknown error'')"

section \<open>The connection\<close>

record sftp =
  m_lastid :: "64 word"
  m_proto_ver :: "64 word"
  s_out :: "byte list"
  s_results :: "(errno + nat) list"
  s_in :: "(errno + byte list) list"

definition nextId :: "sftp \<Rightarrow> 64 word \<times> sftp" where
  "nextId s = (let i = (m_lastid s + 1) AND (push_bit 32 1 - 1) in (i, s\<lparr>m_lastid := i\<rparr>))"

definition sendPacket :: "sftp_packet \<Rightarrow> (sftp, unit) sx" where
  "sendPacket pkt s =
     (case write_loop (s_results s) (m_vector (update pkt)) of
        (out, e, rs) \<Rightarrow>
          let s' = s\<lparr>s_out := s_out s @ out, s_results := rs\<rparr>
          in case e of
               Some e \<Rightarrow> (Inl (KSystemError ''SFTPTransfer::sendPacket: write failed'' e), s')
             | None \<Rightarrow> (Inr (), s'))"

text \<open>\<^verbatim>\<open>read\<close> returns at most the length asked for; the rest of a chunk stays for the next call.\<close>

fun recv_loop :: "nat \<Rightarrow> (errno + byte list) list \<Rightarrow> byte list res \<times> (errno + byte list) list" where
  "recv_loop buflen [] =
     (if buflen = 0 then (Inr [], []) else (Inl (KError ''SFTPTransfer::recvPacket: unexpected EOF''), []))"
| "recv_loop buflen (c # cs) =
     (if buflen = 0 then (Inr [], c # cs)
      else case c of
             Inl e \<Rightarrow> (Inl (KSystemError ''SFTPTransfer::recvPacket: read failed'' e), cs)
           | Inr bs \<Rightarrow>
               if bs = [] then (Inl (KError ''SFTPTransfer::recvPacket: unexpected EOF''), cs)
               else if buflen < length bs then (Inr (take buflen bs), Inr (drop buflen bs) # cs)
               else (case recv_loop (buflen - length bs) cs of
                       (Inl e, cs') \<Rightarrow> (Inl e, cs')
                     | (Inr rest, cs') \<Rightarrow> (Inr (bs @ rest), cs')))"

definition recvBuffer :: "nat \<Rightarrow> (sftp, byte list) sx" where
  "recvBuffer buflen s = (case recv_loop buflen (s_in s) of (r, cs) \<Rightarrow> (r, s\<lparr>s_in := cs\<rparr>))"

function recv_body :: "nat \<Rightarrow> sftp_packet \<Rightarrow> (sftp, sftp_packet) sx" where
  "recv_body len pkt =
     (if len = 0 then sx_return pkt
      else
        let size = min BUFSIZ len
        in sx_bind (recvBuffer size) (\<lambda>buffer. recv_body (len - size) (addByteVector buffer pkt)))"
  by pat_completeness auto
termination
  by (relation "measure fst") auto

declare recv_body.simps [simp del]

definition recvPacket :: "sftp_packet \<Rightarrow> (sftp, sftp_packet) sx" where
  "recvPacket pkt =
     sx_bind (recvBuffer 4) (\<lambda>buffer.
       sx_bind (sx_lift (getInt32 (setData buffer pkt))) (\<lambda>(len, pkt1).
         recv_body (unat len) pkt1))"

section \<open>Requests\<close>

text \<open>
  The part all requests share: the packet goes out, an answer comes in, its type and id are read, and
  an id other than the request's is an error.
\<close>

definition transact :: "sftp_packet \<Rightarrow> (sftp, byte \<times> sftp_packet) sx" where
  "transact pkt =
     sx_seq (sendPacket pkt)
       (sx_bind (recvPacket pkt) (\<lambda>pkt1.
         sx_bind (sx_lift (getByte pkt1)) (\<lambda>(type, pkt2).
           sx_bind (sx_lift (getInt32 pkt2)) (\<lambda>(id, pkt3) s.
             if id \<noteq> m_lastid s then (Inl (KError ''SFTP request/reply id mismatch''), s)
             else (Inr (type, pkt3), s)))))"

definition request :: "byte \<Rightarrow> (sftp_packet \<Rightarrow> sftp_packet) \<Rightarrow> (sftp, byte \<times> sftp_packet) sx" where
  "request type put_fields s =
     (case nextId s of (i, s') \<Rightarrow> transact (put_fields (addInt32 i (addByte type SFTPPacket))) s')"

definition invalid_response :: "string \<Rightarrow> byte \<Rightarrow> kerror" where
  "invalid_response what type = KError (''Invalid response to '' @ what @ '': type '' @ number2string (uint type))"

text \<open>A status answer to a request that wants \<open>SSH_FX_OK\<close>.\<close>

definition expect_ok :: "string \<Rightarrow> string \<Rightarrow> byte \<Rightarrow> sftp_packet \<Rightarrow> unit res" where
  "expect_ok what failed type pkt =
     (if type \<noteq> SSH_FXP_STATUS then Inl (invalid_response what type)
      else res_bind (getInt32 pkt) (\<lambda>(errcode, _).
             if errcode \<noteq> SSH_FX_OK then Inl (KSFTPError failed (unat errcode)) else Inr ()))"

definition exists :: "string \<Rightarrow> (sftp, bool) sx" where
  "exists file =
     sx_bind (request SSH_FXP_STAT (addString file)) (\<lambda>(type, pkt).
       sx_lift
         (if type = SSH_FXP_ATTRS then Inr True
          else if type \<noteq> SSH_FXP_STATUS then Inl (invalid_response ''SSH_FXP_LSTAT'' type)
          else res_bind (getInt32 pkt) (\<lambda>(errcode, _).
                 if errcode \<noteq> SSH_FX_NO_SUCH_FILE then Inl (KSFTPError (''stat failed on '' @ file) (unat errcode))
                 else Inr False)))"

definition mkdir_request :: "string \<Rightarrow> (sftp, unit) sx" where
  "mkdir_request path =
     sx_bind (request SSH_FXP_MKDIR (\<lambda>p. addInt32 0 (addString path p))) (\<lambda>(type, pkt).
       sx_lift (expect_ok ''SSH_FXP_MKDIR'' (''mkdir failed on '' @ path) type pkt))"

text \<open>The directory in which \<open>path\<close> is created first, if there is one to create.\<close>

definition mkpath_parent :: "string \<Rightarrow> string option" where
  "mkpath_parent path =
     (let dir = rtrim PATH_SEPARATOR path
      in case rfind_char SLASH dir of
           Some pos \<Rightarrow> if pos > 0 then Some (take pos dir) else None
         | None \<Rightarrow> None)"

lemma mkpath_parent_shorter: "mkpath_parent path = Some dir \<Longrightarrow> length dir < length path"
proof -
  assume a: "mkpath_parent path = Some dir"
  then obtain pos where r: "rfind_char SLASH (rtrim PATH_SEPARATOR path) = Some pos"
    and d: "dir = take pos (rtrim PATH_SEPARATOR path)"
    by (auto simp: mkpath_parent_def Let_def split: option.splits if_splits)
  have "length (rtrim PATH_SEPARATOR path) \<le> length path"
    by (rule prefix_length_le [OF rtrim_prefix])
  moreover have "pos < length (rtrim PATH_SEPARATOR path)"
    using r by (rule rfind_char_Some_less)
  ultimately show ?thesis by (simp add: d)
qed

function mkpath :: "string \<Rightarrow> (sftp, unit) sx" where
  "mkpath path =
     sx_bind (exists path) (\<lambda>found.
       if found then sx_return ()
       else case mkpath_parent path of
              Some dir \<Rightarrow> sx_seq (mkpath dir) (mkdir_request path)
            | None \<Rightarrow> mkdir_request path)"
  by pat_completeness auto
termination
  by (relation "measure length") (auto dest: mkpath_parent_shorter)

declare mkpath.simps [simp del]

definition createfile :: "string \<Rightarrow> (sftp, string) sx" where
  "createfile file =
     sx_bind (request SSH_FXP_OPEN
       (\<lambda>p. addInt32 0 (addInt32 (SSH_FXF_WRITE OR SSH_FXF_CREAT OR SSH_FXF_TRUNC) (addString file p))))
       (\<lambda>(type, pkt). sx_lift
         (if type = SSH_FXP_HANDLE then res_bind (getString pkt) (\<lambda>(h, _). Inr h)
          else if type \<noteq> SSH_FXP_STATUS then Inl (invalid_response ''SSH_FXP_OPEN'' type)
          else res_bind (getInt32 pkt) (\<lambda>(errcode, _).
                 Inl (KSFTPError (''open failed on '' @ file) (unat errcode)))))"

definition closefile :: "string \<Rightarrow> (sftp, unit) sx" where
  "closefile handle =
     sx_bind (request SSH_FXP_CLOSE (addString handle)) (\<lambda>(type, pkt).
       sx_lift (expect_ok ''SSH_FXP_OPEN'' (''close failed on '' @ handle) type pkt))"

definition writefile :: "string \<Rightarrow> 64 word \<Rightarrow> byte list \<Rightarrow> (sftp, unit) sx" where
  "writefile handle off data =
     sx_bind (request SSH_FXP_WRITE
       (\<lambda>p. addByteVector data (addInt32 (of_nat (length data)) (addInt64 off (addString handle p)))))
       (\<lambda>(type, pkt).
         sx_lift (expect_ok ''SSH_FXP_WRITE'' (''close failed on '' @ handle) type pkt))"

section \<open>SFTPTransfer\<close>

definition SFTP_makeArgs :: "root_dir_url \<Rightarrow> string list" where
  "SFTP_makeArgs target = ssh_config_args target @ [''-s'', m_hostname target, ''sftp'']"

definition sftp_init :: "(sftp, unit) sx" where
  "sftp_init =
     (let initpkt = addInt32 MY_PROTO_VER (addByte SSH_FXP_INIT SFTPPacket)
      in sx_seq (sendPacket initpkt)
           (sx_bind (recvPacket initpkt) (\<lambda>p1.
             sx_bind (sx_lift (getByte p1)) (\<lambda>(type, p2).
               if type \<noteq> SSH_FXP_VERSION then sx_throw (invalid_response ''SSH_FXP_INIT'' type)
               else sx_bind (sx_lift (getInt32 p2)) (\<lambda>(ver, _) s.
                      (Inr (), s\<lparr>m_proto_ver := ver\<rparr>))))))"

definition SFTPTransfer :: "root_dir_url list \<Rightarrow> (sftp, unit) sx" where
  "SFTPTransfer urlv = sx_seq sftp_init (mkpath (m_path (hd urlv)))"

text \<open>The loop's state adds the offset to the connection.\<close>

definition SFTP_put :: "string \<Rightarrow> string \<Rightarrow> (64 word \<times> sftp, unit) sx" where
  "SFTP_put handle buf st =
     (case st of (off, s) \<Rightarrow>
        (case writefile handle off (bytes_of_string buf) s of
           (Inl e, s') \<Rightarrow> (Inl e, (off, s'))
         | (Inr _, s') \<Rightarrow> (Inr (), (off + of_nat (length buf), s'))))"

definition close_after :: "string \<Rightarrow> unit res \<Rightarrow> (sftp, unit) sx" where
  "close_after handle r s =
     (case r of
        Inl e \<Rightarrow> (case closefile handle s of (Inl e', s') \<Rightarrow> (Inl e', s') | (Inr _, s') \<Rightarrow> (Inl e, s'))
      | Inr _ \<Rightarrow> closefile handle s)"

definition SFTP_perform ::
    "root_dir_url list \<Rightarrow> 'p data_provider \<Rightarrow> string list \<Rightarrow> 'p \<Rightarrow> sftp \<Rightarrow> (unit res \<times> 'p \<times> sftp) option" where
  "SFTP_perform urlv dp target_files p s =
     (let fp = appendPath (m_path (hd urlv)) (hd target_files)
      in case createfile fp s of
           (Inl e, s') \<Rightarrow> Some (Inl e, p, s')
         | (Inr handle, s1) \<Rightarrow>
             (case dp_prepare dp p of
                (Inl e, p1) \<Rightarrow>
                  (case close_after handle (Inl e) s1 of (r, s2) \<Rightarrow> Some (r, p1, s2))
              | (Inr _, p1) \<Rightarrow>
                  map_option
                    (\<lambda>(r, p2, (off, s2)).
                      case dp_finish dp p2 of
                        (Inl e, p3) \<Rightarrow> (case close_after handle (Inl e) s2 of (r', s3) \<Rightarrow> (r', p3, s3))
                      | (Inr _, p3) \<Rightarrow> (case close_after handle r s2 of (r', s3) \<Rightarrow> (r', p3, s3)))
                    (pump (dp_getData dp) BUFSIZ (SFTP_put handle) p1 (0, s1))))"

end
