(* ===== verification/SftpProtocol.thy ===== *)
theory SftpProtocol
  imports SftpTransfer
begin

text \<open>
  What \<^verbatim>\<open>SFTPTransfer\<close> puts on the wire and how it reads the answers: the framing of packets, the
  reader that reassembles them from arbitrary chunks, and the requests a transfer makes.
\<close>

section \<open>Frames\<close>

definition frame :: "byte list \<Rightarrow> byte list" where
  "frame body = be_bytes 4 (of_nat (length body)) @ body"

lemma frame_neq_Nil [simp]: "frame body \<noteq> []"
  by (simp add: frame_def numeral_eq_Suc)

lemma update_frame: "m_vector p = h @ body \<Longrightarrow> length h = 4 \<Longrightarrow> m_vector (update p) = frame body"
  by (simp add: update_header frame_def)

lemma new_packet_frame: "m_vector (update (addByteVector body SFTPPacket)) = frame body"
  by (rule update_frame [of _ "replicate 4 0"]) (simp_all add: addByteVector_def SFTPPacket_def)

section \<open>Reading\<close>

definition incoming :: "(errno + byte list) list \<Rightarrow> byte list" where
  "incoming cs = concat (map (case_sum (\<lambda>_. []) id) cs)"

text \<open>A peer that neither fails nor closes the stream before the end of the list.\<close>

definition steady :: "(errno + byte list) list \<Rightarrow> bool" where
  "steady cs \<longleftrightarrow> list_all (case_sum (\<lambda>_. False) (\<lambda>bs. bs \<noteq> [])) cs"

lemma incoming_simps [simp]:
  "incoming [] = []" "incoming (Inr bs # cs) = bs @ incoming cs"
  by (simp_all add: incoming_def)

lemma steady_simps [simp]:
  "steady []" "steady (Inr bs # cs) \<longleftrightarrow> bs \<noteq> [] \<and> steady cs" "\<not> steady (Inl e # cs)"
  by (simp_all add: steady_def)

lemma recv_loop_steady:
  "steady cs \<Longrightarrow> n \<le> length (incoming cs) \<Longrightarrow>
   \<exists>cs'. recv_loop n cs = (Inr (take n (incoming cs)), cs') \<and> incoming cs' = drop n (incoming cs) \<and> steady cs'"
proof (induction cs arbitrary: n)
  case Nil
  then show ?case by simp
next
  case (Cons c cs)
  then obtain bs where c: "c = Inr bs" and ne: "bs \<noteq> []" by (cases c) auto
  show ?case
  proof (cases "n = 0 \<or> n < length bs")
    case True
    then show ?thesis using Cons.prems c ne by auto
  next
    case False
    then have "n - length bs \<le> length (incoming cs)" using Cons.prems c by simp
    from Cons.IH [OF _ this] Cons.prems c False ne show ?thesis by auto
  qed
qed

lemma recv_loop_short:
  "steady cs \<Longrightarrow> length (incoming cs) < n \<Longrightarrow>
   \<exists>cs'. recv_loop n cs = (Inl (KError ''SFTPTransfer::recvPacket: unexpected EOF''), cs')"
proof (induction cs arbitrary: n)
  case Nil
  then show ?case by simp
next
  case (Cons c cs)
  then obtain bs where c: "c = Inr bs" and ne: "bs \<noteq> []" by (cases c) auto
  from Cons.prems c have "length (incoming cs) < n - length bs" by simp
  from Cons.IH [OF _ this] Cons.prems c ne show ?case by auto
qed

lemma recvBuffer_steady:
  assumes "steady (s_in s)" and "n \<le> length (incoming (s_in s))"
  shows "\<exists>cs'. recvBuffer n s = (Inr (take n (incoming (s_in s))), s\<lparr>s_in := cs'\<rparr>) \<and>
    incoming cs' = drop n (incoming (s_in s)) \<and> steady cs'"
  using recv_loop_steady [OF assms] by (auto simp: recvBuffer_def)

lemma recv_body_steady:
  "steady (s_in s) \<Longrightarrow> n \<le> length (incoming (s_in s)) \<Longrightarrow>
   \<exists>cs'. recv_body n pkt s = (Inr (addByteVector (take n (incoming (s_in s))) pkt), s\<lparr>s_in := cs'\<rparr>) \<and>
     incoming cs' = drop n (incoming (s_in s)) \<and> steady cs'"
proof (induction n arbitrary: pkt s rule: less_induct)
  case (less n)
  show ?case
  proof (cases "n = 0")
    case True
    then show ?thesis using less.prems
      by (intro exI [of _ "s_in s"]) (simp add: recv_body.simps sx_simps addByteVector_def)
  next
    case False
    let ?k = "min BUFSIZ n" and ?in = "incoming (s_in s)"
    have k: "?k \<le> length ?in" using less.prems(2) by simp
    obtain c1 where r: "recvBuffer ?k s = (Inr (take ?k ?in), s\<lparr>s_in := c1\<rparr>)"
      and c1: "incoming c1 = drop ?k ?in" "steady c1"
      using recvBuffer_steady [OF less.prems(1) k] by blast
    have lt: "n - ?k < n" using False BUFSIZ_pos by simp
    have len: "n - ?k \<le> length (incoming c1)" using less.prems(2) c1(1) by simp
    obtain c2 where b: "recv_body (n - ?k) (addByteVector (take ?k ?in) pkt) (s\<lparr>s_in := c1\<rparr>) =
        (Inr (addByteVector (take (n - ?k) (incoming c1)) (addByteVector (take ?k ?in) pkt)), s\<lparr>s_in := c2\<rparr>)"
      and c2: "incoming c2 = drop (n - ?k) (incoming c1)" "steady c2"
      using less.IH [OF lt, of "s\<lparr>s_in := c1\<rparr>" "addByteVector (take ?k ?in) pkt"] c1(2) len by auto
    have t: "take ?k ?in @ take (n - ?k) (drop ?k ?in) = take n ?in"
      by (metis le_add_diff_inverse min.cobounded2 take_add)
    have d: "drop (n - ?k) (drop ?k ?in) = drop n ?in"
      by simp
    have "recv_body n pkt s = (Inr (addByteVector (take n ?in) pkt), s\<lparr>s_in := c2\<rparr>)"
      using False r b by (subst recv_body.simps)
        (simp add: Let_def sx_bind_def r addByteVector_append c1(1) t)
    then show ?thesis using c2 c1(1) d by auto
  qed
qed

text \<open>
  The reader takes exactly one frame off the stream, however it is cut into chunks: the packet is the
  frame with the read position behind its length.
\<close>

lemma recvPacket_frame:
  assumes st: "steady (s_in s)" and inp: "incoming (s_in s) = frame body @ more_in"
    and len: "length body < 2 ^ 32"
  shows "\<exists>cs'. recvPacket pkt s = (Inr \<lparr>m_vector = frame body, m_gpos = 4\<rparr>, s\<lparr>s_in := cs'\<rparr>) \<and>
    incoming cs' = more_in \<and> steady cs'"
proof -
  let ?h = "be_bytes 4 (of_nat (length body))"
  have u: "unat (of_nat (length body) :: 64 word) = length body"
    using len by (simp add: unat_of_nat)
  then have v: "(of_nat (length body) :: 64 word) < 2 ^ 32"
    using len by (simp add: word_less_nat_alt)
  have 4: "4 \<le> length (incoming (s_in s))" using inp by (simp add: frame_def)
  obtain c1 where r: "recvBuffer 4 s = (Inr ?h, s\<lparr>s_in := c1\<rparr>)"
    and c1: "incoming c1 = body @ more_in" "steady c1"
    using recvBuffer_steady [OF st 4] inp by (auto simp: frame_def)
  have g: "getInt32 (setData ?h pkt) = Inr (of_nat (length body), \<lparr>m_vector = ?h, m_gpos = 4\<rparr>)"
    using int32_field.get_enc [OF v, of "setData ?h pkt" "[]" "[]"] by (cases pkt) (simp add: setData_def)
  obtain c2 where b: "recv_body (length body) \<lparr>m_vector = ?h, m_gpos = 4\<rparr> (s\<lparr>s_in := c1\<rparr>) =
      (Inr (addByteVector body \<lparr>m_vector = ?h, m_gpos = 4\<rparr>), s\<lparr>s_in := c2\<rparr>)"
    and c2: "incoming c2 = more_in" "steady c2"
    using recv_body_steady [of "s\<lparr>s_in := c1\<rparr>" "length body"] c1 by auto
  have "recvPacket pkt s = (Inr \<lparr>m_vector = frame body, m_gpos = 4\<rparr>, s\<lparr>s_in := c2\<rparr>)"
    unfolding recvPacket_def
    by (simp add: sx_bind_def r sx_simps g u b) (simp add: addByteVector_def frame_def)
  then show ?thesis using c2 by blast
qed

section \<open>Requests\<close>

definition next_id :: "64 word \<Rightarrow> 64 word" where
  "next_id i = (i + 1) AND mask 32"

lemma nextId_next_id: "nextId s = (next_id (m_lastid s), s\<lparr>m_lastid := next_id (m_lastid s)\<rparr>)"
  by (simp add: nextId_def next_id_def Let_def mask_eq_exp_minus_1 push_bit_eq_mult)

lemma next_id_less: "next_id i < 2 ^ 32"
  unfolding next_id_def by (rule and_mask_less_size) (simp add: word_size)

lemma sendPacket_out:
  "sendPacket pkt s = (Inr u, s') \<Longrightarrow>
   s_out s' = s_out s @ m_vector (update pkt) \<and> m_lastid s' = m_lastid s \<and> s_in s' = s_in s"
  by (auto simp: sendPacket_def Let_def dest: write_loop_all split: prod.splits option.splits)

definition same_out :: "sftp \<Rightarrow> sftp \<Rightarrow> bool" where
  "same_out s s' \<longleftrightarrow> s_out s' = s_out s \<and> m_lastid s' = m_lastid s"

lemma same_out_trans: "same_out a b \<Longrightarrow> same_out b c \<Longrightarrow> same_out a c"
  by (simp add: same_out_def)

lemma same_out_basic: "sx_preserves same_out (sx_return a)" "sx_preserves same_out (sx_lift r)"
  by (rule sx_preserves_basic; simp add: same_out_def)+

lemmas same_out_bind = sx_preserves_bind [OF same_out_trans]

lemma recvBuffer_same_out: "sx_preserves same_out (recvBuffer n)"
  by (simp add: sx_preserves_def recvBuffer_def same_out_def split: prod.splits)

lemma recv_body_same_out: "sx_preserves same_out (recv_body n pkt)"
proof (induction n pkt rule: recv_body.induct)
  case (1 n pkt)
  show ?case
  proof (cases "n = 0")
    case False
    then show ?thesis
      by (subst recv_body.simps)
        (auto simp: Let_def intro!: same_out_bind recvBuffer_same_out 1)
  qed (simp add: recv_body.simps same_out_basic)
qed

lemma recvPacket_same_out: "sx_preserves same_out (recvPacket pkt)"
  unfolding recvPacket_def
  by (intro same_out_bind recvBuffer_same_out same_out_basic)
    (auto intro: recv_body_same_out split: prod.splits)

lemma transact_out:
  assumes "transact pkt s = (Inr x, s')"
  shows "s_out s' = s_out s @ m_vector (update pkt) \<and> m_lastid s' = m_lastid s"
proof -
  obtain s1 p1 s2 where "sendPacket pkt s = (Inr (), s1)" and r: "recvPacket pkt s1 = (Inr p1, s2)"
    and "s' = s2"
    using assms by (auto simp: transact_def sx_seq_eq_Inr_iff sx_bind_eq_Inr_iff sx_simps split: if_splits)
  moreover have "same_out s1 s2"
    using recvPacket_same_out [of pkt] r by (metis snd_conv sx_preserves_def)
  ultimately show ?thesis
    using sendPacket_out by (simp add: same_out_def)
qed

text \<open>A request: what it puts on the wire, and the identifier it leaves.\<close>

definition request_body :: "byte \<Rightarrow> 64 word \<Rightarrow> byte list \<Rightarrow> byte list" where
  "request_body type i flds = type # be_bytes 4 i @ flds"

lemma request_packet:
  "addByteVector flds (addInt32 i (addByte type SFTPPacket)) = addByteVector (request_body type i flds) SFTPPacket"
  by (simp add: addInt32_def add_be_bytes addByte_addByteVector addByteVector_append request_body_def)

lemma request_out:
  assumes "request type put_fields s = (Inr x, s')" and "\<And>p. put_fields p = addByteVector flds p"
  shows "s_out s' = s_out s @ frame (request_body type (next_id (m_lastid s)) flds) \<and>
    m_lastid s' = next_id (m_lastid s)"
  using assms(1) transact_out [of _ "s\<lparr>m_lastid := next_id (m_lastid s)\<rparr>" x s']
  by (auto simp: request_def nextId_next_id assms(2) request_packet new_packet_frame)

text \<open>The fields of the four requests of a transfer.\<close>

definition open_fields :: "string \<Rightarrow> byte list" where
  "open_fields file =
     string_bytes file @ be_bytes 4 (SSH_FXF_WRITE OR SSH_FXF_CREAT OR SSH_FXF_TRUNC) @ be_bytes 4 0"

definition write_fields :: "string \<Rightarrow> 64 word \<Rightarrow> string \<Rightarrow> byte list" where
  "write_fields handle off buf =
     string_bytes handle @ be_bytes 8 off @ be_bytes 4 (of_nat (length buf)) @ bytes_of_string buf"

lemmas field_bytes = addString_bytes addInt32_def addInt64_def add_be_bytes addByteVector_append

lemma createfile_out:
  assumes "createfile file s = (Inr handle, s')"
  shows "s_out s' = s_out s @ frame (request_body SSH_FXP_OPEN (next_id (m_lastid s)) (open_fields file)) \<and>
    m_lastid s' = next_id (m_lastid s)"
proof -
  obtain x where "request SSH_FXP_OPEN (\<lambda>p. addInt32 0 (addInt32
      (SSH_FXF_WRITE OR SSH_FXF_CREAT OR SSH_FXF_TRUNC) (addString file p))) s = (Inr x, s')"
    using assms by (auto simp: createfile_def sx_bind_eq_Inr_iff sx_simps)
  from request_out [OF this, of "open_fields file"] show ?thesis
    by (simp add: field_bytes open_fields_def)
qed

lemma closefile_out:
  assumes "closefile handle s = (Inr u, s')"
  shows "s_out s' = s_out s @ frame (request_body SSH_FXP_CLOSE (next_id (m_lastid s)) (string_bytes handle)) \<and>
    m_lastid s' = next_id (m_lastid s)"
proof -
  obtain x where "request SSH_FXP_CLOSE (addString handle) s = (Inr x, s')"
    using assms by (auto simp: closefile_def sx_bind_eq_Inr_iff sx_simps)
  from request_out [OF this, of "string_bytes handle"] show ?thesis
    by (simp add: field_bytes)
qed

lemma writefile_out:
  assumes "writefile handle off (bytes_of_string buf) s = (Inr u, s')"
  shows "s_out s' = s_out s @
      frame (request_body SSH_FXP_WRITE (next_id (m_lastid s)) (write_fields handle off buf)) \<and>
    m_lastid s' = next_id (m_lastid s)"
proof -
  obtain x where "request SSH_FXP_WRITE (\<lambda>p. addByteVector (bytes_of_string buf)
      (addInt32 (of_nat (length (bytes_of_string buf))) (addInt64 off (addString handle p)))) s = (Inr x, s')"
    using assms by (auto simp: writefile_def sx_bind_eq_Inr_iff sx_simps)
  from request_out [OF this, of "write_fields handle off buf"] show ?thesis
    by (simp add: field_bytes write_fields_def)
qed

text \<open>The writes of a file in chunks, at consecutive offsets and with consecutive identifiers.\<close>

fun write_frames :: "string \<Rightarrow> 64 word \<Rightarrow> 64 word \<Rightarrow> string list \<Rightarrow> byte list" where
  "write_frames handle i off [] = []"
| "write_frames handle i off (c # cs) =
     frame (request_body SSH_FXP_WRITE (next_id i) (write_fields handle off c)) @
     write_frames handle (next_id i) (off + of_nat (length c)) cs"

lemma SFTP_put_eq: "SFTP_put handle buf (off, s) =
    (case writefile handle off (bytes_of_string buf) s of
       (Inl e, s') \<Rightarrow> (Inl e, (off, s')) | (Inr _, s') \<Rightarrow> (Inr (), (off + of_nat (length buf), s')))"
  by (simp add: SFTP_put_def)

lemma SFTP_put_all:
  assumes "put_all (SFTP_put handle) cs (off, s) = (Inr u, (off', s'))"
  shows "s_out s' = s_out s @ write_frames handle (m_lastid s) off cs \<and>
    m_lastid s' = (next_id ^^ length cs) (m_lastid s)"
  using assms
proof (induction cs arbitrary: off s)
  case Nil
  then show ?case by simp
next
  case (Cons c cs)
  obtain s1 where w: "writefile handle off (bytes_of_string c) s = (Inr (), s1)"
    and r: "put_all (SFTP_put handle) cs (off + of_nat (length c), s1) = (Inr u, (off', s'))"
    using Cons.prems by (auto simp: SFTP_put_eq split: prod.splits sum.splits)
  from writefile_out [OF w] Cons.IH [OF r] show ?case
    by (simp add: funpow_swap1)
qed

definition transfer_frames :: "string \<Rightarrow> string \<Rightarrow> 64 word \<Rightarrow> string list \<Rightarrow> byte list" where
  "transfer_frames file handle i cs =
     frame (request_body SSH_FXP_OPEN (next_id i) (open_fields file)) @
     write_frames handle (next_id i) 0 cs @
     frame (request_body SSH_FXP_CLOSE ((next_id ^^ (length cs + 2)) i) (string_bytes handle))"

context provider
begin

text \<open>
  A transfer that returns has opened the target, written all bytes of the provider in order, and
  closed the file, and nothing else.
\<close>

lemma SFTP_perform_out:
  assumes get: "dp_getData dp = get" and prep: "dp_prepare dp p = (Inr (), p1)" and ready: "ready p1"
    and ret: "SFTP_perform urlv dp fs p s = Some (Inr (), p', s')"
  shows "\<exists>handle. s_out s' = s_out s @ transfer_frames (appendPath (m_path (hd urlv)) (hd fs)) handle
      (m_lastid s) (chunks BUFSIZ (remaining p1))"
proof -
  let ?fp = "appendPath (m_path (hd urlv)) (hd fs)" and ?cs = "chunks BUFSIZ (remaining p1)"
  obtain handle s1 where c: "createfile ?fp s = (Inr handle, s1)"
    using ret by (auto simp: SFTP_perform_def Let_def split: prod.splits sum.splits)
  let ?r = "put_all (SFTP_put handle) ?cs (0, s1)"
  obtain p2 where pump: "pump get BUFSIZ (SFTP_put handle) p1 (0, s1) = Some (fst ?r, p2, snd ?r)"
    using pump_put_all [OF ready BUFSIZ_pos, of "SFTP_put handle" "(0, s1)"] by blast
  obtain off s2 where r: "?r = (Inr (), (off, s2))" and cl: "closefile handle s2 = (Inr (), s')"
    using ret
    by (cases ?r) (auto simp: SFTP_perform_def Let_def c prep get pump close_after_def
        split: prod.splits sum.splits)
  have "s_out s' = s_out s @ transfer_frames ?fp handle (m_lastid s) ?cs"
    using createfile_out [OF c] SFTP_put_all [OF r] closefile_out [OF cl]
    by (simp add: transfer_frames_def funpow_swap1)
  then show ?thesis by blast
qed

lemma SFTP_perform_total:
  assumes "dp_getData dp = get" and "dp_prepare dp p = (Inr (), p1)" and "ready p1"
  shows "\<exists>x. SFTP_perform urlv dp fs p s = Some x"
proof (cases "createfile (appendPath (m_path (hd urlv)) (hd fs)) s")
  case (Pair r s1)
  show ?thesis
  proof (cases r)
    case (Inl e)
    then show ?thesis using Pair by (simp add: SFTP_perform_def Let_def)
  next
    case (Inr handle)
    obtain p2 where "pump get BUFSIZ (SFTP_put handle) p1 (0, s1) =
        Some (fst (put_all (SFTP_put handle) (chunks BUFSIZ (remaining p1)) (0, s1)), p2,
              snd (put_all (SFTP_put handle) (chunks BUFSIZ (remaining p1)) (0, s1)))"
      using pump_put_all [OF assms(3) BUFSIZ_pos, of "SFTP_put handle" "(0, s1)"] by blast
    then show ?thesis
      unfolding SFTP_perform_def Let_def Pair Inr assms(1,2) sum.case prod.case
      by (simp only: option.map) blast
  qed
qed

end

section \<open>Answers\<close>

lemma transact_answer:
  assumes st: "steady (s_in s)" and res: "s_results s = []"
    and inp: "incoming (s_in s) = frame (request_body type i flds) @ more_in"
    and len: "length flds < 2 ^ 31" and i: "i < 2 ^ 32"
  shows "\<exists>cs'. incoming cs' = more_in \<and> steady cs' \<and>
    transact pkt s =
      (if i = m_lastid s then Inr (type, \<lparr>m_vector = frame (request_body type i flds), m_gpos = 9\<rparr>)
       else Inl (KError ''SFTP request/reply id mismatch''),
       s\<lparr>s_out := s_out s @ m_vector (update pkt), s_in := cs'\<rparr>)"
proof -
  let ?b = "request_body type i flds" and ?s = "s\<lparr>s_out := s_out s @ m_vector (update pkt)\<rparr>"
  have send: "sendPacket pkt s = (Inr (), ?s)"
    by (cases s) (use res in \<open>simp add: sendPacket_def Let_def\<close>)
  have "length ?b < 2 ^ 32" using len by (simp add: request_body_def)
  then obtain cs' where recv: "recvPacket pkt ?s = (Inr \<lparr>m_vector = frame ?b, m_gpos = 4\<rparr>, ?s\<lparr>s_in := cs'\<rparr>)"
    and cs': "incoming cs' = more_in" "steady cs'"
    using recvPacket_frame [of ?s ?b more_in pkt] st inp by auto
  have b: "getByte \<lparr>m_vector = frame ?b, m_gpos = 4\<rparr> = Inr (type, \<lparr>m_vector = frame ?b, m_gpos = 5\<rparr>)"
    by (simp add: getByte_def frame_def request_body_def nth_append)
  have g: "getInt32 \<lparr>m_vector = frame ?b, m_gpos = 5\<rparr> = Inr (i, \<lparr>m_vector = frame ?b, m_gpos = 9\<rparr>)"
    using int32_field.get_enc [OF i, of "\<lparr>m_vector = frame ?b, m_gpos = 5\<rparr>"
        "be_bytes 4 (of_nat (length ?b)) @ [type]" flds]
    by (simp add: frame_def request_body_def)
  have "transact pkt s =
      (if i = m_lastid s then Inr (type, \<lparr>m_vector = frame ?b, m_gpos = 9\<rparr>)
       else Inl (KError ''SFTP request/reply id mismatch''), ?s\<lparr>s_in := cs'\<rparr>)"
    unfolding transact_def sx_seq_Inr [where m = "sendPacket pkt", OF send] sx_bind_Inr [where m = "recvPacket pkt", OF recv]
    by (simp add: sx_bind_def sx_simps b g)
  then show ?thesis using cs' by auto
qed

text \<open>
  \<open>exists\<close> on an answer: attributes mean yes, \<open>SSH_FX_NO_SUCH_FILE\<close> means no, another status or type
  is an error, and so is any answer to another request.
\<close>

definition stat_result :: "string \<Rightarrow> byte \<Rightarrow> 64 word \<Rightarrow> bool res" where
  "stat_result file type code =
     (if type = SSH_FXP_ATTRS then Inr True
      else if type \<noteq> SSH_FXP_STATUS then Inl (invalid_response ''SSH_FXP_LSTAT'' type)
      else if code = SSH_FX_NO_SUCH_FILE then Inr False
      else Inl (KSFTPError (''stat failed on '' @ file) (unat code)))"

lemma status_code:
  assumes "code < 2 ^ 32"
  shows "getInt32 \<lparr>m_vector = frame (request_body type i (be_bytes 4 code @ flds)), m_gpos = 9\<rparr> =
    Inr (code, \<lparr>m_vector = frame (request_body type i (be_bytes 4 code @ flds)), m_gpos = 13\<rparr>)"
  using int32_field.get_enc [OF assms,
      of "\<lparr>m_vector = frame (request_body type i (be_bytes 4 code @ flds)), m_gpos = 9\<rparr>"
        "be_bytes 4 (of_nat (length (request_body type i (be_bytes 4 code @ flds)))) @ type # be_bytes 4 i" flds]
  by (simp add: frame_def request_body_def)

lemma exists_answer:
  assumes "steady (s_in s)" and "s_results s = []" and code: "code < 2 ^ 32" and i: "i < 2 ^ 32"
    and "length flds < 2 ^ 30"
    and "incoming (s_in s) = frame (request_body type i (be_bytes 4 code @ flds)) @ more_in"
  shows "fst (exists file s) =
    (if i = next_id (m_lastid s) then stat_result file type code
     else Inl (KError ''SFTP request/reply id mismatch''))"
proof -
  let ?s = "s\<lparr>m_lastid := next_id (m_lastid s)\<rparr>"
  let ?pkt = "addString file (addInt32 (next_id (m_lastid s)) (addByte SSH_FXP_STAT SFTPPacket))"
  let ?m = "\<lparr>m_vector = frame (request_body type i (be_bytes 4 code @ flds)), m_gpos = 9\<rparr>"
  obtain cs' where t: "transact ?pkt ?s =
      (if i = m_lastid ?s then Inr (type, ?m) else Inl (KError ''SFTP request/reply id mismatch''),
       ?s\<lparr>s_out := s_out ?s @ m_vector (update ?pkt), s_in := cs'\<rparr>)"
    using transact_answer [of ?s type i "be_bytes 4 code @ flds" more_in ?pkt] assms by auto
  have r: "request SSH_FXP_STAT (addString file) s = transact ?pkt ?s"
    by (simp add: request_def nextId_next_id)
  show ?thesis
  proof (cases "i = next_id (m_lastid s)")
    case True
    then have e: "fst (exists file s) =
        (if type = SSH_FXP_ATTRS then Inr True
         else if type \<noteq> SSH_FXP_STATUS then Inl (invalid_response ''SSH_FXP_LSTAT'' type)
         else res_bind (getInt32 ?m) (\<lambda>(errcode, _).
                if errcode \<noteq> SSH_FX_NO_SUCH_FILE then Inl (KSFTPError (''stat failed on '' @ file) (unat errcode))
                else Inr False))"
      by (simp add: exists_def sx_bind_def r t sx_simps)
    show ?thesis
      unfolding e status_code [OF code] using True by (simp add: stat_result_def)
  next
    case False
    then show ?thesis by (simp add: exists_def sx_bind_def r t)
  qed
qed

section \<open>A server that accepts everything\<close>

fun ok_answers :: "64 word \<Rightarrow> nat \<Rightarrow> byte list" where
  "ok_answers i 0 = []"
| "ok_answers i (Suc n) =
     frame (request_body SSH_FXP_STATUS (next_id i) (be_bytes 4 SSH_FX_OK)) @ ok_answers (next_id i) n"

definition upload_answers :: "64 word \<Rightarrow> string \<Rightarrow> nat \<Rightarrow> byte list" where
  "upload_answers i handle n =
     frame (request_body SSH_FXP_HANDLE (next_id i) (string_bytes handle)) @ ok_answers (next_id i) (n + 1)"

text \<open>The connection while such answers are read: nothing fails, and the answers in \<open>ans\<close> are to come.\<close>

definition served :: "byte list \<Rightarrow> 64 word \<Rightarrow> sftp \<Rightarrow> bool" where
  "served ans i s \<longleftrightarrow> steady (s_in s) \<and> s_results s = [] \<and> incoming (s_in s) = ans \<and> m_lastid s = i"

lemma request_served:
  assumes "served (frame (request_body type (next_id i) flds) @ more_in) i s" and "length flds < 2 ^ 31"
  shows "\<exists>s'. request req put_fields s =
      (Inr (type, \<lparr>m_vector = frame (request_body type (next_id i) flds), m_gpos = 9\<rparr>), s') \<and>
    served more_in (next_id i) s'"
proof -
  let ?s = "s\<lparr>m_lastid := next_id i\<rparr>"
  have s: "steady (s_in ?s)" "s_results ?s = []" "m_lastid s = i"
    "incoming (s_in ?s) = frame (request_body type (next_id i) flds) @ more_in"
    using assms(1) by (simp_all add: served_def)
  let ?pkt = "put_fields (addInt32 (next_id i) (addByte req SFTPPacket))"
  obtain cs' where "incoming cs' = more_in" "steady cs'"
    and "transact ?pkt ?s =
      (Inr (type, \<lparr>m_vector = frame (request_body type (next_id i) flds), m_gpos = 9\<rparr>),
       ?s\<lparr>s_out := s_out ?s @ m_vector (update ?pkt), s_in := cs'\<rparr>)"
    using transact_answer [OF s(1,2,4) assms(2) next_id_less, of ?pkt] by auto
  then show ?thesis
    using s by (intro exI [of _ "?s\<lparr>s_out := s_out ?s @ m_vector (update ?pkt), s_in := cs'\<rparr>"])
      (simp add: request_def nextId_next_id served_def)
qed

lemma expect_ok_status:
  "expect_ok what failed SSH_FXP_STATUS
     \<lparr>m_vector = frame (request_body SSH_FXP_STATUS i (be_bytes 4 SSH_FX_OK)), m_gpos = 9\<rparr> = Inr ()"
  using status_code [of SSH_FX_OK SSH_FXP_STATUS i "[]"] by (simp add: expect_ok_def SSH_FX_OK_def)

lemma status_served:
  assumes "served (ok_answers i (Suc n)) i s"
  shows "\<exists>s'. request req put_fields s =
      (Inr (SSH_FXP_STATUS, \<lparr>m_vector = frame (request_body SSH_FXP_STATUS (next_id i) (be_bytes 4 SSH_FX_OK)),
         m_gpos = 9\<rparr>), s') \<and> served (ok_answers (next_id i) n) (next_id i) s'"
  using request_served [of SSH_FXP_STATUS i "be_bytes 4 SSH_FX_OK" "ok_answers (next_id i) n" s req put_fields]
    assms by simp

lemma writefile_served:
  "served (ok_answers i (Suc n)) i s \<Longrightarrow>
   \<exists>s'. writefile handle off data s = (Inr (), s') \<and> served (ok_answers (next_id i) n) (next_id i) s'"
  using status_served [of i n s SSH_FXP_WRITE "\<lambda>p. addByteVector data
      (addInt32 (of_nat (length data)) (addInt64 off (addString handle p)))"]
  by (auto simp: writefile_def sx_bind_def sx_simps expect_ok_status)

lemma closefile_served:
  "served (ok_answers i (Suc n)) i s \<Longrightarrow>
   \<exists>s'. closefile handle s = (Inr (), s') \<and> served (ok_answers (next_id i) n) (next_id i) s'"
  using status_served [of i n s SSH_FXP_CLOSE "addString handle"]
  by (auto simp: closefile_def sx_bind_def sx_simps expect_ok_status)

lemma createfile_served:
  assumes "served (upload_answers i handle n) i s" and h: "length handle < 2 ^ 30"
  shows "\<exists>s'. createfile file s = (Inr handle, s') \<and> served (ok_answers (next_id i) (n + 1)) (next_id i) s'"
proof -
  let ?m = "\<lparr>m_vector = frame (request_body SSH_FXP_HANDLE (next_id i) (string_bytes handle)), m_gpos = 9\<rparr>"
  have l: "length (string_bytes handle) < 2 ^ 31" using h by (simp add: string_bytes_def)
  have g: "getString ?m = Inr (handle, ?m\<lparr>m_gpos := m_gpos ?m + 4\<rparr>)"
    by (rule getString_string_bytes [of _ _
          "be_bytes 4 (of_nat (length (request_body SSH_FXP_HANDLE (next_id i) (string_bytes handle)))) @
           SSH_FXP_HANDLE # be_bytes 4 (next_id i)" "[]"])
      (use h in \<open>simp_all add: frame_def request_body_def\<close>)
  show ?thesis
    using request_served [OF assms(1) [unfolded upload_answers_def] l, of SSH_FXP_OPEN
        "\<lambda>p. addInt32 0 (addInt32 (SSH_FXF_WRITE OR SSH_FXF_CREAT OR SSH_FXF_TRUNC) (addString file p))"]
    by (auto simp: createfile_def sx_bind_def sx_simps g)
qed

lemma SFTP_put_served:
  "served (ok_answers i (length cs + n)) i s \<Longrightarrow>
   \<exists>off' s' i'. put_all (SFTP_put handle) cs (off, s) = (Inr (), (off', s')) \<and> served (ok_answers i' n) i' s'"
proof (induction cs arbitrary: i off s)
  case Nil
  then show ?case by auto
next
  case (Cons c cs)
  then obtain s1 where "writefile handle off (bytes_of_string c) s = (Inr (), s1)"
    and "served (ok_answers (next_id i) (length cs + n)) (next_id i) s1"
    using writefile_served [of i "length cs + n" s handle off "bytes_of_string c"] by auto
  then show ?case
    using Cons.IH [of "next_id i" s1 "off + of_nat (length c)"] by (simp add: SFTP_put_eq)
qed

context provider
begin

text \<open>With a server that accepts every request, the transfer of a provider that ends returns.\<close>

lemma SFTP_perform_succeeds:
  assumes get: "dp_getData dp = get" and prep: "dp_prepare dp p = (Inr (), p1)" and ready: "ready p1"
    and fin: "\<And>q. ready q \<Longrightarrow> fst (dp_finish dp q) = Inr ()"
    and serve: "served (upload_answers (m_lastid s) handle (length (chunks BUFSIZ (remaining p1)))) (m_lastid s) s"
    and h: "length handle < 2 ^ 30"
  shows "\<exists>p' s'. SFTP_perform urlv dp fs p s = Some (Inr (), p', s')"
proof -
  let ?cs = "chunks BUFSIZ (remaining p1)"
  obtain s1 where c: "createfile (appendPath (m_path (hd urlv)) (hd fs)) s = (Inr handle, s1)"
    and s1: "served (ok_answers (next_id (m_lastid s)) (length ?cs + 1)) (next_id (m_lastid s)) s1"
    using createfile_served [OF serve h] by blast
  obtain off s2 i where r: "put_all (SFTP_put handle) ?cs (0, s1) = (Inr (), (off, s2))"
    and s2: "served (ok_answers i 1) i s2"
    using SFTP_put_served [OF s1] by blast
  obtain s3 where cl: "closefile handle s2 = (Inr (), s3)"
    using closefile_served [of i 0 s2 handle] s2 by auto
  obtain p2 where pump: "pump get BUFSIZ (SFTP_put handle) p1 (0, s1) = Some (Inr (), p2, (off, s2))"
    and "ready p2"
    using pump_put_all [OF ready BUFSIZ_pos, of "SFTP_put handle" "(0, s1)"] r by auto
  then obtain p3 where "dp_finish dp p2 = (Inr (), p3)"
    using fin [of p2] by (metis prod.collapse)
  then show ?thesis
    using c pump cl by (simp add: SFTP_perform_def Let_def prep get close_after_def)
qed

end

end
