(* ===== verification/FileTransfer.thy ===== *)
theory FileTransfer
  imports DataProvider RootDirURL Configuration
begin

text \<open>
  \<open>FileTransfer\<close> of \<^verbatim>\<open>kdumptool/transfer.cc\<close>: saving to local files, with holes in place of blocks of
  zeros. The output is a buffered \<^verbatim>\<open>FILE\<close>: the bytes of the file, the offset of its descriptor and the bytes
  that are still in the buffer. The outcome of every system call on it is drawn from a list of faults (an
  exhausted list means that all further ones succeed).
\<close>

section \<open>The output stream\<close>

text \<open>
  A failing \<^verbatim>\<open>write\<close> has written \<open>n\<close> bytes, but not all. \<open>os_drain\<close> is the policy of the library: how many of
  the bytes in the buffer a \<^verbatim>\<open>fwrite\<close> hands to the kernel at once (\<open>id\<close> for a stream without a buffer).
  \<open>os_fclose\<close> is what \<^verbatim>\<open>fclose\<close> has returned.
\<close>

datatype fault = Fine | Fails nat errno

record ostream =
  os_data :: string
  os_off :: nat
  os_pending :: string
  os_drain :: "nat \<Rightarrow> nat"
  os_faults :: "fault list"
  os_fclose :: "errno option"

definition next_fault :: "ostream \<Rightarrow> fault \<times> ostream" where
  "next_fault s =
     (case os_faults s of [] \<Rightarrow> (Fine, s) | f # fs \<Rightarrow> (f, s\<lparr>os_faults := fs\<rparr>))"

text \<open>Writing behind the end fills the gap with zeros; writing nothing does not.\<close>

definition write_at :: "string \<Rightarrow> ostream \<Rightarrow> ostream" where
  "write_at buf s =
     (if buf = [] then s
      else s\<lparr>os_data := take (os_off s) (os_data s @ replicate (os_off s - length (os_data s)) NUL) @ buf @
               drop (os_off s + length buf) (os_data s),
             os_off := os_off s + length buf\<rparr>)"

text \<open>The first \<open>k\<close> bytes of the buffer go to the kernel. After a failure the buffer is dropped.\<close>

definition write_out :: "nat \<Rightarrow> ostream \<Rightarrow> errno option \<times> ostream" where
  "write_out k s =
     (let out = take k (os_pending s)
      in case next_fault s of
           (Fine, s') \<Rightarrow> (None, (write_at out s')\<lparr>os_pending := drop k (os_pending s)\<rparr>)
         | (Fails n e, s') \<Rightarrow> (Some e, (write_at (take (min n (length out - 1)) out) s')\<lparr>os_pending := []\<rparr>))"

definition fflush :: "ostream \<Rightarrow> errno option \<times> ostream" where
  "fflush s = (if os_pending s = [] then (None, s) else write_out (length (os_pending s)) s)"

text \<open>After a failure \<^verbatim>\<open>fwrite\<close> returns a number that is too small.\<close>

definition fwrite :: "string \<Rightarrow> ostream \<Rightarrow> nat \<times> errno \<times> ostream" where
  "fwrite buf s =
     (let s1 = s\<lparr>os_pending := os_pending s @ buf\<rparr>;
          k = min (os_drain s (length (os_pending s1))) (length (os_pending s1))
      in if k = 0 then (length buf, EOTHER 0, s1)
         else case write_out k s1 of
                (None, s2) \<Rightarrow> (length buf, EOTHER 0, s2)
              | (Some e, s2) \<Rightarrow> (min (os_off s2 - os_off s) (length buf - 1), e, s2))"

definition fseek_cur :: "nat \<Rightarrow> ostream \<Rightarrow> errno option \<times> ostream" where
  "fseek_cur n s =
     (case fflush s of
        (Some e, s1) \<Rightarrow> (Some e, s1)
      | (None, s1) \<Rightarrow>
          (case next_fault s1 of
             (Fine, s2) \<Rightarrow> (None, s2\<lparr>os_off := os_off s2 + n\<rparr>)
           | (Fails _ e, s2) \<Rightarrow> (Some e, s2)))"

definition ftell :: "ostream \<Rightarrow> int \<times> ostream" where
  "ftell s =
     (case next_fault s of
        (Fine, s') \<Rightarrow> (int (os_off s' + length (os_pending s')), s')
      | (Fails _ e, s') \<Rightarrow> (-1, s'))"

text \<open>\<^verbatim>\<open>rewind\<close> reports no error of the flush or of the seek.\<close>

definition rewind :: "ostream \<Rightarrow> ostream" where
  "rewind s =
     (case fflush s of
        (Some e, s1) \<Rightarrow> s1
      | (None, s1) \<Rightarrow>
          (case next_fault s1 of (Fine, s2) \<Rightarrow> s2\<lparr>os_off := 0\<rparr> | (Fails _ e, s2) \<Rightarrow> s2))"

text \<open>\<^verbatim>\<open>ftruncate\<close> works on the descriptor; a negative length is \<^verbatim>\<open>EINVAL\<close>.\<close>

definition EINVAL :: errno where "EINVAL = EOTHER 22"

definition ftruncate :: "int \<Rightarrow> ostream \<Rightarrow> errno option \<times> ostream" where
  "ftruncate n s =
     (if n < 0 then (Some EINVAL, s)
      else case next_fault s of
             (Fine, s') \<Rightarrow>
               (None, s'\<lparr>os_data := take (nat n) (os_data s') @ replicate (nat n - length (os_data s')) NUL\<rparr>)
           | (Fails _ e, s') \<Rightarrow> (Some e, s'))"

text \<open>What is left in the buffer is written, then the descriptor is closed.\<close>

definition fclose :: "ostream \<Rightarrow> ostream" where
  "fclose s =
     (let (r, s1) = fflush s; (f, s2) = next_fault s1
      in s2\<lparr>os_fclose := (case r of Some e \<Rightarrow> Some e | None \<Rightarrow> (case f of Fine \<Rightarrow> None | Fails _ e \<Rightarrow> Some e))\<rparr>)"

section \<open>FileTransfer::performPipe\<close>

definition isZero :: "string \<Rightarrow> bool" where
  "isZero buffer \<longleftrightarrow> list_all (\<lambda>c. c = NUL) buffer"

record pipe_state = ostream +
  last_was_sparse :: bool

text \<open>The body of the loop behind the end check.\<close>

definition pipe_put :: "bool \<Rightarrow> nat \<Rightarrow> string \<Rightarrow> (pipe_state, unit) sx" where
  "pipe_put sparse bufferSize buf s =
     (if sparse \<and> length buf = bufferSize \<and> isZero buf
      then (case fseek_cur bufferSize (ostream.truncate s) of
              (Some e, s') \<Rightarrow>
                (Inl (KSystemError ''FileTransfer::perform: fseek() failed.'' e),
                 ostream.extend s' \<lparr>last_was_sparse = last_was_sparse s\<rparr>)
            | (None, s') \<Rightarrow> (Inr (), ostream.extend s' \<lparr>last_was_sparse = True\<rparr>))
      else (case fwrite buf (ostream.truncate s) of
              (ret, e, s') \<Rightarrow>
                if ret \<noteq> length buf
                then (Inl (KSystemError (''FileTransfer::perform: fwrite() failed with '' @
                        number2string (int ret) @ ''.'') e),
                      ostream.extend s' \<lparr>last_was_sparse = last_was_sparse s\<rparr>)
                else (Inr (), ostream.extend s' \<lparr>last_was_sparse = False\<rparr>)))"

text \<open>After a trailing hole: write one byte behind it, so that the file gets longer, and cut it off.\<close>

definition pipe_end :: "ostream \<Rightarrow> unit res \<times> ostream" where
  "pipe_end s =
     (let (old_offset, s0) = ftell s
      in case fwrite [NUL] s0 of
           (ret, e, s1) \<Rightarrow>
             if ret \<noteq> 1 then (Inl (KSystemError ''Unable to write.'' e), s1)
             else case ftruncate old_offset (rewind s1) of
                    (Some e, s2) \<Rightarrow> (Inl (KSystemError ''Unable to set the file position.'' e), s2)
                  | (None, s2) \<Rightarrow> (Inr (), s2))"

text \<open>\<^verbatim>\<open>FileTransfer::close\<close> ignores what \<^verbatim>\<open>fclose\<close> returns.\<close>

definition close_out :: "ostream \<Rightarrow> ostream" where
  "close_out fp = fclose fp"

text \<open>What \<^verbatim>\<open>fopen\<close> gives: an error, or the policy of the buffer and the faults to come.\<close>

type_synonym fopen_env = "string \<Rightarrow> errno + (nat \<Rightarrow> nat) \<times> fault list"

definition open_out :: "fopen_env \<Rightarrow> string \<Rightarrow> ostream res" where
  "open_out fopen target_file =
     (case fopen target_file of
        Inl e \<Rightarrow> Inl (KSystemError (''Error in fopen for '' @ target_file) e)
      | Inr (drain, faults) \<Rightarrow>
          Inr \<lparr>os_data = [], os_off = 0, os_pending = [], os_drain = drain, os_faults = faults, os_fclose = None\<rparr>)"

text \<open>
  The whole method: what it returns, the provider, and the file left behind (none when it was not
  opened). The outer \<^const>\<open>None\<close> is a provider that never ends.
\<close>

definition performPipe ::
    "'p data_provider \<Rightarrow> fopen_env \<Rightarrow> bool \<Rightarrow> nat \<Rightarrow> string list \<Rightarrow> 'p \<Rightarrow>
     (unit res \<times> 'p \<times> ostream option) option" where
  "performPipe dp fopen sparse bufferSize target_files p =
     (case open_out fopen (hd target_files) of
        Inl e \<Rightarrow> Some (Inl e, p, None)
      | Inr fp \<Rightarrow>
          (case dp_prepare dp p of
             (Inl e, p1) \<Rightarrow> Some (Inl e, p1, Some (close_out fp))
           | (Inr _, p1) \<Rightarrow>
               map_option
                 (\<lambda>(r, p2, s).
                   let (r', fp') =
                     (case r of
                        Inl e \<Rightarrow> (Inl e, ostream.truncate s)
                      | Inr _ \<Rightarrow>
                          if last_was_sparse s then pipe_end (ostream.truncate s)
                          else (Inr (), ostream.truncate s))
                   in case dp_finish dp p2 of
                        (Inl e, p3) \<Rightarrow> (Inl e, p3, Some (close_out fp'))
                      | (Inr _, p3) \<Rightarrow> (r', p3, Some (close_out fp')))
                 (pump (dp_getData dp) bufferSize (pipe_put sparse bufferSize) p1
                    (ostream.extend fp \<lparr>last_was_sparse = False\<rparr>))))"

section \<open>FileTransfer\<close>

record file_transfer =
  ft_urlVector :: "root_dir_url list"
  ft_bufferSize :: nat

fun mkdir_targets ::
    "(string \<Rightarrow> 'w \<Rightarrow> 'w \<times> errno option) \<Rightarrow> root_dir_url list \<Rightarrow> 'w \<Rightarrow> 'w \<times> unit res" where
  "mkdir_targets sys_mkdir [] w = (w, Inr ())"
| "mkdir_targets sys_mkdir (u # us) w =
     (case mkdir sys_mkdir True (getRealPath u) w of
        (w', Inl e) \<Rightarrow> (w', Inl e)
      | (w', Inr _) \<Rightarrow> mkdir_targets sys_mkdir us w')"

definition block_size :: "(string \<Rightarrow> nat option) \<Rightarrow> root_dir_url list \<Rightarrow> nat" where
  "block_size blksize urlv =
     foldl (\<lambda>n u. case blksize (getRealPath u) of None \<Rightarrow> n | Some b \<Rightarrow> if b > n then b else n) 0 urlv"

definition FileTransfer ::
    "(string \<Rightarrow> 'w \<Rightarrow> 'w \<times> errno option) \<Rightarrow> (string \<Rightarrow> nat option) \<Rightarrow> root_dir_url list \<Rightarrow> 'w \<Rightarrow>
     'w \<times> file_transfer res" where
  "FileTransfer sys_mkdir blksize urlv w =
     (if list_ex (\<lambda>u. m_protocol u \<noteq> PROT_FILE) urlv
      then (w, Inl (KError ''Only file URLs are allowed for split.''))
      else case mkdir_targets sys_mkdir urlv w of
             (w', Inl e) \<Rightarrow> (w', Inl e)
           | (w', Inr _) \<Rightarrow>
               let n = block_size blksize urlv
               in (w', Inr \<lparr>ft_urlVector = urlv, ft_bufferSize = (if n = 0 then BUFSIZ else n)\<rparr>))"

text \<open>
  Targets are spread over the directories in turn: \<open>rest\<close> is what the iterator \<open>itv\<close> has not visited
  in this round.
\<close>

fun full_targets :: "root_dir_url list \<Rightarrow> root_dir_url list \<Rightarrow> string list \<Rightarrow> string list res" where
  "full_targets urlv rest [] = Inr []"
| "full_targets urlv [] (f # fs) = Inl (Undefined ''end iterator of an empty URL vector'')"
| "full_targets urlv (u # rest) (f # fs) =
     res_bind (full_targets urlv (if rest = [] then urlv else rest) fs) (\<lambda>ts.
       Inr (appendPath (getRealPath u) f # ts))"

text \<open>
  The flag is what is assigned to \<^verbatim>\<open>*directSave\<close>: nothing when the transfer throws.
\<close>

definition assigned :: "bool \<Rightarrow> unit res \<Rightarrow> bool option" where
  "assigned b r = (case r of Inl _ \<Rightarrow> None | Inr _ \<Rightarrow> Some b)"

definition FileTransfer_perform ::
    "'p data_provider \<Rightarrow> fopen_env \<Rightarrow> configuration \<Rightarrow> file_transfer \<Rightarrow> string list \<Rightarrow> 'p \<Rightarrow>
     ((unit res \<times> bool option) \<times> 'p \<times> ostream option) option" where
  "FileTransfer_perform dp fopen config ft target_files p =
     (case full_targets (ft_urlVector ft) (ft_urlVector ft) target_files of
        Inl e \<Rightarrow> Some ((Inl e, None), p, None)
      | Inr targets \<Rightarrow>
          if dp_canSaveToFile dp
          then (case dp_saveToFile dp targets p of (r, p') \<Rightarrow> Some ((r, assigned True r), p', None))
          else map_option (\<lambda>(r, p', f). ((r, assigned False r), p', f))
                 (performPipe dp fopen (\<not> kdumptoolContainsFlag ''NOSPARSE'' config)
                    (ft_bufferSize ft) targets p))"

section \<open>The file written\<close>

text \<open>
  What the stream stands for: the bytes in the file, the hole behind its end, and the bytes in the buffer.
\<close>

definition padded :: "'a ostream_scheme \<Rightarrow> string" where
  "padded s = os_data s @ replicate (os_off s - length (os_data s)) NUL"

definition file_image :: "'a ostream_scheme \<Rightarrow> string" where
  "file_image s = padded s @ os_pending s"

definition appending :: "'a ostream_scheme \<Rightarrow> bool" where
  "appending s \<longleftrightarrow> length (os_data s) \<le> os_off s"

lemma length_padded: "appending s \<Longrightarrow> length (padded s) = os_off s"
  by (simp add: padded_def appending_def)

lemma isZero_replicate: "isZero buf \<Longrightarrow> buf = replicate (length buf) NUL"
  by (induction buf) (simp_all add: isZero_def)

lemma truncate_sel [simp]:
  "os_data (ostream.truncate s) = os_data s" "os_off (ostream.truncate s) = os_off s"
  "os_pending (ostream.truncate s) = os_pending s" "os_drain (ostream.truncate s) = os_drain s"
  "os_faults (ostream.truncate s) = os_faults s"
  by (simp_all add: ostream.defs)

lemma extend_sel' [simp]:
  "os_data (ostream.extend s x) = os_data s" "os_off (ostream.extend s x) = os_off s"
  "os_pending (ostream.extend s x) = os_pending s" "os_drain (ostream.extend s x) = os_drain s"
  "os_faults (ostream.extend s x) = os_faults s"
  "last_was_sparse (ostream.extend s \<lparr>last_was_sparse = b\<rparr>) = b"
  by (simp_all add: ostream.defs)

lemma image_truncate [simp]:
  "file_image (ostream.truncate s) = file_image s" "appending (ostream.truncate s) = appending s"
  "padded (ostream.truncate s) = padded s"
  "file_image (ostream.extend s' x) = file_image s'" "appending (ostream.extend s' x) = appending s'"
  by (simp_all add: file_image_def appending_def padded_def)

lemma next_fault_sel:
  "next_fault s = (f, s') \<Longrightarrow> os_data s' = os_data s \<and> os_off s' = os_off s \<and> os_pending s' = os_pending s \<and>
     os_drain s' = os_drain s \<and> (os_faults s = [] \<longrightarrow> f = Fine \<and> os_faults s' = [])"
  by (auto simp: next_fault_def split: list.splits)

lemma write_at_image:
  assumes "appending s"
  shows "os_data (write_at buf s) = (if buf = [] then os_data s else padded s @ buf)"
    and "os_off (write_at buf s) = os_off s + length buf" and "appending (write_at buf s)"
    and "padded (write_at buf s) = padded s @ buf"
  using assms by (auto simp: write_at_def padded_def appending_def)

lemma write_at_sel [simp]: "os_pending (write_at buf s) = os_pending s" "os_faults (write_at buf s) = os_faults s"
  by (simp_all add: write_at_def)

text \<open>
  Bytes handed to the kernel stay part of the image; after a failure the file has at most a part of it.
\<close>

lemma write_out_image:
  assumes "write_out k s = (None, s')" and "appending s"
  shows "file_image s' = file_image s" and "appending s'" and "os_pending s' = drop k (os_pending s)"
    and "0 < k \<and> os_pending s \<noteq> [] \<Longrightarrow> os_data s' = padded s'"
proof -
  obtain f s1 where f: "next_fault s = (f, s1)" by fastforce
  note sel = next_fault_sel [OF f]
  have s': "s' = (write_at (take k (os_pending s)) s1)\<lparr>os_pending := drop k (os_pending s)\<rparr>"
    using assms(1) f by (auto simp: write_out_def Let_def split: fault.splits)
  have a: "appending s1" and p: "padded s1 = padded s" using sel assms(2) by (simp_all add: appending_def padded_def)
  note w = write_at_image [OF a, of "take k (os_pending s)"]
  have pad: "padded s' = padded s @ take k (os_pending s)" using w(4) p by (simp add: s' padded_def)
  then show "file_image s' = file_image s" by (simp add: file_image_def s')
  show "appending s'" using w(3) by (simp add: s' appending_def)
  show "os_pending s' = drop k (os_pending s)" by (simp add: s')
  show "os_data s' = padded s'" if "0 < k \<and> os_pending s \<noteq> []" using that w(1) p pad by (simp add: s')
qed

lemma write_out_failed:
  assumes "write_out k s = (Some e, s')" and "appending s"
  shows "\<exists>n. os_data s' = (if n = 0 then os_data s else padded s @ take n (os_pending s)) \<and>
    (os_pending s \<noteq> [] \<longrightarrow> n < length (os_pending s)) \<and> os_pending s' = []"
proof -
  obtain f s1 where f: "next_fault s = (f, s1)" by fastforce
  note sel = next_fault_sel [OF f]
  let ?out = "take k (os_pending s)"
  obtain n where s': "s' = (write_at (take (min n (length ?out - 1)) ?out) s1)\<lparr>os_pending := []\<rparr>"
    using assms(1) f by (auto simp: write_out_def Let_def split: fault.splits)
  have a: "appending s1" and p: "padded s1 = padded s" using sel assms(2) by (simp_all add: appending_def padded_def)
  let ?n = "min n (length ?out - 1)"
  have t: "take ?n ?out = take ?n (os_pending s)" by (simp add: min_def)
  have "os_data s' = (if ?n = 0 then os_data s else padded s @ take ?n (os_pending s))"
    using write_at_image(1) [OF a, of "take ?n ?out"] p sel unfolding s' t by auto
  moreover have "os_pending s \<noteq> [] \<longrightarrow> ?n < length (os_pending s)"
    by (cases "os_pending s") (auto simp: min_def)
  ultimately show ?thesis using s' by (intro exI [of _ ?n]) simp
qed

lemma fflush_image:
  assumes "fflush s = (None, s')" and "appending s"
  shows "file_image s' = file_image s" and "appending s'" and "os_pending s' = []"
    and "os_pending s \<noteq> [] \<or> os_data s = padded s \<Longrightarrow> os_data s' = file_image s"
proof -
  have c: "(os_pending s = [] \<and> s' = s) \<or> (os_pending s \<noteq> [] \<and> write_out (length (os_pending s)) s = (None, s'))"
    using assms(1) by (auto simp: fflush_def split: if_splits)
  then show i: "file_image s' = file_image s" and "appending s'" and p: "os_pending s' = []"
    using write_out_image [OF _ assms(2)] assms(2) by auto
  show "os_data s' = file_image s" if "os_pending s \<noteq> [] \<or> os_data s = padded s"
    using c that write_out_image(4) [OF _ assms(2)] i p by (auto simp: file_image_def)
qed

lemma fflush_failed:
  assumes "fflush s = (Some e, s')" and "appending s"
  shows "prefix (os_data s') (file_image s)" and "length (os_data s') < length (file_image s)" and "os_pending s' = []"
proof -
  have "os_pending s \<noteq> []" and w: "write_out (length (os_pending s)) s = (Some e, s')"
    using assms(1) by (auto simp: fflush_def split: if_splits)
  with write_out_failed [OF w assms(2)] obtain n where n: "n < length (os_pending s)" "os_pending s' = []"
    and d: "os_data s' = (if n = 0 then os_data s else padded s @ take n (os_pending s))" by auto
  show "prefix (os_data s') (file_image s)"
    by (auto simp: d file_image_def padded_def take_is_prefix)
  show "length (os_data s') < length (file_image s)" using n by (auto simp: d file_image_def padded_def)
  show "os_pending s' = []" by (rule n(2))
qed

text \<open>
  One step of the loop: a returned step has appended its buffer to the image. After a block that became a hole the
  buffer of the stream is empty; after another one the hole in front of it is part of the file or will be, when the
  buffer is written.
\<close>

definition tail_ok :: "pipe_state \<Rightarrow> bool" where
  "tail_ok s \<longleftrightarrow> appending s \<and>
     (if last_was_sparse s then os_pending s = [] else os_pending s \<noteq> [] \<or> os_data s = padded s)"

lemma fwrite_cases:
  assumes "fwrite buf s = (ret, e, s')" and "ret = length buf" and "buf \<noteq> []"
  shows "s' = s\<lparr>os_pending := os_pending s @ buf\<rparr> \<or>
    (\<exists>k. 0 < k \<and> write_out k (s\<lparr>os_pending := os_pending s @ buf\<rparr>) = (None, s'))"
proof -
  let ?s1 = "s\<lparr>os_pending := os_pending s @ buf\<rparr>"
  define k where "k = min (os_drain s (length (os_pending ?s1))) (length (os_pending ?s1))"
  obtain r s2 where w: "write_out k ?s1 = (r, s2)" by fastforce
  have "length buf - 1 < length buf" using assms(3) by (cases buf) simp_all
  then show ?thesis
    using assms(1,2) w unfolding fwrite_def Let_def k_def [symmetric]
    by (cases "k = 0"; cases r) auto
qed

lemma fwrite_image:
  assumes "fwrite buf s = (ret, e, s')" and "ret = length buf" and "buf \<noteq> []" and "appending s"
  shows "file_image s' = file_image s @ buf" and "appending s'" and "os_pending s' \<noteq> [] \<or> os_data s' = padded s'"
proof -
  let ?s1 = "s\<lparr>os_pending := os_pending s @ buf\<rparr>"
  have a: "appending ?s1" and i: "file_image ?s1 = file_image s @ buf"
    using assms(4) by (simp_all add: appending_def file_image_def padded_def)
  from fwrite_cases [OF assms(1-3)]
  have "file_image s' = file_image s @ buf \<and> appending s' \<and> (os_pending s' \<noteq> [] \<or> os_data s' = padded s')"
  proof (elim disjE exE conjE)
    assume "s' = ?s1"
    then show ?thesis using a i assms(3) by simp
  next
    fix k :: nat
    assume k: "0 < k" and w: "write_out k ?s1 = (None, s')"
    show ?thesis using write_out_image [OF w a] i k assms(3) by simp
  qed
  then show "file_image s' = file_image s @ buf" and "appending s'" and "os_pending s' \<noteq> [] \<or> os_data s' = padded s'"
    by simp_all
qed

lemma fseek_cur_image:
  assumes "fseek_cur n s = (None, s')" and "appending s"
  shows "file_image s' = file_image s @ replicate n NUL" and "appending s'" and "os_pending s' = []"
proof -
  obtain s1 where f: "fflush s = (None, s1)" using assms(1) by (auto simp: fseek_cur_def split: prod.splits option.splits)
  obtain g s2 where g: "next_fault s1 = (g, s2)" by fastforce
  have s': "s' = s2\<lparr>os_off := os_off s2 + n\<rparr>"
    using assms(1) f g by (auto simp: fseek_cur_def split: fault.splits)
  note sel = next_fault_sel [OF g] and fl = fflush_image(1-3) [OF f assms(2)]
  have "padded s' = padded s1 @ replicate n NUL"
    using sel fl(2) by (simp add: s' padded_def appending_def flip: replicate_add)
  then show "file_image s' = file_image s @ replicate n NUL" and "appending s'" and "os_pending s' = []"
    using sel fl by (simp_all add: file_image_def s' appending_def)
qed

lemma pipe_put_image:
  assumes "pipe_put sparse n buf s = (Inr u, s')" and "tail_ok s" and "buf \<noteq> []"
  shows "file_image s' = file_image s @ buf \<and> tail_ok s'"
proof (cases "sparse \<and> length buf = n \<and> isZero buf")
  case True
  then obtain s1 where k: "fseek_cur n (ostream.truncate s) = (None, s1)"
    and s': "s' = ostream.extend s1 \<lparr>last_was_sparse = True\<rparr>"
    using assms(1) by (auto simp: pipe_put_def split: prod.splits option.splits)
  have "buf = replicate n NUL" using True isZero_replicate by blast
  then show ?thesis using fseek_cur_image [OF k] assms(2) by (simp add: s' tail_ok_def)
next
  case False
  then obtain ret e s1 where w: "fwrite buf (ostream.truncate s) = (ret, e, s1)" "ret = length buf"
    and s': "s' = ostream.extend s1 \<lparr>last_was_sparse = False\<rparr>"
    using assms(1) by (auto simp: pipe_put_def split: prod.splits if_splits)
  show ?thesis using fwrite_image [OF w assms(3)] assms(2) by (simp add: s' tail_ok_def padded_def)
qed

lemma put_all_image:
  assumes "put_all (pipe_put sparse n) cs s = (Inr u, s')" and "tail_ok s" and "[] \<notin> set cs"
  shows "file_image s' = file_image s @ concat cs \<and> tail_ok s'"
  using assms
proof (induction cs arbitrary: s)
  case Nil
  then show ?case by simp
next
  case (Cons c cs)
  obtain s1 where put: "pipe_put sparse n c s = (Inr (), s1)"
    using Cons.prems(1) by (auto split: prod.splits sum.splits)
  from pipe_put_image [OF put] Cons.prems have "file_image s1 = file_image s @ c \<and> tail_ok s1" by auto
  with Cons.IH [of s1] Cons.prems put show ?case by auto
qed

text \<open>
  The end of a trailing hole: whether or not the byte behind it reaches the file, the file is cut or extended to the
  length of the image, and nothing stays in the buffer.
\<close>

lemma rewind_data:
  assumes "appending s" and "os_pending s = [] \<and> os_data s = padded s \<or> os_pending s = [NUL]"
  shows "os_pending (rewind s) = [] \<and> (os_data (rewind s) = file_image s \<or> os_pending s = [NUL] \<and> os_data (rewind s) = os_data s)"
proof -
  obtain r s1 where r: "fflush s = (r, s1)" by fastforce
  show ?thesis
  proof (cases r)
    case None
    obtain g s2 where g: "next_fault s1 = (g, s2)" by fastforce
    have "os_pending s \<noteq> [] \<or> os_data s = padded s" using assms(2) by auto
    from fflush_image(3,4) [OF r [unfolded None] assms(1)] this next_fault_sel [OF g] show ?thesis
      by (cases g) (simp_all add: rewind_def r None g)
  next
    case (Some e)
    then have "os_pending s = [NUL]" using r assms(2) by (auto simp: fflush_def)
    with r Some have "write_out 1 s = (Some e, s1)" by (simp add: fflush_def)
    from write_out_failed [OF this assms(1)] \<open>os_pending s = [NUL]\<close> show ?thesis
      by (auto simp: rewind_def r Some)
  qed
qed

lemma pipe_end_data:
  assumes "pipe_end s = (Inr u, s')" and "appending s" and "os_pending s = []"
  shows "os_data s' = file_image s \<and> os_pending s' = []"
proof -
  obtain off s0 where t: "ftell s = (off, s0)" by fastforce
  obtain ret e s1 where w: "fwrite [NUL] s0 = (ret, e, s1)" by (metis prod_cases3)
  have ret: "ret = 1" and tr: "ftruncate off (rewind s1) = (None, s')"
    using assms(1) t w by (auto simp: pipe_end_def Let_def split: if_splits option.splits prod.splits)
  then have "off \<ge> 0" by (auto simp: ftruncate_def split: if_splits)
  obtain g sg where g: "next_fault s = (g, sg)" by fastforce
  have off: "off = int (os_off s)" and s0: "os_data s0 = os_data s" "os_off s0 = os_off s" "os_pending s0 = []"
    using t g \<open>off \<ge> 0\<close> next_fault_sel [OF g] assms(3) by (auto simp: ftell_def split: fault.splits)
  have a0: "appending s0" and i0: "file_image s0 = padded s"
    using s0 assms(2) by (simp_all add: appending_def file_image_def padded_def)
  have i1: "file_image s1 = padded s @ [NUL]" and a1: "appending s1"
    and p1: "os_pending s1 \<noteq> [] \<or> os_data s1 = padded s1"
    using fwrite_image [OF w] ret a0 i0 by simp_all
  have an: "appending (s0\<lparr>os_pending := os_pending s0 @ [NUL]\<rparr>)" using a0 by (simp add: appending_def)
  have "os_pending s1 = [] \<or> s1 = s0\<lparr>os_pending := os_pending s0 @ [NUL]\<rparr>"
    using fwrite_cases [OF w] ret s0(3) write_out_image(3) [OF _ an, of _ s1] by fastforce
  then have d1: "os_pending s1 = [] \<and> os_data s1 = padded s1 \<or> os_pending s1 = [NUL] \<and> os_data s1 = os_data s"
    using s0 p1 by auto
  obtain h s2 where h: "next_fault (rewind s1) = (h, s2)" by fastforce
  have s': "os_data s' = take (os_off s) (os_data (rewind s1)) @ replicate (os_off s - length (os_data (rewind s1))) NUL"
    "os_pending s' = os_pending (rewind s1)"
    using tr h off next_fault_sel [OF h] by (auto simp: ftruncate_def split: fault.splits)
  have "os_data (rewind s1) = padded s @ [NUL] \<or> os_data (rewind s1) = os_data s" "os_pending (rewind s1) = []"
    using rewind_data [OF a1] d1 i1 by auto
  then show ?thesis using s' assms(2,3) by (auto simp: file_image_def padded_def appending_def)
qed

text \<open>
  Closing: when \<^verbatim>\<open>fclose\<close> succeeds the file is the image. When it fails a part may be missing at the end.
\<close>

lemma close_out_data:
  assumes "appending s" and "os_pending s \<noteq> [] \<or> os_data s = padded s"
  shows "prefix (os_data (close_out s)) (file_image s)"
    and "os_fclose (close_out s) = None \<or> os_pending s = [] \<Longrightarrow> os_data (close_out s) = file_image s"
proof -
  obtain r s1 where r: "fflush s = (r, s1)" by fastforce
  obtain g s2 where g: "next_fault s1 = (g, s2)" by fastforce
  have d: "os_data (close_out s) = os_data s1" using next_fault_sel [OF g] by (simp add: close_out_def fclose_def r g)
  have "prefix (os_data (close_out s)) (file_image s) \<and>
    (os_fclose (close_out s) = None \<or> os_pending s = [] \<longrightarrow> os_data (close_out s) = file_image s)"
  proof (cases r)
    case None
    then show ?thesis using fflush_image(4) [OF _ assms] r d by simp
  next
    case (Some e)
    then have "os_pending s \<noteq> []" using r by (auto simp: fflush_def)
    then show ?thesis using fflush_failed(1) [OF _ assms(1)] r Some d
      by (auto simp: close_out_def fclose_def g)
  qed
  then show "prefix (os_data (close_out s)) (file_image s)"
    and "os_fclose (close_out s) = None \<or> os_pending s = [] \<Longrightarrow> os_data (close_out s) = file_image s" by blast+
qed

lemma close_out_empty: "os_pending s = [] \<Longrightarrow> os_data (close_out s) = os_data s"
proof -
  assume "os_pending s = []"
  moreover obtain g s2 where "next_fault s = (g, s2)" by fastforce
  ultimately show ?thesis using next_fault_sel [of s g s2] by (simp add: close_out_def fclose_def fflush_def)
qed

text \<open>
  A transfer that returns leaves a file with the bytes of the provider, whether or not sparse files are wanted; when
  \<^verbatim>\<open>fclose\<close> fails, which it does not notice, it may leave only the first ones.
\<close>

context provider
begin

lemma performPipe_contents:
  assumes get: "dp_getData dp = get" and prep: "dp_prepare dp p = (Inr (), p1)" and "ready p1"
    and n: "0 < n"
    and ret: "performPipe dp fopen sparse n targets p = Some (Inr (), p', Some g)"
  shows "prefix (os_data g) (remaining p1) \<and> (os_fclose g = None \<longrightarrow> os_data g = remaining p1)"
proof -
  let ?put = "pipe_put sparse n"
  obtain fp where fp: "open_out fopen (hd targets) = Inr fp"
    using ret by (auto simp: performPipe_def split: sum.splits)
  then have fp_empty: "os_data fp = []" "os_off fp = 0" "os_pending fp = []"
    by (auto simp: open_out_def split: sum.splits)
  let ?s0 = "ostream.extend fp \<lparr>last_was_sparse = False\<rparr>"
  let ?r = "put_all ?put (chunks n (remaining p1)) ?s0"
  obtain p2 where pump: "pump get n ?put p1 ?s0 = Some (fst ?r, p2, snd ?r)"
    using pump_put_all [OF \<open>ready p1\<close> n, of ?put ?s0] by blast
  obtain s f where r: "?r = (Inr (), s)" and g: "g = close_out f"
    and f: "if last_was_sparse s then pipe_end (ostream.truncate s) = (Inr (), f)
            else f = ostream.truncate s"
    using ret
    by (cases ?r) (auto simp: performPipe_def fp prep get pump Let_def split: sum.splits prod.splits if_splits)
  have "tail_ok ?s0" "file_image ?s0 = []"
    using fp_empty by (simp_all add: tail_ok_def appending_def file_image_def padded_def)
  with put_all_image [OF r] have i: "file_image s = remaining p1" and t: "tail_ok s"
    using concat_chunks [OF n, of "remaining p1"] chunks_sizes [of "[]" n "remaining p1"] by auto
  show ?thesis
  proof (cases "last_was_sparse s")
    case True
    then have "os_data f = remaining p1" "os_pending f = []"
      using f t i pipe_end_data [of "ostream.truncate s" "()" f] by (simp_all add: tail_ok_def)
    then show ?thesis using close_out_empty [of f] by (simp add: g)
  next
    case False
    then show ?thesis using f t i close_out_data [of f] by (auto simp: g tail_ok_def)
  qed
qed

text \<open>With no fault in the output it does return, and finishes the provider.\<close>

lemma performPipe_total:
  assumes "dp_getData dp = get" and "dp_prepare dp p = (Inr (), p1)" and "ready p1" and "0 < n"
  shows "\<exists>r p' f. performPipe dp fopen sparse n targets p = Some (r, p', f)"
proof -
  have "\<exists>x. performPipe dp fopen sparse n targets p = Some x"
  proof (cases "open_out fopen (hd targets)")
    case (Inl e)
    then show ?thesis by (simp add: performPipe_def)
  next
    case (Inr fp)
    let ?s0 = "ostream.extend fp \<lparr>last_was_sparse = False\<rparr>"
    obtain p2 where "pump get n (pipe_put sparse n) p1 ?s0 =
        Some (fst (put_all (pipe_put sparse n) (chunks n (remaining p1)) ?s0), p2,
              snd (put_all (pipe_put sparse n) (chunks n (remaining p1)) ?s0))"
      using pump_put_all [OF assms(3,4), of "pipe_put sparse n" ?s0] by blast
    then show ?thesis
      unfolding performPipe_def Inr assms(1,2) sum.case prod.case by (simp only: option.map) blast
  qed
  then show ?thesis by (metis prod_cases3)
qed

end

text \<open>With an output that never fails every step succeeds.\<close>

lemma fflush_no_fault: "os_faults s = [] \<Longrightarrow> \<exists>s'. fflush s = (None, s') \<and> os_faults s' = []"
  by (auto simp: fflush_def write_out_def next_fault_def Let_def)

lemma fwrite_no_fault: "os_faults s = [] \<Longrightarrow> \<exists>e s'. fwrite buf s = (length buf, e, s') \<and> os_faults s' = []"
  by (auto simp: fwrite_def write_out_def next_fault_def Let_def)

lemma pipe_put_no_fault:
  assumes "os_faults s = []"
  shows "\<exists>s'. pipe_put sparse n buf s = (Inr (), s') \<and> os_faults s' = []"
  using assms fwrite_no_fault [of "ostream.truncate s" buf] fflush_no_fault [of "ostream.truncate s"]
  by (auto simp: pipe_put_def fseek_cur_def next_fault_def)

lemma put_all_no_fault:
  "os_faults s = [] \<Longrightarrow> \<exists>s'. put_all (pipe_put sparse n) cs s = (Inr (), s') \<and> os_faults s' = []"
proof (induction cs arbitrary: s)
  case Nil
  then show ?case by simp
next
  case (Cons c cs)
  obtain s1 where s1: "pipe_put sparse n c s = (Inr (), s1)" "os_faults s1 = []"
    using pipe_put_no_fault [OF Cons.prems] by blast
  then show ?case using Cons.IH [of s1] by auto
qed

lemma pipe_end_no_fault:
  assumes "os_faults s = []"
  shows "\<exists>s'. pipe_end s = (Inr (), s') \<and> os_faults s' = []"
proof -
  obtain e s1 where w: "fwrite [NUL] s = (1, e, s1)" "os_faults s1 = []"
    using fwrite_no_fault [OF assms, of "[NUL]"] by auto
  have "os_faults (rewind s1) = []"
    using fflush_no_fault [OF w(2)] by (auto simp: rewind_def next_fault_def)
  then show ?thesis
    using assms w by (simp add: pipe_end_def ftell_def ftruncate_def next_fault_def Let_def)
qed

lemma close_out_no_fault: "os_faults s = [] \<Longrightarrow> os_fclose (close_out s) = None"
  using fflush_no_fault [of s] by (auto simp: close_out_def fclose_def next_fault_def Let_def)

text \<open>With such an output a transfer returns, and \<^verbatim>\<open>fclose\<close> succeeds.\<close>

context provider
begin

lemma performPipe_no_fault:
  assumes get: "dp_getData dp = get" and prep: "dp_prepare dp p = (Inr (), p1)" and ready: "ready p1"
    and n: "0 < n" and fin: "\<And>q. ready q \<Longrightarrow> fst (dp_finish dp q) = Inr ()"
    and "fopen (hd targets) = Inr (drain, [])"
  shows "\<exists>p' g. performPipe dp fopen sparse n targets p = Some (Inr (), p', Some g) \<and> os_fclose g = None"
proof -
  define fp where "fp = \<lparr>os_data = [], os_off = 0, os_pending = [], os_drain = drain, os_faults = [], os_fclose = None\<rparr>"
  have fp: "open_out fopen (hd targets) = Inr fp"
    using assms(6) by (simp add: open_out_def fp_def)
  let ?s0 = "ostream.extend fp \<lparr>last_was_sparse = False\<rparr>"
  obtain s where r: "put_all (pipe_put sparse n) (chunks n (remaining p1)) ?s0 = (Inr (), s)"
    and s: "os_faults s = []"
    using put_all_no_fault [of ?s0 sparse n "chunks n (remaining p1)"] by (auto simp: fp_def)
  obtain p2 where pump: "pump get n (pipe_put sparse n) p1 ?s0 = Some (Inr (), p2, s)" and "ready p2"
    using pump_put_all [OF ready n, of "pipe_put sparse n" ?s0] r by auto
  then obtain p3 where p3: "dp_finish dp p2 = (Inr (), p3)"
    using fin [of p2] by (metis prod.collapse)
  obtain s' where "pipe_end (ostream.truncate s) = (Inr (), s')" "os_faults s' = []"
    using pipe_end_no_fault [of "ostream.truncate s"] s by auto
  then show ?thesis
    using s close_out_no_fault [of s'] close_out_no_fault [of "ostream.truncate s"]
    by (simp add: performPipe_def fp prep get pump p3 Let_def)
qed

end

end
