(* ===== verification/Kconfig.thy ===== *)
theory Kconfig
  imports StringUtil
begin

text \<open>
  \<open>KconfigValue\<close> and \<open>Kconfig\<close> of \<^verbatim>\<open>kdumptool/kconfig.cc\<close>: the values of a kernel configuration, the
  parser for its lines, and the proof of what it makes of every kind of line. \<^verbatim>\<open>gzgets\<close> and
  \<open>extractKernelConfig\<close> give the lines.
\<close>

section \<open>Values\<close>

text \<open>
  The type tag and the field it selects as one datatype; the other fields of the class are never set,
  and a getter of the wrong type reads what was never written.
\<close>

datatype tristate = ON | OFF | MODULE

datatype kconfig_value = T_INVALID | T_STRING string | T_INTEGER int | T_TRISTATE tristate

fun getStringValue :: "kconfig_value \<Rightarrow> string" where
  "getStringValue (T_STRING s) = s"
| "getStringValue _ = []"

fun getIntValue :: "kconfig_value \<Rightarrow> int res" where
  "getIntValue (T_INTEGER i) = Inr i"
| "getIntValue _ = Inl (Undefined ''m_integer not set'')"

fun getTristateValue :: "kconfig_value \<Rightarrow> tristate res" where
  "getTristateValue (T_TRISTATE t) = Inr t"
| "getTristateValue _ = Inl (Undefined ''m_tristate not set'')"

fun toString :: "kconfig_value \<Rightarrow> string" where
  "toString (T_INTEGER i) = ''[int] '' @ number2string i"
| "toString T_INVALID = ''[invalid]''"
| "toString (T_STRING s) = ''[string] '' @ s"
| "toString (T_TRISTATE ON) = ''[tristate] y''"
| "toString (T_TRISTATE OFF) = ''[tristate] n''"
| "toString (T_TRISTATE MODULE) = ''[tristate] m''"

definition kconfig_error :: "string \<Rightarrow> kerror" where
  "kconfig_error str = KError (''Invalid line: '' @ [SQUOTE] @ str @ [SQUOTE, CHR ''.''])"

text \<open>The value behind the equal sign, which is not empty.\<close>

definition kconfig_rhs :: "string \<Rightarrow> kconfig_value res" where
  "kconfig_rhs value =
     (if value = ''y'' then Inr (T_TRISTATE ON)
      else if value = ''m'' then Inr (T_TRISTATE MODULE)
      else if isNumber value then res_bind (asInt value) (\<lambda>i. Inr (T_INTEGER i))
      else
        let v = (if c_at value 0 = DQUOTE then drop 1 value else value)
        in if v = [] then Inl (Undefined ''value[size() - 1] of an empty string'')
           else Inr (T_STRING (if last v = DQUOTE then butlast v else v)))"

text \<open>The name is the second component; it stays empty where the code does not set it.\<close>

definition fromString :: "string \<Rightarrow> (kconfig_value \<times> string) res" where
  "fromString line =
     (let str = trim [NL] line
      in if str = [] then Inr (T_INVALID, [])
         else if c_at str 0 = CHR ''#'' then
           (if find_str ''is not set'' str = None then Inr (T_INVALID, [])
            else if \<not> (c_at str 1 = CHR '' '' \<and> isalpha (c_at str 2)) then Inl (kconfig_error str)
            else case find_char_from (CHR '' '') str 2 of
                   None \<Rightarrow> Inr (T_TRISTATE OFF, drop 2 str)
                 | Some endOfConfig \<Rightarrow>
                     if endOfConfig \<le> 2 then Inl (kconfig_error str)
                     else Inr (T_TRISTATE OFF, substr str 2 (endOfConfig - 2)))
         else case find_char (CHR ''='') str of
                None \<Rightarrow> Inl (kconfig_error str)
              | Some equalSign \<Rightarrow>
                  if length str \<le> equalSign + 1
                  then Inl (KError (''There must be at least one character after =: '' @ [SQUOTE] @ str @
                         [SQUOTE, CHR ''.'']))
                  else res_bind (kconfig_rhs (drop (equalSign + 1) str)) (\<lambda>v.
                         Inr (v, take equalSign str)))"

section \<open>Kconfig\<close>

type_synonym kconfig = "(string \<times> kconfig_value) list"

definition kconfig_line :: "string \<Rightarrow> kconfig \<Rightarrow> kconfig res" where
  "kconfig_line line configs =
     res_bind (fromString line) (\<lambda>(val, name).
       if val \<noteq> T_INVALID then Inr (smap_insert name val configs) else Inr configs)"

fun kconfig_lines :: "string list \<Rightarrow> kconfig \<Rightarrow> kconfig res" where
  "kconfig_lines [] configs = Inr configs"
| "kconfig_lines (l # ls) configs = res_bind (kconfig_line l configs) (kconfig_lines ls)"

text \<open>
  \<open>gz\<close> is \<^verbatim>\<open>gzopen\<close> followed by \<^verbatim>\<open>gzgets\<close> with a buffer of \<^verbatim>\<open>BUFSIZ\<close>: the pieces it returns.
\<close>

definition readFromConfig :: "(string \<Rightarrow> string list option) \<Rightarrow> string \<Rightarrow> kconfig \<Rightarrow> kconfig res" where
  "readFromConfig gz configFile configs =
     (case gz configFile of
        None \<Rightarrow> Inl (KError (''Opening '' @ [SQUOTE] @ configFile @ [SQUOTE] @ '' failed.''))
      | Some pieces \<Rightarrow> kconfig_lines pieces configs)"

definition readFromKernel :: "string res \<Rightarrow> kconfig \<Rightarrow> kconfig res" where
  "readFromKernel extracted configs = res_bind extracted (\<lambda>s. kconfig_lines (stream_lines s) configs)"

text \<open>\<^verbatim>\<open>m_configs[option]\<close> also inserts the default value, which changes no later answer.\<close>

definition kconfig_get :: "string \<Rightarrow> kconfig \<Rightarrow> kconfig_value" where
  "kconfig_get option configs = (case map_of configs option of None \<Rightarrow> T_INVALID | Some v \<Rightarrow> v)"

section \<open>The lines of a configuration\<close>

definition symbol_name :: "string \<Rightarrow> bool" where
  "symbol_name n \<longleftrightarrow> n \<noteq> [] \<and> isalpha (hd n) \<and>
     (\<forall>c \<in> set n. c \<noteq> CHR ''='' \<and> c \<noteq> CHR '' '' \<and> c \<noteq> NL \<and> c \<noteq> CHR ''#'')"

text \<open>
  What a line says about a symbol, or that it says nothing. A number that does not fit into an \<^verbatim>\<open>int\<close> counts as the
  nearest one. Between two double quotes everything is taken as it is, backslashes too; any other value that is
  not a number is a string as well.
\<close>

inductive line_says :: "string \<Rightarrow> (string \<times> kconfig_value) option \<Rightarrow> bool" where
  says_empty: "line_says [] None"
| says_comment: "NL \<notin> set c \<Longrightarrow> \<not> sublist ''is not set'' c \<Longrightarrow> line_says (CHR ''#'' # c) None"
| says_not_set: "symbol_name n \<Longrightarrow> line_says (''# '' @ n @ '' is not set'') (Some (n, T_TRISTATE OFF))"
| says_y: "symbol_name n \<Longrightarrow> line_says (n @ ''=y'') (Some (n, T_TRISTATE ON))"
| says_m: "symbol_name n \<Longrightarrow> line_says (n @ ''=m'') (Some (n, T_TRISTATE MODULE))"
| says_integer: "symbol_name n \<Longrightarrow> d \<noteq> [] \<Longrightarrow> \<forall>c \<in> set d. isdigit c \<Longrightarrow>
    (sign, sg) \<in> {([], 1), (''+'', 1), (''-'', -1)} \<Longrightarrow>
    line_says (n @ ''='' @ sign @ d) (Some (n, T_INTEGER (max INT_MIN (min INT_MAX (sg * int (dec_val d))))))"
| says_string: "symbol_name n \<Longrightarrow> NL \<notin> set s \<Longrightarrow>
    line_says (n @ ''='' @ [DQUOTE] @ s @ [DQUOTE]) (Some (n, T_STRING s))"
| says_word: "symbol_name n \<Longrightarrow> w \<noteq> [] \<Longrightarrow> w \<noteq> ''y'' \<Longrightarrow> w \<noteq> ''m'' \<Longrightarrow> NL \<notin> set w \<Longrightarrow> hd w \<noteq> DQUOTE \<Longrightarrow>
    last w \<noteq> DQUOTE \<Longrightarrow> \<exists>c \<in> set w. \<not> isdigit c \<and> c \<noteq> CHR ''+'' \<and> c \<noteq> CHR ''-'' \<Longrightarrow>
    line_says (n @ ''='' @ w) (Some (n, T_STRING w))"

text \<open>Lines that are refused: without an equal sign, with nothing behind it, or not set without a name.\<close>

inductive line_bad :: "string \<Rightarrow> bool" where
  bad_no_value: "l \<noteq> [] \<Longrightarrow> hd l \<noteq> CHR ''#'' \<Longrightarrow> NL \<notin> set l \<Longrightarrow> CHR ''='' \<notin> set l \<Longrightarrow> line_bad l"
| bad_empty_value: "symbol_name n \<Longrightarrow> line_bad (n @ ''='')"
| bad_not_set: "c \<noteq> CHR '' '' \<Longrightarrow> NL \<notin> set (c # l) \<Longrightarrow> sublist ''is not set'' (c # l) \<Longrightarrow> line_bad (CHR ''#'' # c # l)"

lemma trim_NL_id: "s \<noteq> [] \<Longrightarrow> hd s \<noteq> NL \<Longrightarrow> last s \<noteq> NL \<Longrightarrow> trim [NL] s = s"
proof -
  assume a: "s \<noteq> []" "hd s \<noteq> NL" "last s \<noteq> NL"
  then have l: "ltrim [NL] s = s" by (cases s) (simp_all add: ltrim_dropWhile)
  have r: "rtrim [NL] s = s" using a by (simp add: rtrim_id)
  show ?thesis by (simp add: trim_def l r)
qed

lemma trim_NL_newline: "s \<noteq> [] \<Longrightarrow> hd s \<noteq> NL \<Longrightarrow> last s \<noteq> NL \<Longrightarrow> trim [NL] (s @ [NL]) = s"
proof -
  assume a: "s \<noteq> []" "hd s \<noteq> NL" "last s \<noteq> NL"
  then have l: "ltrim [NL] (s @ [NL]) = s @ [NL]" by (cases s) (simp_all add: ltrim_dropWhile)
  have "rtrim [NL] s = s" using a by (simp add: rtrim_id)
  then have r: "rtrim [NL] (s @ [NL]) = s" by (simp add: rtrim_all)
  have l': "ltrim [NL] s = s" using a by (cases s) (simp_all add: ltrim_dropWhile)
  show ?thesis by (simp add: trim_def l r l')
qed

lemma trim_NL_drop: "trim [NL] (s @ [NL]) = trim [NL] s"
  by (simp add: trim_def rtrim_dropWhile)

lemma trim_NL_line:
  "s \<noteq> [] \<Longrightarrow> hd s \<noteq> NL \<Longrightarrow> last s \<noteq> NL \<Longrightarrow> nl \<in> {[], [NL]} \<Longrightarrow> trim [NL] (s @ nl) = s"
  using trim_NL_id trim_NL_newline by auto

lemma find_str_append: "find_str pat (a @ pat @ b) \<noteq> None"
proof (induction a)
  case Nil
  have "prefix pat (pat @ b)" by simp
  then show ?case by (cases "pat @ b") (auto simp del: prefix_append)
next
  case (Cons c a)
  then show ?case by auto
qed

lemma fromString_assign:
  assumes n: "symbol_name n" and v: "v \<noteq> []" "last v \<noteq> NL" and nl: "nl \<in> {[], [NL]}"
  shows "fromString ((n @ CHR ''='' # v) @ nl) = res_bind (kconfig_rhs v) (\<lambda>r. Inr (r, n))"
proof -
  let ?s = "n @ CHR ''='' # v"
  obtain c cs where nc: "n = c # cs" using n by (cases n) (auto simp: symbol_name_def)
  have "trim [NL] (?s @ nl) = ?s"
    by (rule trim_NL_line) (use n v nl nc in \<open>auto simp: symbol_name_def\<close>)
  moreover have "c_at ?s 0 \<noteq> CHR ''#''"
    using n nc by (auto simp: symbol_name_def c_at_def)
  moreover have "find_char (CHR ''='') ?s = Some (length n)"
    using n by (intro find_char_append_Some) (auto simp: symbol_name_def)
  ultimately show ?thesis
    using v(1) by (simp add: fromString_def Let_def del: append_assoc)
qed

lemma fromString_off:
  assumes n: "symbol_name n" and nl: "nl \<in> {[], [NL]}"
  shows "fromString ((''# '' @ n @ '' is not set'') @ nl) = Inr (T_TRISTATE OFF, n)"
proof -
  let ?s = "''# '' @ n @ '' is not set''"
  obtain c cs where nc: "n = c # cs" using n by (cases n) (auto simp: symbol_name_def)
  have t: "trim [NL] (?s @ nl) = ?s"
    by (rule trim_NL_line) (use nl in \<open>auto simp: NL_def\<close>)
  have f: "find_str ''is not set'' ?s \<noteq> None"
    using find_str_append [of "''is not set''" "''# '' @ n @ '' ''" "[]"] by simp
  have "find_char (CHR '' '') (drop 2 ?s) = Some (length n)"
    using n by (auto simp: symbol_name_def intro!: find_char_append_Some)
  then have e: "find_char_from (CHR '' '') ?s 2 = Some (length n + 2)"
    by (simp add: find_char_from_def)
  have "c_at ?s 0 = CHR ''#''" "c_at ?s 1 = CHR '' ''" "isalpha (c_at ?s 2)"
    using n nc by (simp_all add: c_at_def symbol_name_def)
  moreover have "substr ?s 2 (length n + 2 - 2) = n" by (simp add: substr_def)
  moreover have "\<not> length n + 2 \<le> 2" using nc by simp
  moreover have "?s \<noteq> []" by simp
  ultimately show ?thesis
    unfolding fromString_def t Let_def using f e by (simp del: append.simps)
qed

lemma not_digits:
  assumes "\<forall>c \<in> set d. isdigit c"
  shows "NL \<notin> set d" and "CHR ''+'' \<notin> set d" and "CHR ''-'' \<notin> set d" and "CHR ''y'' \<notin> set d" and "CHR ''m'' \<notin> set d"
  using assms by (auto simp: NL_def isdigit_def ord_def)

lemma symbol_name_no_NL: "symbol_name n \<Longrightarrow> NL \<notin> set n"
  by (auto simp: symbol_name_def)

lemma no_NL_last: "NL \<notin> set s \<Longrightarrow> s \<noteq> [] \<Longrightarrow> last s \<noteq> NL"
  by (metis last_in_set)

lemma fromString_silent: "line_says l None \<Longrightarrow> fromString l = Inr (T_INVALID, [])"
proof (erule line_says.cases, simp_all)
  fix c :: string
  assume c: "NL \<notin> set c" "\<not> sublist ''is not set'' c"
  have "trim [NL] (CHR ''#'' # c) = CHR ''#'' # c"
    by (rule trim_NL_id) (use no_NL_last [OF c(1)] in \<open>auto simp: NL_def\<close>)
  moreover have "find_str ''is not set'' (CHR ''#'' # c) = None"
    using find_str_Some_iff [of "''is not set''" c] c(2) by (auto simp del: find_str.simps simp: find_str.simps(2))
  ultimately show "fromString (CHR ''#'' # c) = Inr (T_INVALID, [])"
    by (simp add: fromString_def c_at_def del: find_str.simps)
qed (simp add: fromString_def trim_def rtrim_dropWhile ltrim_dropWhile)

lemma asInt_digits:
  assumes "d \<noteq> []" and "\<forall>c \<in> set d. isdigit c" and "(sign, sg) \<in> {([], 1), (''+'', 1), (''-'', -1)}"
  shows "isNumber (sign @ d)" and "asInt (sign @ d) = Inr (max INT_MIN (min INT_MAX (sg * int (dec_val d))))"
proof -
  have h: "hd d \<noteq> CHR ''-''" "hd d \<noteq> CHR ''+''"
    using not_digits(2,3) [OF assms(2)] assms(1) by (metis hd_in_set)+
  show num: "isNumber (sign @ d)"
    using assms h by (cases d) (auto simp: isNumber_def list_all_iff)
  show "asInt (sign @ d) = Inr (max INT_MIN (min INT_MAX (sg * int (dec_val d))))"
    using scan_int_isNumber [OF num, of INT_MIN INT_MAX] assms(1,3) h
    by (auto simp: asInt_def clamp_int_def int_limits max_def min_def)
qed

text \<open>The parser makes of every line what it says.\<close>

lemma fromString_says:
  assumes "line_says l (Some (n, v))"
  shows "fromString l = Inr (v, n) \<and> v \<noteq> T_INVALID"
proof -
  have assign: "fromString (n @ CHR ''='' # w) = res_bind (kconfig_rhs w) (\<lambda>r. Inr (r, n))"
    if "symbol_name n" "w \<noteq> []" "NL \<notin> set w" for w
    using fromString_assign [of n w "[]"] that by (metis append_Nil2 insertI1 last_in_set)
  from assms show ?thesis
  proof (cases rule: line_says.cases)
    case says_not_set
    then show ?thesis using fromString_off [of n "[]"] by simp
  next
    case says_y
    then show ?thesis using assign [of "''y''"] by (simp add: kconfig_rhs_def NL_def)
  next
    case says_m
    then show ?thesis using assign [of "''m''"] by (simp add: kconfig_rhs_def NL_def)
  next
    case (says_integer d sign sg)
    note num = asInt_digits [OF says_integer(4-6)]
    have "NL \<notin> set (sign @ d)" "sign @ d \<noteq> []" "sign @ d \<noteq> ''y''" "sign @ d \<noteq> ''m''"
      using says_integer(4,6) not_digits [OF says_integer(5)] by (auto simp: NL_def)
    then show ?thesis
      using assign [of "sign @ d"] says_integer(1-3) num by (simp add: kconfig_rhs_def)
  next
    case (says_string s)
    let ?v = "DQUOTE # s @ [DQUOTE]"
    have "NL \<notin> set ?v" "\<not> isNumber ?v" "?v \<noteq> ''y''" "?v \<noteq> ''m''"
      using says_string by (auto simp: DQUOTE_def NL_def isNumber_def isdigit_def ord_def)
    then show ?thesis using assign [of ?v] says_string by (simp add: kconfig_rhs_def c_at_def butlast_append)
  next
    case (says_word w)
    have "\<not> isNumber w"
      using says_word by (cases w) (auto simp: isNumber_def list_all_iff split: if_splits)
    moreover have "c_at w 0 \<noteq> DQUOTE" using says_word by (cases w) (auto simp: c_at_def)
    ultimately show ?thesis using assign [of w] says_word by (simp add: kconfig_rhs_def)
  qed
qed

lemma fromString_bad: "line_bad l \<Longrightarrow> \<exists>m. fromString l = Inl (KError m)"
proof (induction rule: line_bad.induct)
  case (bad_no_value l)
  have "last l \<noteq> NL" "hd l \<noteq> NL" using bad_no_value by (metis last_in_set, metis hd_in_set)
  then have "trim [NL] l = l" using bad_no_value by (intro trim_NL_id)
  moreover have "find_char (CHR ''='') l = None" using bad_no_value by simp
  moreover have "c_at l 0 \<noteq> CHR ''#''" using bad_no_value by (cases l) (auto simp: c_at_def)
  ultimately show ?case using bad_no_value(1) by (simp add: fromString_def kconfig_error_def del: find_char_None_iff)
next
  case (bad_empty_value n)
  obtain c cs where nc: "n = c # cs" using bad_empty_value by (cases n) (auto simp: symbol_name_def)
  have "trim [NL] (n @ ''='') = n @ ''=''"
    by (rule trim_NL_id) (use bad_empty_value nc in \<open>auto simp: symbol_name_def NL_def\<close>)
  moreover have "find_char (CHR ''='') (n @ ''='') = Some (length n)"
    using bad_empty_value by (intro find_char_append_Some) (auto simp: symbol_name_def)
  moreover have "c_at (n @ ''='') 0 \<noteq> CHR ''#''" using bad_empty_value nc by (auto simp: symbol_name_def c_at_def)
  ultimately show ?case by (simp add: fromString_def)
next
  case (bad_not_set c l)
  have "trim [NL] (CHR ''#'' # c # l) = CHR ''#'' # c # l"
    by (rule trim_NL_id) (use bad_not_set no_NL_last [of l] in \<open>auto simp: NL_def\<close>)
  moreover have "find_str ''is not set'' (CHR ''#'' # c # l) \<noteq> None"
    using find_str_Some_iff [of "''is not set''" "CHR ''#'' # c # l"] bad_not_set
    by (auto simp: sublist_Cons_right simp del: find_str.simps)
  moreover have "c_at (CHR ''#'' # c # l) 0 = CHR ''#''" "c_at (CHR ''#'' # c # l) 1 \<noteq> CHR '' ''"
    using bad_not_set(1) by (simp_all add: c_at_def)
  ultimately show ?case by (simp add: fromString_def kconfig_error_def Let_def del: find_str.simps not_None_eq)
qed

text \<open>A whole configuration: every symbol has the value of the last line that says something about it.\<close>

definition config_text :: "string list \<Rightarrow> string" where
  "config_text ls = concat (map (\<lambda>l. l @ [NL]) ls)"

lemma line_no_NL: "line_says l s \<Longrightarrow> NL \<notin> set l" "line_bad l \<Longrightarrow> NL \<notin> set l"
proof -
  assume "line_says l s"
  then show "NL \<notin> set l"
    by (cases rule: line_says.cases) (auto dest: symbol_name_no_NL not_digits(1) simp: NL_def DQUOTE_def)
next
  assume "line_bad l"
  then show "NL \<notin> set l" by (cases rule: line_bad.cases) (auto dest: symbol_name_no_NL simp: NL_def)
qed

definition said :: "(string \<times> kconfig_value) option list \<Rightarrow> (string \<times> kconfig_value) list" where
  "said ss = map the (filter (\<lambda>s. s \<noteq> None) ss)"

lemma kconfig_line_says:
  "line_says l s \<Longrightarrow> kconfig_line l configs = Inr (case s of None \<Rightarrow> configs | Some (n, v) \<Rightarrow> smap_insert n v configs)"
  using fromString_silent fromString_says by (cases s) (auto simp: kconfig_line_def)

lemma readFromKernel_lines:
  assumes "list_all2 line_says ls ss"
  shows "readFromKernel (Inr (config_text ls @ r)) configs =
    kconfig_lines (stream_lines r) (smap.insert_all (said ss) configs)"
  using assms
proof (induction arbitrary: configs rule: list_all2_induct)
  case Nil
  then show ?case by (simp add: readFromKernel_def said_def config_text_def)
next
  case (Cons l ls s ss)
  have "stream_lines (l @ NL # r) = l # stream_lines r" for r
    by (rule stream_lines_line [OF line_no_NL(1) [OF Cons.hyps(1)]])
  then show ?case
    using Cons.IH kconfig_line_says [OF Cons.hyps(1)]
    by (cases s) (auto simp: readFromKernel_def config_text_def said_def)
qed

lemma readFromConfig_lines:
  assumes "list_all2 line_says ls ss" and "gz f = Some (map (\<lambda>l. l @ [NL]) ls)"
  shows "readFromConfig gz f configs = Inr (smap.insert_all (said ss) configs)"
proof -
  have "kconfig_lines (map (\<lambda>l. l @ [NL]) ls) configs = Inr (smap.insert_all (said ss) configs)"
    using assms(1)
  proof (induction arbitrary: configs rule: list_all2_induct)
    case (Cons l ls s ss)
    have "kconfig_line (l @ [NL]) c = kconfig_line l c" for c
      by (simp add: kconfig_line_def fromString_def trim_NL_drop)
    then show ?case
      using Cons.IH kconfig_line_says [OF Cons.hyps(1)] by (cases s) (auto simp: said_def)
  qed (simp add: said_def)
  then show ?thesis using assms(2) by (simp add: readFromConfig_def)
qed

lemma readFromKernel_bad:
  assumes "list_all2 line_says ls ss" and "line_bad l"
  shows "\<exists>m. readFromKernel (Inr (config_text (ls @ l # rest))) configs = Inl (KError m)"
proof -
  have "stream_lines (l @ NL # r) = l # stream_lines r" for r
    by (rule stream_lines_line [OF line_no_NL(2) [OF assms(2)]])
  then show ?thesis
    using readFromKernel_lines [OF assms(1), of "l @ NL # config_text rest" configs] fromString_bad [OF assms(2)]
    by (auto simp: config_text_def kconfig_line_def)
qed

lemma kconfig_get_insert_all:
  "kconfig_get n (smap.insert_all env []) = (case map_of (rev env) n of None \<Rightarrow> T_INVALID | Some v \<Rightarrow> v)"
  by (simp add: kconfig_get_def smap.find_insert_all)

end
