(* ===== verification/FindKernel.thy ===== *)
theory FindKernel
  imports Kconfig FilePath Configuration
begin

text \<open>
  \<^verbatim>\<open>kdumptool/kernelpath.cc\<close> and \<^verbatim>\<open>findkernel.cc\<close>: which kernel image and initrd are used for kdump. The
  machine is a record: its architecture, the running release, the files, and what \<open>KernelTool\<close> finds
  in an image.
\<close>

section \<open>KernelPath\<close>

record kernel_path =
  kp_directory :: string
  kp_image :: string
  kp_version :: string

definition imageNames :: "string \<Rightarrow> string list" where
  "imageNames arch =
     (if arch = ''i386'' \<or> arch = ''x86_64'' then [''vmlinuz'', ''vmlinux'']
      else if arch = ''ia64'' then [''vmlinuz'']
      else if arch = ''s390x'' then [''image'']
      else if arch = ''aarch64'' then [''Image'']
      else [''vmlinux''])"

fun split_image :: "string list \<Rightarrow> string \<Rightarrow> string \<times> string" where
  "split_image [] m_name = (m_name, [])"
| "split_image (pfx # pfxs) m_name =
     (if startsWith m_name pfx then
        (if length m_name = length pfx then (pfx, [])
         else if c_at m_name (length pfx) = CHR ''-'' then (pfx, drop (length pfx + 1) m_name)
         else split_image pfxs m_name)
      else split_image pfxs m_name)"

definition KernelPath :: "string \<Rightarrow> string \<Rightarrow> kernel_path" where
  "KernelPath arch path =
     (case split_image (imageNames arch) (baseName path) of
        (name, version) \<Rightarrow> \<lparr>kp_directory = dirName path, kp_image = name, kp_version = version\<rparr>)"

definition isKdump :: "kernel_path \<Rightarrow> bool" where
  "isKdump kp \<longleftrightarrow> endsWith (kp_version kp) ''kdump''"

definition configPath :: "kernel_path \<Rightarrow> string" where
  "configPath kp =
     (let ret = appendPath (kp_directory kp) ''config''
      in if kp_version kp \<noteq> [] then ret @ ''-'' @ kp_version kp else ret)"

definition initrdPath :: "bool \<Rightarrow> kernel_path \<Rightarrow> string" where
  "initrdPath fadump kp =
     (let ret = appendPath (kp_directory kp) ''initrd'';
          ret = (if kp_version kp \<noteq> [] then ret @ ''-'' @ kp_version kp else ret)
      in if \<not> fadump \<and> \<not> isKdump kp then ret @ ''-kdump'' else ret)"

section \<open>FindKernel\<close>

definition BOOTDIR :: string where "BOOTDIR = ''/boot''"
definition MAXCPUS_KDUMP :: int where "MAXCPUS_KDUMP = 1024"

record kernel_tool =
  kt_isRelocatable :: "bool res"
  kt_retrieveKernelConfig :: "kconfig res"

record machine =
  getArch :: string
  getKernelRelease :: string
  file_exists :: "string \<Rightarrow> bool"
  kernelTool :: "string \<Rightarrow> kernel_tool res"

definition isKdumpKernel :: "string \<Rightarrow> bool" where
  "isKdumpKernel kernelimage \<longleftrightarrow> endsWith kernelimage ''kdump''"

definition is_on :: "kconfig \<Rightarrow> string \<Rightarrow> bool" where
  "is_on kconfig option \<longleftrightarrow> kconfig_get option kconfig = T_TRISTATE ON"

definition too_many_cpus :: "kconfig \<Rightarrow> bool" where
  "too_many_cpus kconfig =
     (case kconfig_get ''CONFIG_NR_CPUS'' kconfig of T_INTEGER n \<Rightarrow> n > MAXCPUS_KDUMP | _ \<Rightarrow> False)"

definition strict_ok :: "string \<Rightarrow> kconfig \<Rightarrow> bool" where
  "strict_ok arch kconfig =
     (if (arch = ''i386'' \<or> arch = ''x86_64'') \<and> too_many_cpus kconfig then False
      else if kconfig_get ''CONFIG_PREEMPT_RT'' kconfig \<noteq> T_INVALID then False
      else True)"

definition suitableForKdump :: "machine \<Rightarrow> string \<Rightarrow> bool \<Rightarrow> bool res" where
  "suitableForKdump m kernelImage strict =
     res_bind (kernelTool m kernelImage) (\<lambda>kt.
       res_bind (if isKdumpKernel kernelImage then Inr True else kt_isRelocatable kt) (\<lambda>relocatable.
         if \<not> relocatable then Inr False
         else res_bind (kt_retrieveKernelConfig kt) (\<lambda>kconfig.
                if is_on kconfig ''CONFIG_X86_64_XEN'' \<or> is_on kconfig ''CONFIG_X86_XEN'' then Inr False
                else if strict \<and> \<not> strict_ok (getArch m) kconfig then Inr False
                else Inr True)))"

definition kernel_file :: "string \<Rightarrow> string \<Rightarrow> string" where
  "kernel_file kernelver imagename =
     (if kernelver = [] then appendPath BOOTDIR imagename
      else appendPath BOOTDIR (imagename @ ''-'' @ kernelver))"

definition findForVersion :: "machine \<Rightarrow> string \<Rightarrow> string" where
  "findForVersion m kernelver =
     (case filter (file_exists m) (map (kernel_file kernelver) (imageNames (getArch m))) of
        [] \<Rightarrow> [] | k # _ \<Rightarrow> k)"

definition with_flavour :: "string \<Rightarrow> string \<Rightarrow> string" where
  "with_flavour release flavour =
     (let elements = ksplit (CHR ''-'') release
      in join (CHR ''-'') (elements[length elements - 1 := flavour]))"

text \<open>The versions tried, with the strictness of the check, in the order of the function's body.\<close>

definition kernel_candidates :: "string \<Rightarrow> (string \<times> bool) list" where
  "kernel_candidates runningkernel =
     [(with_flavour runningkernel ''kdump'', True),
      (''kdump'', True),
      (runningkernel, True),
      (with_flavour runningkernel ''default'', True),
      ([], True),
      (runningkernel, False),
      (with_flavour runningkernel ''default'', False),
      ([], False)]"

fun try_candidates :: "machine \<Rightarrow> (string \<times> bool) list \<Rightarrow> string res" where
  "try_candidates m [] = Inr []"
| "try_candidates m ((testkernel, strict) # rest) =
     (let image = findForVersion m testkernel
      in if image = [] then try_candidates m rest
         else res_bind (suitableForKdump m image strict) (\<lambda>ok.
                if ok then Inr image else try_candidates m rest))"

definition findKernelAuto :: "machine \<Rightarrow> string res" where
  "findKernelAuto m = try_candidates m (kernel_candidates (getKernelRelease m))"

definition getPaths :: "machine \<Rightarrow> configuration \<Rightarrow> (string \<times> string) option res" where
  "getPaths m config =
     (let kernelver = config_string ''KDUMP_KERNELVER'' config;
          found = (\<lambda>kernelimage. Inr (Some (kernelimage,
            initrdPath (config_bool ''KDUMP_FADUMP'' config) (KernelPath (getArch m) kernelimage))))
      in if kernelver \<noteq> [] then
           let kernelimage = findForVersion m kernelver
           in if kernelimage = [] then Inr None
              else res_bind (suitableForKdump m kernelimage False) (\<lambda>ok.
                     if ok then found kernelimage else Inr None)
         else res_bind (findKernelAuto m) (\<lambda>kernelimage.
                if kernelimage = [] then Inr None else found kernelimage))"

text \<open>The output and the exit code.\<close>

definition find_kernel_execute :: "machine \<Rightarrow> configuration \<Rightarrow> (string \<times> int) res" where
  "find_kernel_execute m config =
     res_bind (getPaths m config) (\<lambda>r.
       case r of
         None \<Rightarrow> Inr ([], -1)
       | Some (kernelimage, initrd) \<Rightarrow>
           Inr (''Kernel:'' @ [TAB] @ kernelimage @ [NL] @ ''Initrd:'' @ [TAB] @ initrd @ [NL], 0))"

section \<open>What is found\<close>

lemma suitable_strict: "suitableForKdump m k True = Inr True \<Longrightarrow> suitableForKdump m k False = Inr True"
  by (auto simp: suitableForKdump_def res_bind_eq_Inr_iff split: if_splits)

lemma findForVersion_exists:
  assumes "findForVersion m ver = k" and "k \<noteq> []"
  shows "file_exists m k \<and> (\<exists>img \<in> set (imageNames (getArch m)). k = kernel_file ver img)"
proof -
  let ?l = "filter (file_exists m) (map (kernel_file ver) (imageNames (getArch m)))"
  from assms obtain ks where "?l = k # ks"
    by (auto simp: findForVersion_def split: list.splits)
  then have "k \<in> set ?l" by simp
  then show ?thesis by auto
qed

text \<open>The candidate taken is the first one with a suitable image, and is suitable.\<close>

definition rejected :: "machine \<Rightarrow> string \<times> bool \<Rightarrow> bool" where
  "rejected m c \<longleftrightarrow> findForVersion m (fst c) = [] \<or> suitableForKdump m (findForVersion m (fst c)) (snd c) = Inr False"

lemma try_candidates_first:
  "try_candidates m cs = Inr k \<Longrightarrow> k \<noteq> [] \<Longrightarrow>
   \<exists>pre ver strict post. cs = pre @ (ver, strict) # post \<and> list_all (rejected m) pre \<and>
     k = findForVersion m ver \<and> suitableForKdump m k strict = Inr True"
proof (induction cs)
  case Nil
  then show ?case by simp
next
  case (Cons c rest)
  obtain ver strict where c: "c = (ver, strict)" by fastforce
  let ?image = "findForVersion m ver"
  show ?case
  proof (cases "?image \<noteq> [] \<and> suitableForKdump m ?image strict = Inr True")
    case True
    then have "k = ?image" using Cons.prems(1) by (simp add: c)
    then show ?thesis
      using True c by (intro exI [of _ "[]"] exI [of _ ver] exI [of _ strict] exI [of _ rest]) simp
  next
    case False
    with Cons.prems(1) have r: "rejected m c" and t: "try_candidates m rest = Inr k"
      by (auto simp: c rejected_def Let_def res_bind_eq_Inr_iff split: if_splits)
    from Cons.IH [OF t Cons.prems(2)] obtain pre v s post where
        "rest = pre @ (v, s) # post" "list_all (rejected m) pre"
        "k = findForVersion m v" "suitableForKdump m k s = Inr True" by blast
    then show ?thesis
      using r by (intro exI [of _ "c # pre"] exI [of _ v] exI [of _ s] exI [of _ post]) simp
  qed
qed

lemma try_candidates_none: "try_candidates m cs = Inr [] \<Longrightarrow> list_all (rejected m) cs"
proof (induction m cs rule: try_candidates.induct)
  case (2 m ver strict rest)
  then show ?case
    by (auto simp: rejected_def Let_def res_bind_eq_Inr_iff split: if_splits)
qed simp

section \<open>Kernel and initrd names\<close>

lemma imageNames_plain:
  "img \<in> set (imageNames arch) \<Longrightarrow> img \<noteq> [] \<and> SLASH \<notin> set img \<and> CHR ''-'' \<notin> set img"
  by (auto simp: imageNames_def SLASH_def split: if_splits)

lemma split_image_Cons:
  "split_image (pfx # pfxs) (pfx @ CHR ''-'' # ver) = (pfx, ver)"
  "split_image (pfx # pfxs) pfx = (pfx, [])"
  "\<not> prefix pfx m_name \<Longrightarrow> split_image (pfx # pfxs) m_name = split_image pfxs m_name"
  by (simp_all add: startsWith_iff_prefix c_at_def nth_append)

lemma imageNames_cases:
  "imageNames arch \<in> {[''vmlinuz'', ''vmlinux''], [''vmlinuz''], [''image''], [''Image''], [''vmlinux'']}"
  by (simp add: imageNames_def)

lemma split_image_version:
  assumes "img \<in> set (imageNames arch)"
  shows "split_image (imageNames arch) (img @ CHR ''-'' # ver) = (img, ver) \<and>
    split_image (imageNames arch) img = (img, [])"
proof -
  have "\<not> prefix ''vmlinuz'' (''vmlinux'' @ r)" for r by simp
  from this [of "CHR ''-'' # ver"] this [of "[]"]
  have x: "split_image [''vmlinuz'', ''vmlinux''] (''vmlinux'' @ CHR ''-'' # ver) = (''vmlinux'', ver)"
    "split_image [''vmlinuz'', ''vmlinux''] ''vmlinux'' = (''vmlinux'', [])"
    by (simp_all only: split_image_Cons append_Nil2 not_False_eq_True)
  consider "imageNames arch = [''vmlinuz'', ''vmlinux'']" | "imageNames arch = [img]"
    using imageNames_cases [of arch] assms by (elim insertE emptyE) simp_all
  then show ?thesis
  proof cases
    case 1
    then have "img = ''vmlinuz'' \<or> img = ''vmlinux''" using assms by simp
    then show ?thesis using x split_image_Cons(1,2) 1 by (elim disjE) (simp_all only:)
  next
    case 2
    show ?thesis unfolding 2 using split_image_Cons(1,2) by simp
  qed
qed

text \<open>The image of a version is taken apart into the boot directory, the image name and the version.\<close>

lemma KernelPath_kernel_file:
  assumes "img \<in> set (imageNames arch)" and "SLASH \<notin> set ver"
  shows "KernelPath arch (kernel_file ver img) = \<lparr>kp_directory = BOOTDIR, kp_image = img, kp_version = ver\<rparr>"
proof -
  let ?f = "if ver = [] then img else img @ CHR ''-'' # ver"
  have f: "?f \<noteq> []" "SLASH \<notin> set ?f"
    using imageNames_plain [OF assms(1)] assms(2) by (auto simp: SLASH_def)
  have k: "kernel_file ver img = appendPath BOOTDIR ?f"
    by (simp add: kernel_file_def)
  have r: "rtrim PATH_SEPARATOR BOOTDIR = BOOTDIR"
    by (rule rtrim_id) (simp add: BOOTDIR_def PATH_SEPARATOR_def SLASH_def)
  have "dirName (kernel_file ver img) = BOOTDIR"
    unfolding k using dirName_appendPath [OF f, of BOOTDIR] r by (simp add: BOOTDIR_def)
  moreover have "baseName (kernel_file ver img) = ?f"
    unfolding k by (rule baseName_appendPath [OF f])
  moreover have "split_image (imageNames arch) ?f = (img, ver)"
    using split_image_version [OF assms(1)] by simp
  ultimately show ?thesis by (simp add: KernelPath_def)
qed

lemma initrdPath_kernel_file:
  assumes "img \<in> set (imageNames arch)" and "SLASH \<notin> set ver" and "ver \<noteq> []"
  shows "initrdPath False (KernelPath arch (kernel_file ver img)) =
    ''/boot/initrd-'' @ ver @ (if suffix ''kdump'' ver then [] else ''-kdump'')"
proof -
  have "appendPath BOOTDIR ''initrd'' = ''/boot/initrd''"
    by code_simp
  then show ?thesis
    using assms by (simp add: KernelPath_kernel_file initrdPath_def isKdump_def endsWith_iff_suffix Let_def)
qed

section \<open>The result of find_kernel\<close>

lemma suitableForKdump_facts:
  assumes "suitableForKdump m k strict = Inr True"
  obtains kt kconfig where "kernelTool m k = Inr kt" and "kt_retrieveKernelConfig kt = Inr kconfig"
    and "suffix ''kdump'' k \<or> kt_isRelocatable kt = Inr True"
    and "kconfig_get ''CONFIG_X86_64_XEN'' kconfig \<noteq> T_TRISTATE ON" and "kconfig_get ''CONFIG_X86_XEN'' kconfig \<noteq> T_TRISTATE ON"
    and "strict \<Longrightarrow> strict_ok (getArch m) kconfig"
  using assms
  by (auto simp: suitableForKdump_def isKdumpKernel_def is_on_def endsWith_iff_suffix res_bind_eq_Inr_iff split: if_splits)

lemma kernel_file_text:
  assumes "img \<in> set (imageNames arch)"
  shows "kernel_file ver img = ''/boot/'' @ img @ (if ver = [] then [] else ''-'' @ ver)"
proof -
  obtain c cs where c: "img = c # cs" "c \<noteq> SLASH"
    using imageNames_plain [OF assms] by (cases img) auto
  have "appendPath BOOTDIR (c # x) = ''/boot/'' @ c # x" for x
    using c(2) by (simp add: appendPath_eq ltrim_dropWhile rtrim_dropWhile BOOTDIR_def PATH_SEPARATOR_def SLASH_def)
  then show ?thesis by (simp add: kernel_file_def c(1))
qed

lemma initrdPath_text:
  assumes "img \<in> set (imageNames arch)" and "SLASH \<notin> set ver"
  shows "initrdPath fadump (KernelPath arch (kernel_file ver img)) =
    ''/boot/initrd'' @ (if ver = [] then [] else ''-'' @ ver) @ (if fadump \<or> suffix ''kdump'' ver then [] else ''-kdump'')"
proof -
  have "appendPath BOOTDIR ''initrd'' = ''/boot/initrd''"
    by code_simp
  then show ?thesis
    using assms by (simp add: KernelPath_kernel_file initrdPath_def isKdump_def endsWith_iff_suffix Let_def)
qed

lemma getPaths_version:
  assumes "getPaths m config = Inr (Some (k, initrd))"
  obtains ver strict where "k = findForVersion m ver" and "k \<noteq> []" and "suitableForKdump m k strict = Inr True"
    and "ver \<in> (if config_string ''KDUMP_KERNELVER'' config \<noteq> [] then {config_string ''KDUMP_KERNELVER'' config}
        else fst ` set (kernel_candidates (getKernelRelease m)))"
    and "initrd = initrdPath (config_bool ''KDUMP_FADUMP'' config) (KernelPath (getArch m) k)"
proof (cases "config_string ''KDUMP_KERNELVER'' config = []")
  case True
  then have f: "findKernelAuto m = Inr k" "k \<noteq> []"
    and i: "initrd = initrdPath (config_bool ''KDUMP_FADUMP'' config) (KernelPath (getArch m) k)"
    using assms by (auto simp: getPaths_def Let_def res_bind_eq_Inr_iff split: if_splits)
  obtain pre ver strict post where "k = findForVersion m ver" "suitableForKdump m k strict = Inr True"
    and c: "kernel_candidates (getKernelRelease m) = pre @ (ver, strict) # post"
    using try_candidates_first [OF f(1) [unfolded findKernelAuto_def] f(2)] by blast
  moreover have "ver \<in> fst ` set (kernel_candidates (getKernelRelease m))" unfolding c by simp
  ultimately show ?thesis using that f(2) i True by simp
next
  case False
  then show ?thesis
    using assms that [of "config_string ''KDUMP_KERNELVER'' config" False]
    by (auto simp: getPaths_def Let_def res_bind_eq_Inr_iff split: if_splits)
qed

lemma getPaths_suitable:
  assumes "getPaths m config = Inr (Some (k, initrd))"
  shows "\<exists>ver img kt kconfig.
    ver \<in> (if config_string ''KDUMP_KERNELVER'' config \<noteq> [] then {config_string ''KDUMP_KERNELVER'' config}
      else fst ` set (kernel_candidates (getKernelRelease m))) \<and>
    img \<in> set (imageNames (getArch m)) \<and> k = ''/boot/'' @ img @ (if ver = [] then [] else ''-'' @ ver) \<and> file_exists m k \<and>
    kernelTool m k = Inr kt \<and> (suffix ''kdump'' k \<or> kt_isRelocatable kt = Inr True) \<and>
    kt_retrieveKernelConfig kt = Inr kconfig \<and>
    kconfig_get ''CONFIG_X86_64_XEN'' kconfig \<noteq> T_TRISTATE ON \<and> kconfig_get ''CONFIG_X86_XEN'' kconfig \<noteq> T_TRISTATE ON \<and>
    (SLASH \<notin> set ver \<longrightarrow> initrd = ''/boot/initrd'' @ (if ver = [] then [] else ''-'' @ ver) @
      (if config_bool ''KDUMP_FADUMP'' config \<or> suffix ''kdump'' ver then [] else ''-kdump''))"
proof -
  obtain ver strict where v: "k = findForVersion m ver" "k \<noteq> []" "suitableForKdump m k strict = Inr True"
      "ver \<in> (if config_string ''KDUMP_KERNELVER'' config \<noteq> [] then {config_string ''KDUMP_KERNELVER'' config}
        else fst ` set (kernel_candidates (getKernelRelease m)))"
    and i: "initrd = initrdPath (config_bool ''KDUMP_FADUMP'' config) (KernelPath (getArch m) k)"
    by (rule getPaths_version [OF assms])
  obtain img where img: "file_exists m k" "img \<in> set (imageNames (getArch m))" "k = kernel_file ver img"
    using findForVersion_exists [OF v(1) [symmetric] v(2)] by blast
  obtain kt kconfig where "kernelTool m k = Inr kt" "kt_retrieveKernelConfig kt = Inr kconfig"
    "suffix ''kdump'' k \<or> kt_isRelocatable kt = Inr True"
    "kconfig_get ''CONFIG_X86_64_XEN'' kconfig \<noteq> T_TRISTATE ON" "kconfig_get ''CONFIG_X86_XEN'' kconfig \<noteq> T_TRISTATE ON"
    by (rule suitableForKdump_facts [OF v(3)])
  moreover have "k = ''/boot/'' @ img @ (if ver = [] then [] else ''-'' @ ver)"
    using kernel_file_text [OF img(2)] img(3) by simp
  moreover have "SLASH \<notin> set ver \<longrightarrow> initrd = ''/boot/initrd'' @ (if ver = [] then [] else ''-'' @ ver) @
      (if config_bool ''KDUMP_FADUMP'' config \<or> suffix ''kdump'' ver then [] else ''-kdump'')"
    using initrdPath_text [OF img(2)] i img(3) by simp
  ultimately show ?thesis using v(4) img(1,2) by blast
qed

end
