(* ===== verification/Vmcoreinfo.thy ===== *)
theory Vmcoreinfo
  imports FilePath StateExn
begin

text \<open>
  \<^verbatim>\<open>kdumptool/vmcoreinfo.cc\<close> and \<^verbatim>\<open>read_vmcoreinfo.cc\<close>: the search for the VMCOREINFO note in the notes of an
  ELF core, the map built of its lines, and the values read from it. The notes are read with the
  byte order of the host, which is little-endian here. \<^verbatim>\<open>libelf\<close> is a parameter.
\<close>

unbundle bit_operations_syntax

record vmcoreinfo =
  m_map :: "(string \<times> string) list"
  m_xenVmcoreinfo :: bool

definition Vmcoreinfo :: vmcoreinfo where
  "Vmcoreinfo = \<lparr>m_map = [], m_xenVmcoreinfo = False\<rparr>"

section \<open>The notes\<close>

definition VMCOREINFO_NOTE_NAME :: string where
  "VMCOREINFO_NOTE_NAME = ''VMCOREINFO''"

definition VMCOREINFO_XEN_NOTE_NAME :: string where
  "VMCOREINFO_XEN_NOTE_NAME = ''VMCOREINFO_XEN''"

text \<open>
  Memory behind the end of the buffer is not the program's: reading it is undefined. A 32-bit field
  is read at an offset; \<open>strncmp_eq\<close> is \<^verbatim>\<open>!strncmp(s, mem, sizeof(s))\<close> for a literal \<open>s\<close>, which stops at the first
  difference.
\<close>

definition read_word :: "string \<Rightarrow> nat \<Rightarrow> 32 word res" where
  "read_word buffer off =
     (if off + 4 \<le> length buffer then Inr (of_nat (le_nat (take 4 (drop off buffer))))
      else Inl (Undefined ''note header past the end of the buffer''))"

fun mem_eq :: "string \<Rightarrow> string \<Rightarrow> bool res" where
  "mem_eq [] mem = Inr True"
| "mem_eq (c # cs) [] = Inl (Undefined ''note name past the end of the buffer'')"
| "mem_eq (c # cs) (d # ds) = (if c = d then mem_eq cs ds else Inr False)"

definition strncmp_eq :: "string \<Rightarrow> string \<Rightarrow> nat \<Rightarrow> bool res" where
  "strncmp_eq s buffer off = mem_eq (s @ [NUL]) (drop off buffer)"

text \<open>\<^verbatim>\<open>(n + 3) & ~3\<close> on 32-bit values; both header types have three 32-bit fields.\<close>

definition align4 :: "32 word \<Rightarrow> 32 word" where
  "align4 n = (n + 3) AND NOT 3"

definition sizeof_Nhdr :: nat where
  "sizeof_Nhdr = 12"

text \<open>
  The loop over the notes: offset and size of the descriptor found so far, and whether a Xen note
  was seen. The offset stays below the size of the buffer, far from the limits of \<^verbatim>\<open>loff_t\<close>.
\<close>

function notes_loop :: "string \<Rightarrow> nat \<Rightarrow> nat \<Rightarrow> nat \<Rightarrow> bool \<Rightarrow> (nat \<times> nat) res \<times> bool" where
  "notes_loop buffer offset off_v size_v xen =
     (if offset < length buffer
      then (case res_bind (strncmp_eq VMCOREINFO_XEN_NOTE_NAME buffer (offset + sizeof_Nhdr)) (\<lambda>is_xen.
                  res_bind (strncmp_eq VMCOREINFO_NOTE_NAME buffer (offset + sizeof_Nhdr)) (\<lambda>is_vm.
                    res_bind (read_word buffer offset) (\<lambda>namesz.
                      res_bind (read_word buffer (offset + 4)) (\<lambda>descsz.
                        Inr (is_xen, is_vm, namesz, descsz))))) of
              Inl e \<Rightarrow> (Inl e, xen)
            | Inr (is_xen, is_vm, namesz, descsz) \<Rightarrow>
                (let found = (offset + (sizeof_Nhdr + unat (align4 namesz)), unat descsz);
                     next = offset + (sizeof_Nhdr + unat (align4 namesz) + unat (align4 descsz))
                 in if is_xen then notes_loop buffer next (fst found) (snd found) True
                    else if is_vm then (Inr found, xen)
                    else notes_loop buffer next off_v size_v xen))
      else (Inr (off_v, size_v), xen))"
  by pat_completeness auto
termination
  by (relation "measure (\<lambda>(buffer, offset, _). length buffer - offset)")
    (auto simp: sizeof_Nhdr_def)

declare notes_loop.simps [simp del]

definition readVmcoreinfoFromNotes :: "string \<Rightarrow> (vmcoreinfo, string) sx" where
  "readVmcoreinfoFromNotes buffer vm =
     (case notes_loop buffer 0 0 0 (m_xenVmcoreinfo vm) of
        (Inl e, xen) \<Rightarrow> (Inl e, vm\<lparr>m_xenVmcoreinfo := xen\<rparr>)
      | (Inr (off_v, size_v), xen) \<Rightarrow>
          (if off_v = 0 \<and> size_v = 0 then Inl (KError ''VMCOREINFO not found.'')
           else if off_v + size_v \<le> length buffer then Inr (take size_v (drop off_v buffer))
           else Inl (Undefined ''note descriptor past the end of the buffer''),
           vm\<lparr>m_xenVmcoreinfo := xen\<rparr>))"

section \<open>The ELF file\<close>

definition ELF_HEADER_MAPSIZE :: nat where
  "ELF_HEADER_MAPSIZE = 100 * 1024"

text \<open>
  Copying the header when it cannot be mapped: \<open>reads\<close> are the results of \<^verbatim>\<open>read\<close>, an exhausted list an end of
  file. A failing \<^verbatim>\<open>read\<close> returns -1, which is added to the counter as a \<^verbatim>\<open>size_t\<close>: the
  position moves back by one, or, at the beginning, the loop ends with nothing copied.
\<close>

fun copy_header :: "nat \<Rightarrow> (errno + string) list \<Rightarrow> string \<Rightarrow> string res" where
  "copy_header mapsize [] copy =
     (if length copy < mapsize then Inl (KSystemError ''Error when reading from dump.'' (EOTHER 0))
      else Inr copy)"
| "copy_header mapsize (r # reads) copy =
     (if length copy < mapsize
      then (case r of
              Inl e \<Rightarrow>
                if copy = [] then Inl (Undefined ''header never read'')
                else copy_header mapsize reads (butlast copy)
            | Inr bytes \<Rightarrow>
                if bytes = [] then Inl (KSystemError ''Error when reading from dump.'' (EOTHER 0))
                else copy_header mapsize reads
                       (copy @ take (min BUFSIZ (mapsize - length copy)) bytes))
      else Inr copy)"

record elf_phdr =
  p_type :: nat
  p_offset :: nat
  p_filesz :: nat

definition PT_NOTE :: nat where "PT_NOTE = 4"
definition ELFCLASSNONE :: nat where "ELFCLASSNONE = 0"

text \<open>
  What \<^verbatim>\<open>libelf\<close> says of the header: its kind, its class, and the program headers, of which reading each may fail.
\<close>

record elf_object =
  el_is_elf :: bool
  el_class :: nat
  el_phdrs :: "nat + (nat + elf_phdr) list"

record dump_file =
  df_open :: "errno option"
  df_mmap :: "string option"
  df_reads :: "(errno + string) list"
  df_lseek :: "nat \<Rightarrow> errno option"
  df_read_at :: "nat \<Rightarrow> nat \<Rightarrow> errno + string"

fun find_note :: "(nat + elf_phdr) list \<Rightarrow> (nat \<times> nat) res" where
  "find_note [] = Inr (0, 0)"
| "find_note (Inl e # phdrs) = Inl (KELFError ''getphdr() failed.'' e)"
| "find_note (Inr phdr # phdrs) =
     (if p_type phdr = PT_NOTE then Inr (p_offset phdr, p_filesz phdr) else find_note phdrs)"

definition elf_header :: "dump_file \<Rightarrow> string res" where
  "elf_header f =
     (case df_mmap f of
        Some header \<Rightarrow> Inr header
      | None \<Rightarrow> copy_header ELF_HEADER_MAPSIZE (df_reads f) [])"

definition note_segment :: "(string \<Rightarrow> elf_object option) \<Rightarrow> string \<Rightarrow> dump_file \<Rightarrow> string res" where
  "note_segment elf_memory path f =
     (case df_open f of
        Some e \<Rightarrow> Inl (KSystemError (''Cannot open '' @ path) e)
      | None \<Rightarrow>
          res_bind (elf_header f) (\<lambda>header.
            case elf_memory header of
              None \<Rightarrow> Inl (KError ''Vmcoreinfo: elf_begin() failed.'')
            | Some elf \<Rightarrow>
                if \<not> el_is_elf elf then Inl (KError (path @ '' is no ELF object.''))
                else if el_class elf = ELFCLASSNONE then Inl (KError ''Vmcoreinfo: Invalid ELF class.'')
                else (case el_phdrs elf of
                        Inl e \<Rightarrow> Inl (KELFError ''elf_getphdrnum() failed.'' e)
                      | Inr phdrs \<Rightarrow>
                          res_bind (find_note phdrs) (\<lambda>(offset, size).
                            if offset = 0 \<and> size = 0
                            then Inl (KError (path @ '' contains no PT_NOTE segment.''))
                            else (case df_lseek f offset of
                                    Some e \<Rightarrow> Inl (KSystemError ''Vmcoreinfo: lseek() failed.'' e)
                                  | None \<Rightarrow>
                                      (let failed = (\<lambda>e. Inl (KSystemError (''Vmcoreinfo: Unable to read '' @
                                                 number2string (int size) @ '' bytes.'') e))
                                       in case df_read_at f offset size of
                                            Inl e \<Rightarrow> failed e
                                          | Inr bytes \<Rightarrow>
                                              if length bytes \<noteq> size then failed (EOTHER 0)
                                              else Inr bytes))))))"

definition readElfNote ::
    "(string \<Rightarrow> elf_object option) \<Rightarrow> (string \<Rightarrow> dump_file) \<Rightarrow> string \<Rightarrow> (vmcoreinfo, string) sx" where
  "readElfNote elf_memory dumps path =
     sx_bind (sx_lift (note_segment elf_memory path (dumps path))) readVmcoreinfoFromNotes"

section \<open>The map\<close>

definition vmcoreinfo_line :: "string \<Rightarrow> vmcoreinfo \<Rightarrow> vmcoreinfo" where
  "vmcoreinfo_line l vm =
     (let line = trim trim_default l
      in if line = [] \<or> c_at line 0 = NUL then vm
         else (case find_char (CHR ''='') line of
                 None \<Rightarrow> vm
               | Some equal \<Rightarrow>
                   vm\<lparr>m_map := smap_insert (substr line 0 equal) (drop (equal + 1) line) (m_map vm)\<rparr>))"

definition readFromELF ::
    "(string \<Rightarrow> elf_object option) \<Rightarrow> (string \<Rightarrow> dump_file) \<Rightarrow> string \<Rightarrow> (vmcoreinfo, unit) sx" where
  "readFromELF elf_memory dumps path =
     sx_bind (readElfNote elf_memory dumps path) (\<lambda>note vm.
       (Inr (), fold vmcoreinfo_line (ksplit NL note) vm))"

definition vm_getStringValue :: "string \<Rightarrow> vmcoreinfo \<Rightarrow> string res" where
  "vm_getStringValue key vm =
     (case map_of (m_map vm) key of
        None \<Rightarrow> Inl (KError (''Vmcoreinfo: key '' @ key @ '' not found.''))
      | Some v \<Rightarrow> Inr v)"

definition vm_getIntValue :: "string \<Rightarrow> vmcoreinfo \<Rightarrow> int res" where
  "vm_getIntValue key vm = res_bind (vm_getStringValue key vm) asInt"

text \<open>The function is declared to return \<^verbatim>\<open>int\<close>: the upper half of the value is lost.\<close>

definition getLLongValue :: "string \<Rightarrow> vmcoreinfo \<Rightarrow> 32 word res" where
  "getLLongValue key vm = res_bind (vm_getStringValue key vm) (\<lambda>s.
     res_bind (asLongLong s) (\<lambda>v. Inr (ucast (word_of_int v :: 64 word))))"

definition getKeys :: "vmcoreinfo \<Rightarrow> string list" where
  "getKeys vm = map fst (m_map vm)"

definition isXenVmcoreinfo :: "vmcoreinfo \<Rightarrow> bool" where
  "isXenVmcoreinfo vm = m_xenVmcoreinfo vm"

section \<open>The read_vmcoreinfo subcommand\<close>

definition ReadVmcoreinfo_parseArgs :: "string list \<Rightarrow> string \<Rightarrow> string" where
  "ReadVmcoreinfo_parseArgs args option = (if length args = 1 then args ! 0 else option)"

fun print_values :: "vmcoreinfo \<Rightarrow> string list \<Rightarrow> string \<times> unit res" where
  "print_values vm [] = ([], Inr ())"
| "print_values vm (key # keys) =
     (case vm_getStringValue key vm of
        Inl e \<Rightarrow> (key @ ''='', Inl e)
      | Inr v \<Rightarrow> (case print_values vm keys of (out, r) \<Rightarrow> (key @ ''='' @ v @ [NL] @ out, r)))"

definition ReadVmcoreinfo_execute ::
    "(string \<Rightarrow> elf_object option) \<Rightarrow> (string \<Rightarrow> dump_file) \<Rightarrow> string \<Rightarrow> string \<Rightarrow> string \<times> unit res" where
  "ReadVmcoreinfo_execute elf_memory dumps file_name option =
     (case readFromELF elf_memory dumps file_name Vmcoreinfo of
        (Inl e, vm) \<Rightarrow> ([], Inl e)
      | (Inr _, vm) \<Rightarrow>
          if option \<noteq> [] then
            (case vm_getStringValue option vm of
               Inl e \<Rightarrow> ([], Inl e)
             | Inr v \<Rightarrow> (v @ [NL], Inr ()))
          else print_values vm (getKeys vm))"

section \<open>Notes found\<close>

record elf_note =
  n_name :: string
  n_type :: nat
  n_desc :: string

definition pad4 :: "string \<Rightarrow> string" where
  "pad4 s = s @ replicate (4 * ((length s + 3) div 4) - length s) NUL"

definition encode_note :: "elf_note \<Rightarrow> string" where
  "encode_note n =
     le_bytes 4 (length (n_name n) + 1) @ le_bytes 4 (length (n_desc n)) @ le_bytes 4 (n_type n) @
     pad4 (n_name n @ [NUL]) @ pad4 (n_desc n)"

definition note_ok :: "elf_note \<Rightarrow> bool" where
  "note_ok n \<longleftrightarrow> NUL \<notin> set (n_name n) \<and> length (n_name n) + 4 < 2 ^ 32 \<and> length (n_desc n) + 3 < 2 ^ 32"

text \<open>The first VMCOREINFO note, or without one the last VMCOREINFO_XEN note.\<close>

definition vmcoreinfo_note :: "elf_note list \<Rightarrow> string option" where
  "vmcoreinfo_note ns =
     (case find (\<lambda>n. n_name n = VMCOREINFO_NOTE_NAME) ns of
        Some n \<Rightarrow> Some (n_desc n)
      | None \<Rightarrow>
          (case filter (\<lambda>n. n_name n = VMCOREINFO_XEN_NOTE_NAME) ns of
             [] \<Rightarrow> None | xs \<Rightarrow> Some (n_desc (last xs))))"

definition xen_note_seen :: "elf_note list \<Rightarrow> bool" where
  "xen_note_seen ns \<longleftrightarrow>
     list_ex (\<lambda>n. n_name n = VMCOREINFO_XEN_NOTE_NAME) (takeWhile (\<lambda>n. n_name n \<noteq> VMCOREINFO_NOTE_NAME) ns)"

lemma length_pad4: "length (pad4 s) = 4 * ((length s + 3) div 4)"
  by (simp add: pad4_def)

lemma length_encode_note:
  "length (encode_note n) = 12 + length (pad4 (n_name n @ [NUL])) + length (pad4 (n_desc n))"
  by (simp add: encode_note_def)

lemma align4_and: "align4 n = push_bit 2 (drop_bit 2 (n + 3))"
proof -
  have m: "(3 :: 32 word) = mask 2" by (simp add: mask_eq_exp_minus_1)
  have "align4 n = (n + 3) AND NOT (mask 2)" unfolding align4_def by (simp only: m)
  also have "\<dots> = push_bit 2 (drop_bit 2 (n + 3))"
    by (intro bit_word_eqI) (auto simp: bit_simps not_less dest!: le_Suc_ex)
  finally show ?thesis .
qed

lemma unat_align4:
  assumes "n + 3 < 2 ^ 32"
  shows "unat (align4 (of_nat n)) = 4 * ((n + 3) div 4)"
proof -
  have "(of_nat n :: 32 word) + 3 = of_nat (n + 3)" by simp
  then have u: "unat ((of_nat n :: 32 word) + 3) = n + 3"
    using assms by (simp only: unat_of_nat take_bit_nat_eq_self_iff) (simp add: take_bit_nat_eq_self)
  have "(n + 3) div 4 * 4 \<le> n + 3" by simp
  then have "(n + 3) div 4 * 4 < 2 ^ 32" using assms by linarith
  then show ?thesis
    unfolding align4_and unsigned_push_bit_eq unsigned_drop_bit_eq u
    using assms by (simp add: take_bit_nat_eq_self push_bit_eq_mult drop_bit_eq_div mult.commute)
qed

lemma read_word_at:
  "length bs = 4 \<Longrightarrow> read_word (pre @ bs @ post) (length pre) = Inr (of_nat (le_nat bs))"
  by (simp add: read_word_def)

lemma mem_eq_name: "NUL \<notin> set s \<Longrightarrow> NUL \<notin> set name \<Longrightarrow> mem_eq (s @ [NUL]) (name @ NUL # post) = Inr (name = s)"
proof (induction s arbitrary: name)
  case Nil
  then show ?case by (cases name) auto
next
  case (Cons c s)
  then show ?case by (cases name) auto
qed

text \<open>The loop on a list of notes, and what its result stands for.\<close>

fun note_scan :: "elf_note list \<Rightarrow> string option \<Rightarrow> bool \<Rightarrow> string option \<times> bool" where
  "note_scan [] d x = (d, x)"
| "note_scan (n # ns) d x =
     (if n_name n = VMCOREINFO_XEN_NOTE_NAME then note_scan ns (Some (n_desc n)) True
      else if n_name n = VMCOREINFO_NOTE_NAME then (Some (n_desc n), x)
      else note_scan ns d x)"

fun located :: "string \<Rightarrow> nat \<times> nat \<Rightarrow> string option \<Rightarrow> bool" where
  "located buffer (off, sz) None \<longleftrightarrow> off = 0 \<and> sz = 0"
| "located buffer (off, sz) (Some d) \<longleftrightarrow>
     off \<noteq> 0 \<and> off + sz \<le> length buffer \<and> take sz (drop off buffer) = d"

lemma names_differ: "VMCOREINFO_XEN_NOTE_NAME \<noteq> VMCOREINFO_NOTE_NAME"
  by (simp add: VMCOREINFO_XEN_NOTE_NAME_def VMCOREINFO_NOTE_NAME_def)

lemma names_clean:
  "NUL \<notin> set VMCOREINFO_XEN_NOTE_NAME" "NUL \<notin> set VMCOREINFO_NOTE_NAME"
  by (simp_all add: VMCOREINFO_XEN_NOTE_NAME_def VMCOREINFO_NOTE_NAME_def NUL_def)

lemma strncmp_eq_note:
  assumes "NUL \<notin> set s" and "note_ok n"
  shows "strncmp_eq s (pre @ encode_note n @ post) (length pre + sizeof_Nhdr) = Inr (n_name n = s)"
proof -
  have "drop (length pre + sizeof_Nhdr) (pre @ encode_note n @ post) =
      n_name n @ NUL # (drop (length (n_name n) + 1) (pad4 (n_name n @ [NUL])) @ pad4 (n_desc n) @ post)"
    by (simp add: encode_note_def sizeof_Nhdr_def pad4_def)
  with mem_eq_name [OF assms(1)] assms(2) show ?thesis
    by (simp add: strncmp_eq_def note_ok_def)
qed

lemma read_words_note:
  assumes "note_ok n"
  shows "read_word (pre @ encode_note n @ post) (length pre) = Inr (of_nat (length (n_name n) + 1))"
    and "read_word (pre @ encode_note n @ post) (length pre + 4) = Inr (of_nat (length (n_desc n)))"
proof -
  have v: "length (n_name n) + 1 < 256 ^ 4" "length (n_desc n) < 256 ^ 4"
    using assms by (simp_all add: note_ok_def)
  show "read_word (pre @ encode_note n @ post) (length pre) = Inr (of_nat (length (n_name n) + 1))"
    using read_word_at [of "le_bytes 4 (length (n_name n) + 1)" pre] le_nat_bytes [OF v(1)]
    by (simp add: encode_note_def del: of_nat_Suc)
  show "read_word (pre @ encode_note n @ post) (length pre + 4) = Inr (of_nat (length (n_desc n)))"
    using read_word_at [of "le_bytes 4 (length (n_desc n))" "pre @ le_bytes 4 (length (n_name n) + 1)"]
      le_nat_bytes [OF v(2)]
    by (simp add: encode_note_def)
qed

lemma notes_loop_note:
  assumes "note_ok n"
  shows "notes_loop (pre @ encode_note n @ post) (length pre) off_v size_v xen =
    (let found = (length pre + 12 + length (pad4 (n_name n @ [NUL])), length (n_desc n));
         next = length (pre @ encode_note n)
     in if n_name n = VMCOREINFO_XEN_NOTE_NAME
        then notes_loop (pre @ encode_note n @ post) next (fst found) (snd found) True
        else if n_name n = VMCOREINFO_NOTE_NAME then (Inr found, xen)
        else notes_loop (pre @ encode_note n @ post) next off_v size_v xen)"
proof -
  have a: "unat (align4 (of_nat (length (n_name n) + 1))) = length (pad4 (n_name n @ [NUL]))"
      "unat (align4 (of_nat (length (n_desc n)))) = length (pad4 (n_desc n))"
      "unat (of_nat (length (n_desc n)) :: 32 word) = length (n_desc n)"
    using assms unat_align4 [of "length (n_name n) + 1"] unat_align4 [of "length (n_desc n)"]
    by (simp_all add: note_ok_def length_pad4 take_bit_nat_eq_self unsigned_of_nat)
  have pos: "length pre < length (pre @ encode_note n @ post)" by (simp add: length_encode_note)
  show ?thesis
    by (subst notes_loop.simps)
      (simp only: strncmp_eq_note [OF names_clean(1) assms] strncmp_eq_note [OF names_clean(2) assms]
        read_words_note [OF assms] res_bind_simps sum.case prod.case a pos,
       simp add: length_encode_note sizeof_Nhdr_def add.assoc Let_def)
qed

lemma located_note:
  assumes "note_ok n"
  shows "located (pre @ encode_note n @ post)
    (length pre + 12 + length (pad4 (n_name n @ [NUL])), length (n_desc n)) (Some (n_desc n))"
  by (simp add: encode_note_def length_pad4) (simp add: pad4_def)

lemma notes_loop_scan:
  assumes "\<forall>n \<in> set ns. note_ok n" and "located (pre @ concat (map encode_note ns)) (off_v, size_v) d"
  shows "\<exists>r. notes_loop (pre @ concat (map encode_note ns)) (length pre) off_v size_v xen =
      (Inr r, snd (note_scan ns d xen)) \<and>
    located (pre @ concat (map encode_note ns)) r (fst (note_scan ns d xen))"
  using assms
proof (induction ns arbitrary: pre off_v size_v d xen)
  case Nil
  then show ?case by (subst notes_loop.simps) simp
next
  case (Cons n ns)
  let ?post = "concat (map encode_note ns)"
  have ok: "note_ok n" and oks: "\<forall>n \<in> set ns. note_ok n" using Cons.prems by auto
  note loop = notes_loop_note [OF ok, of pre ?post off_v size_v xen]
  note loc = located_note [OF ok, of pre ?post]
  note IH = Cons.IH [of "pre @ encode_note n", OF oks]
  show ?case
  proof (cases "n_name n = VMCOREINFO_XEN_NOTE_NAME \<or> n_name n \<noteq> VMCOREINFO_NOTE_NAME")
    case True
    then show ?thesis
      using loop loc Cons.prems(2) names_differ
        IH [of "length pre + 12 + length (pad4 (n_name n @ [NUL]))" "length (n_desc n)" "Some (n_desc n)" True]
        IH [of off_v size_v d xen]
      by (auto simp: Let_def)
  next
    case False
    then show ?thesis using loop loc by (auto simp: Let_def)
  qed
qed

lemma note_scan_fst:
  "fst (note_scan ns d xen) = (case vmcoreinfo_note ns of None \<Rightarrow> d | Some s \<Rightarrow> Some s)"
  by (induction ns arbitrary: d xen)
    (auto simp: vmcoreinfo_note_def names_differ names_differ [symmetric] split: option.splits list.splits)

lemma note_scan_snd: "snd (note_scan ns d xen) = (xen \<or> xen_note_seen ns)"
  by (induction ns arbitrary: d xen)
    (auto simp: xen_note_seen_def names_differ names_differ [symmetric])

lemma readVmcoreinfoFromNotes_notes:
  assumes "\<forall>n \<in> set ns. note_ok n"
  shows "readVmcoreinfoFromNotes (concat (map encode_note ns)) vm =
    (case vmcoreinfo_note ns of None \<Rightarrow> Inl (KError ''VMCOREINFO not found.'') | Some d \<Rightarrow> Inr d,
     vm\<lparr>m_xenVmcoreinfo := m_xenVmcoreinfo vm \<or> xen_note_seen ns\<rparr>)"
proof -
  obtain r where r: "notes_loop (concat (map encode_note ns)) 0 0 0 (m_xenVmcoreinfo vm) =
      (Inr r, m_xenVmcoreinfo vm \<or> xen_note_seen ns)"
    and l: "located (concat (map encode_note ns)) r (vmcoreinfo_note ns)"
    using notes_loop_scan [OF assms, of "[]" 0 0 None "m_xenVmcoreinfo vm"]
    by (auto simp: note_scan_fst note_scan_snd split: option.splits)
  show ?thesis
    using l by (cases r) (auto simp: readVmcoreinfoFromNotes_def r split: option.splits)
qed

section \<open>Values read back\<close>

definition info_line :: "string \<times> string \<Rightarrow> string" where
  "info_line kv = fst kv @ ''='' @ snd kv"

definition print_info :: "(string \<times> string) list \<Rightarrow> string" where
  "print_info kvs = concat (map (\<lambda>kv. info_line kv @ [NL]) kvs)"

text \<open>Pairs that a line carries unchanged: no separators inside, nothing to trim, no NUL in front.\<close>

definition info_ok :: "string \<times> string \<Rightarrow> bool" where
  "info_ok kv \<longleftrightarrow> fst kv \<noteq> [] \<and> hd (fst kv) \<notin> set trim_default \<and> hd (fst kv) \<noteq> NUL \<and>
     CHR ''='' \<notin> set (fst kv) \<and> NL \<notin> set (fst kv) \<and> NL \<notin> set (snd kv) \<and>
     (snd kv \<noteq> [] \<longrightarrow> last (snd kv) \<notin> set trim_default)"

lemma ltrim_id: "s = [] \<or> hd s \<notin> set chars \<Longrightarrow> ltrim chars s = s"
  by (cases s) (auto simp: ltrim_dropWhile)

lemma vmcoreinfo_line_info:
  assumes "info_ok kv"
  shows "vmcoreinfo_line (info_line kv) vm = vm\<lparr>m_map := smap_insert (fst kv) (snd kv) (m_map vm)\<rparr>"
proof -
  let ?k = "fst kv" and ?v = "snd kv"
  have "CHR ''='' \<notin> set trim_default" by (simp add: trim_default_def char_consts)
  then have "last (info_line kv) \<notin> set trim_default"
    using assms by (cases "?v = []") (auto simp: info_line_def info_ok_def)
  then have "rtrim trim_default (info_line kv) = info_line kv" by (simp add: rtrim_id)
  moreover have "hd (info_line kv) \<notin> set trim_default"
    using assms by (cases "?k") (auto simp: info_line_def info_ok_def)
  ultimately have "trim trim_default (info_line kv) = info_line kv" by (simp add: trim_def ltrim_id)
  moreover have "c_at (info_line kv) 0 \<noteq> NUL"
    using assms by (cases "?k") (auto simp: info_line_def info_ok_def c_at_def)
  moreover have "find_char (CHR ''='') (info_line kv) = Some (length ?k)"
    using find_char_append_Some [of "CHR ''=''" ?k ?v] assms by (simp add: info_line_def info_ok_def)
  ultimately show ?thesis
    by (simp add: vmcoreinfo_line_def Let_def info_line_def substr_def)
qed

lemma ksplit_print_info:
  "\<forall>kv \<in> set kvs. info_ok kv \<Longrightarrow> ksplit NL (print_info kvs) = map info_line kvs @ [[]]"
proof (induction kvs)
  case Nil
  then show ?case by (simp add: print_info_def ksplit_single)
next
  case (Cons kv kvs)
  have "CHR ''='' \<noteq> NL" by (simp add: NL_def)
  then have "NL \<notin> set (info_line kv)"
    using Cons.prems by (auto simp: info_line_def info_ok_def)
  then show ?case
    using Cons ksplit_sep [of NL "info_line kv" "print_info kvs"] by (simp add: print_info_def)
qed

lemma vmcoreinfo_line_empty [simp]: "vmcoreinfo_line [] vm = vm"
  by (simp add: vmcoreinfo_line_def trim_def rtrim_id ltrim_id)

lemma fold_vmcoreinfo_lines:
  "\<forall>kv \<in> set kvs. info_ok kv \<Longrightarrow>
   fold vmcoreinfo_line (ksplit NL (print_info kvs)) vm = vm\<lparr>m_map := smap.insert_all kvs (m_map vm)\<rparr>"
proof -
  assume ok: "\<forall>kv \<in> set kvs. info_ok kv"
  have "fold vmcoreinfo_line (map info_line kvs) vm = vm\<lparr>m_map := smap.insert_all kvs (m_map vm)\<rparr>"
    using ok by (induction kvs arbitrary: vm) (auto simp: vmcoreinfo_line_info)
  then show ?thesis by (simp add: ksplit_print_info [OF ok])
qed

lemma vm_getStringValue_info:
  assumes "\<forall>kv \<in> set kvs. info_ok kv"
    and "fold vmcoreinfo_line (ksplit NL (print_info kvs)) vm = vm'" and "m_map vm = []"
  shows "vm_getStringValue key vm' =
    (case map_of (rev kvs) key of
       None \<Rightarrow> Inl (KError (''Vmcoreinfo: key '' @ key @ '' not found.''))
     | Some v \<Rightarrow> Inr v)"
  using assms(2,3) unfolding fold_vmcoreinfo_lines [OF assms(1)]
  by (auto simp: vm_getStringValue_def smap.find_insert_all)

text \<open>Every key listed has a value, so the list of all values is printed without an error.\<close>

lemma print_values_keys:
  "set kvs \<subseteq> set (m_map vm) \<Longrightarrow> distinct (map fst (m_map vm)) \<Longrightarrow>
   print_values vm (map fst kvs) = (print_info kvs, Inr ())"
  by (induction kvs) (auto simp: print_info_def info_line_def vm_getStringValue_def)

lemma smap_ok_distinct: "smap_ok m \<Longrightarrow> distinct (map fst m)"
  by (simp add: smap_ok_def strict_sorted_iff)

lemma smap_ok_lines: "smap_ok (m_map vm) \<Longrightarrow> smap_ok (m_map (fold vmcoreinfo_line ls vm))"
  by (induction ls arbitrary: vm)
    (auto simp: vmcoreinfo_line_def Let_def smap_ok_insert split: option.splits)

lemma ReadVmcoreinfo_prints_all:
  assumes "readFromELF elf_memory dumps file_name Vmcoreinfo = (Inr (), vm)"
  shows "ReadVmcoreinfo_execute elf_memory dumps file_name [] = (print_info (m_map vm), Inr ())"
proof -
  have "smap_ok (m_map vm)"
    using assms smap_ok_lines
    by (auto simp: readFromELF_def readElfNote_def sx_bind_def sx_lift_def readVmcoreinfoFromNotes_def
        Vmcoreinfo_def smap_ok_def split: sum.splits prod.splits)
  then show ?thesis
    using print_values_keys [of "m_map vm" vm] assms
    by (simp add: ReadVmcoreinfo_execute_def getKeys_def smap_ok_distinct)
qed

section \<open>Numbers\<close>

text \<open>A decimal number survives \<open>getLLongValue\<close> exactly if it fits into 32 bits.\<close>

lemma asLongLong_number2string:
  "LLONG_MIN \<le> i \<Longrightarrow> i \<le> LLONG_MAX \<Longrightarrow> asLongLong (number2string i) = Inr i"
  by (simp add: asLongLong_def number2string_def scan_int_dec_of_int)

lemma getLLongValue_number:
  assumes "map_of (m_map vm) key = Some (number2string i)" and "LLONG_MIN \<le> i" and "i \<le> LLONG_MAX"
  shows "getLLongValue key vm = Inr (word_of_int i)"
proof -
  have "(ucast (word_of_int i :: 64 word) :: 32 word) = word_of_int i"
    by (simp add: unsigned_ucast_eq ucast_eq word_uint_eq_iff uint_word_of_int_eq take_bit_take_bit unsigned_of_int)
  then show ?thesis
    using assms by (simp add: getLLongValue_def vm_getStringValue_def asLongLong_number2string)
qed

lemma sint_word_of_int_iff: "sint (word_of_int i :: 32 word) = i \<longleftrightarrow> INT_MIN \<le> i \<and> i \<le> INT_MAX"
proof -
  have "sint (word_of_int i :: 32 word) = signed_take_bit 31 i" by (simp add: signed_of_int)
  then show ?thesis
    by (simp add: signed_take_bit_int_eq_self_iff int_limits) linarith
qed

section \<open>The copied header\<close>

lemma copy_header_done: "length copy = m \<Longrightarrow> copy_header m rs copy = Inr copy"
  by (cases rs) simp_all

text \<open>Complete reads: the copy is what they return.\<close>

lemma copy_header_reads:
  assumes "\<forall>d \<in> set ds. d \<noteq> [] \<and> length d \<le> BUFSIZ" and "length copy + length (concat ds) \<le> m"
  shows "copy_header m (map Inr ds @ rs) copy = copy_header m rs (copy @ concat ds)"
  using assms
proof (induction ds arbitrary: copy)
  case Nil
  then show ?case by simp
next
  case (Cons d ds)
  then have "length copy < m" by (cases d) auto
  then show ?case using Cons.IH [of "copy @ d"] Cons.prems by simp
qed

text \<open>
  A \<^verbatim>\<open>read\<close> that fails in between, for instance interrupted by a signal, loses the byte before it, and the rest is
  shifted.
\<close>

lemma copy_header_fault:
  assumes "\<forall>d \<in> set (ds @ ds'). d \<noteq> [] \<and> length d \<le> BUFSIZ" and "ds \<noteq> []"
    and "length (concat (ds @ ds')) = m + 1" and len: "length (concat ds) < m"
  shows "copy_header m (map Inr ds @ Inl e # map Inr ds') [] = Inr (butlast (concat ds) @ concat ds')"
proof -
  have ne: "concat ds \<noteq> []" using assms(1,2) by (cases ds) auto
  have "copy_header m (map Inr ds @ Inl e # map Inr ds') [] =
      copy_header m (Inl e # map Inr ds') (concat ds)"
    using copy_header_reads [of ds "[]" m "Inl e # map Inr ds'"] assms(1) len by simp
  also have "\<dots> = copy_header m (map Inr ds') (butlast (concat ds))"
    using ne len by (simp del: concat_eq_Nil_conv)
  also have "\<dots> = copy_header m [] (butlast (concat ds) @ concat ds')"
    using copy_header_reads [of ds' "butlast (concat ds)" m "[]"] assms(1,3) ne
    by (cases "concat ds" rule: rev_cases) auto
  also have "\<dots> = Inr (butlast (concat ds) @ concat ds')"
    using assms(3) ne by (intro copy_header_done) (cases "concat ds" rule: rev_cases; auto)
  finally show ?thesis .
qed

end
