(* ===== verification/SaveDump.thy ===== *)
theory SaveDump
  imports RemoveDir Vmcoreinfo
begin

text \<open>
  \<^verbatim>\<open>kdumptool/savedump.cc\<close>: the subcommand that saves the crash dump, with its members as a record and every
  method as a state transformer that may throw. The operating system, the network, the mail server and the transfer
  objects (whose methods are virtual) are operations on a world \<open>'w\<close>. What is printed, the terminal and the progress
  displays are left out.
\<close>

section \<open>The environment\<close>

text \<open>The provider handed to a transfer: a file, a buffer, or a process with its command lines.\<close>

datatype dump_source =
    FileSource string
  | BufferSource string
  | ProcessSource (pipe_cmdline: string) (direct_cmdline: string)

record mail =
  mail_from :: string
  mail_hostname :: string
  mail_to :: string
  mail_cc :: "string list"
  mail_subject :: string
  mail_body :: string

record 'w save_ops =
  so_exists :: "'w \<Rightarrow> string \<Rightarrow> bool"
  so_fileSize :: "'w \<Rightarrow> string \<Rightarrow> 64 word res"
  so_freeDiskSize :: "'w \<Rightarrow> string \<Rightarrow> 64 word res"
  so_rmdir :: "string \<Rightarrow> 'w \<Rightarrow> 'w \<times> unit res"
  so_isElfFile :: "'w \<Rightarrow> string \<Rightarrow> bool res"
  so_isXenCoreDump :: "'w \<Rightarrow> string \<Rightarrow> bool res"
  so_numOnline :: "'w \<Rightarrow> nat res"
  so_time :: "'w \<Rightarrow> 64 word"
  so_strftime :: "string \<Rightarrow> 64 word \<Rightarrow> string"
  so_getHostDomain :: "'w \<Rightarrow> string res"
  so_cmdline :: "'w \<Rightarrow> string option"
  so_elf_memory :: "string \<Rightarrow> elf_object option"
  so_dump_file :: "'w \<Rightarrow> string \<Rightarrow> dump_file"
  so_fs :: "'w \<Rightarrow> string \<Rightarrow> node"
  so_cwd :: "'w \<Rightarrow> string"
  so_route_check :: "string \<Rightarrow> int \<Rightarrow> 'w \<Rightarrow> 'w \<times> string option res"
  so_transfer_new :: "protocol \<Rightarrow> root_dir_url list \<Rightarrow> 'w \<Rightarrow> 'w \<times> unit res"
  so_perform :: "protocol \<Rightarrow> root_dir_url list \<Rightarrow> dump_source \<Rightarrow> string list \<Rightarrow> 'w \<Rightarrow> 'w \<times> unit res \<times> bool option"
  so_send :: "mail \<Rightarrow> 'w \<Rightarrow> 'w \<times> unit res"

section \<open>The object\<close>

record 'w save_dump =
  sd_dump :: string
  sd_transfer :: "(protocol \<times> root_dir_url list) option"
  sd_usedDirectSave :: bool
  sd_useMakedumpfile :: bool
  sd_split :: nat
  sd_threads :: nat
  sd_crashtime :: "64 word"
  sd_crashrelease :: string
  sd_rootdir :: string
  sd_hostname :: string
  sd_nomail :: bool
  sd_errorcode :: int
  sd_world :: 'w

definition DEFAULT_DUMP :: string where
  "DEFAULT_DUMP = ''/proc/vmcore''"

definition ISO_DATETIME :: string where
  "ISO_DATETIME = ''%Y-%m-%d-%H:%M''"

definition SaveDump :: "'w \<Rightarrow> 'w save_dump" where
  "SaveDump w =
     \<lparr>sd_dump = DEFAULT_DUMP, sd_transfer = None, sd_usedDirectSave = False, sd_useMakedumpfile = False,
      sd_split = 0, sd_threads = 0, sd_crashtime = 0, sd_crashrelease = [], sd_rootdir = [],
      sd_hostname = [], sd_nomail = False, sd_errorcode = 0, sd_world = w\<rparr>"

text \<open>Reading, assigning, calling the world, and \<^verbatim>\<open>catch (const KError &)\<close>.\<close>

definition sx_get :: "('s \<Rightarrow> ('s, 'a) sx) \<Rightarrow> ('s, 'a) sx" where
  "sx_get f s = f s s"

definition sx_modify :: "('s \<Rightarrow> 's) \<Rightarrow> ('s, unit) sx" where
  "sx_modify f s = (Inr (), f s)"

definition sx_world :: "('w \<Rightarrow> 'w \<times> 'a res) \<Rightarrow> ('w save_dump, 'a) sx" where
  "sx_world f s = (case f (sd_world s) of (w', r) \<Rightarrow> (r, s\<lparr>sd_world := w'\<rparr>))"

definition sx_when :: "bool \<Rightarrow> ('s, unit) sx \<Rightarrow> ('s, unit) sx" where
  "sx_when b m = (if b then m else sx_return ())"

definition setErrorCode :: "int \<Rightarrow> ('w save_dump, unit) sx" where
  "setErrorCode errorcode = sx_modify (\<lambda>s. s\<lparr>sd_errorcode := errorcode\<rparr>)"

text \<open>
  \<^verbatim>\<open>m_transfer->perform(provider, targets, directSave)\<close>, with \<^verbatim>\<open>directSave\<close> pointing to the member or \<^verbatim>\<open>NULL\<close>.
\<close>

definition transfer_perform ::
    "'w save_ops \<Rightarrow> dump_source \<Rightarrow> string list \<Rightarrow> bool \<Rightarrow> ('w save_dump, unit) sx" where
  "transfer_perform ops source targets direct s =
     (case sd_transfer s of
        None \<Rightarrow> (Inl (Undefined ''null transfer''), s)
      | Some (prot, urlv) \<Rightarrow>
          (case so_perform ops prot urlv source targets (sd_world s) of
             (w', r, flag) \<Rightarrow>
               (r, s\<lparr>sd_world := w',
                   sd_usedDirectSave := (case flag of
                     Some b \<Rightarrow> if direct then b else sd_usedDirectSave s
                   | None \<Rightarrow> sd_usedDirectSave s)\<rparr>)))"

section \<open>VMCOREINFO and the kernel release\<close>

definition fillVmcoreinfo :: "'w save_ops \<Rightarrow> ('w save_dump, unit) sx" where
  "fillVmcoreinfo ops s =
     (case readFromELF (so_elf_memory ops) (so_dump_file ops (sd_world s)) (sd_dump s) Vmcoreinfo of
        (Inl e, vm) \<Rightarrow> (Inl e, s)
      | (Inr _, vm) \<Rightarrow>
          sx_seq
            (sx_try
              (sx_bind (sx_lift (getLLongValue ''CRASHTIME'' vm)) (\<lambda>t.
                sx_modify (\<lambda>s. s\<lparr>sd_crashtime := scast t\<rparr>)))
              (\<lambda>_. sx_modify (\<lambda>s. s\<lparr>sd_crashtime := so_time ops (sd_world s)\<rparr>)))
            (sx_try
              (sx_get (\<lambda>s. sx_when (sd_crashrelease s = [])
                (sx_bind (sx_lift (vm_getStringValue ''OSRELEASE'' vm)) (\<lambda>r.
                  sx_modify (\<lambda>s. s\<lparr>sd_crashrelease := r\<rparr>)))))
              (\<lambda>_. sx_return ())) s)"

definition KERNELCOMMANDLINE :: string where
  "KERNELCOMMANDLINE = ''/proc/cmdline''"

definition cmdline_version :: "string list \<Rightarrow> string" where
  "cmdline_version tokens =
     (let pfx = ''kernelversion=''
      in foldl (\<lambda>version s. if startsWith s pfx then drop (length pfx) s else version) [] tokens)"

definition getKernelReleaseCommandline :: "'w save_ops \<Rightarrow> 'w \<Rightarrow> string res" where
  "getKernelReleaseCommandline ops w =
     (case so_cmdline ops w of
        None \<Rightarrow> Inl (KError (''Unable to open '' @ KERNELCOMMANDLINE @ ''.''))
      | Some content \<Rightarrow>
          let version = cmdline_version (stream_words content)
          in if version = [] then Inl (KError ([SQUOTE] @ ''kernelversion='' @ [SQUOTE] @ '' command line missing''))
             else Inr version)"

section \<open>The targets\<close>

definition getTransfer :: "'w save_ops \<Rightarrow> root_dir_url list \<Rightarrow> ('w save_dump, unit) sx" where
  "getTransfer ops urlv =
     (case urlv of
        [] \<Rightarrow> sx_throw (KError ''No target specified!'')
      | u # _ \<Rightarrow>
          sx_seq (sx_world (so_transfer_new ops (m_protocol u) urlv))
            (sx_modify (\<lambda>s. s\<lparr>sd_transfer := Some (m_protocol u, urlv)\<rparr>)))"

text \<open>One element of \<^verbatim>\<open>KDUMP_SAVEDIR\<close>: the time stamp, and for a remote target our address, goes to the path.\<close>

definition target_url ::
    "'w save_ops \<Rightarrow> configuration \<Rightarrow> string \<Rightarrow> string \<Rightarrow> ('w save_dump, root_dir_url) sx" where
  "target_url ops config subdir elem = sx_get (\<lambda>s.
     let mkurl = (\<lambda>elem. sx_get (\<lambda>s. sx_lift
           (RootDirURL (so_fs ops (sd_world s)) (so_cwd ops (sd_world s)) elem (sd_rootdir s))))
     in sx_bind (mkurl elem) (\<lambda>url.
          if m_protocol url \<noteq> PROT_FILE
          then sx_bind (sx_world (so_route_check ops (m_hostname url) (config_int ''KDUMP_NET_TIMEOUT'' config)))
                 (\<lambda>rt. case rt of
                    None \<Rightarrow> mkurl (appendPath elem (''unknown-'' @ subdir))
                  | Some prefsrc \<Rightarrow> mkurl (appendPath elem (prefsrc @ ''-'' @ subdir)))
          else mkurl (appendPath elem subdir)))"

fun target_urls ::
    "'w save_ops \<Rightarrow> configuration \<Rightarrow> string \<Rightarrow> string list \<Rightarrow> ('w save_dump, root_dir_url list) sx" where
  "target_urls ops config subdir [] = sx_return []"
| "target_urls ops config subdir (elem # elems) =
     sx_bind (target_url ops config subdir elem) (\<lambda>u.
       sx_bind (target_urls ops config subdir elems) (\<lambda>us. sx_return (u # us)))"

section \<open>Saving the dump\<close>

definition valid_dumplevel :: "configuration \<Rightarrow> int" where
  "valid_dumplevel config =
     (let dumplevel = config_int ''KDUMP_DUMPLEVEL'' config
      in if dumplevel < 0 \<or> dumplevel > 31 then 0 else dumplevel)"

definition dumpformat_is :: "configuration \<Rightarrow> string \<Rightarrow> bool" where
  "dumpformat_is config fmt \<longleftrightarrow> strcaseeq (config_string ''KDUMP_DUMPFORMAT'' config) fmt"

definition used_cpus :: "'w save_ops \<Rightarrow> configuration \<Rightarrow> 'w \<Rightarrow> nat res" where
  "used_cpus ops config w =
     (let cpus = unat (word_of_int (config_int ''KDUMP_CPUS'' config) :: 64 word)
      in if cpus \<noteq> 0
         then res_bind (so_numOnline ops w) (\<lambda>online_cpus.
                Inr (if cpus > online_cpus then online_cpus else cpus))
         else Inr cpus)"

definition set_parallel :: "configuration \<Rightarrow> nat \<Rightarrow> 'w save_dump \<Rightarrow> 'w save_dump" where
  "set_parallel config cpus s =
     (if \<not> kdumptoolContainsFlag ''SINGLE'' config \<and> cpus > 1
      then if kdumptoolContainsFlag ''SPLIT'' config \<and> \<not> kdumptoolContainsFlag ''NOSPLIT'' config
           then (if \<not> dumpformat_is config ''elf'' then s\<lparr>sd_split := cpus\<rparr> else s)
           else (if \<not> dumpformat_is config ''elf'' then s\<lparr>sd_threads := cpus - 1\<rparr> else s)
      else s)"

definition makedumpfile_cmdline :: "configuration \<Rightarrow> bool \<Rightarrow> 'w save_dump \<Rightarrow> string" where
  "makedumpfile_cmdline config excludeDomU s =
     ''makedumpfile '' @
     (if sd_split s \<noteq> 0 then ''--split '' else []) @
     (if sd_threads s \<noteq> 0 then ''--num-threads '' @ number2string (int (sd_threads s)) @ '' '' else []) @
     config_string ''MAKEDUMPFILE_OPTIONS'' config @ '' '' @
     ''-d '' @ number2string (config_int ''KDUMP_DUMPLEVEL'' config) @ '' '' @
     (if excludeDomU then ''-X '' else []) @
     (if dumpformat_is config ''elf'' then ''-E '' else []) @
     (if dumpformat_is config ''compressed'' then ''-c '' else []) @
     (if dumpformat_is config ''lzo'' then ''-l '' else []) @
     (if dumpformat_is config ''snappy'' then ''-p '' else []) @
     sd_dump s"

definition uses_makedumpfile :: "configuration \<Rightarrow> bool \<Rightarrow> bool" where
  "uses_makedumpfile config excludeDomU \<longleftrightarrow>
     \<not> (dumpformat_is config ''elf'' \<and> valid_dumplevel config = 0 \<and> \<not> excludeDomU)"

definition dump_provider :: "configuration \<Rightarrow> bool \<Rightarrow> 'w save_dump \<Rightarrow> dump_source" where
  "dump_provider config excludeDomU s =
     (if \<not> uses_makedumpfile config excludeDomU then FileSource (sd_dump s)
      else (let cmdline = makedumpfile_cmdline config excludeDomU s
            in ProcessSource (cmdline @ '' -F'') cmdline))"

definition dump_targets :: "nat \<Rightarrow> string list" where
  "dump_targets split =
     (if split \<noteq> 0 then map (\<lambda>i. ''vmcore'' @ number2string (int i)) [1..<split + 1] else [''vmcore''])"

text \<open>Extracting dmesg may fail in any way (\<^verbatim>\<open>catch (...)\<close>) without an effect on the rest.\<close>

definition save_dmesg :: "'w save_ops \<Rightarrow> ('w save_dump, unit) sx" where
  "save_dmesg ops s =
     (case transfer_perform ops
             (ProcessSource (''makedumpfile --dump-dmesg -F '' @ sd_dump s)
                (''makedumpfile --dump-dmesg '' @ sd_dump s)) [''dmesg.txt''] False s of
        (Inl (Undefined what), s') \<Rightarrow> (Inl (Undefined what), s')
      | (_, s') \<Rightarrow> (Inr (), s'))"

definition excludes_domU :: "'w save_ops \<Rightarrow> configuration \<Rightarrow> 'w save_dump \<Rightarrow> bool res" where
  "excludes_domU ops config s =
     (if \<not> kdumptoolContainsFlag ''XENALLDOMAINS'' config
      then so_isXenCoreDump ops (sd_world s) (sd_dump s) else Inr False)"

definition saveDump :: "'w save_ops \<Rightarrow> configuration \<Rightarrow> ('w save_dump, unit) sx" where
  "saveDump ops config = sx_get (\<lambda>s.
     if \<not> so_exists ops (sd_world s) (sd_dump s)
     then sx_throw (KError (''Core file '' @ sd_dump s @ '' does not exist.''))
     else sx_bind (sx_lift (so_fileSize ops (sd_world s) (sd_dump s))) (\<lambda>sz.
       if sz = 0 then sx_throw (KError (''Zero size vmcore ('' @ sd_dump s @ '').''))
       else sx_seq (save_dmesg ops)
         (if dumpformat_is config ''none'' then sx_return ()
          else sx_get (\<lambda>s. sx_bind (sx_lift (used_cpus ops config (sd_world s))) (\<lambda>cpus.
            sx_seq (sx_modify (set_parallel config cpus))
              (sx_get (\<lambda>s. sx_bind (sx_lift (excludes_domU ops config s)) (\<lambda>excludeDomU.
                 sx_seq (sx_modify (\<lambda>s. s\<lparr>sd_useMakedumpfile := uses_makedumpfile config excludeDomU\<rparr>))
                   (transfer_perform ops (dump_provider config excludeDomU s)
                     (dump_targets (sd_split s)) True)))))))))"

section \<open>The other files\<close>

definition makedumpfile_R_paths :: "string list" where
  "makedumpfile_R_paths =
     [''/bin/makedumpfile-R.pl'', ''/sbin/makedumpfile-R.pl'', ''/usr/bin/makedumpfile-R.pl'',
      ''/usr/sbin/makedumpfile-R.pl'', ''/usr/local/bin/makedumpfile-R.pl'',
      ''/usr/local/sbin/makedumpfile-R.pl'', ''/root/bin/makedumpfile-R.pl'']"

definition rearrange_script :: string where
  "rearrange_script =
     ''#!/bin/sh'' @ [NL, NL] @
     ''# rename the flattened vmcore'' @ [NL] @
     ''mv vmcore vmcore.flattened || exit 1'' @ [NL, NL] @
     ''# unflatten'' @ [NL] @
     ''perl makedumpfile-R.pl vmcore < vmcore.flattened || exit 1 '' @ [NL, NL] @
     ''# delete the original dump'' @ [NL] @
     ''rm vmcore.flattened || exit 1 '' @ [NL, NL] @
     ''# delete the perl script'' @ [NL] @
     ''rm makedumpfile-R.pl || exit 1 '' @ [NL, NL] @
     ''# delete myself'' @ [NL] @
     ''rm '' @ [DQUOTE] @ ''$0'' @ [DQUOTE] @ '' || exit 1 '' @ [NL, NL] @
     ''exit 0'' @ [NL] @ ''# EOF'' @ [NL]"

definition generateRearrange :: "'w save_ops \<Rightarrow> ('w save_dump, unit) sx" where
  "generateRearrange ops = transfer_perform ops (BufferSource rearrange_script) [''rearrange.sh''] False"

definition copyMakedumpfile :: "'w save_ops \<Rightarrow> ('w save_dump, unit) sx" where
  "copyMakedumpfile ops = sx_get (\<lambda>s.
     case find (so_exists ops (sd_world s)) makedumpfile_R_paths of
       None \<Rightarrow> sx_throw (KError ''makedumpfile-R.pl not found.'')
     | Some binary \<Rightarrow>
         sx_seq (transfer_perform ops (FileSource binary) [''makedumpfile-R.pl''] False)
           (generateRearrange ops))"

definition infoLine :: "string \<Rightarrow> string \<Rightarrow> string" where
  "infoLine key val = key @ replicate (15 - length key) (CHR '' '') @ '': '' @ val @ [NL]"

definition info_text :: "'w save_ops \<Rightarrow> configuration \<Rightarrow> 'w save_dump \<Rightarrow> string" where
  "info_text ops config s =
     ''Kernel crashdump'' @ [NL] @ ''----------------'' @ [NL] @ [NL] @
     infoLine ''Crash time'' (so_strftime ops ''%Y-%m-%d %H:%M (%z)'' (sd_crashtime s)) @
     (if sd_crashrelease s \<noteq> [] then infoLine ''Kernel version'' (sd_crashrelease s) else []) @
     infoLine ''Host'' (sd_hostname s) @
     infoLine ''Dump level'' (number2string (config_int ''KDUMP_DUMPLEVEL'' config)) @
     infoLine ''Dump format'' (config_string ''KDUMP_DUMPFORMAT'' config) @
     (if sd_split s \<noteq> 0 \<and> sd_usedDirectSave s
      then infoLine ''Split parts'' (number2string (int (sd_split s))) else []) @ [NL] @
     (if sd_useMakedumpfile s \<and> \<not> sd_usedDirectSave s
      then ''NOTE:'' @ [NL] @ ''This dump was saved in makedumpfile flattened format.'' @ [NL] @
           ''To read the dump with crash, run '' @ [DQUOTE] @ ''sh rearrange.sh'' @ [DQUOTE] @ '' before.'' @ [NL]
      else [])"

text \<open>\<^verbatim>\<open>if (m_hostname.size() == 0) m_hostname = Util::getHostDomain();\<close>\<close>

definition need_hostname :: "'w save_ops \<Rightarrow> ('w save_dump, unit) sx" where
  "need_hostname ops = sx_get (\<lambda>s. sx_when (sd_hostname s = [])
     (sx_bind (sx_lift (so_getHostDomain ops (sd_world s))) (\<lambda>h. sx_modify (\<lambda>s. s\<lparr>sd_hostname := h\<rparr>))))"

definition generateInfo :: "'w save_ops \<Rightarrow> configuration \<Rightarrow> ('w save_dump, unit) sx" where
  "generateInfo ops config = sx_seq (need_hostname ops)
     (sx_get (\<lambda>s. transfer_perform ops (BufferSource (info_text ops config s)) [''README.txt''] False))"

definition crash_kernel_candidates :: "string \<Rightarrow> (string \<times> bool) list" where
  "crash_kernel_candidates release =
     [(appendPath ''/boot'' (''vmlinux-'' @ release), False),
      (appendPath ''/boot'' (''vmlinux-'' @ release) @ ''.gz'', False),
      (appendPath ''/boot'' (''vmlinux-'' @ release @ ''.xz''), False),
      (appendPath ''/boot'' (''vmlinuz-'' @ release), True),
      (appendPath ''/boot'' (''image-'' @ release), False),
      (appendPath ''/boot'' (''Image-'' @ release), False)]"

text \<open>The six tries one after the other; the flag asks for an ELF file.\<close>

fun try_kernels :: "'w save_ops \<Rightarrow> 'w \<Rightarrow> string \<Rightarrow> (string \<times> bool) list \<Rightarrow> string res" where
  "try_kernels ops w rootdir [] = Inl (KError (''No kernel image found in '' @ appendPath rootdir ''/boot''))"
| "try_kernels ops w rootdir ((binary, elf) # cs) =
     (let binaryroot = appendPath rootdir binary
      in if so_exists ops w binaryroot
         then if elf
              then res_bind (so_isElfFile ops w binaryroot) (\<lambda>b.
                     if b then Inr binary else try_kernels ops w rootdir cs)
              else Inr binary
         else try_kernels ops w rootdir cs)"

definition sd_findKernel :: "'w save_ops \<Rightarrow> 'w save_dump \<Rightarrow> string res" where
  "sd_findKernel ops s =
     try_kernels ops (sd_world s) (sd_rootdir s) (crash_kernel_candidates (sd_crashrelease s))"

definition findMapfile :: "'w save_ops \<Rightarrow> 'w save_dump \<Rightarrow> string res" where
  "findMapfile ops s =
     (let mapfile = appendPath ''/boot'' (''System.map-'' @ sd_crashrelease s)
      in if so_exists ops (sd_world s) (appendPath (sd_rootdir s) mapfile) then Inr mapfile
         else Inl (KError (''No System.map found in '' @ appendPath (sd_rootdir s) ''/boot'')))"

definition copyKernel :: "'w save_ops \<Rightarrow> ('w save_dump, unit) sx" where
  "copyKernel ops = sx_get (\<lambda>s.
     sx_bind (sx_lift (findMapfile ops s)) (\<lambda>mapfile.
     sx_bind (sx_lift (sd_findKernel ops s)) (\<lambda>kernel.
     sx_seq (transfer_perform ops (FileSource (appendPath (sd_rootdir s) mapfile)) [baseName mapfile] False)
       (transfer_perform ops (FileSource (appendPath (sd_rootdir s) kernel)) [baseName kernel] False))))"

section \<open>Disk space and mail\<close>

definition check_one :: "'w save_ops \<Rightarrow> configuration \<Rightarrow> root_dir_url \<Rightarrow> ('w save_dump, unit) sx" where
  "check_one ops config parser =
     (if m_protocol parser \<noteq> PROT_FILE then sx_return ()
      else sx_get (\<lambda>s. sx_bind (sx_lift (so_freeDiskSize ops (sd_world s) (getRealPath parser))) (\<lambda>freeSize.
        let targetDiskSize = word_of_int (config_int ''KDUMP_FREE_DISK_SIZE'' config) :: 64 word
        in if bytes_to_megabytes freeSize < targetDiskSize
           then sx_seq (sx_world (so_rmdir ops (getRealPath parser)))
                  (sx_throw (KError ''Dump too large. Aborting. Check KDUMP_FREE_DISK_SIZE.''))
           else sx_return ())))"

fun checkAndDelete :: "'w save_ops \<Rightarrow> configuration \<Rightarrow> root_dir_url list \<Rightarrow> ('w save_dump, unit) sx" where
  "checkAndDelete ops config [] = sx_return ()"
| "checkAndDelete ops config (u # us) = sx_seq (check_one ops config u) (checkAndDelete ops config us)"

definition notification :: "bool \<Rightarrow> root_dir_url list \<Rightarrow> configuration \<Rightarrow> string \<Rightarrow> mail" where
  "notification failure urlv config hostname =
     \<lparr>mail_from = ''root@'' @ hostname, mail_hostname = hostname,
      mail_to = config_string ''KDUMP_NOTIFICATION_TO'' config,
      mail_cc = stream_words (config_string ''KDUMP_NOTIFICATION_CC'' config),
      mail_subject = ''kdump: '' @ hostname @ '' crashed'',
      mail_body = ''Your machine '' @ hostname @ '' crashed.'' @ [NL] @
        (if failure then ''Copying dump failed.'' @ [NL]
         else ''Dump has been copied to'' @ [NL] @ concat (map (\<lambda>u. m_url u @ [NL]) urlv))\<rparr>"

text \<open>That of a build with \<^verbatim>\<open>HAVE_LIBESMTP\<close>.\<close>

definition sendNotification ::
    "'w save_ops \<Rightarrow> configuration \<Rightarrow> bool \<Rightarrow> root_dir_url list \<Rightarrow> ('w save_dump, unit) sx" where
  "sendNotification ops config failure urlv = sx_get (\<lambda>s.
     let SmtpServer = config_string ''KDUMP_SMTP_SERVER'' config;
         NotificationTo = config_string ''KDUMP_NOTIFICATION_TO'' config
     in if sd_nomail s then sx_return ()
        else if SmtpServer = [] \<and> NotificationTo = [] then sx_return ()
        else sx_try
          (if SmtpServer = [] then sx_throw (KError ''KDUMP_SMTP_SERVER not set.'')
           else if NotificationTo = []
           then sx_throw (KError ''No recipients specified in KDUMP_NOTIFICATION_TO.'')
           else sx_seq (need_hostname ops)
             (sx_get (\<lambda>s. sx_world (so_send ops (notification failure urlv config (sd_hostname s))))))
          (\<lambda>_. sx_return ()))"

section \<open>execute\<close>

text \<open>
  The handler that most steps share: the error code, and the error only if the configuration says so.
\<close>

definition guarded :: "configuration \<Rightarrow> ('w save_dump, unit) sx \<Rightarrow> ('w save_dump, unit) sx" where
  "guarded config m = sx_try m (\<lambda>e. sx_seq (setErrorCode 1)
     (if config_bool ''KDUMP_CONTINUE_ON_ERROR'' config then sx_return () else sx_throw e))"

definition save_and_notify :: "'w save_ops \<Rightarrow> configuration \<Rightarrow> root_dir_url list \<Rightarrow> ('w save_dump, unit) sx" where
  "save_and_notify ops config urlv =
     sx_seq
       (sx_try (saveDump ops config) (\<lambda>e.
          sx_seq (setErrorCode 1)
          (sx_seq (sendNotification ops config True urlv)
          (sx_seq (sx_try (checkAndDelete ops config urlv) (\<lambda>_. sx_return ()))
             (if config_bool ''KDUMP_CONTINUE_ON_ERROR'' config then sx_return () else sx_throw e)))))
       (sendNotification ops config False urlv)"

definition add_makedumpfile :: "'w save_ops \<Rightarrow> ('w save_dump, unit) sx" where
  "add_makedumpfile ops = sx_get (\<lambda>s.
     sx_when (\<not> sd_usedDirectSave s \<and> sd_useMakedumpfile s) (copyMakedumpfile ops))"

definition commandline_release :: "'w save_ops \<Rightarrow> ('w save_dump, unit) sx" where
  "commandline_release ops = sx_get (\<lambda>s. sx_when (sd_crashrelease s = [])
     (sx_try
       (sx_bind (sx_lift (getKernelReleaseCommandline ops (sd_world s))) (\<lambda>r.
          sx_modify (\<lambda>s. s\<lparr>sd_crashrelease := r\<rparr>)))
       (\<lambda>_. sx_return ())))"

definition add_files :: "'w save_ops \<Rightarrow> configuration \<Rightarrow> ('w save_dump, unit) sx" where
  "add_files ops config =
     sx_seq (guarded config (add_makedumpfile ops))
    (sx_seq (commandline_release ops)
    (sx_seq (guarded config (generateInfo ops config))
    (sx_get (\<lambda>s. sx_when (sd_crashrelease s \<noteq> [])
       (guarded config (sx_when (config_bool ''KDUMP_COPY_KERNEL'' config) (copyKernel ops)))))))"

definition save_all :: "'w save_ops \<Rightarrow> configuration \<Rightarrow> root_dir_url list \<Rightarrow> ('w save_dump, unit) sx" where
  "save_all ops config urlv =
     sx_seq (save_and_notify ops config urlv)
    (sx_seq (guarded config (checkAndDelete ops config urlv))
       (add_files ops config))"

definition save_dump_execute :: "'w save_ops \<Rightarrow> configuration \<Rightarrow> ('w save_dump, unit) sx" where
  "save_dump_execute ops config = sx_get (\<lambda>s.
     if \<not> so_exists ops (sd_world s) (sd_dump s)
     then sx_throw (KError (''The dump file '' @ sd_dump s @ '' does not exist.''))
     else sx_seq (sx_try (fillVmcoreinfo ops) (\<lambda>_. sx_return ()))
       (sx_get (\<lambda>s.
         sx_bind (target_urls ops config (so_strftime ops ISO_DATETIME (sd_crashtime s))
                   (stream_words (config_string ''KDUMP_SAVEDIR'' config))) (\<lambda>urlv.
         sx_seq (getTransfer ops urlv) (save_all ops config urlv)))))"

end
