(* ===== verification/SaveDumpRuns.thy ===== *)
theory SaveDumpRuns
  imports SaveDump
begin

text \<open>
  Runs of the subcommand of SaveDump: which errors reach the exit code, which files are uploaded in which order, which
  mails are sent, and when a dump is deleted again.
\<close>

section \<open>Steps\<close>

lemma sx_get_apply: "sx_get f s = f s s"
  by (simp add: sx_get_def)

lemma sx_modify_apply: "sx_modify f s = (Inr (), f s)"
  by (simp add: sx_modify_def)

lemma sx_when_simps: "sx_when True m = m" "sx_when False m = sx_return ()"
  by (simp_all add: sx_when_def)

lemma sx_seq_modify: "sx_seq (sx_modify f) k s = k (f s)"
  by (simp add: sx_seq_def sx_bind_def sx_modify_def)

lemma sx_seq_return: "sx_seq (sx_return a) k = k"
  by (simp add: sx_seq_def sx_bind_def sx_return_def fun_eq_iff)

lemmas step_simps = sx_get_apply sx_modify_apply sx_when_simps sx_seq_modify sx_seq_return sx_bind_lift sx_basic

section \<open>The exit code\<close>

text \<open>
  What every method does to the error code: nothing, or it becomes 1. Both relations are reflexive and transitive, so a
  sequence keeps them if its steps do.
\<close>

definition code_kept :: "'w save_dump \<Rightarrow> 'w save_dump \<Rightarrow> bool" where
  "code_kept s s' \<longleftrightarrow> sd_errorcode s' = sd_errorcode s"

definition code_raised :: "'w save_dump \<Rightarrow> 'w save_dump \<Rightarrow> bool" where
  "code_raised s s' \<longleftrightarrow> sd_errorcode s' = sd_errorcode s \<or> sd_errorcode s' = 1"

named_theorems keeps

lemma kept_trans: "code_kept a b \<Longrightarrow> code_kept b c \<Longrightarrow> code_kept a c"
  by (simp add: code_kept_def)

lemma kept_seq [keeps]: "sx_preserves code_kept m \<Longrightarrow> sx_preserves code_kept k \<Longrightarrow> sx_preserves code_kept (sx_seq m k)"
  by (rule sx_preserves_seq) (auto intro: kept_trans)

lemma kept_bind [keeps]:
  "sx_preserves code_kept m \<Longrightarrow> (\<And>a. sx_preserves code_kept (f a)) \<Longrightarrow> sx_preserves code_kept (sx_bind m f)"
  by (rule sx_preserves_bind) (auto intro: kept_trans)

lemma kept_get [keeps]: "(\<And>s. sx_preserves code_kept (f s)) \<Longrightarrow> sx_preserves code_kept (sx_get f)"
  by (simp add: sx_preserves_def sx_get_def)

lemma kept_basic [keeps]:
  "sx_preserves code_kept (sx_return a)" "sx_preserves code_kept (sx_throw e)" "sx_preserves code_kept (sx_lift r)"
  by (simp_all add: sx_preserves_def sx_basic code_kept_def)

lemma kept_modify [keeps]: "(\<And>s. sd_errorcode (f s) = sd_errorcode s) \<Longrightarrow> sx_preserves code_kept (sx_modify f)"
  by (simp add: sx_preserves_def sx_modify_def code_kept_def)

lemma kept_world [keeps]: "sx_preserves code_kept (sx_world f)"
  by (auto simp: sx_preserves_def sx_world_def code_kept_def split: prod.splits)

lemma kept_when [keeps]: "sx_preserves code_kept m \<Longrightarrow> sx_preserves code_kept (sx_when b m)"
  by (simp add: sx_when_def keeps)

lemma kept_try [keeps]:
  assumes "sx_preserves code_kept m" and "\<And>e. sx_preserves code_kept (h e)"
  shows "sx_preserves code_kept (sx_try m h)"
  unfolding sx_preserves_def
proof
  fix s
  obtain r s1 where m: "m s = (r, s1)" by fastforce
  then have "code_kept s s1" using assms(1) by (metis sx_preserves_def snd_conv)
  then show "code_kept s (snd (sx_try m h s))"
    using m assms(2) by (cases r) (auto simp: sx_try_def sx_preserves_def intro: kept_trans)
qed

lemma kept_perform [keeps]: "sx_preserves code_kept (transfer_perform ops src ts d)"
  by (auto simp: sx_preserves_def transfer_perform_def code_kept_def split: option.splits prod.splits)

lemma kept_dmesg [keeps]: "sx_preserves code_kept (save_dmesg ops)"
  unfolding sx_preserves_def
proof
  fix s :: "'a save_dump"
  let ?m = "transfer_perform ops (ProcessSource (''makedumpfile --dump-dmesg -F '' @ sd_dump s)
      (''makedumpfile --dump-dmesg '' @ sd_dump s)) [''dmesg.txt''] False"
  have "snd (save_dmesg ops s) = snd (?m s)"
    by (auto simp: save_dmesg_def split: prod.splits sum.splits kerror.splits)
  then show "code_kept s (snd (save_dmesg ops s))"
    using kept_perform [of ops _ _ _] by (simp add: sx_preserves_def)
qed

lemma kept_saveDump [keeps]: "sx_preserves code_kept (saveDump ops config)"
proof -
  have p: "sd_errorcode (set_parallel config cpus s) = sd_errorcode s" for cpus and s :: "'a save_dump"
    by (simp add: set_parallel_def)
  show ?thesis
    unfolding saveDump_def by (auto intro!: keeps simp: p)
qed

lemma kept_need_hostname [keeps]: "sx_preserves code_kept (need_hostname ops)"
  unfolding need_hostname_def by (auto intro!: keeps)

lemma kept_sendNotification [keeps]: "sx_preserves code_kept (sendNotification ops config failure urlv)"
  unfolding sendNotification_def Let_def by (auto intro!: keeps)

lemma kept_check_one [keeps]: "sx_preserves code_kept (check_one ops config u)"
  unfolding check_one_def Let_def by (auto intro!: keeps)

lemma kept_checkAndDelete [keeps]: "sx_preserves code_kept (checkAndDelete ops config urlv)"
  by (induction urlv) (auto intro!: keeps)

lemma kept_copyMakedumpfile [keeps]: "sx_preserves code_kept (copyMakedumpfile ops)"
  unfolding copyMakedumpfile_def generateRearrange_def by (auto intro!: keeps split: option.split)

lemma kept_generateInfo [keeps]: "sx_preserves code_kept (generateInfo ops config)"
  unfolding generateInfo_def by (auto intro!: keeps)

lemma kept_copyKernel [keeps]: "sx_preserves code_kept (copyKernel ops)"
  unfolding copyKernel_def by (auto intro!: keeps)

lemma kept_add_makedumpfile [keeps]: "sx_preserves code_kept (add_makedumpfile ops)"
  unfolding add_makedumpfile_def by (auto intro!: keeps)

lemma kept_commandline_release [keeps]: "sx_preserves code_kept (commandline_release ops)"
  unfolding commandline_release_def by (auto intro!: keeps)

text \<open>Steps that may raise the code, and steps that leave it alone when they return.\<close>

lemma raised_trans: "code_raised a b \<Longrightarrow> code_raised b c \<Longrightarrow> code_raised a c"
  by (auto simp: code_raised_def)

lemma kept_raised: "sx_preserves code_kept m \<Longrightarrow> sx_preserves code_raised m"
  by (simp add: sx_preserves_def code_kept_def code_raised_def)

lemma raised_seq: "sx_preserves code_raised m \<Longrightarrow> sx_preserves code_raised k \<Longrightarrow> sx_preserves code_raised (sx_seq m k)"
  by (rule sx_preserves_seq) (auto intro: raised_trans)

lemma raised_get: "(\<And>s. sx_preserves code_raised (f s)) \<Longrightarrow> sx_preserves code_raised (sx_get f)"
  by (simp add: sx_preserves_def sx_get_def)

lemma raised_when: "sx_preserves code_raised m \<Longrightarrow> sx_preserves code_raised (sx_when b m)"
  by (simp add: sx_when_def kept_raised keeps)

lemma raised_try:
  assumes "sx_preserves code_kept m" and "\<And>e. sx_preserves code_kept (h e)"
  shows "sx_preserves code_raised (sx_try m (\<lambda>e. sx_seq (setErrorCode 1) (h e)))"
  unfolding sx_preserves_def
proof
  fix s
  obtain r s1 where m: "m s = (r, s1)" by fastforce
  have 1: "code_kept s s1" using assms(1) m by (metis sx_preserves_def snd_conv)
  show "code_raised s (snd (sx_try m (\<lambda>e. sx_seq (setErrorCode 1) (h e)) s))"
  proof (cases r)
    case (Inr a)
    then show ?thesis using m 1 by (simp add: sx_try_def code_raised_def code_kept_def)
  next
    case (Inl e)
    have "code_kept (s1\<lparr>sd_errorcode := 1\<rparr>) (snd (h e (s1\<lparr>sd_errorcode := 1\<rparr>)))"
      using assms(2) by (simp add: sx_preserves_def)
    then show ?thesis
      using m 1 Inl by (simp add: sx_try_def setErrorCode_def sx_seq_modify code_raised_def code_kept_def)
  qed
qed

lemma raised_guarded: "sx_preserves code_kept m \<Longrightarrow> sx_preserves code_raised (guarded config m)"
  unfolding guarded_def by (rule raised_try) (auto intro!: keeps)

lemma raised_save_and_notify: "sx_preserves code_raised (save_and_notify ops config urlv)"
  unfolding save_and_notify_def
  by (rule raised_seq, rule raised_try) (auto intro!: keeps kept_raised)

lemma raised_add_files: "sx_preserves code_raised (add_files ops config)"
  unfolding add_files_def by (intro raised_seq raised_get raised_when raised_guarded kept_raised) (auto intro!: keeps)

lemma raised_save_all: "sx_preserves code_raised (save_all ops config urlv)"
  unfolding save_all_def
  by (intro raised_seq raised_save_and_notify raised_guarded raised_add_files kept_checkAndDelete)

lemma kept_run: "sx_preserves code_kept m \<Longrightarrow> m s = (r, s') \<Longrightarrow> sd_errorcode s' = sd_errorcode s"
  by (metis code_kept_def snd_conv sx_preserves_def)

lemma raised_run: "sx_preserves code_raised m \<Longrightarrow> m s = (r, s') \<Longrightarrow> sd_errorcode s' \<in> {sd_errorcode s, 1}"
  by (metis code_raised_def insertCI snd_conv sx_preserves_def)

section \<open>The error code\<close>

text \<open>
  The steps of \<open>execute\<close> as a plain sequence, without the handlers that set the error code: the preparations up to the
  transfer, and the steps of which an error is reported.
\<close>

definition save_prepare :: "'w save_ops \<Rightarrow> configuration \<Rightarrow> ('w save_dump, root_dir_url list) sx" where
  "save_prepare ops config = sx_get (\<lambda>s.
     if \<not> so_exists ops (sd_world s) (sd_dump s)
     then sx_throw (KError (''The dump file '' @ sd_dump s @ '' does not exist.''))
     else sx_seq (sx_try (fillVmcoreinfo ops) (\<lambda>_. sx_return ()))
       (sx_get (\<lambda>s.
         sx_bind (target_urls ops config (so_strftime ops ISO_DATETIME (sd_crashtime s))
                   (stream_words (config_string ''KDUMP_SAVEDIR'' config))) (\<lambda>urlv.
         sx_seq (getTransfer ops urlv) (sx_return urlv)))))"

definition save_steps :: "'w save_ops \<Rightarrow> configuration \<Rightarrow> root_dir_url list \<Rightarrow> ('w save_dump, unit) sx" where
  "save_steps ops config urlv =
     sx_seq (sx_seq (saveDump ops config) (sendNotification ops config False urlv))
    (sx_seq (checkAndDelete ops config urlv)
    (sx_seq (add_makedumpfile ops)
    (sx_seq (commandline_release ops)
    (sx_seq (generateInfo ops config)
    (sx_get (\<lambda>s. sx_when (sd_crashrelease s \<noteq> [])
       (sx_when (config_bool ''KDUMP_COPY_KERNEL'' config) (copyKernel ops))))))))"

text \<open>
  What handlers add to a step: when the step returns, nothing; when it throws a \<open>KError\<close>, the error code 1, and unless the
  configuration says to continue the method throws; every other error passes.
\<close>

definition reported ::
    "configuration \<Rightarrow> unit res \<times> 'w save_dump \<Rightarrow> unit res \<times> 'w save_dump \<Rightarrow> bool" where
  "reported config out plain \<longleftrightarrow>
     (case plain of
        (Inr _, s1) \<Rightarrow> out = (Inr (), s1)
      | (Inl e, s1) \<Rightarrow>
          if is_kerror e
          then sd_errorcode (snd out) = 1 \<and> (\<not> config_bool ''KDUMP_CONTINUE_ON_ERROR'' config \<longrightarrow> fst out \<noteq> Inr ())
          else out = (Inl e, s1))"

definition reports :: "configuration \<Rightarrow> ('w save_dump, unit) sx \<Rightarrow> ('w save_dump, unit) sx \<Rightarrow> bool" where
  "reports config m p \<longleftrightarrow> (\<forall>s. reported config (m s) (p s))"

lemma reports_apply:
  assumes "reports config m p"
  shows "p s = (Inr u, s1) \<Longrightarrow> m s = (Inr (), s1)"
    and "p s = (Inl e, s1) \<Longrightarrow> is_kerror e \<Longrightarrow> sd_errorcode (snd (m s)) = 1 \<and>
      (\<not> config_bool ''KDUMP_CONTINUE_ON_ERROR'' config \<longrightarrow> fst (m s) \<noteq> Inr ())"
    and "p s = (Inl e, s1) \<Longrightarrow> \<not> is_kerror e \<Longrightarrow> m s = (Inl e, s1)"
  using assms [unfolded reports_def reported_def, rule_format, of s] by simp_all

named_theorems reporting

lemma reports_guarded [reporting]: "reports config (guarded config p) p"
  by (auto simp: reports_def reported_def guarded_def sx_try_def setErrorCode_def sx_seq_modify sx_basic split: prod.split sum.split)

lemma reports_quiet:
  assumes "\<And>s e s1. p s = (Inl e, s1) \<Longrightarrow> \<not> is_kerror e"
  shows "reports config p p"
  using assms by (auto simp: reports_def reported_def split: prod.split sum.split)

lemma reports_seq [reporting]:
  assumes "reports config m p" and "reports config k q" and "sx_preserves code_raised k"
  shows "reports config (sx_seq m k) (sx_seq p q)"
  unfolding reports_def
proof
  fix s
  obtain r s1 where p: "p s = (r, s1)" by fastforce
  show "reported config (sx_seq m k s) (sx_seq p q s)"
  proof (cases r)
    case (Inr u)
    then have "m s = (Inr (), s1)" using reports_apply(1) [OF assms(1)] p by simp
    then show ?thesis using assms(2) p Inr by (simp add: sx_seq_Inr reports_def)
  next
    case (Inl e)
    obtain rm sm where m: "m s = (rm, sm)" by fastforce
    have q: "sx_seq p q s = (Inl e, s1)" using p Inl by (simp add: sx_seq_Inl)
    show ?thesis
    proof (cases "is_kerror e")
      case True
      have c: "sd_errorcode sm = 1" "\<not> config_bool ''KDUMP_CONTINUE_ON_ERROR'' config \<longrightarrow> rm \<noteq> Inr ()"
        using reports_apply(2) [OF assms(1) p [unfolded Inl] True] m by simp_all
      have "sd_errorcode (snd (k sm)) = 1" using assms(3) c(1) by (auto simp: sx_preserves_def code_raised_def dest!: spec [of _ sm])
      then show ?thesis using q True m c by (cases rm) (auto simp: reported_def sx_seq_def sx_bind_def)
    next
      case False
      then have "m s = (Inl e, s1)" using reports_apply(3) [OF assms(1)] p Inl by simp
      then show ?thesis using q False by (simp add: reported_def sx_seq_Inl)
    qed
  qed
qed

lemma reports_get [reporting]: "(\<And>s. reports config (f s) (g s)) \<Longrightarrow> reports config (sx_get f) (sx_get g)"
  by (simp add: reports_def sx_get_apply)

lemma reports_when [reporting]: "reports config m p \<Longrightarrow> reports config (sx_when b m) (sx_when b p)"
  by (simp add: sx_when_def reports_def reported_def sx_basic)

lemma reports_notification [reporting]: "reports config (sendNotification ops config failure urlv) (sendNotification ops config failure urlv)"
  by (rule reports_quiet)
    (auto simp: sendNotification_def Let_def sx_get_apply sx_basic sx_try_def split: if_splits prod.splits sum.splits)

lemma reports_commandline [reporting]: "reports config (commandline_release ops) (commandline_release ops)"
  by (rule reports_quiet)
    (auto simp: commandline_release_def sx_get_apply sx_when_def sx_basic sx_try_def split: if_splits prod.splits sum.splits)

text \<open>The handler of \<open>saveDump\<close> itself: the mail and the check come before the error is thrown again.\<close>

lemma reports_saveDump:
  "reports config
     (sx_try (saveDump ops config) (\<lambda>e.
        sx_seq (setErrorCode 1)
          (sx_seq (sendNotification ops config True urlv)
          (sx_seq (sx_try (checkAndDelete ops config urlv) (\<lambda>_. sx_return ()))
             (if config_bool ''KDUMP_CONTINUE_ON_ERROR'' config then sx_return () else sx_throw e)))))
     (saveDump ops config)"
proof -
  define h where "h e = sx_seq (sendNotification ops config True urlv)
     (sx_seq (sx_try (checkAndDelete ops config urlv) (\<lambda>_. sx_return ()))
       (if config_bool ''KDUMP_CONTINUE_ON_ERROR'' config then sx_return () else sx_throw e))" for e
  have k: "sx_preserves code_kept (h e)" for e unfolding h_def by (auto intro!: keeps)
  have t: "fst (h e s) \<noteq> Inr ()" if "\<not> config_bool ''KDUMP_CONTINUE_ON_ERROR'' config" for e s
    using that by (auto simp: h_def sx_seq_def sx_bind_def sx_throw_def split: prod.split sum.split)
  have "sd_errorcode (snd (sx_seq (setErrorCode 1) (h e) s)) = 1 \<and>
      (\<not> config_bool ''KDUMP_CONTINUE_ON_ERROR'' config \<longrightarrow> fst (sx_seq (setErrorCode 1) (h e) s) \<noteq> Inr ())" for e s
    using k [of e] t by (auto simp: setErrorCode_def sx_seq_modify sx_preserves_def code_kept_def)
  then show ?thesis
    unfolding h_def [symmetric] reports_def reported_def by (auto simp: sx_try_def split: prod.split sum.split)
qed

lemma reports_save_all: "reports config (save_all ops config urlv) (save_steps ops config urlv)"
proof -
  have "reports config (save_and_notify ops config urlv)
      (sx_seq (saveDump ops config) (sendNotification ops config False urlv))"
    unfolding save_and_notify_def
    by (rule reports_seq [OF reports_saveDump reports_notification]) (auto intro!: keeps kept_raised)
  moreover have "reports config (add_files ops config)
      (sx_seq (add_makedumpfile ops) (sx_seq (commandline_release ops) (sx_seq (generateInfo ops config)
        (sx_get (\<lambda>s. sx_when (sd_crashrelease s \<noteq> [])
          (sx_when (config_bool ''KDUMP_COPY_KERNEL'' config) (copyKernel ops)))))))"
    unfolding add_files_def
    by (intro reporting raised_seq raised_get raised_when raised_guarded kept_raised) (auto intro!: keeps)
  ultimately show ?thesis
    unfolding save_all_def save_steps_def
    by (intro reports_seq reports_guarded raised_seq raised_guarded raised_add_files kept_checkAndDelete)
qed

text \<open>The whole method is the preparations followed by \<open>save_all\<close>; the preparations leave the code alone.\<close>

lemma execute_prepare: "save_dump_execute ops config = sx_bind (save_prepare ops config) (save_all ops config)"
  by (rule ext)
    (auto simp: save_dump_execute_def save_prepare_def sx_get_def sx_seq_def sx_bind_def sx_throw_def sx_return_def
      split: prod.split sum.split)

lemma kept_transfer [keeps]: "sx_preserves code_kept (getTransfer ops urlv)"
  by (cases urlv) (auto simp: getTransfer_def intro!: keeps)

lemma kept_targets [keeps]: "sx_preserves code_kept (target_urls ops config subdir elems)"
proof (induction elems)
  case (Cons elem elems)
  have "sx_preserves code_kept (target_url ops config subdir elem)"
    unfolding target_url_def Let_def by (auto intro!: keeps split: option.split)
  then show ?case using Cons by (auto intro!: keeps)
qed (simp add: keeps)

lemma kept_fillVmcoreinfo [keeps]: "sx_preserves code_kept (fillVmcoreinfo ops)"
  unfolding sx_preserves_def
proof
  fix s
  let ?m = "\<lambda>vm. sx_seq
      (sx_try
        (sx_bind (sx_lift (getLLongValue ''CRASHTIME'' vm)) (\<lambda>t. sx_modify (\<lambda>s. s\<lparr>sd_crashtime := scast t\<rparr>)))
        (\<lambda>_. sx_modify (\<lambda>s. s\<lparr>sd_crashtime := so_time ops (sd_world s)\<rparr>)))
      (sx_try
        (sx_get (\<lambda>s. sx_when (sd_crashrelease s = [])
          (sx_bind (sx_lift (vm_getStringValue ''OSRELEASE'' vm)) (\<lambda>r. sx_modify (\<lambda>s. s\<lparr>sd_crashrelease := r\<rparr>)))))
        (\<lambda>_. sx_return ()))"
  have "sx_preserves code_kept (?m vm)" for vm by (auto intro!: keeps)
  then show "code_kept s (snd (fillVmcoreinfo ops s))"
    by (auto simp: fillVmcoreinfo_def sx_preserves_def code_kept_def split: prod.split sum.split)
qed

lemma kept_prepare: "sx_preserves code_kept (save_prepare ops config)"
  unfolding save_prepare_def by (auto intro!: keeps)

lemma kept_save_steps: "sx_preserves code_kept (save_steps ops config urlv)"
  unfolding save_steps_def by (auto intro!: keeps)

lemma execute_code:
  assumes "sd_errorcode s = 0"
  shows "case save_prepare ops config s of
      (Inl e, s1) \<Rightarrow> save_dump_execute ops config s = (Inl e, s1) \<and> sd_errorcode s1 = 0
    | (Inr urlv, s1) \<Rightarrow>
        (case save_steps ops config urlv s1 of
           (Inr _, s2) \<Rightarrow> save_dump_execute ops config s = (Inr (), s2) \<and> sd_errorcode s2 = 0
         | (Inl e, s2) \<Rightarrow>
             if is_kerror e
             then sd_errorcode (snd (save_dump_execute ops config s)) = 1 \<and>
               (\<not> config_bool ''KDUMP_CONTINUE_ON_ERROR'' config \<longrightarrow> fst (save_dump_execute ops config s) \<noteq> Inr ())
             else save_dump_execute ops config s = (Inl e, s2) \<and> sd_errorcode s2 = 0)"
proof -
  obtain r s1 where p: "save_prepare ops config s = (r, s1)" by fastforce
  have c1: "sd_errorcode s1 = 0" using kept_run [OF kept_prepare p] assms by simp
  show ?thesis
  proof (cases r)
    case (Inl e)
    then show ?thesis using p c1 by (simp add: execute_prepare sx_bind_Inl)
  next
    case (Inr urlv)
    have x: "save_dump_execute ops config s = save_all ops config urlv s1"
      using p Inr by (simp add: execute_prepare sx_bind_Inr)
    obtain r2 s2 where q: "save_steps ops config urlv s1 = (r2, s2)" by fastforce
    have "sd_errorcode s2 = 0" using kept_run [OF kept_save_steps q] c1 by simp
    then show ?thesis
      using reports_apply [OF reports_save_all, of ops config urlv s1] p Inr q by (cases r2) (simp_all add: x)
  qed
qed

section \<open>Disk space\<close>

text \<open>
  A check that returns has found enough space below every local target, and changed nothing. A limit in the range of
  \<^verbatim>\<open>int\<close> that is not negative is compared as the number it is.
\<close>

definition enough_space :: "'w save_ops \<Rightarrow> configuration \<Rightarrow> 'w \<Rightarrow> root_dir_url \<Rightarrow> bool" where
  "enough_space ops config w u \<longleftrightarrow>
     (\<exists>free. so_freeDiskSize ops w (getRealPath u) = Inr free \<and>
        config_int ''KDUMP_FREE_DISK_SIZE'' config \<le> int (unat free div 2 ^ 20))"

lemma check_limit:
  assumes "0 \<le> k" and "k \<le> INT_MAX"
  shows "bytes_to_megabytes free < (word_of_int k :: 64 word) \<longleftrightarrow> int (unat free div 2 ^ 20) < k"
proof -
  have "uint (word_of_int k :: 64 word) = k"
    using assms by (simp add: uint_word_of_int int_limits)
  moreover have "uint (bytes_to_megabytes free) = int (unat free div 2 ^ 20)"
    by (simp add: bytes_to_megabytes_def uint_div zdiv_int flip: zdiv_zmult2_eq)
  ultimately show ?thesis by (simp add: word_less_def)
qed

lemma checkAndDelete_returns:
  assumes "0 \<le> config_int ''KDUMP_FREE_DISK_SIZE'' config" and "config_int ''KDUMP_FREE_DISK_SIZE'' config \<le> INT_MAX"
    and "checkAndDelete ops config urlv s = (Inr (), s')"
  shows "s' = s \<and> (\<forall>u \<in> set urlv. m_protocol u = PROT_FILE \<longrightarrow> enough_space ops config (sd_world s) u)"
  using assms(3)
proof (induction urlv)
  case Nil
  then show ?case by (simp add: sx_basic)
next
  case (Cons u us)
  obtain s1 where 1: "check_one ops config u s = (Inr (), s1)" and 2: "checkAndDelete ops config us s1 = (Inr (), s')"
    using Cons.prems by (auto simp: sx_seq_eq_Inr_iff)
  have "s1 = s \<and> (m_protocol u = PROT_FILE \<longrightarrow> enough_space ops config (sd_world s) u)"
    using 1 check_limit [OF assms(1,2)]
    by (auto simp: check_one_def step_simps Let_def enough_space_def sx_seq_eq_Inr_iff sx_throw_def
        split: if_splits sum.splits)
  then show ?case using Cons.IH 2 by auto
qed

text \<open>A local target without enough space is removed, and the check throws.\<close>

lemma check_one_removes:
  assumes "0 \<le> config_int ''KDUMP_FREE_DISK_SIZE'' config" and "config_int ''KDUMP_FREE_DISK_SIZE'' config \<le> INT_MAX"
    and "m_protocol u = PROT_FILE" and "so_freeDiskSize ops (sd_world s) (getRealPath u) = Inr free"
    and "int (unat free div 2 ^ 20) < config_int ''KDUMP_FREE_DISK_SIZE'' config"
    and "so_rmdir ops (getRealPath u) (sd_world s) = (w', Inr ())"
  shows "check_one ops config u s =
    (Inl (KError ''Dump too large. Aborting. Check KDUMP_FREE_DISK_SIZE.''), s\<lparr>sd_world := w'\<rparr>)"
  using assms check_limit [OF assms(1,2)]
  by (simp add: check_one_def step_simps Let_def sx_seq_def sx_bind_def sx_world_def)

text \<open>A negative limit wraps to a huge one: the dump is always removed, however much space there is.\<close>

lemma check_one_negative:
  assumes "config_int ''KDUMP_FREE_DISK_SIZE'' config < 0" and "INT_MIN \<le> config_int ''KDUMP_FREE_DISK_SIZE'' config"
    and "m_protocol u = PROT_FILE" and "so_freeDiskSize ops (sd_world s) (getRealPath u) = Inr free"
    and "so_rmdir ops (getRealPath u) (sd_world s) = (w', Inr ())"
  shows "check_one ops config u s =
    (Inl (KError ''Dump too large. Aborting. Check KDUMP_FREE_DISK_SIZE.''), s\<lparr>sd_world := w'\<rparr>)"
proof -
  let ?k = "config_int ''KDUMP_FREE_DISK_SIZE'' config"
  have "?k mod 2 ^ 64 = (?k + 2 ^ 64) mod 2 ^ 64" by simp
  also have "\<dots> = ?k + 2 ^ 64" using assms(1,2) by (intro mod_pos_pos_trivial) (simp_all add: int_limits)
  finally have k: "uint (word_of_int ?k :: 64 word) = ?k + 2 ^ 64" by (simp add: uint_word_of_int)
  have "uint free < 2 ^ 64" using uint_lt2p [of free] by simp
  then have "uint (bytes_to_megabytes free) < 2 ^ 44"
    by (simp add: bytes_to_megabytes_def uint_div flip: zdiv_zmult2_eq)
  then have "bytes_to_megabytes free < (word_of_int ?k :: 64 word)"
    using k assms(2) by (simp add: word_less_def int_limits)
  then show ?thesis
    using assms by (simp add: check_one_def step_simps Let_def sx_seq_def sx_bind_def sx_world_def)
qed

section \<open>Mails\<close>

text \<open>Against a world that is the list of the mails sent.\<close>

definition mail_configured :: "configuration \<Rightarrow> 'w save_dump \<Rightarrow> bool" where
  "mail_configured config s \<longleftrightarrow> \<not> sd_nomail s \<and> sd_hostname s \<noteq> [] \<and>
     config_string ''KDUMP_SMTP_SERVER'' config \<noteq> [] \<and> config_string ''KDUMP_NOTIFICATION_TO'' config \<noteq> []"

lemma sendNotification_mail:
  assumes "\<And>m w. so_send ops m w = (w @ [m], Inr ())" and "mail_configured config s"
  shows "sendNotification ops config failure urlv s =
    (Inr (), s\<lparr>sd_world := sd_world s @ [notification failure urlv config (sd_hostname s)]\<rparr>)"
  using assms
  by (simp add: sendNotification_def mail_configured_def step_simps Let_def need_hostname_def
      sx_try_def sx_seq_def sx_bind_def sx_world_def)

lemma checkAndDelete_remote:
  "\<forall>u \<in> set urlv. m_protocol u \<noteq> PROT_FILE \<Longrightarrow> checkAndDelete ops config urlv s = (Inr (), s)"
  by (induction urlv) (simp_all add: check_one_def step_simps)

lemma save_and_notify_mails:
  assumes send: "\<And>m w. so_send ops m w = (w @ [m], Inr ())"
    and save: "saveDump ops config s = (r, s1)" and r: "\<And>e. r = Inl e \<Longrightarrow> is_kerror e"
    and mail: "mail_configured config s1" and "\<forall>u \<in> set urlv. m_protocol u \<noteq> PROT_FILE"
  shows "sd_world (snd (save_and_notify ops config urlv s)) = sd_world s1 @
    (if r = Inr () then [notification False urlv config (sd_hostname s1)]
     else notification True urlv config (sd_hostname s1) #
       (if config_bool ''KDUMP_CONTINUE_ON_ERROR'' config
        then [notification False urlv config (sd_hostname s1)] else []))"
proof (cases r)
  case (Inr u)
  then show ?thesis
    by (simp add: save_and_notify_def sx_seq_def sx_bind_def sx_try_def save sendNotification_mail [OF send mail])
next
  case (Inl e)
  have m: "mail_configured config (s1\<lparr>sd_errorcode := 1, sd_world := w\<rparr>)"
    "mail_configured config (s1\<lparr>sd_errorcode := 1\<rparr>)" for w
    using mail by (simp_all add: mail_configured_def)
  show ?thesis
    using r [OF Inl] Inl
    by (simp add: save_and_notify_def sx_seq_def sx_bind_def sx_try_def save setErrorCode_def sx_modify_def
        sendNotification_mail [OF send m(2)] sendNotification_mail [OF send m(1)]
        checkAndDelete_remote [OF assms(5)] sx_return_def sx_throw_def)
qed

section \<open>Uploads\<close>

text \<open>
  Against transfers that succeed and a world that is the list of what was uploaded under which names.
\<close>

type_synonym uploads = "(dump_source \<times> string list) list"

definition uploading :: "uploads save_ops \<Rightarrow> bool \<Rightarrow> bool" where
  "uploading ops direct \<longleftrightarrow>
     so_perform ops = (\<lambda>prot urlv source targets w. (w @ [(source, targets)], Inr (), Some direct))"

lemma transfer_perform_upload:
  assumes "uploading ops direct" and "sd_transfer s = Some t"
  shows "transfer_perform ops source targets d s =
    (Inr (), s\<lparr>sd_world := sd_world s @ [(source, targets)],
        sd_usedDirectSave := if d then direct else sd_usedDirectSave s\<rparr>)"
  using assms by (cases t) (simp add: transfer_perform_def uploading_def)

definition dmesg_source :: "string \<Rightarrow> dump_source" where
  "dmesg_source dump = ProcessSource (''makedumpfile --dump-dmesg -F '' @ dump) (''makedumpfile --dump-dmesg '' @ dump)"

lemma saveDump_uploads:
  assumes up: "uploading ops direct" and t: "sd_transfer s = Some t"
    and dump: "so_exists ops (sd_world s) (sd_dump s)" "so_fileSize ops (sd_world s) (sd_dump s) = Inr sz" "sz \<noteq> 0"
    and some: "\<not> dumpformat_is config ''none''"
    and cpus: "\<And>w. used_cpus ops config w = Inr cpus" and xen: "\<And>w p. so_isXenCoreDump ops w p = Inr xen"
    and x: "x \<longleftrightarrow> \<not> kdumptoolContainsFlag ''XENALLDOMAINS'' config \<and> xen"
  shows "saveDump ops config s =
    (Inr (), (set_parallel config cpus s)\<lparr>sd_world := sd_world s @ [(dmesg_source (sd_dump s), [''dmesg.txt'']),
         (dump_provider config x (set_parallel config cpus s), dump_targets (sd_split (set_parallel config cpus s)))],
       sd_useMakedumpfile := uses_makedumpfile config x, sd_usedDirectSave := direct\<rparr>)"
proof -
  define s1 where "s1 = s\<lparr>sd_world := sd_world s @ [(dmesg_source (sd_dump s), [''dmesg.txt''])]\<rparr>"
  have dmesg: "save_dmesg ops s = (Inr (), s1)"
    using transfer_perform_upload [OF up t] by (simp add: save_dmesg_def s1_def dmesg_source_def)
  have ex: "excludes_domU ops config s' = Inr x" for s'
    by (simp add: excludes_domU_def xen x)
  have w: "set_parallel config cpus (s'\<lparr>sd_world := w\<rparr>) = (set_parallel config cpus s')\<lparr>sd_world := w\<rparr>" for s' w
    by (simp add: set_parallel_def)
  have par: "sd_transfer (set_parallel config cpus s') = sd_transfer s'"
    "sd_world (set_parallel config cpus s') = sd_world s'" for s'
    by (simp_all add: set_parallel_def)
  have prov: "dump_provider config x (s'\<lparr>sd_world := w\<rparr>) = dump_provider config x s'" for s' w
    by (simp add: dump_provider_def makedumpfile_cmdline_def Let_def)
  let ?p = "set_parallel config cpus s"
  have "saveDump ops config s = transfer_perform ops (dump_provider config x ?p) (dump_targets (sd_split ?p)) True
      ((?p\<lparr>sd_world := sd_world s1\<rparr>)\<lparr>sd_useMakedumpfile := uses_makedumpfile config x\<rparr>)"
    using up t dump some
    by (simp add: saveDump_def step_simps sx_seq_Inr [where m = "save_dmesg ops", OF dmesg] cpus ex) (simp add: s1_def w prov)
  also have "\<dots> = (Inr (), ?p\<lparr>sd_world := sd_world s @ [(dmesg_source (sd_dump s), [''dmesg.txt'']),
         (dump_provider config x ?p, dump_targets (sd_split ?p))],
       sd_useMakedumpfile := uses_makedumpfile config x, sd_usedDirectSave := direct\<rparr>)"
    by (subst transfer_perform_upload [OF up, where t = t]) (simp_all add: t par s1_def)
  finally show ?thesis .
qed

text \<open>The environment of a complete run: nothing is missing, and its answers do not depend on what was uploaded.\<close>

definition complete_env :: "uploads save_ops \<Rightarrow> uploads save_dump \<Rightarrow> string \<Rightarrow> string \<Rightarrow> string \<Rightarrow> bool" where
  "complete_env ops s mapfile kimage script \<longleftrightarrow>
     sd_hostname s \<noteq> [] \<and> sd_crashrelease s \<noteq> [] \<and>
     (\<forall>w. find (so_exists ops w) makedumpfile_R_paths = Some script \<and>
        (\<forall>s'. sd_rootdir s' = sd_rootdir s \<longrightarrow> sd_crashrelease s' = sd_crashrelease s \<longrightarrow>
           findMapfile ops s' = Inr mapfile \<and> sd_findKernel ops s' = Inr kimage))"

definition extra_uploads ::
    "uploads save_ops \<Rightarrow> configuration \<Rightarrow> uploads save_dump \<Rightarrow> string \<Rightarrow> string \<Rightarrow> string \<Rightarrow> uploads" where
  "extra_uploads ops config s mapfile kimage script =
     (if sd_useMakedumpfile s \<and> \<not> sd_usedDirectSave s
      then [(FileSource script, [''makedumpfile-R.pl'']), (BufferSource rearrange_script, [''rearrange.sh''])]
      else []) @
     [(BufferSource (info_text ops config s), [''README.txt''])] @
     (if config_bool ''KDUMP_COPY_KERNEL'' config
      then [(FileSource (appendPath (sd_rootdir s) mapfile), [baseName mapfile]),
            (FileSource (appendPath (sd_rootdir s) kimage), [baseName kimage])]
      else [])"

lemma guarded_Inr: "m s = (Inr a, s') \<Longrightarrow> guarded config m s = (Inr a, s')"
  by (simp add: guarded_def sx_try_Inr)

lemma add_makedumpfile_uploads:
  assumes up: "uploading ops direct" and t: "sd_transfer s = Some t" and env: "complete_env ops s mapfile kimage script"
  shows "add_makedumpfile ops s = (Inr (), s\<lparr>sd_world := sd_world s @
    (if sd_useMakedumpfile s \<and> \<not> sd_usedDirectSave s
     then [(FileSource script, [''makedumpfile-R.pl'']), (BufferSource rearrange_script, [''rearrange.sh''])]
     else [])\<rparr>)"
  using env t
  by (auto simp add: add_makedumpfile_def step_simps copyMakedumpfile_def complete_env_def generateRearrange_def
      sx_seq_def sx_bind_def sx_when_def transfer_perform_upload [OF up, where t = t])

lemma generateInfo_uploads:
  assumes up: "uploading ops direct" and t: "sd_transfer s = Some t" and "sd_hostname s \<noteq> []"
  shows "generateInfo ops config s =
    (Inr (), s\<lparr>sd_world := sd_world s @ [(BufferSource (info_text ops config s), [''README.txt''])]\<rparr>)"
  using assms(3)
  by (simp add: generateInfo_def need_hostname_def sx_seq_def sx_bind_def step_simps t
      transfer_perform_upload [OF up, where t = t])

lemma copyKernel_uploads:
  assumes up: "uploading ops direct" and t: "sd_transfer s = Some t"
    and "findMapfile ops s = Inr mapfile" and "sd_findKernel ops s = Inr kimage"
  shows "copyKernel ops s = (Inr (), s\<lparr>sd_world := sd_world s @
    [(FileSource (appendPath (sd_rootdir s) mapfile), [baseName mapfile]),
     (FileSource (appendPath (sd_rootdir s) kimage), [baseName kimage])]\<rparr>)"
  using assms(3,4)
  by (simp add: copyKernel_def step_simps t sx_seq_def sx_bind_def transfer_perform_upload [OF up, where t = t])

lemma add_files_uploads:
  assumes up: "uploading ops direct" and t: "sd_transfer s = Some t" and env: "complete_env ops s mapfile kimage script"
  shows "add_files ops config s =
    (Inr (), s\<lparr>sd_world := sd_world s @ extra_uploads ops config s mapfile kimage script\<rparr>)"
proof -
  define fs where "fs = (if sd_useMakedumpfile s \<and> \<not> sd_usedDirectSave s
     then [(FileSource script, [''makedumpfile-R.pl'']), (BufferSource rearrange_script, [''rearrange.sh''])] else [])"
  define s1 where "s1 = s\<lparr>sd_world := sd_world s @ fs\<rparr>"
  define s2 where "s2 = s1\<lparr>sd_world := sd_world s1 @ [(BufferSource (info_text ops config s1), [''README.txt''])]\<rparr>"
  have 1: "guarded config (add_makedumpfile ops) s = (Inr (), s1)"
    using add_makedumpfile_uploads [OF assms] by (intro guarded_Inr) (simp add: s1_def fs_def)
  have rel: "sd_crashrelease s1 \<noteq> []" "sd_hostname s1 \<noteq> []" "sd_transfer s1 = Some t" "sd_transfer s2 = Some t"
      "sd_crashrelease s2 \<noteq> []"
    using env t by (simp_all add: s1_def s2_def complete_env_def)
  then have 2: "commandline_release ops s1 = (Inr (), s1)"
    by (simp add: commandline_release_def step_simps)
  have 3: "guarded config (generateInfo ops config) s1 = (Inr (), s2)"
    using generateInfo_uploads [OF up rel(3,2)] by (intro guarded_Inr) (simp add: s2_def)
  have found: "findMapfile ops s2 = Inr mapfile" "sd_findKernel ops s2 = Inr kimage"
    using env by (simp_all add: complete_env_def s1_def s2_def)
  have info: "info_text ops config (s\<lparr>sd_world := w\<rparr>) = info_text ops config s" for w
    by (simp add: info_text_def)
  have 4: "copyKernel ops s2 = (Inr (), s2\<lparr>sd_world := sd_world s2 @
      [(FileSource (appendPath (sd_rootdir s) mapfile), [baseName mapfile]),
       (FileSource (appendPath (sd_rootdir s) kimage), [baseName kimage])]\<rparr>)"
    using copyKernel_uploads [OF up rel(4) found] by (simp add: s1_def s2_def)
  note run = sx_seq_Inr [where m = "guarded config (add_makedumpfile ops)", OF 1]
    sx_seq_Inr [where m = "commandline_release ops", OF 2]
    sx_seq_Inr [where m = "guarded config (generateInfo ops config)", OF 3]
  show ?thesis
    using 4
    by (cases "config_bool ''KDUMP_COPY_KERNEL'' config")
      (simp_all add: add_files_def run step_simps rel guarded_Inr,
       simp_all add: extra_uploads_def s2_def s1_def fs_def info)
qed

lemma checkAndDelete_enough:
  assumes "0 \<le> config_int ''KDUMP_FREE_DISK_SIZE'' config" and "config_int ''KDUMP_FREE_DISK_SIZE'' config \<le> INT_MAX"
    and "\<forall>u \<in> set urlv. m_protocol u = PROT_FILE \<longrightarrow> enough_space ops config (sd_world s) u"
  shows "checkAndDelete ops config urlv s = (Inr (), s)"
  using assms(3)
proof (induction urlv)
  case Nil
  then show ?case by (simp add: sx_basic)
next
  case (Cons u us)
  then have "check_one ops config u s = (Inr (), s)"
    using check_limit [OF assms(1,2)]
    by (auto simp: check_one_def step_simps enough_space_def Let_def not_less)
  with Cons show ?case by (simp add: sx_seq_def sx_bind_def)
qed

text \<open>A complete run: the dump, the files to go with it, and no error code.\<close>

definition run_env :: "uploads save_ops \<Rightarrow> configuration \<Rightarrow> root_dir_url list \<Rightarrow> uploads save_dump \<Rightarrow> nat \<Rightarrow> bool \<Rightarrow> bool" where
  "run_env ops config urlv s cpus xen \<longleftrightarrow>
     sd_transfer s \<noteq> None \<and> sd_nomail s \<and> so_exists ops (sd_world s) (sd_dump s) \<and>
     (\<exists>sz. so_fileSize ops (sd_world s) (sd_dump s) = Inr sz \<and> sz \<noteq> 0) \<and>
     (\<forall>w p. used_cpus ops config w = Inr cpus \<and> so_isXenCoreDump ops w p = Inr xen) \<and>
     0 \<le> config_int ''KDUMP_FREE_DISK_SIZE'' config \<and> config_int ''KDUMP_FREE_DISK_SIZE'' config \<le> INT_MAX \<and>
     (\<forall>u \<in> set urlv. \<forall>w. m_protocol u = PROT_FILE \<longrightarrow> enough_space ops config w u)"

lemma save_all_uploads:
  assumes up: "uploading ops direct" and run: "run_env ops config urlv s cpus xen"
    and env: "complete_env ops s mapfile kimage script" and some: "\<not> dumpformat_is config ''none''"
    and x: "x \<longleftrightarrow> \<not> kdumptoolContainsFlag ''XENALLDOMAINS'' config \<and> xen"
    and s1: "s1 = (set_parallel config cpus s)\<lparr>sd_useMakedumpfile := uses_makedumpfile config x, sd_usedDirectSave := direct\<rparr>"
  shows "save_all ops config urlv s = (Inr (), s1\<lparr>sd_world := sd_world s @
      [(dmesg_source (sd_dump s), [''dmesg.txt'']), (dump_provider config x s1, dump_targets (sd_split s1))] @
      extra_uploads ops config s1 mapfile kimage script\<rparr>)"
proof -
  obtain t where t: "sd_transfer s = Some t" using run by (auto simp: run_env_def)
  obtain sz where sz: "so_fileSize ops (sd_world s) (sd_dump s) = Inr sz" "sz \<noteq> 0"
    using run by (auto simp: run_env_def)
  let ?p = "set_parallel config cpus s"
  define s2 where "s2 = s1\<lparr>sd_world := sd_world s @
      [(dmesg_source (sd_dump s), [''dmesg.txt'']), (dump_provider config x s1, dump_targets (sd_split s1))]\<rparr>"
  have par: "sd_transfer ?p = sd_transfer s" "sd_nomail ?p = sd_nomail s" "sd_hostname ?p = sd_hostname s"
    "sd_crashrelease ?p = sd_crashrelease s" "sd_rootdir ?p = sd_rootdir s" "sd_dump ?p = sd_dump s"
    by (simp_all add: set_parallel_def)
  have prov: "dump_provider config x s1 = dump_provider config x ?p"
    by (simp add: s1 dump_provider_def makedumpfile_cmdline_def Let_def)
  have "saveDump ops config s = (Inr (), s2)"
    using saveDump_uploads [OF up t _ sz some _ _ x, where cpus = cpus] run
    by (simp add: run_env_def s2_def s1 prov [unfolded s1])
  moreover have nomail: "sendNotification ops config failure urlv s2 = (Inr (), s2)" for failure
    using run par by (simp add: sendNotification_def step_simps s2_def s1 run_env_def Let_def)
  ultimately have 1: "save_and_notify ops config urlv s = (Inr (), s2)"
    by (simp add: save_and_notify_def sx_seq_def sx_bind_def sx_try_def)
  have 2: "guarded config (checkAndDelete ops config urlv) s2 = (Inr (), s2)"
    using run by (intro guarded_Inr checkAndDelete_enough) (simp_all add: run_env_def)
  have "sd_transfer s2 = Some t" and env2: "complete_env ops s2 mapfile kimage script"
    using t env by (simp_all add: s2_def s1 par complete_env_def)
  note 3 = add_files_uploads [OF up this, of config]
  have extra: "extra_uploads ops config s2 mapfile kimage script = extra_uploads ops config s1 mapfile kimage script"
    by (simp add: extra_uploads_def info_text_def s2_def)
  show ?thesis
    using 1 2 3 by (simp add: save_all_def sx_seq_def sx_bind_def extra) (simp add: s2_def)
qed

end
