(* ===== verification/Istream.thy ===== *)
theory Istream
  imports StringUtil
begin

text \<open>
  The formatted and unformatted input of \<^verbatim>\<open>std::istream\<close> that the sources use, on the characters not read yet and the
  three state bits. A broken stream ends in a read error instead of an end of file. \<^verbatim>\<open>unsigned long\<close> is a 64-bit
  word.
\<close>

record istream =
  is_rest :: string
  is_broken :: bool
  is_eof :: bool
  is_fail :: bool
  is_bad :: bool

definition istream_new :: "string \<Rightarrow> istream" where
  "istream_new s = \<lparr>is_rest = s, is_broken = False, is_eof = False, is_fail = False, is_bad = False\<rparr>"

text \<open>\<^verbatim>\<open>good()\<close>, the conversion to \<^verbatim>\<open>bool\<close>, \<^verbatim>\<open>setstate(failbit)\<close>, and what reaching the end does.\<close>

definition is_good :: "istream \<Rightarrow> bool" where
  "is_good f \<longleftrightarrow> \<not> is_eof f \<and> \<not> is_fail f \<and> \<not> is_bad f"

definition is_ok :: "istream \<Rightarrow> bool" where
  "is_ok f \<longleftrightarrow> \<not> is_fail f \<and> \<not> is_bad f"

definition set_fail :: "istream \<Rightarrow> istream" where
  "set_fail f = f\<lparr>is_fail := True\<rparr>"

definition at_end :: "istream \<Rightarrow> istream" where
  "at_end f = (if is_rest f \<noteq> [] then f
     else if is_broken f then f\<lparr>is_bad := True\<rparr> else f\<lparr>is_eof := True\<rparr>)"

text \<open>The sentry of a formatted extraction skips white space; a stream that is not good fails.\<close>

definition sentry :: "istream \<Rightarrow> istream" where
  "sentry f =
     (if \<not> is_good f then set_fail f
      else let f' = at_end (f\<lparr>is_rest := dropWhile isspace (is_rest f)\<rparr>)
           in if is_good f' then f' else set_fail f')"

definition sentry_noskip :: "istream \<Rightarrow> istream" where
  "sentry_noskip f = (if is_good f then f else set_fail f)"

section \<open>Formatted input\<close>

definition ULONG_MAX :: nat where
  "ULONG_MAX = 2 ^ 64 - 1"

datatype numbase = Dec | Hex

fun is_base_digit :: "numbase \<Rightarrow> char \<Rightarrow> bool" where
  "is_base_digit Dec c = isdigit c"
| "is_base_digit Hex c = isxdigit c"

fun base_val :: "numbase \<Rightarrow> string \<Rightarrow> nat" where
  "base_val Dec s = dec_val s"
| "base_val Hex s = foldl (\<lambda>a c. 16 * a + (case hex2int c of Inr d \<Rightarrow> d | Inl _ \<Rightarrow> 0)) 0 s"

definition skip_sign :: "string \<Rightarrow> string" where
  "skip_sign s = (case s of c # cs \<Rightarrow> if c = CHR ''-'' \<or> c = CHR ''+'' then cs else s | [] \<Rightarrow> [])"

definition skip_prefix :: "numbase \<Rightarrow> string \<Rightarrow> string" where
  "skip_prefix b s =
     (if b = Hex \<and> take 1 s = ''0'' \<and> (take 1 (drop 1 s) = ''x'' \<or> take 1 (drop 1 s) = ''X'') then drop 2 s else s)"

text \<open>
  \<^verbatim>\<open>f >> n\<close> for an \<^verbatim>\<open>unsigned long\<close>: \<^const>\<open>None\<close> leaves the variable alone. A minus sign negates modulo
  \<open>2 ^ 64\<close>; a number that is too large gives the maximum and fails.
\<close>

definition get_ulong :: "numbase \<Rightarrow> istream \<Rightarrow> 64 word option \<times> istream" where
  "get_ulong b f =
     (let f1 = sentry f
      in if \<not> is_good f1 then (None, f1)
         else
           let neg = (take 1 (is_rest f1) = ''-'');
               u = skip_prefix b (skip_sign (is_rest f1));
               ds = takeWhile (is_base_digit b) u;
               f2 = at_end (f1\<lparr>is_rest := dropWhile (is_base_digit b) u\<rparr>)
           in if ds = [] then (Some 0, set_fail f2)
              else if base_val b ds > ULONG_MAX then (Some (of_nat ULONG_MAX), set_fail f2)
              else (Some (if neg then - of_nat (base_val b ds) else of_nat (base_val b ds)), f2))"

text \<open>\<^verbatim>\<open>f >> s\<close> for a string and \<^verbatim>\<open>f >> c\<close> for a character.\<close>

definition get_word :: "istream \<Rightarrow> string option \<times> istream" where
  "get_word f =
     (let f1 = sentry f
      in if \<not> is_good f1 then (None, f1)
         else (Some (takeWhile (\<lambda>c. \<not> isspace c) (is_rest f1)),
               at_end (f1\<lparr>is_rest := dropWhile (\<lambda>c. \<not> isspace c) (is_rest f1)\<rparr>)))"

definition get_char :: "istream \<Rightarrow> char option \<times> istream" where
  "get_char f =
     (let f1 = sentry f
      in if \<not> is_good f1 then (None, f1) else (Some (hd (is_rest f1)), f1\<lparr>is_rest := tl (is_rest f1)\<rparr>))"

section \<open>Unformatted input\<close>

text \<open>\<^verbatim>\<open>f.get()\<close>, \<^verbatim>\<open>f.peek()\<close> (\<^const>\<open>None\<close> is \<^verbatim>\<open>EOF\<close>), \<^verbatim>\<open>f.unget()\<close> of the character read last.\<close>

definition is_get :: "istream \<Rightarrow> char option \<times> istream" where
  "is_get f =
     (let f1 = sentry_noskip f
      in if \<not> is_good f1 then (None, f1)
         else case is_rest f1 of
                [] \<Rightarrow> (None, set_fail (at_end f1))
              | c # cs \<Rightarrow> (Some c, f1\<lparr>is_rest := cs\<rparr>))"

definition is_peek :: "istream \<Rightarrow> char option \<times> istream" where
  "is_peek f =
     (let f1 = sentry_noskip f
      in if \<not> is_good f1 then (None, f1)
         else case is_rest f1 of [] \<Rightarrow> (None, at_end f1) | c # cs \<Rightarrow> (Some c, f1))"

definition is_unget :: "char option \<Rightarrow> istream \<Rightarrow> istream" where
  "is_unget c f =
     (let f1 = sentry_noskip (f\<lparr>is_eof := False\<rparr>)
      in if \<not> is_good f1 then f1
         else case c of None \<Rightarrow> f1\<lparr>is_bad := True\<rparr> | Some c' \<Rightarrow> f1\<lparr>is_rest := c' # is_rest f1\<rparr>)"

text \<open>\<^verbatim>\<open>f.ignore(max, '\n')\<close> and \<^verbatim>\<open>getline(f, str)\<close>.\<close>

definition is_ignore_line :: "istream \<Rightarrow> istream" where
  "is_ignore_line f =
     (let f1 = sentry_noskip f
      in if \<not> is_good f1 then f1
         else case dropWhile (\<lambda>c. c \<noteq> NL) (is_rest f1) of
                [] \<Rightarrow> at_end (f1\<lparr>is_rest := []\<rparr>)
              | c # cs \<Rightarrow> f1\<lparr>is_rest := cs\<rparr>)"

definition is_getline :: "istream \<Rightarrow> string option \<times> istream" where
  "is_getline f =
     (let f1 = sentry_noskip f
      in if \<not> is_good f1 then (None, f1)
         else let l = takeWhile (\<lambda>c. c \<noteq> NL) (is_rest f1)
              in case dropWhile (\<lambda>c. c \<noteq> NL) (is_rest f1) of
                   [] \<Rightarrow> (Some l, (if l = [] then set_fail else (\<lambda>f. f)) (at_end (f1\<lparr>is_rest := []\<rparr>)))
                 | c # cs \<Rightarrow> (Some l, f1\<lparr>is_rest := cs\<rparr>))"

text \<open>
  \<^verbatim>\<open>f.getline(buf, n)\<close> stores at most \<open>n - 1\<close> characters; a longer line fails.
\<close>

definition is_getline_buf :: "nat \<Rightarrow> istream \<Rightarrow> string \<times> istream" where
  "is_getline_buf n f =
     (let f1 = sentry_noskip f
      in if \<not> is_good f1 then ([], f1)
         else let l = takeWhile (\<lambda>c. c \<noteq> NL) (is_rest f1); r = dropWhile (\<lambda>c. c \<noteq> NL) (is_rest f1)
              in if length l \<ge> n \<or> (length l = n - 1 \<and> r = [] \<and> is_broken f1)
                 then (take (n - 1) l, set_fail (f1\<lparr>is_rest := drop (n - 1) (is_rest f1)\<rparr>))
                 else case r of
                        [] \<Rightarrow> (l, (if l = [] then set_fail else (\<lambda>f. f)) (at_end (f1\<lparr>is_rest := []\<rparr>)))
                      | c # cs \<Rightarrow> (l, f1\<lparr>is_rest := cs\<rparr>))"

section \<open>Reading consumes\<close>

text \<open>An extraction that leaves the stream usable has consumed something: what the loops end on.\<close>

lemma length_dropWhile_le_tl: "length (dropWhile P s) \<le> length s"
  by (rule length_dropWhile_le)

lemma at_end_sel [simp]: "is_rest (at_end f) = is_rest f" "is_fail (at_end f) = is_fail f" "is_broken (at_end f) = is_broken f"
  by (simp_all add: at_end_def)

lemma set_fail_sel [simp]:
  "is_rest (set_fail f) = is_rest f" "is_fail (set_fail f)" "is_broken (set_fail f) = is_broken f"
  "is_eof (set_fail f) = is_eof f" "is_bad (set_fail f) = is_bad f"
  by (simp_all add: set_fail_def)

lemma sentry_rest: "length (is_rest (sentry f)) \<le> length (is_rest f)"
  by (auto simp: sentry_def Let_def length_dropWhile_le)

lemma sentry_good: "is_good (sentry f) \<Longrightarrow> is_rest (sentry f) \<noteq> []"
  by (auto simp: sentry_def Let_def is_good_def at_end_def split: if_splits)

lemma not_good_fail: "is_ok (set_fail f) = False"
  by (simp add: is_ok_def)

lemma sentry_bad: "\<not> is_good (sentry f) \<Longrightarrow> \<not> is_ok (sentry f)"
  by (auto simp: sentry_def Let_def is_good_def is_ok_def split: if_splits)

lemma skip_sign_length: "length (skip_sign s) \<le> length s"
  by (cases s) (auto simp: skip_sign_def)

lemma skip_prefix_length: "length (skip_prefix b s) \<le> length s"
  by (simp add: skip_prefix_def)

lemma get_ulong_rest: "length (is_rest (snd (get_ulong b f))) \<le> length (is_rest f)"
proof -
  let ?r = "is_rest (sentry f)"
  have "length (dropWhile (is_base_digit b) (skip_prefix b (skip_sign ?r))) \<le> length ?r"
    using length_dropWhile_le [of "is_base_digit b" "skip_prefix b (skip_sign ?r)"]
      skip_prefix_length [of b "skip_sign ?r"] skip_sign_length [of ?r] by simp
  then show ?thesis
    using sentry_rest [of f] by (simp add: get_ulong_def Let_def)
qed

lemma get_ulong_consumes:
  assumes "get_ulong b f = (v, f')" and "is_ok f'"
  shows "length (is_rest f') < length (is_rest f)"
proof -
  let ?r = "is_rest (sentry f)"
  let ?u = "skip_prefix b (skip_sign ?r)"
  from assms have ds: "takeWhile (is_base_digit b) ?u \<noteq> []" and f': "is_rest f' = dropWhile (is_base_digit b) ?u"
    by (auto simp: get_ulong_def Let_def not_good_fail dest: sentry_bad split: if_splits)
  have "length (takeWhile (is_base_digit b) ?u) + length (dropWhile (is_base_digit b) ?u) = length ?u"
    by (metis length_append takeWhile_dropWhile_id)
  with ds f' have "length (is_rest f') < length ?u" by (cases "takeWhile (is_base_digit b) ?u") auto
  then show ?thesis
    using skip_prefix_length [of b "skip_sign ?r"] skip_sign_length [of ?r] sentry_rest [of f] by simp
qed

lemma get_char_rest: "length (is_rest (snd (get_char f))) \<le> length (is_rest f)"
  using sentry_rest [of f] by (auto simp add: get_char_def Let_def)

lemma takeWhile_dropWhile_length: "length (takeWhile P s) + length (dropWhile P s) = length s"
  by (metis length_append takeWhile_dropWhile_id)

lemma sentry_noskip_sel [simp]: "is_rest (sentry_noskip f) = is_rest f"
  by (simp add: sentry_noskip_def)

lemma sentry_noskip_bad: "\<not> is_good (sentry_noskip f) \<Longrightarrow> \<not> is_ok (sentry_noskip f)"
  by (auto simp: sentry_noskip_def is_good_def is_ok_def split: if_splits)

lemma is_getline_buf_consumes:
  assumes "is_getline_buf n f = (l, f')" and "is_ok f'"
  shows "length (is_rest f') < length (is_rest f)"
proof -
  let ?P = "\<lambda>c. c \<noteq> NL"
  have len: "length (takeWhile ?P (is_rest f)) + length (dropWhile ?P (is_rest f)) = length (is_rest f)"
    by (rule takeWhile_dropWhile_length)
  have g: "is_good (sentry_noskip f)"
  proof (rule ccontr)
    assume "\<not> is_good (sentry_noskip f)"
    with assms sentry_noskip_bad [of f] show False by (auto simp: is_getline_buf_def)
  qed
  show ?thesis
  proof (cases "dropWhile ?P (is_rest f)")
    case Nil
    show ?thesis
    proof (cases "is_rest f = []")
      case True
      then show ?thesis
        using assms g by (auto simp: is_getline_buf_def Let_def not_good_fail split: if_splits)
    next
      case False
      then show ?thesis
        using assms g Nil
        by (auto simp: is_getline_buf_def Let_def not_good_fail simp del: dropWhile_eq_Nil_conv split: if_splits)
    qed
  next
    case (Cons c cs)
    then show ?thesis
      using assms g len by (auto simp: is_getline_buf_def Let_def not_good_fail split: if_splits)
  qed
qed

text \<open>A character array as a string ends at the first NUL.\<close>

definition c_string :: "string \<Rightarrow> string" where
  "c_string s = takeWhile (\<lambda>c. c \<noteq> NUL) s"

section \<open>Reading what was printed\<close>

lemma istream_new_sel [simp]:
  "is_rest (istream_new s) = s" "is_good (istream_new s)" "is_ok (istream_new s)" "\<not> is_eof (istream_new s)"
  "\<not> is_bad (istream_new s)" "\<not> is_fail (istream_new s)" "\<not> is_broken (istream_new s)"
  by (simp_all add: istream_new_def is_good_def is_ok_def)

lemma istream_new_update [simp]: "(istream_new s)\<lparr>is_rest := t\<rparr> = istream_new t"
  by (simp add: istream_new_def)

lemma at_end_new [simp]: "s \<noteq> [] \<Longrightarrow> at_end (istream_new s) = istream_new s"
  by (simp add: at_end_def)

lemma sentry_new: "s \<noteq> [] \<Longrightarrow> \<not> isspace (hd s) \<Longrightarrow> sentry (istream_new s) = istream_new s"
  by (cases s) (simp_all add: sentry_def Let_def)

lemma sentry_new_space: "isspace c \<Longrightarrow> sentry (istream_new (c # s)) = sentry (istream_new s)"
  by (simp add: sentry_def Let_def)

lemma sentry_noskip_new [simp]: "sentry_noskip (istream_new s) = istream_new s"
  by (simp add: sentry_noskip_def)

lemma get_ulong_digits:
  assumes ds: "ds \<noteq> []" "\<forall>c \<in> set ds. is_base_digit b c" and c: "\<not> is_base_digit b c" "c \<noteq> CHR ''x''" "c \<noteq> CHR ''X''"
    and v: "base_val b ds < 2 ^ 64" and x: "b = Dec \<or> take 1 (drop 1 ds) \<noteq> ''x'' \<and> take 1 (drop 1 ds) \<noteq> ''X''"
  shows "get_ulong b (istream_new (ds @ c # r)) = (Some (of_nat (base_val b ds)), istream_new (c # r))"
proof -
  obtain d ds' where d: "ds = d # ds'" "is_base_digit b d" using ds by (cases ds) auto
  have ns: "\<not> isspace d" "d \<noteq> CHR ''-''" "d \<noteq> CHR ''+''"
    using d(2) by (cases b; auto simp: char_class)+
  have pre: "skip_prefix b (ds @ c # r) = ds @ c # r"
    using x c d by (cases ds') (auto simp: skip_prefix_def)
  have tw: "takeWhile (is_base_digit b) (ds @ c # r) = ds" "dropWhile (is_base_digit b) (ds @ c # r) = c # r"
    using ds(2) c(1) by (auto simp: takeWhile_append2 dropWhile_append2)
  have "sentry (istream_new (ds @ c # r)) = istream_new (ds @ c # r)"
    using ns(1) d(1) by (intro sentry_new) auto
  then show ?thesis
    using v ds(1) ns d(1) by (simp add: get_ulong_def Let_def skip_sign_def pre [unfolded d(1), simplified]
        tw [unfolded d(1), simplified] ULONG_MAX_def)
qed

definition pad_hex :: "nat \<Rightarrow> nat \<Rightarrow> string" where
  "pad_hex w n = replicate (w - length (hex_of_nat n)) (CHR ''0'') @ hex_of_nat n"

lemma hex_of_nat_xdigits: "c \<in> set (hex_of_nat n) \<Longrightarrow> isxdigit c"
proof (induction n rule: hex_of_nat.induct)
  case (1 n)
  then show ?case
    by (subst (asm) (2) hex_of_nat.simps) (auto simp: isxdigit_hex_digit split: if_splits)
qed

lemma hex_of_nat_nonempty [simp]: "hex_of_nat n \<noteq> []"
  by (subst hex_of_nat.simps) simp

lemma base_val_hex_snoc: "base_val Hex (s @ [c]) = 16 * base_val Hex s + (case hex2int c of Inr d \<Rightarrow> d | Inl _ \<Rightarrow> 0)"
  by simp

lemma base_val_hex_of_nat: "base_val Hex (hex_of_nat n) = n"
proof (induction n rule: hex_of_nat.induct)
  case (1 n)
  show ?case
  proof (cases "n < 16")
    case True
    then show ?thesis by (subst hex_of_nat.simps) (simp add: hex2int_hex_digit)
  next
    case False
    then show ?thesis
      using "1.IH" by (subst hex_of_nat.simps) (simp add: base_val_hex_snoc hex2int_hex_digit del: base_val.simps)
  qed
qed

lemma base_val_zeros: "base_val Hex (replicate k (CHR ''0'') @ s) = base_val Hex s"
  by (induction k) (simp_all add: hex2int_def isdigit_def ord_def)

lemma pad_hex_digits:
  "\<forall>c \<in> set (pad_hex w n). is_base_digit Hex c" "pad_hex w n \<noteq> []" "base_val Hex (pad_hex w n) = n"
  using hex_of_nat_xdigits [of _ n] base_val_hex_of_nat [of n]
  by (auto simp: pad_hex_def base_val_zeros simp del: base_val.simps) (auto simp: char_class)

lemma get_ulong_pad_hex:
  assumes "n < 2 ^ 64" and "\<not> isxdigit c" and "c \<noteq> CHR ''x''" and "c \<noteq> CHR ''X''"
  shows "get_ulong Hex (istream_new (pad_hex w n @ c # r)) = (Some (of_nat n), istream_new (c # r))"
proof -
  have "take 1 (drop 1 (pad_hex w n)) \<noteq> [x]" if "\<not> isxdigit x" for x
    using pad_hex_digits(1) [of w n] that in_set_dropD [of x 1 "pad_hex w n"]
    by (cases "drop 1 (pad_hex w n)") auto
  from this [of "CHR ''x''"] this [of "CHR ''X''"] show ?thesis
    using get_ulong_digits [of "pad_hex w n" Hex c r] pad_hex_digits [of w n] assms by (auto simp: char_class)
qed

lemma get_ulong_dec:
  assumes "n < 2 ^ 64" and "\<not> isdigit c" and "c \<noteq> CHR ''x''" and "c \<noteq> CHR ''X''"
  shows "get_ulong Dec (istream_new (dec_of_nat n @ c # r)) = (Some (of_nat n), istream_new (c # r))"
  using get_ulong_digits [of "dec_of_nat n" Dec c r] dec_of_nat_digits [of n] assms by simp

lemma is_get_new [simp]: "is_get (istream_new (c # r)) = (Some c, istream_new r)"
  by (simp add: is_get_def)

lemma is_peek_new [simp]: "is_peek (istream_new (c # r)) = (Some c, istream_new (c # r))"
  by (simp add: is_peek_def)

lemma is_unget_new [simp]: "is_unget (Some c) (istream_new r) = istream_new (c # r)"
  by (simp add: is_unget_def istream_new_def sentry_noskip_def is_good_def Let_def)

lemma is_getline_new: "NL \<notin> set l \<Longrightarrow> is_getline (istream_new (l @ NL # r)) = (Some l, istream_new r)"
  by (simp add: is_getline_def takeWhile_neq_append dropWhile_neq_append)

lemma is_ignore_line_new: "NL \<notin> set l \<Longrightarrow> is_ignore_line (istream_new (l @ NL # r)) = istream_new r"
  by (simp add: is_ignore_line_def dropWhile_neq_append)

lemma get_char_new: "\<not> isspace c \<Longrightarrow> get_char (istream_new (c # r)) = (Some c, istream_new r)"
  by (simp add: get_char_def sentry_new Let_def)

end
