(* ===== verification/SystemInfo.thy ===== *)
theory SystemInfo
  imports Istream FilePath
begin

text \<open>
  What the subcommand \<^verbatim>\<open>calibrate\<close> of \<^verbatim>\<open>kdumptool/calibrate.cc\<close> reads from \<^verbatim>\<open>/proc\<close> and \<^verbatim>\<open>/sys\<close>: the CPU sets, the
  hypervisor, the framebuffers and the slab caches. A file that can be opened is a fresh stream; a read error is \<open>EIO\<close>.
\<close>

type_synonym sysfiles = "string \<Rightarrow> errno + istream"

section \<open>SystemCPU\<close>

definition cpu_dir :: "string \<Rightarrow> string" where
  "cpu_dir sysdir = appendPath sysdir ''devices/system/cpu''"

text \<open>
  One round of the loop of \<open>SystemCPU::count\<close>: the number of CPUs of the element and the stream behind it,
  or \<^const>\<open>None\<close> when there is no further number.
\<close>

definition cpu_delim :: "string \<Rightarrow> char option \<Rightarrow> istream \<Rightarrow> 64 word \<Rightarrow> (64 word \<times> istream) option res" where
  "cpu_delim path delim f n =
     (if \<not> is_eof f \<and> delim \<noteq> Some (CHR '','')
      then Inl (KError (path @ '': wrong delimiter: '' @ (case delim of None \<Rightarrow> [] | Some c \<Rightarrow> [c])))
      else Inr (Some (n, f)))"

definition cpu_item :: "string \<Rightarrow> istream \<Rightarrow> (64 word \<times> istream) option res" where
  "cpu_item path f =
     (let failed = Inl (KSystemError (''Cannot read '' @ path) EIO);
          format = Inl (KError (path @ '': wrong number format''))
      in case get_ulong Dec f of
           (n1, f1) \<Rightarrow>
             if is_bad f1 then failed
             else if \<not> is_ok f1 then (if \<not> is_eof f1 then format else Inr None)
             else case get_char f1 of
                    (delim, f2) \<Rightarrow>
                      if is_bad f2 then failed
                      else if is_ok f2 \<and> delim = Some (CHR ''-'')
                      then case get_ulong Dec f2 of
                             (n2, f3) \<Rightarrow>
                               if is_bad f3 then failed
                               else if \<not> is_ok f3 then format
                               else case get_char f3 of
                                      (delim2, f4) \<Rightarrow>
                                        if is_bad f4 then failed
                                        else cpu_delim path (case delim2 of None \<Rightarrow> delim | Some c \<Rightarrow> Some c) f4
                                               (the n2 - the n1 + 1)
                      else cpu_delim path delim f2 1)"

lemma get_char_less: "get_char f = (d, f') \<Longrightarrow> length (is_rest f') \<le> length (is_rest f)"
  using get_char_rest [of f] by simp

lemma cpu_item_consumes:
  assumes "cpu_item path f = Inr (Some (n, f'))"
  shows "length (is_rest f') < length (is_rest f)"
proof -
  obtain n1 f1 delim f2 n2 f3 delim2 f4 where r: "get_ulong Dec f = (n1, f1)" "get_char f1 = (delim, f2)"
      "get_ulong Dec f2 = (n2, f3)" "get_char f3 = (delim2, f4)"
    by (meson surj_pair)
  have d: "cpu_delim path d g m = Inr (Some (n, f')) \<Longrightarrow> f' = g" for d g m
    by (simp add: cpu_delim_def split: if_splits)
  have "is_ok f1" "f' = f2 \<or> (is_ok f3 \<and> f' = f4)"
    using assms by (auto simp: cpu_item_def Let_def r split: if_splits dest: d)
  then show ?thesis
    using get_ulong_consumes [OF r(1)] get_char_less [OF r(2)] get_ulong_consumes [OF r(3)] get_char_less [OF r(4)]
    by auto
qed

function cpu_loop :: "string \<Rightarrow> istream \<Rightarrow> 64 word \<Rightarrow> 64 word res" where
  "cpu_loop path f ret =
     (case cpu_item path f of
        Inl e \<Rightarrow> Inl e
      | Inr None \<Rightarrow> Inr ret
      | Inr (Some (n, f')) \<Rightarrow> cpu_loop path f' (ret + n))"
  by pat_completeness auto
termination
  by (relation "measure (\<lambda>(path, f, ret). length (is_rest f))") (auto dest: cpu_item_consumes)

declare cpu_loop.simps [simp del]

definition cpu_count :: "sysfiles \<Rightarrow> string \<Rightarrow> string \<Rightarrow> 64 word res" where
  "cpu_count files sysdir name =
     (let path = appendPath (cpu_dir sysdir) name
      in case files path of
           Inl e \<Rightarrow> Inl (KSystemError (''Cannot open '' @ path) e)
         | Inr fin \<Rightarrow> cpu_loop path fin 0)"

definition numOnline :: "sysfiles \<Rightarrow> string \<Rightarrow> 64 word res" where
  "numOnline files sysdir = cpu_count files sysdir ''online''"

definition numOffline :: "sysfiles \<Rightarrow> string \<Rightarrow> 64 word res" where
  "numOffline files sysdir = cpu_count files sysdir ''offline''"

section \<open>HyperInfo\<close>

record hyper_info =
  hi_type :: string
  hi_guest_type :: string
  hi_guest_variant :: string

definition read_str :: "sysfiles \<Rightarrow> string \<Rightarrow> string \<Rightarrow> string \<Rightarrow> string res" where
  "read_str files basedir attr str =
     (let fp = appendPath basedir attr
      in case files fp of
           Inl _ \<Rightarrow> Inr str
         | Inr f \<Rightarrow> (case is_getline f of
                      (l, f') \<Rightarrow> if is_bad f' then Inl (KError (fp @ '': Read failed''))
                                 else Inr (case l of None \<Rightarrow> str | Some s \<Rightarrow> s)))"

text \<open>The loop over the comma-separated capabilities: does one of them say \<^verbatim>\<open>control_d\<close>?\<close>

function caps_loop :: "string \<Rightarrow> nat \<Rightarrow> bool" where
  "caps_loop caps pos =
     (case find_char_from (CHR '','') caps pos of
        None \<Rightarrow> drop pos caps = ''control_d''
      | Some next \<Rightarrow>
          if substr caps pos (next - pos) = ''control_d'' then True else caps_loop caps (next + 1))"
  by pat_completeness auto
termination
proof (relation "measure (\<lambda>(caps, pos). length caps - pos)")
  fix caps :: string and pos nxt
  assume "find_char_from (CHR '','') caps pos = Some nxt"
  then obtain i where "find_char (CHR '','') (drop pos caps) = Some i" "nxt = i + pos"
    by (auto simp: find_char_from_def)
  then have "pos \<le> nxt" "nxt < length caps"
    using find_char_SomeD(1) by fastforce+
  then show "((caps, nxt + 1), caps, pos) \<in> measure (\<lambda>(caps, pos). length caps - pos)"
    by simp
qed simp

declare caps_loop.simps [simp del]

definition HyperInfo :: "sysfiles \<Rightarrow> string \<Rightarrow> string \<Rightarrow> hyper_info res" where
  "HyperInfo files procdir sysdir =
     (let basedir = appendPath sysdir ''hypervisor''
      in res_bind (read_str files basedir ''type'' []) (\<lambda>ty.
         res_bind (read_str files basedir ''guest_type'' []) (\<lambda>gt.
           if ty = ''xen''
           then res_bind (read_str files (appendPath procdir ''xen'') ''capabilities'' []) (\<lambda>caps.
                  Inr \<lparr>hi_type = ty, hi_guest_type = gt,
                    hi_guest_variant = (if caps_loop caps 0 then ''Dom0'' else ''DomU'')\<rparr>)
           else Inr \<lparr>hi_type = ty, hi_guest_type = gt, hi_guest_variant = []\<rparr>)))"

lemma caps_loop_split: "caps_loop caps pos \<longleftrightarrow> ''control_d'' \<in> set (split_from (CHR '','') caps pos)"
proof (induction caps pos rule: caps_loop.induct)
  case (1 caps pos)
  show ?case
  proof (cases "find_char_from (CHR '','') caps pos")
    case None
    then show ?thesis
      by (subst caps_loop.simps, subst split_from.simps) (auto simp: eq_commute [of "''control_d''"])
  next
    case (Some nxt)
    then show ?thesis
      using "1.IH" [OF Some] by (subst caps_loop.simps, subst split_from.simps) auto
  qed
qed

text \<open>The guest is the privileged one if and only if \<^verbatim>\<open>control_d\<close> is among the capabilities.\<close>

lemma HyperInfo_dom0:
  assumes "HyperInfo files procdir sysdir = Inr h" and "hi_type h = ''xen''"
    and "read_str files (appendPath procdir ''xen'') ''capabilities'' [] = Inr caps"
  shows "hi_guest_variant h = (if ''control_d'' \<in> set (ksplit (CHR '','') caps) then ''Dom0'' else ''DomU'')"
  using assms by (auto simp: HyperInfo_def Let_def res_bind_eq_Inr_iff caps_loop_split ksplit_def split: if_splits)

section \<open>Framebuffers\<close>

definition framebuffer_size :: "sysfiles \<Rightarrow> string \<Rightarrow> 64 word res" where
  "framebuffer_size files dir =
     (let fp = appendPath dir ''virtual_size''; fp2 = appendPath dir ''stride''
      in case files fp of
           Inl _ \<Rightarrow> Inl (KError (fp @ '': Open failed''))
         | Inr f \<Rightarrow>
             (case get_ulong Dec f of
                (width, f1) \<Rightarrow> (case get_char f1 of
                (sep, f2) \<Rightarrow> (case get_ulong Dec f2 of
                (height, f3) \<Rightarrow>
                  if is_bad f3 then Inl (KError (fp @ '': Read failed''))
                  else if \<not> is_ok f3 \<or> sep \<noteq> Some (CHR '','') then Inl (KError (fp @ '': Invalid content!''))
                  else case files fp2 of
                         Inl _ \<Rightarrow> Inl (KError (fp2 @ '': Open failed''))
                       | Inr g \<Rightarrow>
                           (case get_ulong Dec g of
                              (stride, g1) \<Rightarrow>
                                if is_bad g1 then Inl (KError (fp2 @ '': Read failed''))
                                else if \<not> is_ok g1 then Inl (KError (fp2 @ '': Invalid content!''))
                                else Inr (the stride * the height))))))"

text \<open>
  The names \<^verbatim>\<open>fb\<close> followed by a number in the syntax of \<^verbatim>\<open>strtoul\<close>, which skips white space and takes a sign.
\<close>

definition FbFilter :: "dirent \<Rightarrow> bool" where
  "FbFilter d \<longleftrightarrow>
     take 2 (d_name d) = ''fb'' \<and>
     (let u = skip_sign (dropWhile isspace (drop 2 (d_name d))) in u \<noteq> [] \<and> list_all isdigit u)"

fun framebuffers_loop :: "sysfiles \<Rightarrow> string \<Rightarrow> string list \<Rightarrow> 64 word \<Rightarrow> 64 word res" where
  "framebuffers_loop files fbdir [] ret = Inr ret"
| "framebuffers_loop files fbdir (it # its) ret =
     res_bind (framebuffer_size files (appendPath fbdir it)) (\<lambda>n. framebuffers_loop files fbdir its (ret + n))"

definition framebuffers_size :: "sysfiles \<Rightarrow> (string \<Rightarrow> errno + dirent list) \<Rightarrow> string \<Rightarrow> 64 word res" where
  "framebuffers_size files opendir sysdir =
     (let fbdir = appendPath sysdir ''class/graphics''
      in res_bind (listDir opendir FbFilter fbdir) (\<lambda>v. framebuffers_loop files fbdir v 0))"

section \<open>SlabInfo\<close>

record slab_info =
  si_comment :: bool
  si_name :: string
  si_active_objs :: "64 word"
  si_num_objs :: "64 word"
  si_obj_size :: "64 word"
  si_obj_per_slab :: "64 word"
  si_pages_per_slab :: "64 word"
  si_active_slabs :: "64 word"
  si_num_slabs :: "64 word"

definition slabdata_mark :: string where
  "slabdata_mark = '' : slabdata ''"

fun get_ulongs :: "nat \<Rightarrow> istream \<Rightarrow> 64 word list \<times> istream" where
  "get_ulongs 0 f = ([], f)"
| "get_ulongs (Suc n) f =
     (case get_ulong Dec f of
        (v, f1) \<Rightarrow> (case get_ulongs n f1 of (vs, f2) \<Rightarrow> ((case v of None \<Rightarrow> 0 | Some x \<Rightarrow> x) # vs, f2)))"

definition SlabInfo :: "string \<Rightarrow> slab_info res" where
  "SlabInfo line =
     (let invalid = Inl (KError (''Invalid slabinfo line: '' @ line))
      in case get_word (istream_new line) of
           (name, f1) \<Rightarrow>
             if \<not> is_ok f1 then invalid
             else if c_at (the name) 0 = CHR ''#''
             then Inr \<lparr>si_comment = True, si_name = the name, si_active_objs = 0, si_num_objs = 0, si_obj_size = 0,
                    si_obj_per_slab = 0, si_pages_per_slab = 0, si_active_slabs = 0, si_num_slabs = 0\<rparr>
             else (case get_ulongs 5 f1 of
                     (vs, f2) \<Rightarrow>
                       if \<not> is_ok f2 then invalid
                       else case find_str slabdata_mark (is_rest f2) of
                              None \<Rightarrow> invalid
                            | Some sdpos \<Rightarrow>
                                (case get_ulongs 2 (istream_new (drop (sdpos + length slabdata_mark) (is_rest f2))) of
                                   (ws, f3) \<Rightarrow>
                                     if \<not> is_ok f3 then invalid
                                     else Inr \<lparr>si_comment = False, si_name = the name, si_active_objs = vs ! 0,
                                            si_num_objs = vs ! 1, si_obj_size = vs ! 2, si_obj_per_slab = vs ! 3,
                                            si_pages_per_slab = vs ! 4, si_active_slabs = ws ! 0,
                                            si_num_slabs = ws ! 1\<rparr>)))"

definition SLABINFO_LINE_LEN :: nat where "SLABINFO_LINE_LEN = 2048"
definition SLABINFO_VER_LEN :: nat where "SLABINFO_VER_LEN = 100"

text \<open>\<^verbatim>\<open>strtoul(p, &end, 10)\<close>: the value (not above \<^const>\<open>ULONG_MAX\<close>) and the rest, which is \<open>p\<close> without a digit.\<close>

definition strtoul :: "string \<Rightarrow> 64 word \<times> string" where
  "strtoul p =
     (let t = dropWhile isspace p; u = skip_sign t; ds = takeWhile isdigit u
      in if ds = [] then (0, p)
         else (if dec_val ds > ULONG_MAX then of_nat ULONG_MAX
               else if take 1 t = ''-'' then - of_nat (dec_val ds) else of_nat (dec_val ds),
               dropWhile isdigit u))"

definition slab_version :: "string \<Rightarrow> string \<Rightarrow> 64 word res" where
  "slab_version path buf =
     (let verhdr = ''slabinfo - version: ''; invalid = Inl (KError (path @ '': Invalid version''))
      in if take (length verhdr) buf \<noteq> verhdr then invalid
         else let p = drop (length verhdr) buf
              in case strtoul p of
                   (major, e) \<Rightarrow>
                     if e = p \<or> c_at e 0 \<noteq> CHR ''.'' then invalid
                     else (case strtoul (tl e) of
                             (minor, e2) \<Rightarrow> if e2 = tl e \<or> e2 \<noteq> [] then invalid else Inr major))"

function slab_lines :: "istream \<Rightarrow> (string \<times> slab_info) list \<Rightarrow> (string \<times> slab_info) list res" where
  "slab_lines f info =
     (case is_getline_buf SLABINFO_LINE_LEN f of
        (line, f') \<Rightarrow>
          if \<not> is_ok f' then Inr info
          else case SlabInfo (c_string line) of
                 Inl e \<Rightarrow> Inl e
               | Inr si \<Rightarrow> slab_lines f' (if si_comment si then info else smap_insert (si_name si) si info))"
  by pat_completeness auto
termination
  by (relation "measure (\<lambda>(f, info). length (is_rest f))") (auto dest: is_getline_buf_consumes [OF sym])

declare slab_lines.simps [simp del]

definition getInfo :: "sysfiles \<Rightarrow> string \<Rightarrow> (string \<times> slab_info) list res" where
  "getInfo files procdir =
     (let path = appendPath procdir ''slabinfo''
      in case files path of
           Inl _ \<Rightarrow> Inl (KError (path @ '': Open failed''))
         | Inr f \<Rightarrow>
             (case is_getline_buf SLABINFO_VER_LEN f of
                (buf, f') \<Rightarrow>
                  if is_bad f' then Inl (KError (path @ '': Read failed''))
                  else if \<not> is_ok f' then Inl (KError (path @ '': Invalid version''))
                  else res_bind (slab_version path (c_string buf)) (\<lambda>major.
                         if major \<noteq> 2 then Inl (KError (path @ '': Unsupported slabinfo version''))
                         else slab_lines f' [])))"

section \<open>Counting CPUs\<close>

text \<open>The format of the CPU sets: ranges of numbers, separated by commas, and a newline.\<close>

definition print_cpus :: "64 word \<times> 64 word \<Rightarrow> string" where
  "print_cpus ab = dec_of_nat (unat (fst ab)) @
     (if fst ab = snd ab then [] else CHR ''-'' # dec_of_nat (unat (snd ab)))"

definition cpus_in :: "64 word \<times> 64 word \<Rightarrow> 64 word" where
  "cpus_in ab = snd ab - fst ab + 1"

lemma digit_sep: "\<not> isdigit (CHR '','')" "\<not> isdigit (CHR ''-'')" "\<not> isdigit NL" "\<not> isspace (CHR '','')"
  "\<not> isspace (CHR ''-'')" "isspace NL" "NL \<noteq> CHR ''x''" "NL \<noteq> CHR ''X''"
  by (simp_all add: char_class NL_def)

lemma unat_less_64: "unat (v :: 64 word) < 2 ^ 64"
  by (rule order_less_le_trans [OF unsigned_less]) simp

lemma get_ulong_word:
  "\<not> isdigit c \<Longrightarrow> c \<noteq> CHR ''x'' \<Longrightarrow> c \<noteq> CHR ''X'' \<Longrightarrow>
   get_ulong Dec (istream_new (dec_of_nat (unat v) @ c # r)) = (Some v, istream_new (c # r))"
  using get_ulong_dec [OF unat_less_64] by simp

lemma cpu_item_more:
  "cpu_item path (istream_new (print_cpus ab @ CHR '','' # r)) = Inr (Some (cpus_in ab, istream_new r))"
proof (cases "fst ab = snd ab")
  case True
  then show ?thesis
    by (simp add: cpu_item_def print_cpus_def cpus_in_def get_ulong_word get_char_new digit_sep cpu_delim_def)
next
  case False
  then show ?thesis
    by (simp add: cpu_item_def print_cpus_def cpus_in_def get_ulong_word get_char_new digit_sep cpu_delim_def)
qed

definition istream_ended :: istream where
  "istream_ended = \<lparr>is_rest = [], is_broken = False, is_eof = True, is_fail = True, is_bad = False\<rparr>"

lemma get_char_NL: "get_char (istream_new [NL]) = (None, istream_ended)"
  by (simp add: get_char_def sentry_def Let_def digit_sep at_end_def istream_new_def is_good_def set_fail_def
      istream_ended_def)

lemma get_ulong_ended: "get_ulong b istream_ended = (None, istream_ended)" "get_ulong b (istream_new [NL]) = (None, istream_ended)"
  by (simp_all add: get_ulong_def sentry_def Let_def digit_sep at_end_def istream_new_def is_good_def set_fail_def
      istream_ended_def)

lemma istream_ended_sel [simp]: "\<not> is_ok istream_ended" "is_eof istream_ended" "\<not> is_bad istream_ended"
  by (simp_all add: istream_ended_def is_ok_def)

lemma cpu_item_last: "cpu_item path (istream_new (print_cpus ab @ [NL])) = Inr (Some (cpus_in ab, istream_ended))"
proof (cases "fst ab = snd ab")
  case True
  then show ?thesis
    by (simp add: cpu_item_def print_cpus_def cpus_in_def get_ulong_word get_char_NL digit_sep cpu_delim_def)
next
  case False
  then show ?thesis
    by (simp add: cpu_item_def print_cpus_def cpus_in_def get_ulong_word get_char_new get_char_NL digit_sep cpu_delim_def)
qed

lemma cpu_loop_ended: "cpu_loop path istream_ended ret = Inr ret" "cpu_loop path (istream_new [NL]) ret = Inr ret"
  by (subst cpu_loop.simps; simp add: cpu_item_def get_ulong_ended)+

lemma cpu_loop_print:
  "cpu_loop path (istream_new (join (CHR '','') (map print_cpus cs) @ [NL])) ret =
   Inr (ret + sum_list (map cpus_in cs))"
proof (induction cs arbitrary: ret)
  case Nil
  then show ?case by (simp add: cpu_loop_ended)
next
  case (Cons c cs)
  show ?case
  proof (cases "cs = []")
    case True
    then show ?thesis by (subst cpu_loop.simps) (simp add: cpu_item_last cpu_loop_ended)
  next
    case False
    then show ?thesis
      by (subst cpu_loop.simps) (simp add: join_Cons cpu_item_more Cons.IH add.assoc)
  qed
qed

end
