(* ===== verification/MemMap.thy ===== *)
theory MemMap
  imports Istream FilePath
begin

text \<open>
  The map of physical memory in \<^verbatim>\<open>kdumptool/calibrate.cc\<close>: the parser of \<^verbatim>\<open>/proc/iomem\<close>, the total size of the RAM,
  the largest block and the search for a place for the crash kernel. Addresses are 64-bit words.
\<close>

record mem_range =
  mr_start :: "64 word"
  mr_end :: "64 word"

definition mr_length :: "mem_range \<Rightarrow> 64 word" where
  "mr_length r = mr_end r - mr_start r + 1"

section \<open>The parser\<close>

text \<open>\<^verbatim>\<open>while ((c = f.get()) == ' ');\<close>\<close>

lemma is_get_Some: "is_get f = (Some c, f') \<Longrightarrow> length (is_rest f) = Suc (length (is_rest f'))"
  by (auto simp: is_get_def Let_def sentry_noskip_def split: if_splits list.splits)

function get_nonspace :: "istream \<Rightarrow> char option \<times> istream" where
  "get_nonspace f =
     (case is_get f of (c, f') \<Rightarrow> if c = Some (CHR '' '') then get_nonspace f' else (c, f'))"
  by pat_completeness auto
termination
  by (relation "measure (\<lambda>f. length (is_rest f))") (auto dest!: is_get_Some [OF sym])

declare get_nonspace.simps [simp del]

text \<open>
  One line. A line that starts with a space is nested and ignored; the others are a range and a name.
\<close>

definition iomem_range :: "istream \<Rightarrow> (mem_range option \<times> istream) res" where
  "iomem_range f =
     (case get_ulong Hex f of
        (start, f1) \<Rightarrow>
          if \<not> is_ok f1 then Inl (KError ''Invalid resource start'')
          else case is_get f1 of
                 (c, f2) \<Rightarrow>
                   if c \<noteq> Some (CHR ''-'') then Inl (KError ''Invalid range delimiter'')
                   else case get_ulong Hex f2 of
                          (end, f3) \<Rightarrow>
                            if \<not> is_ok f3 then Inl (KError ''Invalid resource end'')
                            else case get_nonspace f3 of
                                   (c, f4) \<Rightarrow>
                                     if c \<noteq> Some (CHR '':'') then Inl (KError ''Invalid resource name delimiter'')
                                     else case get_nonspace f4 of
                                            (c, f5) \<Rightarrow> (case is_getline (is_unget c f5) of
                                              (name, f6) \<Rightarrow>
                                                Inr (if name = Some ''System RAM''
                                                     then Some \<lparr>mr_start = the start, mr_end = the end\<rparr> else None,
                                                     f6)))"

definition iomem_line :: "istream \<Rightarrow> (mem_range option \<times> istream) res" where
  "iomem_line f =
     (case is_peek f of
        (c, f') \<Rightarrow>
          if c \<noteq> Some (CHR '' '') \<and> \<not> is_eof f' then iomem_range f'
          else Inr (None, is_ignore_line f'))"

lemma get_ulong_less: "get_ulong b f = (v, f') \<Longrightarrow> length (is_rest f') \<le> length (is_rest f)"
  using get_ulong_rest [of b f] by simp

lemma is_get_less: "is_get f = (c, f') \<Longrightarrow> length (is_rest f') \<le> length (is_rest f)"
  by (auto simp: is_get_def Let_def split: if_splits list.splits)

lemma get_nonspace_unget:
  "get_nonspace f = (c, f') \<Longrightarrow> length (is_rest (is_unget c f')) \<le> length (is_rest f) \<and> length (is_rest f') \<le> length (is_rest f)"
proof (induction f rule: get_nonspace.induct)
  case (1 f)
  obtain d g where g: "is_get f = (d, g)" by fastforce
  show ?case
  proof (cases "d = Some (CHR '' '')")
    case True
    then show ?thesis
      using "1.IH" [OF g [symmetric]] "1.prems" is_get_less [OF g]
      by (subst (asm) get_nonspace.simps) (auto simp: g)
  next
    case False
    then have c: "c = d" "f' = g"
      using "1.prems" by (subst (asm) get_nonspace.simps; simp add: g)+
    show ?thesis
      using is_get_less [OF g] is_get_Some [of f _ g] g
      by (cases d) (auto simp: c is_unget_def Let_def)
  qed
qed

lemma is_getline_less: "is_getline f = (l, f') \<Longrightarrow> length (is_rest f') \<le> length (is_rest f)"
  using takeWhile_dropWhile_length [of "\<lambda>c. c \<noteq> NL" "is_rest f"]
  by (auto simp: is_getline_def Let_def split: if_splits list.splits)

lemma is_ignore_line_consumes:
  assumes "is_ok (is_ignore_line f)"
  shows "length (is_rest (is_ignore_line f)) < length (is_rest f) \<or> is_rest f = [] \<and> is_good f"
proof -
  have "is_good (sentry_noskip f)"
  proof (rule ccontr)
    assume "\<not> is_good (sentry_noskip f)"
    with assms sentry_noskip_bad [of f] show False by (auto simp: is_ignore_line_def)
  qed
  moreover from this have "sentry_noskip f = f"
    by (auto simp: sentry_noskip_def is_good_def set_fail_def split: if_splits)
  ultimately show ?thesis
    using takeWhile_dropWhile_length [of "\<lambda>c. c \<noteq> NL" "is_rest f"]
    by (auto simp: is_ignore_line_def Let_def split: list.splits)
qed

lemma iomem_range_consumes:
  assumes "iomem_range f = Inr (r, f')"
  shows "length (is_rest f') < length (is_rest f)"
proof -
  obtain v1 f1 c1 f2 v2 f3 c2 f4 c3 f5 name f6 where
    r: "get_ulong Hex f = (v1, f1)" "is_get f1 = (c1, f2)" "get_ulong Hex f2 = (v2, f3)" "get_nonspace f3 = (c2, f4)"
      "get_nonspace f4 = (c3, f5)" "is_getline (is_unget c3 f5) = (name, f6)"
    by (meson surj_pair)
  have "is_ok f1" "f' = f6" using assms by (auto simp: iomem_range_def r split: if_splits)
  then show ?thesis
    using get_ulong_consumes [OF r(1)] is_get_less [OF r(2)] get_ulong_less [OF r(3)]
      get_nonspace_unget [OF r(4)] get_nonspace_unget [OF r(5)] is_getline_less [OF r(6)] by auto
qed

lemma is_peek_cases:
  "is_peek f = (c, f') \<Longrightarrow> is_rest f' = is_rest f \<and> (is_rest f = [] \<longrightarrow> \<not> is_good f')"
  by (auto simp: is_peek_def Let_def at_end_def is_good_def sentry_noskip_def split: if_splits list.splits)

lemma iomem_line_consumes:
  assumes "iomem_line f = Inr (r, f')" and "is_ok f'"
  shows "length (is_rest f') < length (is_rest f)"
proof -
  obtain c g where g: "is_peek f = (c, g)" by fastforce
  show ?thesis
    using assms is_peek_cases [OF g] iomem_range_consumes [of g r f'] is_ignore_line_consumes [of g]
    by (auto simp: iomem_line_def g split: if_splits)
qed

function iomem_loop :: "istream \<Rightarrow> mem_range list res" where
  "iomem_loop f =
     (if \<not> is_ok f then Inr []
      else case iomem_line f of
             Inl e \<Rightarrow> Inl e
           | Inr (r, f') \<Rightarrow>
               if \<not> is_ok f' then Inr (case r of None \<Rightarrow> [] | Some x \<Rightarrow> [x])
               else res_bind (iomem_loop f') (\<lambda>rs. Inr (case r of None \<Rightarrow> rs | Some x \<Rightarrow> x # rs)))"
  by pat_completeness auto
termination
  by (relation "measure (\<lambda>f. length (is_rest f))") (auto dest: iomem_line_consumes)

declare iomem_loop.simps [simp del]

definition MemMap :: "(string \<Rightarrow> errno + istream) \<Rightarrow> string \<Rightarrow> mem_range list res" where
  "MemMap files procdir =
     (let path = appendPath procdir ''iomem''
      in case files path of
           Inl _ \<Rightarrow> Inl (KError (path @ '': Open failed''))
         | Inr f \<Rightarrow> iomem_loop f)"

section \<open>Sizes\<close>

definition mm_total :: "mem_range list \<Rightarrow> 64 word" where
  "mm_total ranges = foldl (\<lambda>ret r. ret + mr_length r) 0 ranges"

definition mm_largest :: "64 word \<Rightarrow> mem_range list \<Rightarrow> 64 word" where
  "mm_largest limit ranges =
     foldl (\<lambda>ret r.
       if mr_start r > limit then ret
       else let length = (if mr_end r \<le> limit then mr_end r else limit) - mr_start r + 1
            in if length > ret then length else ret) 0 ranges"

text \<open>The loop over the ranges from the last to the first; \<^verbatim>\<open>~0ULL\<close> when none is large enough.\<close>

fun find_loop :: "64 word \<Rightarrow> 64 word \<Rightarrow> mem_range list \<Rightarrow> 64 word" where
  "find_loop sz align [] = -1"
| "find_loop sz align (r # rs) =
     (let base = mr_end r + 1
      in if base < sz then find_loop sz align rs
         else let base1 = base - sz; base2 = base1 - base1 mod align
              in if base2 \<ge> mr_start r then base2 else find_loop sz align rs)"

definition mm_find :: "64 word \<Rightarrow> 64 word \<Rightarrow> mem_range list \<Rightarrow> 64 word" where
  "mm_find sz align ranges = find_loop sz align (rev ranges)"

section \<open>Finding a place\<close>

text \<open>
  A block of the size at an address: aligned, and inside the range (without wrapping around).
\<close>

definition fits :: "64 word \<Rightarrow> 64 word \<Rightarrow> mem_range \<Rightarrow> 64 word \<Rightarrow> bool" where
  "fits sz align r b \<longleftrightarrow>
     unat b mod unat align = 0 \<and> mr_start r \<le> b \<and> unat b + unat sz \<le> unat (mr_end r) + 1"

text \<open>The candidate of one range: the highest aligned address at which the block ends in the range.\<close>

definition candidate :: "64 word \<Rightarrow> 64 word \<Rightarrow> mem_range \<Rightarrow> 64 word" where
  "candidate sz align r = (mr_end r + 1 - sz) - (mr_end r + 1 - sz) mod align"

lemma unat_candidate:
  assumes "sz \<le> mr_end r + 1"
  shows "unat (candidate sz align r) = (unat (mr_end r + 1) - unat sz) div unat align * unat align"
proof -
  let ?b = "mr_end r + 1 - sz"
  have "unat ?b = unat (mr_end r + 1) - unat sz" using assms by (simp add: unat_sub)
  moreover have "unat (?b - ?b mod align) = unat ?b - unat ?b mod unat align"
    by (simp add: unat_sub word_le_nat_alt unat_mod)
  ultimately show ?thesis by (simp add: candidate_def minus_mod_eq_div_mult)
qed

lemma unat_succ: "0 < sz \<Longrightarrow> sz \<le> e + 1 \<Longrightarrow> unat (e + 1 :: 64 word) = unat e + 1"
  by (metis Suc_eq_plus1 add.commute add_0 leD unatSuc word_neq_0_conv)

lemma candidate_fits:
  assumes "0 < sz" and "sz \<le> mr_end r + 1" and "mr_start r \<le> candidate sz align r"
  shows "fits sz align r (candidate sz align r)"
proof -
  have e: "unat (mr_end r + 1) = unat (mr_end r) + 1" by (rule unat_succ [OF assms(1,2)])
  have "unat sz \<le> unat (mr_end r + 1)" using assms(2) by (simp add: word_le_nat_alt)
  moreover have "unat (candidate sz align r) \<le> unat (mr_end r + 1) - unat sz"
    by (simp add: unat_candidate [OF assms(2)])
  ultimately have "unat (candidate sz align r) + unat sz \<le> unat (mr_end r) + 1" using e by linarith
  then show ?thesis
    using assms(3) unat_candidate [OF assms(2)] by (simp add: fits_def)
qed

lemma fits_candidate:
  assumes f: "fits sz align r b" and "0 < sz" and max: "mr_end r \<noteq> -1"
  shows "sz \<le> mr_end r + 1 \<and> b \<le> candidate sz align r \<and> mr_start r \<le> candidate sz align r"
proof -
  have e: "unat (mr_end r + 1) = unat (mr_end r) + 1"
    using max by (metis Suc_eq_plus1 add.commute add_eq_0_iff unatSuc)
  have sz: "sz \<le> mr_end r + 1" using f e by (simp add: fits_def word_le_nat_alt)
  obtain k where k: "unat b = unat align * k" using f by (auto simp: fits_def)
  have "unat b \<le> unat (mr_end r + 1) - unat sz" using f e by (auto simp: fits_def)
  then have "unat b div unat align * unat align \<le> (unat (mr_end r + 1) - unat sz) div unat align * unat align"
    by (intro mult_le_mono1 div_le_mono)
  then have "b \<le> candidate sz align r"
    using k by (simp add: word_le_nat_alt unat_candidate [OF sz])
  with sz f show ?thesis by (auto simp: fits_def)
qed

lemma find_loop_candidate:
  "find_loop sz align (r # rs) =
     (if sz \<le> mr_end r + 1 \<and> mr_start r \<le> candidate sz align r then candidate sz align r
      else find_loop sz align rs)"
  by (auto simp: candidate_def Let_def not_less)

lemma find_loop_sound:
  "0 < sz \<Longrightarrow> find_loop sz align rs = -1 \<or> (\<exists>r \<in> set rs. fits sz align r (find_loop sz align rs))"
  by (induction rs) (auto simp: find_loop_candidate candidate_fits simp del: find_loop.simps(2))

lemma find_loop_complete:
  assumes "0 < sz" and "r \<in> set rs" and "fits sz align r b" and "\<forall>r \<in> set rs. mr_end r \<noteq> -1"
  shows "\<exists>s \<in> set rs. fits sz align s (find_loop sz align rs)"
  using assms
proof (induction rs)
  case Nil
  then show ?case by simp
next
  case (Cons s rs)
  show ?case
  proof (cases "sz \<le> mr_end s + 1 \<and> mr_start s \<le> candidate sz align s")
    case True
    then show ?thesis
      using candidate_fits [of sz s align] Cons.prems(1) by (simp add: find_loop_candidate del: find_loop.simps(2))
  next
    case False
    then have "r \<noteq> s" using fits_candidate [OF Cons.prems(3,1)] Cons.prems(4) by auto
    then show ?thesis
      using Cons False by (auto simp: find_loop_candidate simp del: find_loop.simps(2))
  qed
qed

lemma find_loop_highest:
  assumes "0 < sz" and "r \<in> set rs" and "fits sz align r b" and "\<forall>r \<in> set rs. mr_end r \<noteq> -1"
    and "sorted_wrt (\<lambda>r s. mr_end s < mr_start r) rs"
  shows "b \<le> find_loop sz align rs"
  using assms
proof (induction rs)
  case Nil
  then show ?case by simp
next
  case (Cons s rs)
  show ?case
  proof (cases "r = s")
    case True
    then show ?thesis
      using fits_candidate [OF Cons.prems(3,1)] Cons.prems(4) by (simp add: find_loop_candidate del: find_loop.simps(2))
  next
    case False
    then have r: "r \<in> set rs" using Cons.prems(2) by simp
    have "unat b \<le> unat (mr_end r)" using Cons.prems(1,3) by (simp add: fits_def word_less_nat_alt)
    then have "b \<le> mr_end r" by (simp add: word_le_nat_alt)
    moreover have "mr_end r < mr_start s" using Cons.prems(5) r by simp
    ultimately have "b \<le> candidate sz align s" if "mr_start s \<le> candidate sz align s" using that by auto
    then show ?thesis
      using Cons.IH [OF Cons.prems(1) r Cons.prems(3)] Cons.prems(4,5)
      by (auto simp: find_loop_candidate simp del: find_loop.simps(2))
  qed
qed

section \<open>The text of /proc/iomem\<close>

text \<open>Top-level resources and, indented, what is nested in them.\<close>

datatype iomem_entry = Resource "64 word" "64 word" string | Nested string

fun print_entry :: "iomem_entry \<Rightarrow> string" where
  "print_entry (Resource s e name) =
     pad_hex 8 (unat s) @ ''-'' @ pad_hex 8 (unat e) @ '' : '' @ name @ [NL]"
| "print_entry (Nested t) = ''  '' @ t @ [NL]"

fun iomem_entry_ok :: "iomem_entry \<Rightarrow> bool" where
  "iomem_entry_ok (Resource s e name) \<longleftrightarrow> NL \<notin> set name \<and> take 1 name \<noteq> '' ''"
| "iomem_entry_ok (Nested t) \<longleftrightarrow> NL \<notin> set t"

fun entry_range :: "iomem_entry \<Rightarrow> mem_range list" where
  "entry_range (Resource s e name) = (if name = ''System RAM'' then [\<lparr>mr_start = s, mr_end = e\<rparr>] else [])"
| "entry_range (Nested t) = []"

lemma get_nonspace_new: "c \<noteq> CHR '' '' \<Longrightarrow> get_nonspace (istream_new (c # r)) = (Some c, istream_new r)"
  by (subst get_nonspace.simps) simp

lemma get_nonspace_space: "get_nonspace (istream_new (CHR '' '' # r)) = get_nonspace (istream_new r)"
  by (subst get_nonspace.simps) simp

lemma iomem_range_print:
  assumes "NL \<notin> set name" and "take 1 name \<noteq> '' ''"
  shows "iomem_range (istream_new (print_entry (Resource s e name) @ r)) =
    Inr (if name = ''System RAM'' then Some \<lparr>mr_start = s, mr_end = e\<rparr> else None, istream_new r)"
proof -
  have x: "\<not> isxdigit (CHR ''-'')" "\<not> isxdigit (CHR '' '')" by (simp_all add: char_class)
  have w: "unat v < 2 ^ 64" for v :: "64 word" by (rule order_less_le_trans [OF unsigned_less]) simp
  note n = get_ulong_pad_hex [OF w x(1)] get_ulong_pad_hex [OF w x(2)]
  have line: "is_getline (istream_new (name @ NL # r)) = (Some name, istream_new r)"
    by (rule is_getline_new [OF assms(1)])
  obtain c cs where c: "name @ NL # r = c # cs" "c \<noteq> CHR '' ''"
    using assms(2) by (cases name) (auto simp: NL_def)
  show ?thesis
    using line by (simp add: iomem_range_def n get_nonspace_space get_nonspace_new c)
qed

lemma iomem_line_print:
  assumes "iomem_entry_ok entry"
  shows "iomem_line (istream_new (print_entry entry @ r)) =
    Inr (case entry_range entry of [] \<Rightarrow> None | x # _ \<Rightarrow> Some x, istream_new r)"
proof (cases entry)
  case (Resource s e name)
  obtain c cs where c: "pad_hex 8 (unat s) = c # cs" "isxdigit c"
    using pad_hex_digits [of 8 "unat s"] by (cases "pad_hex 8 (unat s)") auto
  then have "c \<noteq> CHR '' ''" by (auto simp: char_class)
  then show ?thesis
    using iomem_range_print [of name s e r] assms Resource c(1) by (simp add: iomem_line_def)
next
  case (Nested t)
  have "NL \<notin> set (''  '' @ t)" using assms Nested by (simp add: NL_def)
  from is_ignore_line_new [OF this, of r] Nested show ?thesis by (simp add: iomem_line_def)
qed

lemma iomem_loop_end: "iomem_loop (istream_new []) = Inr []"
proof -
  have "iomem_line (istream_new []) = Inr (None, set_fail (at_end (istream_new [])))"
    by (simp add: iomem_line_def is_peek_def is_ignore_line_def sentry_noskip_def at_end_def is_good_def istream_new_def
        set_fail_def)
  then show ?thesis by (subst iomem_loop.simps) (simp add: not_good_fail)
qed

lemma iomem_loop_print:
  assumes "\<forall>entry \<in> set es. iomem_entry_ok entry"
  shows "iomem_loop (istream_new (concat (map print_entry es))) = Inr (concat (map entry_range es))"
  using assms
proof (induction es)
  case Nil
  then show ?case by (simp add: iomem_loop_end)
next
  case (Cons entry es)
  have line: "iomem_line (istream_new (print_entry entry @ concat (map print_entry es))) =
      Inr (case entry_range entry of [] \<Rightarrow> None | x # _ \<Rightarrow> Some x, istream_new (concat (map print_entry es)))"
    using Cons.prems by (intro iomem_line_print) simp
  have "iomem_loop (istream_new (concat (map print_entry (entry # es)))) =
      Inr ((case entry_range entry of [] \<Rightarrow> [] | x # _ \<Rightarrow> [x]) @ concat (map entry_range es))"
    using Cons by (subst iomem_loop.simps) (simp add: line split: list.split)
  then show ?case by (cases entry) auto
qed

section \<open>Totals\<close>

lemma mm_total_nat:
  assumes "\<forall>r \<in> set rs. mr_start r \<le> mr_end r" and "sum_list (map (\<lambda>r. unat (mr_end r) + 1 - unat (mr_start r)) rs) < 2 ^ 64"
  shows "unat (mm_total rs) = sum_list (map (\<lambda>r. unat (mr_end r) + 1 - unat (mr_start r)) rs)"
proof -
  let ?len = "\<lambda>r. unat (mr_end r) + 1 - unat (mr_start r)"
  have len: "mr_length r = of_nat (?len r)" if "r \<in> set rs" for r
    using assms(1) that by (auto simp: mr_length_def of_nat_diff word_le_nat_alt Suc_diff_le)
  have "foldl (\<lambda>ret r. ret + mr_length r) a qs = a + of_nat (sum_list (map ?len qs))" if "set qs \<subseteq> set rs" for a qs
    using that len by (induction qs arbitrary: a) (auto simp: add.assoc)
  from this [of rs 0] have "mm_total rs = of_nat (sum_list (map ?len rs))" by (simp add: mm_total_def)
  with assms(2) show ?thesis by (simp add: unsigned_of_nat take_bit_nat_eq_self)
qed

text \<open>The largest block is as large as every block below the limit, and is one of them (cut at the limit).\<close>

definition clipped :: "64 word \<Rightarrow> mem_range \<Rightarrow> 64 word" where
  "clipped limit r = (if mr_start r > limit then 0 else (if mr_end r \<le> limit then mr_end r else limit) - mr_start r + 1)"

lemma mm_largest_max: "mm_largest limit rs = Max (insert 0 (clipped limit ` set rs))"
proof -
  have "foldl (\<lambda>ret r. if mr_start r > limit then ret
         else let length = (if mr_end r \<le> limit then mr_end r else limit) - mr_start r + 1
              in if length > ret then length else ret) a qs = foldl (\<lambda>ret r. max ret (clipped limit r)) a qs" for a qs
    by (induction qs arbitrary: a) (auto simp: clipped_def Let_def max_def not_less)
  moreover have "foldl (\<lambda>ret r. max ret (clipped limit r)) a qs = Max (insert a (clipped limit ` set qs))" for a qs
  proof (induction qs arbitrary: a)
    case Nil
    then show ?case by simp
  next
    case (Cons q qs)
    have "Max (insert (max a (clipped limit q)) (clipped limit ` set qs)) = Max (insert a (insert (clipped limit q) (clipped limit ` set qs)))"
      by (cases "set qs = {}") (auto simp: max.assoc)
    with Cons show ?case by simp
  qed
  ultimately show ?thesis by (simp add: mm_largest_def)
qed

end
