(* ===== verification/ToolOutput.thy ===== *)
theory ToolOutput
  imports StringUtil
begin

text \<open>
  The loop that \<^verbatim>\<open>FilesystemTypeMap::devices\<close> of \<^verbatim>\<open>kdumptool/mounts.cc\<close> and the class \<^verbatim>\<open>CryptInfo\<close> of
  \<^verbatim>\<open>calibrate.cc\<close> both have: the lines of the output of a tool, each cut in two at the first separator.
\<close>

definition is_eol :: "char \<Rightarrow> bool" where
  "is_eol c \<longleftrightarrow> c = CR \<or> c = NL"

definition find_eol :: "string \<Rightarrow> nat \<Rightarrow> nat option" where
  "find_eol s pos =
     (let n = length (takeWhile (\<lambda>c. \<not> is_eol c) (drop pos s)) in if pos + n < length s then Some (pos + n) else None)"

definition find_not_eol :: "string \<Rightarrow> nat \<Rightarrow> nat option" where
  "find_not_eol s pos =
     (let n = length (takeWhile is_eol (drop pos s)) in if pos + n < length s then Some (pos + n) else None)"

text \<open>
  \<^const>\<open>None\<close> is \<^verbatim>\<open>npos\<close>, which is larger than every position; a separator behind the end of the line is not one of the
  line.
\<close>

definition line_field :: "char \<Rightarrow> string \<Rightarrow> nat \<Rightarrow> (string \<times> string) list" where
  "line_field sep out pos =
     (case find_char_from sep out pos of
        None \<Rightarrow> []
      | Some i \<Rightarrow>
          (case find_eol out pos of
             None \<Rightarrow> [(substr out pos (i - pos), drop (i + 1) out)]
           | Some e \<Rightarrow> if i < e then [(substr out pos (i - pos), substr out (i + 1) (e - i - 1))] else []))"

function line_fields :: "char \<Rightarrow> string \<Rightarrow> nat \<Rightarrow> (string \<times> string) list" where
  "line_fields sep out pos =
     (if pos < length out
      then line_field sep out pos @
           (case find_eol out pos of
              None \<Rightarrow> []
            | Some e \<Rightarrow> (case find_not_eol out e of None \<Rightarrow> [] | Some p \<Rightarrow> line_fields sep out p))
      else [])"
  by pat_completeness auto
termination
proof (relation "measure (\<lambda>(sep, out, pos). length out - pos)")
  fix sep out pos e p
  assume "pos < length out" and e: "find_eol out pos = Some e" and p: "find_not_eol out e = Some p"
  from e have el: "e < length out" "pos \<le> e" "is_eol (out ! e)"
    using nth_length_takeWhile [of "\<lambda>c. \<not> is_eol c" "drop pos out"] by (auto simp: find_eol_def Let_def split: if_splits)
  have "takeWhile is_eol (drop e out) \<noteq> []"
    using el by (metis Cons_nth_drop_Suc list.distinct(1) takeWhile.simps(2))
  with p have "e < p" "p < length out" by (auto simp: find_not_eol_def Let_def split: if_splits)
  with el(2) \<open>pos < length out\<close> show "((sep, out, p), sep, out, pos) \<in> measure (\<lambda>(sep, out, pos). length out - pos)"
    by simp
qed simp

declare line_fields.simps [simp del]

section \<open>Printed lines\<close>

lemma find_eol_shift: "find_eol (a @ b) (length a + k) = map_option (\<lambda>i. length a + i) (find_eol b k)"
  by (auto simp: find_eol_def Let_def)

lemma find_not_eol_shift: "find_not_eol (a @ b) (length a + k) = map_option (\<lambda>i. length a + i) (find_not_eol b k)"
  by (auto simp: find_not_eol_def Let_def)

lemma line_field_shift: "line_field sep (a @ b) (length a + k) = line_field sep b k"
  by (auto simp: line_field_def find_eol_shift find_char_from_append substr_def split: option.splits)

lemma line_fields_shift: "line_fields sep (a @ b) (length a + k) = line_fields sep b k"
proof (induction sep b k rule: line_fields.induct)
  case (1 sep b k)
  then show ?case
    by (subst (1 2) line_fields.simps)
      (auto simp: line_field_shift find_eol_shift find_not_eol_shift split: option.splits)
qed

definition print_fields :: "char \<Rightarrow> (string \<times> string) list \<Rightarrow> string" where
  "print_fields sep kvs = concat (map (\<lambda>(k, v). k @ sep # v @ [NL]) kvs)"

definition field_ok :: "char \<Rightarrow> string \<times> string \<Rightarrow> bool" where
  "field_ok sep kv \<longleftrightarrow> sep \<notin> set (fst kv) \<and> list_all (\<lambda>c. \<not> is_eol c) (fst kv @ snd kv)"

lemma find_eol_append: "list_all (\<lambda>c. \<not> is_eol c) l \<Longrightarrow> find_eol (l @ NL # r) 0 = Some (length l)"
  by (simp add: find_eol_def Let_def list_all_iff is_eol_def)

lemma line_fields_print:
  assumes "\<forall>kv \<in> set kvs. field_ok sep kv" and "\<not> is_eol sep"
  shows "line_fields sep (print_fields sep kvs) 0 = kvs"
  using assms(1)
proof (induction kvs)
  case Nil
  then show ?case by (subst line_fields.simps) (simp add: print_fields_def)
next
  case (Cons kv kvs)
  obtain k v where kv: "kv = (k, v)" by fastforce
  let ?l = "k @ sep # v" and ?r = "print_fields sep kvs"
  have out: "print_fields sep (kv # kvs) = ?l @ NL # ?r" by (simp add: print_fields_def kv)
  have ok: "sep \<notin> set k" "list_all (\<lambda>c. \<not> is_eol c) ?l"
    using Cons.prems assms(2) by (auto simp: field_ok_def kv list_all_iff)
  note eol = find_eol_append [OF ok(2), of ?r]
  have sep: "find_char_from sep (?l @ NL # ?r) 0 = Some (length k)"
    using ok(1) by (simp add: find_char_from_def find_char_append_Some)
  have fld: "line_field sep (?l @ NL # ?r) 0 = [(k, v)]"
    using eol sep by (simp add: line_field_def substr_def)
  have "line_fields sep ?r 0 = kvs" using Cons by simp
  moreover have "find_not_eol (?l @ NL # ?r) (length ?l) =
      (if kvs = [] then None else Some (length (?l @ [NL])))"
  proof (cases kvs)
    case Nil
    then show ?thesis by (simp add: find_not_eol_def print_fields_def is_eol_def)
  next
    case (Cons kv2 kvs2)
    obtain k2 v2 where kv2: "kv2 = (k2, v2)" by fastforce
    have "\<not> is_eol (hd ?r)" "?r \<noteq> []"
      using Cons.prems Cons kv2 assms(2) \<open>\<forall>kv \<in> set (kv # kvs). field_ok sep kv\<close>
      by (cases k2; auto simp: print_fields_def field_ok_def)+
    then obtain c cs where "?r = c # cs" "\<not> is_eol c" by (cases ?r) auto
    then show ?thesis using Cons by (simp add: find_not_eol_def is_eol_def)
  qed
  moreover have "line_fields sep (?l @ NL # ?r) (length (?l @ [NL])) = line_fields sep ?r 0"
    using line_fields_shift [of sep "?l @ [NL]" ?r 0] by simp
  ultimately show ?case
    unfolding out using fld eol by (subst line_fields.simps) (auto simp: kv)
qed

end
