(* ===== verification/Mounts.thy ===== *)
theory Mounts
  imports ToolOutput Istream FilePath StateExn
begin

text \<open>
  \<^verbatim>\<open>kdumptool/mounts.cc\<close>: which mount a path is on, which block devices are below it, and what \<^verbatim>\<open>root=\<close> of the kernel
  command line names. \<^verbatim>\<open>libmount\<close> delivers the entries of a table and resolves device specifications; they are parameters
  here, like the ioctls of btrfs and the output of \<^verbatim>\<open>lsblk\<close>.
\<close>

unbundle bit_operations_syntax

section \<open>Mount tables\<close>

record mnt_fs =
  fs_source :: string
  fs_target :: string
  fs_type :: string
  fs_pseudo :: bool
  fs_swap :: bool

text \<open>
  \<open>MountTable::find_mount\<close>: of the real file systems, the one with the longest canonical target that the path begins with, the
  later one of equals.
\<close>

fun find_mount_loop ::
    "(string \<Rightarrow> string res) \<Rightarrow> string \<Rightarrow> (mnt_fs \<times> string) option \<Rightarrow> nat \<Rightarrow> mnt_fs list \<Rightarrow> (mnt_fs \<times> string) option res"
where
  "find_mount_loop canonical cpath best bestlen [] = Inr best"
| "find_mount_loop canonical cpath best bestlen (fs # fss) =
     (if fs_pseudo fs \<or> fs_swap fs then find_mount_loop canonical cpath best bestlen fss
      else res_bind (canonical (fs_target fs)) (\<lambda>ctarget.
        if length ctarget \<ge> bestlen \<and> substr cpath 0 (length ctarget) = ctarget
        then find_mount_loop canonical cpath (Some (fs, ctarget)) (length ctarget) fss
        else find_mount_loop canonical cpath best bestlen fss))"

definition find_mount :: "(string \<Rightarrow> string res) \<Rightarrow> mnt_fs list \<Rightarrow> string \<Rightarrow> (mnt_fs \<times> string) option res" where
  "find_mount canonical table path =
     res_bind (canonical path) (\<lambda>cpath. find_mount_loop canonical cpath None 0 table)"

record mount_env =
  me_fs :: "string \<Rightarrow> node"
  me_cwd :: string
  me_kernel :: "mnt_fs list option"
  me_fstab :: "mnt_fs list option"
  me_resolve_spec :: "string \<Rightarrow> string option"
  me_cmdline :: "string option"
  me_btrfs_open :: "string \<Rightarrow> errno option"
  me_btrfs_info :: "string \<Rightarrow> errno + nat"
  me_btrfs_dev :: "string \<Rightarrow> nat \<Rightarrow> errno option + string option"
  me_lsblk :: "string list \<Rightarrow> (int \<times> string \<times> string) res"

definition mount_canonical :: "mount_env \<Rightarrow> string \<Rightarrow> string res" where
  "mount_canonical env path = getCanonicalPath (me_fs env) (me_cwd env) PATH_SEPARATOR path"

definition PathMountPoint :: "mount_env \<Rightarrow> string \<Rightarrow> mnt_fs option res" where
  "PathMountPoint env path =
     (case me_kernel env of
        None \<Rightarrow> Inl (KError (''Can'' @ [SQUOTE] @ ''t read kernel mount table''))
      | Some kernel_table \<Rightarrow>
          res_bind (find_mount (mount_canonical env) kernel_table path) (\<lambda>mp_kernel.
            case me_fstab env of
              None \<Rightarrow> Inl (KError (''Can'' @ [SQUOTE] @ ''t read fstab''))
            | Some fstab \<Rightarrow>
                res_bind (find_mount (mount_canonical env) fstab path) (\<lambda>mp_fstab.
                  Inr (case (mp_kernel, mp_fstab) of
                         (k, None) \<Rightarrow> map_option fst k
                       | (None, Some f) \<Rightarrow> Some (fst f)
                       | (Some k, Some f) \<Rightarrow> Some (fst (if length (snd k) > length (snd f) then k else f))))))"

section \<open>The root device\<close>

definition PATH_DEV_BLOCK :: string where "PATH_DEV_BLOCK = ''/dev/block/''"
definition PATH_DEV_ROOT :: string where "PATH_DEV_ROOT = ''/dev/root''"
definition PATH_PROC_CMDLINE :: string where "PATH_PROC_CMDLINE = ''/proc/cmdline''"

definition devroot_maj_min :: "string \<Rightarrow> string option" where
  "devroot_maj_min devroot =
     (case find_char (CHR '':'') devroot of
        None \<Rightarrow> None
      | Some pos \<Rightarrow>
          let devmajor = take pos devroot; devminor = drop (pos + 1) devroot
          in if \<not> isNumber devmajor then None
             else (case find_char (CHR '':'') devminor of
                     None \<Rightarrow>
                       if \<not> isNumber devminor then None
                       else Some (PATH_DEV_BLOCK @ devmajor @ '':'' @ devminor)
                   | Some p \<Rightarrow>
                       if \<not> isNumber (drop (p + 1) devminor) then None
                       else if \<not> isNumber (take p devminor) then None
                       else Some (PATH_DEV_BLOCK @ devmajor @ '':'' @ take p devminor)))"

text \<open>\<^verbatim>\<open>major\<close> and \<^verbatim>\<open>minor\<close> of a 64-bit \<^verbatim>\<open>dev_t\<close>, as in \<^verbatim>\<open>sys/sysmacros.h\<close>.\<close>

definition dev_major :: "64 word \<Rightarrow> 64 word" where
  "dev_major dev = (drop_bit 8 dev AND 0xfff) OR (drop_bit 32 dev AND NOT 0xfff)"

definition dev_minor :: "64 word \<Rightarrow> 64 word" where
  "dev_minor dev = (dev AND 0xff) OR (drop_bit 12 dev AND NOT 0xff)"

definition devroot_hexhex :: "string \<Rightarrow> string option" where
  "devroot_hexhex devroot =
     (if \<not> isHexNumber devroot then None
      else let dev = (case fst (get_ulong Hex (istream_new devroot)) of None \<Rightarrow> 0 | Some v \<Rightarrow> v)
           in Some (PATH_DEV_BLOCK @ number2string (int (unat (dev_major dev AND 0xffffffff))) @ '':'' @
                number2string (int (unat (dev_minor dev AND 0xffffffff)))))"

definition remove_kparam_quotes :: "string \<Rightarrow> string" where
  "remove_kparam_quotes s =
     (if s \<noteq> [] \<and> hd s = DQUOTE
      then (let t = tl s in if t \<noteq> [] \<and> last t = DQUOTE then butlast t else t)
      else s)"

text \<open>One parameter of the command line, up to a space outside quotes; \<^const>\<open>None\<close> at the end of the file.\<close>

fun kparam_token :: "bool \<Rightarrow> string \<Rightarrow> string \<times> string option" where
  "kparam_token in_quote [] = ([], None)"
| "kparam_token in_quote (c # cs) =
     (if \<not> in_quote \<and> isspace c then ([], Some cs)
      else (case kparam_token (if c = DQUOTE then \<not> in_quote else in_quote) cs of (t, r) \<Rightarrow> (c # t, r)))"

lemma kparam_token_rest: "kparam_token q s = (t, Some r) \<Longrightarrow> length r < length s"
  by (induction q s arbitrary: t rule: kparam_token.induct) (fastforce split: if_splits prod.splits)+

function cmdline_root :: "string \<Rightarrow> string \<Rightarrow> string" where
  "cmdline_root s devroot =
     (case kparam_token False s of
        (t, r) \<Rightarrow>
          let p = remove_kparam_quotes t;
              devroot' = (if startsWith p ''root='' then remove_kparam_quotes (drop 5 p) else devroot)
          in if p = ''--'' then devroot
             else (case r of None \<Rightarrow> devroot' | Some s' \<Rightarrow> cmdline_root s' devroot'))"
  by pat_completeness auto
termination
  by (relation "measure (\<lambda>(s, devroot). length s)") (auto dest: kparam_token_rest [OF sym])

declare cmdline_root.simps [simp del]

text \<open>
  \<open>PathResolver\<close>: the static member \<open>m_devroot\<close> is the state. \<open>resolve\<close> and \<open>system_root\<close> call each other, but a
  nested \<open>system_root\<close> finds the member set and returns it.
\<close>

definition resolve_spec :: "mount_env \<Rightarrow> string \<Rightarrow> string res" where
  "resolve_spec env spec =
     (case me_resolve_spec env spec of
        None \<Rightarrow> Inl (KError (''Cannot resolve path: '' @ spec))
      | Some path \<Rightarrow> Inr path)"

definition system_root :: "mount_env \<Rightarrow> (string, string) sx" where
  "system_root env devroot =
     (if devroot \<noteq> [] then (Inr devroot, devroot)
      else case me_cmdline env of
             None \<Rightarrow> (Inl (KError (''Unable to open '' @ PATH_PROC_CMDLINE @ ''.'')), devroot)
           | Some cmdline \<Rightarrow>
               let root = cmdline_root cmdline []
               in if root = [] then (Inr PATH_DEV_ROOT, PATH_DEV_ROOT)
                  else (case devroot_maj_min root of
                          Some d \<Rightarrow> (Inr d, d)
                        | None \<Rightarrow>
                            (case devroot_hexhex root of
                               Some d \<Rightarrow> (Inr d, d)
                             | None \<Rightarrow>
                                 (case resolve_spec env root of
                                    Inl e \<Rightarrow> (Inl e, root)
                                  | Inr path \<Rightarrow>
                                      let d = (if path = PATH_DEV_ROOT then root else path) in (Inr d, d)))))"

definition resolve :: "mount_env \<Rightarrow> string \<Rightarrow> (string, string) sx" where
  "resolve env spec =
     sx_bind (sx_lift (resolve_spec env spec)) (\<lambda>path.
       if path = PATH_DEV_ROOT then system_root env else sx_return path)"

section \<open>Devices\<close>

fun btrfs_devices :: "mount_env \<Rightarrow> string \<Rightarrow> nat list \<Rightarrow> string list res" where
  "btrfs_devices env path [] = Inr []"
| "btrfs_devices env path (devid # devids) =
     (case me_btrfs_dev env path devid of
        Inl None \<Rightarrow> btrfs_devices env path devids
      | Inl (Some e) \<Rightarrow> Inl (KSystemError ''Cannot get BTRFS device info for devid=%d'' (EOTHER devid))
      | Inr None \<Rightarrow> btrfs_devices env path devids
      | Inr (Some dev) \<Rightarrow> res_bind (btrfs_devices env path devids) (\<lambda>ds. Inr (dev # ds)))"

definition getDeviceList :: "mount_env \<Rightarrow> string \<Rightarrow> string list res" where
  "getDeviceList env path =
     (case me_btrfs_open env path of
        Some e \<Rightarrow> Inl (KSystemError (''Cannot open '' @ path) e)
      | None \<Rightarrow>
          (case me_btrfs_info env path of
             Inl e \<Rightarrow> Inl (KSystemError ''Cannot get BTRFS filesystem info'' e)
           | Inr max_id \<Rightarrow> btrfs_devices env path [0..<max_id + 1]))"

text \<open>
  \<open>FilesystemTypeMap\<close>: the set of the sources in order, the map from devices to types, and the static root device.
\<close>

record fstype_map =
  m_sources :: "(string \<times> unit) list"
  m_devices :: "(string \<times> string) list"
  m_devroot :: string

definition add_source :: "mount_env \<Rightarrow> string \<Rightarrow> (fstype_map, unit) sx" where
  "add_source env spec m =
     (case resolve env spec (m_devroot m) of
        (Inl e, d) \<Rightarrow> (Inl e, m\<lparr>m_devroot := d\<rparr>)
      | (Inr dev, d) \<Rightarrow> (Inr (), m\<lparr>m_devroot := d, m_sources := smap_insert dev () (m_sources m)\<rparr>))"

fun add_sources :: "mount_env \<Rightarrow> string list \<Rightarrow> (fstype_map, unit) sx" where
  "add_sources env [] = sx_return ()"
| "add_sources env (d # ds) = sx_seq (add_source env d) (add_sources env ds)"

definition addPath :: "mount_env \<Rightarrow> string \<Rightarrow> (fstype_map, unit) sx" where
  "addPath env path =
     sx_bind (sx_lift (PathMountPoint env path)) (\<lambda>mnt.
       case mnt of
         None \<Rightarrow> sx_return ()
       | Some fs \<Rightarrow>
           if fs_type fs = ''btrfs''
           then sx_bind (sx_lift (getDeviceList env (fs_target fs))) (add_sources env)
           else add_source env (fs_source fs))"

definition lsblk_opts :: "string list" where
  "lsblk_opts = [''--raw'', ''--noheadings'', ''--inverse'', ''--output'', ''FSTYPE,PATH'']"

definition devices :: "mount_env \<Rightarrow> fstype_map \<Rightarrow> fstype_map res" where
  "devices env m =
     (if m_sources m = [] then Inr m
      else res_bind (me_lsblk env (lsblk_opts @ map fst (m_sources m))) (\<lambda>(ret, out, err).
        if ret \<noteq> 0 then Inl (KError (''lsblk failed: '' @ trim trim_default err))
        else Inr (m\<lparr>m_devices :=
               foldl (\<lambda>ds (ty, path). smap_insert path ty ds) (m_devices m) (line_fields (CHR '' '') out 0)\<rparr>)))"

section \<open>Which mount\<close>

text \<open>
  The result is a real file system whose canonical target the path begins with, and no real one has a longer target with which
  it begins. That is a prefix of characters, not of path components.
\<close>

definition candidate_mount :: "(string \<Rightarrow> string res) \<Rightarrow> string \<Rightarrow> mnt_fs \<Rightarrow> string \<Rightarrow> bool" where
  "candidate_mount canonical cpath fs ctarget \<longleftrightarrow>
     \<not> fs_pseudo fs \<and> \<not> fs_swap fs \<and> canonical (fs_target fs) = Inr ctarget \<and> prefix ctarget cpath"

lemma substr_prefix: "substr s 0 (length t) = t \<longleftrightarrow> prefix t s"
  by (auto simp: substr_def prefix_def) (metis append_take_drop_id)

lemma find_mount_loop_longest:
  assumes "find_mount_loop canonical cpath best bestlen fss = Inr r"
    and "case best of None \<Rightarrow> bestlen = 0 | Some (fs, t) \<Rightarrow> bestlen = length t"
  shows "(case r of None \<Rightarrow> best = None | Some (fs, t) \<Rightarrow> bestlen \<le> length t \<and> (best = Some (fs, t) \<or> fs \<in> set fss \<and> candidate_mount canonical cpath fs t)) \<and>
    (\<forall>fs \<in> set fss. \<forall>t. candidate_mount canonical cpath fs t \<longrightarrow> (\<exists>fs' t'. r = Some (fs', t') \<and> length t \<le> length t'))"
  using assms
proof (induction fss arbitrary: best bestlen)
  case Nil
  then show ?case by (auto split: option.splits)
next
  case (Cons f fss)
  show ?case
  proof (cases "fs_pseudo f \<or> fs_swap f")
    case True
    then have skip: "\<not> candidate_mount canonical cpath f t" for t by (auto simp: candidate_mount_def)
    from Cons.IH [of best bestlen] Cons.prems True show ?thesis
      by (auto simp: skip split: option.splits)
  next
    case False
    then obtain ctarget where c: "canonical (fs_target f) = Inr ctarget"
      using Cons.prems(1) by (auto simp: res_bind_eq_Inr_iff)
    show ?thesis
    proof (cases "length ctarget \<ge> bestlen \<and> prefix ctarget cpath")
      case True
      then have run: "find_mount_loop canonical cpath (Some (f, ctarget)) (length ctarget) fss = Inr r"
        using Cons.prems(1) False c by (simp add: substr_prefix)
      have cand: "candidate_mount canonical cpath f ctarget" using False c True by (simp add: candidate_mount_def)
      from Cons.IH [OF run] True cand c show ?thesis
        by (auto simp: candidate_mount_def split: option.splits)
    next
      case no: False
      then have run: "find_mount_loop canonical cpath best bestlen fss = Inr r"
        using Cons.prems(1) False c by (simp add: substr_prefix split: if_splits)
      have "\<exists>fs' t'. r = Some (fs', t') \<and> length t \<le> length t'" if "candidate_mount canonical cpath f t" for t
      proof -
        from that c no have "t = ctarget" "length t < bestlen" by (auto simp: candidate_mount_def)
        then show ?thesis using Cons.IH [OF run Cons.prems(2)] Cons.prems(2) by (fastforce split: option.splits)
      qed
      with Cons.IH [OF run Cons.prems(2)] show ?thesis by (auto split: option.splits)
    qed
  qed
qed

lemma find_mount_longest:
  assumes "find_mount canonical table path = Inr r"
  shows "\<exists>cpath. canonical path = Inr cpath \<and>
    (case r of
       None \<Rightarrow> \<forall>fs \<in> set table. \<forall>t. \<not> candidate_mount canonical cpath fs t
     | Some (fs, t) \<Rightarrow> fs \<in> set table \<and> candidate_mount canonical cpath fs t \<and>
         (\<forall>fs' \<in> set table. \<forall>t'. candidate_mount canonical cpath fs' t' \<longrightarrow> length t' \<le> length t))"
proof -
  from assms obtain cpath where c: "canonical path = Inr cpath" "find_mount_loop canonical cpath None 0 table = Inr r"
    by (auto simp: find_mount_def res_bind_eq_Inr_iff)
  from find_mount_loop_longest [OF c(2)] c(1) show ?thesis by (auto split: option.splits)
qed

text \<open>A directory beside the target whose name begins with it is taken for one below it.\<close>

lemma find_mount_sibling:
  assumes "fs_target fs = ''/var''" and "\<not> fs_pseudo fs" and "\<not> fs_swap fs"
  shows "find_mount Inr [fs] ''/variant'' = Inr (Some (fs, ''/var''))"
  using assms by (simp add: find_mount_def substr_def)

section \<open>What lsblk says\<close>

lemma devices_types:
  assumes "m_sources m \<noteq> []" and "me_lsblk env (lsblk_opts @ map fst (m_sources m)) = Inr (0, print_fields (CHR '' '') kvs, err)"
    and "\<forall>kv \<in> set kvs. field_ok (CHR '' '') kv"
  shows "\<exists>m'. devices env m = Inr m' \<and>
    map_of (m_devices m') = map_of (m_devices m) ++ map_of (rev (map (\<lambda>(ty, path). (path, ty)) kvs))"
proof -
  have "\<not> is_eol (CHR '' '')" by (simp add: is_eol_def char_consts)
  from line_fields_print [OF assms(3) this]
  have "line_fields (CHR '' '') (print_fields (CHR '' '') kvs) 0 = kvs" .
  moreover have "map_of (foldl (\<lambda>ds (ty, path). smap_insert path ty ds) ds kvs) =
      map_of ds ++ map_of (rev (map (\<lambda>(ty, path). (path, ty)) kvs))" for ds
    by (induction kvs arbitrary: ds) (auto simp: map_of_smap_insert map_add_def fun_eq_iff split: option.splits)
  ultimately show ?thesis using assms(1,2) by (auto simp: devices_def)
qed

end
