(* ===== verification/Calibrate.thy ===== *)
theory Calibrate
  imports SystemInfo MemMap Mounts RootDirURL Configuration
begin

text \<open>
  \<^verbatim>\<open>kdumptool/calibrate.cc\<close>: the subcommand that estimates how much memory to reserve for the crash kernel. The
  quantities are \<^verbatim>\<open>unsigned long\<close> values of 64 bits, in KiB, as on x86\_64, powerpc64, s390x, ia64 and aarch64.
\<close>

unbundle bit_operations_syntax

section \<open>Constants\<close>

definition MB :: "64 word \<Rightarrow> 64 word" where
  "MB x = x * 1024"

definition shr_round_up :: "64 word \<Rightarrow> nat \<Rightarrow> 64 word" where
  "shr_round_up n amt = drop_bit amt (n + push_bit amt 1 - 1)"

record arch =
  DEF_RESERVE_KB :: "64 word"
  KERNEL_KB :: "64 word"
  KERNEL_INIT_KB :: "64 word"
  INIT_KB :: "64 word"
  INIT_NET_KB :: "64 word"
  SIZE_STRUCT_PAGE :: "64 word"
  KDUMP_PHYS_LOAD :: "64 word"
  CAN_REDUCE_CPUS :: bool
  PERCPU_KB :: "64 word"
  DEF_FRAMEBUFFER_KB :: "64 word"
  align_memmap :: "64 word \<Rightarrow> 64 word"
  split_lowmem :: bool

definition s390x_align_memmap :: "64 word \<Rightarrow> 64 word" where
  "s390x_align_memmap maxpfn = ((maxpfn - 1) OR (push_bit (28 - 12 - 10) 1 - 1)) + 1"

definition arch_x86_64 :: arch where
  "arch_x86_64 =
     \<lparr>DEF_RESERVE_KB = MB 192, KERNEL_KB = MB 38, KERNEL_INIT_KB = MB 5, INIT_KB = MB 51, INIT_NET_KB = MB 3,
      SIZE_STRUCT_PAGE = 64, KDUMP_PHYS_LOAD = 0, CAN_REDUCE_CPUS = True, PERCPU_KB = 108,
      DEF_FRAMEBUFFER_KB = 768 * 4, align_memmap = (\<lambda>maxpfn. maxpfn), split_lowmem = True\<rparr>"

definition arch_powerpc64 :: arch where
  "arch_powerpc64 =
     \<lparr>DEF_RESERVE_KB = MB 384, KERNEL_KB = MB 38, KERNEL_INIT_KB = MB 5, INIT_KB = MB 87, INIT_NET_KB = MB 4,
      SIZE_STRUCT_PAGE = 64, KDUMP_PHYS_LOAD = MB 128, CAN_REDUCE_CPUS = False, PERCPU_KB = 172,
      DEF_FRAMEBUFFER_KB = 768 * 4, align_memmap = (\<lambda>maxpfn. maxpfn), split_lowmem = False\<rparr>"

definition arch_s390x :: arch where
  "arch_s390x =
     \<lparr>DEF_RESERVE_KB = MB 192, KERNEL_KB = MB 31, KERNEL_INIT_KB = 512, INIT_KB = MB 51, INIT_NET_KB = MB 2,
      SIZE_STRUCT_PAGE = 64, KDUMP_PHYS_LOAD = 0, CAN_REDUCE_CPUS = True, PERCPU_KB = 48,
      DEF_FRAMEBUFFER_KB = 0, align_memmap = s390x_align_memmap, split_lowmem = False\<rparr>"

definition arch_ia64 :: arch where
  "arch_ia64 =
     \<lparr>DEF_RESERVE_KB = MB 768, KERNEL_KB = MB 77, KERNEL_INIT_KB = MB 3, INIT_KB = MB 66, INIT_NET_KB = MB 4,
      SIZE_STRUCT_PAGE = 64, KDUMP_PHYS_LOAD = 0, CAN_REDUCE_CPUS = True, PERCPU_KB = 0,
      DEF_FRAMEBUFFER_KB = 768 * 4, align_memmap = (\<lambda>maxpfn. maxpfn), split_lowmem = False\<rparr>"

definition arch_aarch64 :: arch where
  "arch_aarch64 =
     \<lparr>DEF_RESERVE_KB = MB 192, KERNEL_KB = MB 31, KERNEL_INIT_KB = MB 1, INIT_KB = MB 51, INIT_NET_KB = MB 3,
      SIZE_STRUCT_PAGE = 64, KDUMP_PHYS_LOAD = 0, CAN_REDUCE_CPUS = True, PERCPU_KB = 0,
      DEF_FRAMEBUFFER_KB = 768 * 4, align_memmap = (\<lambda>maxpfn. maxpfn), split_lowmem = False\<rparr>"

definition INITRD_COMPRESS :: "64 word" where "INITRD_COMPRESS = 50"
definition KERNEL_DYNAMIC_KB :: "64 word" where "KERNEL_DYNAMIC_KB = MB 8"
definition KERNEL_HASH_PER_MB :: "64 word" where "KERNEL_HASH_PER_MB = 232 * 8"
definition BUF_PER_DIRTY_MB :: "64 word" where "BUF_PER_DIRTY_MB = 64"
definition DIRTY_RATIO :: "64 word" where "DIRTY_RATIO = 20"
definition USER_BASE_KB :: "64 word" where "USER_BASE_KB = MB 56"
definition USER_NET_KB :: "64 word" where "USER_NET_KB = MB 10"
definition MAX_BITMAP_KB :: "64 word" where "MAX_BITMAP_KB = MB 32"
definition MINLOW_KB :: "64 word" where "MINLOW_KB = MB (64 + 8)"

definition DEF_BOOTSIZE :: "arch \<Rightarrow> 64 word" where
  "DEF_BOOTSIZE a = KERNEL_KB a + KERNEL_INIT_KB a + INIT_KB a + INIT_NET_KB a +
     ((INIT_KB a + INIT_NET_KB a) * INITRD_COMPRESS) div 100"

section \<open>Encrypted volumes\<close>

text \<open>
  \<open>CryptInfo\<close>: the largest number behind the key \<^verbatim>\<open>Memory\<close> in what \<^verbatim>\<open>cryptsetup luksDump\<close> prints.
\<close>

fun crypt_memory :: "(string \<times> string) list \<Rightarrow> 64 word \<Rightarrow> 64 word res" where
  "crypt_memory [] m_memory = Inr m_memory"
| "crypt_memory ((key, val) # kvs) m_memory =
     (if trim trim_default key = ''Memory''
      then res_bind (asLongLong (trim trim_default val)) (\<lambda>v.
             let memory = word_of_int v
             in crypt_memory kvs (if memory > m_memory then memory else m_memory))
      else crypt_memory kvs m_memory)"

definition CryptInfo :: "(string list \<Rightarrow> (int \<times> string \<times> string) res) \<Rightarrow> string \<Rightarrow> 64 word res" where
  "CryptInfo cryptsetup device =
     res_bind (cryptsetup [''luksDump'', device]) (\<lambda>(ret, out, err).
       if ret \<noteq> 0 then Inl (KError (''cryptsetup failed: '' @ trim trim_default err))
       else crypt_memory (line_fields (CHR '':'') out 0) 0)"

section \<open>The environment\<close>

record calib_env =
  ce_arch :: arch
  ce_files :: sysfiles
  ce_opendir :: "string \<Rightarrow> errno + dirent list"
  ce_pagesize :: "64 word"
  ce_mounts :: mount_env
  ce_cryptsetup :: "string list \<Rightarrow> (int \<times> string \<times> string) res"

text \<open>Volumes below the kernel and the dump directories; a path that cannot be resolved is left out.\<close>

definition add_path :: "calib_env \<Rightarrow> string \<Rightarrow> (fstype_map, unit) sx" where
  "add_path env path = sx_try (addPath (ce_mounts env) path) (\<lambda>_. sx_return ())"

fun add_savedirs :: "calib_env \<Rightarrow> string list \<Rightarrow> (fstype_map, unit) sx" where
  "add_savedirs env [] = sx_return ()"
| "add_savedirs env (elem # elems) =
     sx_bind (sx_lift (RootDirURL (me_fs (ce_mounts env)) (me_cwd (ce_mounts env)) elem [])) (\<lambda>url.
       sx_seq (if m_protocol url = PROT_FILE then add_path env (getRealPath url) else sx_return ())
         (add_savedirs env elems))"

fun crypto_devices :: "calib_env \<Rightarrow> (string \<times> string) list \<Rightarrow> 64 word \<Rightarrow> 64 word res" where
  "crypto_devices env [] crypto_mem = Inr crypto_mem"
| "crypto_devices env ((dev, ty) # devs) crypto_mem =
     (if ty = ''crypto_LUKS''
      then res_bind (CryptInfo (ce_cryptsetup env) dev) (\<lambda>memory.
             crypto_devices env devs (if crypto_mem < memory then memory else crypto_mem))
      else crypto_devices env devs crypto_mem)"

definition fstype_map_new :: fstype_map where
  "fstype_map_new = \<lparr>m_sources = [], m_devices = [], m_devroot = []\<rparr>"

definition crypto_kb :: "calib_env \<Rightarrow> configuration \<Rightarrow> 64 word res" where
  "crypto_kb env config =
     (case sx_seq (if config_bool ''KDUMP_COPY_KERNEL'' config then add_path env ''/boot'' else sx_return ())
             (add_savedirs env (stream_words (config_string ''KDUMP_SAVEDIR'' config))) fstype_map_new of
        (Inl e, m) \<Rightarrow> Inl e
      | (Inr _, m) \<Rightarrow>
          res_bind (devices (ce_mounts env) m) (\<lambda>m'. crypto_devices env (m_devices m') 0))"

section \<open>The parts of the estimate\<close>

definition ramfs_kb :: "arch \<Rightarrow> bool \<Rightarrow> 64 word" where
  "ramfs_kb a needsnet = (if needsnet then INIT_KB a + INIT_NET_KB a else INIT_KB a)"

definition boot_kb :: "arch \<Rightarrow> bool \<Rightarrow> 64 word" where
  "boot_kb a needsnet =
     (let ramfs = ramfs_kb a needsnet; initrd = (ramfs * INITRD_COMPRESS) div 100
      in KERNEL_KB a + KERNEL_INIT_KB a + initrd + ramfs)"

definition framebuffer_kb :: "calib_env \<Rightarrow> 64 word res" where
  "framebuffer_kb env =
     res_or (2 * DEF_FRAMEBUFFER_KB (ce_arch env))
       (res_bind (framebuffers_size (ce_files env) (ce_opendir env) ''/sys'') (\<lambda>n. Inr (2 * n div 1024)))"

definition const_slab :: "string \<Rightarrow> bool" where
  "const_slab name \<longleftrightarrow> startsWith name ''Acpi-'' \<or> startsWith name ''ftrace_''"

definition slab_kb :: "64 word \<Rightarrow> (string \<times> slab_info) list \<Rightarrow> 64 word" where
  "slab_kb pagesize infos =
     foldl (\<lambda>required (name, si).
       if const_slab name then required + si_num_slabs si * si_pages_per_slab si * pagesize div 1024 else required)
       0 infos"

definition slabs_kb :: "calib_env \<Rightarrow> 64 word res" where
  "slabs_kb env = res_or 0 (res_bind (getInfo (ce_files env) ''/proc'') (\<lambda>infos. Inr (slab_kb (ce_pagesize env) infos)))"

definition assumed_cpus :: "calib_env \<Rightarrow> configuration \<Rightarrow> 64 word res" where
  "assumed_cpus env config =
     (let cpus = (if CAN_REDUCE_CPUS (ce_arch env) then word_of_int (config_int ''KDUMP_CPUS'' config) else 0)
      in if cpus = 0
         then res_bind (numOnline (ce_files env) ''/sys'') (\<lambda>online.
              res_bind (numOffline (ce_files env) ''/sys'') (\<lambda>offline. Inr (online + offline)))
         else Inr cpus)"

definition bitmap_kb :: "64 word \<Rightarrow> 64 word \<Rightarrow> 64 word" where
  "bitmap_kb memtotal pagesize =
     (let bitmapsz = shr_round_up (memtotal div pagesize) 2
      in if bitmapsz > MAX_BITMAP_KB then MAX_BITMAP_KB else bitmapsz)"

definition user_kb :: "64 word \<Rightarrow> 64 word \<Rightarrow> bool \<Rightarrow> bool \<Rightarrow> 64 word" where
  "user_kb memtotal pagesize needsnet makedumpfile =
     (let user = (if needsnet then USER_BASE_KB + USER_NET_KB else USER_BASE_KB)
      in if makedumpfile
         then user + bitmap_kb memtotal pagesize + 96 * shr_round_up memtotal (20 + 7)
         else user)"

text \<open>The steps that scale what is required so far.\<close>

definition add_dirty :: "64 word \<Rightarrow> 64 word" where
  "add_dirty required = required * MB 100 div (MB 100 - MB DIRTY_RATIO - DIRTY_RATIO * BUF_PER_DIRTY_MB)"

definition add_hashes :: "64 word \<Rightarrow> 64 word" where
  "add_hashes required = required * MB 1024 div (MB 1024 - KERNEL_HASH_PER_MB)"

definition add_memmap :: "arch \<Rightarrow> 64 word \<Rightarrow> 64 word \<Rightarrow> 64 word" where
  "add_memmap a pagesize prev =
     (let required = prev * pagesize div (pagesize - SIZE_STRUCT_PAGE a);
          maxpfn = (required - prev) div SIZE_STRUCT_PAGE a
      in prev + align_memmap a maxpfn * SIZE_STRUCT_PAGE a)"

definition scaled_kb :: "arch \<Rightarrow> 64 word \<Rightarrow> 64 word \<Rightarrow> 64 word" where
  "scaled_kb a pagesize required =
     add_memmap a pagesize (add_hashes (add_dirty required + KDUMP_PHYS_LOAD a)) - KDUMP_PHYS_LOAD a"

section \<open>The estimate\<close>

text \<open>
  The body of the \<^verbatim>\<open>try\<close> block: the size required, or the exception. \<open>bootsize\<close> is set in between.
\<close>

definition fixed_kb :: "calib_env \<Rightarrow> configuration \<Rightarrow> bool \<Rightarrow> 64 word res" where
  "fixed_kb env config needsnet =
     (let a = ce_arch env
      in res_bind (framebuffer_kb env) (\<lambda>fb.
         res_bind (res_or 0 (crypto_kb env config)) (\<lambda>crypto.
         res_bind (slabs_kb env) (\<lambda>slab.
         res_bind (assumed_cpus env config) (\<lambda>cpus.
           Inr (KERNEL_KB a + ramfs_kb a needsnet + KERNEL_DYNAMIC_KB + fb + crypto + slab))))))"

definition parts_kb :: "calib_env \<Rightarrow> configuration \<Rightarrow> 64 word \<Rightarrow> bool \<Rightarrow> 64 word res" where
  "parts_kb env config memtotal needsnet =
     res_bind (fixed_kb env config needsnet) (\<lambda>required.
       Inr (required + user_kb memtotal (ce_pagesize env) needsnet (needsMakedumpfile config)))"

definition required_kb :: "calib_env \<Rightarrow> configuration \<Rightarrow> 64 word \<Rightarrow> bool \<Rightarrow> 64 word res" where
  "required_kb env config memtotal needsnet =
     res_bind (parts_kb env config memtotal needsnet) (\<lambda>parts.
       let required = scaled_kb (ce_arch env) (ce_pagesize env) parts; bootsize = boot_kb (ce_arch env) needsnet
       in Inr (if required < bootsize then bootsize else required))"

text \<open>The values of \<open>bootsize\<close> and \<open>required\<close> behind the block and its handler.\<close>

definition reservation :: "calib_env \<Rightarrow> configuration \<Rightarrow> 64 word \<Rightarrow> (64 word \<times> 64 word) res" where
  "reservation env config memtotal =
     (let a = ce_arch env
      in case needsNetwork config of
           Inl e \<Rightarrow> if is_kerror e then Inr (DEF_BOOTSIZE a, DEF_RESERVE_KB a) else Inl e
         | Inr needsnet \<Rightarrow>
             res_bind (res_or (DEF_RESERVE_KB a) (required_kb env config memtotal needsnet)) (\<lambda>required.
               Inr (boot_kb a needsnet, required)))"

section \<open>The subcommand\<close>

text \<open>On x86\_64 the amount is divided between low and high memory.\<close>

definition swiotlb_kb :: "64 word \<Rightarrow> 64 word \<Rightarrow> 64 word" where
  "swiotlb_kb base required =
     (if base + push_bit 10 required \<ge> push_bit 32 1 then required + MB 64 else required)"

definition low_high :: "mem_range list \<Rightarrow> 64 word \<Rightarrow> 64 word \<Rightarrow> 64 word \<times> 64 word" where
  "low_high mm bootsize required =
     (let base = mm_find (push_bit 10 required) (push_bit 20 16) mm;
          required' = swiotlb_kb base required
      in if base < push_bit 32 1 then (0, required')
         else let low = MINLOW_KB; high = (if required' > low then required' - low else 0)
              in (low, if high < bootsize then bootsize else high))"

definition out_line :: "string \<Rightarrow> 64 word \<Rightarrow> string" where
  "out_line key v = key @ '': '' @ number2string (int (unat v)) @ [NL]"

definition is_domU :: "hyper_info \<Rightarrow> bool" where
  "is_domU hyper \<longleftrightarrow> hi_type hyper = ''xen'' \<and> hi_guest_type hyper = ''PV'' \<and> hi_guest_variant hyper = ''DomU''"

definition calibrate_output :: "arch \<Rightarrow> mem_range list \<Rightarrow> 64 word \<Rightarrow> 64 word \<Rightarrow> 64 word \<Rightarrow> string" where
  "calibrate_output a mm memtotal bootsize required =
     out_line ''Total'' (drop_bit 10 memtotal) @
     (if split_lowmem a
      then (case low_high mm bootsize required of
              (low, high) \<Rightarrow>
                out_line ''Low'' (shr_round_up low 10) @
                out_line ''High'' (shr_round_up high 10) @
                out_line ''MinLow'' (shr_round_up low 10) @
                out_line ''MaxLow'' (drop_bit 20 (mm_largest (push_bit 32 1) mm)) @
                ''MinHigh: 0'' @ [NL] @
                out_line ''MaxHigh'' (drop_bit 20 (mm_largest (- 1) mm)))
      else
        out_line ''Low'' (shr_round_up required 10) @
        ''High: 0'' @ [NL] @
        out_line ''MinLow'' (shr_round_up MINLOW_KB 10) @
        out_line ''MaxLow'' (drop_bit 20 (mm_largest (- 1) mm)) @
        ''MinHigh: 0 '' @ [NL] @ ''MaxHigh: 0 '' @ [NL])"

definition domU_output :: string where
  "domU_output = concat (map (\<lambda>l. l @ [NL])
     [''Total: 0'', ''Low: 0'', ''High: 0'', ''MinLow: 0'', ''MaxLow: 0'', ''MinHigh: 0 '', ''MaxHigh: 0 ''])"

definition calibrate_execute :: "calib_env \<Rightarrow> configuration \<Rightarrow> string res" where
  "calibrate_execute env config =
     res_bind (HyperInfo (ce_files env) ''/proc'' ''/sys'') (\<lambda>hyper.
       if is_domU hyper then Inr domU_output
       else
         res_bind (MemMap (ce_files env) ''/proc'') (\<lambda>mm.
           let memtotal = shr_round_up (mm_total mm) 10
           in res_bind (reservation env config memtotal) (\<lambda>(bootsize, required).
                Inr (calibrate_output (ce_arch env) mm memtotal bootsize required))))"

end
