(* ===== verification/CalibrateBounds.thy ===== *)
theory CalibrateBounds
  imports Calibrate
begin

text \<open>
  What the estimate of \<^verbatim>\<open>calibrate\<close> guarantees: on the supported architectures the 64-bit computation equals one over the natural
  numbers as long as the parts are at most \<open>2 ^ 43\<close> KiB; it is never below what booting needs and grows with the RAM; low
  memory is asked for only when the block does not fit below 4 GiB; and only a missing \<^verbatim>\<open>/proc/iomem\<close> or hypervisor file is fatal.
\<close>

unbundle bit_operations_syntax

section \<open>The estimate over the natural numbers\<close>

text \<open>The architectures, each with the number of page structures by which the memory map is rounded up.\<close>

definition archs :: "(arch \<times> nat) list" where
  "archs = [(arch_x86_64, 1), (arch_powerpc64, 1), (arch_s390x, 64), (arch_ia64, 1), (arch_aarch64, 1)]"

definition spec_scaled :: "nat \<Rightarrow> nat \<Rightarrow> nat \<Rightarrow> nat \<Rightarrow> nat" where
  "spec_scaled grain load ps n =
     (let dirty = n * 102400 div 80640; hashed = (dirty + load) * 1048576 div 1046720;
          pfns = hashed * 64 div (ps - 64) div 64
      in hashed + (pfns + grain - 1) div grain * grain * 64 - load)"

lemma unat_mult_lt: "unat a * unat b < 2 ^ 64 \<Longrightarrow> unat (a * b :: 64 word) = unat a * unat b"
  using unat_mult_lem [of a b] by simp

lemma unat_add_lt: "unat a + unat b < 2 ^ 64 \<Longrightarrow> unat (a + b :: 64 word) = unat a + unat b"
  using unat_add_lem [of a b] by simp

lemma unat_add_dirty:
  assumes "unat n \<le> 2 ^ 43"
  shows "unat (add_dirty n) = unat n * 102400 div 80640"
proof -
  have "unat (n * 102400) = unat n * 102400" using assms by (subst unat_mult_lt) auto
  then show ?thesis
    by (simp add: add_dirty_def MB_def DIRTY_RATIO_def BUF_PER_DIRTY_MB_def unat_div)
qed

lemma unat_add_hashes:
  assumes "unat n < 2 ^ 44"
  shows "unat (add_hashes n) = unat n * 1048576 div 1046720"
proof -
  have "unat (n * 1048576) = unat n * 1048576" using assms by (subst unat_mult_lt) auto
  then show ?thesis
    by (simp add: add_hashes_def MB_def KERNEL_HASH_PER_MB_def unat_div)
qed

lemma or_double: "(n :: nat) OR (2 * k + 1) = 2 * (n div 2 OR k) + 1"
  by (subst or_nat_rec) simp

lemma or_ones: "(n :: nat) OR (2 ^ k - 1) = n div 2 ^ k * 2 ^ k + (2 ^ k - 1)"
proof (induction k arbitrary: n)
  case 0
  then show ?case by simp
next
  case (Suc k)
  have e: "2 ^ Suc k - 1 = 2 * (2 ^ k - 1) + (1 :: nat)" by (induction k) auto
  have "n OR (2 ^ Suc k - 1) = 2 * (n div 2 OR (2 ^ k - 1)) + 1" unfolding e by (rule or_double)
  also have "\<dots> = 2 * (n div 2 div 2 ^ k * 2 ^ k + (2 ^ k - 1)) + 1" by (simp only: Suc.IH)
  also have "\<dots> = n div 2 ^ Suc k * 2 ^ Suc k + (2 ^ Suc k - 1)"
    unfolding e by (simp only: power_Suc div_mult2_eq distrib_left ac_simps)
  finally show ?case .
qed

lemma or_63: "(n :: nat) OR 63 = n div 64 * 64 + 63"
  using or_ones [of n 6] by simp

lemma round_up_64: "0 < n \<Longrightarrow> (n - 1) div 64 * 64 + 63 + 1 = (n + 63) div 64 * (64 :: nat)"
proof (cases n)
  case (Suc p)
  have "(64 + p) div 64 = Suc (p div 64)" by simp
  then show ?thesis by (simp add: Suc)
qed simp

lemma s390x_align_nat:
  assumes "unat m < 2 ^ 60"
  shows "unat (s390x_align_memmap m) = (unat m + 63) div 64 * 64"
proof (cases "m = 0")
  case True
  then show ?thesis by (simp add: s390x_align_memmap_def)
next
  case False
  then have m: "unat (m - 1) = unat m - 1" "0 < unat m"
    by (simp_all add: unat_gt_0 unat_minus_one)
  let ?x = "(m - 1) OR 63"
  have x: "unat ?x = (unat m - 1) div 64 * 64 + 63" by (simp add: unsigned_or_eq m or_63)
  have "unat ?x + 1 = (unat m + 63) div 64 * 64" unfolding x by (rule round_up_64 [OF m(2)])
  moreover from this have "unat (?x + 1) = unat ?x + 1" using assms by (subst unat_add_lt) auto
  moreover have "s390x_align_memmap m = ?x + 1" by (simp add: s390x_align_memmap_def)
  ultimately show ?thesis by simp
qed


lemma archs_cases:
  assumes "(a, g) \<in> set archs"
  shows "SIZE_STRUCT_PAGE a = 64" and "unat (KDUMP_PHYS_LOAD a) \<le> 131072" and "0 < g" and "g \<le> 64"
    and "unat m < 2 ^ 60 \<Longrightarrow> unat (align_memmap a m) = (unat m + g - 1) div g * g"
  using assms
  by (auto simp: archs_def arch_x86_64_def arch_powerpc64_def arch_s390x_def arch_ia64_def arch_aarch64_def MB_def
      s390x_align_nat)

lemma div_extra: "0 < d \<Longrightarrow> p * (d + k) div d = p + p * k div (d :: nat)"
  by (simp add: distrib_left)

lemma unat_add_memmap:
  assumes a: "(a, g) \<in> set archs" and p: "unat prev < 2 ^ 44" and ps: "4096 \<le> unat ps" "unat ps \<le> 65536"
  shows "unat (add_memmap a ps prev) = unat prev + (unat prev * 64 div (unat ps - 64) div 64 + g - 1) div g * g * 64"
proof -
  let ?p = "unat prev" and ?d = "unat ps - 64"
  let ?m = "?p * 64 div ?d div 64"
  have "?p * unat ps \<le> ?p * 65536" using ps(2) by (rule mult_le_mono2)
  moreover have "?p * 65536 < 2 ^ 64" using p by simp
  ultimately have mul: "unat (prev * ps) = ?p * unat ps" by (intro unat_mult_lt) linarith
  have sub: "unat (ps - 64) = ?d" using ps(1) by (simp add: unat_sub word_le_nat_alt)
  have d: "0 < ?d" "unat ps = ?d + 64" using ps(1) by linarith+
  have r: "unat (prev * ps div (ps - 64)) = ?p + ?p * 64 div ?d"
    unfolding unat_div mul sub by (subst (1) d(2)) (rule div_extra [OF d(1)])
  then have "unat (prev * ps div (ps - 64) - prev) = ?p * 64 div ?d" by (simp add: unat_sub word_le_nat_alt)
  then have m: "unat ((prev * ps div (ps - 64) - prev) div 64) = ?m" by (simp add: unat_div)
  have "?p * 64 div ?d \<le> ?p * 64" by (rule div_le_dividend)
  then have mb: "?m \<le> ?p" by (metis div_le_mono nonzero_mult_div_cancel_right zero_neq_numeral)
  define pages where "pages = align_memmap a ((prev * ps div (ps - 64) - prev) div 64)"
  have pages: "unat pages = (?m + g - 1) div g * g"
    unfolding pages_def using archs_cases(5) [OF a] m mb p by simp
  moreover have "(?m + g - 1) div g * g \<le> ?m + g"
    using div_times_less_eq_dividend [of "?m + g - 1" g] by linarith
  ultimately have b: "unat pages \<le> ?p + 64" using mb archs_cases(4) [OF a] by linarith
  then have mul64: "unat (pages * 64) = unat pages * 64" using p by (subst unat_mult_lt) auto
  have "add_memmap a ps prev = prev + pages * 64"
    by (simp add: add_memmap_def archs_cases(1) [OF a] pages_def Let_def)
  moreover have "unat (prev + pages * 64) = ?p + unat pages * 64"
    using b p mul64 by (subst unat_add_lt) auto
  ultimately show ?thesis by (simp only: pages)
qed

lemma scaled_nat:
  assumes a: "(a, g) \<in> set archs" and n: "unat n \<le> 2 ^ 43" and ps: "4096 \<le> unat ps" "unat ps \<le> 65536"
  shows "unat (scaled_kb a ps n) = spec_scaled g (unat (KDUMP_PHYS_LOAD a)) (unat ps) (unat n)"
proof -
  let ?l = "unat (KDUMP_PHYS_LOAD a)"
  let ?h = "add_hashes (add_dirty n + KDUMP_PHYS_LOAD a)"
  have dl: "unat n * 102400 div 80640 \<le> 2 ^ 43 * 102400 div 80640" using n by (intro div_le_mono mult_le_mono1)
  have dirty: "unat (add_dirty n + KDUMP_PHYS_LOAD a) = unat n * 102400 div 80640 + ?l"
    using dl archs_cases(2) [OF a] n by (subst unat_add_lt) (simp_all add: unat_add_dirty)
  then have hashed: "unat ?h = (unat n * 102400 div 80640 + ?l) * 1048576 div 1046720"
    using dl archs_cases(2) [OF a] by (subst unat_add_hashes) simp_all
  have "(unat n * 102400 div 80640 + ?l) * 1048576 div 1046720 \<le> (2 ^ 43 * 102400 div 80640 + 131072) * 1048576 div 1046720"
    by (rule div_le_mono [OF mult_le_mono1 [OF add_mono [OF dl archs_cases(2) [OF a]]]])
  then have h: "unat ?h < 2 ^ 44" unfolding hashed by simp
  note m = unat_add_memmap [OF a h ps]
  have "?l \<le> unat ?h" unfolding hashed by simp
  then have "KDUMP_PHYS_LOAD a \<le> add_memmap a ps ?h" unfolding word_le_nat_alt m by simp
  then show ?thesis
    unfolding scaled_kb_def by (simp add: unat_sub m hashed spec_scaled_def Let_def)
qed


section \<open>No estimate below what is needed\<close>

lemma ratio_ge: "0 < d \<Longrightarrow> d \<le> k \<Longrightarrow> n \<le> n * k div (d :: nat)"
  by (metis div_le_mono mult_le_mono2 nonzero_mult_div_cancel_right not_gr0)

lemma spec_scaled_ge: "n \<le> spec_scaled g l ps n"
proof -
  have "n \<le> n * 102400 div 80640" by (rule ratio_ge) auto
  moreover have "k \<le> k * 1048576 div 1046720" for k :: nat by (rule ratio_ge) auto
  ultimately have "n + l \<le> (n * 102400 div 80640 + l) * 1048576 div 1046720"
    by (meson add_le_mono1 order_trans)
  then show ?thesis unfolding spec_scaled_def Let_def by linarith
qed

lemma spec_scaled_mono: "m \<le> n \<Longrightarrow> spec_scaled g l ps m \<le> spec_scaled g l ps n"
  unfolding spec_scaled_def Let_def
  by (intro diff_le_mono add_mono mult_le_mono1 div_le_mono order_refl)

lemma required_cases:
  assumes "required_kb env config memtotal needsnet = Inr required"
  obtains parts where "parts_kb env config memtotal needsnet = Inr parts"
    and "required = max (boot_kb (ce_arch env) needsnet) (scaled_kb (ce_arch env) (ce_pagesize env) parts)"
proof -
  from assms obtain parts where p: "parts_kb env config memtotal needsnet = Inr parts"
    by (auto simp: required_kb_def res_bind_eq_Inr_iff)
  with assms have "required = max (boot_kb (ce_arch env) needsnet) (scaled_kb (ce_arch env) (ce_pagesize env) parts)"
    by (auto simp: required_kb_def Let_def max_def split: if_splits)
  with p show thesis by (rule that)
qed

lemma required_nat:
  assumes a: "(ce_arch env, g) \<in> set archs" and ps: "4096 \<le> unat (ce_pagesize env)" "unat (ce_pagesize env) \<le> 65536"
    and parts: "parts_kb env config memtotal needsnet = Inr parts" "unat parts \<le> 2 ^ 43"
  shows "\<exists>required. required_kb env config memtotal needsnet = Inr required \<and>
    unat required = max (unat (boot_kb (ce_arch env) needsnet))
      (spec_scaled g (unat (KDUMP_PHYS_LOAD (ce_arch env))) (unat (ce_pagesize env)) (unat parts))"
proof -
  let ?r = "scaled_kb (ce_arch env) (ce_pagesize env) parts" and ?b = "boot_kb (ce_arch env) needsnet"
  have "required_kb env config memtotal needsnet = Inr (max ?b ?r)"
    by (auto simp: required_kb_def parts Let_def max_def)
  moreover have "unat (max ?b ?r) = max (unat ?b) (unat ?r)" by (simp add: max_def word_le_nat_alt)
  ultimately show ?thesis using scaled_nat [OF a parts(2) ps] by simp
qed

lemma boot_default:
  assumes "(a, g) \<in> set archs"
  shows "boot_kb a needsnet \<le> DEF_RESERVE_KB a" and "DEF_BOOTSIZE a \<le> DEF_RESERVE_KB a"
  using assms
  by (auto simp: archs_def arch_x86_64_def arch_powerpc64_def arch_s390x_def arch_ia64_def arch_aarch64_def MB_def
      boot_kb_def ramfs_kb_def DEF_BOOTSIZE_def INITRD_COMPRESS_def Let_def)

lemma reservation_boots:
  assumes "(ce_arch env, g) \<in> set archs" and "reservation env config memtotal = Inr (bootsize, required)"
  shows "bootsize \<le> required"
proof (cases "needsNetwork config")
  case (Inl e)
  then show ?thesis
    using assms boot_default(2) [OF assms(1)] by (simp add: reservation_def Let_def split: if_splits)
next
  case (Inr needsnet)
  then show ?thesis
    using assms boot_default(1) [OF assms(1), of needsnet]
    by (auto simp: reservation_def Let_def res_or_def elim!: required_cases split: sum.splits if_splits)
qed

section \<open>More memory, no smaller estimate\<close>

lemma unat_shr_round_up:
  assumes "amt \<le> 32" and "unat n < 2 ^ 63"
  shows "unat (shr_round_up n amt) = (unat n + 2 ^ amt - 1) div 2 ^ amt"
proof -
  have p: "unat (push_bit amt 1 :: 64 word) = 2 ^ amt"
    using assms(1) unfolding unsigned_push_bit_eq by (simp add: take_bit_nat_eq_self)
  have "(2 :: nat) ^ amt \<le> 2 ^ 32" using assms(1) by (rule power_increasing) simp
  with assms(2) p have add: "unat (n + push_bit amt 1) = unat n + 2 ^ amt" by (subst unat_add_lt) auto
  moreover have "unat (1 :: 64 word) \<le> unat (n + push_bit amt 1)" unfolding add by (simp add: Suc_le_eq)
  then have "1 \<le> n + push_bit amt 1" by (simp only: word_le_nat_alt)
  ultimately have "unat (n + push_bit amt 1 - 1) = unat n + 2 ^ amt - 1" by (simp add: unat_sub)
  moreover have "unat (drop_bit amt w) = drop_bit amt (unat w)" for w :: "64 word"
    by (simp add: unsigned_drop_bit_eq take_bit_nat_eq_self [OF unat_less_64])
  ultimately show ?thesis by (simp add: shr_round_up_def drop_bit_eq_div [where 'a = nat])
qed


lemma unat_bitmap:
  assumes "unat t < 2 ^ 62"
  shows "unat (bitmap_kb t ps) = min 32768 ((unat t div unat ps + 3) div 4)"
proof -
  have "unat t div unat ps < 2 ^ 63"
    using assms by (intro order_le_less_trans [OF div_le_dividend]) simp
  then have "unat (shr_round_up (t div ps) 2) = (unat t div unat ps + 3) div 4"
    by (subst unat_shr_round_up) (simp_all add: unat_div)
  then show ?thesis
    by (auto simp: bitmap_kb_def Let_def MAX_BITMAP_KB_def MB_def word_less_nat_alt min_def)
qed

lemma unat_user:
  assumes t: "unat t \<le> 2 ^ 48"
  shows "unat (user_kb t ps needsnet mkdf) =
    (if needsnet then 67584 else 57344) +
    (if mkdf then min 32768 ((unat t div unat ps + 3) div 4) + 96 * ((unat t + 134217727) div 134217728) else 0)"
proof -
  let ?b = "if needsnet then USER_BASE_KB + USER_NET_KB else USER_BASE_KB"
  have b: "unat ?b = (if needsnet then 67584 else 57344)" by (simp add: USER_BASE_KB_def USER_NET_KB_def MB_def)
  have bm: "unat (bitmap_kb t ps) = min 32768 ((unat t div unat ps + 3) div 4)"
    using t by (intro unat_bitmap) simp
  have s: "unat (shr_round_up t (20 + 7)) = (unat t + 134217727) div 134217728"
    using t by (subst unat_shr_round_up) simp_all
  have sl: "(unat t + 134217727) div 134217728 \<le> 2 ^ 22" using t by simp
  have m: "unat (96 * shr_round_up t (20 + 7)) = 96 * ((unat t + 134217727) div 134217728)"
    using s sl by (subst unat_mult_lt) auto
  have bb: "unat (?b + bitmap_kb t ps) = unat ?b + unat (bitmap_kb t ps)"
    using b bm by (subst unat_add_lt) auto
  have "unat (?b + bitmap_kb t ps + 96 * shr_round_up t (20 + 7)) = unat ?b + unat (bitmap_kb t ps) +
      96 * ((unat t + 134217727) div 134217728)"
    using b bm m bb sl by (subst unat_add_lt) auto
  then show ?thesis using b bm by (simp add: user_kb_def Let_def)
qed

lemma unat_user_mono:
  assumes "t \<le> t'" and "unat t' \<le> 2 ^ 48"
  shows "unat (user_kb t ps needsnet mkdf) \<le> unat (user_kb t' ps needsnet mkdf) \<and> unat (user_kb t' ps needsnet mkdf) \<le> 2 ^ 30"
proof -
  have t: "unat t \<le> unat t'" using assms(1) by (simp add: word_le_nat_alt)
  have "(unat t div unat ps + 3) div 4 \<le> (unat t' div unat ps + 3) div 4"
    and "(unat t + 134217727) div 134217728 \<le> (unat t' + 134217727) div 134217728"
    using t by (auto intro!: div_le_mono)
  moreover have "(unat t' + 134217727) div 134217728 \<le> 2 ^ 22" using assms(2) by simp
  ultimately show ?thesis
    using assms t by (simp add: unat_user min_def)
qed

lemma reservation_mono:
  assumes a: "(ce_arch env, g) \<in> set archs" and ps: "4096 \<le> unat (ce_pagesize env)" "unat (ce_pagesize env) \<le> 65536"
    and fixed: "\<And>needsnet f. fixed_kb env config needsnet = Inr f \<Longrightarrow> unat f \<le> 2 ^ 42"
    and t: "t \<le> t'" "unat t' \<le> 2 ^ 48"
    and r: "reservation env config t = Inr (b, r)"
  shows "\<exists>r'. reservation env config t' = Inr (b, r') \<and> r \<le> r'"
proof (cases "needsNetwork config")
  case (Inl e)
  then show ?thesis using r by (auto simp: reservation_def Let_def split: if_splits)
next
  case (Inr needsnet)
  show ?thesis
  proof (cases "fixed_kb env config needsnet")
    case e: (Inl e)
    then show ?thesis using r Inr by (auto simp: reservation_def Let_def required_kb_def parts_kb_def res_or_def split: if_splits)
  next
    case f: (Inr f)
    let ?u = "\<lambda>t. user_kb t (ce_pagesize env) needsnet (needsMakedumpfile config)"
    have "unat t \<le> 2 ^ 48" using t by (simp add: word_le_nat_alt)
    have u: "unat (?u t) \<le> unat (?u t')" "unat (?u t') \<le> 2 ^ 30" using unat_user_mono [OF t] by auto
    have sum: "unat (f + ?u t) = unat f + unat (?u t)" "unat (f + ?u t') = unat f + unat (?u t')"
      using fixed [OF f] u by (subst unat_add_lt; simp)+
    have p: "parts_kb env config t needsnet = Inr (f + ?u t)" "parts_kb env config t' needsnet = Inr (f + ?u t')"
      by (simp_all add: parts_kb_def f)
    have le: "unat (f + ?u t) \<le> unat (f + ?u t')" "unat (f + ?u t') \<le> 2 ^ 43"
      using sum u fixed [OF f] by simp_all
    from required_nat [OF a ps p(1) order_trans [OF le]] obtain r1
      where 1: "required_kb env config t needsnet = Inr r1" "unat r1 = max (unat (boot_kb (ce_arch env) needsnet))
        (spec_scaled g (unat (KDUMP_PHYS_LOAD (ce_arch env))) (unat (ce_pagesize env)) (unat (f + ?u t)))" by blast
    from required_nat [OF a ps p(2) le(2)] obtain r2
      where 2: "required_kb env config t' needsnet = Inr r2" "unat r2 = max (unat (boot_kb (ce_arch env) needsnet))
        (spec_scaled g (unat (KDUMP_PHYS_LOAD (ce_arch env))) (unat (ce_pagesize env)) (unat (f + ?u t')))" by blast
    have "unat r1 \<le> unat r2" unfolding 1 2 by (intro max.mono order_refl spec_scaled_mono le)
    with 1(1) 2(1) r Inr show ?thesis by (auto simp: reservation_def Let_def res_or_def word_le_nat_alt)
  qed
qed


section \<open>The place of the crash kernel\<close>

text \<open>
  No low memory is asked for if and only if the reservation fits into a range of the RAM below 4 GiB and into none at or
  above: the search takes the highest place.
\<close>

definition place_ok :: "mem_range list \<Rightarrow> 64 word \<Rightarrow> 64 word \<Rightarrow> bool" where
  "place_ok mm kb b \<longleftrightarrow> (\<exists>r \<in> set mm. fits (push_bit 10 kb) (push_bit 20 16) r b)"

definition mem_map_ok :: "mem_range list \<Rightarrow> bool" where
  "mem_map_ok mm \<longleftrightarrow> (\<forall>r \<in> set mm. mr_end r \<noteq> - 1) \<and> sorted_wrt (\<lambda>r s. mr_end r < mr_start s) mm"

lemma place_find:
  assumes "mem_map_ok mm" and "0 < (push_bit 10 kb :: 64 word)"
  shows "(if \<exists>b. place_ok mm kb b
    then place_ok mm kb (mm_find (push_bit 10 kb) (push_bit 20 16) mm) \<and>
         (\<forall>b. place_ok mm kb b \<longrightarrow> b \<le> mm_find (push_bit 10 kb) (push_bit 20 16) mm)
    else mm_find (push_bit 10 kb) (push_bit 20 16) mm = - 1)"
proof -
  let ?sz = "push_bit 10 kb" and ?al = "push_bit 20 16 :: 64 word"
  let ?f = "find_loop ?sz ?al (rev mm)"
  have s: "?f = - 1 \<or> (\<exists>r \<in> set mm. fits ?sz ?al r ?f)"
    using find_loop_sound [OF assms(2), of ?al "rev mm"] by simp
  have o: "\<forall>r \<in> set (rev mm). mr_end r \<noteq> - 1" "sorted_wrt (\<lambda>r s. mr_end s < mr_start r) (rev mm)"
    using assms(1) by (simp_all add: mem_map_ok_def sorted_wrt_rev)
  have h: "b \<le> ?f" if "r \<in> set mm" "fits ?sz ?al r b" for r b
    using find_loop_highest [OF assms(2) _ that(2) o] that(1) by simp
  have none: "\<not> fits ?sz ?al r (- 1)" if "r \<in> set mm" for r
  proof
    assume f: "fits ?sz ?al r (- 1)"
    have "unat (- 1 :: 64 word) < unat (- 1 :: 64 word) + unat ?sz" using assms(2) by (simp add: word_less_nat_alt)
    also have "\<dots> \<le> unat (mr_end r) + 1" using f by (simp add: fits_def)
    also have "\<dots> \<le> unat (- 1 :: 64 word)"
      using o(1) that word_order.extremum [of "mr_end r"] by (metis Suc_eq_plus1 Suc_leI order_less_le set_rev word_less_nat_alt)
    finally show False by simp
  qed
  have "\<exists>r \<in> set mm. fits ?sz ?al r ?f" if "r \<in> set mm" "fits ?sz ?al r b" for r b
    using find_loop_complete [OF assms(2) _ that(2) o(1)] that(1) by simp
  with s h none show ?thesis
    unfolding place_ok_def mm_find_def by (simp only: split: if_split) blast
qed

lemma low_high_place:
  assumes "mem_map_ok mm" and "0 < (push_bit 10 required :: 64 word)"
  shows "fst (low_high mm bootsize required) = 0 \<longleftrightarrow>
    (\<exists>b. place_ok mm required b) \<and> (\<forall>b. place_ok mm required b \<longrightarrow> b < push_bit 32 1)"
proof -
  let ?b = "mm_find (push_bit 10 required) (push_bit 20 16) mm"
  have f: "fst (low_high mm bootsize required) = 0 \<longleftrightarrow> ?b < push_bit 32 1"
    by (simp add: low_high_def Let_def MINLOW_KB_def MB_def)
  have "\<not> (- 1 :: 64 word) < push_bit 32 1" by simp
  then show ?thesis unfolding f using place_find [OF assms] by (auto split: if_splits)
qed

text \<open>Without any place the sum that decides about SWIOTLB wraps around.\<close>

lemma swiotlb_no_place:
  assumes "0 < unat required" and "unat required < 2 ^ 22"
  shows "swiotlb_kb (- 1) required = required"
proof -
  have "unat (required * 1024) = unat required * 1024" using assms(2) by (subst unat_mult_lt) auto
  then have r: "unat (push_bit 10 required) = unat required * 1024" by (simp add: push_bit_eq_mult)
  then have "1 \<le> push_bit 10 required" using assms(1) by (simp add: word_le_nat_alt)
  then have "unat (push_bit 10 required - 1) = unat required * 1024 - 1" using r by (simp add: unat_sub)
  then have "unat (- 1 + push_bit 10 required) < 2 ^ 32" using assms by simp
  then have "\<not> push_bit 32 1 \<le> - 1 + push_bit 10 required" by (simp add: word_le_nat_alt push_bit_eq_mult)
  then show ?thesis by (simp add: swiotlb_kb_def)
qed

section \<open>Failures\<close>

lemma res_or_kerror: "res_or d m = Inl e \<Longrightarrow> \<not> is_kerror e"
  by (auto simp: res_or_def split: sum.splits if_splits)

lemma reservation_error: "reservation env config memtotal = Inl e \<Longrightarrow> \<not> is_kerror e"
  by (auto simp: reservation_def Let_def res_bind_def split: sum.splits if_splits dest: res_or_kerror)

lemma calibrate_error:
  assumes "calibrate_execute env config = Inl e" and "is_kerror e"
  shows "HyperInfo (ce_files env) ''/proc'' ''/sys'' = Inl e \<or> MemMap (ce_files env) ''/proc'' = Inl e"
  using assms reservation_error
  by (fastforce simp: calibrate_execute_def res_bind_def Let_def split: sum.splits if_splits prod.splits)


section \<open>Memory for the encrypted volumes\<close>

lemma crypt_memory_ge:
  assumes "crypt_memory kvs m0 = Inr m"
  shows "m0 \<le> m \<and> (\<forall>(key, val) \<in> set kvs. trim trim_default key = ''Memory'' \<longrightarrow>
    (\<exists>v. asLongLong (trim trim_default val) = Inr v \<and> word_of_int v \<le> m))"
  using assms
proof (induction kvs arbitrary: m0)
  case (Cons kv kvs)
  obtain key val where kv: "kv = (key, val)" by fastforce
  show ?case
  proof (cases "trim trim_default key = ''Memory''")
    case True
    then obtain v where v: "asLongLong (trim trim_default val) = Inr v"
      and run: "crypt_memory kvs (if word_of_int v > m0 then word_of_int v else m0) = Inr m"
      using Cons.prems by (auto simp: kv res_bind_eq_Inr_iff Let_def)
    from Cons.IH [OF run] v show ?thesis by (auto simp: kv split: if_splits)
  next
    case False
    then show ?thesis using Cons by (auto simp: kv)
  qed
qed simp

lemma crypto_devices_ge:
  assumes "crypto_devices env devs c0 = Inr c"
  shows "c0 \<le> c \<and> (\<forall>dev. (dev, ''crypto_LUKS'') \<in> set devs \<longrightarrow>
    (\<exists>memory. CryptInfo (ce_cryptsetup env) dev = Inr memory \<and> memory \<le> c))"
  using assms
proof (induction devs arbitrary: c0)
  case (Cons d devs)
  obtain dev ty where d: "d = (dev, ty)" by fastforce
  show ?case
  proof (cases "ty = ''crypto_LUKS''")
    case True
    then obtain v where v: "CryptInfo (ce_cryptsetup env) dev = Inr v"
      and run: "crypto_devices env devs (if c0 < v then v else c0) = Inr c"
      using Cons.prems by (auto simp: d res_bind_eq_Inr_iff)
    from Cons.IH [OF run] v show ?thesis by (auto simp: d split: if_splits)
  next
    case False
    then show ?thesis using Cons by (auto simp: d)
  qed
qed simp

text \<open>What \<^verbatim>\<open>cryptsetup\<close> prints for a volume with key slots.\<close>

lemma CryptInfo_slots:
  assumes "cryptsetup [''luksDump'', device] = Inr (0, print_fields (CHR '':'') kvs, err)"
    and "\<forall>kv \<in> set kvs. field_ok (CHR '':'') kv"
    and "CryptInfo cryptsetup device = Inr memory"
    and "(key, val) \<in> set kvs" and "trim trim_default key = ''Memory''"
  shows "\<exists>v. asLongLong (trim trim_default val) = Inr v \<and> word_of_int v \<le> memory"
proof -
  have "\<not> is_eol (CHR '':'')" by (simp add: is_eol_def char_consts)
  from line_fields_print [OF assms(2) this] assms(1,3) have "crypt_memory kvs 0 = Inr memory"
    by (simp add: CryptInfo_def)
  from crypt_memory_ge [OF this] assms(4,5) show ?thesis by auto
qed

end
