(* ===== verification/Multipath.thy ===== *)
theory Multipath
  imports Istream
begin

text \<open>
  \<^verbatim>\<open>kdumptool/multipath.cc\<close>: the filter that adds a blacklist and its exceptions to \<^verbatim>\<open>multipath.conf\<close>. Characters are signed,
  as on x86, so the bytes from 128 on are negative.
\<close>

section \<open>Tokens of a line\<close>

definition mp_space :: "char \<Rightarrow> bool" where
  "mp_space c \<longleftrightarrow> isspace c \<or> ord c \<ge> 128"

text \<open>The loop that skips white space, and the test for the end of the line or a comment behind it.\<close>

definition mp_skip :: "string \<Rightarrow> string" where
  "mp_skip s = dropWhile (\<lambda>c. c \<noteq> NUL \<and> mp_space c) s"

definition mp_at_end :: "string \<Rightarrow> bool" where
  "mp_at_end s \<longleftrightarrow> s = [] \<or> hd s = NUL \<or> hd s = CHR ''#'' \<or> hd s = CHR ''!''"

definition mp_word_char :: "bool \<Rightarrow> char \<Rightarrow> bool" where
  "mp_word_char stringmode c \<longleftrightarrow>
     c \<noteq> NUL \<and> c \<noteq> DQUOTE \<and>
     (stringmode \<or> \<not> (mp_space c \<or> c = CHR ''#'' \<or> c = CHR ''!'' \<or> c = CHR ''{'' \<or> c = CHR ''}''))"

text \<open>One token: its text, the new mode and the rest of the line.\<close>

definition mp_token :: "bool \<Rightarrow> string \<Rightarrow> string \<times> bool \<times> string" where
  "mp_token stringmode s =
     (if hd s = DQUOTE then ([DQUOTE], \<not> stringmode, tl s)
      else if \<not> stringmode \<and> (hd s = CHR ''{'' \<or> hd s = CHR ''}'') then ([hd s], stringmode, tl s)
      else (takeWhile (mp_word_char stringmode) s, stringmode, dropWhile (mp_word_char stringmode) s))"

text \<open>The loop as it is written, which would not end if a token could be empty: then the value is \<^const>\<open>None\<close>.\<close>

partial_function (option) mp_tokens :: "bool \<Rightarrow> string \<Rightarrow> string list \<Rightarrow> string list option" where
  "mp_tokens stringmode it tokens =
     (let s = mp_skip it
      in if mp_at_end s then Some tokens
         else case mp_token stringmode s of
                (t, stringmode', r) \<Rightarrow> mp_tokens stringmode' r (tokens @ [t]))"

text \<open>Every token takes a character from the line.\<close>

lemma mp_token_consumes:
  assumes "\<not> mp_at_end (mp_skip it)" and "mp_token stringmode (mp_skip it) = (t, stringmode', r)"
  shows "length r < length it" and "t \<noteq> []"
proof -
  let ?s = "mp_skip it"
  from assms(1) obtain c cs where s: "?s = c # cs" and c: "c \<noteq> NUL" "c \<noteq> CHR ''#''" "c \<noteq> CHR ''!''"
    by (cases ?s) (auto simp: mp_at_end_def)
  have sp: "\<not> mp_space c" using s c(1) hd_dropWhile [of "\<lambda>c. c \<noteq> NUL \<and> mp_space c" it] by (auto simp: mp_skip_def)
  have le: "length ?s \<le> length it" by (simp add: mp_skip_def length_dropWhile_le)
  have "length (dropWhile P cs) \<le> length cs" for P by (rule length_dropWhile_le)
  with assms(2) sp c le show "length r < length it" "t \<noteq> []"
    by (auto simp: mp_token_def s mp_word_char_def le_less_trans Suc_le_eq split: if_splits intro: le_less_trans)
qed

lemma mp_tokens_terminate: "\<exists>ts. mp_tokens stringmode it tokens = Some ts"
proof (induction "length it" arbitrary: stringmode it tokens rule: less_induct)
  case less
  obtain t m r where t: "mp_token stringmode (mp_skip it) = (t, m, r)" by (metis prod_cases3)
  show ?case
  proof (cases "mp_at_end (mp_skip it)")
    case True
    then show ?thesis by (subst mp_tokens.simps) (simp add: Let_def)
  next
    case False
    then show ?thesis
      using less [OF mp_token_consumes(1) [OF False t]] t by (subst mp_tokens.simps) (simp add: Let_def)
  qed
qed

lemma mp_tokens_nonempty:
  assumes "mp_tokens stringmode it tokens = Some ts" and "[] \<notin> set tokens"
  shows "[] \<notin> set ts \<and> prefix tokens ts"
  using assms
proof (induction "length it" arbitrary: stringmode it tokens rule: less_induct)
  case less
  obtain t m r where t: "mp_token stringmode (mp_skip it) = (t, m, r)" by (metis prod_cases3)
  show ?case
  proof (cases "mp_at_end (mp_skip it)")
    case True
    then show ?thesis using less.prems by (subst (asm) mp_tokens.simps) (simp add: Let_def)
  next
    case False
    note c = mp_token_consumes [OF False t]
    have "mp_tokens m r (tokens @ [t]) = Some ts"
      using less.prems(1) False t by (subst (asm) mp_tokens.simps) (simp add: Let_def)
    from less.hyps [OF c(1) this] less.prems(2) c(2) show ?thesis by (auto dest: append_prefixD)
  qed
qed

definition line_tokens :: "string \<Rightarrow> string list" where
  "line_tokens line = the (mp_tokens False line [])"

section \<open>Lines\<close>

text \<open>
  \<open>readline\<close>: up to and with the first newline or carriage return; the flag is false when the input ended before.
\<close>

fun mp_readline :: "string \<Rightarrow> string \<times> string \<times> bool" where
  "mp_readline [] = ([], [], False)"
| "mp_readline (c # cs) =
     (if c = NL \<or> c = CR then ([c], cs, True)
      else case mp_readline cs of (l, r, b) \<Rightarrow> (c # l, r, b))"

lemma mp_readline_parts: "mp_readline s = (l, r, b) \<Longrightarrow> s = l @ r \<and> (if b then length r < length s else r = [])"
  by (induction s arbitrary: l r b) (auto split: if_splits prod.splits)

section \<open>The handler\<close>

record blacklist_handler =
  m_output :: string
  m_exceptions :: "string list"
  m_lines :: "string list"
  m_blacklist_done :: bool
  m_exceptions_done :: bool

definition AddBlacklistHandler :: "string \<Rightarrow> string list \<Rightarrow> blacklist_handler" where
  "AddBlacklistHandler output exceptions =
     \<lparr>m_output = output, m_exceptions = exceptions, m_lines = [], m_blacklist_done = False, m_exceptions_done = False\<rparr>"

definition addLine :: "string \<Rightarrow> blacklist_handler \<Rightarrow> blacklist_handler" where
  "addLine raw h = h\<lparr>m_lines := m_lines h @ [raw]\<rparr>"

definition outputLine :: "string \<Rightarrow> blacklist_handler \<Rightarrow> blacklist_handler" where
  "outputLine raw h = h\<lparr>m_output := m_output h @ raw\<rparr>"

definition wwid_line :: string where
  "wwid_line = TAB # ''wwid '' @ [DQUOTE] @ ''.*'' @ [DQUOTE, NL]"

definition doBlacklist :: "(string \<Rightarrow> blacklist_handler \<Rightarrow> blacklist_handler) \<Rightarrow> blacklist_handler \<Rightarrow> blacklist_handler" where
  "doBlacklist handler h = (handler wwid_line h)\<lparr>m_blacklist_done := True\<rparr>"

definition exception_line :: "string \<Rightarrow> string" where
  "exception_line ex = TAB # ex @ [NL]"

definition doExceptions :: "(string \<Rightarrow> blacklist_handler \<Rightarrow> blacklist_handler) \<Rightarrow> blacklist_handler \<Rightarrow> blacklist_handler" where
  "doExceptions handler h =
     (foldl (\<lambda>h ex. handler (exception_line ex) h) h (m_exceptions h))\<lparr>m_exceptions_done := True\<rparr>"

definition handler_process :: "string \<Rightarrow> string list \<Rightarrow> blacklist_handler \<Rightarrow> blacklist_handler" where
  "handler_process raw tokens h =
     (let h1 = h\<lparr>m_lines := m_lines h @ [raw]\<rparr>
      in case tokens of
           [] \<Rightarrow> h1
         | t # ts \<Rightarrow>
             if t = ''blacklist'' then doBlacklist addLine h1
             else if t = ''blacklist_exceptions'' then doExceptions addLine h1
             else h1)"

text \<open>What the destructor writes.\<close>

definition handler_finish :: "blacklist_handler \<Rightarrow> string" where
  "handler_finish h =
     (let h1 = (if m_blacklist_done h then h
                else outputLine (''}'' @ [NL]) (doBlacklist outputLine (outputLine (''blacklist {'' @ [NL]) h)));
          h2 = (if m_exceptions_done h1 then h1
                else outputLine (''}'' @ [NL]) (doExceptions outputLine (outputLine (''blacklist_exceptions {'' @ [NL]) h1)))
      in m_output h2 @ concat (m_lines h2))"

section \<open>The subcommand\<close>

function conf_process :: "string \<Rightarrow> blacklist_handler \<Rightarrow> blacklist_handler" where
  "conf_process input h =
     (case mp_readline input of
        (line, rest, b) \<Rightarrow>
          if b then conf_process rest (handler_process line (line_tokens line) h) else handler_process line [] h)"
  by pat_completeness auto
termination
  by (relation "measure (\<lambda>(input, h). length input)") (auto dest: mp_readline_parts [OF sym])

declare conf_process.simps [simp del]

definition multipath_execute :: "string \<Rightarrow> string list \<Rightarrow> string" where
  "multipath_execute input exceptions = handler_finish (conf_process input (AddBlacklistHandler [] exceptions))"

section \<open>The output\<close>

text \<open>The terminated lines and what is left behind the last one.\<close>

function conf_lines :: "string \<Rightarrow> string list \<times> string" where
  "conf_lines input =
     (case mp_readline input of
        (line, rest, b) \<Rightarrow> if b then (case conf_lines rest of (ls, e) \<Rightarrow> (line # ls, e)) else ([], line))"
  by pat_completeness auto
termination
  by (relation "measure length") (auto dest: mp_readline_parts [OF sym])

declare conf_lines.simps [simp del]

lemma conf_lines_concat: "conf_lines input = (ls, e) \<Longrightarrow> concat ls @ e = input"
proof (induction input arbitrary: ls e rule: conf_lines.induct)
  case (1 input)
  obtain line rest b where r: "mp_readline input = (line, rest, b)" by (metis prod_cases3)
  show ?case
  proof (cases b)
    case True
    obtain ls' e' where c: "conf_lines rest = (ls', e')" by fastforce
    have "conf_lines input = (line # ls', e')" by (subst conf_lines.simps) (simp add: r True c)
    with "1.IH" [OF r [symmetric] refl True c] "1.prems" mp_readline_parts [OF r] show ?thesis by auto
  next
    case False
    then have "conf_lines input = ([], line)" by (subst conf_lines.simps) (simp add: r)
    with "1.prems" mp_readline_parts [OF r] False show ?thesis by auto
  qed
qed

definition opens :: "string \<Rightarrow> string \<Rightarrow> bool" where
  "opens name line \<longleftrightarrow> take 1 (line_tokens line) = [name]"

definition additions :: "string list \<Rightarrow> string \<Rightarrow> string list" where
  "additions exceptions line =
     (if opens ''blacklist'' line then [wwid_line]
      else if opens ''blacklist_exceptions'' line then map exception_line exceptions else [])"

lemma add_sections:
  "doBlacklist addLine h = h\<lparr>m_lines := m_lines h @ [wwid_line], m_blacklist_done := True\<rparr>"
  "doExceptions addLine h = h\<lparr>m_lines := m_lines h @ map exception_line (m_exceptions h), m_exceptions_done := True\<rparr>"
proof -
  have "foldl (\<lambda>h ex. addLine (exception_line ex) h) h exs = h\<lparr>m_lines := m_lines h @ map exception_line exs\<rparr>" for h exs
    by (induction exs arbitrary: h) (simp_all add: addLine_def)
  then show "doBlacklist addLine h = h\<lparr>m_lines := m_lines h @ [wwid_line], m_blacklist_done := True\<rparr>"
    "doExceptions addLine h = h\<lparr>m_lines := m_lines h @ map exception_line (m_exceptions h), m_exceptions_done := True\<rparr>"
    by (simp_all add: doBlacklist_def doExceptions_def addLine_def [abs_def])
qed

lemma foldl_outputLine:
  "foldl (\<lambda>h ex. outputLine (exception_line ex) h) h exs = h\<lparr>m_output := m_output h @ concat (map exception_line exs)\<rparr>"
  by (induction exs arbitrary: h) (simp_all add: outputLine_def)

lemma handler_process_line:
  "handler_process line (line_tokens line) h = h\<lparr>m_lines := m_lines h @ line # additions (m_exceptions h) line,
     m_blacklist_done := m_blacklist_done h \<or> opens ''blacklist'' line,
     m_exceptions_done := m_exceptions_done h \<or> opens ''blacklist_exceptions'' line\<rparr>"
  by (cases "line_tokens line")
    (auto simp: handler_process_def Let_def opens_def additions_def add_sections)

lemma conf_process_lines:
  "conf_lines input = (ls, e) \<Longrightarrow> conf_process input h =
     h\<lparr>m_lines := m_lines h @ concat (map (\<lambda>l. l # additions (m_exceptions h) l) ls) @ [e],
       m_blacklist_done := m_blacklist_done h \<or> list_ex (opens ''blacklist'') ls,
       m_exceptions_done := m_exceptions_done h \<or> list_ex (opens ''blacklist_exceptions'') ls\<rparr>"
proof (induction input h arbitrary: ls e rule: conf_process.induct)
  case (1 input h)
  obtain line rest b where r: "mp_readline input = (line, rest, b)" by (metis prod_cases3)
  show ?case
  proof (cases b)
    case True
    obtain ls' e' where c: "conf_lines rest = (ls', e')" by fastforce
    have "conf_lines input = (line # ls', e')" by (subst conf_lines.simps) (simp add: r True c)
    with "1.prems" have l: "ls = line # ls'" "e = e'" by simp_all
    have "conf_process input h = conf_process rest (handler_process line (line_tokens line) h)"
      by (subst conf_process.simps) (simp add: r True)
    with "1.IH" [OF r [symmetric] refl True c] show ?thesis
      by (simp add: l handler_process_line disj_assoc)
  next
    case False
    then have "conf_lines input = ([], line)" by (subst conf_lines.simps) (simp add: r)
    with "1.prems" have l: "ls = []" "e = line" by simp_all
    show ?thesis by (subst conf_process.simps) (simp add: r False l handler_process_def)
  qed
qed

lemma handler_finish_output:
  "handler_finish h = m_output h @
     (if m_blacklist_done h then [] else ''blacklist {'' @ [NL] @ wwid_line @ ''}'' @ [NL]) @
     (if m_exceptions_done h then []
      else ''blacklist_exceptions {'' @ [NL] @ concat (map exception_line (m_exceptions h)) @ ''}'' @ [NL]) @
     concat (m_lines h)"
  by (simp add: handler_finish_def Let_def doBlacklist_def doExceptions_def foldl_outputLine) (simp add: outputLine_def)

lemma concat_additions: "concat (concat (map (\<lambda>l. l # f l) ls)) = concat (map (\<lambda>l. l @ concat (f l)) ls)"
  by (induction ls) simp_all

lemma multipath_lines:
  assumes "conf_lines input = (ls, e)"
  shows "multipath_execute input exceptions =
    (if list_ex (opens ''blacklist'') ls then [] else ''blacklist {'' @ [NL] @ wwid_line @ ''}'' @ [NL]) @
    (if list_ex (opens ''blacklist_exceptions'') ls then []
     else ''blacklist_exceptions {'' @ [NL] @ concat (map exception_line exceptions) @ ''}'' @ [NL]) @
    concat (map (\<lambda>l. l @ concat (additions exceptions l)) ls) @ e"
  using conf_process_lines [OF assms, of "AddBlacklistHandler [] exceptions"]
  by (simp add: multipath_execute_def AddBlacklistHandler_def handler_finish_output concat_additions)

end
