(* ===== verification/KernelImage.thy ===== *)
theory KernelImage
  imports FindKernel StateExn Istream
begin

text \<open>
  \<^verbatim>\<open>kdumptool/kerneltool.cc\<close>, \<^verbatim>\<open>identifykernel.cc\<close>, \<^verbatim>\<open>read_ikconfig.cc\<close> and the file types of \<^verbatim>\<open>util.cc\<close>: the type of a kernel
  image, whether it is relocatable, and the configuration embedded in it. An open image is a record: the bytes of the file,
  what zlib delivers when it starts at an offset, and which calls fail. \<^verbatim>\<open>inflate\<close> is a parameter.
\<close>

record kernel_fd =
  m_kernel :: string
  fd_data :: string
  fd_lseek_error :: "errno option"
  fd_read_error :: "nat \<Rightarrow> errno option"
  fd_errno :: errno
  fd_dup :: bool
  fd_gzdopen :: bool
  fd_gz :: "nat \<Rightarrow> string"

definition fd_lseek :: "kernel_fd \<Rightarrow> string \<Rightarrow> unit res" where
  "fd_lseek fd msg = (case fd_lseek_error fd of Some e \<Rightarrow> Inl (KSystemError msg e) | None \<Rightarrow> Inr ())"

definition fd_read :: "kernel_fd \<Rightarrow> nat \<Rightarrow> nat \<Rightarrow> errno + string" where
  "fd_read fd pos n = (case fd_read_error fd pos of Some e \<Rightarrow> Inl e | None \<Rightarrow> Inr (take n (drop pos (fd_data fd))))"

text \<open>A read that must deliver everything; after a short one \<^verbatim>\<open>errno\<close> is whatever it was before.\<close>

definition fd_read_exactly :: "kernel_fd \<Rightarrow> nat \<Rightarrow> nat \<Rightarrow> string \<Rightarrow> string res" where
  "fd_read_exactly fd pos n msg =
     (case fd_read fd pos n of
        Inl e \<Rightarrow> Inl (KSystemError msg e)
      | Inr s \<Rightarrow> if length s \<noteq> n then Inl (KSystemError msg (fd_errno fd)) else Inr s)"

section \<open>File types\<close>

definition isGzipFile :: "kernel_fd \<Rightarrow> bool res" where
  "isGzipFile fd =
     res_bind (fd_lseek fd ''Cannot lseek() in Util::isGzipFile()'') (\<lambda>_.
       case fd_read fd 0 2 of
         Inl e \<Rightarrow> Inl (KSystemError ''Util::isGzipFile: read failed'' e)
       | Inr s \<Rightarrow>
           if s = [] then Inl (Undefined ''isGzipFile: buffer not set'')
           else if s ! 0 \<noteq> CHR 0x1F then Inr False
           else if length s < 2 then Inl (Undefined ''isGzipFile: buffer not set'')
           else Inr (s ! 1 = CHR 0x8B))"

definition ELFMAG :: string where
  "ELFMAG = [CHR 0x7F, CHR ''E'', CHR ''L'', CHR ''F'']"

definition isElfFile :: "kernel_fd \<Rightarrow> bool res" where
  "isElfFile fd =
     (if \<not> fd_dup fd then Inl (KError ''gzfile dup failed'')
      else if \<not> fd_gzdopen fd then Inl (KError ''gzopen failed'')
      else let buffer = take 4 (fd_gz fd 0)
           in if length buffer \<noteq> 4 then Inl (KError (''IdentifyKernel::isElfFile: Couldn'' @ [SQUOTE] @ ''t read bytes''))
              else Inr (buffer = ELFMAG))"

definition isX86 :: "string \<Rightarrow> bool" where
  "isX86 arch \<longleftrightarrow> arch = ''i386'' \<or> arch = ''i686'' \<or> arch = ''i586'' \<or> arch = ''x86_64''"

text \<open>\<open>Util::getArch\<close> from the machine name of \<^verbatim>\<open>uname\<close>.\<close>

definition archOfMachine :: "string \<Rightarrow> string" where
  "archOfMachine arch = (if arch = ''i486'' \<or> arch = ''i586'' \<or> arch = ''i686'' then ''i386'' else arch)"

text \<open>\<open>Util::findBytes\<close>; a needle longer than the haystack makes the limit wrap around.\<close>

fun findBytes_loop :: "string \<Rightarrow> string \<Rightarrow> nat \<Rightarrow> nat \<Rightarrow> nat option" where
  "findBytes_loop haystack needle i 0 = None"
| "findBytes_loop haystack needle i (Suc k) =
     (if take (length needle) (drop i haystack) = needle then Some i else findBytes_loop haystack needle (i + 1) k)"

definition findBytes :: "string \<Rightarrow> string \<Rightarrow> nat option res" where
  "findBytes haystack needle =
     (if length haystack < length needle then Inl (Undefined ''findBytes: read behind the end'')
      else Inr (findBytes_loop haystack needle 0 (length haystack - length needle)))"

section \<open>The type of an image\<close>

datatype kernel_type = KT_ELF | KT_ELF_GZ | KT_X86 | KT_S390 | KT_AARCH64 | KT_NONE

definition X86_HEADER_OFF_START :: nat where "X86_HEADER_OFF_START = 0x202"
definition X86_HEADER_OFF_VERSION :: nat where "X86_HEADER_OFF_VERSION = 0x0206"
definition X86_HEADER_OFF_RELOCATABLE :: nat where "X86_HEADER_OFF_RELOCATABLE = 0x0234"
definition X86_HEADER_OFF_MAGIC :: nat where "X86_HEADER_OFF_MAGIC = 0x53726448"
definition X86_HEADER_RELOCATABLE_VER :: nat where "X86_HEADER_RELOCATABLE_VER = 0x0205"

definition le_val :: "string \<Rightarrow> nat" where
  "le_val s = foldr (\<lambda>c n. ord c + 256 * n) s 0"

definition isX86Kernel :: "kernel_fd \<Rightarrow> bool res" where
  "isX86Kernel fd =
     res_bind (fd_lseek fd ''IdentifyKernel::isX86Kernel: lseek to X86_HEADER_OFF_START failed'') (\<lambda>_.
     res_bind (fd_read_exactly fd X86_HEADER_OFF_START 4 ''IdentifyKernel::isX86Kernel: read of magic start failed'') (\<lambda>buffer.
       Inr (le_val buffer = X86_HEADER_OFF_MAGIC)))"

text \<open>The IPL record: PSW, two channel commands, 56 EBCDIC blanks and a chain of 20 channel commands.\<close>

definition ccw :: "nat \<Rightarrow> nat \<Rightarrow> string" where
  "ccw addr flags = [chr 2, chr 0, chr (addr div 256), chr (addr mod 256), chr flags, chr 0, chr 0, chr 0x50]"

definition S390_HEADER :: string where
  "S390_HEADER =
     [chr 0, chr 8, chr 0, chr 0, chr 0x80, chr 0, chr 0, chr 0] @ ccw 0x018 0x60 @ ccw 0x068 0x60 @
     replicate 56 (chr 0x40) @
     concat (map (\<lambda>addr. ccw addr 0x60)
       [0x0f0, 0x140, 0x190, 0x1e0, 0x230, 0x280, 0x2d0, 0x320, 0x370, 0x3c0, 0x410, 0x460, 0x4b0, 0x500, 0x550, 0x5a0, 0x5f0,
        0x640, 0x690]) @
     ccw 0x6e0 0x20"

definition S390_HEADER_OFF_IPLSTART :: nat where "S390_HEADER_OFF_IPLSTART = 4"
definition S390_HEADER_SIZE_IPLSTART :: nat where "S390_HEADER_SIZE_IPLSTART = 4"

definition isS390Kernel :: "kernel_fd \<Rightarrow> bool res" where
  "isS390Kernel fd =
     res_bind (fd_lseek fd ''IdentifyKernel::isS390Kernel: lseek to file start failed'') (\<lambda>_.
       case fd_read fd 0 (length S390_HEADER) of
         Inl e \<Rightarrow> Inl (KSystemError ''IdentifyKernel::isS390Kernel: read of magic start failed'' e)
       | Inr buffer \<Rightarrow>
           if length buffer < length S390_HEADER then Inr False
           else let n = S390_HEADER_OFF_IPLSTART + S390_HEADER_SIZE_IPLSTART
                in Inr (take S390_HEADER_OFF_IPLSTART buffer @
                        take S390_HEADER_SIZE_IPLSTART (drop S390_HEADER_OFF_IPLSTART S390_HEADER) @ drop n buffer = S390_HEADER))"

definition isAarch64Kernel :: "kernel_fd \<Rightarrow> bool res" where
  "isAarch64Kernel fd =
     res_bind (fd_lseek fd ''IdentifyKernel::isAarch64Kernel: lseek to file start failed'') (\<lambda>_.
       case fd_read fd 0 64 of
         Inl e \<Rightarrow> Inl (KSystemError ''IdentifyKernel::isAarch64Kernel: read of magic start failed'' e)
       | Inr buffer \<Rightarrow>
           if length buffer < 64 then Inr False
           else Inr (le_val (take 4 (drop 56 buffer)) = 0x644d5241))"

definition getKernelType :: "string \<Rightarrow> kernel_fd \<Rightarrow> kernel_type res" where
  "getKernelType arch fd =
     res_bind (isElfFile fd) (\<lambda>elf.
       if elf then res_bind (isGzipFile fd) (\<lambda>gz. Inr (if gz then KT_ELF_GZ else KT_ELF))
       else if isX86 arch then res_bind (isX86Kernel fd) (\<lambda>b. Inr (if b then KT_X86 else KT_NONE))
       else if arch = ''s390x'' then res_bind (isS390Kernel fd) (\<lambda>b. Inr (if b then KT_S390 else KT_NONE))
       else if arch = ''aarch64'' then res_bind (isAarch64Kernel fd) (\<lambda>b. Inr (if b then KT_AARCH64 else KT_NONE))
       else Inr KT_NONE)"

section \<open>Relocatable images\<close>

definition x86_lseek_msg :: "string \<Rightarrow> string" where
  "x86_lseek_msg what = ''IdentifyKernel::checkArchFileX86: lseek to '' @ what @ '' failed''"

definition x86isRelocatable :: "kernel_fd \<Rightarrow> bool res" where
  "x86isRelocatable fd =
     res_bind (fd_lseek fd (x86_lseek_msg ''X86_HEADER_OFF_START'')) (\<lambda>_.
     res_bind (fd_read_exactly fd X86_HEADER_OFF_START 4
                 ''IdentifyKernel::checkArchFileX86: read of magic start failed'') (\<lambda>magic.
       if le_val magic \<noteq> X86_HEADER_OFF_MAGIC then Inl (KError ''This is not a kernel image'')
       else
         res_bind (fd_lseek fd (x86_lseek_msg ''X86_HEADER_OFF_VERSION'')) (\<lambda>_.
         res_bind (fd_read_exactly fd X86_HEADER_OFF_VERSION 2
                     ''IdentifyKernel::checkArchFileX86: read of version failed'') (\<lambda>version.
           if le_val version < X86_HEADER_RELOCATABLE_VER then Inr False
           else
             res_bind (fd_lseek fd (x86_lseek_msg ''X86_HEADER_OFF_RELOCATABLE'')) (\<lambda>_.
             res_bind (fd_read_exactly fd X86_HEADER_OFF_RELOCATABLE 1
                         ''IdentifyKernel::checkArchFileX86: read of relocatable bit failed'') (\<lambda>bit.
               Inr (le_val bit \<noteq> 0)))))))"

definition isArchAlwaysRelocatable :: "string \<Rightarrow> bool" where
  "isArchAlwaysRelocatable machine \<longleftrightarrow> machine = ''ia64'' \<or> machine = ''aarch64''"

definition hasConfigRelocatable :: "string \<Rightarrow> bool" where
  "hasConfigRelocatable machine \<longleftrightarrow> isX86 machine \<or> machine = ''ppc64'' \<or> machine = ''ppc''"

definition archFromElfMachine :: "nat \<Rightarrow> string" where
  "archFromElfMachine et_machine =
     (if et_machine = 3 then ''i386''
      else if et_machine = 20 then ''ppc''
      else if et_machine = 21 then ''ppc64''
      else if et_machine = 22 then ''s390''
      else if et_machine = 50 then ''ia64''
      else if et_machine = 62 then ''x86_64''
      else if et_machine = 183 then ''aarch64''
      else ''unknown'')"

text \<open>
  The identification, then the whole header again: \<^verbatim>\<open>e_machine\<close> is at offset 18 in both classes, in the byte order of the file.
\<close>

definition elf_machine :: "kernel_fd \<Rightarrow> nat res" where
  "elf_machine fd =
     res_bind (fd_lseek fd ''lseek() failed'') (\<lambda>_.
       if \<not> fd_dup fd \<or> \<not> fd_gzdopen fd then Inl (KSystemError ''check_elf_file: Failed to open file'' (fd_errno fd))
       else
         let e_ident = take 16 (fd_gz fd 0);
             machine = (\<lambda>size.
               let hdr = take size (fd_gz fd 0)
               in if length hdr \<noteq> size
                  then Inl (KSystemError (''Couldn'' @ [SQUOTE] @ ''t read ELF header'') (fd_errno fd))
                  else if ord (e_ident ! 5) = 1 then Inr (le_val (take 2 (drop 18 hdr)))
                  else if ord (e_ident ! 5) = 2 then Inr (le_val (rev (take 2 (drop 18 hdr))))
                  else Inl (KError ''elfIsRelocatable(): Invalid ELF data encoding''))
         in if length e_ident \<noteq> 16 then Inl (KSystemError ''check_elf_file: Failed to read'' (fd_errno fd))
            else if ord (e_ident ! 4) = 1 then machine 52
            else if ord (e_ident ! 4) = 2 then machine 64
            else Inl (KError ''elfIsRelocatable(): Invalid ELF class''))"

section \<open>The configuration inside the image\<close>

definition MAGIC_LEN :: nat where "MAGIC_LEN = 8"
definition MAGIC_START :: string where "MAGIC_START = ''IKCFG_ST''"
definition MAGIC_END :: string where "MAGIC_END = ''IKCFG_ED''"

text \<open>
  \<open>extractFromIKconfigBuffer\<close>: the output has room for 20 times the input and is terminated by a NUL behind its end.
\<close>

definition extractFromIKconfigBuffer :: "(string \<Rightarrow> nat \<Rightarrow> string option) \<Rightarrow> string \<Rightarrow> string res" where
  "extractFromIKconfigBuffer inflate buffer =
     (let uncompressed_len = length buffer * 20
      in case inflate buffer uncompressed_len of
           None \<Rightarrow> Inl (KError ''inflate() failed'')
         | Some out \<Rightarrow>
             if length out \<ge> uncompressed_len then Inl (Undefined ''extractFromIKconfigBuffer: NUL behind the buffer'')
             else Inr (c_string (out @ [NUL])))"

text \<open>\<^verbatim>\<open>gzread(fp, buffer + at, ...)\<close> or \<^verbatim>\<open>memmove(buffer, ...)\<close>: the rest of the buffer keeps what it had.\<close>

definition buf_put :: "string \<Rightarrow> nat \<Rightarrow> string \<Rightarrow> string" where
  "buf_put buf at s = take at buf @ s @ drop (at + length s) buf"

text \<open>
  The loop that looks for the two marks in overlapping buffers. What an unset offset looks like differs: negative in
  \<open>extractKernelConfigELF\<close>, zero in \<open>extractKernelConfigbzImage\<close>.
\<close>

definition mark_offset :: "string \<Rightarrow> string \<Rightarrow> int \<Rightarrow> int \<Rightarrow> int res" where
  "mark_offset buf mark fileoffset offset =
     res_bind (findBytes buf mark) (\<lambda>pos.
       Inr (case pos of None \<Rightarrow> offset | Some p \<Rightarrow> if p > 0 then fileoffset + int p - int MAGIC_LEN else offset))"

function ik_scan :: "(int \<Rightarrow> bool) \<Rightarrow> string \<Rightarrow> string \<Rightarrow> int \<Rightarrow> int \<Rightarrow> int \<Rightarrow> (int \<times> int) res" where
  "ik_scan unset data buf fileoffset begin_offset end_offset =
     (if data = [] then Inr (begin_offset, end_offset)
      else
        let chunk = take (BUFSIZ - MAGIC_LEN) data;
            data' = drop (BUFSIZ - MAGIC_LEN) data;
            buf1 = buf_put buf MAGIC_LEN chunk;
            buf2 = buf_put buf1 0 (drop (BUFSIZ - MAGIC_LEN) buf1);
            fileoffset' = fileoffset + int (length chunk)
        in if unset begin_offset
           then res_bind (mark_offset buf1 MAGIC_START fileoffset begin_offset) (\<lambda>b.
                  ik_scan unset data' buf2 fileoffset' b end_offset)
           else if unset end_offset
           then res_bind (mark_offset buf1 MAGIC_END fileoffset end_offset) (\<lambda>e.
                  ik_scan unset data' buf2 fileoffset' begin_offset e)
           else Inr (begin_offset, end_offset))"
  by pat_completeness auto
termination
  by (relation "measure (\<lambda>(unset, data, buf, f, b, e). length data)") (auto simp: BUFSIZ_def MAGIC_LEN_def)

declare ik_scan.simps [simp del]

definition ik_content :: "kernel_fd \<Rightarrow> string \<Rightarrow> int \<times> int \<Rightarrow> string res" where
  "ik_content fd data be =
     (case be of
        (begin_offset, end_offset) \<Rightarrow>
          if begin_offset < 0 \<or> end_offset < 0 then Inl (KError (''Cannot read configuration from '' @ m_kernel fd @ ''.''))
          else
            let begin = begin_offset + int MAGIC_LEN + 10; kernelconfig_len = end_offset - begin
            in if kernelconfig_len < 0 then Inl BadAlloc
               else let kernelconfig = take (nat kernelconfig_len) (drop (nat begin) data)
                    in if length kernelconfig \<noteq> nat kernelconfig_len then Inl (KError ''Cannot read IKCONFIG.'')
                       else Inr kernelconfig)"

definition extractKernelConfigELF :: "(string \<Rightarrow> nat \<Rightarrow> string option) \<Rightarrow> kernel_fd \<Rightarrow> string res" where
  "extractKernelConfigELF inflate fd =
     res_bind (fd_lseek fd ''lseek() failed'') (\<lambda>_.
       if \<not> fd_dup fd \<or> \<not> fd_gzdopen fd
       then Inl (KError (''Opening '' @ [SQUOTE] @ m_kernel fd @ [SQUOTE] @ '' failed.''))
       else
         res_bind (ik_scan (\<lambda>x. x < 0) (fd_gz fd 0) (replicate BUFSIZ NUL) 0 (- 1) (- 1)) (\<lambda>be.
         res_bind (ik_content fd (fd_gz fd 0) be) (extractFromIKconfigBuffer inflate)))"

text \<open>The search for the compressed part of a bzImage; zero when there is none.\<close>

definition GZIP_MAGIC :: string where
  "GZIP_MAGIC = [CHR 0x1F, CHR 0x8B, CHR 0x08, CHR 0x00]"

function bz_scan :: "kernel_fd \<Rightarrow> nat \<Rightarrow> string \<Rightarrow> int res" where
  "bz_scan fd fileoffset buf =
     (case fd_read fd fileoffset (BUFSIZ - 4) of
        Inl _ \<Rightarrow> Inr 0
      | Inr chunk \<Rightarrow>
          if chunk = [] then Inr 0
          else let buf1 = buf_put buf 4 chunk
               in case findBytes buf1 GZIP_MAGIC of
                    Inl e \<Rightarrow> Inl e
                  | Inr pos \<Rightarrow>
                      (case pos of
                         Some (Suc p) \<Rightarrow> Inr (int fileoffset + int (Suc p) - int MAGIC_LEN)
                       | _ \<Rightarrow> bz_scan fd (fileoffset + length chunk) (buf_put buf1 0 (drop (BUFSIZ - MAGIC_LEN) buf1))))"
  by pat_completeness auto
termination
  by (relation "measure (\<lambda>(fd, off, buf). length (fd_data fd) - off)")
    (auto simp: fd_read_def BUFSIZ_def split: option.splits)

declare bz_scan.simps [simp del]

definition extractKernelConfigbzImage :: "(string \<Rightarrow> nat \<Rightarrow> string option) \<Rightarrow> kernel_fd \<Rightarrow> string res" where
  "extractKernelConfigbzImage inflate fd =
     res_bind (fd_lseek fd ''lseek() failed'') (\<lambda>_.
     res_bind (bz_scan fd 0 (replicate BUFSIZ NUL)) (\<lambda>begin_offset.
       if begin_offset = 0 then Inl (KError ''Magic 0x1f 0x8b 0x08 0x0 not found.'')
       else if begin_offset + 4 < 0 then Inl (KSystemError ''lseek() failed'' (EOTHER 22))
       else
         res_bind (fd_lseek fd ''lseek() failed'') (\<lambda>_.
           if \<not> fd_dup fd \<or> \<not> fd_gzdopen fd then Inl (KError ''gzdopen() failed'')
           else
             let data = fd_gz fd (nat (begin_offset + 4))
             in res_bind (ik_scan (\<lambda>x. x = 0) data (replicate BUFSIZ NUL) 0 0 0) (\<lambda>be.
                res_bind (ik_content fd data be) (extractFromIKconfigBuffer inflate)))))"

definition extractKernelConfig :: "(string \<Rightarrow> nat \<Rightarrow> string option) \<Rightarrow> string \<Rightarrow> kernel_fd \<Rightarrow> string res" where
  "extractKernelConfig inflate arch fd =
     res_bind (getKernelType arch fd) (\<lambda>kt.
       case kt of
         KT_X86 \<Rightarrow> extractKernelConfigbzImage inflate fd
       | KT_NONE \<Rightarrow> Inl (KError (''Invalid kernel image: '' @ m_kernel fd))
       | _ \<Rightarrow> extractKernelConfigELF inflate fd)"

section \<open>KernelTool\<close>

text \<open>The machine: its architecture, the files, the pieces of a configuration file, \<^verbatim>\<open>inflate\<close>, and opening an image.\<close>

record kernel_env =
  ke_machine :: string
  ke_exists :: "string \<Rightarrow> bool"
  ke_config :: "string \<Rightarrow> string list option"
  ke_inflate :: "string \<Rightarrow> nat \<Rightarrow> string option"
  ke_open :: "string \<Rightarrow> errno + kernel_fd"

definition ke_arch :: "kernel_env \<Rightarrow> string" where
  "ke_arch env = archOfMachine (ke_machine env)"

definition KernelTool :: "kernel_env \<Rightarrow> string \<Rightarrow> kernel_fd res" where
  "KernelTool env kernelImage =
     (case ke_open env kernelImage of
        Inl e \<Rightarrow> Inl (KSystemError (''Opening of '' @ kernelImage @ '' failed.'') e)
      | Inr fd \<Rightarrow> Inr (fd\<lparr>m_kernel := kernelImage\<rparr>))"

definition retrieveKernelConfig :: "kernel_env \<Rightarrow> kernel_fd \<Rightarrow> kconfig res" where
  "retrieveKernelConfig env fd =
     (let kpath = KernelPath (ke_arch env) (m_kernel fd)
      in if kp_version kpath \<noteq> [] \<and> ke_exists env (configPath kpath)
         then readFromConfig (ke_config env) (configPath kpath) []
         else readFromKernel (extractKernelConfig (ke_inflate env) (ke_arch env) fd) [])"

definition isConfigRelocatable :: "kernel_env \<Rightarrow> kernel_fd \<Rightarrow> bool res" where
  "isConfigRelocatable env fd =
     res_or False (res_bind (retrieveKernelConfig env fd) (\<lambda>kconfig.
       Inr (kconfig_get ''CONFIG_RELOCATABLE'' kconfig = T_TRISTATE ON)))"

definition elfIsRelocatable :: "kernel_env \<Rightarrow> kernel_fd \<Rightarrow> bool res" where
  "elfIsRelocatable env fd =
     res_bind (elf_machine fd) (\<lambda>machine.
       let arch = archFromElfMachine machine
       in if isArchAlwaysRelocatable arch then Inr True
          else if hasConfigRelocatable arch then isConfigRelocatable env fd
          else Inr False)"

definition isRelocatable :: "kernel_env \<Rightarrow> kernel_fd \<Rightarrow> bool res" where
  "isRelocatable env fd =
     res_bind (getKernelType (ke_arch env) fd) (\<lambda>kt.
       case kt of
         KT_ELF \<Rightarrow> elfIsRelocatable env fd
       | KT_ELF_GZ \<Rightarrow> elfIsRelocatable env fd
       | KT_X86 \<Rightarrow> x86isRelocatable fd
       | KT_S390 \<Rightarrow> Inr True
       | KT_AARCH64 \<Rightarrow> Inr True
       | KT_NONE \<Rightarrow> Inl (KError ''Invalid kernel type.''))"

text \<open>The machine of the kernel search, with this \<open>KernelTool\<close>.\<close>

definition machine_of :: "kernel_env \<Rightarrow> string \<Rightarrow> machine" where
  "machine_of env release =
     \<lparr>getArch = ke_arch env, getKernelRelease = release, file_exists = ke_exists env,
      kernelTool = (\<lambda>kernelImage. res_bind (KernelTool env kernelImage) (\<lambda>fd.
        Inr \<lparr>kt_isRelocatable = isRelocatable env fd, kt_retrieveKernelConfig = retrieveKernelConfig env fd\<rparr>))\<rparr>"

section \<open>Subcommands identify\_kernel and read\_ikconfig\<close>

text \<open>The state is what was printed and the error code.\<close>

definition NOT_RELOCATABLE :: int where "NOT_RELOCATABLE = 2"

definition identify_parseArgs :: "bool \<Rightarrow> bool \<Rightarrow> string list \<Rightarrow> string res" where
  "identify_parseArgs checkType checkRelocatable args =
     (if \<not> checkType \<and> \<not> checkRelocatable then Inl (KError ''You have to specify either the -r or the -t flag.'')
      else case args of
             [a] \<Rightarrow> Inr a
           | _ \<Rightarrow> Inl (KError ''You have to specify the kernel image for the identify_kernel subcommand.''))"

fun type_name :: "kernel_type \<Rightarrow> string res" where
  "type_name KT_X86 = Inr ''x86''"
| "type_name KT_ELF = Inr ''ELF''"
| "type_name KT_ELF_GZ = Inr ''ELF gzip''"
| "type_name KT_S390 = Inr ''S390''"
| "type_name KT_AARCH64 = Inr ''Aarch64''"
| "type_name KT_NONE = Inl (KError ''The specified file is not a kernel image.'')"

definition print_line :: "string \<Rightarrow> (string \<times> int, unit) sx" where
  "print_line l s = (Inr (), (fst s @ l @ [NL], snd s))"

definition identify_execute :: "kernel_env \<Rightarrow> bool \<Rightarrow> bool \<Rightarrow> string \<Rightarrow> (string \<times> int, unit) sx" where
  "identify_execute env checkType checkRelocatable kernelImage =
     sx_bind (sx_lift (KernelTool env kernelImage)) (\<lambda>kt.
     sx_seq
       (if checkType
        then sx_bind (sx_lift (res_bind (getKernelType (ke_arch env) kt) type_name)) print_line else sx_return ())
       (if checkRelocatable
        then sx_bind (sx_lift (isRelocatable env kt)) (\<lambda>r.
               if r then print_line ''Relocatable''
               else sx_seq (print_line ''Not relocatable'') (\<lambda>s. (Inr (), (fst s, NOT_RELOCATABLE))))
        else sx_return ()))"

definition read_ikconfig_parseArgs :: "string list \<Rightarrow> string res" where
  "read_ikconfig_parseArgs args = (case args of [a] \<Rightarrow> Inr a | _ \<Rightarrow> Inl (KError ''kernel image required.''))"

definition read_ikconfig_execute :: "kernel_env \<Rightarrow> string \<Rightarrow> string res" where
  "read_ikconfig_execute env file =
     res_bind (KernelTool env file) (extractKernelConfig (ke_inflate env) (ke_arch env))"

end
