(* ===== verification/KernelScan.thy ===== *)
theory KernelScan
  imports KernelImage
begin

text \<open>
  Which marks the overlapping buffers of \<open>KernelTool\<close> find. The buffers are windows of the data behind eight NULs, at every
  multiple of the length of a read; a mark that begins where a window begins is missed.
\<close>

section \<open>Searching bytes\<close>

definition occurs :: "string \<Rightarrow> string \<Rightarrow> nat \<Rightarrow> bool" where
  "occurs m s i \<longleftrightarrow> take (length m) (drop i s) = m"

lemma findBytes_loop_first:
  "i \<le> p \<Longrightarrow> p < i + k \<Longrightarrow> occurs m s p \<Longrightarrow> (\<And>q. i \<le> q \<Longrightarrow> q < p \<Longrightarrow> \<not> occurs m s q) \<Longrightarrow> findBytes_loop s m i k = Some p"
proof (induction s m i k rule: findBytes_loop.induct)
  case (2 s m i k)
  show ?case
  proof (cases "i = p")
    case True
    with 2 show ?thesis by (simp add: occurs_def)
  next
    case False
    with 2 have "\<not> occurs m s i" by simp
    with 2 False show ?thesis by (simp add: occurs_def)
  qed
qed simp

lemma findBytes_loop_None:
  "(\<And>q. i \<le> q \<Longrightarrow> q < i + k \<Longrightarrow> \<not> occurs m s q) \<Longrightarrow> findBytes_loop s m i k = None"
proof (induction s m i k rule: findBytes_loop.induct)
  case (2 s m i k)
  from 2(2) [of i] have "\<not> occurs m s i" by simp
  with 2 show ?case by (simp add: occurs_def)
qed simp

section \<open>Windows\<close>

definition chunk_size :: nat where
  "chunk_size = BUFSIZ - MAGIC_LEN"

lemma sizes: "BUFSIZ = chunk_size + 8" "MAGIC_LEN = 8" "0 < chunk_size" "8 < chunk_size"
  by (simp_all add: chunk_size_def BUFSIZ_def MAGIC_LEN_def)

text \<open>The data behind the initial zeros; the buffer before the read at \<open>off\<close> begins with the eight bytes before.\<close>

definition padded :: "string \<Rightarrow> string" where
  "padded d = replicate 8 NUL @ d"

definition buf_ok :: "string \<Rightarrow> nat \<Rightarrow> string \<Rightarrow> bool" where
  "buf_ok d off buf \<longleftrightarrow> length buf = BUFSIZ \<and> take 8 buf = take 8 (drop off (padded d)) \<and> off \<le> length d"

lemma drop_padded: "drop (8 + n) (padded d) = drop n d"
  by (simp add: padded_def)

definition window :: "string \<Rightarrow> nat \<Rightarrow> string \<Rightarrow> string" where
  "window d off buf = buf_put buf MAGIC_LEN (take chunk_size (drop off d))"

lemma window_length: "buf_ok d off buf \<Longrightarrow> length (window d off buf) = BUFSIZ"
  by (auto simp: window_def buf_put_def buf_ok_def sizes padded_def)

lemma window_data:
  assumes "buf_ok d off buf" and "n \<le> 8 + length (take chunk_size (drop off d))"
  shows "take n (window d off buf) = take n (drop off (padded d))"
proof -
  define h c where "h = take 8 buf" and "c = take chunk_size (drop off d)"
  have h: "length h = 8" using assms(1) by (auto simp: buf_ok_def sizes padded_def h_def)
  have w: "window d off buf = h @ c @ drop (8 + length c) buf"
    by (simp add: window_def buf_put_def sizes h_def c_def)
  have "drop off (padded d) = h @ drop off d"
    using assms(1) append_take_drop_id [of 8 "drop off (padded d)"] drop_padded [of off d]
    by (simp add: add.commute buf_ok_def h_def)
  moreover have "drop off d = c @ drop chunk_size (drop off d)" by (simp only: c_def append_take_drop_id)
  ultimately have p: "drop off (padded d) = h @ c @ drop chunk_size (drop off d)" by metis
  have "n \<le> length (h @ c)" using assms(2) h by (simp add: c_def)
  then have t: "take n (h @ c @ x) = take n (h @ c)" for x using take_append [of n "h @ c" x] by simp
  show ?thesis unfolding w p t ..
qed

lemma window_occurs:
  assumes "buf_ok d off buf" and "length m = 8" and "p \<le> length (take chunk_size (drop off d))"
  shows "occurs m (window d off buf) p \<longleftrightarrow> occurs m (padded d) (off + p)"
proof -
  have "take (p + 8) (window d off buf) = take (p + 8) (drop off (padded d))"
    using assms(3) by (intro window_data [OF assms(1)]) simp
  then have "drop p (take (p + 8) (window d off buf)) = drop p (take (p + 8) (drop off (padded d)))" by simp
  then have "take 8 (drop p (window d off buf)) = take 8 (drop (off + p) (padded d))"
    by (simp add: drop_take add.commute)
  then show ?thesis by (simp add: occurs_def assms(2))
qed

text \<open>A full read: the window is skipped, hit, and carried over.\<close>

lemma full_read: "off + chunk_size \<le> length d \<Longrightarrow> length (take chunk_size (drop off d)) = chunk_size"
  by simp

lemma mark_skip:
  assumes b: "buf_ok d off buf" and m: "length m = 8" and f: "off + chunk_size \<le> length d"
    and no: "\<And>q. off < q \<Longrightarrow> q < off + chunk_size \<Longrightarrow> \<not> occurs m (padded d) q"
  shows "mark_offset (window d off buf) m fo x = Inr x"
proof -
  note occ = window_occurs [OF b m, unfolded full_read [OF f]]
  have l: "length (window d off buf) - length m = chunk_size" "\<not> length (window d off buf) < length m"
    using window_length [OF b] by (simp_all add: m sizes)
  show ?thesis
  proof (cases "occurs m (window d off buf) 0")
    case True
    then have "findBytes_loop (window d off buf) m 0 chunk_size = Some 0"
      using sizes(3) by (intro findBytes_loop_first) auto
    then show ?thesis by (simp add: mark_offset_def findBytes_def l)
  next
    case False
    have "\<not> occurs m (window d off buf) q" if "q < chunk_size" for q
      using False no [of "off + q"] occ [of q] that by (cases "q = 0") auto
    then have "findBytes_loop (window d off buf) m 0 chunk_size = None" by (intro findBytes_loop_None) simp
    then show ?thesis by (simp add: mark_offset_def findBytes_def l)
  qed
qed

lemma mark_hit:
  assumes b: "buf_ok d off buf" and m: "length m = 8"
    and q: "off < q" "q < off + chunk_size" "q \<le> length d" "occurs m (padded d) q"
    and first: "\<And>q'. off \<le> q' \<Longrightarrow> q' < q \<Longrightarrow> \<not> occurs m (padded d) q'"
  shows "mark_offset (window d off buf) m (int off) x = Inr (int q - 8)"
proof -
  have le: "p \<le> length (take chunk_size (drop off d))" if "p \<le> q - off" for p
    using that q(1-3) by auto
  note occ = window_occurs [OF b m le]
  have l: "length (window d off buf) - length m = chunk_size" "\<not> length (window d off buf) < length m"
    using window_length [OF b] by (simp_all add: m sizes)
  have "findBytes_loop (window d off buf) m 0 chunk_size = Some (q - off)"
    using q occ first by (intro findBytes_loop_first) auto
  then show ?thesis using q by (simp add: mark_offset_def findBytes_def l sizes)
qed

lemma carry_ok:
  assumes b: "buf_ok d off buf" and f: "off + chunk_size \<le> length d"
  shows "buf_ok d (off + chunk_size) (buf_put (window d off buf) 0 (drop chunk_size (window d off buf)))"
proof -
  let ?w = "window d off buf"
  have w: "?w = take BUFSIZ (drop off (padded d))"
    using window_data [OF b, of BUFSIZ] window_length [OF b] f by (simp add: sizes)
  then have "drop chunk_size ?w = take 8 (drop (off + chunk_size) (padded d))"
    by (simp add: sizes drop_take add.commute)
  moreover have "length (drop chunk_size ?w) = 8" using window_length [OF b] by (simp add: sizes)
  ultimately show ?thesis
    using window_length [OF b] f by (simp add: buf_ok_def buf_put_def sizes)
qed

lemma initial_ok: "buf_ok d 0 (replicate BUFSIZ NUL)"
  by (simp add: buf_ok_def padded_def sizes)


section \<open>The loop\<close>

definition scan_from :: "(int \<Rightarrow> bool) \<Rightarrow> string \<Rightarrow> nat \<Rightarrow> string \<Rightarrow> int \<Rightarrow> int \<Rightarrow> (int \<times> int) res" where
  "scan_from unset d off buf b e = ik_scan unset (drop off d) buf (int off) b e"

definition next_buf :: "string \<Rightarrow> nat \<Rightarrow> string \<Rightarrow> string" where
  "next_buf d off buf = buf_put (window d off buf) 0 (drop chunk_size (window d off buf))"

lemma scan_start:
  assumes "off < length d" and "unset b"
  shows "scan_from unset d off buf b e = res_bind (mark_offset (window d off buf) MAGIC_START (int off) b) (\<lambda>b'.
    ik_scan unset (drop (off + chunk_size) d) (next_buf d off buf) (int (off + length (take chunk_size (drop off d)))) b' e)"
  using assms unfolding scan_from_def
  by (subst ik_scan.simps) (simp add: window_def next_buf_def chunk_size_def [symmetric] Let_def add.commute)

lemma scan_end:
  assumes "off < length d" and "\<not> unset b" and "unset e"
  shows "scan_from unset d off buf b e = res_bind (mark_offset (window d off buf) MAGIC_END (int off) e) (\<lambda>e'.
    ik_scan unset (drop (off + chunk_size) d) (next_buf d off buf) (int (off + length (take chunk_size (drop off d)))) b e')"
  using assms unfolding scan_from_def
  by (subst ik_scan.simps) (simp add: window_def next_buf_def chunk_size_def [symmetric] Let_def add.commute)

lemma scan_done: "\<not> unset b \<Longrightarrow> \<not> unset e \<Longrightarrow> ik_scan unset data buf f b e = Inr (b, e)"
  by (subst ik_scan.simps) (simp add: Let_def)

lemma scan_empty: "ik_scan unset [] buf f b e = Inr (b, e)"
  by (subst ik_scan.simps) simp

lemma marks_8: "length MAGIC_START = 8" "length MAGIC_END = 8"
  by (simp_all add: MAGIC_START_def MAGIC_END_def)

text \<open>Full reads without the mark, except where a window begins.\<close>

definition unmarked :: "string \<Rightarrow> string \<Rightarrow> nat \<Rightarrow> nat \<Rightarrow> bool" where
  "unmarked m d off n \<longleftrightarrow>
     (\<forall>k < n. \<forall>q. off + k * chunk_size < q \<and> q < off + Suc k * chunk_size \<longrightarrow> \<not> occurs m (padded d) q)"

lemma unmarked_Suc:
  "unmarked m d off (Suc n) \<Longrightarrow>
   (\<forall>q. off < q \<and> q < off + chunk_size \<longrightarrow> \<not> occurs m (padded d) q) \<and> unmarked m d (off + chunk_size) n"
  unfolding unmarked_def by (auto simp: add.assoc dest: spec [of _ 0] spec [of _ "Suc _"])

lemma scan_skip_start:
  assumes "buf_ok d off buf" and "unset b" and "off + n * chunk_size \<le> length d" and "unmarked MAGIC_START d off n"
  shows "\<exists>buf'. buf_ok d (off + n * chunk_size) buf' \<and>
    scan_from unset d off buf b e = scan_from unset d (off + n * chunk_size) buf' b e"
  using assms
proof (induction n arbitrary: off buf)
  case 0
  then show ?case by auto
next
  case (Suc n)
  have f: "off + chunk_size \<le> length d" "off < length d" using Suc.prems(3) sizes(3) by simp_all
  note u = unmarked_Suc [OF Suc.prems(4)]
  have m: "mark_offset (window d off buf) MAGIC_START (int off) b = Inr b"
    using u by (intro mark_skip [OF Suc.prems(1) marks_8(1) f(1)]) simp
  have step: "scan_from unset d off buf b e = scan_from unset d (off + chunk_size) (next_buf d off buf) b e"
    unfolding scan_start [where unset = unset, OF f(2) Suc.prems(2)] m full_read [OF f(1)] by (simp add: scan_from_def)
  have ok: "buf_ok d (off + chunk_size) (next_buf d off buf)"
    unfolding next_buf_def by (rule carry_ok [OF Suc.prems(1) f(1)])
  show ?case using Suc.IH [OF ok Suc.prems(2)] Suc.prems(3) u unfolding step by (simp add: add.assoc)
qed

lemma scan_skip_end:
  assumes "buf_ok d off buf" and "\<not> unset b" and "unset e" and "off + n * chunk_size \<le> length d" and "unmarked MAGIC_END d off n"
  shows "\<exists>buf'. buf_ok d (off + n * chunk_size) buf' \<and>
    scan_from unset d off buf b e = scan_from unset d (off + n * chunk_size) buf' b e"
  using assms
proof (induction n arbitrary: off buf)
  case 0
  then show ?case by auto
next
  case (Suc n)
  have f: "off + chunk_size \<le> length d" "off < length d" using Suc.prems(4) sizes(3) by simp_all
  note u = unmarked_Suc [OF Suc.prems(5)]
  have m: "mark_offset (window d off buf) MAGIC_END (int off) e = Inr e"
    using u by (intro mark_skip [OF Suc.prems(1) marks_8(2) f(1)]) simp
  have step: "scan_from unset d off buf b e = scan_from unset d (off + chunk_size) (next_buf d off buf) b e"
    unfolding scan_end [where unset = unset and b = b and e = e, OF f(2) Suc.prems(2,3)] m full_read [OF f(1)] by (simp add: scan_from_def)
  have ok: "buf_ok d (off + chunk_size) (next_buf d off buf)"
    unfolding next_buf_def by (rule carry_ok [OF Suc.prems(1) f(1)])
  show ?case using Suc.IH [OF ok Suc.prems(2,3)] Suc.prems(4) u unfolding step by (simp add: add.assoc)
qed


section \<open>Marks that are found, and marks that are missed\<close>

lemma occurs_padded:
  assumes "length m = 8" and "hd m \<noteq> NUL"
  shows "occurs m (padded d) q \<longleftrightarrow> 8 \<le> q \<and> occurs m d (q - 8)"
proof (cases "8 \<le> q")
  case True
  then obtain k where "q = 8 + k" using le_Suc_ex by blast
  then show ?thesis by (simp add: occurs_def drop_padded)
next
  case False
  then obtain k where "8 - q = Suc k" by (cases "8 - q") auto
  with False assms show ?thesis by (cases m) (auto simp: occurs_def padded_def)
qed

lemma marks_hd: "hd MAGIC_START \<noteq> NUL" "hd MAGIC_END \<noteq> NUL"
  by (simp_all add: MAGIC_START_def MAGIC_END_def NUL_def)

text \<open>A mark at \<open>i\<close> begins in the window with this number, unless it begins together with one.\<close>

definition mark_window :: "nat \<Rightarrow> nat" where
  "mark_window i = (i + 8) div chunk_size"

definition visible :: "nat \<Rightarrow> bool" where
  "visible i \<longleftrightarrow> (i + 8) mod chunk_size \<noteq> 0"

lemma visible_inside: "visible i \<Longrightarrow> mark_window i * chunk_size < i + 8 \<and> i + 8 < mark_window i * chunk_size + chunk_size"
proof -
  assume v: "visible i"
  have "(i + 8) mod chunk_size < chunk_size" using sizes(3) by simp
  moreover have "mark_window i * chunk_size + (i + 8) mod chunk_size = i + 8" by (simp add: mark_window_def)
  ultimately show ?thesis using v unfolding visible_def by linarith
qed

lemma unique_unmarked:
  assumes "\<forall>i. occurs m d i \<longleftrightarrow> i = b" and "length m = 8" "hd m \<noteq> NUL"
    and "off + n * chunk_size \<le> mark_window b * chunk_size"
  shows "unmarked m d off n"
  unfolding unmarked_def
proof (intro allI impI notI)
  fix k q assume k: "k < n" and q: "off + k * chunk_size < q \<and> q < off + Suc k * chunk_size"
    and "occurs m (padded d) q"
  then have "q = b + 8" using assms(1) by (auto simp: occurs_padded [OF assms(2,3)])
  moreover have "mark_window b * chunk_size \<le> b + 8" by (simp add: mark_window_def)
  moreover have "Suc k * chunk_size \<le> n * chunk_size" using k by (intro mult_le_mono1) simp
  ultimately show False using q assms(4) by linarith
qed

lemma scan_finds:
  assumes st: "\<forall>i. occurs MAGIC_START d i \<longleftrightarrow> i = b" and en: "\<forall>i. occurs MAGIC_END d i \<longleftrightarrow> i = e"
    and vis: "visible b" "visible e" and order: "mark_window b < mark_window e"
    and u: "unset x" "\<not> unset (int b)" "\<not> unset (int e)"
  shows "ik_scan unset d (replicate BUFSIZ NUL) 0 x x = Inr (int b, int e)"
proof -
  let ?nb = "mark_window b" and ?ne = "mark_window e"
  let ?ob = "?nb * chunk_size" and ?oe = "?ne * chunk_size"
  note b = visible_inside [OF vis(1)] and e = visible_inside [OF vis(2)]
  have "length (take 8 (drop e d)) = 8" using en marks_8(2) by (metis occurs_def)
  then have el: "e + 8 \<le> length d" by simp
  have full: "?ob + chunk_size \<le> ?oe" using order mult_le_mono1 [of "Suc ?nb" ?ne chunk_size] by simp
  then have fl: "?ob + chunk_size \<le> length d" using e el by linarith
  have bl: "b + 8 \<le> length d" using b fl by linarith
  have 0: "ik_scan unset d (replicate BUFSIZ NUL) 0 x x = scan_from unset d 0 (replicate BUFSIZ NUL) x x"
    by (simp add: scan_from_def)
  obtain buf1 where 1: "buf_ok d ?ob buf1" "scan_from unset d 0 (replicate BUFSIZ NUL) x x = scan_from unset d ?ob buf1 x x"
    using scan_skip_start [where unset = unset and b = x and e = x, OF initial_ok u(1), of ?nb d] fl
      unique_unmarked [OF st marks_8(1) marks_hd(1), of 0 ?nb] by auto
  have hit1: "mark_offset (window d ?ob buf1) MAGIC_START (int ?ob) x = Inr (int (b + 8) - 8)"
    using b bl st by (intro mark_hit [OF 1(1) marks_8(1)]) (auto simp: occurs_padded [OF marks_8(1) marks_hd(1)])
  have 2: "scan_from unset d ?ob buf1 x x = scan_from unset d (?ob + chunk_size) (next_buf d ?ob buf1) (int b) x"
    using scan_start [where unset = unset and b = x and e = x and off = ?ob and d = d and buf = buf1] fl u(1) sizes(3)
    unfolding hit1 full_read [OF fl] by (simp add: scan_from_def)
  have ok: "buf_ok d (?ob + chunk_size) (next_buf d ?ob buf1)"
    unfolding next_buf_def by (rule carry_ok [OF 1(1) fl])
  have gap: "?ob + chunk_size + (?ne - Suc ?nb) * chunk_size = ?oe"
  proof -
    have "Suc ?nb * chunk_size + (?ne - Suc ?nb) * chunk_size = (Suc ?nb + (?ne - Suc ?nb)) * chunk_size"
      by (rule distrib_right [symmetric])
    also have "\<dots> = ?oe" using order by simp
    finally show ?thesis by simp
  qed
  obtain buf2 where 3: "buf_ok d ?oe buf2"
      "scan_from unset d (?ob + chunk_size) (next_buf d ?ob buf1) (int b) x = scan_from unset d ?oe buf2 (int b) x"
    using scan_skip_end [where unset = unset and b = "int b" and e = x, OF ok u(2,1), of "?ne - Suc ?nb"] e el
      unique_unmarked [OF en marks_8(2) marks_hd(2), of "?ob + chunk_size" "?ne - Suc ?nb"]
    unfolding gap by auto
  have hit2: "mark_offset (window d ?oe buf2) MAGIC_END (int ?oe) x = Inr (int (e + 8) - 8)"
    using e el en by (intro mark_hit [OF 3(1) marks_8(2)]) (auto simp: occurs_padded [OF marks_8(2) marks_hd(2)])
  have "?oe < length d" using e el by linarith
  then have 4: "scan_from unset d ?oe buf2 (int b) x = Inr (int b, int e)"
    using scan_end [where unset = unset and b = "int b" and e = x and off = ?oe and d = d and buf = buf2] u
    unfolding hit2 by (simp add: scan_done [where unset = unset])
  show ?thesis unfolding 0 1(2) 2 3(2) 4 ..
qed

text \<open>A configuration is missed when the only start mark begins with a window, here for data of full reads.\<close>

lemma scan_misses:
  assumes "\<forall>i. occurs MAGIC_START d i \<longrightarrow> \<not> visible i" and "chunk_size dvd length d" and "unset x"
  shows "ik_scan unset d (replicate BUFSIZ NUL) 0 x y = Inr (x, y)"
proof -
  let ?n = "length d div chunk_size"
  have n: "?n * chunk_size = length d" using assms(2) by (rule dvd_div_mult_self)
  have "unmarked MAGIC_START d 0 ?n"
    unfolding unmarked_def
  proof (intro allI impI notI)
    fix k q assume q: "0 + k * chunk_size < q \<and> q < 0 + Suc k * chunk_size" and "occurs MAGIC_START (padded d) q"
    then have "8 \<le> q" "\<not> visible (q - 8)" using assms(1) by (auto simp: occurs_padded [OF marks_8(1) marks_hd(1)])
    then have "chunk_size dvd q" by (simp add: visible_def dvd_eq_mod_eq_0)
    then obtain j where "q = chunk_size * j" by blast
    with q have "k * chunk_size < j * chunk_size" "j * chunk_size < Suc k * chunk_size" by (simp_all add: mult.commute)
    then have "k < j" "j < Suc k" using mult_less_cancel2 by blast+
    then show False by simp
  qed
  then obtain buf where "scan_from unset d 0 (replicate BUFSIZ NUL) x y = scan_from unset d (?n * chunk_size) buf x y"
    using scan_skip_start [where unset = unset and b = x and e = y, OF initial_ok assms(3), of ?n d] n by auto
  then show ?thesis by (simp add: scan_from_def n scan_empty)
qed

section \<open>Extraction\<close>

lemma extract_found:
  assumes "fd_lseek_error fd = None" "fd_dup fd" "fd_gzdopen fd" and d: "fd_gz fd 0 = d"
    and marks: "\<forall>i. occurs MAGIC_START d i \<longleftrightarrow> i = b" "\<forall>i. occurs MAGIC_END d i \<longleftrightarrow> i = e"
      "visible b" "visible e" "mark_window b < mark_window e" and len: "b + 18 \<le> e"
  shows "extractKernelConfigELF inflate fd = extractFromIKconfigBuffer inflate (take (e - b - 18) (drop (b + 18) d))"
proof -
  have "length (take 8 (drop e d)) = 8" using marks(2) marks_8(2) by (metis occurs_def)
  then have "e + 8 \<le> length d" by simp
  then have l: "length (take (e - b - 18) (drop (b + 18) d)) = e - b - 18" using len by auto
  have n: "nat (int e - (int b + 8 + 10)) = e - b - 18" "nat (int b + 8 + 10) = b + 18" using len by auto
  have c: "ik_content fd d (int b, int e) = Inr (take (e - b - 18) (drop (b + 18) d))"
    using len l unfolding ik_content_def Let_def prod.case sizes(2) of_nat_numeral n by auto
  have s: "ik_scan (\<lambda>x. x < 0) d (replicate BUFSIZ NUL) 0 (- 1) (- 1) = Inr (int b, int e)"
    by (rule scan_finds [OF marks]) simp_all
  show ?thesis using assms(1-3) by (simp add: extractKernelConfigELF_def fd_lseek_def d s c)
qed

lemma extract_missed:
  assumes "fd_lseek_error fd = None" "fd_dup fd" "fd_gzdopen fd"
    and "\<forall>i. occurs MAGIC_START (fd_gz fd 0) i \<longrightarrow> \<not> visible i" and "chunk_size dvd length (fd_gz fd 0)"
  shows "extractKernelConfigELF inflate fd = Inl (KError (''Cannot read configuration from '' @ m_kernel fd @ ''.''))"
  using assms scan_misses [where unset = "\<lambda>x. x < 0", OF assms(4,5), of "- 1" "- 1"]
  by (simp add: extractKernelConfigELF_def fd_lseek_def ik_content_def)

text \<open>In a bzImage without a configuration the offsets stay zero, and the length is negative.\<close>

lemma bzImage_bad_alloc:
  assumes "fd_lseek_error fd = None" "fd_dup fd" "fd_gzdopen fd"
    and "bz_scan fd 0 (replicate BUFSIZ NUL) = Inr off" "off \<noteq> 0" "- 4 \<le> off"
    and "\<forall>i. \<not> occurs MAGIC_START (fd_gz fd (nat (off + 4))) i" and "chunk_size dvd length (fd_gz fd (nat (off + 4)))"
  shows "extractKernelConfigbzImage inflate fd = Inl BadAlloc"
proof -
  have "ik_scan (\<lambda>x. x = 0) (fd_gz fd (nat (off + 4))) (replicate BUFSIZ NUL) 0 0 0 = Inr (0, 0)"
    by (rule scan_misses) (use assms(7,8) in auto)
  then show ?thesis
    using assms(1-6) by (simp add: extractKernelConfigbzImage_def fd_lseek_def ik_content_def sizes(2))
qed

end
