(* ===== verification/ElfNotes.thy ===== *)
theory ElfNotes
  imports Vmcoreinfo
begin

text \<open>
  \<^verbatim>\<open>kdumptool/util.cc\<close>: the search for a note by its name and \<open>Util::isXenCoreDump\<close>, on a little-endian host. The open core is a record
  of the calls on its descriptor; \<^verbatim>\<open>libelf\<close> is a parameter.
\<close>

unbundle bit_operations_syntax

section \<open>Notes by name\<close>

text \<open>\<^verbatim>\<open>!memcmp(p, s, n)\<close>: all of the memory must be there.\<close>

definition memcmp_eq :: "string \<Rightarrow> string \<Rightarrow> nat \<Rightarrow> bool res" where
  "memcmp_eq s buffer off =
     (if off + length s \<le> length buffer then Inr (take (length s) (drop off buffer) = s)
      else Inl (Undefined ''note name past the end of the buffer''))"

definition note_named :: "string \<Rightarrow> nat \<Rightarrow> 32 word \<Rightarrow> string \<Rightarrow> bool res" where
  "note_named buf p namesz name =
     (if unat namesz = length name then memcmp_eq name buf p
      else if unat namesz = length name + 1 then memcmp_eq (name @ [NUL]) buf p
      else Inr False)"

function find_elf_note :: "string \<Rightarrow> string \<Rightarrow> nat \<Rightarrow> nat option res" where
  "find_elf_note buf name p =
     (if length buf - p < sizeof_Nhdr then Inr None
      else
        res_bind (read_word buf p) (\<lambda>namesz.
        res_bind (read_word buf (p + 4)) (\<lambda>descsz.
          let notesz = unat (align4 namesz + align4 descsz)
          in if length buf - (p + sizeof_Nhdr) < notesz then Inr None
             else res_bind (note_named buf (p + sizeof_Nhdr) namesz name) (\<lambda>found.
                    if found then Inr (Some p) else find_elf_note buf name (p + sizeof_Nhdr + notesz)))))"
  by pat_completeness auto
termination
  by (relation "measure (\<lambda>(buf, name, p). length buf - p)") (auto simp: sizeof_Nhdr_def)

declare find_elf_note.simps [simp del]

record core_fd =
  cf_lseek :: "nat \<Rightarrow> errno option"
  cf_read :: "nat \<Rightarrow> nat \<Rightarrow> errno + string"
  cf_mmap :: "nat \<Rightarrow> string option"
  cf_alloc :: "nat \<Rightarrow> errno option"
  cf_new :: "nat \<Rightarrow> bool"
  cf_pagesize :: nat

function read_note :: "core_fd \<Rightarrow> nat \<Rightarrow> nat \<Rightarrow> string res" where
  "read_note fd pos to_read =
     (if to_read = 0 then Inr []
      else case cf_read fd pos to_read of
             Inl e \<Rightarrow> Inl (KSystemError ''Cannot read ELF note'' e)
           | Inr bytes \<Rightarrow>
               if bytes = [] then Inl (KError ''Unexpected EOF while reading ELF note'')
               else res_bind (read_note fd (pos + length bytes) (to_read - length bytes)) (\<lambda>r. Inr (bytes @ r)))"
  by pat_completeness auto
termination
  by (relation "measure (\<lambda>(fd, pos, n). n)") auto

declare read_note.simps [simp del]

definition FindElfNoteByName :: "core_fd \<Rightarrow> nat \<Rightarrow> nat \<Rightarrow> string \<Rightarrow> nat option res" where
  "FindElfNoteByName fd offset sz name =
     (case cf_lseek fd offset of
        Some e \<Rightarrow> Inl (KSystemError ''Cannot seek to ELF notes'' e)
      | None \<Rightarrow>
          if \<not> cf_new fd sz then Inl BadAlloc
          else
            res_bind (read_note fd offset sz) (\<lambda>buf.
            res_bind (find_elf_note buf name 0) (\<lambda>r. Inr (map_option (\<lambda>p. offset + p) r))))"

section \<open>Xen core dumps\<close>

text \<open>
  \<open>map_elf\<close>: when the file cannot be mapped it is read into zeroed memory, from the current position, which moves.
\<close>

function read_elf :: "core_fd \<Rightarrow> nat \<Rightarrow> nat \<Rightarrow> string res \<times> nat" where
  "read_elf fd to_read pos =
     (if to_read = 0 then (Inr [], pos)
      else case cf_read fd pos to_read of
             Inl e \<Rightarrow> (Inl (KSystemError ''ELF read error'' e), pos)
           | Inr bytes \<Rightarrow>
               if bytes = [] then (Inr (replicate to_read NUL), pos)
               else (case read_elf fd (to_read - length bytes) (pos + length bytes) of
                       (r, pos') \<Rightarrow> (res_bind r (\<lambda>s. Inr (bytes @ s)), pos')))"
  by pat_completeness auto
termination
  by (relation "measure (\<lambda>(fd, n, pos). n)") auto

declare read_elf.simps [simp del]

definition map_elf :: "core_fd \<Rightarrow> nat \<Rightarrow> nat \<Rightarrow> string res \<times> nat" where
  "map_elf fd len pos =
     (case cf_mmap fd len of
        Some m \<Rightarrow> (Inr m, pos)
      | None \<Rightarrow>
          (case cf_alloc fd len of
             Some e \<Rightarrow> (Inl (KSystemError ''Cannot allocate ELF headers'' e), pos)
           | None \<Rightarrow> read_elf fd len pos))"

definition XEN_HEADER_MAPSIZE :: nat where
  "XEN_HEADER_MAPSIZE = 128 * 1024"

text \<open>
  The end of the program headers, in the arithmetic of the 32-bit and the 64-bit header. The size and the number of the headers are
  16-bit numbers that are multiplied as \<^verbatim>\<open>int\<close>.
\<close>

definition table_size :: "nat \<Rightarrow> nat \<Rightarrow> nat res" where
  "table_size phentsize phnum =
     (if phentsize * phnum < 2 ^ 31 then Inr (phentsize * phnum)
      else Inl (Undefined ''isXenCoreDump: overflow of e_phentsize * e_phnum''))"

definition endphdr :: "nat \<Rightarrow> string \<Rightarrow> nat res" where
  "endphdr elfclass m =
     (let field = (\<lambda>off n. le_nat (take n (drop off m)))
      in if elfclass = 1
         then res_bind (table_size (field 42 2) (field 44 2)) (\<lambda>t. Inr ((field 28 4 + t) mod 2 ^ 32))
         else if elfclass = 2
         then res_bind (table_size (field 54 2) (field 56 2)) (\<lambda>t. Inr ((field 32 8 + t) mod 2 ^ 64))
         else Inl (KError ''Unrecognized ELF class''))"

definition page_align :: "nat \<Rightarrow> nat \<Rightarrow> nat" where
  "page_align pagesize n = (n + pagesize - 1) mod 2 ^ 64 div pagesize * pagesize"

text \<open>
  A failure while the map is enlarged leaves the old, already released objects for the handler to release again.
\<close>

definition enlarge ::
    "(string \<Rightarrow> nat + elf_object) \<Rightarrow> core_fd \<Rightarrow> nat \<Rightarrow> elf_object \<Rightarrow> nat \<Rightarrow> elf_object res"
where
  "enlarge elf_memory fd endp elf pos =
     (if endp \<le> XEN_HEADER_MAPSIZE then Inr elf
      else case fst (map_elf fd (page_align (cf_pagesize fd) endp) pos) of
             Inl e \<Rightarrow> Inl (Undefined ''isXenCoreDump: elf_end on a released descriptor'')
           | Inr m \<Rightarrow> (case elf_memory m of
                         Inl e \<Rightarrow> Inl (KELFError ''elf_memory() failed'' e)
                       | Inr elf' \<Rightarrow> Inr elf'))"

fun xen_note_in :: "core_fd \<Rightarrow> (nat + elf_phdr) list \<Rightarrow> bool res" where
  "xen_note_in fd [] = Inr False"
| "xen_note_in fd (Inl e # phdrs) = Inl (KELFError ''getphdr() failed.'' e)"
| "xen_note_in fd (Inr phdr # phdrs) =
     (if p_type phdr = PT_NOTE
      then res_bind (FindElfNoteByName fd (p_offset phdr) (p_filesz phdr) ''Xen'') (\<lambda>r.
             if r \<noteq> None then Inr True else xen_note_in fd phdrs)
      else xen_note_in fd phdrs)"

definition isXenCoreDump_fd :: "bool \<Rightarrow> (string \<Rightarrow> nat + elf_object) \<Rightarrow> core_fd \<Rightarrow> bool res" where
  "isXenCoreDump_fd elf_version elf_memory fd =
     (if \<not> elf_version then Inl (KError ''libelf is out of date.'')
      else case map_elf fd XEN_HEADER_MAPSIZE 0 of
             (Inl e, pos) \<Rightarrow> Inl e
           | (Inr m, pos) \<Rightarrow>
               (case elf_memory m of
                  Inl e \<Rightarrow> Inl (KELFError ''elf_memory() failed'' e)
                | Inr elf \<Rightarrow>
                    if \<not> el_is_elf elf then Inr False
                    else res_bind (endphdr (el_class elf) m) (\<lambda>endp.
                         res_bind (enlarge elf_memory fd endp elf pos) (\<lambda>elf'.
                           case el_phdrs elf' of
                             Inl e \<Rightarrow> Inl (KELFError ''Cannot count ELF program headers'' e)
                           | Inr phdrs \<Rightarrow> xen_note_in fd phdrs))))"

definition isXenCoreDump :: "bool \<Rightarrow> (string \<Rightarrow> nat + elf_object) \<Rightarrow> (string \<Rightarrow> errno + core_fd) \<Rightarrow> string \<Rightarrow> bool res" where
  "isXenCoreDump elf_version elf_memory open_file file =
     (case open_file file of
        Inl e \<Rightarrow> Inl (KSystemError (''Opening of '' @ file @ '' failed.'') e)
      | Inr fd \<Rightarrow> isXenCoreDump_fd elf_version elf_memory fd)"

section \<open>Well-formed notes\<close>

lemma note_named_encoded:
  assumes "note_ok n" and "NUL \<notin> set name"
  shows "note_named (pre @ encode_note n @ post) (length pre + 12) (of_nat (length (n_name n) + 1)) name = Inr (n_name n = name)"
proof -
  have sz: "unat (of_nat (length (n_name n) + 1) :: 32 word) = length (n_name n) + 1"
    using assms(1) by (simp add: note_ok_def unsigned_of_nat take_bit_nat_eq_self del: of_nat_Suc of_nat_add)
  have d: "drop (length pre + 12) (pre @ encode_note n @ post) = n_name n @ NUL # drop (length (n_name n) + 1) (pad4 (n_name n @ [NUL])) @
      pad4 (n_desc n) @ post"
    by (simp add: encode_note_def pad4_def)
  have "length (n_name n) + 1 \<le> length (pad4 (n_name n @ [NUL]))" by (simp add: pad4_def)
  then have l: "length pre + 12 + (length (n_name n) + 1) \<le> length (pre @ encode_note n @ post)"
    by (simp add: length_encode_note)
  have cmp: "memcmp_eq s (pre @ encode_note n @ post) (length pre + 12) = Inr (take (length s) (n_name n @ [NUL]) = s)"
    if "length s \<le> length (n_name n) + 1" for s
  proof -
    have "take (length s) (drop (length pre + 12) (pre @ encode_note n @ post)) = take (length s) (n_name n @ [NUL])"
      unfolding d using that by (simp add: take_Cons')
    then show ?thesis using l that by (simp add: memcmp_eq_def)
  qed
  have "n_name n @ [NUL] \<noteq> name" using assms(2) by auto
  then show ?thesis
    unfolding note_named_def sz using cmp by auto
qed


lemma find_elf_note_step:
  assumes "note_ok n" and "NUL \<notin> set name" and small: "length (n_name n) + length (n_desc n) + 8 < 2 ^ 32"
  shows "find_elf_note (pre @ encode_note n @ post) name (length pre) =
    (if n_name n = name then Inr (Some (length pre))
     else find_elf_note (pre @ encode_note n @ post) name (length (pre @ encode_note n)))"
proof -
  let ?nsz = "of_nat (length (n_name n) + 1) :: 32 word" and ?dsz = "of_nat (length (n_desc n)) :: 32 word"
  let ?np = "length (pad4 (n_name n @ [NUL]))" and ?dp = "length (pad4 (n_desc n))"
  have a: "unat (align4 ?nsz) = ?np" "unat (align4 ?dsz) = ?dp"
    using assms unat_align4 [of "length (n_name n) + 1"] unat_align4 [of "length (n_desc n)"]
    by (simp_all add: note_ok_def length_pad4)
  have "?np + ?dp \<le> length (n_name n) + 4 + (length (n_desc n) + 3)" by (simp add: length_pad4)
  then have sum: "unat (align4 ?nsz + align4 ?dsz) = ?np + ?dp"
    using a small unat_add_lem [of "align4 ?nsz" "align4 ?dsz"] by simp
  have pos: "\<not> length (pre @ encode_note n @ post) - length pre < sizeof_Nhdr"
      "\<not> length (pre @ encode_note n @ post) - (length pre + sizeof_Nhdr) < ?np + ?dp"
    by (simp_all add: length_encode_note sizeof_Nhdr_def)
  have nxt: "length pre + sizeof_Nhdr + (?np + ?dp) = length (pre @ encode_note n)"
    by (simp add: length_encode_note sizeof_Nhdr_def)
  have nm: "note_named (pre @ encode_note n @ post) (length pre + sizeof_Nhdr) ?nsz name = Inr (n_name n = name)"
    unfolding sizeof_Nhdr_def by (rule note_named_encoded [OF assms(1,2)])
  show ?thesis
    by (subst find_elf_note.simps)
      (simp only: read_words_note [OF assms(1)] res_bind_simps sum nm Let_def pos nxt if_False)
qed

definition note_small :: "elf_note \<Rightarrow> bool" where
  "note_small n \<longleftrightarrow> note_ok n \<and> length (n_name n) + length (n_desc n) + 8 < 2 ^ 32"

fun note_position :: "string \<Rightarrow> elf_note list \<Rightarrow> nat option" where
  "note_position name [] = None"
| "note_position name (n # ns) =
     (if n_name n = name then Some 0 else map_option (\<lambda>p. length (encode_note n) + p) (note_position name ns))"

lemma find_elf_note_notes:
  assumes "\<forall>n \<in> set ns. note_small n" and "NUL \<notin> set name"
  shows "find_elf_note (pre @ concat (map encode_note ns)) name (length pre) =
    Inr (map_option (\<lambda>p. length pre + p) (note_position name ns))"
  using assms(1)
proof (induction ns arbitrary: pre)
  case Nil
  then show ?case by (subst find_elf_note.simps) (simp add: sizeof_Nhdr_def)
next
  case (Cons n ns)
  then have n: "note_ok n" "length (n_name n) + length (n_desc n) + 8 < 2 ^ 32" by (simp_all add: note_small_def)
  have step: "find_elf_note (pre @ encode_note n @ concat (map encode_note ns)) name (length pre) =
      (if n_name n = name then Inr (Some (length pre))
       else find_elf_note (pre @ encode_note n @ concat (map encode_note ns)) name (length (pre @ encode_note n)))"
    by (rule find_elf_note_step [OF n(1) assms(2) n(2)])
  have "find_elf_note ((pre @ encode_note n) @ concat (map encode_note ns)) name (length (pre @ encode_note n)) =
      Inr (map_option (\<lambda>p. length (pre @ encode_note n) + p) (note_position name ns))"
    using Cons.prems by (intro Cons.IH) simp
  then show ?case by (simp add: step option.map_comp comp_def add.assoc)
qed

lemma note_position_None: "note_position name ns = None \<longleftrightarrow> (\<forall>n \<in> set ns. n_name n \<noteq> name)"
  by (induction ns) auto

text \<open>A file whose reads deliver something of what is there, however little.\<close>

definition reads_file :: "core_fd \<Rightarrow> string \<Rightarrow> bool" where
  "reads_file fd d \<longleftrightarrow> (\<forall>pos n. 0 < n \<and> pos < length d \<longrightarrow>
     (\<exists>k. 0 < k \<and> k \<le> n \<and> pos + k \<le> length d \<and> cf_read fd pos n = Inr (take k (drop pos d)))) \<and> (\<forall>pos. cf_lseek fd pos = None) \<and>
     (\<forall>n \<le> length d. cf_new fd n)"

lemma read_note_file:
  assumes "reads_file fd d" and "pos + n \<le> length d"
  shows "read_note fd pos n = Inr (take n (drop pos d))"
  using assms(2)
proof (induction n arbitrary: pos rule: less_induct)
  case (less n)
  show ?case
  proof (cases "n = 0")
    case True
    then show ?thesis by (subst read_note.simps) simp
  next
    case False
    then obtain k where k: "0 < k" "k \<le> n" "pos + k \<le> length d" "cf_read fd pos n = Inr (take k (drop pos d))"
      using assms(1) less.prems unfolding reads_file_def by (metis add_lessD1 gr0I le_neq_implies_less less_add_same_cancel1 less_le_trans)
    have l: "length (take k (drop pos d)) = k" using k(3) by simp
    have "read_note fd (pos + k) (n - k) = Inr (take (n - k) (drop (pos + k) d))"
      using less k by simp
    then have "read_note fd pos n = Inr (take k (drop pos d) @ take (n - k) (drop (pos + k) d))"
      using False k l by (subst read_note.simps) auto
    then show ?thesis using k(2) by (metis drop_drop le_add_diff_inverse take_add add.commute)
  qed
qed

text \<open>The notes of a segment are searched to the first of the name, whatever the sizes of the reads.\<close>

lemma FindElfNoteByName_notes:
  assumes "reads_file fd d" and "offset + sz \<le> length d" and "take sz (drop offset d) = concat (map encode_note ns)"
    and "\<forall>n \<in> set ns. note_small n" and "NUL \<notin> set name"
  shows "FindElfNoteByName fd offset sz name = Inr (map_option (\<lambda>p. offset + p) (note_position name ns))"
  using find_elf_note_notes [OF assms(4,5), of "[]"] assms(1,2)
  by (simp add: FindElfNoteByName_def reads_file_def read_note_file [OF assms(1,2)] assms(3) option.map_comp comp_def)


lemma xen_note_in_notes:
  assumes "reads_file fd d"
    and "\<forall>phdr \<in> set phdrs. p_type phdr = PT_NOTE \<longrightarrow> p_offset phdr + p_filesz phdr \<le> length d \<and>
      take (p_filesz phdr) (drop (p_offset phdr) d) = concat (map encode_note (notes phdr)) \<and> (\<forall>n \<in> set (notes phdr). note_small n)"
  shows "xen_note_in fd (map Inr phdrs) =
    Inr (\<exists>phdr \<in> set phdrs. p_type phdr = PT_NOTE \<and> (\<exists>n \<in> set (notes phdr). n_name n = ''Xen''))"
  using assms(2)
proof (induction phdrs)
  case (Cons phdr phdrs)
  show ?case
  proof (cases "p_type phdr = PT_NOTE")
    case True
    then have "FindElfNoteByName fd (p_offset phdr) (p_filesz phdr) ''Xen'' =
        Inr (map_option (\<lambda>p. p_offset phdr + p) (note_position ''Xen'' (notes phdr)))"
      using Cons.prems by (intro FindElfNoteByName_notes [OF assms(1)]) (auto simp: NUL_def)
    then show ?thesis using Cons True note_position_None [of "''Xen''" "notes phdr"] by auto
  next
    case False
    then show ?thesis using Cons by simp
  qed
qed simp

end
