(* ===== verification/DumpTime.thy ===== *)
theory DumpTime
  imports DeleteDumps DataProvider
begin

text \<open>
  \<open>StringUtil::formatUnixTime\<close> with the conversions of \<^verbatim>\<open>strftime\<close> that the program uses. Dumps are stored in directories named by their time, and
  \<^verbatim>\<open>delete_dumps\<close> takes the order of the names for the order of the times.
\<close>

section \<open>Formatting\<close>

text \<open>The members of \<^verbatim>\<open>struct tm\<close> that the conversions read; \<open>tm_gmtoff\<close> is in minutes.\<close>

record tm =
  tm_year :: int
  tm_mon :: nat
  tm_mday :: nat
  tm_hour :: nat
  tm_min :: nat
  tm_gmtoff :: int

definition two_digits :: "nat \<Rightarrow> string" where
  "two_digits n = (if n < 10 then ''0'' else []) @ dec_of_nat n"

definition strftime_conv :: "char \<Rightarrow> tm \<Rightarrow> string res" where
  "strftime_conv c t =
     (if c = CHR ''Y'' then Inr (dec_of_int (tm_year t + 1900))
      else if c = CHR ''m'' then Inr (two_digits (tm_mon t + 1))
      else if c = CHR ''d'' then Inr (two_digits (tm_mday t))
      else if c = CHR ''H'' then Inr (two_digits (tm_hour t))
      else if c = CHR ''M'' then Inr (two_digits (tm_min t))
      else if c = CHR ''z'' then
        Inr ((if tm_gmtoff t < 0 then ''-'' else ''+'') @ two_digits (nat (\<bar>tm_gmtoff t\<bar> div 60)) @ two_digits (nat (\<bar>tm_gmtoff t\<bar> mod 60)))
      else Inl (Undefined ''conversion that the program does not use''))"

fun strftime :: "string \<Rightarrow> tm \<Rightarrow> string res" where
  "strftime [] t = Inr []"
| "strftime [c] t = (if c = CHR ''%'' then Inl (Undefined ''conversion that the program does not use'') else Inr [c])"
| "strftime (c # d # fmt) t =
     (if c = CHR ''%'' then res_bind (strftime_conv d t) (\<lambda>out. res_bind (strftime fmt t) (\<lambda>rest. Inr (out @ rest)))
      else res_bind (strftime (d # fmt) t) (\<lambda>rest. Inr (c # rest)))"

text \<open>The buffer stays as it was, without contents, when the result does not fit. \<open>localtime\<close> fails for years that \<^verbatim>\<open>int\<close> cannot hold.\<close>

definition formatUnixTime :: "(int \<Rightarrow> tm option) \<Rightarrow> string \<Rightarrow> int \<Rightarrow> string res" where
  "formatUnixTime localtime formatstring value =
     (case localtime value of
        None \<Rightarrow> Inl (Undefined ''strftime of no time'')
      | Some t \<Rightarrow> res_bind (strftime formatstring t) (\<lambda>out.
          if length out < BUFSIZ then Inr out else Inl (Undefined ''formatUnixTime: buffer not set'')))"

definition ISO_DATETIME_FORMAT :: string where "ISO_DATETIME_FORMAT = ''%Y-%m-%d-%H:%M''"

section \<open>The order of names\<close>

text \<open>A time in the range of the calendar, in a year of four digits; \<open>tm_key\<close> is its place in time.\<close>

definition valid_tm :: "tm \<Rightarrow> bool" where
  "valid_tm t \<longleftrightarrow> -900 \<le> tm_year t \<and> tm_year t < 8100 \<and> tm_mon t < 12 \<and> 1 \<le> tm_mday t \<and> tm_mday t \<le> 31 \<and> tm_hour t < 24 \<and> tm_min t < 60"

definition tm_key :: "tm \<Rightarrow> int" where
  "tm_key t = (((tm_year t * 12 + int (tm_mon t)) * 32 + int (tm_mday t)) * 24 + int (tm_hour t)) * 60 + int (tm_min t)"

definition iso_name :: "tm \<Rightarrow> string" where
  "iso_name t = dec_of_int (tm_year t + 1900) @ ''-'' @ two_digits (tm_mon t + 1) @ ''-'' @ two_digits (tm_mday t) @ ''-'' @
     two_digits (tm_hour t) @ '':'' @ two_digits (tm_min t)"

lemma iso_format: "strftime ISO_DATETIME_FORMAT t = Inr (iso_name t)"
  by (simp add: ISO_DATETIME_FORMAT_def strftime_conv_def iso_name_def)

text \<open>Decimal numbers of the same length are in the order of their strings.\<close>

lemma length_dec_of_nat: "length (dec_of_nat n) = (if n < 10 then 1 else Suc (length (dec_of_nat (n div 10))))"
  by (subst dec_of_nat.simps) simp

lemma append_less_iff:
  fixes a b c d :: "char list"
  assumes "length a = length b"
  shows "a @ c < b @ d \<longleftrightarrow> a < b \<or> (a = b \<and> c < d)"
  using assms by (induction a b rule: list_induct2) auto

lemma chr_less: "m < 256 \<Longrightarrow> n < 256 \<Longrightarrow> chr m < chr n \<longleftrightarrow> m < n"
  by (simp add: chr_def less_char_def)

lemma chr_inject: "m < 256 \<Longrightarrow> n < 256 \<Longrightarrow> chr m = chr n \<longleftrightarrow> m = n"
  by (metis ord_chr)

lemma radix_less:
  fixes a b c d :: nat
  assumes "b < k" and "d < k"
  shows "k * a + b < k * c + d \<longleftrightarrow> a < c \<or> (a = c \<and> b < d)"
proof (cases a c rule: linorder_cases)
  case less
  then have "k * a + k \<le> k * c" using mult_le_mono2 [of "a + 1" c k] by simp
  with less assms show ?thesis by simp
next
  case greater
  then have "k * c + k \<le> k * a" using mult_le_mono2 [of "c + 1" a k] by simp
  with greater assms show ?thesis by simp
qed simp

lemma radix_eq:
  fixes a b c d :: nat
  assumes "b < k" and "d < k"
  shows "k * a + b = k * c + d \<longleftrightarrow> a = c \<and> b = d"
  using radix_less [OF assms, of a c] radix_less [OF assms(2,1), of c a] by (metis nat_neq_iff)

lemma digit_less: "(m :: nat) < n \<longleftrightarrow> m div 10 < n div 10 \<or> (m div 10 = n div 10 \<and> m mod 10 < n mod 10)"
  using radix_less [of "m mod 10" 10 "n mod 10" "m div 10" "n div 10"] by simp

lemma dec_of_nat_less:
  "length (dec_of_nat m) = length (dec_of_nat n) \<Longrightarrow> dec_of_nat m < dec_of_nat n \<longleftrightarrow> m < n"
proof (induction m arbitrary: n rule: dec_of_nat.induct)
  case (1 m)
  show ?case
  proof (cases "m < 10")
    case True
    then have "n < 10" using 1(2) by (simp add: length_dec_of_nat [of m] length_dec_of_nat [of n] split: if_splits)
    with True show ?thesis by (simp add: dec_of_nat.simps [of m] dec_of_nat.simps [of n] chr_less)
  next
    case False
    then have n: "\<not> n < 10" and l: "length (dec_of_nat (m div 10)) = length (dec_of_nat (n div 10))"
      using 1(2) by (simp_all add: length_dec_of_nat [of m] length_dec_of_nat [of n] split: if_splits)
    have "m mod 10 < 10" "n mod 10 < 10" by simp_all
    then have c: "chr (48 + m mod 10) < chr (48 + n mod 10) \<longleftrightarrow> m mod 10 < n mod 10"
      using chr_less [of "48 + m mod 10" "48 + n mod 10"] by simp
    have e: "dec_of_nat (m div 10) = dec_of_nat (n div 10) \<longleftrightarrow> m div 10 = n div 10" by (metis dec_val_dec_of_nat)
    have "dec_of_nat m < dec_of_nat n \<longleftrightarrow> m div 10 < n div 10 \<or> (m div 10 = n div 10 \<and> m mod 10 < n mod 10)"
      using False n l c e 1(1) [OF False l] by (simp add: dec_of_nat.simps [of m] dec_of_nat.simps [of n] append_less_iff)
    then show ?thesis by (simp only: digit_less [of m n])
  qed
qed

lemma two_digits_eq:
  assumes "n < 100"
  shows "two_digits n = [chr (48 + n div 10), chr (48 + n mod 10)]"
proof -
  have "n div 10 < 10" using assms by auto
  moreover have "CHR ''0'' = char_of (48 :: nat)" by code_simp
  moreover have "n div 10 = 0 \<and> n mod 10 = n" if "n < 10" using that by simp
  ultimately show ?thesis
    by (auto simp: two_digits_def dec_of_nat.simps [of n] dec_of_nat.simps [of "n div 10"] chr_def simp del: div_less mod_less)
qed

lemma length_two_digits: "n < 100 \<Longrightarrow> length (two_digits n) = 2"
  by (simp add: two_digits_eq)

lemma two_digits_less:
  assumes "m < 100" and "n < 100"
  shows "two_digits m < two_digits n \<longleftrightarrow> m < n"
proof -
  have d: "m div 10 < 10" "n div 10 < 10" using assms by auto
  have "chr (48 + m div 10) = chr (48 + n div 10) \<longleftrightarrow> m div 10 = n div 10"
    using d by (simp add: chr_inject)
  then show ?thesis
    using d by (simp add: two_digits_eq assms chr_less digit_less [of m n])
qed

lemma two_digits_inject: "m < 100 \<Longrightarrow> n < 100 \<Longrightarrow> two_digits m = two_digits n \<longleftrightarrow> m = n"
  by (metis two_digits_less less_irrefl linorder_neqE_nat)

lemma length_year:
  assumes "1000 \<le> n" and "n < 10000"
  shows "length (dec_of_nat n) = 4"
proof -
  have "n div 10 div 10 div 10 < 10" "\<not> n div 10 div 10 < 10" "\<not> n div 10 < 10" "\<not> n < 10" using assms by auto
  then show ?thesis
    by (simp only: length_dec_of_nat [of n] length_dec_of_nat [of "n div 10"] length_dec_of_nat [of "n div 10 div 10"]
        length_dec_of_nat [of "n div 10 div 10 div 10"]) simp
qed

text \<open>The names of two times are in the order of the times.\<close>

lemma tm_key_less:
  assumes "valid_tm s" and "valid_tm t"
  shows "tm_key s < tm_key t \<longleftrightarrow> tm_year s < tm_year t \<or> (tm_year s = tm_year t \<and> (tm_mon s < tm_mon t \<or> (tm_mon s = tm_mon t \<and>
    (tm_mday s < tm_mday t \<or> (tm_mday s = tm_mday t \<and> (tm_hour s < tm_hour t \<or> (tm_hour s = tm_hour t \<and> tm_min s < tm_min t)))))))"
proof -
  define y where "y u = nat (tm_year u + 900)" for u :: tm
  define key where "key u = 60 * (24 * (32 * (12 * y u + tm_mon u) + tm_mday u) + tm_hour u) + tm_min u" for u :: tm
  have k: "tm_key u = int (key u) - 60 * 24 * 32 * 12 * 900" if "valid_tm u" for u
    using that by (simp add: key_def y_def tm_key_def valid_tm_def)
  have m: "tm_min s < 60" "tm_min t < 60" and h: "tm_hour s < 24" "tm_hour t < 24" and d: "tm_mday s < 32" "tm_mday t < 32"
    and mo: "tm_mon s < 12" "tm_mon t < 12"
    using assms by (auto simp: valid_tm_def)
  have y: "y s < y t \<longleftrightarrow> tm_year s < tm_year t" "y s = y t \<longleftrightarrow> tm_year s = tm_year t"
    using assms by (auto simp: y_def valid_tm_def)
  have "tm_key s < tm_key t \<longleftrightarrow> key s < key t" using assms by (simp add: k)
  also have "\<dots> \<longleftrightarrow> y s < y t \<or> (y s = y t \<and> (tm_mon s < tm_mon t \<or> (tm_mon s = tm_mon t \<and>
    (tm_mday s < tm_mday t \<or> (tm_mday s = tm_mday t \<and> (tm_hour s < tm_hour t \<or> (tm_hour s = tm_hour t \<and> tm_min s < tm_min t)))))))"
    using m h d mo unfolding key_def by (simp only: radix_less radix_eq)  blast
  finally show ?thesis by (simp only: y)
qed

lemma iso_name_less:
  assumes "valid_tm s" and "valid_tm t"
  shows "iso_name s < iso_name t \<longleftrightarrow> tm_key s < tm_key t"
proof -
  have y: "dec_of_int (tm_year u + 1900) = dec_of_nat (nat (tm_year u + 1900))" "length (dec_of_nat (nat (tm_year u + 1900))) = 4"
    if "valid_tm u" for u
    using that by (auto simp: valid_tm_def dec_of_int_def intro!: length_year)
  have f: "tm_mon u + 1 < 100" "tm_mday u < 100" "tm_hour u < 100" "tm_min u < 100" if "valid_tm u" for u
    using that by (auto simp: valid_tm_def)
  have e: "dec_of_nat m = dec_of_nat n \<longleftrightarrow> m = n" for m n by (metis dec_val_dec_of_nat)
  have yr: "nat (tm_year s + 1900) < nat (tm_year t + 1900) \<longleftrightarrow> tm_year s < tm_year t"
    "nat (tm_year s + 1900) = nat (tm_year t + 1900) \<longleftrightarrow> tm_year s = tm_year t" "0 < tm_year t + 1900"
    using assms by (auto simp: valid_tm_def)
  show ?thesis
    using f [OF assms(1)] f [OF assms(2)]
    by (simp add: iso_name_def y assms append_less_iff dec_of_nat_less e yr length_two_digits two_digits_less two_digits_inject tm_key_less)
qed

section \<open>The oldest dumps go\<close>

text \<open>A directory that \<^verbatim>\<open>save_dump\<close> made at a time, and the place in time that its name tells.\<close>

definition named_by_time :: "(int \<Rightarrow> tm option) \<Rightarrow> int \<Rightarrow> string \<Rightarrow> bool" where
  "named_by_time localtime value name \<longleftrightarrow>
     (case localtime value of
        None \<Rightarrow> False
      | Some t \<Rightarrow> valid_tm t \<and> formatUnixTime localtime ISO_DATETIME_FORMAT value = Inr name)"

definition time_key :: "(int \<Rightarrow> tm option) \<Rightarrow> int \<Rightarrow> int" where
  "time_key localtime value = (case localtime value of None \<Rightarrow> 0 | Some t \<Rightarrow> tm_key t)"

lemma named_less:
  assumes "named_by_time localtime s m" and "named_by_time localtime t n"
  shows "m < n \<longleftrightarrow> time_key localtime s < time_key localtime t"
proof -
  obtain a b where a: "localtime s = Some a" "valid_tm a" "m = iso_name a" and b: "localtime t = Some b" "valid_tm b" "n = iso_name b"
    using assms by (auto simp: named_by_time_def formatUnixTime_def iso_format split: option.splits if_splits)
  then show ?thesis by (simp add: iso_name_less time_key_def)
qed

lemma delete_one_oldest:
  assumes "op_rmdir ops = log_rmdir" and "m_protocol url = PROT_FILE" and "op_exists ops w (getRealPath url)"
    and "kdump_dirs ops w (getRealPath url) = Inr v" and "0 \<le> k" and "k \<le> int (length v)"
    and named: "\<forall>name \<in> set v. named_by_time localtime (saved name) name"
  shows "\<exists>old new. v = old @ new \<and> int (length new) = k \<and>
    (\<forall>x \<in> set old. \<forall>y \<in> set new. time_key localtime (saved x) \<le> time_key localtime (saved y)) \<and>
    delete_one ops False url k w = (w @ map (appendPath (getRealPath url)) old, Inr ())"
proof -
  obtain old new where v: "v = old @ new" "int (length new) = k" "\<forall>x \<in> set old. \<forall>y \<in> set new. x \<le> y"
    and d: "delete_one ops False url k w = (w @ map (appendPath (getRealPath url)) old, Inr ())"
    using delete_one_keeps_newest [OF assms(1-6)] by blast
  have "time_key localtime (saved x) \<le> time_key localtime (saved y)" if "x \<in> set old" "y \<in> set new" for x y
  proof (rule ccontr)
    assume "\<not> time_key localtime (saved x) \<le> time_key localtime (saved y)"
    then have "y < x" using named_less [of localtime "saved y" y "saved x" x] named that v(1) by simp
    then show False using v(3) that by (meson leD)
  qed
  with v d show ?thesis by blast
qed

end
