(* ===== verification/SysUtil.thy ===== *)
theory SysUtil
  imports DumpTime SaveDump KernelImage
begin

text \<open>
  What \<^verbatim>\<open>util.cc\<close>, \<^verbatim>\<open>fileutil.cc\<close> and \<^verbatim>\<open>charv.cc\<close> ask of the system: its names, file sizes, descriptors, and the step into the background.
\<close>

section \<open>The names of the system\<close>

record utsname =
  ut_nodename :: string
  ut_release :: string
  ut_machine :: string
  ut_domainname :: string

definition util_getArch :: "errno + utsname \<Rightarrow> string res" where
  "util_getArch uname = (case uname of Inl e \<Rightarrow> Inl (KSystemError ''uname failed'' e) | Inr u \<Rightarrow> Inr (archOfMachine (ut_machine u)))"

definition util_getKernelRelease :: "errno + utsname \<Rightarrow> string res" where
  "util_getKernelRelease uname = (case uname of Inl e \<Rightarrow> Inl (KSystemError ''uname failed'' e) | Inr u \<Rightarrow> Inr (ut_release u))"

definition getHostDomain :: "errno + utsname \<Rightarrow> string res" where
  "getHostDomain uname =
     (case uname of
        Inl e \<Rightarrow> Inl (KSystemError ''uname() failed.'' e)
      | Inr u \<Rightarrow> Inr (if ut_domainname u = [] then ut_nodename u else ut_nodename u @ ''.'' @ ut_domainname u))"

text \<open>\<open>Util::getenv\<close>, with what it stores in \<open>isDefault\<close>.\<close>

definition util_getenv :: "(string \<Rightarrow> string option) \<Rightarrow> string \<Rightarrow> string \<Rightarrow> string \<times> bool" where
  "util_getenv environ env defaultValue = (case environ env of None \<Rightarrow> (defaultValue, True) | Some ret \<Rightarrow> (ret, False))"

section \<open>Files and file systems\<close>

record statfs =
  f_bfree :: "64 word"
  f_bsize :: "64 word"

record file_stat =
  st_mode :: "32 word"
  st_size :: "64 word"

record stat_ops =
  st_access :: "string \<Rightarrow> bool"
  st_lstat :: "string \<Rightarrow> errno + file_stat"
  st_stat :: "string \<Rightarrow> errno + file_stat"
  st_statfs :: "string \<Rightarrow> errno + statfs"
  st_getcwd :: "errno + string"

definition path_exists :: "stat_ops \<Rightarrow> string \<Rightarrow> bool" where "path_exists ops path = st_access ops path"

definition S_IFMT :: "32 word" where "S_IFMT = 0xF000"
definition S_IFLNK :: "32 word" where "S_IFLNK = 0xA000"

definition isSymlink :: "stat_ops \<Rightarrow> string \<Rightarrow> bool res" where
  "isSymlink ops path =
     (case st_lstat ops path of
        Inl e \<Rightarrow> Inl (KSystemError (''Stat failed on '' @ path) e)
      | Inr st \<Rightarrow> Inr (and (st_mode st) S_IFMT = S_IFLNK))"

definition freeDiskSize :: "stat_ops \<Rightarrow> string \<Rightarrow> 64 word res" where
  "freeDiskSize ops path =
     (case st_statfs ops path of
        Inl e \<Rightarrow> Inl (KSystemError (''statfs() on '' @ path @ '' failed.'') e)
      | Inr st \<Rightarrow> Inr (f_bfree st * f_bsize st))"

definition fileSize :: "stat_ops \<Rightarrow> string \<Rightarrow> 64 word res" where
  "fileSize ops path =
     (case st_stat ops path of
        Inl e \<Rightarrow> Inl (KSystemError (''stat() on '' @ path @ '' failed.'') e)
      | Inr st \<Rightarrow> Inr (st_size st))"

definition getcwd :: "stat_ops \<Rightarrow> string res" where
  "getcwd ops = (case st_getcwd ops of Inl e \<Rightarrow> Inl (KSystemError ''getcwd failed'' e) | Inr cwd \<Rightarrow> Inr cwd)"

section \<open>Descriptors\<close>

text \<open>The descriptors of the process: what each number names, if it is open. A new one takes the lowest free number.\<close>

type_synonym 'o descriptors = "'o option list"

fun open_fd :: "'o \<Rightarrow> 'o descriptors \<Rightarrow> nat \<times> 'o descriptors" where
  "open_fd obj [] = (0, [Some obj])"
| "open_fd obj (None # fds) = (0, Some obj # fds)"
| "open_fd obj (Some other # fds) = (case open_fd obj fds of (n, fds1) \<Rightarrow> (Suc n, Some other # fds1))"

definition close_fd :: "nat \<Rightarrow> 'o descriptors \<Rightarrow> 'o descriptors" where
  "close_fd fd fds = fds[fd := None]"

definition FileDescriptor :: "string \<Rightarrow> errno + 'o \<Rightarrow> 'o descriptors \<Rightarrow> nat res \<times> 'o descriptors" where
  "FileDescriptor path result fds =
     (case result of
        Inl e \<Rightarrow> (Inl (KSystemError (''Cannot open '' @ path) e), fds)
      | Inr obj \<Rightarrow> (case open_fd obj fds of (fd, fds1) \<Rightarrow> (Inr fd, fds1)))"

definition FileDescriptor_end :: "int \<Rightarrow> 'o descriptors \<Rightarrow> 'o descriptors" where
  "FileDescriptor_end fd fds = (if 0 \<le> fd then close_fd (nat fd) fds else fds)"

text \<open>\<open>Util::isGzipFile\<close> and \<open>Util::isElfFile\<close> of a path: the descriptor lives as long as the call, also when it throws.\<close>

definition with_descriptor :: "('o \<Rightarrow> 'a res) \<Rightarrow> string \<Rightarrow> errno + 'o \<Rightarrow> 'o descriptors \<Rightarrow> 'a res \<times> 'o descriptors" where
  "with_descriptor check path result fds =
     (case FileDescriptor path result fds of
        (Inl e, fds1) \<Rightarrow> (Inl e, fds1)
      | (Inr fd, fds1) \<Rightarrow> (case fds1 ! fd of
          None \<Rightarrow> (Inl (Undefined ''descriptor not open''), fds1)
        | Some obj \<Rightarrow> (check obj, FileDescriptor_end (int fd) fds1)))"

definition isGzipFile_path :: "string \<Rightarrow> errno + kernel_fd \<Rightarrow> kernel_fd descriptors \<Rightarrow> bool res \<times> kernel_fd descriptors" where
  "isGzipFile_path = with_descriptor isGzipFile"

definition isElfFile_path :: "string \<Rightarrow> errno + kernel_fd \<Rightarrow> kernel_fd descriptors \<Rightarrow> bool res \<times> kernel_fd descriptors" where
  "isElfFile_path = with_descriptor isElfFile"

lemma open_fd_get: "open_fd obj fds = (fd, fds1) \<Longrightarrow> fd < length fds1 \<and> fds1 ! fd = Some obj"
  by (induction obj fds arbitrary: fd fds1 rule: open_fd.induct) (auto split: prod.splits)

text \<open>A descriptor that is opened and closed again leaves the table as it was, up to a closed entry at its end.\<close>

lemma open_close_fd: "open_fd obj fds = (fd, fds1) \<Longrightarrow> close_fd fd fds1 = fds \<or> close_fd fd fds1 = fds @ [None]"
  by (induction obj fds arbitrary: fd fds1 rule: open_fd.induct) (auto simp: close_fd_def split: prod.splits)

lemma with_descriptor_closes:
  "snd (with_descriptor check path result fds) = fds \<or> snd (with_descriptor check path result fds) = fds @ [None]"
proof (cases result)
  case (Inr obj)
  obtain fd fds1 where o: "open_fd obj fds = (fd, fds1)" by fastforce
  show ?thesis
    using open_fd_get [OF o] open_close_fd [OF o]
    by (auto simp: with_descriptor_def FileDescriptor_def FileDescriptor_end_def Inr o)
qed (simp add: with_descriptor_def FileDescriptor_def)

section \<open>Into the background\<close>

text \<open>
  The process: its descriptors, working directory, file mode mask, and whether it leads a session. The calls answer from \<open>daemon_env\<close>: \<open>fork\<close>
  is what it returns to this process, with its \<^verbatim>\<open>errno\<close>.
\<close>

record 'o process =
  pr_fds :: "'o descriptors"
  pr_cwd :: string
  pr_umask :: nat
  pr_leader :: bool

record daemon_env =
  dm_fork :: "int \<times> errno"
  dm_setsid :: "errno option"
  dm_chdir :: "errno option"
  dm_open_max :: int

datatype outcome = Exits int | Continues "unit res"

fun close_down :: "nat \<Rightarrow> 'o descriptors \<Rightarrow> 'o descriptors" where
  "close_down 0 fds = fds"
| "close_down (Suc i) fds = close_down i (close_fd (Suc i) fds)"

definition daemonize :: "daemon_env \<Rightarrow> 'o process \<Rightarrow> outcome \<times> 'o process" where
  "daemonize env p =
     (if fst (dm_fork env) \<noteq> 0 then (Exits 0, p)
      else if fst (dm_fork env) < 0 then (Continues (Inl (KSystemError ''fork() failed.'' (snd (dm_fork env)))), p)
      else
        (case dm_setsid env of
           Some e \<Rightarrow> (Continues (Inl (KSystemError ''Cannot become session leader.'' e)), p)
         | None \<Rightarrow>
             (let p1 = p\<lparr>pr_leader := True\<rparr>
              in case dm_chdir env of
                   Some e \<Rightarrow> (Continues (Inl (KSystemError ''chdir(/) failed'' e)), p1)
                 | None \<Rightarrow> (Continues (Inr ()),
                     p1\<lparr>pr_cwd := ''/'', pr_umask := 0, pr_fds := close_down (nat (dm_open_max env)) (pr_fds p)\<rparr>))))"

lemma length_close_down [simp]: "length (close_down n fds) = length fds"
  by (induction n arbitrary: fds) (simp_all add: close_fd_def)

lemma close_down_nth:
  "k < length fds \<Longrightarrow> close_down n fds ! k = (if 1 \<le> k \<and> k \<le> n then None else fds ! k)"
  by (induction n arbitrary: fds) (auto simp: close_fd_def nth_list_update)

text \<open>The loop stops at 1: descriptor 0 stays, all others up to the limit are closed.\<close>

lemma close_down_all:
  assumes "length fds \<le> n + 1"
  shows "close_down n fds = take 1 fds @ replicate (length fds - 1) None"
proof (rule nth_equalityI)
  fix k assume "k < length (close_down n fds)"
  then show "close_down n fds ! k = (take 1 fds @ replicate (length fds - 1) None) ! k"
    using assms by (auto simp: close_down_nth nth_append)
qed (cases fds, auto)

text \<open>The next two files that are opened are those that the program prints on.\<close>

lemma open_after_daemonize:
  assumes "fds \<noteq> []" and "hd fds \<noteq> None" and "length fds \<le> n + 1"
  shows "fst (open_fd a (close_down n fds)) = 1" "fst (open_fd b (snd (open_fd a (close_down n fds)))) = 2"
proof -
  obtain x xs where fds: "fds = Some x # xs" using assms(1,2) by (cases fds) auto
  have c: "close_down n fds = Some x # replicate (length xs) None" using close_down_all [OF assms(3)] by (simp add: fds)
  show "fst (open_fd a (close_down n fds)) = 1" by (cases xs) (simp_all add: c)
  show "fst (open_fd b (snd (open_fd a (close_down n fds)))) = 2"
    by (cases xs; cases "tl xs") (simp_all add: c)
qed

section \<open>Arrays of C strings\<close>

text \<open>\<open>CharV::data\<close>: a copy of each string in an array of its own, and the array of their addresses (the numbers of the arrays) with a null at its end.\<close>

definition strcpy :: "string \<Rightarrow> string \<Rightarrow> string" where
  "strcpy dest src = (let s = takeWhile (\<lambda>c. c \<noteq> NUL) src @ [NUL] in s @ drop (length s) dest)"

definition charv_unique :: "(nat \<Rightarrow> string) \<Rightarrow> string list \<Rightarrow> string list" where
  "charv_unique fresh v = map (\<lambda>it. strcpy (fresh (length it + 1)) it) v"

definition charv_array :: "string list \<Rightarrow> nat option list" where
  "charv_array unique = map Some [0..<length unique] @ [None]"

fun read_argv :: "string list \<Rightarrow> nat option list \<Rightarrow> string list res" where
  "read_argv mem [] = Inl (Undefined ''array of strings without a null'')"
| "read_argv mem (None # ps) = Inr []"
| "read_argv mem (Some p # ps) =
     (if p < length mem \<and> NUL \<in> set (mem ! p)
      then res_bind (read_argv mem ps) (\<lambda>rest. Inr (takeWhile (\<lambda>c. c \<noteq> NUL) (mem ! p) # rest))
      else Inl (Undefined ''string without end''))"

lemma strcpy_read: "NUL \<in> set (strcpy dest src)" "takeWhile (\<lambda>c. c \<noteq> NUL) (strcpy dest src) = takeWhile (\<lambda>c. c \<noteq> NUL) src"
proof -
  show "NUL \<in> set (strcpy dest src)" by (simp add: strcpy_def Let_def)
  have "takeWhile (\<lambda>c. c \<noteq> NUL) (takeWhile (\<lambda>c. c \<noteq> NUL) src @ NUL # rest) = takeWhile (\<lambda>c. c \<noteq> NUL) src" for rest
    by (subst takeWhile_append2) (auto dest: set_takeWhileD)
  then show "takeWhile (\<lambda>c. c \<noteq> NUL) (strcpy dest src) = takeWhile (\<lambda>c. c \<noteq> NUL) src" by (simp add: strcpy_def Let_def)
qed

lemma read_argv_map:
  "set ps \<subseteq> {..<length mem} \<Longrightarrow> \<forall>p \<in> set ps. NUL \<in> set (mem ! p) \<Longrightarrow>
   read_argv mem (map Some ps @ [None]) = Inr (map (\<lambda>p. takeWhile (\<lambda>c. c \<noteq> NUL) (mem ! p)) ps)"
  by (induction ps) auto

text \<open>Each string is read up to its first NUL.\<close>

lemma read_charv:
  "read_argv (charv_unique fresh v) (charv_array (charv_unique fresh v)) = Inr (map (takeWhile (\<lambda>c. c \<noteq> NUL)) v)"
proof -
  have n: "charv_unique fresh v ! p = strcpy (fresh (length (v ! p) + 1)) (v ! p)" if "p < length v" for p
    using that by (simp add: charv_unique_def)
  have l: "length (charv_unique fresh v) = length v" by (simp add: charv_unique_def)
  have "read_argv (charv_unique fresh v) (charv_array (charv_unique fresh v)) =
      Inr (map (\<lambda>p. takeWhile (\<lambda>c. c \<noteq> NUL) (charv_unique fresh v ! p)) [0..<length v])"
    unfolding charv_array_def l by (rule read_argv_map) (auto simp: l n strcpy_read)
  also have "\<dots> = Inr (map (takeWhile (\<lambda>c. c \<noteq> NUL)) v)"
    by (rule arg_cong [of _ _ Inr], rule nth_equalityI) (simp_all add: n strcpy_read)
  finally show ?thesis .
qed

end
