(* ===== verification/KdumpTool.thy ===== *)
theory KdumpTool
  imports Configuration StateExn SysUtil
begin

text \<open>
  \<^verbatim>\<open>kdumptool/option.cc\<close>, \<^verbatim>\<open>optionparser.cc\<close>, \<^verbatim>\<open>subcommand.cc\<close>, \<^verbatim>\<open>kdumptool.cc\<close> and \<^verbatim>\<open>main.cc\<close>: the command line, the choice of
  the subcommand, and the exit code. \<^verbatim>\<open>getopt_long\<close> is a parameter: from the option string, the long options and the
  arguments to the options it returns one after the other, the final \<^verbatim>\<open>optind\<close> and the permuted arguments.
\<close>

section \<open>Options\<close>

datatype option_kind = FlagOption | StringOption | IntOption

record cmd_option =
  op_name :: string
  op_letter :: char
  op_kind :: option_kind
  op_description :: string

text \<open>The option string and the long option (name, argument, letter) for \<^verbatim>\<open>getopt_long\<close>.\<close>

definition getoptArgs :: "cmd_option \<Rightarrow> string \<times> (string \<times> bool \<times> char)" where
  "getoptArgs opt =
     (case op_kind opt of
        FlagOption \<Rightarrow> ([op_letter opt], (op_name opt, False, op_letter opt))
      | StringOption \<Rightarrow> ([op_letter opt, CHR '':''], (op_name opt, True, op_letter opt))
      | IntOption \<Rightarrow> ([op_letter opt, CHR '':''], (op_name opt, True, op_letter opt)))"

fun getPlaceholder :: "option_kind \<Rightarrow> string option" where
  "getPlaceholder FlagOption = None"
| "getPlaceholder StringOption = Some ''<STRING>''"
| "getPlaceholder IntOption = Some ''<NUMBER>''"

text \<open>
  The variables of the options that were set, by their long name. The constructor of \<open>IntOption\<close> does not keep the address of its
  variable.
\<close>

type_synonym opt_store = "string \<Rightarrow> optval option"

definition setValue :: "cmd_option \<Rightarrow> string option \<Rightarrow> opt_store \<Rightarrow> opt_store res" where
  "setValue opt arg store =
     (case op_kind opt of
        FlagOption \<Rightarrow> Inr (store(op_name opt \<mapsto> BoolVal True))
      | StringOption \<Rightarrow>
          (case arg of
             None \<Rightarrow> Inl (Undefined ''StringOption::setValue: no argument'')
           | Some a \<Rightarrow> Inr (store(op_name opt \<mapsto> StringVal a)))
      | IntOption \<Rightarrow> Inl (Undefined ''IntOption::setValue: m_value not set''))"

section \<open>The parser\<close>

type_synonym getopt =
  "string \<Rightarrow> (string \<times> bool \<times> char) list \<Rightarrow> string list \<Rightarrow> (char \<times> string option) list \<times> nat \<times> string list"

fun set_options :: "cmd_option list \<Rightarrow> (char \<times> string option) list \<Rightarrow> opt_store \<Rightarrow> opt_store res" where
  "set_options opts [] store = Inr store"
| "set_options opts ((c, arg) # rs) store =
     (case find (\<lambda>opt. op_letter opt = c) opts of
        None \<Rightarrow> Inl (KError ''Invalid command line option'')
      | Some opt \<Rightarrow> res_bind (setValue opt arg store) (set_options opts rs))"

definition parsePartial ::
    "getopt \<Rightarrow> string list \<Rightarrow> cmd_option list \<Rightarrow> bool \<Rightarrow> opt_store \<Rightarrow> (opt_store \<times> nat \<times> string list) res"
where
  "parsePartial getopt argv opts rearrange store =
     (case getopt ((if rearrange then [] else ''+'') @ concat (map (fst \<circ> getoptArgs) opts))
             (map (snd \<circ> getoptArgs) opts) argv of
        (rs, optind, argv') \<Rightarrow> res_bind (set_options opts rs store) (\<lambda>st. Inr (st, optind, argv')))"

text \<open>A subcommand; its object after \<open>parseArgs\<close> is the state that is executed, with the error code it leaves.\<close>

record 's subcommand =
  sub_name :: string
  sub_options :: "cmd_option list"
  sub_needsConfigfile :: bool
  sub_parseArgs :: "opt_store \<Rightarrow> string list \<Rightarrow> 's res"
  sub_execute :: "'s \<Rightarrow> configuration \<Rightarrow> unit res \<times> int"

definition addSubcommands :: "'s subcommand list \<Rightarrow> (string \<times> 's subcommand) list" where
  "addSubcommands subcommands = foldl (\<lambda>m s. smap_insert (sub_name s) s m) [] subcommands"

text \<open>The global variables, and the subcommand with its parsed object when there is one.\<close>

definition parse_cmdline ::
    "getopt \<Rightarrow> cmd_option list \<Rightarrow> (string \<times> 's subcommand) list \<Rightarrow> string list \<Rightarrow> (opt_store \<times> ('s subcommand \<times> 's) option) res"
where
  "parse_cmdline getopt globalOptions subcommands argv =
     res_bind (parsePartial getopt argv globalOptions False (\<lambda>_. None)) (\<lambda>(st, i, argv').
       if i < length argv'
       then (case map_of subcommands (argv' ! i) of
               None \<Rightarrow> Inl (KError (''Subcommand '' @ argv' ! i @ '' does not exist.''))
             | Some sub \<Rightarrow>
                 res_bind (parsePartial getopt (drop i argv') (sub_options sub) True (\<lambda>_. None)) (\<lambda>(sub_st, j, args).
                 res_bind (sub_parseArgs sub sub_st (drop j args)) (\<lambda>s. Inr (st, Some (sub, s)))))
       else Inr (st, None))"

section \<open>Help\<close>

definition printHelpForOption :: "string \<Rightarrow> cmd_option \<Rightarrow> string" where
  "printHelpForOption indent opt =
     (let p = getPlaceholder (op_kind opt)
      in indent @ ''--'' @ op_name opt @ (case p of None \<Rightarrow> [] | Some s \<Rightarrow> ''='' @ s) @
         '' | -'' @ [op_letter opt] @ (case p of None \<Rightarrow> [] | Some s \<Rightarrow> '' '' @ s) @ [NL] @
         indent @ ''     '' @ op_description opt @ [NL])"

definition printHelpForOptionList :: "string \<Rightarrow> cmd_option list \<Rightarrow> string" where
  "printHelpForOptionList indent opts = concat (map (printHelpForOption indent) opts)"

definition printHelp :: "cmd_option list \<Rightarrow> (string \<times> 's subcommand) list \<Rightarrow> string \<Rightarrow> string" where
  "printHelp globalOptions subcommands name =
     name @ [NL, NL] @
     (if subcommands \<noteq> []
      then ''Subcommands'' @ [NL] @ concat (map (\<lambda>(n, _). NL # ''   * '' @ n @ [NL]) subcommands) @ [NL, NL] @
           ''Global options'' @ [NL, NL]
      else []) @
     printHelpForOptionList ''   '' globalOptions @
     (if subcommands \<noteq> [] then [NL] else []) @
     concat (map (\<lambda>(n, sub). ''Options for '' @ n @ '':'' @ [NL, NL] @
       printHelpForOptionList ''   '' (sub_options sub) @ [NL]) subcommands)"

section \<open>The tool\<close>

definition PROGRAM_VERSION_STRING :: string where "PROGRAM_VERSION_STRING = ''kdumptool 0.9.1''"
definition DEFAULT_CONFIG :: string where "DEFAULT_CONFIG = ''/etc/sysconfig/kdump''"

definition global_options :: "cmd_option list" where
  "global_options =
     [\<lparr>op_name = ''help'', op_letter = CHR ''h'', op_kind = FlagOption, op_description = ''Print help output''\<rparr>,
      \<lparr>op_name = ''version'', op_letter = CHR ''v'', op_kind = FlagOption,
        op_description = ''Print version information and exit''\<rparr>,
      \<lparr>op_name = ''background'', op_letter = CHR ''b'', op_kind = FlagOption,
        op_description = ''Run in the background (daemon mode)''\<rparr>,
      \<lparr>op_name = ''debug'', op_letter = CHR ''D'', op_kind = FlagOption, op_description = ''Print debugging output''\<rparr>,
      \<lparr>op_name = ''logfile'', op_letter = CHR ''L'', op_kind = StringOption,
        op_description = ''Use the specified logfile for debugging output''\<rparr>,
      \<lparr>op_name = ''configfile'', op_letter = CHR ''F'', op_kind = StringOption,
        op_description = ''Use the specified configuration file instead of '' @ DEFAULT_CONFIG\<rparr>,
      \<lparr>op_name = ''cmdline'', op_letter = CHR ''C'', op_kind = StringOption,
        op_description = ''Also parse kernel parameters from a given file (e.g. /proc/cmdline)''\<rparr>]"

definition flag_set :: "opt_store \<Rightarrow> string \<Rightarrow> bool" where
  "flag_set st name \<longleftrightarrow> st name = Some (BoolVal True)"

definition string_or :: "opt_store \<Rightarrow> string \<Rightarrow> string \<Rightarrow> string" where
  "string_or st name dflt = (case st name of Some (StringVal s) \<Rightarrow> s | _ \<Rightarrow> dflt)"

definition printVersion :: "bool \<Rightarrow> string" where
  "printVersion esmtp =
     PROGRAM_VERSION_STRING @ [NL] @ ''Features: '' @ ''SFTP: '' @ ''enabled'' @ '' - '' @
     ''SMTP: '' @ (if esmtp then ''enabled'' else ''disabled'') @ [NL]"

text \<open>What the tool does with its command line: print and exit with success, or run a subcommand.\<close>

datatype 's tool_action = Exit string | Run "'s subcommand" 's opt_store

definition parseCommandline :: "getopt \<Rightarrow> bool \<Rightarrow> 's subcommand list \<Rightarrow> string list \<Rightarrow> 's tool_action res" where
  "parseCommandline getopt esmtp subs argv =
     (let subcommands = addSubcommands subs
      in res_bind (parse_cmdline getopt global_options subcommands argv) (\<lambda>(st, sub).
           if flag_set st ''help'' then Inr (Exit (printHelp global_options subcommands PROGRAM_VERSION_STRING))
           else if flag_set st ''version'' then Inr (Exit (printVersion esmtp))
           else case sub of
                  None \<Rightarrow> Inl (KError ''You must provide a subcommand.'')
                | Some (s, obj) \<Rightarrow> Inr (Run s obj st)))"

record tool_env =
  te_getopt :: getopt
  te_esmtp :: bool
  te_files :: "string \<Rightarrow> errno + string"
  te_sh :: "string \<Rightarrow> string"
  te_daemon :: daemon_env
  te_process :: "unit process"
  te_message :: "kerror \<Rightarrow> string"

definition readConfiguration :: "tool_env \<Rightarrow> opt_store \<Rightarrow> 's subcommand \<Rightarrow> configuration res" where
  "readConfiguration env st sub =
     (if sub_needsConfigfile sub
      then res_bind (readFile (te_files env) (te_sh env) (string_or st ''configfile'' DEFAULT_CONFIG) configuration_new) (\<lambda>config.
             let cmdline = string_or st ''cmdline'' []
             in if cmdline \<noteq> [] then readCmdLine (te_files env) cmdline config else Inr config)
      else Inr configuration_new)"

text \<open>
  With \<^verbatim>\<open>-b\<close> the tool goes into the background first, where the launching process exits; otherwise what the subcommand
  returned or threw, and the error code it left.
\<close>

definition tool_execute :: "tool_env \<Rightarrow> opt_store \<Rightarrow> 's subcommand \<Rightarrow> 's \<Rightarrow> configuration \<Rightarrow> outcome \<times> int" where
  "tool_execute env st sub obj config =
     (let run = (case sub_execute sub obj config of (r, code) \<Rightarrow> (Continues r, code))
      in if flag_set st ''background''
         then (case fst (daemonize (te_daemon env) (te_process env)) of
                 Exits c \<Rightarrow> (Exits c, 0)
               | Continues (Inl e) \<Rightarrow> (Continues (Inl e), 0)
               | Continues (Inr _) \<Rightarrow> run)
         else run)"

text \<open>
  \<open>main\<close>: what goes to standard error and the value returned. Without a subcommand the error code is 0. Undefined behaviour has no
  exit code.
\<close>

definition report :: "tool_env \<Rightarrow> kerror \<Rightarrow> int \<Rightarrow> (string \<times> int) res" where
  "report env e code =
     (let failed = (\<lambda>text. Inr (text @ [NL], if code = 0 then -1 else code))
      in case e of
           Undefined u \<Rightarrow> Inl (Undefined u)
         | _ \<Rightarrow> failed ((if is_kerror e then [] else ''Fatal exception: '') @ te_message env e))"

definition kdumptool_main :: "tool_env \<Rightarrow> 's subcommand list \<Rightarrow> string list \<Rightarrow> (string \<times> int) res" where
  "kdumptool_main env subs argv =
     (case parseCommandline (te_getopt env) (te_esmtp env) subs argv of
        Inl e \<Rightarrow> report env e 0
      | Inr (Exit text) \<Rightarrow> Inr (text, 0)
      | Inr (Run sub obj st) \<Rightarrow>
          (case readConfiguration env st sub of
             Inl e \<Rightarrow> report env e 0
           | Inr config \<Rightarrow>
               (case tool_execute env st sub obj config of
                  (Exits c, _) \<Rightarrow> Inr ([], c)
                | (Continues (Inl e), code) \<Rightarrow> report env e code
                | (Continues (Inr _), code) \<Rightarrow> Inr ([], code))))"

section \<open>Which option is set\<close>

lemma set_options_last:
  assumes "set_options opts rs store = Inr st" and "distinct (map op_letter opts)" and "distinct (map op_name opts)"
    and "opt \<in> set opts" and "op_kind opt = StringOption"
  shows "st (op_name opt) =
    (case filter (\<lambda>(c, arg). c = op_letter opt) rs of
       [] \<Rightarrow> store (op_name opt) | xs \<Rightarrow> Some (StringVal (the (snd (last xs)))))"
  using assms(1)
proof (induction rs arbitrary: store)
  case (Cons r rs)
  obtain c arg where r: "r = (c, arg)" by fastforce
  from Cons.prems obtain o' st' where o: "find (\<lambda>opt. op_letter opt = c) opts = Some o'"
    and s: "setValue o' arg store = Inr st'" and run: "set_options opts rs st' = Inr st"
    by (auto simp: r res_bind_eq_Inr_iff split: option.splits)
  have o': "o' \<in> set opts" "op_letter o' = c" using o by (auto simp: find_Some_iff)
  show ?case
  proof (cases "c = op_letter opt")
    case True
    then have "o' = opt" using o' assms(2,4) by (auto simp: distinct_map inj_on_def)
    then show ?thesis
      using Cons.IH [OF run] s assms(5) True by (auto simp: r setValue_def split: option.splits list.splits)
  next
    case False
    then have "o' \<noteq> opt" using o' by auto
    then have "op_name o' \<noteq> op_name opt" using o' assms(3,4) by (auto simp: distinct_map inj_on_def)
    then have "st' (op_name opt) = store (op_name opt)"
      using s by (auto simp: setValue_def split: option.splits option_kind.splits)
    then show ?thesis
      using Cons.IH [OF run] False unfolding r by (simp only: filter.simps case_prod_conv if_False)
  qed
qed simp

lemma set_options_flag:
  assumes "set_options opts rs store = Inr st" and "distinct (map op_letter opts)" and "distinct (map op_name opts)"
    and "opt \<in> set opts" and "op_kind opt = FlagOption"
  shows "st (op_name opt) = (if op_letter opt \<in> fst ` set rs then Some (BoolVal True) else store (op_name opt))"
  using assms(1)
proof (induction rs arbitrary: store)
  case (Cons r rs)
  obtain c arg where r: "r = (c, arg)" by fastforce
  from Cons.prems obtain o' st' where o: "find (\<lambda>opt. op_letter opt = c) opts = Some o'"
    and s: "setValue o' arg store = Inr st'" and run: "set_options opts rs st' = Inr st"
    by (auto simp: r res_bind_eq_Inr_iff split: option.splits)
  have o': "o' \<in> set opts" "op_letter o' = c" using o by (auto simp: find_Some_iff)
  show ?case
  proof (cases "c = op_letter opt")
    case True
    then have "o' = opt" using o' assms(2,4) by (auto simp: distinct_map inj_on_def)
    then show ?thesis using Cons.IH [OF run] s assms(5) True by (auto simp: r setValue_def)
  next
    case False
    then have "o' \<noteq> opt" using o' by auto
    then have "op_name o' \<noteq> op_name opt" using o' assms(3,4) by (auto simp: distinct_map inj_on_def)
    then have "st' (op_name opt) = store (op_name opt)"
      using s by (auto simp: setValue_def split: option.splits option_kind.splits)
    then show ?thesis using Cons.IH [OF run] False by (auto simp: r)
  qed
qed simp

lemma global_options_distinct: "distinct (map op_letter global_options)" "distinct (map op_name global_options)"
  by (simp_all add: global_options_def)

text \<open>The value of an \<open>IntOption\<close> has nowhere to go.\<close>

lemma int_option_undefined:
  "op_kind opt = IntOption \<Longrightarrow> find (\<lambda>o'. op_letter o' = op_letter opt) opts = Some opt \<Longrightarrow>
   \<exists>u. set_options opts ((op_letter opt, arg) # rs) store = Inl (Undefined u)"
  by (simp add: setValue_def)

section \<open>The exit code\<close>

text \<open>
  What the process that was started does: it prints what was asked for, it launches the process in the background, it fails
  before the subcommand runs, or it runs the subcommand.
\<close>

datatype tool_course = Informs | Launches | Fails_early | Runs "unit res" int

definition tool_course :: "tool_env \<Rightarrow> 's subcommand list \<Rightarrow> string list \<Rightarrow> tool_course" where
  "tool_course env subs argv =
     (case parseCommandline (te_getopt env) (te_esmtp env) subs argv of
        Inl e \<Rightarrow> Fails_early
      | Inr (Exit text) \<Rightarrow> Informs
      | Inr (Run sub obj st) \<Rightarrow>
          (case readConfiguration env st sub of
             Inl e \<Rightarrow> Fails_early
           | Inr config \<Rightarrow>
               if flag_set st ''background'' \<and> fst (dm_fork (te_daemon env)) \<noteq> 0 then Launches
               else if flag_set st ''background'' \<and> (dm_setsid (te_daemon env) \<noteq> None \<or> dm_chdir (te_daemon env) \<noteq> None)
               then Fails_early
               else (case sub_execute sub obj config of (r, code) \<Rightarrow> Runs r code)))"

lemma report_code: "report env e code = Inr (text, c) \<Longrightarrow> c = (if code = 0 then -1 else code)"
  by (auto simp: report_def Let_def split: kerror.splits if_splits)

lemma daemonize_background:
  "fst (daemonize env p) =
    (if fst (dm_fork env) \<noteq> 0 then Exits 0
     else case dm_setsid env of
            Some e \<Rightarrow> Continues (Inl (KSystemError ''Cannot become session leader.'' e))
          | None \<Rightarrow> (case dm_chdir env of
              Some e \<Rightarrow> Continues (Inl (KSystemError ''chdir(/) failed'' e)) | None \<Rightarrow> Continues (Inr ())))"
  by (simp add: daemonize_def Let_def split: option.split)

lemma tool_execute_course:
  assumes "parseCommandline (te_getopt env) (te_esmtp env) subs argv = Inr (Run sub obj st)"
    and "readConfiguration env st sub = Inr config"
  shows "(case tool_execute env st sub obj config of
      (Exits c, _) \<Rightarrow> c = 0 \<and> tool_course env subs argv = Launches
    | (Continues (Inl e), code) \<Rightarrow>
        tool_course env subs argv = Runs (Inl e) code \<or> code = 0 \<and> tool_course env subs argv = Fails_early
    | (Continues (Inr u), code) \<Rightarrow> tool_course env subs argv = Runs (Inr ()) code)"
proof -
  obtain r code where r: "sub_execute sub obj config = (r, code)" by fastforce
  show ?thesis
    using assms by (cases r) (auto simp: tool_execute_def tool_course_def daemonize_background r Let_def split: option.split)
qed

lemma main_course:
  assumes "kdumptool_main env subs argv = Inr (text, c)"
  shows "c = (case tool_course env subs argv of
      Informs \<Rightarrow> 0
    | Launches \<Rightarrow> 0
    | Fails_early \<Rightarrow> -1
    | Runs r code \<Rightarrow> if code = 0 \<and> r \<noteq> Inr () then -1 else code)"
proof (cases "parseCommandline (te_getopt env) (te_esmtp env) subs argv")
  case (Inl e)
  then show ?thesis using assms report_code by (fastforce simp: kdumptool_main_def tool_course_def)
next
  case (Inr a)
  show ?thesis
  proof (cases a)
    case (Exit t)
    then show ?thesis using assms Inr by (simp add: kdumptool_main_def tool_course_def)
  next
    case (Run sub obj st)
    show ?thesis
    proof (cases "readConfiguration env st sub")
      case (Inl e)
      then show ?thesis using assms Inr Run report_code by (fastforce simp: kdumptool_main_def tool_course_def)
    next
      case config: (Inr config)
      obtain out code where out: "tool_execute env st sub obj config = (out, code)" by fastforce
      have m: "(case out of Exits c \<Rightarrow> Inr ([], c) | Continues (Inl e) \<Rightarrow> report env e code | Continues (Inr u) \<Rightarrow> Inr ([], code)) =
          Inr (text, c)"
        using assms Inr Run config out by (simp add: kdumptool_main_def split: outcome.splits sum.splits)
      have t: "(case (out, code) of
          (Exits c, _) \<Rightarrow> c = 0 \<and> tool_course env subs argv = Launches
        | (Continues (Inl e), code) \<Rightarrow>
            tool_course env subs argv = Runs (Inl e) code \<or> code = 0 \<and> tool_course env subs argv = Fails_early
        | (Continues (Inr u), code) \<Rightarrow> tool_course env subs argv = Runs (Inr ()) code)"
        using tool_execute_course [OF _ config, of subs argv obj] Inr Run by (simp add: out)
      show ?thesis
      proof (cases out)
        case (Exits n)
        then show ?thesis using m t by simp
      next
        case (Continues r)
        then show ?thesis using m t by (cases r) (auto dest!: report_code)
      qed
    qed
  qed
qed

end
