(* ===== verification/Process.thy ===== *)
theory Process
  imports StateExn Istream FilePath
begin

text \<open>
  \<^verbatim>\<open>kdumptool/process.cc\<close> and \<^verbatim>\<open>multiplexio.cc\<close>: a child process with its pipes, and the filter that feeds its input from a stream
  and collects its output in others, driven by \<^verbatim>\<open>poll\<close>. The pipes are shared by the filter and the subprocess, so they
  are in a store. What \<^verbatim>\<open>pipe2\<close>, \<^verbatim>\<open>fork\<close>, \<^verbatim>\<open>poll\<close>, \<^verbatim>\<open>kill\<close> and \<^verbatim>\<open>waitpid\<close> answer is a parameter, by the number of calls made
  before; what the child sends and how much of a \<^verbatim>\<open>write\<close> a pipe takes belongs to the world.
\<close>

unbundle bit_operations_syntax

section \<open>The world\<close>

text \<open>A \<^verbatim>\<open>SubProcessFD\<close>; a pipe has the members \<^verbatim>\<open>m_pipefd[0]\<close> and \<^verbatim>\<open>m_pipefd[1]\<close>.\<close>

datatype sub_fd = Redirect int | ParentToChild int int | ChildToParent int int

record proc_env =
  pe_pipe2 :: "nat \<Rightarrow> int set \<Rightarrow> errno + int \<times> int"
  pe_fork :: "nat \<Rightarrow> errno + int"
  pe_poll :: "nat \<Rightarrow> errno + (int \<Rightarrow> 16 word)"
  pe_kill :: "int \<Rightarrow> int \<Rightarrow> errno option"
  pe_waitpid :: "int \<Rightarrow> errno + int \<times> int"

text \<open>
  The calls made, the open descriptors of the parent, the pipe objects, what reads of a descriptor return (nothing more: end of file), how
  much its writes take (nothing more said: everything), and what was written to it.
\<close>

record proc_world =
  pw_time :: nat
  pw_open :: "int set"
  pw_store :: "sub_fd list"
  pw_reads :: "int \<Rightarrow> (errno + string) list"
  pw_limits :: "int \<Rightarrow> (errno + nat) list"
  pw_sent :: "int \<Rightarrow> string"

definition tick :: "proc_world \<Rightarrow> proc_world" where
  "tick w = w\<lparr>pw_time := pw_time w + 1\<rparr>"

definition EBADF :: errno where "EBADF = EOTHER 9"

definition fd_close :: "int \<Rightarrow> proc_world \<Rightarrow> proc_world" where
  "fd_close fd w = w\<lparr>pw_open := pw_open w - {fd}\<rparr>"

definition pipe_read :: "int \<Rightarrow> nat \<Rightarrow> proc_world \<Rightarrow> (errno + string) \<times> proc_world" where
  "pipe_read fd n w =
     (if fd \<notin> pw_open w then (Inl EBADF, w)
      else case pw_reads w fd of
             [] \<Rightarrow> (Inr [], w)
           | Inl e # rs \<Rightarrow> (Inl e, w\<lparr>pw_reads := (pw_reads w)(fd := rs)\<rparr>)
           | Inr s # rs \<Rightarrow>
               (Inr (take n s), w\<lparr>pw_reads := (pw_reads w)(fd := if length s \<le> n then rs else Inr (drop n s) # rs)\<rparr>))"

definition pipe_write :: "int \<Rightarrow> string \<Rightarrow> proc_world \<Rightarrow> (errno + nat) \<times> proc_world" where
  "pipe_write fd s w =
     (let send = (\<lambda>k w. (Inr k, w\<lparr>pw_sent := (pw_sent w)(fd := pw_sent w fd @ take k s)\<rparr>))
      in if fd \<notin> pw_open w then (Inl EBADF, w)
         else case pw_limits w fd of
                [] \<Rightarrow> send (length s) w
              | Inl e # ls \<Rightarrow> (Inl e, w\<lparr>pw_limits := (pw_limits w)(fd := ls)\<rparr>)
              | Inr k # ls \<Rightarrow> send (min k (length s)) (w\<lparr>pw_limits := (pw_limits w)(fd := ls)\<rparr>))"

section \<open>Pipes\<close>

definition set_pipe :: "nat \<Rightarrow> sub_fd \<Rightarrow> proc_world \<Rightarrow> proc_world" where
  "set_pipe l p w = w\<lparr>pw_store := (pw_store w)[l := p]\<rparr>"

fun with_ends :: "sub_fd \<Rightarrow> int \<Rightarrow> int \<Rightarrow> sub_fd" where
  "with_ends (Redirect fd) a b = Redirect fd"
| "with_ends (ParentToChild r x) a b = ParentToChild a b"
| "with_ends (ChildToParent r x) a b = ChildToParent a b"

fun pipe_ends :: "sub_fd \<Rightarrow> (int \<times> int) option" where
  "pipe_ends (Redirect fd) = None"
| "pipe_ends (ParentToChild r x) = Some (r, x)"
| "pipe_ends (ChildToParent r x) = Some (r, x)"

definition close_if :: "int \<Rightarrow> proc_world \<Rightarrow> proc_world" where
  "close_if fd w = (if fd \<ge> 0 then fd_close fd w else w)"

definition pipe_close :: "nat \<Rightarrow> proc_world \<Rightarrow> proc_world" where
  "pipe_close l w =
     (case pipe_ends (pw_store w ! l) of
        None \<Rightarrow> w
      | Some (r, x) \<Rightarrow> set_pipe l (with_ends (pw_store w ! l) (-1) (-1)) (close_if x (close_if r w)))"

definition sub_prepare :: "proc_env \<Rightarrow> nat \<Rightarrow> (proc_world, unit) sx" where
  "sub_prepare env l w =
     (case pw_store w ! l of
        Redirect fd \<Rightarrow> (Inr (), w)
      | p \<Rightarrow>
          (let w1 = pipe_close l w
           in case pe_pipe2 env (pw_time w1) (pw_open w1) of
                Inl e \<Rightarrow> (Inl (KSystemError ''Cannot create subprocess pipe'' e), tick w1)
              | Inr (r, x) \<Rightarrow>
                  (Inr (), tick (set_pipe l (with_ends p r x) (w1\<lparr>pw_open := insert x (insert r (pw_open w1))\<rparr>)))))"

definition finalizeParent :: "nat \<Rightarrow> proc_world \<Rightarrow> proc_world" where
  "finalizeParent l w =
     (case pw_store w ! l of
        Redirect fd \<Rightarrow> w
      | ParentToChild r x \<Rightarrow> set_pipe l (ParentToChild (-1) x) (fd_close r w)
      | ChildToParent r x \<Rightarrow> set_pipe l (ChildToParent r (-1)) (fd_close x w))"

text \<open>
  The child's side. Its descriptors are a map to the descriptors of the parent when it forked.
\<close>

type_synonym fd_table = "int \<Rightarrow> int option"

definition move_fd :: "int \<Rightarrow> int \<Rightarrow> fd_table \<Rightarrow> fd_table res" where
  "move_fd oldfd newfd t =
     (if t oldfd = None \<or> newfd < 0
      then Inl (KSystemError (''Cannot duplicate fd '' @ number2string oldfd @ '' to fd '' @ number2string newfd) EBADF)
      else Inr ((t(newfd := t oldfd))(oldfd := None)))"

definition finalizeChild :: "int \<Rightarrow> sub_fd \<Rightarrow> fd_table \<Rightarrow> (sub_fd \<times> fd_table) res" where
  "finalizeChild fd p t =
     (case p of
        Redirect f \<Rightarrow> res_bind (move_fd f fd t) (\<lambda>t'. Inr (Redirect (-1), t'))
      | ParentToChild r x \<Rightarrow> res_bind (move_fd r fd (t(x := None))) (\<lambda>t'. Inr (ParentToChild (-1) (-1), t'))
      | ChildToParent r x \<Rightarrow> res_bind (move_fd x fd (t(r := None))) (\<lambda>t'. Inr (ChildToParent (-1) (-1), t')))"

fun child_setup :: "(int \<times> nat) list \<Rightarrow> sub_fd list \<Rightarrow> fd_table \<Rightarrow> fd_table res" where
  "child_setup [] store t = Inr t"
| "child_setup ((fd, l) # m) store t =
     res_bind (finalizeChild fd (store ! l) t) (\<lambda>(p, t'). child_setup m (store[l := p]) t')"

section \<open>Subprocesses\<close>

record sub_process =
  sp_pid :: int
  sp_killSignal :: int
  sp_fdmap :: "(int \<times> nat) list"

definition SIGKILL :: int where "SIGKILL = 9"

definition SubProcess :: sub_process where
  "SubProcess = \<lparr>sp_pid = -1, sp_killSignal = SIGKILL, sp_fdmap = []\<rparr>"

definition setChildFD :: "int \<Rightarrow> nat option \<Rightarrow> sub_process \<Rightarrow> sub_process" where
  "setChildFD fd setup p =
     (let m = filter (\<lambda>(k, l). k \<noteq> fd) (sp_fdmap p)
      in p\<lparr>sp_fdmap := (case setup of None \<Rightarrow> m | Some l \<Rightarrow> smap_insert fd l m)\<rparr>)"

definition getChildFD :: "int \<Rightarrow> sub_process \<Rightarrow> nat res" where
  "getChildFD fd p = (case map_of (sp_fdmap p) fd of None \<Rightarrow> Inl OutOfRange | Some l \<Rightarrow> Inr l)"

definition checkSpawned :: "sub_process \<Rightarrow> unit res" where
  "checkSpawned p = (if sp_pid p = -1 then Inl (KError ''SubProcess::checkSpawned(): no subprocess spawned'') else Inr ())"

fun prepare_all :: "proc_env \<Rightarrow> (int \<times> nat) list \<Rightarrow> (proc_world, unit) sx" where
  "prepare_all env [] w = (Inr (), w)"
| "prepare_all env ((fd, l) # m) w = sx_seq (sub_prepare env l) (prepare_all env m) w"

text \<open>The parent's side, and what the child executes: its descriptors and its argument vector.\<close>

definition sub_spawn :: "proc_env \<Rightarrow> sub_process \<Rightarrow> proc_world \<Rightarrow> unit res \<times> sub_process \<times> proc_world" where
  "sub_spawn env p w =
     (case prepare_all env (sp_fdmap p) w of
        (Inl e, w') \<Rightarrow> (Inl e, p, w')
      | (Inr _, w') \<Rightarrow>
          (case pe_fork env (pw_time w') of
             Inl e \<Rightarrow> (Inl (KSystemError ''SubProcess::spawn(): fork failed'' e), p, tick w')
           | Inr pid \<Rightarrow> (Inr (), p\<lparr>sp_pid := pid\<rparr>, foldl (\<lambda>w (fd, l). finalizeParent l w) (tick w') (sp_fdmap p))))"

definition spawn_child :: "errno option \<Rightarrow> string \<Rightarrow> string list \<Rightarrow> sub_process \<Rightarrow> proc_world \<Rightarrow> (fd_table \<times> string list) res" where
  "spawn_child execvp nm args p w =
     res_bind (child_setup (sp_fdmap p) (pw_store w) (\<lambda>fd. if fd \<in> pw_open w then Some fd else None)) (\<lambda>t.
       case execvp of
         Some e \<Rightarrow> Inl (KSystemError (''Execution of '' @ [SQUOTE] @ nm @ [SQUOTE] @ '' failed.'') e)
       | None \<Rightarrow> Inr (t, nm # args))"

definition sub_kill :: "proc_env \<Rightarrow> int \<Rightarrow> sub_process \<Rightarrow> unit res" where
  "sub_kill env sig p =
     res_bind (checkSpawned p) (\<lambda>_.
       case pe_kill env (sp_pid p) sig of
         None \<Rightarrow> Inr ()
       | Some e \<Rightarrow> Inl (KSystemError (''SubProcess::kill(): cannot send signal'' @ number2string sig) e))"

definition sub_wait :: "proc_env \<Rightarrow> sub_process \<Rightarrow> int res \<times> sub_process" where
  "sub_wait env p =
     (case checkSpawned p of
        Inl e \<Rightarrow> (Inl e, p)
      | Inr _ \<Rightarrow>
          (case pe_waitpid env (sp_pid p) of
             Inl e \<Rightarrow> (Inl (KSystemError (''SubProcess::wait(): cannot get state of PID '' @ number2string (sp_pid p)) e), p)
           | Inr (ret, status) \<Rightarrow>
               if ret \<noteq> sp_pid p
               then (Inl (KError (''SubProcess::wait(): spawned PID '' @ number2string (sp_pid p) @ '' but PID '' @ number2string ret @
                       '' exited.'')), p)
               else (Inr status, p\<lparr>sp_pid := -1\<rparr>)))"

text \<open>An exception that leaves the destructor ends the program.\<close>

definition sub_destroy :: "proc_env \<Rightarrow> sub_process \<Rightarrow> unit res" where
  "sub_destroy env p =
     (if sp_pid p \<noteq> -1
      then (case sub_kill env (sp_killSignal p) p of
              Inl e \<Rightarrow> Inl (Undefined ''std::terminate in SubProcess::~SubProcess'')
            | Inr _ \<Rightarrow>
                (case fst (sub_wait env p) of
                   Inl e \<Rightarrow> Inl (Undefined ''std::terminate in SubProcess::~SubProcess'')
                 | Inr _ \<Rightarrow> Inr ()))
      else Inr ())"

section \<open>The descriptors of the child\<close>

text \<open>The end of a pipe that the parent keeps and the one that the child gets.\<close>

fun own_end :: "sub_fd \<Rightarrow> int" where
  "own_end (Redirect fd) = -1"
| "own_end (ParentToChild r x) = x"
| "own_end (ChildToParent r x) = r"

fun other_end :: "sub_fd \<Rightarrow> int" where
  "other_end (Redirect fd) = -1"
| "other_end (ParentToChild r x) = r"
| "other_end (ChildToParent r x) = x"

text \<open>Pipes all of whose ends are distinct, and none of them a descriptor that the child is to have.\<close>

definition ends_list :: "(int \<times> nat) list \<Rightarrow> sub_fd list \<Rightarrow> int list" where
  "ends_list m store = concat (map (\<lambda>(fd, l). [own_end (store ! l), other_end (store ! l)]) m)"

definition child_ready :: "(int \<times> nat) list \<Rightarrow> sub_fd list \<Rightarrow> fd_table \<Rightarrow> bool" where
  "child_ready m store t \<longleftrightarrow>
     distinct (map fst m) \<and> distinct (ends_list m store) \<and> set (map fst m) \<inter> set (ends_list m store) = {} \<and>
     (\<forall>(fd, l) \<in> set m. 0 \<le> fd \<and> l < length store \<and> pipe_ends (store ! l) \<noteq> None \<and> t (other_end (store ! l)) \<noteq> None)"

lemma finalizeChild_pipe:
  assumes "pipe_ends p \<noteq> None" and "0 \<le> fd" and "t (other_end p) \<noteq> None" and "own_end p \<noteq> other_end p"
  shows "finalizeChild fd p t =
    Inr (with_ends p (-1) (-1), (t(own_end p := None, fd := t (other_end p)))(other_end p := None))"
  using assms by (cases p) (auto simp: finalizeChild_def move_fd_def)

lemma child_setup_ok:
  assumes "child_ready m store t"
  shows "\<exists>t'. child_setup m store t = Inr t' \<and> (\<forall>(fd, l) \<in> set m. t' fd = t (other_end (store ! l))) \<and>
    (\<forall>d \<in> set (ends_list m store). t' d = None) \<and> (\<forall>d. d \<notin> set (map fst m) \<union> set (ends_list m store) \<longrightarrow> t' d = t d)"
  using assms
proof (induction m arbitrary: store t)
  case Nil
  then show ?case by (simp add: ends_list_def)
next
  case (Cons a m)
  obtain fd l where a: "a = (fd, l)" by fastforce
  let ?p = "store ! l" and ?s1 = "store[l := with_ends (store ! l) (-1) (-1)]"
  define t1 where t1: "t1 = (t(own_end ?p := None, fd := t (other_end ?p)))(other_end ?p := None)"
  have el: "ends_list (a # m) store = own_end ?p # other_end ?p # ends_list m store" by (simp add: a ends_list_def)
  have pre: "own_end ?p \<noteq> other_end ?p" "own_end ?p \<notin> set (ends_list m store)" "other_end ?p \<notin> set (ends_list m store)"
    "distinct (ends_list m store)" "fd \<notin> set (map fst m)" "distinct (map fst m)" "fd \<notin> set (ends_list m store)"
    "fd \<noteq> own_end ?p" "fd \<noteq> other_end ?p" "set (map fst m) \<inter> {own_end ?p, other_end ?p} = {}"
    "set (map fst m) \<inter> set (ends_list m store) = {}"
    "pipe_ends ?p \<noteq> None" "0 \<le> fd" "t (other_end ?p) \<noteq> None"
    using Cons.prems unfolding child_ready_def el by (auto simp: a)
  have ne: "k \<noteq> l" if "(n, k) \<in> set m" for n k
    using that pre(2) by (auto simp: ends_list_def)
  have st: "?s1 ! k = store ! k" if "(n, k) \<in> set m" for n k using ne [OF that] by simp
  have ends1: "ends_list m ?s1 = ends_list m store"
    unfolding ends_list_def by (intro arg_cong [where f = concat] map_cong) (auto simp: st)
  have tk: "t1 (other_end (store ! k)) = t (other_end (store ! k))" if k: "(n, k) \<in> set m" for n k
  proof -
    have "other_end (store ! k) \<in> set (ends_list m store)" using k by (force simp: ends_list_def)
    then show ?thesis using pre by (auto simp: t1)
  qed
  have "\<forall>(n, k) \<in> set m. 0 \<le> n \<and> k < length store \<and> pipe_ends (store ! k) \<noteq> None \<and> t (other_end (store ! k)) \<noteq> None"
    using Cons.prems by (simp add: child_ready_def)
  then have "child_ready m ?s1 t1"
    unfolding child_ready_def ends1 using pre(4,6,11) by (auto simp: st tk)
  from Cons.IH [OF this] obtain t' where t': "child_setup m ?s1 t1 = Inr t'" "\<forall>(n, k) \<in> set m. t' n = t1 (other_end (?s1 ! k))"
    "\<forall>d \<in> set (ends_list m store). t' d = None"
    "\<forall>d. d \<notin> set (map fst m) \<union> set (ends_list m store) \<longrightarrow> t' d = t1 d"
    unfolding ends1 by blast
  have "child_setup (a # m) store t = Inr t'"
    using t'(1) finalizeChild_pipe [of ?p fd t, OF pre(12-14,1)] by (simp add: a t1)
  moreover have "t' n = t (other_end (store ! k))" if "(n, k) \<in> set m" for n k
    using t'(2) that st [OF that] tk [OF that] by auto
  moreover have "t' fd = t (other_end ?p)" using t'(4) pre(5,7,8,9) by (simp add: t1)
  moreover have "t' (own_end ?p) = None" "t' (other_end ?p) = None" using t'(4) pre(1,2,3,8,9,10) by (auto simp: t1)
  moreover have "t' d = t d" if "d \<notin> set (map fst (a # m)) \<union> set (ends_list (a # m) store)" for d
    using that [unfolded el] t'(4) by (simp add: a t1)
  ultimately show ?case
    unfolding el using t'(3) by (auto simp: a)
qed

text \<open>Unless a pipe has the number that the child is to have: then moving it there closes it.\<close>

lemma move_fd_same: "move_fd fd fd t = Inr t' \<Longrightarrow> t' fd = None"
  by (auto simp: move_fd_def split: if_splits)

end
