(* ===== verification/ProcessFilter.thy ===== *)
theory ProcessFilter
  imports Process
begin

text \<open>
  \<^verbatim>\<open>kdumptool/multiplexio.cc\<close> and the class \<open>ProcessFilter\<close> of \<^verbatim>\<open>process.cc\<close>: the loop that serves the pipes of a child until all are closed.
\<close>

section \<open>MultiplexIO\<close>

definition POLLIN :: "16 word" where "POLLIN = 1"
definition POLLOUT :: "16 word" where "POLLOUT = 4"
definition POLLERR :: "16 word" where "POLLERR = 8"
definition POLLHUP :: "16 word" where "POLLHUP = 16"
definition POLLNVAL :: "16 word" where "POLLNVAL = 32"

record pollfd =
  pf_fd :: int
  pf_events :: "16 word"
  pf_revents :: "16 word"

record mplex =
  mx_fds :: "pollfd list"
  mx_active :: int

definition MultiplexIO :: mplex where
  "MultiplexIO = \<lparr>mx_fds = [], mx_active = 0\<rparr>"

definition mx_add :: "int \<Rightarrow> 16 word \<Rightarrow> mplex \<Rightarrow> nat \<times> mplex" where
  "mx_add fd events mx =
     (length (mx_fds mx),
      mx\<lparr>mx_active := (if fd \<ge> 0 then mx_active mx + 1 else mx_active mx),
         mx_fds := mx_fds mx @ [\<lparr>pf_fd = fd, pf_events = events, pf_revents = 0\<rparr>]\<rparr>)"

definition mx_at :: "nat \<Rightarrow> mplex \<Rightarrow> pollfd res" where
  "mx_at idx mx = (if idx < length (mx_fds mx) then Inr (mx_fds mx ! idx) else Inl OutOfRange)"

definition deactivate :: "nat \<Rightarrow> mplex \<Rightarrow> mplex" where
  "deactivate idx mx =
     mx\<lparr>mx_active := (if pf_fd (mx_fds mx ! idx) \<ge> 0 then mx_active mx - 1 else mx_active mx),
        mx_fds := (mx_fds mx)[idx := (mx_fds mx ! idx)\<lparr>pf_fd := -1\<rparr>]\<rparr>"

text \<open>What \<^verbatim>\<open>poll\<close> leaves in an entry: only what was asked for and the three error conditions, nothing for a negative descriptor.\<close>

definition poll_entry :: "(int \<Rightarrow> 16 word) \<Rightarrow> pollfd \<Rightarrow> pollfd" where
  "poll_entry ready p =
     p\<lparr>pf_revents :=
         (if pf_fd p < 0 then 0 else ready (pf_fd p) AND (pf_events p OR POLLERR OR POLLHUP OR POLLNVAL))\<rparr>"

partial_function (option) mx_monitor ::
    "proc_env \<Rightarrow> mplex \<Rightarrow> proc_world \<Rightarrow> (unit res \<times> mplex \<times> proc_world) option"
where
  "mx_monitor env mx w =
     (case pe_poll env (pw_time w) of
        Inr ready \<Rightarrow> Some (Inr (), mx\<lparr>mx_fds := map (poll_entry ready) (mx_fds mx)\<rparr>, tick w)
      | Inl e \<Rightarrow>
          if e = EINTR then mx_monitor env mx (tick w)
          else Some (Inl (KSystemError ''poll() failed'' e), mx, tick w))"

lemmas [code] = mx_monitor.simps

section \<open>Inputs and outputs\<close>

text \<open>
  \<open>IStream\<close> and \<open>OStream\<close>: the pipe, the index of the poll entry, and the stream; an input has the bytes from \<^verbatim>\<open>bufptr\<close> to \<^verbatim>\<open>bufend\<close>.
\<close>

datatype io_obj =
    IStreamIO (io_pipe: nat) (io_idx: nat) (io_input: istream) (io_buf: string)
  | OStreamIO (io_pipe: nat) (io_idx: nat) (io_output: string)

text \<open>\<^verbatim>\<open>clear()\<close> and \<^verbatim>\<open>read(buf, n)\<close>.\<close>

definition is_read :: "nat \<Rightarrow> istream \<Rightarrow> string \<times> istream" where
  "is_read n f =
     (let short = length (is_rest f) < n
      in (take n (is_rest f),
          f\<lparr>is_rest := drop n (is_rest f), is_eof := short \<and> \<not> is_broken f, is_fail := short \<and> \<not> is_broken f,
            is_bad := short \<and> is_broken f\<rparr>))"

fun setupIO :: "sub_fd list \<Rightarrow> io_obj \<Rightarrow> mplex \<Rightarrow> io_obj \<times> mplex" where
  "setupIO store (IStreamIO l i f b) mx =
     (let (i', mx') = mx_add (case pipe_ends (store ! l) of Some (r, x) \<Rightarrow> x | None \<Rightarrow> -1) POLLOUT mx in (IStreamIO l i' f b, mx'))"
| "setupIO store (OStreamIO l i out) mx =
     (let (i', mx') = mx_add (case pipe_ends (store ! l) of Some (r, x) \<Rightarrow> r | None \<Rightarrow> -1) POLLIN mx in (OStreamIO l i' out, mx'))"

fun setup_all :: "sub_fd list \<Rightarrow> (int \<times> io_obj) list \<Rightarrow> mplex \<Rightarrow> (int \<times> io_obj) list \<times> mplex" where
  "setup_all store [] mx = ([], mx)"
| "setup_all store ((fd, obj) # ios) mx =
     (let (obj', mx1) = setupIO store obj mx; (ios', mx2) = setup_all store ios mx1 in ((fd, obj') # ios', mx2))"

definition input_underflow :: "istream \<Rightarrow> string \<Rightarrow> string \<times> istream" where
  "input_underflow f b = (if b = [] then is_read BUFSIZ f else (b, f))"

fun handleEvents :: "io_obj \<Rightarrow> mplex \<Rightarrow> proc_world \<Rightarrow> unit res \<times> io_obj \<times> mplex \<times> proc_world" where
  "handleEvents (IStreamIO l i f b) mx w =
     (case mx_at i mx of
        Inl e \<Rightarrow> (Inl e, IStreamIO l i f b, mx, w)
      | Inr p \<Rightarrow>
          if pf_revents p AND POLLOUT = 0 then (Inr (), IStreamIO l i f b, mx, w)
          else (case input_underflow f b of
                  (b1, f1) \<Rightarrow>
                    if b = [] \<and> is_bad f1
                    then (Inl (KSystemError ''Cannot get data for input pipe'' EIO), IStreamIO l i f1 b, mx, w)
                    else (case pipe_write (pf_fd p) b1 w of
                            (Inl e, w1) \<Rightarrow>
                              (Inl (KSystemError ''Cannot send data to input pipe'' e), IStreamIO l i f1 b1, mx, w1)
                          | (Inr cnt, w1) \<Rightarrow>
                              if is_eof f1 then (Inr (), IStreamIO l i f1 (drop cnt b1), deactivate i mx, pipe_close l w1)
                              else (Inr (), IStreamIO l i f1 (drop cnt b1), mx, w1))))"
| "handleEvents (OStreamIO l i out) mx w =
     (case mx_at i mx of
        Inl e \<Rightarrow> (Inl e, OStreamIO l i out, mx, w)
      | Inr p \<Rightarrow>
          if pf_revents p AND (POLLIN OR POLLHUP) = 0 then (Inr (), OStreamIO l i out, mx, w)
          else (case (if pf_revents p AND POLLIN \<noteq> 0 then pipe_read (pf_fd p) BUFSIZ w else (Inr [], w)) of
                  (Inl e, w1) \<Rightarrow> (Inl (KSystemError ''Cannot get data from output pipe'' e), OStreamIO l i out, mx, w1)
                | (Inr s, w1) \<Rightarrow>
                    if s = [] then (Inr (), OStreamIO l i out, deactivate i mx, pipe_close l w1)
                    else (Inr (), OStreamIO l i (out @ s), mx, w1)))"

section \<open>The filter\<close>

type_synonym io_map = "(int \<times> io_obj) list"

definition setIO :: "int \<Rightarrow> io_obj \<Rightarrow> io_map \<Rightarrow> io_map" where
  "setIO fd obj m = smap_insert fd obj m"

definition setInput :: "int \<Rightarrow> istream \<Rightarrow> io_map \<Rightarrow> proc_world \<Rightarrow> io_map \<times> proc_world" where
  "setInput fd input m w =
     (setIO fd (IStreamIO (length (pw_store w)) 0 input []) m, w\<lparr>pw_store := pw_store w @ [ParentToChild (-1) (-1)]\<rparr>)"

definition setOutput :: "int \<Rightarrow> string \<Rightarrow> io_map \<Rightarrow> proc_world \<Rightarrow> io_map \<times> proc_world" where
  "setOutput fd out m w =
     (setIO fd (OStreamIO (length (pw_store w)) 0 out) m, w\<lparr>pw_store := pw_store w @ [ChildToParent (-1) (-1)]\<rparr>)"

definition setStdin :: "istream \<Rightarrow> io_map \<Rightarrow> proc_world \<Rightarrow> io_map \<times> proc_world" where
  "setStdin input m w = setInput 0 input m w"

definition setStdout :: "string \<Rightarrow> io_map \<Rightarrow> proc_world \<Rightarrow> io_map \<times> proc_world" where
  "setStdout out m w = setOutput 1 out m w"

definition setStderr :: "string \<Rightarrow> io_map \<Rightarrow> proc_world \<Rightarrow> io_map \<times> proc_world" where
  "setStderr out m w = setOutput 2 out m w"

fun handle_all :: "io_map \<Rightarrow> mplex \<Rightarrow> proc_world \<Rightarrow> unit res \<times> io_map \<times> mplex \<times> proc_world" where
  "handle_all [] mx w = (Inr (), [], mx, w)"
| "handle_all ((fd, obj) # ios) mx w =
     (case handleEvents obj mx w of
        (Inl e, obj', mx', w') \<Rightarrow> (Inl e, (fd, obj') # ios, mx', w')
      | (Inr _, obj', mx', w') \<Rightarrow>
          (case handle_all ios mx' w' of (r, ios', mx'', w'') \<Rightarrow> (r, (fd, obj') # ios', mx'', w'')))"

partial_function (option) filter_loop ::
    "proc_env \<Rightarrow> io_map \<Rightarrow> mplex \<Rightarrow> proc_world \<Rightarrow> (unit res \<times> io_map \<times> mplex \<times> proc_world) option"
where
  "filter_loop env ios mx w =
     (if mx_active mx > 0
      then Option.bind (mx_monitor env mx w) (\<lambda>(r, mx1, w1).
             case r of
               Inl e \<Rightarrow> Some (Inl e, ios, mx1, w1)
             | Inr _ \<Rightarrow>
                 (case handle_all ios mx1 w1 of
                    (Inl e, ios', mx2, w2) \<Rightarrow> Some (Inl e, ios', mx2, w2)
                  | (Inr _, ios', mx2, w2) \<Rightarrow> filter_loop env ios' mx2 w2))
      else Some (Inr (), ios, mx, w))"

lemmas [code] = filter_loop.simps

definition exit_status :: "int \<Rightarrow> nat" where
  "exit_status status = nat (status div 256 mod 256)"

text \<open>The subprocess is destroyed when the method is left; after a normal end it has no process any more.\<close>

definition leave :: "proc_env \<Rightarrow> sub_process \<Rightarrow> 'a res \<Rightarrow> 'a res" where
  "leave env p r = (case sub_destroy env p of Inl u \<Rightarrow> Inl u | Inr _ \<Rightarrow> r)"

definition filter_execute :: "proc_env \<Rightarrow> io_map \<Rightarrow> proc_world \<Rightarrow> (nat res \<times> io_map \<times> proc_world) option" where
  "filter_execute env ios w =
     (let p = foldl (\<lambda>p (fd, obj). setChildFD fd (Some (io_pipe obj)) p) SubProcess ios
      in case sub_spawn env p w of
           (Inl e, p1, w1) \<Rightarrow> Some (leave env p1 (Inl e), ios, w1)
         | (Inr _, p1, w1) \<Rightarrow>
             (case setup_all (pw_store w1) ios MultiplexIO of
                (ios1, mx) \<Rightarrow>
                  Option.bind (filter_loop env ios1 mx w1) (\<lambda>(r, ios2, mx2, w2).
                    case r of
                      Inl e \<Rightarrow> Some (leave env p1 (Inl e), ios2, w2)
                    | Inr _ \<Rightarrow>
                        (case sub_wait env p1 of
                           (Inl e, p2) \<Rightarrow> Some (leave env p2 (Inl e), ios2, w2)
                         | (Inr status, p2) \<Rightarrow> Some (leave env p2 (Inr (exit_status status)), ios2, w2)))))"

end
