(* ===== verification/FilterRuns.thy ===== *)
theory FilterRuns
  imports ProcessFilter
begin

text \<open>
  What a run of the filter moves: each object of the filter owns one descriptor, and serving it leaves the others alone. From this follow
  what the child is sent, what the outputs hold, that the loop ends when \<^verbatim>\<open>poll\<close> reports progress, and when it does not.
\<close>

unbundle bit_operations_syntax

section \<open>Footprints\<close>

definition same_outside :: "nat set \<Rightarrow> nat set \<Rightarrow> int set \<Rightarrow> mplex \<Rightarrow> proc_world \<Rightarrow> mplex \<Rightarrow> proc_world \<Rightarrow> bool" where
  "same_outside L I D mx w mx' w' \<longleftrightarrow>
     length (pw_store w') = length (pw_store w) \<and> length (mx_fds mx') = length (mx_fds mx) \<and>
     (\<forall>l. l \<notin> L \<longrightarrow> pw_store w' ! l = pw_store w ! l) \<and> (\<forall>i. i \<notin> I \<longrightarrow> mx_fds mx' ! i = mx_fds mx ! i) \<and>
     (\<forall>d. d \<notin> D \<longrightarrow> pw_reads w' d = pw_reads w d \<and> pw_limits w' d = pw_limits w d \<and> pw_sent w' d = pw_sent w d \<and>
       (d \<in> pw_open w' \<longleftrightarrow> d \<in> pw_open w))"

lemma same_outside_refl [simp]: "same_outside L I D mx w mx w"
  by (simp add: same_outside_def)

lemma same_outside_trans:
  "same_outside L I D mx w mx1 w1 \<Longrightarrow> same_outside L' I' D' mx1 w1 mx2 w2 \<Longrightarrow>
   same_outside (L \<union> L') (I \<union> I') (D \<union> D') mx w mx2 w2"
  by (simp add: same_outside_def)

definition act_ok :: "mplex \<Rightarrow> bool" where
  "act_ok mx \<longleftrightarrow> mx_active mx = int (length (filter (\<lambda>p. pf_fd p \<ge> 0) (mx_fds mx)))"

lemma length_filter_update:
  "i < length xs \<Longrightarrow> P (xs ! i) \<Longrightarrow> \<not> P x \<Longrightarrow> length (filter P xs) = Suc (length (filter P (xs[i := x])))"
  by (induction xs arbitrary: i) (auto split: nat.splits)

lemma deactivate_act:
  "act_ok mx \<Longrightarrow> i < length (mx_fds mx) \<Longrightarrow> pf_fd (mx_fds mx ! i) \<ge> 0 \<Longrightarrow> act_ok (deactivate i mx)"
  using length_filter_update [of i "mx_fds mx" "\<lambda>p. pf_fd p \<ge> 0" "(mx_fds mx ! i)\<lparr>pf_fd := -1\<rparr>"]
  by (simp add: act_ok_def deactivate_def)

text \<open>What the reads of a descriptor deliver before the end of file or an error.\<close>

fun content :: "(errno + string) list \<Rightarrow> string" where
  "content [] = []"
| "content (Inl e # rs) = []"
| "content (Inr s # rs) = (if s = [] then [] else s @ content rs)"

text \<open>
  The state of an object that owns the descriptor \<open>d\<close>, with what it has moved since \<open>w0\<close>, where it was \<open>obj0\<close>: it is open or closed. With \<open>H\<close> no
  \<^verbatim>\<open>POLLHUP\<close> comes without \<^verbatim>\<open>POLLIN\<close>.
\<close>

definition is_open :: "int \<Rightarrow> sub_fd \<Rightarrow> io_obj \<Rightarrow> mplex \<Rightarrow> proc_world \<Rightarrow> bool" where
  "is_open d p obj mx w \<longleftrightarrow> pw_store w ! io_pipe obj = p \<and> d \<in> pw_open w \<and> pf_fd (mx_fds mx ! io_idx obj) = d"

definition is_closed :: "int \<Rightarrow> sub_fd \<Rightarrow> io_obj \<Rightarrow> mplex \<Rightarrow> proc_world \<Rightarrow> bool" where
  "is_closed d p obj mx w \<longleftrightarrow> pw_store w ! io_pipe obj = p \<and> d \<notin> pw_open w \<and> pf_fd (mx_fds mx ! io_idx obj) = -1"

fun io_ok :: "bool \<Rightarrow> int \<Rightarrow> proc_world \<Rightarrow> io_obj \<Rightarrow> mplex \<Rightarrow> proc_world \<Rightarrow> io_obj \<Rightarrow> bool" where
  "io_ok H d w0 (IStreamIO l0 i0 f0 b0) mx w (IStreamIO l i f b) \<longleftrightarrow>
     l < length (pw_store w) \<and> i < length (mx_fds mx) \<and> 0 \<le> d \<and> pf_events (mx_fds mx ! i) = POLLOUT \<and>
     ((is_open d (ParentToChild (-1) d) (IStreamIO l i f b) mx w \<and> (b \<noteq> [] \<longrightarrow> \<not> is_eof f)) \<or>
      (is_closed d (ParentToChild (-1) (-1)) (IStreamIO l i f b) mx w \<and>
       (pw_limits w0 d = [] \<longrightarrow> b = [] \<and> is_rest f = []))) \<and>
     (pw_limits w0 d = [] \<longrightarrow> pw_limits w d = []) \<and>
     (\<exists>s. is_rest f0 = s @ b @ is_rest f \<and> pw_sent w d = pw_sent w0 d @ s)"
| "io_ok H d w0 (OStreamIO l0 i0 out0) mx w (OStreamIO l i out) \<longleftrightarrow>
     l < length (pw_store w) \<and> i < length (mx_fds mx) \<and> 0 \<le> d \<and> pf_events (mx_fds mx ! i) = POLLIN \<and>
     (\<exists>s t. out = out0 @ s \<and> content (pw_reads w0 d) = s @ t \<and>
       ((is_open d (ChildToParent d (-1)) (OStreamIO l i out) mx w \<and> t = content (pw_reads w d)) \<or>
        (is_closed d (ChildToParent (-1) (-1)) (OStreamIO l i out) mx w \<and> (H \<longrightarrow> t = []))))"
| "io_ok H d w0 obj0 mx w obj \<longleftrightarrow> False"

definition polled :: "bool \<Rightarrow> pollfd \<Rightarrow> bool" where
  "polled H p \<longleftrightarrow> (pf_fd p < 0 \<longrightarrow> pf_revents p = 0) \<and> 
     (H \<and> pf_events p = POLLIN \<and> pf_revents p AND POLLHUP \<noteq> 0 \<longrightarrow> pf_revents p AND POLLIN \<noteq> 0)"

lemma io_ok_frame:
  assumes "io_ok H d w0 obj0 mx w obj" and "same_outside L I D mx w mx' w'"
    and "io_pipe obj \<notin> L" "io_idx obj \<notin> I" "d \<notin> D"
  shows "io_ok H d w0 obj0 mx' w' obj"
  using assms by (cases "(H, d, w0, obj0, mx, w, obj)" rule: io_ok.cases)
    (auto simp: is_open_def is_closed_def same_outside_def)

lemma pipe_close_own:
  assumes "pipe_ends (pw_store w ! l) = Some (-1, d) \<or> pipe_ends (pw_store w ! l) = Some (d, -1)" and "0 \<le> d"
  shows "pipe_close l w = set_pipe l (with_ends (pw_store w ! l) (-1) (-1)) (fd_close d w)"
  using assms by (auto simp: pipe_close_def close_if_def)

lemma handle_input:
  assumes "handleEvents (IStreamIO l i f b) mx w = (Inr (), obj', mx', w')"
    and "io_ok H d w0 obj0 mx w (IStreamIO l i f b)" and "polled H (mx_fds mx ! i)" and "act_ok mx"
  shows "io_ok H d w0 obj0 mx' w' obj' \<and> same_outside {l} {i} {d} mx w mx' w' \<and> act_ok mx' \<and> io_pipe obj' = l \<and> io_idx obj' = i"
proof -
  obtain l0 i0 f0 b0 where obj0: "obj0 = IStreamIO l0 i0 f0 b0"
    using assms(2) by (cases obj0) auto
  let ?p = "mx_fds mx ! i"
  have i: "i < length (mx_fds mx)" and l: "l < length (pw_store w)" and d: "0 \<le> d" and ev: "pf_events ?p = POLLOUT"
    using assms(2) by (auto simp: obj0)
  show ?thesis
  proof (cases "pf_revents ?p AND POLLOUT = 0")
    case True
    then have "obj' = IStreamIO l i f b" "mx' = mx" "w' = w" using assms(1) i by (auto simp: mx_at_def)
    then show ?thesis using assms by simp
  next
    case False
    then have "pf_fd ?p \<noteq> -1" using assms(3) by (auto simp: polled_def)
    then have o: "is_open d (ParentToChild (-1) d) (IStreamIO l i f b) mx w" "b \<noteq> [] \<longrightarrow> \<not> is_eof f"
      using assms(2) by (auto simp: obj0 is_closed_def)
    then have fd: "pf_fd ?p = d" and dopen: "d \<in> pw_open w" and st: "pw_store w ! l = ParentToChild (-1) d"
      by (auto simp: is_open_def)
    obtain b1 f1 where u: "input_underflow f b = (b1, f1)" by fastforce
    obtain r w1 where wr: "pipe_write d b1 w = (r, w1)" by fastforce
    obtain cnt where r: "r = Inr cnt"
      using assms(1) i False u wr fd by (cases r) (auto simp: mx_at_def split: if_splits)
    have data: "b @ is_rest f = b1 @ is_rest f1" "is_eof f1 \<longrightarrow> is_rest f1 = []"
      using u o(2) by (auto simp: input_underflow_def is_read_def Let_def split: if_splits)
    have w1: "pw_sent w1 d = pw_sent w d @ take cnt b1" "pw_store w1 = pw_store w" "pw_open w1 = pw_open w"
      "pw_limits w d = [] \<longrightarrow> pw_limits w1 d = [] \<and> cnt = length b1"
      "\<forall>d'. d' \<noteq> d \<longrightarrow> pw_sent w1 d' = pw_sent w d' \<and> pw_limits w1 d' = pw_limits w d'" "pw_reads w1 = pw_reads w"
      using wr r dopen by (auto simp: pipe_write_def Let_def split: list.splits sum.splits if_splits)
    obtain s where s: "is_rest f0 = s @ b @ is_rest f" "pw_sent w d = pw_sent w0 d @ s"
      and lim: "pw_limits w0 d = [] \<longrightarrow> pw_limits w d = []"
      using assms(2) by (auto simp: obj0)
    have all: "is_rest f0 = (s @ take cnt b1) @ drop cnt b1 @ is_rest f1" "pw_sent w1 d = pw_sent w0 d @ (s @ take cnt b1)"
      using s data(1) w1(1) by simp_all
    show ?thesis
    proof (cases "is_eof f1")
      case True
      then have res: "obj' = IStreamIO l i f1 (drop cnt b1)" "mx' = deactivate i mx" "w' = pipe_close l w1"
        using assms(1) i False u wr fd r by (auto simp: mx_at_def split: if_splits)
      have w': "w' = set_pipe l (ParentToChild (-1) (-1)) (fd_close d w1)"
        using res(3) pipe_close_own [of w1 l d] w1(2) st d by simp
      have "act_ok mx'" using deactivate_act [OF assms(4) i] fd d res(2) by simp
      moreover have "same_outside {l} {i} {d} mx w mx' w'"
        using w1 by (auto simp: same_outside_def res(2) w' set_pipe_def fd_close_def deactivate_def)
      moreover have "io_ok H d w0 obj0 mx' w' obj'"
        using all lim w1(2-4) data(2) True d l i ev
        by (auto simp: obj0 res(1,2) w' is_closed_def is_open_def set_pipe_def fd_close_def deactivate_def)
      ultimately show ?thesis using res(1) by simp
    next
      case notend: False
      then have res: "obj' = IStreamIO l i f1 (drop cnt b1)" "mx' = mx" "w' = w1"
        using assms(1) i False u wr fd r by (auto simp: mx_at_def split: if_splits)
      have "same_outside {l} {i} {d} mx w mx' w'" using w1 by (simp add: same_outside_def res)
      moreover have "io_ok H d w0 obj0 mx' w' obj'"
        using all lim w1(2-4) notend d l i ev o(1) by (auto simp: obj0 res is_open_def)
      ultimately show ?thesis using res assms(4) by simp
    qed
  qed
qed

lemma content_read:
  assumes "pipe_read d n w = (Inr s, w1)" and "d \<in> pw_open w" and "0 < n"
  shows "content (pw_reads w d) = s @ (if s = [] then [] else content (pw_reads w1 d))"
proof (cases "pw_reads w d")
  case (Cons a rs)
  then obtain x where x: "a = Inr x" using assms by (cases a) (auto simp: pipe_read_def)
  then have s: "s = take n x" and w1: "w1 = w\<lparr>pw_reads := (pw_reads w)(d := if length x \<le> n then rs else Inr (drop n x) # rs)\<rparr>"
    using assms(1,2) Cons by (simp_all add: pipe_read_def)
  have "x = take n x @ drop n x" by simp
  then show ?thesis using assms(3) by (auto simp: Cons x s w1)
qed (use assms in \<open>auto simp: pipe_read_def\<close>)

lemma pipe_read_frame:
  "pipe_read d n w = (r, w1) \<Longrightarrow> pw_store w1 = pw_store w \<and> pw_open w1 = pw_open w \<and> pw_limits w1 = pw_limits w \<and>
     pw_sent w1 = pw_sent w \<and> (\<forall>d'. d' \<noteq> d \<longrightarrow> pw_reads w1 d' = pw_reads w d')"
  by (auto simp: pipe_read_def split: if_splits list.splits sum.splits)

lemma handle_output:
  assumes "handleEvents (OStreamIO l i out) mx w = (Inr (), obj', mx', w')"
    and "io_ok H d w0 obj0 mx w (OStreamIO l i out)" and "polled H (mx_fds mx ! i)" and "act_ok mx"
  shows "io_ok H d w0 obj0 mx' w' obj' \<and> same_outside {l} {i} {d} mx w mx' w' \<and> act_ok mx' \<and> io_pipe obj' = l \<and> io_idx obj' = i"
proof -
  obtain l0 i0 out0 where obj0: "obj0 = OStreamIO l0 i0 out0"
    using assms(2) by (cases obj0) auto
  let ?p = "mx_fds mx ! i"
  have i: "i < length (mx_fds mx)" and l: "l < length (pw_store w)" and d: "0 \<le> d" using assms(2) by (auto simp: obj0)
  show ?thesis
  proof (cases "pf_revents ?p AND (POLLIN OR POLLHUP) = 0")
    case True
    then have "obj' = OStreamIO l i out" "mx' = mx" "w' = w" using assms(1) i by (auto simp: mx_at_def)
    then show ?thesis using assms by simp
  next
    case False
    then have "pf_fd ?p \<noteq> -1" using assms(3) by (auto simp: polled_def)
    then have o: "is_open d (ChildToParent d (-1)) (OStreamIO l i out) mx w"
      using assms(2) by (auto simp: obj0 is_closed_def)
    then have fd: "pf_fd ?p = d" and dopen: "d \<in> pw_open w" and st: "pw_store w ! l = ChildToParent d (-1)"
      by (auto simp: is_open_def)
    obtain s where s: "out = out0 @ s" "content (pw_reads w0 d) = s @ content (pw_reads w d)"
      using assms(2) \<open>pf_fd ?p \<noteq> -1\<close> by (auto simp: obj0 is_closed_def)
    obtain r w1 where rd: "(if pf_revents ?p AND POLLIN \<noteq> 0 then pipe_read d BUFSIZ w else (Inr [], w)) = (r, w1)"
      by fastforce
    obtain x where r: "r = Inr x"
      using assms(1) i False rd fd by (cases r) (auto simp: mx_at_def)
    have w1: "pw_store w1 = pw_store w" "pw_open w1 = pw_open w" "pw_limits w1 = pw_limits w" "pw_sent w1 = pw_sent w"
        "\<forall>d'. d' \<noteq> d \<longrightarrow> pw_reads w1 d' = pw_reads w d'"
      using rd pipe_read_frame [of d BUFSIZ w r w1] by (auto split: if_splits)
    have ev: "pf_events ?p = POLLIN" using assms(2) by (simp add: obj0)
    then have hup: "H \<longrightarrow> pf_revents ?p AND POLLIN \<noteq> 0"
      using False assms(3) by (auto simp: polled_def bit.conj_disj_distrib)
    have BUF: "0 < BUFSIZ" by (simp add: BUFSIZ_def)
    show ?thesis
    proof (cases "x = []")
      case True
      then have res: "obj' = OStreamIO l i out" "mx' = deactivate i mx" "w' = pipe_close l w1"
        using assms(1) i False rd fd r by (auto simp: mx_at_def)
      have w': "w' = set_pipe l (ChildToParent (-1) (-1)) (fd_close d w1)"
        using res(3) pipe_close_own [of w1 l d] w1(1) st d by simp
      have "H \<longrightarrow> content (pw_reads w d) = []"
        using hup rd content_read [of d BUFSIZ w x w1] dopen BUF True r by auto
      then have "io_ok H d w0 obj0 mx' w' obj'"
        using s w1 d l i ev
        by (auto simp: obj0 res(1,2) w' is_closed_def is_open_def set_pipe_def fd_close_def deactivate_def)
      moreover have "act_ok mx'" using deactivate_act [OF assms(4) i] fd d res(2) by simp
      moreover have "same_outside {l} {i} {d} mx w mx' w'"
        using w1 by (auto simp: same_outside_def res(2) w' set_pipe_def fd_close_def deactivate_def)
      ultimately show ?thesis using res(1) by simp
    next
      case notend: False
      then have res: "obj' = OStreamIO l i (out @ x)" "mx' = mx" "w' = w1"
        using assms(1) i False rd fd r by (auto simp: mx_at_def)
      have "content (pw_reads w d) = x @ content (pw_reads w1 d)"
        using rd r notend content_read [of d BUFSIZ w x w1] dopen BUF by (auto split: if_splits)
      then have "io_ok H d w0 obj0 mx' w' obj'"
        using s w1(1,2) d l i o ev by (auto simp: obj0 res is_open_def)
      moreover have "same_outside {l} {i} {d} mx w mx' w'" using w1 by (simp add: same_outside_def res)
      ultimately show ?thesis using res assms(4) by simp
    qed
  qed
qed

lemma handle_ok:
  assumes "handleEvents obj mx w = (Inr (), obj', mx', w')"
    and "io_ok H d w0 obj0 mx w obj" and "polled H (mx_fds mx ! io_idx obj)" and "act_ok mx"
  shows "io_ok H d w0 obj0 mx' w' obj' \<and> same_outside {io_pipe obj} {io_idx obj} {d} mx w mx' w' \<and> act_ok mx' \<and>
    io_pipe obj' = io_pipe obj \<and> io_idx obj' = io_idx obj"
  using assms handle_input handle_output by (cases obj) simp_all

section \<open>All objects\<close>

definition pipes_of :: "io_map \<Rightarrow> nat list" where "pipes_of ios = map (io_pipe \<circ> snd) ios"
definition idxs_of :: "io_map \<Rightarrow> nat list" where "idxs_of ios = map (io_idx \<circ> snd) ios"

definition ios_ok :: "bool \<Rightarrow> proc_world \<Rightarrow> (int \<times> io_obj) list \<Rightarrow> mplex \<Rightarrow> proc_world \<Rightarrow> io_map \<Rightarrow> bool" where
  "ios_ok H w0 starts mx w ios \<longleftrightarrow> list_all2 (\<lambda>(d, obj0) (fd, obj). io_ok H d w0 obj0 mx w obj) starts ios"

lemma ios_ok_frame:
  assumes "ios_ok H w0 starts mx w ios" and "same_outside L I D mx w mx' w'"
    and "set (pipes_of ios) \<inter> L = {}" "set (idxs_of ios) \<inter> I = {}" "set (map fst starts) \<inter> D = {}"
  shows "ios_ok H w0 starts mx' w' ios"
  unfolding ios_ok_def
  by (rule list.rel_mono_strong [OF assms(1) [unfolded ios_ok_def]])
    (use assms(3-5) in \<open>force simp: pipes_of_def idxs_of_def intro: io_ok_frame [OF _ assms(2)]\<close>)

lemma handle_all_ok:
  assumes "handle_all ios mx w = (Inr (), ios', mx', w')" and "ios_ok H w0 starts mx w ios"
    and "\<forall>i \<in> set (idxs_of ios). polled H (mx_fds mx ! i)" and "act_ok mx"
    and "distinct (pipes_of ios)" "distinct (idxs_of ios)" "distinct (map fst starts)"
  shows "ios_ok H w0 starts mx' w' ios' \<and> act_ok mx' \<and> pipes_of ios' = pipes_of ios \<and> idxs_of ios' = idxs_of ios \<and>
    map fst ios' = map fst ios \<and> same_outside (set (pipes_of ios)) (set (idxs_of ios)) (set (map fst starts)) mx w mx' w'"
  using assms
proof (induction ios arbitrary: mx w ios' starts)
  case Nil
  then show ?case by (simp add: pipes_of_def idxs_of_def)
next
  case (Cons p ios)
  obtain fd obj where p: "p = (fd, obj)" by fastforce
  obtain d obj0 starts' where st: "starts = (d, obj0) # starts'"
    using Cons.prems(2) by (auto simp: ios_ok_def p list_all2_Cons2)
  from Cons.prems(1) obtain obj1 mx1 w1 ios1 where h: "handleEvents obj mx w = (Inr (), obj1, mx1, w1)"
    and rest: "handle_all ios mx1 w1 = (Inr (), ios1, mx', w')" and ios': "ios' = (fd, obj1) # ios1"
    by (auto simp: p split: prod.splits sum.splits)
  have io: "io_ok H d w0 obj0 mx w obj" and ios: "ios_ok H w0 starts' mx w ios"
    using Cons.prems(2) by (simp_all add: ios_ok_def p st)
  note 1 = handle_ok [OF h io _ Cons.prems(4)]
  have pol: "polled H (mx_fds mx ! io_idx obj)" using Cons.prems(3) by (simp add: p idxs_of_def)
  have so: "same_outside {io_pipe obj} {io_idx obj} {d} mx w mx1 w1" using 1 [OF pol] by simp
  have ios1: "ios_ok H w0 starts' mx1 w1 ios"
    by (rule ios_ok_frame [OF ios so]) (use Cons.prems(5-7) in \<open>auto simp: p st pipes_of_def idxs_of_def\<close>)
  have "mx_fds mx1 ! i = mx_fds mx ! i" if "i \<in> set (idxs_of ios)" for i
  proof -
    have "io_idx obj \<notin> set (idxs_of ios)" using Cons.prems(6) by (simp add: p idxs_of_def)
    then have "i \<noteq> io_idx obj" using that by blast
    then show ?thesis using so by (simp add: same_outside_def)
  qed
  then have pol1: "\<forall>i \<in> set (idxs_of ios). polled H (mx_fds mx1 ! i)"
    using Cons.prems(3) by (simp add: p idxs_of_def)
  have 2: "ios_ok H w0 starts' mx' w' ios1 \<and> act_ok mx' \<and> pipes_of ios1 = pipes_of ios \<and> idxs_of ios1 = idxs_of ios \<and>
      map fst ios1 = map fst ios \<and> same_outside (set (pipes_of ios)) (set (idxs_of ios)) (set (map fst starts')) mx1 w1 mx' w'"
    by (rule Cons.IH [OF rest ios1 pol1]) (use 1 [OF pol] Cons.prems(5-7) in \<open>auto simp: p st pipes_of_def idxs_of_def\<close>)
  have "io_ok H d w0 obj0 mx' w' obj1"
    by (rule io_ok_frame) (use 1 [OF pol] 2 Cons.prems(5-7) in \<open>auto simp: p st pipes_of_def idxs_of_def\<close>)
  moreover have "same_outside ({io_pipe obj} \<union> set (pipes_of ios)) ({io_idx obj} \<union> set (idxs_of ios))
      ({d} \<union> set (map fst starts')) mx w mx' w'"
    by (rule same_outside_trans [OF so]) (use 2 in blast)
  ultimately show ?case
    using 1 [OF pol] 2 by (simp add: ios' st p ios_ok_def pipes_of_def idxs_of_def)
qed

section \<open>The loop\<close>

text \<open>A hang-up is reported together with what is left to read, not instead of it.\<close>

definition hup_with_in :: "proc_env \<Rightarrow> bool" where
  "hup_with_in env \<longleftrightarrow>
     (\<forall>t ready d. pe_poll env t = Inr ready \<and> ready d AND POLLHUP \<noteq> 0 \<longrightarrow> ready d AND POLLIN \<noteq> 0)"

definition monitored :: "proc_env \<Rightarrow> mplex \<Rightarrow> proc_world \<Rightarrow> mplex \<Rightarrow> proc_world \<Rightarrow> bool" where
  "monitored env mx w mx' w' \<longleftrightarrow>
     (\<exists>t ready n. pe_poll env t = Inr ready \<and> mx' = mx\<lparr>mx_fds := map (poll_entry ready) (mx_fds mx)\<rparr> \<and> w' = w\<lparr>pw_time := n\<rparr>)"

lemma monitor_result:
  assumes "mx_monitor env mx w = Some (r, mx', w')" and "r = Inr ()"
  shows "monitored env mx w mx' w'"
proof -
  have "case (r, mx', w') of (r, mx', w') \<Rightarrow> r = Inr () \<longrightarrow> monitored env mx w mx' w'"
    using assms(1)
  proof (rule mx_monitor.raw_induct [rotated, where P = "\<lambda>env mx w (r, mx', w'). r = Inr () \<longrightarrow> monitored env mx w mx' w'"])
    fix f env mx w and y :: "unit res \<times> mplex \<times> proc_world"
    assume IH: "\<And>env mx w y. f env mx w = Some y \<Longrightarrow> case y of (r, mx', w') \<Rightarrow> r = Inr () \<longrightarrow> monitored env mx w mx' w'"
      and step: "(case pe_poll env (pw_time w) of
        Inl e \<Rightarrow> if e = EINTR then f env mx (tick w) else Some (Inl (KSystemError ''poll() failed'' e), mx, tick w)
      | Inr ready \<Rightarrow> Some (Inr (), mx\<lparr>mx_fds := map (poll_entry ready) (mx_fds mx)\<rparr>, tick w)) = Some y"
    show "case y of (r, mx', w') \<Rightarrow> r = Inr () \<longrightarrow> monitored env mx w mx' w'"
    proof (cases "pe_poll env (pw_time w)")
      case (Inl e)
      show ?thesis
      proof (cases "e = EINTR")
        case True
        then have "f env mx (tick w) = Some y" using step Inl by simp
        from IH [OF this] show ?thesis by (auto simp: monitored_def tick_def)
      qed (use step Inl in auto)
    next
      case (Inr ready)
      then show ?thesis using step by (auto simp: monitored_def tick_def intro!: exI)
    qed
  qed
  then show ?thesis using assms(2) by simp
qed

lemma poll_entry_simps [simp]: "pf_fd (poll_entry ready p) = pf_fd p" "pf_events (poll_entry ready p) = pf_events p"
  by (simp_all add: poll_entry_def)

lemma monitored_ok:
  assumes "monitored env mx w mx' w'" and "ios_ok H w0 starts mx w ios" and "act_ok mx" and "H \<longrightarrow> hup_with_in env"
  shows "ios_ok H w0 starts mx' w' ios" "act_ok mx'" "\<forall>i < length (mx_fds mx). polled H (mx_fds mx' ! i)"
    "length (mx_fds mx') = length (mx_fds mx)"
proof -
  obtain t ready n where e: "pe_poll env t = Inr ready" and mx': "mx' = mx\<lparr>mx_fds := map (poll_entry ready) (mx_fds mx)\<rparr>"
    and w': "w' = w\<lparr>pw_time := n\<rparr>" using assms(1) by (auto simp: monitored_def)
  have "io_ok H d w0 obj0 mx' w' obj" if "io_ok H d w0 obj0 mx w obj" for d obj0 obj
    using that by (cases "(H, d, w0, obj0, mx, w, obj)" rule: io_ok.cases)
      (auto simp: is_open_def is_closed_def mx' w')
  then show "ios_ok H w0 starts mx' w' ios"
    using assms(2) unfolding ios_ok_def by (auto elim!: list.rel_mono_strong)
  show "act_ok mx'" using assms(3) by (simp add: act_ok_def mx' filter_map comp_def)
  have "polled H (poll_entry ready p)" for p
    using assms(4) e unfolding polled_def hup_with_in_def poll_entry_def
    by (auto simp: POLLIN_def POLLHUP_def POLLERR_def POLLNVAL_def and.assoc)
  then show "\<forall>i < length (mx_fds mx). polled H (mx_fds mx' ! i)" by (simp add: mx')
qed (use assms(1) in \<open>auto simp: monitored_def\<close>)

definition run_ok :: "bool \<Rightarrow> proc_world \<Rightarrow> (int \<times> io_obj) list \<Rightarrow> mplex \<Rightarrow> proc_world \<Rightarrow> io_map \<Rightarrow> bool" where
  "run_ok H w0 starts mx w ios \<longleftrightarrow>
     ios_ok H w0 starts mx w ios \<and> act_ok mx \<and> distinct (pipes_of ios) \<and> idxs_of ios = [0..<length (mx_fds mx)] \<and>
     distinct (map fst starts) \<and>
     (\<forall>d. d \<notin> set (map fst starts) \<longrightarrow> (d \<in> pw_open w \<longleftrightarrow> d \<in> pw_open w0))"

lemma ios_ok_idx:
  assumes "ios_ok H w0 starts mx w ios" and "i \<in> set (idxs_of ios)"
  shows "i < length (mx_fds mx)"
proof -
  have "io_idx obj < length (mx_fds mx)" if "io_ok H d w0 obj0 mx w obj" for d obj0 obj
    using that by (cases "(H, d, w0, obj0, mx, w, obj)" rule: io_ok.cases) auto
  then show ?thesis
    using assms by (auto simp: ios_ok_def idxs_of_def list_all2_conv_all_nth in_set_conv_nth case_prod_beta) (metis snd_conv)
qed

lemma run_ok_round:
  assumes "run_ok H w0 starts mx w ios" and "monitored env mx w mx1 w1" and "H \<longrightarrow> hup_with_in env"
    and "handle_all ios mx1 w1 = (Inr (), ios', mx2, w2)"
  shows "run_ok H w0 starts mx2 w2 ios' \<and> map fst ios' = map fst ios \<and> pipes_of ios' = pipes_of ios"
proof -
  have ok: "ios_ok H w0 starts mx w ios" "act_ok mx" using assms(1) by (simp_all add: run_ok_def)
  note m = monitored_ok [OF assms(2) ok assms(3)]
  have "\<forall>i \<in> set (idxs_of ios). polled H (mx_fds mx1 ! i)"
    using m(3) ios_ok_idx [OF ok(1)] by blast
  note h = handle_all_ok [OF assms(4) m(1) this m(2)]
  have "pw_open w1 = pw_open w" using assms(2) by (auto simp: monitored_def)
  then have "\<forall>d. d \<notin> set (map fst starts) \<longrightarrow> (d \<in> pw_open w2 \<longleftrightarrow> d \<in> pw_open w0)"
    using assms(1) h by (auto simp: run_ok_def same_outside_def)
  moreover have "length (mx_fds mx2) = length (mx_fds mx1)" using h assms(1) by (simp add: run_ok_def same_outside_def)
  ultimately show ?thesis using assms(1) h m(4) by (simp add: run_ok_def)
qed

lemma not_Inl_unit: "(\<forall>e. (r :: 'e + unit) \<noteq> Inl e) \<longleftrightarrow> r = Inr ()"
  by (cases r) auto

lemma filter_loop_ok:
  assumes "filter_loop env ios mx w = Some (r, ios', mx', w')" and "r = Inr ()"
    and "run_ok H w0 starts mx w ios" and "H \<longrightarrow> hup_with_in env"
  shows "run_ok H w0 starts mx' w' ios' \<and> mx_active mx' \<le> 0 \<and> map fst ios' = map fst ios \<and> pipes_of ios' = pipes_of ios"
proof -
  let ?P = "\<lambda>env ios mx w (r, ios', mx', w'). r = Inr () \<longrightarrow> run_ok H w0 starts mx w ios \<longrightarrow> (H \<longrightarrow> hup_with_in env) \<longrightarrow>
    run_ok H w0 starts mx' w' ios' \<and> mx_active mx' \<le> 0 \<and> map fst ios' = map fst ios \<and> pipes_of ios' = pipes_of ios"
  have "?P env ios mx w (r, ios', mx', w')"
    using assms(1)
  proof (rule filter_loop.raw_induct [rotated, where P = ?P])
    fix f env ios mx w and y :: "unit res \<times> io_map \<times> mplex \<times> proc_world"
    assume IH: "\<And>env ios mx w y. f env ios mx w = Some y \<Longrightarrow> ?P env ios mx w y"
      and step: "(if 0 < mx_active mx
        then Option.bind (mx_monitor env mx w) (\<lambda>(r, mx1, w1).
               case r of
                 Inl e \<Rightarrow> Some (Inl e, ios, mx1, w1)
               | Inr _ \<Rightarrow>
                   (case handle_all ios mx1 w1 of
                      (Inl e, ios', mx2, w2) \<Rightarrow> Some (Inl e, ios', mx2, w2)
                    | (Inr _, ios', mx2, w2) \<Rightarrow> f env ios' mx2 w2))
        else Some (Inr (), ios, mx, w)) = Some y"
    obtain ry iosy mxy wy where y: "y = (ry, iosy, mxy, wy)" by (cases y) blast
    show "?P env ios mx w y"
      unfolding y prod.case
    proof (intro impI)
      assume r: "ry = Inr ()" and ok: "run_ok H w0 starts mx w ios" and hup: "H \<longrightarrow> hup_with_in env"
      show "run_ok H w0 starts mxy wy iosy \<and> mx_active mxy \<le> 0 \<and> map fst iosy = map fst ios \<and> pipes_of iosy = pipes_of ios"
      proof (cases "0 < mx_active mx")
        case True
        obtain mx1 w1 ios1 mx2 w2 where m: "mx_monitor env mx w = Some (Inr (), mx1, w1)"
          and h: "handle_all ios mx1 w1 = (Inr (), ios1, mx2, w2)" and f: "f env ios1 mx2 w2 = Some y"
          using step True r y by (auto simp: bind_eq_Some_conv not_Inl_unit split: sum.splits prod.splits)
        note n = run_ok_round [OF ok monitor_result [OF m refl] hup h]
        show ?thesis using IH [OF f] n r hup by (simp add: y)
      qed (use step ok y in auto)
    qed
  qed
  then show ?thesis using assms(2-4) by simp
qed

text \<open>When nothing is active every object is closed.\<close>

lemma inactive_closed:
  assumes "act_ok mx" and "mx_active mx \<le> 0" and "i < length (mx_fds mx)"
  shows "pf_fd (mx_fds mx ! i) < 0"
proof (rule ccontr)
  assume "\<not> ?thesis"
  then have "mx_fds mx ! i \<in> set (filter (\<lambda>p. pf_fd p \<ge> 0) (mx_fds mx))" using assms(3) by auto
  then show False using assms(1,2) length_pos_if_in_set by (fastforce simp: act_ok_def)
qed

section \<open>Spawning\<close>

text \<open>\<^verbatim>\<open>pipe2\<close> returns two descriptors that are not in use.\<close>

definition pipes_fresh :: "proc_env \<Rightarrow> bool" where
  "pipes_fresh env \<longleftrightarrow> (\<forall>t D r x. pe_pipe2 env t D = Inr (r, x) \<longrightarrow> 0 \<le> r \<and> 0 \<le> x \<and> r \<noteq> x \<and> r \<notin> D \<and> x \<notin> D)"

definition new_pipe :: "sub_fd \<Rightarrow> bool" where
  "new_pipe p \<longleftrightarrow> p = ParentToChild (-1) (-1) \<or> p = ChildToParent (-1) (-1)"

definition same_data :: "proc_world \<Rightarrow> proc_world \<Rightarrow> bool" where
  "same_data w w' \<longleftrightarrow> pw_reads w' = pw_reads w \<and> pw_limits w' = pw_limits w \<and> pw_sent w' = pw_sent w \<and>
     length (pw_store w') = length (pw_store w)"

lemma same_data_trans: "same_data w w1 \<Longrightarrow> same_data w1 w2 \<Longrightarrow> same_data w w2"
  by (simp add: same_data_def)

text \<open>A pipe of \<open>w\<close> that was made since \<open>w0\<close>.\<close>

definition prepared :: "proc_world \<Rightarrow> proc_world \<Rightarrow> nat \<Rightarrow> bool" where
  "prepared w0 w l \<longleftrightarrow>
     (\<exists>r x. pw_store w ! l = with_ends (pw_store w0 ! l) r x \<and> 0 \<le> r \<and> 0 \<le> x \<and> r \<noteq> x \<and> {r, x} \<subseteq> pw_open w - pw_open w0)"

lemma sub_prepare_ok:
  assumes "sub_prepare env l w = (Inr (), w')" and "pipes_fresh env" and "new_pipe (pw_store w ! l)" and "l < length (pw_store w)"
  shows "prepared w w' l \<and> same_data w w' \<and> (\<forall>k. k \<noteq> l \<longrightarrow> pw_store w' ! k = pw_store w ! k) \<and>
    pw_open w' = insert (own_end (pw_store w' ! l)) (insert (other_end (pw_store w' ! l)) (pw_open w))"
proof -
  have cl: "pipe_close l w = w"
    using assms(3) list_update_id [of "pw_store w" l]
    by (auto simp: new_pipe_def pipe_close_def close_if_def set_pipe_def simp del: list_update_id)
  obtain r x where p: "pe_pipe2 env (pw_time w) (pw_open w) = Inr (r, x)"
    and w': "w' = tick (set_pipe l (with_ends (pw_store w ! l) r x) (w\<lparr>pw_open := insert x (insert r (pw_open w))\<rparr>))"
    using assms(1,3) by (auto simp: sub_prepare_def cl new_pipe_def Let_def split: sum.splits)
  have f: "0 \<le> r" "0 \<le> x" "r \<noteq> x" "r \<notin> pw_open w" "x \<notin> pw_open w"
    using assms(2) p by (auto simp: pipes_fresh_def)
  have "prepared w w' l"
    unfolding prepared_def by (rule exI [of _ r], rule exI [of _ x]) (use f assms(4) in \<open>auto simp: w' tick_def set_pipe_def\<close>)
  then show ?thesis
    using assms(3,4) by (auto simp: w' tick_def set_pipe_def same_data_def new_pipe_def)
qed

lemma prepared_later:
  assumes "prepared w0 w l" and "pw_store w' ! l = pw_store w ! l" and "pw_open w \<subseteq> pw_open w'"
  shows "prepared w0 w' l"
  using assms unfolding prepared_def by fastforce

lemma prepared_earlier:
  assumes "prepared w1 w l" and "pw_store w1 ! l = pw_store w0 ! l" and "pw_open w0 \<subseteq> pw_open w1"
  shows "prepared w0 w l"
  using assms unfolding prepared_def by fastforce

definition ends_of :: "proc_world \<Rightarrow> nat \<Rightarrow> int set" where
  "ends_of w l = {own_end (pw_store w ! l), other_end (pw_store w ! l)}"

lemma prepare_all_ok:
  assumes "prepare_all env m w = (Inr (), w')" and "pipes_fresh env" and "distinct (map snd m)"
    and "\<forall>l \<in> set (map snd m). l < length (pw_store w) \<and> new_pipe (pw_store w ! l)"
  shows "(\<forall>l \<in> set (map snd m). prepared w w' l) \<and> same_data w w' \<and>
    (\<forall>k. k \<notin> set (map snd m) \<longrightarrow> pw_store w' ! k = pw_store w ! k) \<and>
    pw_open w' = pw_open w \<union> (\<Union>l \<in> set (map snd m). ends_of w' l) \<and>
    (\<forall>l \<in> set (map snd m). \<forall>l' \<in> set (map snd m). l \<noteq> l' \<longrightarrow> ends_of w' l \<inter> ends_of w' l' = {})"
  using assms
proof (induction m arbitrary: w)
  case Nil
  then show ?case by (simp add: same_data_def)
next
  case (Cons p m)
  obtain fd l where p: "p = (fd, l)" by fastforce
  from Cons.prems(1) obtain w1 where s: "sub_prepare env l w = (Inr (), w1)" and r: "prepare_all env m w1 = (Inr (), w')"
    by (auto simp: p sx_seq_eq_Inr_iff)
  have 1: "prepared w w1 l" "same_data w w1" "\<forall>k. k \<noteq> l \<longrightarrow> pw_store w1 ! k = pw_store w ! k"
      "pw_open w1 = pw_open w \<union> ends_of w1 l"
    using sub_prepare_ok [OF s Cons.prems(2)] Cons.prems(4) by (auto simp: p ends_of_def)
  have l: "l \<notin> set (map snd m)" using Cons.prems(3) by (simp add: p)
  have "k < length (pw_store w1) \<and> new_pipe (pw_store w1 ! k)" if k: "k \<in> set (map snd m)" for k
  proof -
    have "k \<noteq> l" using k l by blast
    then have "pw_store w1 ! k = pw_store w ! k" using 1(3) by blast
    moreover have "k < length (pw_store w) \<and> new_pipe (pw_store w ! k)" using Cons.prems(4) k by auto
    ultimately show ?thesis using 1(2) by (simp add: same_data_def)
  qed
  then have new1: "\<forall>k \<in> set (map snd m). k < length (pw_store w1) \<and> new_pipe (pw_store w1 ! k)" by blast
  have dist: "distinct (map snd m)" using Cons.prems(3) by simp
  note IH = Cons.IH [OF r Cons.prems(2) dist new1]
  then have prep2: "\<forall>k \<in> set (map snd m). prepared w1 w' k" by (rule conjunct1)
  from IH have rest2: "same_data w1 w'" "\<forall>k. k \<notin> set (map snd m) \<longrightarrow> pw_store w' ! k = pw_store w1 ! k"
    "pw_open w' = pw_open w1 \<union> (\<Union>k \<in> set (map snd m). ends_of w' k)"
    "\<forall>k \<in> set (map snd m). \<forall>k' \<in> set (map snd m). k \<noteq> k' \<longrightarrow> ends_of w' k \<inter> ends_of w' k' = {}"
    by simp_all
  have sl: "pw_store w' ! l = pw_store w1 ! l" using rest2(2) l by blast
  have mono: "pw_open w1 \<subseteq> pw_open w'" using rest2(3) by blast
  have el: "ends_of w' l = ends_of w1 l" by (simp add: ends_of_def sl)
  have pl: "prepared w w' l" using 1(1) sl mono by (rule prepared_later)
  have pm: "prepared w w' k" if k: "k \<in> set (map snd m)" for k
  proof (rule prepared_earlier)
    show "prepared w1 w' k" using prep2 k by blast
    have "k \<noteq> l" using k l by blast
    then show "pw_store w1 ! k = pw_store w ! k" using 1(3) by blast
    show "pw_open w \<subseteq> pw_open w1" using 1(4) by blast
  qed
  have disj: "ends_of w' k \<inter> ends_of w' l = {}" if k: "k \<in> set (map snd m)" for k
  proof -
    have "prepared w1 w' k" "new_pipe (pw_store w1 ! k)" using prep2 new1 k by blast+
    then have "ends_of w' k \<inter> pw_open w1 = {}" by (auto simp: prepared_def ends_of_def new_pipe_def)
    then show ?thesis using 1(4) el by blast
  qed
  then have disj': "\<forall>k \<in> set (map snd m). ends_of w' l \<inter> ends_of w' k = {}" by blast
  have dat: "same_data w w'" using 1(2) rest2(1) by (rule same_data_trans)
  have opn: "pw_open w' = pw_open w \<union> (\<Union>k \<in> insert l (set (map snd m)). ends_of w' k)"
    using rest2(3) 1(4) el by auto
  have oth: "\<forall>k. k \<notin> insert l (set (map snd m)) \<longrightarrow> pw_store w' ! k = pw_store w ! k"
    using rest2(2) 1(3) by simp
  have "\<forall>k \<in> insert l (set (map snd m)). \<forall>k' \<in> insert l (set (map snd m)). k \<noteq> k' \<longrightarrow> ends_of w' k \<inter> ends_of w' k' = {}"
    using rest2(4) disj disj' by simp
  moreover have "set (map snd (p # m)) = insert l (set (map snd m))" by (simp add: p)
  ultimately show ?case using pl pm dat opn oth by simp
qed

definition finalize_all :: "(int \<times> nat) list \<Rightarrow> proc_world \<Rightarrow> proc_world" where
  "finalize_all m w = foldl (\<lambda>w (fd, l). finalizeParent l w) w m"

fun parent_pipe :: "sub_fd \<Rightarrow> sub_fd" where
  "parent_pipe (Redirect fd) = Redirect fd"
| "parent_pipe (ParentToChild r x) = ParentToChild (-1) x"
| "parent_pipe (ChildToParent r x) = ChildToParent r (-1)"

lemma finalizeParent_pipe:
  assumes "pw_store w ! l = with_ends p r x" and "new_pipe p" and "l < length (pw_store w)"
  shows "pw_store (finalizeParent l w) ! l = parent_pipe (pw_store w ! l)"
    "pw_open (finalizeParent l w) = pw_open w - {other_end (pw_store w ! l)}"
    "k \<noteq> l \<Longrightarrow> pw_store (finalizeParent l w) ! k = pw_store w ! k"
    "same_data w (finalizeParent l w)"
  using assms by (auto simp: finalizeParent_def set_pipe_def fd_close_def new_pipe_def same_data_def)

lemma finalize_all_other: "k \<notin> set (map snd m) \<Longrightarrow> pw_store (finalize_all m w) ! k = pw_store w ! k"
proof (induction m arbitrary: w)
  case (Cons a m)
  obtain fd l where a: "a = (fd, l)" by fastforce
  have "pw_store (finalizeParent l w) ! k = pw_store w ! k"
    using Cons.prems by (auto simp: a finalizeParent_def set_pipe_def fd_close_def split: sub_fd.split)
  then show ?case using Cons by (simp add: finalize_all_def a)
qed (simp add: finalize_all_def)

lemma finalize_all_ok:
  assumes "distinct (map snd m)"
    and "\<forall>l \<in> set (map snd m). l < length (pw_store w) \<and> (\<exists>p r x. new_pipe p \<and> pw_store w ! l = with_ends p r x)"
  shows "(\<forall>l \<in> set (map snd m). pw_store (finalize_all m w) ! l = parent_pipe (pw_store w ! l)) \<and>
    same_data w (finalize_all m w) \<and> pw_open (finalize_all m w) = pw_open w - (\<lambda>l. other_end (pw_store w ! l)) ` set (map snd m)"
  using assms
proof (induction m arbitrary: w)
  case Nil
  then show ?case by (simp add: finalize_all_def same_data_def)
next
  case (Cons a m)
  obtain fd l where a: "a = (fd, l)" by fastforce
  let ?w1 = "finalizeParent l w"
  have l: "l \<notin> set (map snd m)" and dist: "distinct (map snd m)" using Cons.prems(1) by (simp_all add: a)
  obtain p r x where pl: "pw_store w ! l = with_ends p r x" "new_pipe p" "l < length (pw_store w)"
    using Cons.prems(2) by (auto simp: a)
  note f = finalizeParent_pipe [OF pl]
  have st: "pw_store ?w1 ! k = pw_store w ! k" if "k \<in> set (map snd m)" for k
    using that l f(3) by metis
  have "\<forall>k \<in> set (map snd m). k < length (pw_store ?w1) \<and> (\<exists>p r x. new_pipe p \<and> pw_store ?w1 ! k = with_ends p r x)"
    using st f(4) Cons.prems(2) by (simp add: same_data_def)
  note IH = Cons.IH [OF dist this]
  have "finalize_all (a # m) w = finalize_all m ?w1" by (simp add: finalize_all_def a)
  moreover have "pw_store (finalize_all m ?w1) ! l = pw_store ?w1 ! l" by (rule finalize_all_other [OF l])
  ultimately show ?case
    using IH f st by (auto simp: a intro: same_data_trans)
qed

text \<open>The descriptors of the subprocess are the pipes of the objects.\<close>

lemma smap_insert_last: "smap_ok (m @ [(k, v)]) \<Longrightarrow> smap_insert k v m = m @ [(k, v)]"
  by (induction m) (auto simp: smap_ok_def)

lemma setChildFD_all:
  "smap_ok ios \<Longrightarrow> foldl (\<lambda>p (fd, obj). setChildFD fd (Some (io_pipe obj)) p) SubProcess ios =
     SubProcess\<lparr>sp_fdmap := map (\<lambda>(fd, obj). (fd, io_pipe obj)) ios\<rparr>"
proof (induction ios rule: rev_induct)
  case Nil
  then show ?case by (simp add: SubProcess_def)
next
  case (snoc a ios)
  obtain fd obj where a: "a = (fd, obj)" by fastforce
  let ?m = "map (\<lambda>(fd, obj). (fd, io_pipe obj)) ios"
  have ok: "smap_ok ios" "\<forall>k \<in> fst ` set ios. k < fd" using snoc.prems by (auto simp: smap_ok_def sorted_wrt_append a)
  have "filter (\<lambda>(k, l). k \<noteq> fd) ?m = ?m" using ok(2) by (auto simp: filter_id_conv)
  moreover have "smap_ok (?m @ [(fd, io_pipe obj)])"
    using ok by (auto simp: smap_ok_def sorted_wrt_append case_prod_beta comp_def)
  ultimately show ?case
    using snoc.IH [OF ok(1)] by (simp add: a setChildFD_def Let_def smap_insert_last)
qed

section \<open>From the beginning to the end\<close>

fun io_new :: "proc_world \<Rightarrow> io_obj \<Rightarrow> bool" where
  "io_new w (IStreamIO l i f b) \<longleftrightarrow> l < length (pw_store w) \<and> pw_store w ! l = ParentToChild (-1) (-1) \<and> b = []"
| "io_new w (OStreamIO l i out) \<longleftrightarrow> l < length (pw_store w) \<and> pw_store w ! l = ChildToParent (-1) (-1)"

text \<open>After the fork the parent has its end of the pipe of each object, and nothing else is new.\<close>

fun io_spawned :: "int \<Rightarrow> proc_world \<Rightarrow> io_obj \<Rightarrow> bool" where
  "io_spawned d w (IStreamIO l i f b) \<longleftrightarrow> l < length (pw_store w) \<and> 0 \<le> d \<and> d \<in> pw_open w \<and> pw_store w ! l = ParentToChild (-1) d \<and> b = []"
| "io_spawned d w (OStreamIO l i out) \<longleftrightarrow> l < length (pw_store w) \<and> 0 \<le> d \<and> d \<in> pw_open w \<and> pw_store w ! l = ChildToParent d (-1)"

lemma io_new_pipe: "io_new w obj \<Longrightarrow> io_pipe obj < length (pw_store w) \<and> new_pipe (pw_store w ! io_pipe obj)"
  by (cases obj) (simp_all add: new_pipe_def)

lemma io_spawned_pipe:
  assumes "io_new w obj" and "prepared w w1 (io_pipe obj)" and "same_data w w2"
    and "pw_store w2 ! io_pipe obj = parent_pipe (pw_store w1 ! io_pipe obj)" and "own_end (pw_store w1 ! io_pipe obj) \<in> pw_open w2"
  shows "io_spawned (own_end (pw_store w1 ! io_pipe obj)) w2 obj"
  using assms by (cases obj) (auto simp: prepared_def same_data_def)

lemma sub_spawn_ok:
  assumes "sub_spawn env (SubProcess\<lparr>sp_fdmap := map (\<lambda>(fd, obj). (fd, io_pipe obj)) ios\<rparr>) w = (Inr (), p1, w2)"
    and "pipes_fresh env" and "distinct (pipes_of ios)" and "\<forall>(fd, obj) \<in> set ios. io_new w obj"
  shows "\<exists>ds. list_all2 (\<lambda>d (fd, obj). io_spawned d w2 obj \<and> d \<notin> pw_open w) ds ios \<and> distinct ds \<and> same_data w w2 \<and>
    pw_open w2 = pw_open w \<union> set ds \<and> (\<exists>pid. p1 = SubProcess\<lparr>sp_pid := pid, sp_fdmap := map (\<lambda>(fd, obj). (fd, io_pipe obj)) ios\<rparr>)"
proof -
  let ?m = "map (\<lambda>(fd, obj). (fd, io_pipe obj)) ios"
  have snd_m: "map snd ?m = pipes_of ios" by (simp add: pipes_of_def case_prod_beta comp_def)
  have new: "\<forall>l \<in> set (pipes_of ios). l < length (pw_store w) \<and> new_pipe (pw_store w ! l)"
    using assms(4) io_new_pipe by (fastforce simp: pipes_of_def)
  obtain w1 where prep: "prepare_all env ?m w = (Inr (), w1)" and w2: "w2 = finalize_all ?m (tick w1)"
    and p1: "\<exists>pid. p1 = SubProcess\<lparr>sp_pid := pid, sp_fdmap := ?m\<rparr>"
    using assms(1) by (auto simp: sub_spawn_def finalize_all_def SubProcess_def split: prod.splits sum.splits)
  note P = prepare_all_ok [OF prep assms(2), unfolded snd_m, OF assms(3) new]
  have t: "pw_store (tick w1) = pw_store w1" "pw_open (tick w1) = pw_open w1" by (simp_all add: tick_def)
  have prepd: "\<forall>l \<in> set (pipes_of ios). prepared w w1 l" using P by (rule conjunct1)
  have data1: "same_data w w1" and open1: "pw_open w1 = pw_open w \<union> (\<Union>l \<in> set (pipes_of ios). ends_of w1 l)"
    and disj: "\<forall>l \<in> set (pipes_of ios). \<forall>l' \<in> set (pipes_of ios). l \<noteq> l' \<longrightarrow> ends_of w1 l \<inter> ends_of w1 l' = {}"
    using P by simp_all
  have "\<forall>l \<in> set (pipes_of ios). l < length (pw_store (tick w1)) \<and> (\<exists>p r x. new_pipe p \<and> pw_store (tick w1) ! l = with_ends p r x)"
    using new prepd data1 by (fastforce simp: t prepared_def same_data_def)
  note F = finalize_all_ok [of ?m "tick w1", unfolded snd_m, OF assms(3) this, folded w2, unfolded t]
  let ?own = "\<lambda>l. own_end (pw_store w1 ! l)" and ?other = "\<lambda>l. other_end (pw_store w1 ! l)"
  have ends: "?own l \<noteq> ?other l \<and> ?own l \<notin> pw_open w \<and> ?other l \<notin> pw_open w" if "l \<in> set (pipes_of ios)" for l
    using bspec [OF prepd that] bspec [OF new that] by (auto simp: prepared_def new_pipe_def)
  have inj: "?own l \<noteq> ?own l' \<and> ?own l \<noteq> ?other l'" if "l \<in> set (pipes_of ios)" "l' \<in> set (pipes_of ios)" "l \<noteq> l'" for l l'
    using disj that by (auto simp: ends_of_def)
  have own_other: "?other l' \<noteq> ?own l" if "l \<in> set (pipes_of ios)" "l' \<in> set (pipes_of ios)" for l l'
    using ends [OF that(1)] inj [OF that] by (cases "l = l'") auto
  let ?ds = "map ?own (pipes_of ios)"
  have open2: "pw_open w2 = pw_open w \<union> set ?ds"
  proof -
    have "pw_open w2 = pw_open w1 - ?other ` set (pipes_of ios)" using F by simp
    also have "\<dots> = pw_open w \<union> ?own ` set (pipes_of ios)"
      unfolding open1 using own_other ends by (auto simp: ends_of_def)
    finally show ?thesis by simp
  qed
  have data2: "same_data w w2" using F data1 by (auto simp: same_data_def tick_def)
  have "distinct ?ds" using assms(3) inj by (auto simp: distinct_map inj_on_def)
  moreover have "io_spawned (?own (io_pipe obj)) w2 obj \<and> ?own (io_pipe obj) \<notin> pw_open w" if "(fd, obj) \<in> set ios" for fd obj
  proof -
    have l: "io_pipe obj \<in> set (pipes_of ios)" using that by (force simp: pipes_of_def)
    have "io_new w obj" using assms(4) that by auto
    moreover have "prepared w w1 (io_pipe obj)" using prepd l by blast
    moreover have "pw_store w2 ! io_pipe obj = parent_pipe (pw_store w1 ! io_pipe obj)" using F l by blast
    moreover have "?own (io_pipe obj) \<in> pw_open w2" using l by (simp add: open2)
    ultimately show ?thesis
      using io_spawned_pipe [of w obj w1 w2] data2 ends [OF l] by blast
  qed
  then have "list_all2 (\<lambda>d (fd, obj). io_spawned d w2 obj \<and> d \<notin> pw_open w) ?ds ios"
    by (auto simp: list_all2_conv_all_nth pipes_of_def split: prod.split) (metis nth_mem)+
  ultimately show ?thesis using data2 open2 p1 by blast
qed

fun with_idx :: "nat \<Rightarrow> io_obj \<Rightarrow> io_obj" where
  "with_idx i (IStreamIO l i0 f b) = IStreamIO l i f b"
| "with_idx i (OStreamIO l i0 out) = OStreamIO l i out"

fun poll_start :: "sub_fd list \<Rightarrow> io_obj \<Rightarrow> pollfd" where
  "poll_start store (IStreamIO l i f b) =
     \<lparr>pf_fd = (case pipe_ends (store ! l) of Some (r, x) \<Rightarrow> x | None \<Rightarrow> -1), pf_events = POLLOUT, pf_revents = 0\<rparr>"
| "poll_start store (OStreamIO l i out) =
     \<lparr>pf_fd = (case pipe_ends (store ! l) of Some (r, x) \<Rightarrow> r | None \<Rightarrow> -1), pf_events = POLLIN, pf_revents = 0\<rparr>"

lemma setupIO_eq:
  "setupIO store obj mx =
     (with_idx (length (mx_fds mx)) obj,
      mx\<lparr>mx_active := (if pf_fd (poll_start store obj) \<ge> 0 then mx_active mx + 1 else mx_active mx),
         mx_fds := mx_fds mx @ [poll_start store obj]\<rparr>)"
  by (cases obj) (simp_all add: mx_add_def)

lemma setup_all_ok:
  assumes "setup_all store ios mx = (ios', mx')" and "act_ok mx"
  shows "mx_fds mx' = mx_fds mx @ map (poll_start store \<circ> snd) ios \<and> act_ok mx' \<and> length ios' = length ios \<and>
    (\<forall>k < length ios. ios' ! k = (fst (ios ! k), with_idx (length (mx_fds mx) + k) (snd (ios ! k))))"
  using assms
proof (induction ios arbitrary: mx ios')
  case (Cons a ios)
  obtain fd obj where a: "a = (fd, obj)" by fastforce
  obtain obj1 mx1 ios1 where s: "setupIO store obj mx = (obj1, mx1)" and r: "setup_all store ios mx1 = (ios1, mx')"
    and ios': "ios' = (fd, obj1) # ios1"
    using Cons.prems(1) by (auto simp: a split: prod.splits)
  have mx1: "mx1 = mx\<lparr>mx_active := (if pf_fd (poll_start store obj) \<ge> 0 then mx_active mx + 1 else mx_active mx),
      mx_fds := mx_fds mx @ [poll_start store obj]\<rparr>" and o: "obj1 = with_idx (length (mx_fds mx)) obj"
    using s by (simp_all add: setupIO_eq)
  have "act_ok mx1" using Cons.prems(2) by (simp add: act_ok_def mx1)
  note IH = Cons.IH [OF r this]
  show ?case
    using IH by (auto simp: a ios' o mx1 nth_Cons split: nat.splits)
qed simp

lemma io_spawned_ok:
  assumes "io_spawned d w obj" and "mx_fds mx ! k = poll_start (pw_store w) obj" and "k < length (mx_fds mx)"
  shows "io_ok H d w obj mx w (with_idx k obj)"
  using assms by (cases obj) (auto simp: is_open_def)

lemma spawned_run_ok:
  assumes "list_all2 (\<lambda>d (fd, obj). io_spawned d w obj) ds ios" and "distinct ds" and "distinct (pipes_of ios)"
    and "setup_all (pw_store w) ios MultiplexIO = (ios', mx)"
  shows "run_ok H w (zip ds (map snd ios)) mx w ios' \<and> map fst ios' = map fst ios \<and> pipes_of ios' = pipes_of ios"
proof -
  have "act_ok MultiplexIO" by (simp add: act_ok_def MultiplexIO_def)
  note S = setup_all_ok [OF assms(4) this]
  have len: "length ds = length ios" using assms(1) by (rule list_all2_lengthD)
  have k: "ios' ! k = (fst (ios ! k), with_idx k (snd (ios ! k)))" "mx_fds mx ! k = poll_start (pw_store w) (snd (ios ! k))"
    if "k < length ios" for k
    using S that by (simp_all add: MultiplexIO_def)
  have "io_ok H (ds ! k) w (snd (ios ! k)) mx w (with_idx k (snd (ios ! k)))" if "k < length ios" for k
    using list_all2_nthD2 [OF assms(1) that] k(2) [OF that] S that
    by (intro io_spawned_ok) (auto simp: case_prod_beta MultiplexIO_def)
  then have "ios_ok H w (zip ds (map snd ios)) mx w ios'"
    using S len k(1) by (auto simp: ios_ok_def list_all2_conv_all_nth)
  moreover have p: "pipes_of ios' = pipes_of ios"
  proof (rule nth_equalityI)
    fix j assume "j < length (pipes_of ios')"
    then show "pipes_of ios' ! j = pipes_of ios ! j"
      using S k(1) [of j] by (cases "snd (ios ! j)") (simp_all add: pipes_of_def)
  qed (use S in \<open>simp add: pipes_of_def\<close>)
  moreover have "idxs_of ios' = [0..<length ios]"
  proof (rule nth_equalityI)
    fix j assume "j < length (idxs_of ios')"
    then show "idxs_of ios' ! j = [0..<length ios] ! j"
      using S k(1) [of j] by (cases "snd (ios ! j)") (simp_all add: idxs_of_def)
  qed (use S in \<open>simp add: idxs_of_def\<close>)
  moreover have "map fst ios' = map fst ios" using S k(1) by (auto intro: nth_equalityI)
  ultimately show ?thesis using assms(2,3) len S by (simp add: run_ok_def MultiplexIO_def)
qed

text \<open>What an object has moved through its descriptor by the end.\<close>

fun moved :: "bool \<Rightarrow> int \<Rightarrow> proc_world \<Rightarrow> io_obj \<Rightarrow> proc_world \<Rightarrow> io_obj \<Rightarrow> bool" where
  "moved H d w (IStreamIO l i f b) w' (IStreamIO l' i' f' b') \<longleftrightarrow>
     (\<exists>t. pw_sent w' d @ t = pw_sent w d @ is_rest f \<and> length (pw_sent w d) \<le> length (pw_sent w' d) \<and> (pw_limits w d = [] \<longrightarrow> t = []))"
| "moved H d w (OStreamIO l i out) w' (OStreamIO l' i' out') \<longleftrightarrow>
     (\<exists>t. out' @ t = out @ content (pw_reads w d) \<and> length out \<le> length out' \<and> (H \<longrightarrow> t = []))"
| "moved H d w obj w' obj' \<longleftrightarrow> False"

lemma closed_moved:
  assumes "io_ok H d w obj mx w' obj'" and "pf_fd (mx_fds mx ! io_idx obj') < 0"
  shows "moved H d w obj w' obj' \<and> d \<notin> pw_open w' \<and> new_pipe (pw_store w' ! io_pipe obj')"
  using assms by (cases "(H, d, w, obj, mx, w', obj')" rule: io_ok.cases)
    (auto simp: is_open_def is_closed_def new_pipe_def)

definition filter_ok :: "io_map \<Rightarrow> proc_world \<Rightarrow> bool" where
  "filter_ok ios w \<longleftrightarrow> smap_ok ios \<and> distinct (pipes_of ios) \<and> (\<forall>(fd, obj) \<in> set ios. io_new w obj) \<and>
     finite (pw_open w)"

lemma moved_same_data: "same_data w w2 \<Longrightarrow> moved H d w2 obj w' obj' = moved H d w obj w' obj'"
  by (cases "(H, d, w, obj, w', obj')" rule: moved.cases) (simp_all add: same_data_def)

lemma loop_moved:
  assumes "run_ok H w2 (zip ds objs) mx w' ios'" and "mx_active mx \<le> 0" and "length ds = length objs"
  shows "list_all2 (\<lambda>(d, obj) (fd, obj'). moved H d w2 obj w' obj' \<and> new_pipe (pw_store w' ! io_pipe obj')) (zip ds objs) ios' \<and>
    set ds \<inter> pw_open w' = {}"
proof -
  have ok: "ios_ok H w2 (zip ds objs) mx w' ios'" and act: "act_ok mx" using assms(1) by (simp_all add: run_ok_def)
  have closed: "moved H d w2 obj w' obj' \<and> d \<notin> pw_open w' \<and> new_pipe (pw_store w' ! io_pipe obj')"
    if "io_ok H d w2 obj mx w' obj'" and "(fd, obj') \<in> set ios'" for d obj fd obj'
  proof (rule closed_moved [OF that(1)])
    have "io_idx obj' \<in> set (idxs_of ios')" using that(2) by (force simp: idxs_of_def)
    then show "pf_fd (mx_fds mx ! io_idx obj') < 0"
      using inactive_closed [OF act assms(2)] ios_ok_idx [OF ok] by blast
  qed
  have "list_all2 (\<lambda>(d, obj) (fd, obj'). moved H d w2 obj w' obj' \<and> d \<notin> pw_open w' \<and> new_pipe (pw_store w' ! io_pipe obj'))
      (zip ds objs) ios'"
    by (rule list.rel_mono_strong [OF ok [unfolded ios_ok_def]]) (use closed in \<open>auto simp: case_prod_beta\<close>)
  then show ?thesis
    using assms(3) by (auto simp: list_all2_conv_all_nth case_prod_beta in_set_conv_nth)
qed

lemma leave_Inl: "leave env p (Inl e) \<noteq> Inr a"
  by (simp add: leave_def split: sum.split)

lemma execute_moves:
  assumes "filter_execute env ios w = Some (Inr status, ios', w')" and "filter_ok ios w" and "pipes_fresh env"
    and "H \<longrightarrow> hup_with_in env"
  shows "\<exists>ds. distinct ds \<and> list_all2 (\<lambda>(d, fd, obj) (fd', obj'). fd' = fd \<and> moved H d w obj w' obj') (zip ds ios) ios' \<and>
    length ds = length ios \<and> pw_open w' = pw_open w \<and> (\<forall>(fd, obj) \<in> set ios'. new_pipe (pw_store w' ! io_pipe obj))"
proof -
  let ?p = "SubProcess\<lparr>sp_fdmap := map (\<lambda>(fd, obj). (fd, io_pipe obj)) ios\<rparr>"
  have ok: "smap_ok ios" "distinct (pipes_of ios)" "\<forall>(fd, obj) \<in> set ios. io_new w obj"
    using assms(2) by (simp_all add: filter_ok_def)
  obtain p1 w1 where sp: "sub_spawn env ?p w = (Inr (), p1, w1)"
    using assms(1) setChildFD_all [OF ok(1)]
    by (auto simp: filter_execute_def leave_def Let_def split: prod.splits sum.splits)
  obtain ios1 mx where st: "setup_all (pw_store w1) ios MultiplexIO = (ios1, mx)" by fastforce
  have "Option.bind (filter_loop env ios1 mx w1) (\<lambda>(r, ios2, mx2, w2).
      case r of
        Inl e \<Rightarrow> Some (leave env p1 (Inl e), ios2, w2)
      | Inr _ \<Rightarrow>
          (case sub_wait env p1 of
             (Inl e, p2) \<Rightarrow> Some (leave env p2 (Inl e), ios2, w2)
           | (Inr status, p2) \<Rightarrow> Some (leave env p2 (Inr (exit_status status)), ios2, w2))) = Some (Inr status, ios', w')"
    using assms(1) by (simp add: filter_execute_def setChildFD_all [OF ok(1)] sp st)
  then obtain r ios2 mx2 w2 where lp0: "filter_loop env ios1 mx w1 = Some (r, ios2, mx2, w2)"
    and rest: "(case r of
        Inl e \<Rightarrow> Some (leave env p1 (Inl e), ios2, w2)
      | Inr _ \<Rightarrow>
          (case sub_wait env p1 of
             (Inl e, p2) \<Rightarrow> Some (leave env p2 (Inl e), ios2, w2)
           | (Inr status, p2) \<Rightarrow> Some (leave env p2 (Inr (exit_status status)), ios2, w2))) = Some (Inr status, ios', w')"
    by (auto simp: bind_eq_Some_conv)
  have lp: "filter_loop env ios1 mx w1 = Some (Inr (), ios', mx2, w')"
    using lp0 rest by (cases r) (auto simp: leave_Inl split: prod.splits sum.splits)
  obtain ds where ds: "list_all2 (\<lambda>d (fd, obj). io_spawned d w1 obj \<and> d \<notin> pw_open w) ds ios" "distinct ds" "same_data w w1"
      "pw_open w1 = pw_open w \<union> set ds"
    using sub_spawn_ok [OF sp assms(3) ok(2,3)] by blast
  have "list_all2 (\<lambda>d (fd, obj). io_spawned d w1 obj) ds ios" using ds(1) by (auto elim!: list.rel_mono_strong)
  note run = spawned_run_ok [OF this ds(2) ok(2) st]
  have end_ok: "run_ok H w1 (zip ds (map snd ios)) mx2 w' ios'" "mx_active mx2 \<le> 0" "map fst ios' = map fst ios"
    using filter_loop_ok [OF lp refl _ assms(4)] run by (metis, metis, metis)
  have len: "length ds = length ios" using ds(1) by (rule list_all2_lengthD)
  note L = loop_moved [OF end_ok(1,2)]
  have fresh: "set ds \<inter> pw_open w = {}"
    using ds(1) len by (auto simp: list_all2_conv_all_nth case_prod_beta in_set_conv_nth)
  have "set (map fst (zip ds (map snd ios))) = set ds" using len by simp
  then have out: "\<forall>d. d \<notin> set ds \<longrightarrow> (d \<in> pw_open w' \<longleftrightarrow> d \<in> pw_open w1)" using end_ok(1) by (simp add: run_ok_def)
  have "pw_open w' = pw_open w" using out L len fresh ds(4) by auto
  moreover have "length ios' = length ios" using end_ok(3) by (metis length_map)
  then have "list_all2 (\<lambda>(d, fd, obj) (fd', obj'). fd' = fd \<and> moved H d w obj w' obj') (zip ds ios) ios'"
    using L len end_ok(3) moved_same_data [OF ds(3)]
    by (auto simp: list_all2_conv_all_nth case_prod_beta) (metis nth_map)
  moreover have "\<forall>(fd, obj) \<in> set ios'. new_pipe (pw_store w' ! io_pipe obj)"
    using L len \<open>length ios' = length ios\<close> by (auto simp: list_all2_conv_all_nth case_prod_beta in_set_conv_nth) (metis snd_conv)
  ultimately show ?thesis using ds(2) len by blast
qed

end
