(* ===== verification/FilterEnds.thy ===== *)
theory FilterEnds
  imports FilterRuns
begin

text \<open>
  When the loop of the filter ends: with a \<^verbatim>\<open>poll\<close> that keeps reporting the descriptors as ready and a child that closes its outputs, and when
  it does not: once \<^verbatim>\<open>poll\<close> reports nothing but an error condition.
\<close>

unbundle bit_operations_syntax

section \<open>Progress\<close>

text \<open>No call fails: the input is not broken, every write takes something, every read delivers bytes or the end.\<close>

fun lively :: "int \<Rightarrow> proc_world \<Rightarrow> io_obj \<Rightarrow> bool" where
  "lively d w (IStreamIO l i f b) \<longleftrightarrow> \<not> is_broken f \<and> (\<forall>x \<in> set (pw_limits w d). \<exists>k. x = Inr k \<and> 0 < k)"
| "lively d w (OStreamIO l i out) \<longleftrightarrow> (\<forall>x \<in> set (pw_reads w d). \<exists>s. x = Inr s)"

definition chunk_effort :: "errno + string \<Rightarrow> nat" where
  "chunk_effort x = (case x of Inl e \<Rightarrow> 0 | Inr s \<Rightarrow> Suc (length s))"

fun work :: "int \<Rightarrow> proc_world \<Rightarrow> io_obj \<Rightarrow> nat" where
  "work d w (IStreamIO l i f b) = length b + length (is_rest f)"
| "work d w (OStreamIO l i out) = sum_list (map chunk_effort (pw_reads w d))"

definition effort :: "int \<Rightarrow> mplex \<Rightarrow> proc_world \<Rightarrow> io_obj \<Rightarrow> nat" where
  "effort d mx w obj = (if pf_fd (mx_fds mx ! io_idx obj) < 0 then 0 else Suc (work d w obj))"

definition all_ready :: "pollfd \<Rightarrow> bool" where
  "all_ready p \<longleftrightarrow> (pf_fd p \<ge> 0 \<longrightarrow>
     (pf_events p = POLLIN \<longrightarrow> pf_revents p AND POLLIN \<noteq> 0) \<and> (pf_events p = POLLOUT \<longrightarrow> pf_revents p AND POLLOUT \<noteq> 0))"

fun events_of :: "io_obj \<Rightarrow> 16 word" where
  "events_of (IStreamIO l i f b) = POLLOUT"
| "events_of (OStreamIO l i out) = POLLIN"

lemma handle_progress:
  assumes "io_ok H d w0 obj0 mx w obj" and "lively d w obj" and "polled False (mx_fds mx ! io_idx obj)"
    and "all_ready (mx_fds mx ! io_idx obj)" and "pf_events (mx_fds mx ! io_idx obj) = events_of obj"
  shows "\<exists>obj' mx' w'. handleEvents obj mx w = (Inr (), obj', mx', w') \<and> lively d w' obj' \<and>
    (if pf_fd (mx_fds mx ! io_idx obj) < 0 then effort d mx' w' obj' = effort d mx w obj else effort d mx' w' obj' < effort d mx w obj)"
proof (cases obj)
  case (IStreamIO l i f b)
  let ?p = "mx_fds mx ! i"
  obtain l0 i0 f0 b0 where obj0: "obj0 = IStreamIO l0 i0 f0 b0"
    using assms(1) IStreamIO by (cases obj0) auto
  have i: "i < length (mx_fds mx)" and d: "0 \<le> d" using assms(1) by (auto simp: obj0 IStreamIO)
  show ?thesis
  proof (cases "pf_fd ?p < 0")
    case True
    then show ?thesis using assms(2,3) i by (auto simp: IStreamIO polled_def mx_at_def)
  next
    case False
    then have o: "is_open d (ParentToChild (-1) d) obj mx w" "b \<noteq> [] \<longrightarrow> \<not> is_eof f"
      using assms(1) by (auto simp: obj0 IStreamIO is_closed_def)
    then have fd: "pf_fd ?p = d" and dopen: "d \<in> pw_open w" by (auto simp: is_open_def IStreamIO)
    have ready: "pf_revents ?p AND POLLOUT \<noteq> 0"
      using assms(4,5) False by (auto simp: all_ready_def IStreamIO)
    obtain b1 f1 where u: "input_underflow f b = (b1, f1)" by fastforce
    have f1: "\<not> is_broken f1" "b = [] \<longrightarrow> \<not> is_bad f1" "length b1 + length (is_rest f1) = length b + length (is_rest f)"
        "b1 = [] \<longrightarrow> is_eof f1"
      using u assms(2) by (auto simp: IStreamIO input_underflow_def is_read_def Let_def BUFSIZ_def split: if_splits)
    obtain cnt w1 where wr: "pipe_write d b1 w = (Inr cnt, w1)" "b1 \<noteq> [] \<longrightarrow> 0 < cnt" "cnt \<le> length b1"
        "set (pw_limits w1 d) \<subseteq> set (pw_limits w d)"
      using assms(2) dopen
      by (cases "pw_limits w d") (auto simp: IStreamIO pipe_write_def Let_def subset_insertI)
    show ?thesis
    proof (cases "is_eof f1")
      case True
      then have h: "handleEvents obj mx w = (Inr (), IStreamIO l i f1 (drop cnt b1), deactivate i mx, pipe_close l w1)"
        using i ready u wr(1) fd f1(2) by (auto simp: IStreamIO mx_at_def)
      have "pw_limits (pipe_close l w1) = pw_limits w1"
        by (simp add: pipe_close_def set_pipe_def close_if_def fd_close_def split: option.split)
      then show ?thesis
        using h f1(1) wr(4) assms(2) i False by (auto simp: IStreamIO effort_def deactivate_def)
    next
      case notend: False
      then have h: "handleEvents obj mx w = (Inr (), IStreamIO l i f1 (drop cnt b1), mx, w1)"
        using i ready u wr(1) fd f1(2) by (auto simp: IStreamIO mx_at_def)
      then show ?thesis
        using f1 wr assms(2) False notend by (auto simp: IStreamIO effort_def)
    qed
  qed
next
  case (OStreamIO l i out)
  let ?p = "mx_fds mx ! i"
  obtain l0 i0 out0 where obj0: "obj0 = OStreamIO l0 i0 out0"
    using assms(1) OStreamIO by (cases obj0) auto
  have i: "i < length (mx_fds mx)" and d: "0 \<le> d" using assms(1) by (auto simp: obj0 OStreamIO)
  show ?thesis
  proof (cases "pf_fd ?p < 0")
    case True
    then show ?thesis using assms(2,3) i by (auto simp: OStreamIO polled_def mx_at_def)
  next
    case False
    then have fd: "pf_fd ?p = d" and dopen: "d \<in> pw_open w"
      using assms(1) by (auto simp: obj0 OStreamIO is_closed_def is_open_def)
    have ready: "pf_revents ?p AND POLLIN \<noteq> 0" using assms(4,5) False by (auto simp: all_ready_def OStreamIO)
    then have ready2: "pf_revents ?p AND (POLLIN OR POLLHUP) \<noteq> 0" by (auto simp: bit.conj_disj_distrib or_eq_0_iff)
    obtain s w1 where rd: "pipe_read d BUFSIZ w = (Inr s, w1)" "\<forall>x \<in> set (pw_reads w1 d). \<exists>s. x = Inr s"
        "s \<noteq> [] \<longrightarrow> sum_list (map chunk_effort (pw_reads w1 d)) < sum_list (map chunk_effort (pw_reads w d))"
    proof (cases "pw_reads w d")
      case Nil
      then show ?thesis using that dopen by (simp add: pipe_read_def)
    next
      case (Cons x rs)
      then obtain c where "x = Inr c" using assms(2) by (auto simp: OStreamIO)
      then show ?thesis
        using that Cons dopen assms(2) by (auto simp: OStreamIO pipe_read_def chunk_effort_def BUFSIZ_def)
    qed
    show ?thesis
    proof (cases "s = []")
      case True
      then have h: "handleEvents obj mx w = (Inr (), OStreamIO l i out, deactivate i mx, pipe_close l w1)"
        using i ready ready2 rd(1) fd by (auto simp: OStreamIO mx_at_def)
      have "pw_reads (pipe_close l w1) = pw_reads w1"
        by (simp add: pipe_close_def set_pipe_def close_if_def fd_close_def split: option.split)
      then show ?thesis using h rd(2) i False by (auto simp: OStreamIO effort_def deactivate_def)
    next
      case False': False
      then have h: "handleEvents obj mx w = (Inr (), OStreamIO l i (out @ s), mx, w1)"
        using i ready ready2 rd(1) fd by (auto simp: OStreamIO mx_at_def)
      then show ?thesis using rd(2,3) False' False by (auto simp: OStreamIO effort_def)
    qed
  qed
qed

definition ready_io :: "int \<Rightarrow> mplex \<Rightarrow> proc_world \<Rightarrow> io_obj \<Rightarrow> bool" where
  "ready_io d mx w obj \<longleftrightarrow> lively d w obj \<and> polled False (mx_fds mx ! io_idx obj) \<and> all_ready (mx_fds mx ! io_idx obj) \<and>
     pf_events (mx_fds mx ! io_idx obj) = events_of obj"

definition total :: "(int \<times> io_obj) list \<Rightarrow> mplex \<Rightarrow> proc_world \<Rightarrow> io_map \<Rightarrow> nat" where
  "total starts mx w ios = sum_list (map2 (\<lambda>(d, obj0) (fd, obj). effort d mx w obj) starts ios)"

definition all_io :: "(int \<Rightarrow> io_obj \<Rightarrow> bool) \<Rightarrow> (int \<times> io_obj) list \<Rightarrow> io_map \<Rightarrow> bool" where
  "all_io P starts ios \<longleftrightarrow> list_all2 (\<lambda>(d, obj0) (fd, obj). P d obj) starts ios"

lemma lively_frame: "lively d w obj \<Longrightarrow> same_outside L I D mx w mx' w' \<Longrightarrow> d \<notin> D \<Longrightarrow> lively d w' obj"
  by (cases obj) (simp_all add: same_outside_def)

lemma effort_frame:
  "same_outside L I D mx w mx' w' \<Longrightarrow> d \<notin> D \<Longrightarrow> io_idx obj \<notin> I \<Longrightarrow> effort d mx' w' obj = effort d mx w obj"
  by (cases obj) (simp_all add: effort_def same_outside_def)

lemma ready_frame:
  "ready_io d mx w obj \<Longrightarrow> same_outside L I D mx w mx' w' \<Longrightarrow> d \<notin> D \<Longrightarrow> io_idx obj \<notin> I \<Longrightarrow> ready_io d mx' w' obj"
  using lively_frame by (auto simp: ready_io_def same_outside_def)

lemma all_io_frame:
  assumes "all_io (P mx w) starts ios" and "same_outside L I D mx w mx' w'"
    and "\<And>d obj. P mx w d obj \<Longrightarrow> d \<notin> D \<Longrightarrow> io_idx obj \<notin> I \<Longrightarrow> P mx' w' d obj"
    and "set (idxs_of ios) \<inter> I = {}" "set (map fst starts) \<inter> D = {}"
  shows "all_io (P mx' w') starts ios"
  unfolding all_io_def
  by (rule list.rel_mono_strong [OF assms(1) [unfolded all_io_def]])
    (use assms(3-5) in \<open>force simp: idxs_of_def\<close>)

lemma total_frame:
  assumes "same_outside L I D mx w mx' w'" and "set (idxs_of ios) \<inter> I = {}" "set (map fst starts) \<inter> D = {}"
  shows "total starts mx' w' ios = total starts mx w ios"
proof -
  have "effort (fst a) mx' w' (snd b) = effort (fst a) mx w (snd b)" if "(a, b) \<in> set (zip starts ios)" for a b
    by (rule effort_frame [OF assms(1)])
      (use assms(2,3) set_zip_leftD [OF that] set_zip_rightD [OF that] in \<open>force simp: idxs_of_def\<close>)+
  then show ?thesis unfolding total_def by (intro arg_cong [where f = sum_list]) (auto simp: case_prod_beta)
qed

lemma handle_all_progress:
  assumes "ios_ok H w0 starts mx w ios" and "all_io (\<lambda>d. ready_io d mx w) starts ios"
    and "\<forall>i \<in> set (idxs_of ios). polled H (mx_fds mx ! i)" and "act_ok mx"
    and "distinct (pipes_of ios)" "distinct (idxs_of ios)" "distinct (map fst starts)"
  shows "\<exists>ios' mx' w'. handle_all ios mx w = (Inr (), ios', mx', w') \<and> all_io (\<lambda>d obj. lively d w' obj) starts ios' \<and>
    total starts mx' w' ios' + length (filter (\<lambda>i. pf_fd (mx_fds mx ! i) \<ge> 0) (idxs_of ios)) \<le> total starts mx w ios"
  using assms
proof (induction ios arbitrary: mx w starts)
  case Nil
  then show ?case by (simp add: total_def idxs_of_def all_io_def ios_ok_def)
next
  case (Cons p ios)
  obtain fd obj where p: "p = (fd, obj)" by fastforce
  obtain d obj0 starts' where st: "starts = (d, obj0) # starts'"
    using Cons.prems(1) by (auto simp: ios_ok_def p list_all2_Cons2)
  have io: "io_ok H d w0 obj0 mx w obj" and ios: "ios_ok H w0 starts' mx w ios"
    using Cons.prems(1) by (simp_all add: ios_ok_def p st)
  have r: "ready_io d mx w obj" and rs: "all_io (\<lambda>d. ready_io d mx w) starts' ios"
    using Cons.prems(2) by (simp_all add: all_io_def p st)
  obtain obj1 mx1 w1 where h: "handleEvents obj mx w = (Inr (), obj1, mx1, w1)" and lv: "lively d w1 obj1"
    and eff: "if pf_fd (mx_fds mx ! io_idx obj) < 0 then effort d mx1 w1 obj1 = effort d mx w obj
      else effort d mx1 w1 obj1 < effort d mx w obj"
    using handle_progress [OF io] r unfolding ready_io_def by blast
  have pol: "polled H (mx_fds mx ! io_idx obj)" using Cons.prems(3) by (simp add: p idxs_of_def)
  note 1 = handle_ok [OF h io pol Cons.prems(4)]
  have so: "same_outside {io_pipe obj} {io_idx obj} {d} mx w mx1 w1" using 1 by simp
  have dj: "set (pipes_of ios) \<inter> {io_pipe obj} = {}" "set (idxs_of ios) \<inter> {io_idx obj} = {}" "set (map fst starts') \<inter> {d} = {}"
    using Cons.prems(5-7) by (auto simp: p st pipes_of_def idxs_of_def)
  have dist: "distinct (pipes_of ios)" "distinct (idxs_of ios)" "distinct (map fst starts')"
    using Cons.prems(5-7) by (simp_all add: p st pipes_of_def idxs_of_def)
  have ios1: "ios_ok H w0 starts' mx1 w1 ios" by (rule ios_ok_frame [OF ios so dj])
  have rs1: "all_io (\<lambda>d. ready_io d mx1 w1) starts' ios"
    by (rule all_io_frame [where P = "\<lambda>mx w d. ready_io d mx w", OF rs so _ dj(2,3)]) (rule ready_frame [OF _ so])
  have same: "mx_fds mx1 ! i = mx_fds mx ! i" if "i \<in> set (idxs_of ios)" for i
  proof -
    have "i \<noteq> io_idx obj" using that dj(2) by blast
    then show ?thesis using so by (simp add: same_outside_def)
  qed
  then have pol1: "\<forall>i \<in> set (idxs_of ios). polled H (mx_fds mx1 ! i)"
    using Cons.prems(3) by (simp add: p idxs_of_def)
  obtain ios2 mx2 w2 where h2: "handle_all ios mx1 w1 = (Inr (), ios2, mx2, w2)"
    and lv2: "all_io (\<lambda>d obj. lively d w2 obj) starts' ios2"
    and tot2: "total starts' mx2 w2 ios2 + length (filter (\<lambda>i. pf_fd (mx_fds mx1 ! i) \<ge> 0) (idxs_of ios)) \<le> total starts' mx1 w1 ios"
    using Cons.IH [OF ios1 rs1 pol1 _ dist] 1 by blast
  have act1: "act_ok mx1" using 1 by simp
  note 2 = handle_all_ok [OF h2 ios1 pol1 act1 dist]
  have so2: "same_outside (set (pipes_of ios)) (set (idxs_of ios)) (set (map fst starts')) mx1 w1 mx2 w2" using 2 by simp
  have i1: "io_idx obj1 = io_idx obj" using 1 by simp
  have "lively d w2 obj1" by (rule lively_frame [OF lv so2]) (use dj in auto)
  moreover have "effort d mx2 w2 obj1 = effort d mx1 w1 obj1"
    by (rule effort_frame [OF so2]) (use dj i1 in auto)
  moreover have "total starts' mx1 w1 ios = total starts' mx w ios" by (rule total_frame [OF so dj(2,3)])
  moreover have "filter (\<lambda>i. pf_fd (mx_fds mx1 ! i) \<ge> 0) (idxs_of ios) = filter (\<lambda>i. pf_fd (mx_fds mx ! i) \<ge> 0) (idxs_of ios)"
    using same by (intro filter_cong) simp_all
  moreover have "idxs_of (p # ios) = io_idx obj # idxs_of ios" by (simp add: p idxs_of_def)
  ultimately show ?case
    using h h2 lv2 tot2 eff by (simp add: p st total_def all_io_def split: if_splits)
qed

section \<open>The end of the loop\<close>

text \<open>After any number of interruptions \<^verbatim>\<open>poll\<close> reports every descriptor as ready.\<close>

definition polls_ready :: "proc_env \<Rightarrow> bool" where
  "polls_ready env \<longleftrightarrow> (\<forall>t. \<exists>k ready. (\<forall>j < k. pe_poll env (t + j) = Inl EINTR) \<and> pe_poll env (t + k) = Inr ready \<and>
     (\<forall>d. ready d AND POLLIN \<noteq> 0 \<and> ready d AND POLLOUT \<noteq> 0))"

lemma monitor_waits:
  assumes "\<forall>j < k. pe_poll env (pw_time w + j) = Inl EINTR" and "pe_poll env (pw_time w + k) = Inr ready"
  shows "\<exists>n. mx_monitor env mx w = Some (Inr (), mx\<lparr>mx_fds := map (poll_entry ready) (mx_fds mx)\<rparr>, w\<lparr>pw_time := n\<rparr>)"
  using assms
proof (induction k arbitrary: w)
  case 0
  then show ?case by (subst mx_monitor.simps) (auto simp: tick_def)
next
  case (Suc k)
  have "pe_poll env (pw_time w) = Inl EINTR" using Suc.prems(1) by force
  moreover have "\<forall>j < k. pe_poll env (pw_time (tick w) + j) = Inl EINTR" "pe_poll env (pw_time (tick w) + k) = Inr ready"
    using Suc.prems by (auto simp: tick_def)
  from Suc.IH [OF this] have "\<exists>n. mx_monitor env mx (tick w) =
      Some (Inr (), mx\<lparr>mx_fds := map (poll_entry ready) (mx_fds mx)\<rparr>, w\<lparr>pw_time := n\<rparr>)"
    by (auto simp: tick_def)
  ultimately show ?case by (subst mx_monitor.simps) simp
qed

lemma poll_entry_ready:
  assumes "ready (pf_fd p) AND POLLIN \<noteq> 0" "ready (pf_fd p) AND POLLOUT \<noteq> 0"
  shows "all_ready (poll_entry ready p)" "polled False (poll_entry ready p)"
  using assms by (auto simp: all_ready_def polled_def poll_entry_def POLLIN_def POLLOUT_def POLLERR_def POLLHUP_def POLLNVAL_def and.assoc)

lemma io_ok_events: "io_ok H d w0 obj0 mx w obj \<Longrightarrow> pf_events (mx_fds mx ! io_idx obj) = events_of obj"
  by (cases "(H, d, w0, obj0, mx, w, obj)" rule: io_ok.cases) auto

lemma run_ok_active:
  assumes "run_ok H w0 starts mx w ios" and "mx_active mx > 0"
  shows "0 < length (filter (\<lambda>i. pf_fd (mx_fds mx ! i) \<ge> 0) (idxs_of ios))"
proof -
  have "filter (\<lambda>p. pf_fd p \<ge> 0) (mx_fds mx) \<noteq> []" using assms by (auto simp: run_ok_def act_ok_def)
  then obtain p where "p \<in> set (mx_fds mx)" "pf_fd p \<ge> 0" by (auto simp: filter_empty_conv)
  then obtain i where "i < length (mx_fds mx)" "pf_fd (mx_fds mx ! i) \<ge> 0" by (auto simp: in_set_conv_nth)
  then have "i \<in> set (filter (\<lambda>i. pf_fd (mx_fds mx ! i) \<ge> 0) (idxs_of ios))" using assms(1) by (simp add: run_ok_def)
  then show ?thesis by (rule length_pos_if_in_set)
qed

lemma filter_loop_returns:
  assumes "run_ok False w0 starts mx w ios" and "all_io (\<lambda>d. lively d w) starts ios" and "polls_ready env"
  shows "\<exists>ios' mx' w'. filter_loop env ios mx w = Some (Inr (), ios', mx', w')"
  using assms(1,2)
proof (induction "total starts mx w ios" arbitrary: mx w ios rule: less_induct)
  case less
  show ?case
  proof (cases "mx_active mx > 0")
    case False
    then show ?thesis by (subst filter_loop.simps) simp
  next
    case True
    obtain k ready where k: "\<forall>j < k. pe_poll env (pw_time w + j) = Inl EINTR" "pe_poll env (pw_time w + k) = Inr ready"
      and rd: "\<forall>d. ready d AND POLLIN \<noteq> 0 \<and> ready d AND POLLOUT \<noteq> 0"
      using assms(3) unfolding polls_ready_def by blast
    let ?mx1 = "mx\<lparr>mx_fds := map (poll_entry ready) (mx_fds mx)\<rparr>"
    obtain n where m: "mx_monitor env mx w = Some (Inr (), ?mx1, w\<lparr>pw_time := n\<rparr>)" using monitor_waits [OF k] by blast
    let ?w1 = "w\<lparr>pw_time := n\<rparr>"
    have ok: "ios_ok False w0 starts mx w ios" "act_ok mx" "distinct (pipes_of ios)" "distinct (idxs_of ios)" "distinct (map fst starts)"
      and idx: "idxs_of ios = [0..<length (mx_fds mx)]"
      using less.prems(1) by (simp_all add: run_ok_def)
    note mon = monitored_ok [OF monitor_result [OF m refl] ok(1,2)]
    have pol: "\<forall>i \<in> set (idxs_of ios). polled False (mx_fds ?mx1 ! i)" using mon(3) idx by simp
    have act: "act_ok ?mx1" using mon(2) by simp
    have io1: "ios_ok False w0 starts ?mx1 ?w1 ios" using mon(1) by simp
    have lv: "lively d ?w1 obj = lively d w obj" for d obj by (cases obj) simp_all
    have "ready_io d ?mx1 ?w1 obj" if "io_ok False d w0 obj0 ?mx1 ?w1 obj" "lively d w obj" "io_idx obj \<in> set (idxs_of ios)" for d obj0 obj
      using that rd idx io_ok_events [OF that(1)] poll_entry_ready [of ready] by (simp add: ready_io_def lv)
    then have ready: "all_io (\<lambda>d. ready_io d ?mx1 ?w1) starts ios"
      using io1 less.prems(2) unfolding all_io_def ios_ok_def
      by (auto simp: list_all2_conv_all_nth case_prod_beta idxs_of_def)
    obtain ios2 mx2 w2 where h: "handle_all ios ?mx1 ?w1 = (Inr (), ios2, mx2, w2)"
      and lv2: "all_io (\<lambda>d obj. lively d w2 obj) starts ios2"
      and tot: "total starts mx2 w2 ios2 + length (filter (\<lambda>i. pf_fd (mx_fds ?mx1 ! i) \<ge> 0) (idxs_of ios)) \<le> total starts ?mx1 ?w1 ios"
      using handle_all_progress [OF io1 ready pol act ok(3-5)] by blast
    have eff: "effort d ?mx1 ?w1 obj = effort d mx w obj" if "io_idx obj \<in> set (idxs_of ios)" for d obj
      using that idx by (cases obj) (simp_all add: effort_def)
    have t1: "total starts ?mx1 ?w1 ios = total starts mx w ios"
      unfolding total_def by (intro arg_cong [where f = sum_list] map_cong refl)
        (use eff set_zip_rightD in \<open>fastforce simp: idxs_of_def\<close>)
    have "filter (\<lambda>i. pf_fd (mx_fds ?mx1 ! i) \<ge> 0) (idxs_of ios) = filter (\<lambda>i. pf_fd (mx_fds mx ! i) \<ge> 0) (idxs_of ios)"
      using idx by (intro filter_cong) simp_all
    then have "total starts mx2 w2 ios2 < total starts mx w ios"
      using tot t1 run_ok_active [OF less.prems(1) True] by (simp del: length_greater_0_conv)
    moreover have "run_ok False w0 starts mx2 w2 ios2"
      using run_ok_round [OF less.prems(1) monitor_result [OF m refl] _ h] by simp
    ultimately obtain ios' mx' w' where "filter_loop env ios2 mx2 w2 = Some (Inr (), ios', mx', w')"
      using less.hyps lv2 by blast
    then show ?thesis by (subst filter_loop.simps) (simp add: True m h)
  qed
qed

text \<open>A system on which creating pipes and processes and waiting for them succeeds.\<close>

definition calls_succeed :: "proc_env \<Rightarrow> bool" where
  "calls_succeed env \<longleftrightarrow> pipes_fresh env \<and> (\<forall>t D. finite D \<longrightarrow> (\<exists>e. pe_pipe2 env t D = Inr e)) \<and> (\<forall>t. \<exists>pid > 0. pe_fork env t = Inr pid) \<and>
     (\<forall>pid. \<exists>status. pe_waitpid env pid = Inr (pid, status))"

lemma finite_pipe_close: "finite (pw_open w) \<Longrightarrow> finite (pw_open (pipe_close l w))"
  by (simp add: pipe_close_def set_pipe_def close_if_def fd_close_def split: option.split)

lemma sub_prepare_succeeds:
  assumes "\<forall>t D. finite D \<longrightarrow> (\<exists>e. pe_pipe2 env t D = Inr e)" and "finite (pw_open w)"
  shows "\<exists>w'. sub_prepare env l w = (Inr (), w') \<and> finite (pw_open w')"
proof -
  have "\<exists>e. pe_pipe2 env (pw_time (pipe_close l w)) (pw_open (pipe_close l w)) = Inr e"
    using assms(1) finite_pipe_close [OF assms(2)] by blast
  then obtain r x where e: "pe_pipe2 env (pw_time (pipe_close l w)) (pw_open (pipe_close l w)) = Inr (r, x)"
    by auto
  show ?thesis
    using assms(2) finite_pipe_close [OF assms(2), of l]
    by (cases "pw_store w ! l") (auto simp: sub_prepare_def Let_def e tick_def set_pipe_def)
qed

lemma prepare_all_succeeds:
  assumes "\<forall>t D. finite D \<longrightarrow> (\<exists>e. pe_pipe2 env t D = Inr e)" and "finite (pw_open w)"
  shows "\<exists>w'. prepare_all env m w = (Inr (), w')"
  using assms(2)
proof (induction m arbitrary: w)
  case (Cons a m)
  obtain fd l where a: "a = (fd, l)" by fastforce
  obtain w1 where "sub_prepare env l w = (Inr (), w1)" "finite (pw_open w1)"
    using sub_prepare_succeeds [OF assms(1) Cons.prems] by blast
  moreover then obtain w2 where "prepare_all env m w1 = (Inr (), w2)" using Cons.IH by blast
  ultimately show ?case by (simp add: a sx_seq_Inr)
qed simp

lemma sub_spawn_succeeds:
  assumes "calls_succeed env" and "finite (pw_open w)"
  shows "\<exists>pid w' t. pid > 0 \<and> pe_fork env t = Inr pid \<and> sub_spawn env p w = (Inr (), p\<lparr>sp_pid := pid\<rparr>, w')"
proof -
  obtain w1 where "prepare_all env (sp_fdmap p) w = (Inr (), w1)"
    using assms prepare_all_succeeds by (metis calls_succeed_def)
  moreover obtain pid where pid: "pid > 0" "pe_fork env (pw_time w1) = Inr pid"
    using assms unfolding calls_succeed_def by blast
  ultimately show ?thesis by (auto simp: sub_spawn_def intro!: exI [of _ pid] exI [of _ "pw_time w1"])
qed

lemma lively_same_data: "same_data w w' \<Longrightarrow> lively d w' obj = lively d w obj"
  by (cases obj) (simp_all add: same_data_def)

lemma lively_with_idx: "lively d w (with_idx i obj) = lively d w obj"
  by (cases obj) simp_all

lemma execute_returns:
  assumes "filter_ok ios w" and "calls_succeed env" and "polls_ready env"
    and "\<forall>(fd, obj) \<in> set ios. \<forall>d. d \<notin> pw_open w \<longrightarrow> lively d w obj"
    and fork: "\<forall>t. pe_fork env t = Inr pid" and wait: "pe_waitpid env pid = Inr (pid, status)"
  shows "\<exists>ios' w'. filter_execute env ios w = Some (Inr (exit_status status), ios', w')"
proof -
  let ?p = "SubProcess\<lparr>sp_fdmap := map (\<lambda>(fd, obj). (fd, io_pipe obj)) ios\<rparr>"
  have ok: "smap_ok ios" "distinct (pipes_of ios)" "\<forall>(fd, obj) \<in> set ios. io_new w obj" and fin: "finite (pw_open w)"
    using assms(1) by (simp_all add: filter_ok_def)
  have fresh: "pipes_fresh env" using assms(2) by (simp add: calls_succeed_def)
  obtain w1 where sp: "sub_spawn env ?p w = (Inr (), ?p\<lparr>sp_pid := pid\<rparr>, w1)" and pid: "pid > 0"
    using sub_spawn_succeeds [OF assms(2) fin, of ?p] fork by auto
  obtain ds where ds: "list_all2 (\<lambda>d (fd, obj). io_spawned d w1 obj \<and> d \<notin> pw_open w) ds ios" "distinct ds" "same_data w w1"
    using sub_spawn_ok [OF sp fresh ok(2,3)] by blast
  obtain ios1 mx where st: "setup_all (pw_store w1) ios MultiplexIO = (ios1, mx)" by fastforce
  have "list_all2 (\<lambda>d (fd, obj). io_spawned d w1 obj) ds ios" using ds(1) by (auto elim!: list.rel_mono_strong)
  note run = spawned_run_ok [OF this ds(2) ok(2) st]
  have "act_ok MultiplexIO" by (simp add: act_ok_def MultiplexIO_def)
  note S = setup_all_ok [OF st this]
  have len: "length ds = length ios" using ds(1) by (rule list_all2_lengthD)
  have "lively (ds ! k) w1 (snd (ios1 ! k))" if "k < length ios" for k
  proof -
    have "ds ! k \<notin> pw_open w" using list_all2_nthD2 [OF ds(1) that] by (auto simp: case_prod_beta)
    then have "lively (ds ! k) w (snd (ios ! k))"
      using assms(4) nth_mem [OF that] by (auto simp: case_prod_beta)
    then show ?thesis using S that by (simp add: lively_same_data [OF ds(3)] lively_with_idx)
  qed
  then have "all_io (\<lambda>d. lively d w1) (zip ds (map snd ios)) ios1"
    using S len by (auto simp: all_io_def list_all2_conv_all_nth case_prod_beta)
  then obtain ios2 mx2 w2 where lp: "filter_loop env ios1 mx w1 = Some (Inr (), ios2, mx2, w2)"
    using filter_loop_returns [OF _ _ assms(3)] run by blast
  have "sub_wait env (?p\<lparr>sp_pid := pid\<rparr>) = (Inr status, ?p\<lparr>sp_pid := -1\<rparr>)"
    using pid wait by (simp add: sub_wait_def checkSpawned_def)
  then show ?thesis
    by (auto simp: filter_execute_def setChildFD_all [OF ok(1)] sp st lp leave_def sub_destroy_def)
qed

section \<open>Errors without an end\<close>

text \<open>
  The rounds of the loop: each one asks \<^verbatim>\<open>poll\<close> and serves every object. A loop that ends makes only so many.
\<close>

inductive filter_rounds :: "proc_env \<Rightarrow> nat \<Rightarrow> io_map \<times> mplex \<times> proc_world \<Rightarrow> io_map \<times> mplex \<times> proc_world \<Rightarrow> bool"
  for env where
  no_round: "filter_rounds env 0 st st"
| next_round: "mx_active mx > 0 \<Longrightarrow> mx_monitor env mx w = Some (Inr (), mx1, w1) \<Longrightarrow>
    handle_all ios mx1 w1 = (Inr (), ios2, mx2, w2) \<Longrightarrow> filter_rounds env n (ios2, mx2, w2) st \<Longrightarrow>
    filter_rounds env (Suc n) (ios, mx, w) st"

inductive_cases filter_rounds_SucE: "filter_rounds env (Suc n) (ios, mx, w) st"

lemma filter_rounds_loop:
  "filter_rounds env n st st' \<Longrightarrow> st = (ios, mx, w) \<Longrightarrow> st' = (ios', mx', w') \<Longrightarrow>
   filter_loop env ios mx w = filter_loop env ios' mx' w'"
proof (induction arbitrary: ios mx w rule: filter_rounds.induct)
  case (next_round mx0 w0 mx1 w1 ios0 ios2 mx2 w2 n st)
  then have "filter_loop env ios2 mx2 w2 = filter_loop env ios' mx' w'" by blast
  moreover have "filter_loop env ios0 mx0 w0 = filter_loop env ios2 mx2 w2"
    using next_round.hyps by (subst filter_loop.simps) simp
  ultimately show ?case using next_round.prems by simp
qed simp

lemma filter_rounds_bounded:
  assumes "filter_loop env ios mx w = Some y"
  shows "\<exists>N. \<forall>n st. filter_rounds env n (ios, mx, w) st \<longrightarrow> n \<le> N"
proof (rule filter_loop.raw_induct [OF _ assms])
  fix f env ios mx w and y :: "unit res \<times> io_map \<times> mplex \<times> proc_world"
  assume IH: "\<And>env ios mx w y. f env ios mx w = Some y \<Longrightarrow> \<exists>N. \<forall>n st. filter_rounds env n (ios, mx, w) st \<longrightarrow> n \<le> N"
    and step: "(if 0 < mx_active mx
      then Option.bind (mx_monitor env mx w) (\<lambda>(r, mx1, w1).
             case r of
               Inl e \<Rightarrow> Some (Inl e, ios, mx1, w1)
             | Inr _ \<Rightarrow>
                 (case handle_all ios mx1 w1 of
                    (Inl e, ios', mx2, w2) \<Rightarrow> Some (Inl e, ios', mx2, w2)
                  | (Inr _, ios', mx2, w2) \<Rightarrow> f env ios' mx2 w2))
      else Some (Inr (), ios, mx, w)) = Some y"
  show "\<exists>N. \<forall>n st. filter_rounds env n (ios, mx, w) st \<longrightarrow> n \<le> N"
  proof (cases "\<exists>mx1 w1 ios2 mx2 w2. mx_active mx > 0 \<and> mx_monitor env mx w = Some (Inr (), mx1, w1) \<and>
      handle_all ios mx1 w1 = (Inr (), ios2, mx2, w2)")
    case True
    then obtain mx1 w1 ios2 mx2 w2 where r: "mx_active mx > 0" "mx_monitor env mx w = Some (Inr (), mx1, w1)"
      "handle_all ios mx1 w1 = (Inr (), ios2, mx2, w2)" by blast
    then have "f env ios2 mx2 w2 = Some y" using step by simp
    from IH [OF this] obtain N where N: "\<And>n st. filter_rounds env n (ios2, mx2, w2) st \<Longrightarrow> n \<le> N" by blast
    have "n \<le> Suc N" if "filter_rounds env n (ios, mx, w) st" for n st
    proof (cases n)
      case (Suc k)
      have "filter_rounds env k (ios2, mx2, w2) st" using that r unfolding Suc by (auto elim!: filter_rounds_SucE)
      then show ?thesis using N Suc by blast
    qed simp
    then show ?thesis by blast
  next
    case False
    have "n \<le> 0" if "filter_rounds env n (ios, mx, w) st" for n st
      using that False by (cases n) (auto elim!: filter_rounds_SucE)
    then show ?thesis by blast
  qed
qed

text \<open>The objects keep their entries.\<close>

lemma handleEvents_idx:
  "handleEvents obj mx w = (r, obj', mx', w') \<Longrightarrow> io_idx obj' = io_idx obj \<and> length (mx_fds mx') = length (mx_fds mx)"
  by (cases obj) (auto simp: deactivate_def split: sum.splits prod.splits if_splits)

lemma handle_all_idx:
  "handle_all ios mx w = (r, ios', mx', w') \<Longrightarrow> idxs_of ios' = idxs_of ios \<and> length (mx_fds mx') = length (mx_fds mx)"
proof (induction ios arbitrary: mx w r ios' mx' w')
  case (Cons a ios)
  obtain fd obj where a: "a = (fd, obj)" by fastforce
  obtain r1 obj1 mx1 w1 where h: "handleEvents obj mx w = (r1, obj1, mx1, w1)" by (metis prod_cases4)
  note i = handleEvents_idx [OF h]
  show ?case
  proof (cases r1)
    case (Inl e)
    then show ?thesis using Cons.prems h i by (auto simp: a idxs_of_def)
  next
    case (Inr u)
    obtain r2 ios2 mx2 w2 where h2: "handle_all ios mx1 w1 = (r2, ios2, mx2, w2)" by (metis prod_cases4)
    then show ?thesis using Cons.prems h i Inr Cons.IH [OF h2] by (auto simp: a idxs_of_def)
  qed
qed simp

definition entries_ok :: "io_map \<Rightarrow> mplex \<Rightarrow> bool" where
  "entries_ok ios mx \<longleftrightarrow> (\<forall>i \<in> set (idxs_of ios). i < length (mx_fds mx))"

lemma monitor_fds:
  assumes "mx_monitor env mx w = Some (Inr (), mx1, w1)"
  shows "length (mx_fds mx1) = length (mx_fds mx)"
  using monitor_result [OF assms] by (auto simp: monitored_def)

lemma filter_rounds_entries:
  "filter_rounds env n st st' \<Longrightarrow> st = (ios, mx, w) \<Longrightarrow> st' = (ios', mx', w') \<Longrightarrow> entries_ok ios mx \<Longrightarrow> entries_ok ios' mx'"
proof (induction arbitrary: ios mx w rule: filter_rounds.induct)
  case (next_round mx0 w0 mx1 w1 ios0 ios2 mx2 w2 n st)
  have "entries_ok ios2 mx2"
    using next_round.prems handle_all_idx [OF next_round.hyps(3)] monitor_fds [OF next_round.hyps(2)] by (simp add: entries_ok_def)
  then show ?case using next_round by blast
qed simp

lemma setup_all_entries:
  assumes "setup_all store ios MultiplexIO = (ios1, mx)"
  shows "entries_ok ios1 mx"
proof -
  have "act_ok MultiplexIO" by (simp add: act_ok_def MultiplexIO_def)
  note S = setup_all_ok [OF assms this]
  have "io_idx (with_idx k obj) = k" for k obj by (cases obj) simp_all
  then show ?thesis using S by (auto simp: entries_ok_def idxs_of_def in_set_conv_nth MultiplexIO_def)
qed

text \<open>
  When \<^verbatim>\<open>poll\<close> reports for the descriptors only conditions that no object handles, such as \<^verbatim>\<open>POLLERR\<close> on the full pipe to a child that
  has closed its input, the loop spins for ever: it makes one round after another, in which nothing changes but the time.
\<close>

definition errors_from :: "nat \<Rightarrow> proc_env \<Rightarrow> bool" where
  "errors_from T env \<longleftrightarrow> (\<forall>t \<ge> T. \<exists>ready. pe_poll env t = Inr ready \<and> (\<forall>d. ready d AND (POLLIN OR POLLOUT OR POLLHUP) = 0))"

lemma handle_all_idle:
  assumes "\<forall>i \<in> set (idxs_of ios). i < length (mx_fds mx) \<and> pf_revents (mx_fds mx ! i) AND (POLLIN OR POLLOUT OR POLLHUP) = 0"
  shows "handle_all ios mx w = (Inr (), ios, mx, w)"
  using assms
proof (induction ios)
  case (Cons a ios)
  obtain fd obj where a: "a = (fd, obj)" by fastforce
  have "pf_revents (mx_fds mx ! io_idx obj) AND (POLLIN OR POLLOUT OR POLLHUP) = 0" "io_idx obj < length (mx_fds mx)"
    using Cons.prems by (simp_all add: a idxs_of_def)
  then have "handleEvents obj mx w = (Inr (), obj, mx, w)"
    by (cases obj) (simp_all add: mx_at_def bit.conj_disj_distrib or_eq_0_iff)
  then show ?case using Cons by (simp add: a idxs_of_def)
qed simp

lemma error_round:
  assumes "errors_from T env" and "T \<le> pw_time w" and "entries_ok ios mx"
  shows "\<exists>fds. length fds = length (mx_fds mx) \<and> mx_monitor env mx w = Some (Inr (), mx\<lparr>mx_fds := fds\<rparr>, tick w) \<and>
    handle_all ios (mx\<lparr>mx_fds := fds\<rparr>) (tick w) = (Inr (), ios, mx\<lparr>mx_fds := fds\<rparr>, tick w)"
proof -
  obtain ready where p: "pe_poll env (pw_time w) = Inr ready" and r: "\<forall>d. ready d AND (POLLIN OR POLLOUT OR POLLHUP) = 0"
    using assms(1,2) unfolding errors_from_def by blast
  let ?fds = "map (poll_entry ready) (mx_fds mx)"
  have m: "mx_monitor env mx w = Some (Inr (), mx\<lparr>mx_fds := ?fds\<rparr>, tick w)" using p by (subst mx_monitor.simps) simp
  have "(x AND ev) AND b = 0" if "x AND b = 0" for x ev b :: "16 word"
  proof -
    have "(x AND ev) AND b = (x AND b) AND ev" by (simp add: ac_simps)
    then show ?thesis by (simp add: that)
  qed
  then have "pf_revents (poll_entry ready q) AND (POLLIN OR POLLOUT OR POLLHUP) = 0" for q
    using r by (simp add: poll_entry_def)
  then have "handle_all ios (mx\<lparr>mx_fds := ?fds\<rparr>) (tick w) = (Inr (), ios, mx\<lparr>mx_fds := ?fds\<rparr>, tick w)"
    using assms(3) by (intro handle_all_idle) (simp add: entries_ok_def)
  with m show ?thesis by (intro exI [of _ ?fds]) simp
qed

lemma error_rounds:
  assumes "errors_from T env"
  shows "T \<le> pw_time w \<Longrightarrow> mx_active mx > 0 \<Longrightarrow> entries_ok ios mx \<Longrightarrow>
    \<exists>fds. filter_rounds env n (ios, mx, w) (ios, mx\<lparr>mx_fds := fds\<rparr>, w\<lparr>pw_time := pw_time w + n\<rparr>)"
proof (induction n arbitrary: mx w)
  case 0
  have "filter_rounds env 0 (ios, mx, w) (ios, mx\<lparr>mx_fds := mx_fds mx\<rparr>, w\<lparr>pw_time := pw_time w + 0\<rparr>)"
    using no_round [of env "(ios, mx, w)"] by simp
  then show ?case by blast
next
  case (Suc n)
  obtain fds where f: "length fds = length (mx_fds mx)" "mx_monitor env mx w = Some (Inr (), mx\<lparr>mx_fds := fds\<rparr>, tick w)"
    "handle_all ios (mx\<lparr>mx_fds := fds\<rparr>) (tick w) = (Inr (), ios, mx\<lparr>mx_fds := fds\<rparr>, tick w)"
    using error_round [OF assms Suc.prems(1,3)] by blast
  have "T \<le> pw_time (tick w)" "mx_active (mx\<lparr>mx_fds := fds\<rparr>) > 0" "entries_ok ios (mx\<lparr>mx_fds := fds\<rparr>)"
    using Suc.prems f(1) by (simp_all add: tick_def entries_ok_def)
  from Suc.IH [OF this] obtain fds' where
    "filter_rounds env n (ios, mx\<lparr>mx_fds := fds\<rparr>, tick w) (ios, mx\<lparr>mx_fds := fds'\<rparr>, w\<lparr>pw_time := pw_time w + Suc n\<rparr>)"
    by (auto simp: tick_def)
  from next_round [OF Suc.prems(2) f(2,3) this] show ?case by blast
qed

lemma loop_spins:
  assumes "errors_from T env" and "T \<le> pw_time w" and "mx_active mx > 0" and "entries_ok ios mx"
  shows "filter_loop env ios mx w = None"
proof (rule ccontr)
  assume "filter_loop env ios mx w \<noteq> None"
  then obtain N where "\<And>n st. filter_rounds env n (ios, mx, w) st \<Longrightarrow> n \<le> N"
    using filter_rounds_bounded by (metis not_None_eq)
  then show False using error_rounds [OF assms, of "Suc N"] by fastforce
qed

text \<open>The filter, from any round of its loop in which the errors begin.\<close>

definition filter_process :: "io_map \<Rightarrow> sub_process" where
  "filter_process ios = foldl (\<lambda>p (fd, obj). setChildFD fd (Some (io_pipe obj)) p) SubProcess ios"

lemma execute_spins:
  assumes "sub_spawn env (filter_process ios) w = (Inr (), p1, w1)" and "setup_all (pw_store w1) ios MultiplexIO = (ios1, mx1)"
    and "filter_rounds env k (ios1, mx1, w1) (ios2, mx2, w2)" and "mx_active mx2 > 0" and "errors_from (pw_time w2) env"
  shows "filter_execute env ios w = None"
    and "\<exists>fds. filter_rounds env n (ios2, mx2, w2) (ios2, mx2\<lparr>mx_fds := fds\<rparr>, w2\<lparr>pw_time := pw_time w2 + n\<rparr>)"
proof -
  have e: "entries_ok ios2 mx2"
    using filter_rounds_entries [OF assms(3) refl refl] setup_all_entries [OF assms(2)] by blast
  have "filter_loop env ios1 mx1 w1 = None"
    using filter_rounds_loop [OF assms(3) refl refl] loop_spins [OF assms(5) order.refl assms(4) e] by simp
  then show "filter_execute env ios w = None"
    using assms(1,2) by (simp add: filter_execute_def filter_process_def)
  show "\<exists>fds. filter_rounds env n (ios2, mx2, w2) (ios2, mx2\<lparr>mx_fds := fds\<rparr>, w2\<lparr>pw_time := pw_time w2 + n\<rparr>)"
    by (rule error_rounds [OF assms(5) order.refl assms(4) e])
qed

section \<open>Lost input\<close>

text \<open>
  The last block of the input goes to the child in one \<^verbatim>\<open>write\<close> only: when that takes less, the pipe is closed and the rest is lost, without
  an error.
\<close>

lemma short_write_loses:
  assumes "io_ok H d w0 obj0 mx w (IStreamIO l i f [])" and "pf_fd (mx_fds mx ! i) = d" and "pf_revents (mx_fds mx ! i) AND POLLOUT \<noteq> 0"
    and "length (is_rest f) < BUFSIZ" and "\<not> is_broken f" and "pw_limits w d = Inr k # ls" and "k < length (is_rest f)"
    and "pf_fd (mx_fds mx ! i) \<in> pw_open w"
  shows "\<exists>obj' mx' w'. handleEvents (IStreamIO l i f []) mx w = (Inr (), obj', mx', w') \<and>
    pw_sent w' d = pw_sent w d @ take k (is_rest f) \<and> pf_fd (mx_fds mx' ! i) = -1"
proof -
  obtain l0 i0 f0 b0 where obj0: "obj0 = IStreamIO l0 i0 f0 b0" using assms(1) by (cases obj0) auto
  have i: "i < length (mx_fds mx)" using assms(1) by (simp add: obj0)
  have sent: "pw_sent (pipe_close l v) = pw_sent v" for v
    by (simp add: pipe_close_def set_pipe_def close_if_def fd_close_def split: option.split)
  show ?thesis
    using assms(2-8) i
    by (simp add: mx_at_def input_underflow_def is_read_def Let_def pipe_write_def sent deactivate_def min_def)
qed

end
