(* ===== verification/NetTransfer.thy ===== *)
theory NetTransfer
  imports FileTransfer FilterRuns
begin

text \<open>
  The other transfers of \<^verbatim>\<open>kdumptool/transfer.cc\<close>: \<open>NFSTransfer\<close> and \<open>CIFSTransfer\<close>, which mount the share
  (\<^verbatim>\<open>FileUtil::mount\<close> and \<^verbatim>\<open>umount\<close> of \<^verbatim>\<open>fileutil.cc\<close>) and save to files below the mount point, and \<open>FTPTransfer\<close>, which drives
  \<^verbatim>\<open>libcurl\<close>. The commands, the network check and the file system act on an arbitrary state.
\<close>

section \<open>Mounting\<close>

text \<open>
  A command run with its standard error collected, as \<^verbatim>\<open>FileUtil\<close> uses the process filter. What the child does follows from the command.
\<close>

definition command_stderr :: "proc_env \<Rightarrow> proc_world \<Rightarrow> ((nat \<times> string) res \<times> proc_world) option" where
  "command_stderr env w =
     (case setStderr [] [] w of
        (ios, w1) \<Rightarrow>
          map_option
            (\<lambda>(r, ios', w2).
              (case r of
                 Inl e \<Rightarrow> Inl e
               | Inr status \<Rightarrow>
                   (case ios' of
                      [(fd, OStreamIO l i out)] \<Rightarrow> Inr (status, out)
                    | _ \<Rightarrow> Inl (Undefined ''no output object'')), w2))
            (filter_execute env ios w1))"

record 's share_env =
  sy_execute :: "string \<Rightarrow> string list \<Rightarrow> ('s, nat \<times> string) sx"
  sy_reachable :: "string \<Rightarrow> ('s, bool) sx"
  sy_sys_mkdir :: "string \<Rightarrow> 's \<Rightarrow> 's \<times> errno option"
  sy_blksize :: "'s \<Rightarrow> string \<Rightarrow> nat option"
  sy_fs :: "'s \<Rightarrow> string \<Rightarrow> node"
  sy_cwd :: string

definition mount_args :: "string \<Rightarrow> string \<Rightarrow> string \<Rightarrow> string list \<Rightarrow> string list" where
  "mount_args device mountpoint fs options =
     concat (map (\<lambda>opt. [''-o'', opt]) options) @ [''-t'', fs, device, mountpoint]"

definition file_mount :: "'s share_env \<Rightarrow> string \<Rightarrow> string \<Rightarrow> string \<Rightarrow> string list \<Rightarrow> ('s, unit) sx" where
  "file_mount env device mountpoint fs options =
     sx_bind (sy_execute env ''mount'' (mount_args device mountpoint fs options)) (\<lambda>(ret, err).
       if ret \<noteq> 0 then sx_throw (KError (''mount failed: '' @ trim trim_default err @ ''.'')) else sx_return ())"

definition nfsmount :: "'s share_env \<Rightarrow> string \<Rightarrow> string \<Rightarrow> string \<Rightarrow> string list \<Rightarrow> ('s, unit) sx" where
  "nfsmount env host dir mountpoint options = file_mount env (host @ '':'' @ dir) mountpoint ''nfs'' options"

definition file_umount :: "'s share_env \<Rightarrow> string \<Rightarrow> ('s, unit) sx" where
  "file_umount env mountpoint =
     sx_bind (sy_execute env ''umount'' [mountpoint]) (\<lambda>(ret, err).
       if ret \<noteq> 0 then sx_throw (KError (''umount failed: '' @ trim trim_default err)) else sx_return ())"

section \<open>NFSTransfer and CIFSTransfer\<close>

definition DEFAULT_MOUNTPOINT :: string where "DEFAULT_MOUNTPOINT = ''/mnt''"

text \<open>The member \<^verbatim>\<open>m_mountpoint\<close> beside the state of the system.\<close>

definition on_system :: "('s, 'a) sx \<Rightarrow> ('s \<times> string, 'a) sx" where
  "on_system m = (\<lambda>(s, mp). case m s of (r, s') \<Rightarrow> (r, (s', mp)))"

definition set_mountpoint :: "string \<Rightarrow> ('s \<times> string, unit) sx" where
  "set_mountpoint mp' = (\<lambda>(s, mp). (Inr (), (s, mp')))"

definition mkdir_all :: "'s share_env \<Rightarrow> string \<Rightarrow> ('s, unit) sx" where
  "mkdir_all env path s = (case mkdir (sy_sys_mkdir env) True path s of (s', r) \<Rightarrow> (r, s'))"

definition file_url :: "'s share_env \<Rightarrow> string \<Rightarrow> ('s, root_dir_url) sx" where
  "file_url env path s = (RootDirURL (sy_fs env s) (sy_cwd env) (''file://'' @ path) [], s)"

definition nfs_mountpoint :: "root_dir_url \<Rightarrow> string" where
  "nfs_mountpoint parser = appendPath (appendPath DEFAULT_MOUNTPOINT (m_hostname parser)) (dirName (m_path parser))"

definition nfs_translate :: "'s share_env \<Rightarrow> root_dir_url \<Rightarrow> ('s \<times> string, root_dir_url) sx" where
  "nfs_translate env parser =
     (let mountedDir = dirName (m_path parser); rest = baseName (m_path parser); mp = nfs_mountpoint parser
      in sx_seq (on_system (sy_reachable env (m_hostname parser)))
        (sx_seq (set_mountpoint mp)
        (sx_seq (on_system (mkdir_all env mp))
        (sx_seq (on_system (nfsmount env (m_hostname parser) mountedDir mp [''nolock'']))
          (on_system (file_url env (mp @ PATH_SEPARATOR @ rest)))))))"

definition cifs_options :: "root_dir_url \<Rightarrow> string list" where
  "cifs_options parser =
     (if m_username parser \<noteq> []
      then (''user='' @ m_username parser) # (if m_password parser \<noteq> [] then [''password='' @ m_password parser] else [])
      else []) @
     (if m_port parser \<noteq> -1 then [''port='' @ number2string (m_port parser)] else [])"

text \<open>\<^verbatim>\<open>close()\<close>, which both classes have.\<close>

definition transfer_close :: "'s share_env \<Rightarrow> ('s \<times> string, unit) sx" where
  "transfer_close env = (\<lambda>(s, mp).
     if mp \<noteq> [] then sx_seq (on_system (file_umount env mp)) (set_mountpoint []) (s, mp) else (Inr (), (s, mp)))"

definition cifs_translate :: "'s share_env \<Rightarrow> root_dir_url \<Rightarrow> ('s \<times> string, root_dir_url) sx" where
  "cifs_translate env parser =
     sx_seq (on_system (sy_reachable env (m_hostname parser)))
       (let path = m_path parser; share0 = ltrim PATH_SEPARATOR path
        in case find_char SLASH share0 of
             None \<Rightarrow> sx_throw (KError (''Path ('' @ path @ '') must contain a '' @ [DQUOTE, SLASH, DQUOTE] @ ''.''))
           | Some first_slash \<Rightarrow>
               (let share = take first_slash share0
                in sx_seq (on_system (file_mount env (''//'' @ m_hostname parser @ ''/'' @ share) DEFAULT_MOUNTPOINT ''cifs''
                       (cifs_options parser)))
                  (sx_seq (set_mountpoint DEFAULT_MOUNTPOINT)
                  (case find_str share path of
                     None \<Rightarrow>
                       sx_seq (transfer_close env) (sx_throw (KError ''Internal error in CIFSTransfer::CIFSTransfer.''))
                   | Some shareBegin \<Rightarrow>
                       on_system (file_url env
                         (appendPath DEFAULT_MOUNTPOINT (drop (shareBegin + length share) path)))))))"

text \<open>The constructors: every URL is translated, in order, then the file transfer is made. An exception leaves what is mounted.\<close>

fun translate_all :: "(root_dir_url \<Rightarrow> ('s \<times> string, root_dir_url) sx) \<Rightarrow> root_dir_url list \<Rightarrow> ('s \<times> string, root_dir_url list) sx" where
  "translate_all translate [] = sx_return []"
| "translate_all translate (u # us) =
     sx_bind (translate u) (\<lambda>f. sx_bind (translate_all translate us) (\<lambda>fs. sx_return (f # fs)))"

definition make_file_transfer :: "'s share_env \<Rightarrow> root_dir_url list \<Rightarrow> ('s, file_transfer) sx" where
  "make_file_transfer env urlv s =
     (case FileTransfer (sy_sys_mkdir env) (sy_blksize env s) urlv s of (s', r) \<Rightarrow> (r, s'))"

definition mounting_transfer ::
    "'s share_env \<Rightarrow> (root_dir_url \<Rightarrow> ('s \<times> string, root_dir_url) sx) \<Rightarrow> root_dir_url list \<Rightarrow> ('s \<times> string, file_transfer) sx"
where
  "mounting_transfer env translate urlv =
     sx_bind (translate_all translate urlv) (\<lambda>file_urlv. on_system (make_file_transfer env file_urlv))"

definition NFSTransfer :: "'s share_env \<Rightarrow> root_dir_url list \<Rightarrow> 's \<Rightarrow> file_transfer res \<times> 's \<times> string" where
  "NFSTransfer env urlv s = mounting_transfer env (nfs_translate env) urlv (s, [])"

definition CIFSTransfer :: "'s share_env \<Rightarrow> root_dir_url list \<Rightarrow> 's \<Rightarrow> file_transfer res \<times> 's \<times> string" where
  "CIFSTransfer env urlv s = mounting_transfer env (cifs_translate env) urlv (s, [])"

text \<open>The destructors: errors of the program are logged, others end it.\<close>

definition transfer_destroy :: "'s share_env \<Rightarrow> ('s \<times> string, unit) sx" where
  "transfer_destroy env sm =
     (case transfer_close env sm of
        (Inl e, sm') \<Rightarrow> (if is_kerror e then Inr () else Inl (Undefined ''std::terminate in a destructor''), sm')
      | (Inr _, sm') \<Rightarrow> (Inr (), sm'))"

text \<open>Both \<^verbatim>\<open>perform\<close> methods are that of the file transfer.\<close>

definition mounted_perform ::
    "'p data_provider \<Rightarrow> fopen_env \<Rightarrow> configuration \<Rightarrow> file_transfer \<Rightarrow> string list \<Rightarrow> 'p \<Rightarrow>
     ((unit res \<times> bool option) \<times> 'p \<times> ostream option) option" where
  "mounted_perform dp fopen config ft target_files p = FileTransfer_perform dp fopen config ft target_files p"

section \<open>FTPTransfer\<close>

datatype curl_option =
    CURLOPT_ERRORBUFFER | CURLOPT_DEBUGFUNCTION | CURLOPT_DEBUGDATA | CURLOPT_VERBOSE | CURLOPT_FTP_CREATE_MISSING_DIRS
  | CURLOPT_READFUNCTION | CURLOPT_UPLOAD | CURLOPT_URL string | CURLOPT_READDATA

text \<open>
  \<^verbatim>\<open>libcurl\<close> on its own state: the result of each call (0 is success), the text in \<^verbatim>\<open>m_curlError\<close>. A transfer pulls its data
  through the function it is given.
\<close>

record ('c, 'p) curl_api =
  cu_global_init :: "'c \<Rightarrow> nat \<times> 'c"
  cu_easy_init :: "'c \<Rightarrow> bool \<times> 'c"
  cu_setopt :: "curl_option \<Rightarrow> 'c \<Rightarrow> nat \<times> 'c"
  cu_error :: "'c \<Rightarrow> string"
  cu_perform :: "(nat \<Rightarrow> nat \<Rightarrow> ('p, string) sx) \<Rightarrow> 'p \<Rightarrow> 'c \<Rightarrow> nat \<times> 'p \<times> 'c"

definition curl_readfunction :: "'p data_provider \<Rightarrow> nat \<Rightarrow> nat \<Rightarrow> ('p, string) sx" where
  "curl_readfunction dp sz nmemb = dp_getData dp (sz * nmemb)"

definition curl_setopt :: "('c, 'p) curl_api \<Rightarrow> (string \<Rightarrow> string) \<Rightarrow> curl_option \<Rightarrow> ('c, unit) sx" where
  "curl_setopt api msg opt c =
     (case cu_setopt api opt c of
        (err, c') \<Rightarrow> if err \<noteq> 0 then (Inl (KError (msg (cu_error api c'))), c') else (Inr (), c'))"

definition curl_message :: "string \<Rightarrow> string" where
  "curl_message text = ''CURL error: '' @ text"

definition curl_setup :: "('c, 'p) curl_api \<Rightarrow> ('c, unit) sx" where
  "curl_setup api =
     sx_seq (curl_setopt api (\<lambda>_. ''CURLOPT_ERRORBUFFER failed'') CURLOPT_ERRORBUFFER)
    (sx_seq (curl_setopt api curl_message CURLOPT_DEBUGFUNCTION)
    (sx_seq (curl_setopt api curl_message CURLOPT_DEBUGDATA)
    (sx_seq (curl_setopt api curl_message CURLOPT_VERBOSE)
    (sx_seq (curl_setopt api curl_message CURLOPT_FTP_CREATE_MISSING_DIRS)
    (sx_seq (curl_setopt api curl_message CURLOPT_READFUNCTION)
            (curl_setopt api curl_message CURLOPT_UPLOAD))))))"

text \<open>The flag is the static member that says whether \<^verbatim>\<open>libcurl\<close> was initialised.\<close>

definition curl_global :: "('c, 'p) curl_api \<Rightarrow> ('c \<times> bool, unit) sx" where
  "curl_global api = (\<lambda>(c, initialised).
     if initialised then (Inr (), (c, True))
     else (case cu_global_init api c of
             (err, c') \<Rightarrow> if err \<noteq> 0 then (Inl (KError ''curl_global_init() failed.''), (c', False)) else (Inr (), (c', True))))"

definition FTPTransfer :: "('c, 'p) curl_api \<Rightarrow> root_dir_url list \<Rightarrow> ('c \<times> bool, unit) sx" where
  "FTPTransfer api urlv =
     (if urlv = [] then sx_throw (Undefined ''front() of an empty URL vector'')
      else sx_seq (curl_global api) (\<lambda>(c, initialised).
        case cu_easy_init api c of
          (False, c') \<Rightarrow> (Inl (KError ''FTPTransfer::open(): curl_easy_init returned NULL''), (c', initialised))
        | (True, c') \<Rightarrow> (case curl_setup api c' of (r, c'') \<Rightarrow> (r, (c'', initialised)))))"

text \<open>\<open>reachable\<close> is the network check, which warns only.\<close>

definition FTPTransfer_open ::
    "('c, 'p) curl_api \<Rightarrow> (string \<Rightarrow> bool res) \<Rightarrow> root_dir_url list \<Rightarrow> string \<Rightarrow> ('c, unit) sx"
where
  "FTPTransfer_open api reachable urlv target_file =
     sx_seq (sx_lift (reachable (m_hostname (hd urlv))))
    (sx_seq (curl_setopt api curl_message (CURLOPT_URL (appendPath (m_url (hd urlv)) target_file)))
            (curl_setopt api curl_message CURLOPT_READDATA))"

definition on_provider :: "('p, 'a) sx \<Rightarrow> ('p \<times> 'c, 'a) sx" where
  "on_provider m = (\<lambda>(p, c). case m p of (r, p') \<Rightarrow> (r, (p', c)))"

definition curl_transfer :: "('c, 'p) curl_api \<Rightarrow> 'p data_provider \<Rightarrow> ('p \<times> 'c, unit) sx" where
  "curl_transfer api dp = (\<lambda>(p, c).
     case cu_perform api (curl_readfunction dp) p c of
       (err, p', c') \<Rightarrow> (if err \<noteq> 0 then Inl (KError (curl_message (cu_error api c'))) else Inr (), (p', c')))"

definition FTPTransfer_send ::
    "('c, 'p) curl_api \<Rightarrow> (string \<Rightarrow> bool res) \<Rightarrow> root_dir_url list \<Rightarrow> 'p data_provider \<Rightarrow> string \<Rightarrow> ('p \<times> 'c, unit) sx"
where
  "FTPTransfer_send api reachable urlv dp target_file = (\<lambda>(p, c).
     case FTPTransfer_open api reachable urlv target_file c of
       (Inl e, c') \<Rightarrow> (Inl e, (p, c'))
     | (Inr _, c') \<Rightarrow>
         sx_catch (sx_seq (on_provider (dp_prepare dp)) (sx_seq (curl_transfer api dp) (on_provider (dp_finish dp))))
           (on_provider (\<lambda>p. dp_finish dp (dp_setError dp True p))) (p, c'))"

text \<open>With the value assigned to \<^verbatim>\<open>*directSave\<close>, as in \<open>FileTransfer_perform\<close>.\<close>

definition FTPTransfer_perform ::
    "('c, 'p) curl_api \<Rightarrow> (string \<Rightarrow> bool res) \<Rightarrow> root_dir_url list \<Rightarrow> 'p data_provider \<Rightarrow> string list \<Rightarrow> 'p \<times> 'c \<Rightarrow>
     (unit res \<times> bool option) \<times> 'p \<times> 'c"
where
  "FTPTransfer_perform api reachable urlv dp target_files pc =
     (if target_files = [] then ((Inl (Undefined ''front() of an empty vector''), None), pc)
      else case FTPTransfer_send api reachable urlv dp (hd target_files) pc of (r, pc') \<Rightarrow> ((r, Some False), pc'))"

text \<open>
  \<^verbatim>\<open>curl_debug\<close>: the message printed, if any. Its loop removes the newlines at the end of the C string and looks before the buffer when
  nothing else is there.
\<close>

datatype curl_infotype = CURLINFO_TEXT | CURLINFO_HEADER_IN | CURLINFO_HEADER_OUT | CURLINFO_other nat

function strip_newlines :: "string \<Rightarrow> string res" where
  "strip_newlines s =
     (if s = [] then Inl (Undefined ''printbuffer[strlen(printbuffer) - 1] of an empty string'')
      else if last s = CHR 10 then strip_newlines (butlast s) else Inr s)"
  by pat_completeness auto
termination by (relation "measure length") auto

declare strip_newlines.simps [simp del]

definition curl_debug :: "bool \<Rightarrow> curl_infotype \<Rightarrow> string \<Rightarrow> string option res" where
  "curl_debug enabled info buffer =
     (if \<not> enabled then Inr None
      else res_bind (strip_newlines (takeWhile (\<lambda>ch. ch \<noteq> NUL) buffer)) (\<lambda>printbuffer.
        Inr (case info of
               CURLINFO_TEXT \<Rightarrow> Some (''CURL: '' @ printbuffer)
             | CURLINFO_HEADER_IN \<Rightarrow> Some (''CURL: <- '' @ printbuffer)
             | CURLINFO_HEADER_OUT \<Rightarrow> Some (''CURL: '' @ printbuffer)
             | _ \<Rightarrow> None)))"

section \<open>Where a share ends up\<close>

lemma find_str_after_slashes:
  assumes "set slashes \<subseteq> {SLASH}" and "SLASH \<notin> set part" and "part \<noteq> []"
  shows "find_str part (slashes @ part @ rest) = Some (length slashes)"
  using assms(1)
proof (induction slashes)
  case Nil
  then show ?case using assms(3) by (cases part) simp_all
next
  case (Cons c slashes)
  then have "\<not> prefix part ((c # slashes) @ part @ rest)" using assms(2,3) by (cases part) auto
  then show ?case using Cons by simp
qed

text \<open>A file URL of an absolute path: the path is taken as encoded.\<close>

lemma URLParser_file_path:
  assumes "path \<noteq> []" and "hd path = SLASH"
  shows "URLParser (''file://'' @ path) =
    Inr \<lparr>m_url = ''file://'' @ path, m_protocol = PROT_FILE, m_hostname = [], m_password = [], m_username = [], m_port = -1,
         m_path = url_decode False path\<rparr>"
proof -
  obtain c rest where p: "path = SLASH # rest" using assms by (cases path) auto
  have sch: "extractScheme (''file://'' @ path) = (''file'', ''//'' @ path)"
    by (simp add: extractScheme_def scheme_end_def char_class)
  have auth: "extractAuthority (''//'' @ path) = ([], path)"
    by (simp add: extractAuthority_def p authority_end_def SLASH_def)
  have "extractPort [] = Inr ([], -1)" "extractUserinfo [] = ([], [], [])"
    by (simp_all add: extractPort_def extractUserinfo_def rfind_char_def)
  note URLParser_stages [OF sch auth this]
  moreover have "string2protocol ''file'' = Inr PROT_FILE" using string2protocol_protocol2string [of PROT_FILE] by simp
  ultimately show ?thesis
    using assms by (simp add: guess_protocol_def default_username_def SLASH_def)
qed

lemma file_url_path:
  assumes "file_url env path s = (Inr u, s')" and "path \<noteq> []" and "hd path = SLASH"
  shows "m_protocol u = PROT_FILE \<and> m_path u = url_decode False path \<and> s' = s"
  using assms(1) unfolding file_url_def RootDirURL_def URLParser_file_path [OF assms(2,3)]
  by (auto simp: res_bind_eq_Inr_iff url_getters url_parser.defs)

lemma appendPath_mnt: "appendPath DEFAULT_MOUNTPOINT p = ''/mnt/'' @ dropWhile (\<lambda>c. c = SLASH) p"
proof -
  have "rtrim PATH_SEPARATOR ''/mnt'' = ''/mnt''" by (rule rtrim_id) (simp add: PATH_SEPARATOR_def SLASH_def)
  then show ?thesis
    by (simp add: appendPath_eq DEFAULT_MOUNTPOINT_def ltrim_dropWhile PATH_SEPARATOR_def SLASH_def)
qed

lemma nfs_mountpoint_abs: "nfs_mountpoint u \<noteq> [] \<and> hd (nfs_mountpoint u) = SLASH"
proof -
  let ?h = "appendPath DEFAULT_MOUNTPOINT (m_hostname u)"
  have h: "?h = ''/mnt/'' @ dropWhile (\<lambda>c. c = SLASH) (m_hostname u)" by (rule appendPath_mnt)
  have "rtrim PATH_SEPARATOR ?h \<noteq> [] \<and> hd (rtrim PATH_SEPARATOR ?h) = SLASH"
  proof -
    obtain t where t: "?h = rtrim PATH_SEPARATOR ?h @ t" "set t \<subseteq> {SLASH}"
      using rtrim_decomp [of ?h PATH_SEPARATOR] by (auto simp: PATH_SEPARATOR_def)
    have "CHR ''m'' \<in> set ?h" unfolding h by simp
    then have ne: "rtrim PATH_SEPARATOR ?h \<noteq> []" using t by (auto simp: SLASH_def)
    have "hd ?h = SLASH" unfolding h by (simp add: SLASH_def)
    then show ?thesis using ne t(1) by (metis hd_append2)
  qed
  then show ?thesis by (simp add: nfs_mountpoint_def appendPath_eq)
qed

section \<open>What stays mounted\<close>

text \<open>The mount points that are in use, the newest first, and how the calls change them.\<close>

definition mounts_law :: "'s share_env \<Rightarrow> ('s \<Rightarrow> string list) \<Rightarrow> bool" where
  "mounts_law env mounted \<longleftrightarrow>
     (\<forall>dev mp fs opts s. mounted (snd (sy_execute env ''mount'' (mount_args dev mp fs opts) s)) =
        (case fst (sy_execute env ''mount'' (mount_args dev mp fs opts) s) of
           Inr (ret, err) \<Rightarrow> if ret = 0 then mp # mounted s else mounted s
         | Inl e \<Rightarrow> mounted s)) \<and>
     (\<forall>mp s. mounted (snd (sy_execute env ''umount'' [mp] s)) =
        (case fst (sy_execute env ''umount'' [mp] s) of
           Inr (ret, err) \<Rightarrow> if ret = 0 then remove1 mp (mounted s) else mounted s
         | Inl e \<Rightarrow> mounted s)) \<and>
     (\<forall>host s. mounted (snd (sy_reachable env host s)) = mounted s) \<and>
     (\<forall>path s. mounted (fst (sy_sys_mkdir env path s)) = mounted s)"

lemma mkdir_one_keeps: "(\<And>p w. I (fst (sys_mkdir p w)) = I w) \<Longrightarrow> I (fst (mkdir_one sys_mkdir path w)) = I w"
  by (auto simp: mkdir_one_def split: prod.split option.split) (metis fst_conv)+

lemma mkdir_loop_keeps:
  assumes "\<And>p w. I (fst (sys_mkdir p w)) = I w"
  shows "I (fst (mkdir_loop sys_mkdir directory i w)) = I w"
  using assms
proof (induction sys_mkdir directory i w rule: mkdir_loop.induct)
  case (1 sys_mkdir directory i w)
  note one = mkdir_one_keeps [of I sys_mkdir, OF 1(2)]
  show ?case
  proof (cases "find_char_from SLASH directory (i + 1)")
    case None
    then show ?thesis using one by (subst mkdir_loop.simps) simp
  next
    case (Some slash)
    obtain w' r where m: "mkdir_one sys_mkdir (take slash directory) w = (w', r)" by fastforce
    then have w': "I w' = I w" using one [of "take slash directory" w] by simp
    show ?thesis
    proof (cases r)
      case (Inl e)
      then show ?thesis using Some m w' by (subst mkdir_loop.simps) simp
    next
      case (Inr u)
      then have "I (fst (mkdir_loop sys_mkdir directory slash w')) = I w'"
        using 1(1) [OF Some m [symmetric]] 1(2) by blast
      then show ?thesis using Some m w' Inr by (subst mkdir_loop.simps) simp
    qed
  qed
qed

lemma mkdir_keeps:
  assumes "\<And>p w. I (fst (sys_mkdir p w)) = I w"
  shows "I (fst (mkdir sys_mkdir rec path w)) = I w"
  using mkdir_one_keeps [of I sys_mkdir, OF assms] mkdir_loop_keeps [of I sys_mkdir, OF assms]
  by (simp add: mkdir_def Let_def)

lemma mkdir_targets_keeps:
  assumes "\<And>p w. I (fst (sys_mkdir p w)) = I w"
  shows "I (fst (mkdir_targets sys_mkdir us w)) = I w"
proof (induction us arbitrary: w)
  case (Cons u us)
  obtain w' r where m: "mkdir sys_mkdir True (getRealPath u) w = (w', r)" by fastforce
  then have "I w' = I w" using mkdir_keeps [of I sys_mkdir True "getRealPath u" w, OF assms] by simp
  then show ?case using m Cons by (cases r) simp_all
qed simp

lemma make_file_transfer_keeps:
  assumes "mounts_law env mounted"
  shows "mounted (snd (make_file_transfer env us s)) = mounted s"
proof -
  have "\<And>p w. mounted (fst (sy_sys_mkdir env p w)) = mounted w" using assms by (simp add: mounts_law_def)
  then have "mounted (fst (mkdir_targets (sy_sys_mkdir env) us s)) = mounted s" by (rule mkdir_targets_keeps)
  then show ?thesis
    by (cases "mkdir_targets (sy_sys_mkdir env) us s") (auto simp: make_file_transfer_def FileTransfer_def Let_def split: sum.split prod.split)
qed

text \<open>What one call of the program does to the mount points in use.\<close>

lemma file_mount_mounts:
  assumes "mounts_law env mounted" and "file_mount env dev mp fs opts s = (r, s')"
  shows "mounted s' = (case r of Inr _ \<Rightarrow> mp # mounted s | Inl _ \<Rightarrow> mounted s)"
proof -
  obtain x s1 where x: "sy_execute env ''mount'' (mount_args dev mp fs opts) s = (x, s1)" by fastforce
  have "mounted (snd (sy_execute env ''mount'' (mount_args dev mp fs opts) s)) =
        (case fst (sy_execute env ''mount'' (mount_args dev mp fs opts) s) of
           Inr (ret, err) \<Rightarrow> if ret = 0 then mp # mounted s else mounted s
         | Inl e \<Rightarrow> mounted s)"
    using assms(1) unfolding mounts_law_def by blast
  then show ?thesis
    using assms(2) x by (auto simp: file_mount_def sx_bind_def sx_simps split: sum.splits if_splits)
qed

lemma file_umount_mounts:
  assumes "mounts_law env mounted" and "file_umount env mp s = (r, s')"
  shows "mounted s' = (case r of Inr _ \<Rightarrow> remove1 mp (mounted s) | Inl _ \<Rightarrow> mounted s)"
proof -
  obtain x s1 where x: "sy_execute env ''umount'' [mp] s = (x, s1)" by fastforce
  have "mounted (snd (sy_execute env ''umount'' [mp] s)) =
        (case fst (sy_execute env ''umount'' [mp] s) of
           Inr (ret, err) \<Rightarrow> if ret = 0 then remove1 mp (mounted s) else mounted s
         | Inl e \<Rightarrow> mounted s)"
    using assms(1) unfolding mounts_law_def by blast
  then show ?thesis
    using assms(2) x by (auto simp: file_umount_def sx_bind_def sx_simps split: sum.splits if_splits)
qed

lemma reachable_mounts: "mounts_law env mounted \<Longrightarrow> sy_reachable env host s = (r, s') \<Longrightarrow> mounted s' = mounted s"
  unfolding mounts_law_def by (metis snd_conv)

lemma mkdir_all_mounts: "mounts_law env mounted \<Longrightarrow> mkdir_all env path s = (r, s') \<Longrightarrow> mounted s' = mounted s"
  using mkdir_keeps [of mounted "sy_sys_mkdir env" True path s]
  by (auto simp: mkdir_all_def mounts_law_def split: prod.splits)

lemma on_system_eq: "on_system m (s, mp) = (r, t) \<longleftrightarrow> (\<exists>s'. m s = (r, s') \<and> t = (s', mp))"
  by (auto simp: on_system_def split: prod.splits)

lemma file_url_state: "file_url env path s = (r, s') \<Longrightarrow> s' = s"
  by (simp add: file_url_def)

lemma nfs_translate_mounts:
  assumes "mounts_law env mounted" and "nfs_translate env u (s, mp) = (Inr f, (s', mp'))"
  shows "mp' = nfs_mountpoint u \<and> mounted s' = nfs_mountpoint u # mounted s"
proof -
  obtain s1 s2 s3 b where r: "sy_reachable env (m_hostname u) s = (Inr b, s1)"
      and k: "mkdir_all env (nfs_mountpoint u) s1 = (Inr (), s2)"
      and n: "nfsmount env (m_hostname u) (dirName (m_path u)) (nfs_mountpoint u) [''nolock''] s2 = (Inr (), s3)"
      and e: "s' = s3" "mp' = nfs_mountpoint u"
    using assms(2)
    by (auto simp: nfs_translate_def Let_def sx_seq_eq_Inr_iff on_system_eq set_mountpoint_def dest: file_url_state)
  show ?thesis
    using reachable_mounts [OF assms(1) r] mkdir_all_mounts [OF assms(1) k] file_mount_mounts [OF assms(1) n [unfolded nfsmount_def]] e
    by simp
qed

lemma nfs_translate_all_mounts:
  assumes "mounts_law env mounted" and "translate_all (nfs_translate env) us (s, mp) = (Inr fs, (s', mp'))"
  shows "mounted s' = rev (map nfs_mountpoint us) @ mounted s \<and> mp' = (if us = [] then mp else nfs_mountpoint (last us))"
  using assms(2)
proof (induction us arbitrary: s mp fs)
  case (Cons u us)
  obtain f s1 mp1 gs where t: "nfs_translate env u (s, mp) = (Inr f, (s1, mp1))"
      and a: "translate_all (nfs_translate env) us (s1, mp1) = (Inr gs, (s', mp'))"
    using Cons.prems by (auto simp: sx_bind_eq_Inr_iff sx_simps)
  show ?case using nfs_translate_mounts [OF assms(1) t] Cons.IH [OF a] by simp
qed (simp add: sx_simps)

lemma NFSTransfer_mounts:
  assumes "mounts_law env mounted" and "NFSTransfer env urlv s = (Inr ft, (s', mp))"
  shows "mounted s' = rev (map nfs_mountpoint urlv) @ mounted s \<and> mp = (if urlv = [] then [] else nfs_mountpoint (last urlv))"
proof -
  obtain fs s1 mp1 where t: "translate_all (nfs_translate env) urlv (s, []) = (Inr fs, (s1, mp1))"
      and f: "make_file_transfer env fs s1 = (Inr ft, s')" "mp = mp1"
    using assms(2) by (auto simp: NFSTransfer_def mounting_transfer_def sx_bind_eq_Inr_iff on_system_eq)
  show ?thesis
    using nfs_translate_all_mounts [OF assms(1) t] make_file_transfer_keeps [OF assms(1), of fs s1] f by simp
qed

text \<open>Only the share that was mounted last is unmounted.\<close>

lemma NFSTransfer_close_mounts:
  assumes law: "mounts_law env mounted" and ctor: "NFSTransfer env urlv s = (Inr ft, (s1, mp))" and "urlv \<noteq> []"
    and close: "transfer_close env (s1, mp) = (Inr u, (s2, mp2))"
  shows "mounted s2 = rev (map nfs_mountpoint (butlast urlv)) @ mounted s \<and> mp2 = []"
proof -
  have m: "mounted s1 = rev (map nfs_mountpoint urlv) @ mounted s" "mp = nfs_mountpoint (last urlv)"
    using NFSTransfer_mounts [OF law ctor] assms(3) by simp_all
  moreover obtain s' where "file_umount env mp s1 = (Inr (), s')" "s2 = s'" "mp2 = []"
    using close m(2) nfs_mountpoint_abs by (auto simp: transfer_close_def sx_seq_eq_Inr_iff on_system_eq set_mountpoint_def)
  ultimately have "mounted s2 = remove1 mp (rev (map nfs_mountpoint urlv) @ mounted s)" "mp2 = []"
    using file_umount_mounts [OF law, of mp s1] by auto
  moreover have "rev (map nfs_mountpoint (butlast urlv @ [last urlv])) = mp # rev (map nfs_mountpoint (butlast urlv))"
    using m(2) by simp
  then have "rev (map nfs_mountpoint urlv) = mp # rev (map nfs_mountpoint (butlast urlv))" using assms(3) by simp
  ultimately show ?thesis by simp
qed

section \<open>What each URL becomes\<close>

lemma cifs_translate_target:
  assumes path: "m_path u = slashes @ share @ ''/'' @ rest" "set slashes \<subseteq> {SLASH}" "SLASH \<notin> set share" "share \<noteq> []"
    and reach: "sy_reachable env (m_hostname u) s = (Inr b, s1)"
    and mount: "sy_execute env ''mount'' (mount_args (''//'' @ m_hostname u @ ''/'' @ share) ''/mnt'' ''cifs'' (cifs_options u)) s1 =
      (Inr (0, err), s2)"
    and ok: "cifs_translate env u (s, mp) = (Inr f, t)"
  shows "t = (s2, ''/mnt'') \<and> m_protocol f = PROT_FILE \<and>
    m_path f = url_decode False (''/mnt/'' @ dropWhile (\<lambda>c. c = SLASH) rest)"
proof -
  have lt: "ltrim PATH_SEPARATOR (m_path u) = share @ ''/'' @ rest"
  proof -
    have "dropWhile (\<lambda>c. c = SLASH) (slashes @ share @ ''/'' @ rest) = share @ ''/'' @ rest"
      using path(2,3,4) by (cases share) (auto simp: dropWhile_append)
    then show ?thesis by (simp add: ltrim_dropWhile PATH_SEPARATOR_def path(1))
  qed
  have fc: "find_char SLASH (share @ ''/'' @ rest) = Some (length share)"
    using path(3) find_char_append_Some [of SLASH share rest] by (simp add: SLASH_def)
  have fs: "find_str share (m_path u) = Some (length slashes)"
    unfolding path(1) by (rule find_str_after_slashes [OF path(2,3,4)])
  have fm: "file_mount env (''//'' @ m_hostname u @ ''/'' @ share) DEFAULT_MOUNTPOINT ''cifs'' (cifs_options u) s1 = (Inr (), s2)"
    using mount by (simp add: file_mount_def sx_bind_def sx_simps DEFAULT_MOUNTPOINT_def)
  have rest: "drop (length slashes + length share) (m_path u) = ''/'' @ rest" by (simp add: path(1))
  have "file_url env (appendPath DEFAULT_MOUNTPOINT (''/'' @ rest)) s2 = (Inr f, fst t) \<and> snd t = DEFAULT_MOUNTPOINT"
    using ok reach fm by (auto simp: cifs_translate_def Let_def lt fc fs rest sx_seq_eq_Inr_iff on_system_eq set_mountpoint_def simp del: append.simps)
  moreover have "appendPath DEFAULT_MOUNTPOINT (''/'' @ rest) = ''/mnt/'' @ dropWhile (\<lambda>c. c = SLASH) rest"
    by (simp add: appendPath_mnt SLASH_def)
  ultimately have "file_url env (''/mnt/'' @ dropWhile (\<lambda>c. c = SLASH) rest) s2 = (Inr f, fst t)" "snd t = ''/mnt''"
    by (simp_all add: DEFAULT_MOUNTPOINT_def)
  then show ?thesis using file_url_path [of env _ s2 f "fst t"] by (cases t) (fastforce simp: SLASH_def)
qed

lemma nfs_translate_target:
  assumes "nfs_translate env u (s, mp) = (Inr f, t)"
  shows "m_protocol f = PROT_FILE \<and> m_path f = url_decode False (nfs_mountpoint u @ ''/'' @ baseName (m_path u))"
proof -
  obtain s1 where "file_url env (nfs_mountpoint u @ PATH_SEPARATOR @ baseName (m_path u)) s1 = (Inr f, fst t)"
    using assms by (auto simp: nfs_translate_def Let_def sx_seq_eq_Inr_iff on_system_eq set_mountpoint_def)
  from file_url_path [OF this] nfs_mountpoint_abs [of u] show ?thesis
    by (auto simp: PATH_SEPARATOR_def SLASH_def)
qed

section \<open>FTP\<close>

text \<open>A trailing run of newlines is removed; a message of nothing else is read out of bounds.\<close>

lemma strip_newlines_append: "strip_newlines (s @ replicate n (CHR 10)) = strip_newlines s"
proof (induction n)
  case (Suc n)
  have "s @ replicate (Suc n) (CHR 10) = (s @ replicate n (CHR 10)) @ [CHR 10]" by (simp add: replicate_append_same)
  then show ?case using Suc by (subst strip_newlines.simps) (simp del: replicate_Suc append_assoc)
qed simp

lemma strip_newlines_blank: "strip_newlines (replicate n (CHR 10)) = Inl (Undefined ''printbuffer[strlen(printbuffer) - 1] of an empty string'')"
  using strip_newlines_append [of "[]" n] by (simp add: strip_newlines.simps)

text \<open>A transfer that succeeds opened the provider, sent to the URL of the target and closed the provider, once each.\<close>

lemma FTPTransfer_send_ok:
  "FTPTransfer_send api reachable urlv dp file (p, c) = (Inr (), (p', c')) \<longleftrightarrow>
   (\<exists>c1 p1 p2. FTPTransfer_open api reachable urlv file c = (Inr (), c1) \<and> dp_prepare dp p = (Inr (), p1) \<and>
      cu_perform api (curl_readfunction dp) p1 c1 = (0, p2, c') \<and> dp_finish dp p2 = (Inr (), p'))"
  by (auto simp: FTPTransfer_send_def sx_catch_eq_Inr_iff sx_seq_eq_Inr_iff on_provider_def curl_transfer_def split: prod.splits sum.splits if_splits)

text \<open>
  The handler closes the provider whatever failed: a process that could not be started, or that was already closed and returned
  an error, is closed again.
\<close>

lemma FTPTransfer_send_not_started:
  assumes "FTPTransfer_open api reachable urlv file c = (Inr (), c1)" and "pdp_processFile p = None" and "pdp_popen p = Inl e"
  shows "fst (FTPTransfer_send api reachable urlv process_provider file (p, c)) = Inl (Undefined ''pclose(NULL)'')"
  using assms
  by (simp add: FTPTransfer_send_def sx_catch_def sx_seq_def sx_bind_def on_provider_def process_provider_def pdp_prepare_def pdp_finish_def
      adp_setError_def)

lemma FTPTransfer_send_failed_process:
  assumes "FTPTransfer_open api reachable urlv file c = (Inr (), c1)" and "pdp_popen p = Inr f"
    and "cu_perform api (curl_readfunction process_provider) (p\<lparr>pdp_processFile := Some f\<rparr>) c1 = (0, p2, c2)"
    and "pdp_processFile p2 = Some f2" and "WEXITSTATUS (pdp_pclose p2) \<noteq> 0"
  shows "fst (FTPTransfer_send api reachable urlv process_provider file (p, c)) = Inl (Undefined ''pclose(NULL)'')"
proof -
  have p: "dp_prepare process_provider = pdp_prepare" "dp_finish process_provider = pdp_finish"
    "dp_setError process_provider = adp_setError" by (simp_all add: process_provider_def)
  have "pdp_prepare p = (Inr (), p\<lparr>pdp_processFile := Some f\<rparr>)" using assms(2) by (simp add: pdp_prepare_def)
  moreover have "\<exists>e. pdp_finish p2 = (Inl e, p2\<lparr>pdp_processFile := None\<rparr>)" using assms(4,5) by (simp add: pdp_finish_def Let_def)
  ultimately show ?thesis
    using assms(1,3)
    by (auto simp: FTPTransfer_send_def sx_catch_def sx_seq_def sx_bind_def on_provider_def curl_transfer_def p adp_setError_def
        pdp_finish_def [of "p2\<lparr>pdp_processFile := None, m_error := True\<rparr>"] pdp_finish_def [of "p2\<lparr>m_error := True, pdp_processFile := None\<rparr>"])
qed

end
