(* ===== verification/NetLink.thy ===== *)
theory NetLink
  imports StateExn StringUtil
begin

text \<open>
  \<^verbatim>\<open>kdumptool/routable.cc\<close>, class \<open>NetLink\<close>: route requests to the kernel over a netlink socket. Messages are the bytes of the C structures
  (little endian), the receive buffer is a list of bytes and a message in it an offset. The system calls act on an arbitrary state.
\<close>

section \<open>Numbers in messages\<close>

definition field :: "string \<Rightarrow> nat \<Rightarrow> nat \<Rightarrow> nat" where
  "field buf off n = le_nat (take n (drop off buf))"

lemma le_nat_less: "le_nat s < 256 ^ length s"
proof (induction s)
  case (Cons c s)
  define p :: nat where "p = 256 ^ length s"
  have "le_nat s + 1 \<le> p" "ord c < 256" using Cons by (simp_all add: p_def)
  then have "ord c + 256 * le_nat s < 256 * p" by linarith
  then show ?case by (simp add: p_def)
qed simp

lemma field_less: "field buf off n < 256 ^ n"
proof -
  have "field buf off n < 256 ^ length (take n (drop off buf))" unfolding field_def by (rule le_nat_less)
  also have "\<dots> \<le> 256 ^ n" by (rule power_increasing) auto
  finally show ?thesis .
qed

lemma field_le_bytes: "v < 256 ^ n \<Longrightarrow> length pre = off \<Longrightarrow> field (pre @ le_bytes n v @ post) off n = v"
  by (simp add: field_def le_nat_bytes)

text \<open>\<^verbatim>\<open>NLMSG_ALIGN\<close> and \<^verbatim>\<open>RTA_ALIGN\<close>: the lengths are those of what is in the buffer, far from the end of their type.\<close>

definition nl_align :: "nat \<Rightarrow> nat" where
  "nl_align n = 4 * ((n + 3) div 4)"

lemma nl_align_ge: "n \<le> nl_align n"
  by (simp add: nl_align_def)

lemma nl_align_pos: "0 < n \<Longrightarrow> 0 < nl_align n"
  by (simp add: nl_align_def)

lemma nl_align_id: "4 dvd n \<Longrightarrow> nl_align n = n"
  by (auto simp: nl_align_def elim: dvdE)

lemma nl_align_add4: "nl_align (4 + n) = 4 + nl_align n"
  unfolding nl_align_def by presburger

lemma dvd_nl_align: "4 dvd nl_align n"
  by (simp add: nl_align_def)

section \<open>Constants\<close>

definition AF_UNSPEC :: int where "AF_UNSPEC = 0"
definition AF_INET :: int where "AF_INET = 2"
definition AF_INET6 :: int where "AF_INET6 = 10"
definition AF_NETLINK :: nat where "AF_NETLINK = 16"

definition NLM_F_REQUEST :: nat where "NLM_F_REQUEST = 1"
definition NLMSG_ERROR :: nat where "NLMSG_ERROR = 2"
definition RTM_NEWROUTE :: nat where "RTM_NEWROUTE = 24"
definition RTM_DELROUTE :: nat where "RTM_DELROUTE = 25"
definition RTM_GETROUTE :: nat where "RTM_GETROUTE = 26"
definition RTA_DST :: nat where "RTA_DST = 1"
definition RTA_PREFSRC :: nat where "RTA_PREFSRC = 7"

definition RTN_UNSPEC :: nat where "RTN_UNSPEC = 0"
definition RTN_UNICAST :: nat where "RTN_UNICAST = 1"
definition RTN_LOCAL :: nat where "RTN_LOCAL = 2"
definition RTN_BROADCAST :: nat where "RTN_BROADCAST = 3"
definition RTN_ANYCAST :: nat where "RTN_ANYCAST = 4"
definition RTN_MULTICAST :: nat where "RTN_MULTICAST = 5"
definition RTN_BLACKHOLE :: nat where "RTN_BLACKHOLE = 6"
definition RTN_UNREACHABLE :: nat where "RTN_UNREACHABLE = 7"
definition RTN_PROHIBIT :: nat where "RTN_PROHIBIT = 8"
definition RTN_THROW :: nat where "RTN_THROW = 9"

definition EAI_FAMILY :: int where "EAI_FAMILY = -6"

text \<open>Negated error numbers, as the kernel and this class return them.\<close>

definition MINUS_ETIME :: int where "MINUS_ETIME = -62"
definition MINUS_EHOSTUNREACH :: int where "MINUS_EHOSTUNREACH = -113"
definition MINUS_EINVAL :: int where "MINUS_EINVAL = -22"
definition MINUS_EACCES :: int where "MINUS_EACCES = -13"
definition MINUS_EAGAIN :: int where "MINUS_EAGAIN = -11"

section \<open>The object and its system calls\<close>

record datagram =
  dg_data :: string
  dg_sender :: nat
  dg_namelen :: nat
  dg_trunc :: bool

record addrinfo =
  ai_family :: int
  ai_addr :: string

record 's net_ops =
  no_socket :: "'s \<Rightarrow> (errno + int) \<times> 's"
  no_bind :: "int \<Rightarrow> nat \<Rightarrow> 's \<Rightarrow> errno option \<times> 's"
  no_getsockname :: "int \<Rightarrow> 's \<Rightarrow> (errno + nat \<times> nat \<times> nat) \<times> 's"
  no_close :: "int \<Rightarrow> 's \<Rightarrow> 's"
  no_clock :: "'s \<Rightarrow> (int \<times> int) \<times> 's"
  no_poll :: "int \<Rightarrow> int \<Rightarrow> 's \<Rightarrow> (errno + nat) \<times> 's"
  no_recvmsg :: "int \<Rightarrow> nat \<Rightarrow> 's \<Rightarrow> (errno + datagram) \<times> 's"
  no_sendmsg :: "int \<Rightarrow> nat \<Rightarrow> nat \<Rightarrow> string \<Rightarrow> 's \<Rightarrow> errno option \<times> 's"
  no_getnameinfo :: "int \<Rightarrow> string \<Rightarrow> 's \<Rightarrow> (int + string) \<times> 's"
  no_getaddrinfo :: "string \<Rightarrow> 's \<Rightarrow> (int \<times> errno + addrinfo list) \<times> 's"
  no_nanosleep :: "int \<times> int \<Rightarrow> 's \<Rightarrow> 's"

text \<open>\<open>nl_seq\<close> is the static member \<^verbatim>\<open>m_seq\<close>, handed from one object to the next.\<close>

record netlink =
  nl_timeout :: int
  nl_fd :: int
  nl_local_pid :: nat
  nl_seq :: nat
  nl_buflen :: nat
  nl_buffer :: string
  nl_message :: "nat option"
  nl_family :: int
  nl_prefsrc :: string

definition NETLINK_DEF_RECV_MAX :: nat where "NETLINK_DEF_RECV_MAX = 1024"

definition sizeof_sockaddr_nl :: nat where "sizeof_sockaddr_nl = 12"

text \<open>\<open>garbage\<close> is the memory of the new buffer. A socket is not closed when the constructor throws.\<close>

definition NetLink :: "'s net_ops \<Rightarrow> string \<Rightarrow> nat \<Rightarrow> nat \<Rightarrow> ('s, netlink) sx" where
  "NetLink ops garbage seq subscribe s =
     (case no_socket ops s of
        (Inl e, s1) \<Rightarrow> (Inl (KSystemError ''Cannot create netlink'' e), s1)
      | (Inr fd, s1) \<Rightarrow>
          (case no_bind ops fd subscribe s1 of
             (Some e, s2) \<Rightarrow> (Inl (KSystemError ''Cannot bind netlink'' e), s2)
           | (None, s2) \<Rightarrow>
               (case no_getsockname ops fd s2 of
                  (Inl e, s3) \<Rightarrow> (Inl (KSystemError ''Cannot get local netlink address'' e), s3)
                | (Inr (salen, family, pid), s3) \<Rightarrow>
                    (if salen \<noteq> sizeof_sockaddr_nl \<or> family \<noteq> AF_NETLINK
                     then (Inl (KError ''Invalid local netlink address''), s3)
                     else (Inr \<lparr>nl_timeout = -1, nl_fd = fd, nl_local_pid = pid, nl_seq = seq, nl_buflen = NETLINK_DEF_RECV_MAX,
                                nl_buffer = garbage, nl_message = None, nl_family = AF_UNSPEC, nl_prefsrc = []\<rparr>, s3)))))"

definition netlink_destroy :: "'s net_ops \<Rightarrow> netlink \<Rightarrow> 's \<Rightarrow> 's" where
  "netlink_destroy ops nl s = (if 0 \<le> nl_fd nl then no_close ops (nl_fd nl) s else s)"

section \<open>Receiving\<close>

text \<open>The classes derived from \<open>RecvCheck\<close>: a test of the sender and a message.\<close>

type_synonym recv_check = "nat \<Rightarrow> string \<Rightarrow> nat \<Rightarrow> bool res"

definition nlmsg_len :: "string \<Rightarrow> nat \<Rightarrow> nat" where "nlmsg_len buf nh = field buf nh 4"
definition nlmsg_type :: "string \<Rightarrow> nat \<Rightarrow> nat" where "nlmsg_type buf nh = field buf (nh + 4) 2"
definition nlmsg_seq :: "string \<Rightarrow> nat \<Rightarrow> nat" where "nlmsg_seq buf nh = field buf (nh + 8) 4"
definition nlmsg_pid :: "string \<Rightarrow> nat \<Rightarrow> nat" where "nlmsg_pid buf nh = field buf (nh + 12) 4"

definition sizeof_nlmsghdr :: nat where "sizeof_nlmsghdr = 16"
definition sizeof_rtmsg :: nat where "sizeof_rtmsg = 12"
definition sizeof_rtattr :: nat where "sizeof_rtattr = 4"
definition sizeof_nlmsgerr :: nat where "sizeof_nlmsgerr = 20"

definition RouteRecvCheck :: recv_check where
  "RouteRecvCheck sender buf nh =
     (if nlmsg_type buf nh \<noteq> RTM_NEWROUTE \<and> nlmsg_type buf nh \<noteq> RTM_DELROUTE then Inr False
      else if nlmsg_len buf nh - sizeof_nlmsghdr < sizeof_rtmsg then Inl (KError ''Netlink rtmsg truncated'')
      else Inr (\<not> bit (field buf (nh + sizeof_nlmsghdr + 8) 4) 9))"

definition ReplyRecvCheck :: "nat \<Rightarrow> nat \<Rightarrow> nat \<Rightarrow> recv_check" where
  "ReplyRecvCheck peer pid seq sender buf nh =
     Inr (sender = peer \<and> nlmsg_pid buf nh = pid \<and> nlmsg_seq buf nh = seq)"

text \<open>The loop with \<^verbatim>\<open>NLMSG_OK\<close> and \<^verbatim>\<open>NLMSG_NEXT\<close>, whose length is signed: what it found, and the length that is left.\<close>

function scan_messages :: "(nat \<Rightarrow> bool res) \<Rightarrow> string \<Rightarrow> nat \<Rightarrow> int \<Rightarrow> (nat option \<times> int) res" where
  "scan_messages chk buf nh len =
     (if int sizeof_nlmsghdr \<le> len \<and> sizeof_nlmsghdr \<le> nlmsg_len buf nh \<and> int (nlmsg_len buf nh) \<le> len
      then res_bind (chk nh) (\<lambda>found.
             if found then Inr (Some nh, len)
             else scan_messages chk buf (nh + nl_align (nlmsg_len buf nh)) (len - int (nl_align (nlmsg_len buf nh))))
      else Inr (None, len))"
  by pat_completeness auto
termination
  by (relation "measure (\<lambda>(chk, buf, nh, len). nat len)")
    (auto simp: sizeof_nlmsghdr_def nl_align_def)

declare scan_messages.simps [simp del]

definition s32 :: "nat \<Rightarrow> int" where
  "s32 n = signed_take_bit 31 (int n)"

text \<open>What \<open>receive\<close> returns for the message found.\<close>

definition message_result :: "string \<Rightarrow> nat \<Rightarrow> int res" where
  "message_result buf nh =
     (if nlmsg_type buf nh \<noteq> NLMSG_ERROR then Inr 0
      else if nlmsg_len buf nh - sizeof_nlmsghdr < sizeof_nlmsgerr then Inl (KError ''Netlink ERROR reply truncated'')
      else Inr (s32 (field buf (nh + sizeof_nlmsghdr) 4)))"

text \<open>One datagram: the result, or \<open>None\<close> when none of its messages passes the test.\<close>

definition receive_datagram :: "'s net_ops \<Rightarrow> recv_check \<Rightarrow> (netlink \<times> 's, int option) sx" where
  "receive_datagram ops rc = (\<lambda>(nl, s).
     case no_recvmsg ops (nl_fd nl) (nl_buflen nl) s of
       (Inl e, s1) \<Rightarrow> (Inl (KSystemError ''Cannot receive netlink message'' e), (nl, s1))
     | (Inr dg, s1) \<Rightarrow>
         let data = dg_data dg; nl1 = nl\<lparr>nl_buffer := data @ drop (length data) (nl_buffer nl)\<rparr>
         in if data = [] then (Inl (KError ''EOF on netlink receive''), (nl1, s1))
            else if dg_namelen dg \<noteq> sizeof_sockaddr_nl
            then (Inl (KError ''Invalid netlink sender address length''), (nl1, s1))
            else
              (case scan_messages (rc (dg_sender dg) (nl_buffer nl1)) (nl_buffer nl1) 0 (int (length data)) of
                 Inl e \<Rightarrow> (Inl e, (nl1, s1))
               | Inr (Some nh, len) \<Rightarrow> (map_sum id Some (message_result (nl_buffer nl1) nh), (nl1\<lparr>nl_message := Some nh\<rparr>, s1))
               | Inr (None, len) \<Rightarrow>
                   (if dg_trunc dg then Inl (KError ''Netlink message truncated'')
                    else if len \<noteq> 0 then Inl (KError ''Invalid netlink message length'')
                    else Inr None, (nl1, s1))))"

text \<open>The milliseconds to a point in time, in \<^verbatim>\<open>int\<close>: the seconds are converted and then the nanoseconds added.\<close>

definition c_div :: "int \<Rightarrow> int \<Rightarrow> int" where
  "c_div a b = (if 0 \<le> a then a div b else - (- a div b))"

definition time_left :: "int \<times> int \<Rightarrow> int \<times> int \<Rightarrow> int" where
  "time_left tend tnow =
     (let timeout = signed_take_bit 31 ((fst tend - fst tnow) * 1000)
      in signed_take_bit 31 (timeout + c_div (snd tend - snd tnow) 1000000))"

text \<open>Waiting for data: \<open>False\<close> is a time-out.\<close>

definition receive_wait :: "'s net_ops \<Rightarrow> int \<times> int \<Rightarrow> (netlink \<times> 's, bool) sx" where
  "receive_wait ops tend = (\<lambda>(nl, s).
     let (timeout, s1) =
       (if 0 \<le> nl_timeout nl then (case no_clock ops s of (tnow, s1) \<Rightarrow> (Some (time_left tend tnow), s1)) else (None, s))
     in if (\<exists>t. timeout = Some t \<and> t < 0) then (Inr False, (nl, s1))
        else
          (case no_poll ops (nl_fd nl) (case timeout of None \<Rightarrow> -1 | Some t \<Rightarrow> t) s1 of
             (Inl e, s2) \<Rightarrow> (Inl (KSystemError ''Cannot poll netlink'' e), (nl, s2))
           | (Inr n, s2) \<Rightarrow> (Inr (n \<noteq> 0), (nl, s2))))"

partial_function (option) receive_loop ::
  "'s net_ops \<Rightarrow> recv_check \<Rightarrow> int \<times> int \<Rightarrow> netlink \<times> 's \<Rightarrow> (int res \<times> netlink \<times> 's) option"
where
  "receive_loop ops rc tend nls =
     (case receive_wait ops tend nls of
        (Inl e, nls1) \<Rightarrow> Some (Inl e, nls1)
      | (Inr ready, nls1) \<Rightarrow>
          (if \<not> ready then Some (Inr MINUS_ETIME, nls1)
           else
             (case receive_datagram ops rc nls1 of
                (Inl e, nls2) \<Rightarrow> Some (Inl e, nls2)
              | (Inr res, nls2) \<Rightarrow> (case res of Some v \<Rightarrow> Some (Inr v, nls2) | None \<Rightarrow> receive_loop ops rc tend nls2))))"

definition receive :: "'s net_ops \<Rightarrow> recv_check \<Rightarrow> netlink \<times> 's \<Rightarrow> (int res \<times> netlink \<times> 's) option" where
  "receive ops rc = (\<lambda>(nl, s).
     case no_clock ops s of
       (t, s1) \<Rightarrow> receive_loop ops rc (fst t + nl_timeout nl, snd t) (nl\<lparr>nl_message := None\<rparr>, s1))"

definition waitRouteChange :: "'s net_ops \<Rightarrow> netlink \<times> 's \<Rightarrow> (int res \<times> netlink \<times> 's) option" where
  "waitRouteChange ops = receive ops RouteRecvCheck"

section \<open>Requests\<close>

text \<open>A request is the bytes of its structure; as many are sent as its length field says.\<close>

definition talk :: "'s net_ops \<Rightarrow> string \<Rightarrow> nat \<Rightarrow> nat \<Rightarrow> netlink \<times> 's \<Rightarrow> (int res \<times> netlink \<times> 's) option" where
  "talk ops req peer groups = (\<lambda>(nl, s).
     let seq = (nl_seq nl + 1) mod 2 ^ 32; nl1 = nl\<lparr>nl_seq := seq\<rparr>;
         req1 = take 8 req @ le_bytes 4 seq @ drop 12 req
     in case no_sendmsg ops (nl_fd nl) peer groups (take (nlmsg_len req 0) req1) s of
          (Some e, s1) \<Rightarrow> Some (Inl (KSystemError ''Cannot send netlink message'' e), (nl1, s1))
        | (None, s1) \<Rightarrow> receive ops (ReplyRecvCheck peer (nl_local_pid nl) seq) (nl1, s1))"

text \<open>The address in the bytes of a \<^verbatim>\<open>sockaddr_in\<close> or \<^verbatim>\<open>sockaddr_in6\<close>.\<close>

definition request_address :: "addrinfo \<Rightarrow> string" where
  "request_address ai = (if ai_family ai = AF_INET then take 4 (drop 4 (ai_addr ai)) else take 16 (drop 8 (ai_addr ai)))"

definition route_request :: "addrinfo \<Rightarrow> string" where
  "route_request ai =
     (let addrlen = (if ai_family ai = AF_INET then 4 else 16);
          rta_len = sizeof_rtattr + addrlen
      in le_bytes 4 (sizeof_nlmsghdr + sizeof_rtmsg + rta_len) @ le_bytes 2 RTM_GETROUTE @ le_bytes 2 NLM_F_REQUEST @
         le_bytes 4 0 @ le_bytes 4 0 @
         le_bytes 1 (nat (ai_family ai mod 256)) @ le_bytes 1 (addrlen * 8) @ le_bytes 6 0 @ le_bytes 4 0 @
         le_bytes 2 rta_len @ le_bytes 2 RTA_DST @ request_address ai @ replicate (16 - addrlen) NUL)"

section \<open>Attributes\<close>

definition prefsrc_attr :: "'s net_ops \<Rightarrow> string \<Rightarrow> (netlink \<times> 's, unit) sx" where
  "prefsrc_attr ops addr = (\<lambda>(nl, s).
     case (if nl_family nl = AF_INET \<and> length addr = 4 \<or> nl_family nl = AF_INET6 \<and> length addr = 16
           then no_getnameinfo ops (nl_family nl) addr s else (Inl EAI_FAMILY, s)) of
       (Inl res, s1) \<Rightarrow> (Inl (KGaiError ''Cannot parse preferred source address'' res), (nl, s1))
     | (Inr text, s1) \<Rightarrow> (Inr (), (nl\<lparr>nl_prefsrc := text\<rparr>, s1)))"

text \<open>
  The loop with \<^verbatim>\<open>RTA_OK\<close> and \<^verbatim>\<open>RTA_NEXT\<close>. The length is a \<^verbatim>\<open>size_t\<close>: it wraps around when the last attribute is not padded,
  and the loop goes on behind the message. A read behind the buffer is undefined.
\<close>

function parse_attrs :: "'s net_ops \<Rightarrow> string \<Rightarrow> nat \<Rightarrow> 64 word \<Rightarrow> (netlink \<times> 's, int) sx" where
  "parse_attrs ops buf rta len nls =
     (let rta_len = field buf rta 2; rta_type = field buf (rta + 2) 2; dlen = rta_len - sizeof_rtattr;
          finished = (if len \<noteq> 0 then Inl (KError ''Netlink rtattr truncated'') else Inr 0, nls)
      in if unat len < sizeof_rtattr then finished
         else if length buf < rta + sizeof_rtattr then (Inl (Undefined ''attribute behind the receive buffer''), nls)
         else if rta_len < sizeof_rtattr \<or> unat len < rta_len then finished
         else if rta_type = RTA_PREFSRC
         then (if length buf < rta + rta_len then (Inl (Undefined ''attribute behind the receive buffer''), nls)
               else (case prefsrc_attr ops (take dlen (drop (rta + sizeof_rtattr) buf)) nls of
                       (Inl e, nls1) \<Rightarrow> (Inl e, nls1)
                     | (Inr _, nls1) \<Rightarrow>
                         parse_attrs ops buf (rta + nl_align rta_len) (len - of_nat (nl_align rta_len)) nls1))
         else parse_attrs ops buf (rta + nl_align rta_len) (len - of_nat (nl_align rta_len)) nls)"
  by pat_completeness auto
termination
proof (relation "measure (\<lambda>(ops, buf, rta, len, nls). length buf - rta)", goal_cases)
  case 1
  then show ?case by simp
next
  case (2 ops buf rta len nls)
  then show ?case using nl_align_ge [of "field buf rta 2"] by (auto simp: sizeof_rtattr_def)
next
  case (3 ops buf rta len nls)
  then show ?case using nl_align_ge [of "field buf rta 2"] by (auto simp: sizeof_rtattr_def)
qed

declare parse_attrs.simps [simp del]

text \<open>The types of route that can be used, and what the others return.\<close>

definition usable_types :: "nat set" where
  "usable_types = {RTN_UNSPEC, RTN_UNICAST, RTN_LOCAL, RTN_BROADCAST, RTN_ANYCAST, RTN_MULTICAST}"

definition reply_result :: "nat \<Rightarrow> int" where
  "reply_result rtype =
     (if rtype = RTN_UNREACHABLE then MINUS_EHOSTUNREACH
      else if rtype = RTN_BLACKHOLE then MINUS_EINVAL
      else if rtype = RTN_PROHIBIT then MINUS_EACCES
      else if rtype = RTN_THROW then MINUS_EAGAIN
      else MINUS_EINVAL)"

text \<open>\<open>checkRoute\<close> reads the message that \<open>talk\<close> found.\<close>

definition route_reply :: "'s net_ops \<Rightarrow> (netlink \<times> 's, int) sx" where
  "route_reply ops = (\<lambda>(nl, s).
     case nl_message nl of
       None \<Rightarrow> (Inl (Undefined ''message() is NULL''), (nl, s))
     | Some nh \<Rightarrow>
         let buf = nl_buffer nl; rt = nh + sizeof_nlmsghdr; rtm_type = field buf (rt + 7) 1
         in if nlmsg_type buf nh \<noteq> RTM_NEWROUTE then (Inl (KError ''Netlink RTM_GETROUTE reply mismatch''), (nl, s))
            else if nlmsg_len buf nh - sizeof_nlmsghdr < sizeof_rtmsg then (Inl (KError ''Netlink rtmsg truncated''), (nl, s))
            else if rtm_type \<in> usable_types
            then parse_attrs ops buf (rt + sizeof_rtmsg) (of_nat (nlmsg_len buf nh - sizeof_nlmsghdr - sizeof_rtmsg))
                   (nl\<lparr>nl_family := int (field buf rt 1)\<rparr>, s)
            else (Inr (reply_result rtm_type), (nl, s)))"

definition checkRoute :: "'s net_ops \<Rightarrow> addrinfo \<Rightarrow> netlink \<times> 's \<Rightarrow> (int res \<times> netlink \<times> 's) option" where
  "checkRoute ops ai nls =
     Option.bind (talk ops (route_request ai) 0 0 nls) (\<lambda>(r, nls1).
       case r of
         Inl e \<Rightarrow> Some (Inl e, nls1)
       | Inr res \<Rightarrow> Some (if res < 0 then (Inr res, nls1) else route_reply ops nls1))"

section \<open>Messages in a datagram\<close>

definition nl_message_ok :: "string \<Rightarrow> bool" where
  "nl_message_ok m \<longleftrightarrow> sizeof_nlmsghdr \<le> length m \<and> nlmsg_len m 0 = length m \<and> 4 dvd length m"

lemma field_mid: "off + n \<le> length m \<Longrightarrow> field (pre @ m @ post) (length pre + off) n = field m off n"
  by (simp add: field_def)

lemma field_start: "off + n \<le> length m \<Longrightarrow> field (m @ post) off n = field m off n"
  by (simp add: field_def)

text \<open>The first message that passes the test, by its place.\<close>

fun find_message :: "(nat \<Rightarrow> bool res) \<Rightarrow> nat \<Rightarrow> string list \<Rightarrow> nat option res" where
  "find_message chk nh [] = Inr None"
| "find_message chk nh (m # ms) =
     res_bind (chk nh) (\<lambda>found. if found then Inr (Some nh) else find_message chk (nh + length m) ms)"

lemma scan_messages_find:
  assumes "\<forall>m \<in> set ms. nl_message_ok m" and "behind = length pre + length (concat ms)"
  shows "scan_messages chk (pre @ concat ms @ post) (length pre) (int (length (concat ms))) =
    res_bind (find_message chk (length pre) ms) (\<lambda>r. Inr (r, case r of None \<Rightarrow> 0 | Some nh \<Rightarrow> int behind - int nh))"
  using assms
proof (induction ms arbitrary: pre)
  case Nil
  then show ?case by (subst scan_messages.simps) (simp add: sizeof_nlmsghdr_def)
next
  case (Cons m ms)
  let ?buf = "pre @ concat (m # ms) @ post"
  have ok: "sizeof_nlmsghdr \<le> length m" "nlmsg_len m 0 = length m" "4 dvd length m"
    using Cons.prems by (simp_all add: nl_message_ok_def)
  have len: "nlmsg_len ?buf (length pre) = length m"
    using ok(1,2) field_mid [of 0 4 m pre "concat ms @ post"] by (simp add: nlmsg_len_def sizeof_nlmsghdr_def)
  have IH: "scan_messages chk ((pre @ m) @ concat ms @ post) (length (pre @ m)) (int (length (concat ms))) =
      res_bind (find_message chk (length (pre @ m)) ms) (\<lambda>r. Inr (r, case r of None \<Rightarrow> 0 | Some nh \<Rightarrow> int behind - int nh))"
    by (rule Cons.IH) (use Cons.prems in simp_all)
  show ?case
  proof (cases "chk (length pre)")
    case (Inl e)
    then show ?thesis using ok(1) len by (subst scan_messages.simps) simp
  next
    case (Inr b)
    then show ?thesis
      using ok(1) len IH nl_align_id [OF ok(3)] Cons.prems(2) by (subst scan_messages.simps) simp
  qed
qed

lemma find_message_first:
  assumes "\<forall>i < length ms1. chk (nh + length (concat (take i ms1))) = Inr False" and "chk (nh + length (concat ms1)) = Inr True"
  shows "find_message chk nh (ms1 @ m # ms2) = Inr (Some (nh + length (concat ms1)))"
  using assms
proof (induction ms1 arbitrary: nh)
  case (Cons x xs)
  have "chk nh = Inr False" using Cons.prems(1) by (metis add.right_neutral concat.simps(1) length_Cons list.size(3) take0 zero_less_Suc)
  moreover have "find_message chk (nh + length x) (xs @ m # ms2) = Inr (Some (nh + length x + length (concat xs)))"
  proof (rule Cons.IH)
    show "\<forall>i < length xs. chk (nh + length x + length (concat (take i xs))) = Inr False"
      using Cons.prems(1) by (metis (no_types, lifting) Suc_less_eq add.assoc concat.simps(2) length_Cons length_append take_Suc_Cons)
    show "chk (nh + length x + length (concat xs)) = Inr True" using Cons.prems(2) by (simp add: add.assoc)
  qed
  ultimately show ?case by simp
qed simp

section \<open>Attributes of a message\<close>

definition attr_bytes :: "nat \<times> string \<Rightarrow> string" where
  "attr_bytes = (\<lambda>(t, d). le_bytes 2 (sizeof_rtattr + length d) @ le_bytes 2 t @ d @ replicate (nl_align (length d) - length d) NUL)"

definition attr_ok :: "nat \<times> string \<Rightarrow> bool" where
  "attr_ok = (\<lambda>(t, d). t < 2 ^ 16 \<and> sizeof_rtattr + length d < 2 ^ 16)"

lemma length_attr_bytes: "length (attr_bytes (t, d)) = nl_align (sizeof_rtattr + length d)"
  using nl_align_ge [of "length d"] nl_align_add4 [of "length d"] by (simp add: attr_bytes_def sizeof_rtattr_def)

text \<open>What the attributes set, one after the other: the preferred source address.\<close>

fun set_attrs :: "'s net_ops \<Rightarrow> (nat \<times> string) list \<Rightarrow> (netlink \<times> 's, int) sx" where
  "set_attrs ops [] nls = (Inr 0, nls)"
| "set_attrs ops ((t, d) # as) nls =
     (if t = RTA_PREFSRC
      then (case prefsrc_attr ops d nls of (Inl e, nls1) \<Rightarrow> (Inl e, nls1) | (Inr _, nls1) \<Rightarrow> set_attrs ops as nls1)
      else set_attrs ops as nls)"

text \<open>One round of the loop.\<close>

definition set_attr :: "'s net_ops \<Rightarrow> nat \<Rightarrow> string \<Rightarrow> (netlink \<times> 's, unit) sx" where
  "set_attr ops t d = (if t = RTA_PREFSRC then prefsrc_attr ops d else sx_return ())"

lemma parse_attrs_step:
  assumes "field buf rta 2 = sizeof_rtattr + length d" and "field buf (rta + 2) 2 = t"
    and "take (length d) (drop (rta + sizeof_rtattr) buf) = d"
    and "rta + (sizeof_rtattr + length d) \<le> length buf" and "sizeof_rtattr + length d \<le> unat len"
  shows "parse_attrs ops buf rta len nls =
    (case set_attr ops t d nls of
       (Inl e, nls1) \<Rightarrow> (Inl e, nls1)
     | (Inr _, nls1) \<Rightarrow>
         parse_attrs ops buf (rta + nl_align (sizeof_rtattr + length d)) (len - of_nat (nl_align (sizeof_rtattr + length d))) nls1)"
  using assms by (subst parse_attrs.simps) (simp add: Let_def set_attr_def sx_simps)

lemma set_attrs_Cons:
  "set_attrs ops ((t, d) # as) nls =
    (case set_attr ops t d nls of (Inl e, nls1) \<Rightarrow> (Inl e, nls1) | (Inr _, nls1) \<Rightarrow> set_attrs ops as nls1)"
  by (simp add: set_attr_def sx_simps)

lemma len_of_64: "LENGTH(64) = 64"
  by simp

lemma parse_attrs_set:
  assumes "list_all attr_ok as" and "length pre + length (concat (map attr_bytes as)) < 2 ^ 64"
  shows "parse_attrs ops (pre @ concat (map attr_bytes as) @ post) (length pre)
      (of_nat (length (concat (map attr_bytes as)))) nls = set_attrs ops as nls"
  using assms
proof (induction as arbitrary: pre nls)
  case Nil
  then show ?case by (subst parse_attrs.simps) (simp add: Let_def sizeof_rtattr_def)
next
  case (Cons a as)
  obtain t d where a: "a = (t, d)" by fastforce
  let ?rest = "concat (map attr_bytes as)" and ?n = "sizeof_rtattr + length d"
  let ?buf = "pre @ attr_bytes a @ ?rest @ post" and ?len = "of_nat (length (attr_bytes a @ ?rest)) :: 64 word"
  have td: "t < 65536" "?n < 65536" using Cons.prems(1) a by (simp_all add: attr_ok_def)
  have la: "length (attr_bytes a) = nl_align ?n" by (simp add: a length_attr_bytes)
  have small: "length (attr_bytes a @ ?rest) < 2 ^ 64" using Cons.prems(2) by simp
  then have "unat ?len = length (attr_bytes a @ ?rest)" by (simp only: unat_of_nat mod_less len_of_64)
  then have ulen: "unat ?len = length (attr_bytes a) + length ?rest" by simp
  have f1: "field ?buf (length pre) 2 = ?n"
    using td(2) by (simp add: a attr_bytes_def field_def le_nat_bytes)
  have f2: "field ?buf (length pre + 2) 2 = t"
    using td(1) by (simp add: a attr_bytes_def field_def le_nat_bytes)
  have f3: "take (length d) (drop (length pre + sizeof_rtattr) ?buf) = d"
    by (simp add: a attr_bytes_def sizeof_rtattr_def)
  have ge: "?n \<le> length (attr_bytes a)" "sizeof_rtattr \<le> ?n" using nl_align_ge [of ?n] la by simp_all
  have len': "?len - of_nat (nl_align ?n) = of_nat (length ?rest)" by (simp add: la)
  have IH: "parse_attrs ops ((pre @ attr_bytes a) @ ?rest @ post) (length (pre @ attr_bytes a)) (of_nat (length ?rest)) nls' =
      set_attrs ops as nls'" for nls'
    by (rule Cons.IH) (use Cons.prems in simp_all)
  then have IH': "parse_attrs ops ?buf (length pre + nl_align ?n) (?len - of_nat (nl_align ?n)) nls' = set_attrs ops as nls'" for nls'
    unfolding len' by (simp add: la)
  have m: "length pre + ?n \<le> length ?buf" "?n \<le> unat ?len" using ge(1) ulen by simp_all
  have "parse_attrs ops ?buf (length pre) ?len nls = set_attrs ops ((t, d) # as) nls"
    unfolding parse_attrs_step [OF f1 f2 f3 m] IH' set_attrs_Cons ..
  then show ?case by (simp add: a)
qed

section \<open>The answer to a request\<close>

text \<open>A routing message as the kernel builds it; \<open>misc\<close> are the six bytes between the family and the type of the route.\<close>

definition route_message :: "nat \<Rightarrow> nat \<Rightarrow> nat \<Rightarrow> nat \<Rightarrow> nat \<Rightarrow> string \<Rightarrow> nat \<Rightarrow> nat \<Rightarrow> (nat \<times> string) list \<Rightarrow> string" where
  "route_message mtype flags seq pid family misc rtype rflags as =
     le_bytes 4 (sizeof_nlmsghdr + sizeof_rtmsg + length (concat (map attr_bytes as))) @ le_bytes 2 mtype @ le_bytes 2 flags @
     le_bytes 4 seq @ le_bytes 4 pid @
     le_bytes 1 family @ misc @ le_bytes 1 rtype @ le_bytes 4 rflags @ concat (map attr_bytes as)"

lemma dvd_length_attrs: "4 dvd length (concat (map attr_bytes as))"
  by (induction as) (auto simp: length_attr_bytes dvd_nl_align split_paired_all)

lemma route_message_fields:
  assumes "length misc = 6"
  shows length_route_message: "length (route_message mtype flags seq pid family misc rtype rflags as) = 28 + length (concat (map attr_bytes as))"
    and route_message_type: "mtype < 2 ^ 16 \<Longrightarrow> nlmsg_type (route_message mtype flags seq pid family misc rtype rflags as) 0 = mtype"
    and route_message_seq: "seq < 2 ^ 32 \<Longrightarrow> nlmsg_seq (route_message mtype flags seq pid family misc rtype rflags as) 0 = seq"
    and route_message_pid: "pid < 2 ^ 32 \<Longrightarrow> nlmsg_pid (route_message mtype flags seq pid family misc rtype rflags as) 0 = pid"
    and route_message_family: "family < 256 \<Longrightarrow> field (route_message mtype flags seq pid family misc rtype rflags as) 16 1 = family"
    and route_message_rtype: "rtype < 256 \<Longrightarrow> field (route_message mtype flags seq pid family misc rtype rflags as) 23 1 = rtype"
    and route_message_attrs: "drop 28 (route_message mtype flags seq pid family misc rtype rflags as) = concat (map attr_bytes as)"
  using assms
  by (simp_all add: route_message_def nlmsg_type_def nlmsg_seq_def nlmsg_pid_def field_def sizeof_nlmsghdr_def sizeof_rtmsg_def
      le_nat_bytes)

lemma route_message_len:
  assumes "length misc = 6" and "28 + length (concat (map attr_bytes as)) < 2 ^ 32"
  shows "nlmsg_len (route_message mtype flags seq pid family misc rtype rflags as) 0 = 28 + length (concat (map attr_bytes as))"
  using assms
  by (simp add: route_message_def nlmsg_len_def field_def sizeof_nlmsghdr_def sizeof_rtmsg_def le_nat_bytes)

lemma route_message_ok:
  assumes "length misc = 6" and "28 + length (concat (map attr_bytes as)) < 2 ^ 32"
  shows "nl_message_ok (route_message mtype flags seq pid family misc rtype rflags as)"
proof -
  have "4 dvd (28 :: nat)" by simp
  then show ?thesis
    using length_route_message [OF assms(1)] route_message_len [OF assms] dvd_length_attrs [of as] dvd_add [of 4 28 "length (concat (map attr_bytes as))"]
    by (simp add: nl_message_ok_def sizeof_nlmsghdr_def)
qed

text \<open>A datagram of whole messages: the first that passes the test is the result.\<close>

lemma receive_datagram_first:
  assumes recv: "no_recvmsg ops (nl_fd nl) (nl_buflen nl) s = (Inr dg, s1)" and nlen: "dg_namelen dg = sizeof_sockaddr_nl"
    and data: "dg_data dg = concat (ms1 @ m # ms2)" and ok: "\<forall>x \<in> set (ms1 @ m # ms2). nl_message_ok x"
    and buf: "buf = dg_data dg @ drop (length (dg_data dg)) (nl_buffer nl)"
    and first: "\<forall>i < length ms1. rc (dg_sender dg) buf (length (concat (take i ms1))) = Inr False"
      "rc (dg_sender dg) buf (length (concat ms1)) = Inr True"
  shows "receive_datagram ops rc (nl, s) =
    (map_sum id Some (message_result buf (length (concat ms1))), (nl\<lparr>nl_buffer := buf, nl_message := Some (length (concat ms1))\<rparr>, s1))"
proof -
  have "16 \<le> length m" using ok by (simp add: nl_message_ok_def sizeof_nlmsghdr_def)
  then have ne: "dg_data dg \<noteq> []" using data by auto
  have f: "find_message (rc (dg_sender dg) buf) 0 (ms1 @ m # ms2) = Inr (Some (length (concat ms1)))"
    using find_message_first [of ms1 "rc (dg_sender dg) buf" 0 m ms2] first by simp
  have "scan_messages (rc (dg_sender dg) buf) buf 0 (int (length (dg_data dg))) =
      Inr (Some (length (concat ms1)), int (length (dg_data dg)) - int (length (concat ms1)))"
    using scan_messages_find [OF ok, of "length (dg_data dg)" "[]" "rc (dg_sender dg) buf" "drop (length (dg_data dg)) (nl_buffer nl)"] f
    unfolding buf data [symmetric] by simp
  then show ?thesis using recv nlen ne by (simp add: receive_datagram_def Let_def buf [symmetric])
qed

text \<open>The field of a message inside a buffer.\<close>

lemma field_concat:
  assumes "i < length ms" and "off + n \<le> length (ms ! i)"
  shows "field (concat ms @ post) (length (concat (take i ms)) + off) n = field (ms ! i) off n"
proof -
  have "concat ms = concat (take i ms) @ ms ! i @ concat (drop (Suc i) ms)"
    using id_take_nth_drop [OF assms(1)] by (metis concat.simps(2) concat_append)
  then show ?thesis using field_mid [OF assms(2), of "concat (take i ms)" "concat (drop (Suc i) ms) @ post"] by simp
qed

lemma ReplyRecvCheck_concat:
  assumes "i < length ms" and "nl_message_ok (ms ! i)"
  shows "ReplyRecvCheck peer pid seq sender (concat ms @ post) (length (concat (take i ms))) =
    Inr (sender = peer \<and> nlmsg_pid (ms ! i) 0 = pid \<and> nlmsg_seq (ms ! i) 0 = seq)"
  using field_concat [OF assms(1), of 8 4 post] field_concat [OF assms(1), of 12 4 post] assms(2)
  by (simp add: ReplyRecvCheck_def nlmsg_pid_def nlmsg_seq_def nl_message_ok_def sizeof_nlmsghdr_def)

text \<open>A socket without a time-out that has a datagram ready.\<close>

lemma receive_ready:
  assumes "nl_timeout nl = -1" and "no_clock ops s = (t, s1)" and "no_poll ops (nl_fd nl) (-1) s1 = (Inr (Suc n), s2)"
    and "receive_datagram ops rc (nl\<lparr>nl_message := None\<rparr>, s2) = (Inr (Some v), nls)"
  shows "receive ops rc (nl, s) = Some (Inr v, nls)"
  using assms by (simp add: receive_def receive_loop.simps receive_wait_def)

text \<open>
  A request that is answered: \<open>checkRoute\<close> finds the answer among the messages of the datagram and applies its attributes, in order, or
  returns the error of its type.
\<close>

definition answered :: "'s net_ops \<Rightarrow> netlink \<Rightarrow> string \<Rightarrow> 's \<Rightarrow> datagram \<Rightarrow> 's \<Rightarrow> bool" where
  "answered ops nl req s dg s' \<longleftrightarrow>
     (\<exists>s1 s2 s3 t n. no_sendmsg ops (nl_fd nl) 0 0 req s = (None, s1) \<and> no_clock ops s1 = (t, s2) \<and>
        no_poll ops (nl_fd nl) (-1) s2 = (Inr (Suc n), s3) \<and> no_recvmsg ops (nl_fd nl) (nl_buflen nl) s3 = (Inr dg, s'))"

definition request_bytes :: "netlink \<Rightarrow> addrinfo \<Rightarrow> string" where
  "request_bytes nl ai =
     (let req = route_request ai; req1 = take 8 req @ le_bytes 4 ((nl_seq nl + 1) mod 2 ^ 32) @ drop 12 req
      in take (nlmsg_len req 0) req1)"

lemma talk_answered:
  assumes "nl_timeout nl = -1" and "answered ops nl (request_bytes nl ai) s dg s'"
    and "dg_sender dg = 0" and "dg_namelen dg = sizeof_sockaddr_nl"
    and data: "dg_data dg = concat (ms1 @ m # ms2)" and ok: "\<forall>x \<in> set (ms1 @ m # ms2). nl_message_ok x"
    and "\<forall>x \<in> set ms1. nlmsg_pid x 0 \<noteq> nl_local_pid nl \<or> nlmsg_seq x 0 \<noteq> (nl_seq nl + 1) mod 2 ^ 32"
    and "nlmsg_pid m 0 = nl_local_pid nl" and "nlmsg_seq m 0 = (nl_seq nl + 1) mod 2 ^ 32"
    and type: "nlmsg_type m 0 \<noteq> NLMSG_ERROR"
  shows "\<exists>nl'. talk ops (route_request ai) 0 0 (nl, s) = Some (Inr 0, (nl', s')) \<and> nl_message nl' = Some (length (concat ms1)) \<and>
    nl_buffer nl' = dg_data dg @ drop (length (dg_data dg)) (nl_buffer nl) \<and> nl_prefsrc nl' = nl_prefsrc nl \<and>
    nl_seq nl' = (nl_seq nl + 1) mod 2 ^ 32"
proof -
  let ?seq = "(nl_seq nl + 1) mod 2 ^ 32"
  obtain s1 s2 s3 t n where sys: "no_sendmsg ops (nl_fd nl) 0 0 (request_bytes nl ai) s = (None, s1)" "no_clock ops s1 = (t, s2)"
      "no_poll ops (nl_fd nl) (-1) s2 = (Inr (Suc n), s3)" "no_recvmsg ops (nl_fd nl) (nl_buflen nl) s3 = (Inr dg, s')"
    using assms(2) by (auto simp: answered_def)
  define nl1 where "nl1 = nl\<lparr>nl_seq := ?seq, nl_message := None\<rparr>"
  define buf where "buf = dg_data dg @ drop (length (dg_data dg)) (nl_buffer nl)"
  define rc where "rc = ReplyRecvCheck 0 (nl_local_pid nl) ?seq"
  let ?ms = "ms1 @ m # ms2"
  have chk: "rc (dg_sender dg) buf (length (concat (take i ?ms))) =
      Inr (nlmsg_pid (?ms ! i) 0 = nl_local_pid nl \<and> nlmsg_seq (?ms ! i) 0 = ?seq)" if "i < length ?ms" for i
  proof -
    have "nl_message_ok (?ms ! i)" using ok nth_mem [OF that] by blast
    from ReplyRecvCheck_concat [OF that this, of 0 "nl_local_pid nl" ?seq 0] show ?thesis
      unfolding rc_def buf_def data assms(3) by (simp only: simp_thms)
  qed
  have no: "\<forall>i < length ms1. rc (dg_sender dg) buf (length (concat (take i ms1))) = Inr False"
  proof (intro allI impI)
    fix i
    assume i: "i < length ms1"
    then have "rc (dg_sender dg) buf (length (concat (take i ms1))) =
        Inr (nlmsg_pid (ms1 ! i) 0 = nl_local_pid nl \<and> nlmsg_seq (ms1 ! i) 0 = ?seq)"
      using chk [of i] by (simp add: nth_append)
    then show "rc (dg_sender dg) buf (length (concat (take i ms1))) = Inr False"
      using assms(7) nth_mem [OF i] by auto
  qed
  have yes: "rc (dg_sender dg) buf (length (concat ms1)) = Inr True"
    using chk [of "length ms1"] assms(8,9) by simp
  have "nlmsg_type buf (length (concat ms1)) = nlmsg_type m 0"
    using field_concat [of "length ms1" ?ms 4 2 "drop (length (dg_data dg)) (nl_buffer nl)"] ok
    by (simp add: nlmsg_type_def buf_def data nl_message_ok_def sizeof_nlmsghdr_def)
  then have "message_result buf (length (concat ms1)) = Inr 0" using type by (simp add: message_result_def)
  moreover have "receive_datagram ops rc (nl1, s3) =
      (map_sum id Some (message_result buf (length (concat ms1))), (nl1\<lparr>nl_buffer := buf, nl_message := Some (length (concat ms1))\<rparr>, s'))"
    by (rule receive_datagram_first [where rc = rc and dg = dg and buf = buf, OF _ assms(4) data ok _ no yes]) (simp_all add: sys(4) nl1_def buf_def)
  ultimately have "receive_datagram ops rc (nl1, s3) = (Inr (Some 0), (nl1\<lparr>nl_buffer := buf, nl_message := Some (length (concat ms1))\<rparr>, s'))"
    by simp
  then have "receive ops rc (nl\<lparr>nl_seq := ?seq\<rparr>, s1) = Some (Inr 0, (nl1\<lparr>nl_buffer := buf, nl_message := Some (length (concat ms1))\<rparr>, s'))"
    by (intro receive_ready [OF _ sys(2), where n = n and ?s2.0 = s3]) (use sys(3) in \<open>simp_all add: assms(1) nl1_def\<close>)
  then show ?thesis
    using sys(1) by (simp add: talk_def Let_def request_bytes_def rc_def buf_def nl1_def)
qed

lemma checkRoute_answered:
  assumes nl: "nl_timeout nl = -1" "nl_local_pid nl < 2 ^ 32" and ans: "answered ops nl (request_bytes nl ai) s dg s'"
    and dg: "dg_sender dg = 0" "dg_namelen dg = sizeof_sockaddr_nl"
    and m: "m = route_message RTM_NEWROUTE flags ((nl_seq nl + 1) mod 2 ^ 32) (nl_local_pid nl) family misc rtype rflags as"
      "length misc = 6" "family < 256" "rtype < 256" "list_all attr_ok as" "length (concat (ms1 @ m # ms2)) < 2 ^ 32"
    and data: "dg_data dg = concat (ms1 @ m # ms2)" and ok: "\<forall>x \<in> set (ms1 @ ms2). nl_message_ok x"
    and other: "\<forall>x \<in> set ms1. nlmsg_pid x 0 \<noteq> nl_local_pid nl \<or> nlmsg_seq x 0 \<noteq> (nl_seq nl + 1) mod 2 ^ 32"
  shows "\<exists>nl'. nl_prefsrc nl' = nl_prefsrc nl \<and>
    checkRoute ops ai (nl, s) =
      Some (if rtype \<in> usable_types then set_attrs ops as (nl'\<lparr>nl_family := int family\<rparr>, s') else (Inr (reply_result rtype), (nl', s')))"
proof -
  let ?ab = "concat (map attr_bytes as)" and ?nh = "length (concat ms1)"
  have small: "?nh + (28 + length ?ab) < 2 ^ 32" using m(6) length_route_message [OF m(2)] by (simp add: m(1))
  then have small': "28 + length ?ab < 2 ^ 32" by linarith
  have okm: "nl_message_ok m" unfolding m(1) by (rule route_message_ok [OF m(2) small'])
  have lm: "length m = 28 + length ?ab" unfolding m(1) by (rule length_route_message [OF m(2)])
  have type: "nlmsg_type m 0 = RTM_NEWROUTE" unfolding m(1) by (rule route_message_type [OF m(2)]) (simp add: RTM_NEWROUTE_def)
  have all: "\<forall>x \<in> set (ms1 @ m # ms2). nl_message_ok x" using ok okm by auto
  have pid: "nlmsg_pid m 0 = nl_local_pid nl" unfolding m(1) by (rule route_message_pid [OF m(2) nl(2)])
  have seq: "nlmsg_seq m 0 = (nl_seq nl + 1) mod 2 ^ 32" unfolding m(1) by (rule route_message_seq [OF m(2)]) simp
  obtain nl' where talk: "talk ops (route_request ai) 0 0 (nl, s) = Some (Inr 0, (nl', s'))" and
      nl': "nl_message nl' = Some ?nh" "nl_buffer nl' = dg_data dg @ drop (length (dg_data dg)) (nl_buffer nl)" "nl_prefsrc nl' = nl_prefsrc nl"
    using talk_answered [OF nl(1) ans dg data all other pid seq] type by (auto simp: RTM_NEWROUTE_def NLMSG_ERROR_def)
  define post where "post = concat ms2 @ drop (length (dg_data dg)) (nl_buffer nl)"
  have buf: "nl_buffer nl' = concat ms1 @ m @ post" using nl'(2) data by (simp add: post_def)
  have f: "field (nl_buffer nl') (?nh + off) n = field m off n" if "off + n \<le> 28" for off n
    unfolding buf by (rule field_mid) (use that lm in simp)
  have len: "nlmsg_len (nl_buffer nl') ?nh = 28 + length ?ab"
    using f [of 0 4] route_message_len [OF m(2) small'] by (simp add: nlmsg_len_def m(1))
  have ty: "nlmsg_type (nl_buffer nl') ?nh = RTM_NEWROUTE" using f [of 4 2] type by (simp add: nlmsg_type_def)
  have rt: "field (nl_buffer nl') (?nh + 23) 1 = rtype" using f [of 23 1] route_message_rtype [OF m(2,4)] by (simp add: m(1))
  have fam: "field (nl_buffer nl') (?nh + 16) 1 = family" using f [of 16 1] route_message_family [OF m(2,3)] by (simp add: m(1))
  have "m = take 28 m @ ?ab" using route_message_attrs [OF m(2)] append_take_drop_id [of 28 m] by (simp add: m(1))
  then have buf': "nl_buffer nl' = (concat ms1 @ take 28 m) @ ?ab @ post" unfolding buf by (metis append_assoc)
  have l28: "length (concat ms1 @ take 28 m) = ?nh + 28" using lm by simp
  have "length (concat ms1 @ take 28 m) + length ?ab < 2 ^ 64" using small unfolding l28 by simp
  from parse_attrs_set [OF m(5) this, of ops post]
  have parse: "parse_attrs ops (nl_buffer nl') (?nh + 28) (of_nat (length ?ab)) nls = set_attrs ops as nls" for nls
    unfolding buf' [symmetric] l28 .
  have reply: "route_reply ops (nl', s') =
      (if rtype \<in> usable_types then set_attrs ops as (nl'\<lparr>nl_family := int family\<rparr>, s') else (Inr (reply_result rtype), (nl', s')))"
    using rt fam parse
    by (auto simp: route_reply_def Let_def nl'(1) ty len sizeof_nlmsghdr_def sizeof_rtmsg_def add.assoc)
  show ?thesis
    using talk reply nl'(3) by (intro exI [of _ nl']) (simp add: checkRoute_def)
qed

section \<open>What is sent\<close>

lemma le_bytes_zero: "le_bytes n 0 = replicate n NUL"
proof -
  have "chr 0 = NUL" by code_simp
  then show ?thesis by (induction n) simp_all
qed

lemma le_bytes_1: "v < 256 \<Longrightarrow> le_bytes 1 v = [chr v]"
  by simp

lemma le_bytes_6: "le_bytes 6 0 = replicate 5 NUL @ le_bytes 1 0"
  by code_simp

text \<open>The request is a well-formed message with the destination as its only attribute.\<close>

lemma request_bytes_message:
  assumes "length (request_address ai) = (if ai_family ai = AF_INET then 4 else 16)"
  shows "request_bytes nl ai =
    route_message RTM_GETROUTE NLM_F_REQUEST ((nl_seq nl + 1) mod 2 ^ 32) 0 (nat (ai_family ai mod 256))
      (chr (8 * length (request_address ai)) # replicate 5 NUL) 0 0 [(RTA_DST, request_address ai)]"
proof -
  define seq where "seq = (nl_seq nl + 1) mod 2 ^ 32"
  define addr where "addr = request_address ai"
  define fam where "fam = nat (ai_family ai mod 256)"
  show ?thesis
  proof (cases "ai_family ai = AF_INET")
    case True
    then have l: "length addr = 4" using assms by (simp add: addr_def)
    have "nlmsg_len (route_request ai) 0 = 36"
      using True by (simp add: nlmsg_len_def route_request_def Let_def field_def le_nat_bytes sizeof_nlmsghdr_def sizeof_rtmsg_def sizeof_rtattr_def)
    then show ?thesis
      using True l
      by (simp add: request_bytes_def route_request_def route_message_def Let_def seq_def [symmetric] addr_def [symmetric] fam_def [symmetric]
          attr_bytes_def nl_align_def sizeof_nlmsghdr_def sizeof_rtmsg_def sizeof_rtattr_def le_bytes_6 le_bytes_1 del: le_bytes.simps replicate.simps One_nat_def)
  next
    case False
    then have l: "length addr = 16" using assms by (simp add: addr_def)
    have "nlmsg_len (route_request ai) 0 = 48"
      using False by (simp add: nlmsg_len_def route_request_def Let_def field_def le_nat_bytes sizeof_nlmsghdr_def sizeof_rtmsg_def sizeof_rtattr_def)
    then show ?thesis
      using False l
      by (simp add: request_bytes_def route_request_def route_message_def Let_def seq_def [symmetric] addr_def [symmetric] fam_def [symmetric]
          attr_bytes_def nl_align_def sizeof_nlmsghdr_def sizeof_rtmsg_def sizeof_rtattr_def le_bytes_6 le_bytes_1 del: le_bytes.simps replicate.simps One_nat_def)
  qed
qed

section \<open>An attribute without padding\<close>

text \<open>When the last attribute ends with the message and is not padded, the length wraps around and the loop goes on behind the message.\<close>

definition bare_attr :: "nat \<times> string \<Rightarrow> string" where
  "bare_attr = (\<lambda>(t, d). le_bytes 2 (sizeof_rtattr + length d) @ le_bytes 2 t @ d)"

lemma parse_attrs_wraps:
  assumes "attr_ok (t, d)" and "\<not> 4 dvd length d" and "set_attr ops t d nls = (Inr (), nls1)"
  shows "parse_attrs ops (pre @ bare_attr (t, d) @ post) (length pre) (of_nat (length (bare_attr (t, d)))) nls =
    parse_attrs ops (pre @ bare_attr (t, d) @ post) (length pre + 4 + nl_align (length d))
      (- of_nat (nl_align (length d) - length d)) nls1"
proof -
  let ?buf = "pre @ bare_attr (t, d) @ post" and ?n = "sizeof_rtattr + length d"
  have td: "t < 65536" "?n < 65536" using assms(1) by (simp_all add: attr_ok_def)
  have f: "field ?buf (length pre) 2 = ?n" "field ?buf (length pre + 2) 2 = t"
    "take (length d) (drop (length pre + sizeof_rtattr) ?buf) = d"
    using td by (simp_all add: bare_attr_def field_def le_nat_bytes sizeof_rtattr_def)
  have l: "length (bare_attr (t, d)) = ?n" by (simp add: bare_attr_def sizeof_rtattr_def)
  have "unat (of_nat ?n :: 64 word) = ?n" using td(2) by (simp only: unat_of_nat len_of_64) simp
  then have m: "length pre + ?n \<le> length ?buf" "?n \<le> unat (of_nat (length (bare_attr (t, d))) :: 64 word)" using l by simp_all
  have a: "nl_align ?n = 4 + nl_align (length d)" by (simp add: sizeof_rtattr_def nl_align_add4)
  have "of_nat ?n - of_nat (nl_align ?n) = (- of_nat (nl_align (length d) - length d) :: 64 word)"
    using nl_align_ge [of "length d"] unfolding a by (simp add: of_nat_diff sizeof_rtattr_def)
  then show ?thesis
    using parse_attrs_step [OF f m, of ops nls] assms(3) l a by (simp add: add.assoc)
qed

lemma parse_attrs_overrun:
  assumes "attr_ok (t, d)" and "\<not> 4 dvd length d" and "set_attr ops t d nls = (Inr (), nls1)"
    and "length post < nl_align (length d) - length d + sizeof_rtattr"
  shows "parse_attrs ops (pre @ bare_attr (t, d) @ post) (length pre) (of_nat (length (bare_attr (t, d)))) nls =
    (Inl (Undefined ''attribute behind the receive buffer''), nls1)"
proof -
  let ?buf = "pre @ bare_attr (t, d) @ post" and ?k = "nl_align (length d) - length d"
  have "nl_align (length d) \<noteq> length d" using assms(2) dvd_nl_align by metis
  then have k: "0 < ?k" "?k < 4" using nl_align_ge [of "length d"] by (simp_all add: nl_align_def)
  then have "?k = 1 \<or> ?k = 2 \<or> ?k = 3" by linarith
  then have "(4 :: 64 word) \<le> - of_nat ?k" by (elim disjE) simp_all
  then have "sizeof_rtattr \<le> unat (- of_nat ?k :: 64 word)" by (simp add: word_le_nat_alt sizeof_rtattr_def)
  moreover have "length ?buf < (length pre + 4 + nl_align (length d)) + sizeof_rtattr"
    using assms(4) nl_align_ge [of "length d"] by (simp add: bare_attr_def)
  ultimately have "parse_attrs ops ?buf (length pre + 4 + nl_align (length d)) (- of_nat ?k) nls1 =
      (Inl (Undefined ''attribute behind the receive buffer''), nls1)"
    by (subst parse_attrs.simps) (simp add: Let_def)
  then show ?thesis using parse_attrs_wraps [OF assms(1-3), of pre post] by simp
qed

end
