(* ===== verification/Routable.thy ===== *)
theory Routable
  imports NetLink
begin

text \<open>
  \<^verbatim>\<open>kdumptool/routable.cc\<close>, class \<open>Routable\<close>: waits until a host name can be resolved and one of its addresses has a route. And
  \<^verbatim>\<open>kdumptool/socket.cc\<close>, class \<open>Socket\<close>.
\<close>

section \<open>Resolving\<close>

text \<open>The member \<^verbatim>\<open>m_ai\<close>. When \<^verbatim>\<open>getaddrinfo\<close> fails it does not assign the pointer, which may have been freed.\<close>

datatype ai_ptr = AI_null | AI_list "addrinfo list" | AI_freed

record routable =
  rt_host :: string
  rt_prefsrc :: string
  rt_ai :: ai_ptr
  rt_seq :: nat

definition Routable :: "nat \<Rightarrow> string \<Rightarrow> routable" where
  "Routable seq host = \<lparr>rt_host = host, rt_prefsrc = [], rt_ai = AI_null, rt_seq = seq\<rparr>"

definition routable_destroy :: "routable \<Rightarrow> unit res" where
  "routable_destroy rt = (if rt_ai rt = AI_freed then Inl (Undefined ''m_ai freed twice'') else Inr ())"

definition EAI_NONAME :: int where "EAI_NONAME = -2"
definition EAI_AGAIN :: int where "EAI_AGAIN = -3"
definition EAI_FAIL :: int where "EAI_FAIL = -4"
definition EAI_NODATA :: int where "EAI_NODATA = -5"
definition EAI_SYSTEM :: int where "EAI_SYSTEM = -11"

definition raw_host :: "string \<Rightarrow> string" where
  "raw_host host =
     (if host \<noteq> [] \<and> hd host = CHR ''['' \<and> last host = CHR '']'' then substr host 1 (length host - 2) else host)"

definition host_resolve :: "'s net_ops \<Rightarrow> (routable \<times> 's, bool) sx" where
  "host_resolve ops = (\<lambda>(rt, s).
     if rt_ai rt = AI_freed then (Inl (Undefined ''m_ai freed twice''), (rt, s))
     else
       let rt1 = rt\<lparr>rt_ai := (if rt_ai rt = AI_null then AI_null else AI_freed)\<rparr>
       in case no_getaddrinfo ops (raw_host (rt_host rt)) s of
            (Inr addrs, s1) \<Rightarrow> (Inr True, (rt\<lparr>rt_ai := AI_list addrs\<rparr>, s1))
          | (Inl (res, e), s1) \<Rightarrow>
              (if res = EAI_SYSTEM then Inl (KSystemError ''Name resolution failed'' e)
               else if res \<noteq> EAI_NONAME \<and> res \<noteq> EAI_FAIL \<and> res \<noteq> EAI_NODATA \<and> res \<noteq> EAI_AGAIN
               then Inl (KGaiError ''Name resolution failed'' res)
               else Inr False, (rt1, s1)))"

text \<open>At most one second, in milliseconds, is slept before the next attempt.\<close>

definition wait_period :: "int \<Rightarrow> int \<times> int" where
  "wait_period interval0 =
     (let interval = min interval0 1000 in (interval div 1000, interval mod 1000 * 1000 * 1000))"

partial_function (option) resolve_loop ::
  "'s net_ops \<Rightarrow> int \<times> int \<Rightarrow> routable \<times> 's \<Rightarrow> (bool res \<times> routable \<times> 's) option"
where
  "resolve_loop ops tstop rts =
     (case host_resolve ops rts of
        (Inl e, rts1) \<Rightarrow> Some (Inl e, rts1)
      | (Inr resolved, (rt1, s1)) \<Rightarrow>
          (if resolved then Some (Inr True, (rt1, s1))
           else
             (case no_clock ops s1 of
                (tnow, s2) \<Rightarrow>
                  (if time_left tstop tnow \<le> 0 then Some (Inr False, (rt1, s2))
                   else resolve_loop ops tstop (rt1, no_nanosleep ops (wait_period (time_left tstop tnow)) s2)))))"

section \<open>Routes\<close>

fun route_to_any :: "'s net_ops \<Rightarrow> addrinfo list \<Rightarrow> netlink \<times> 's \<Rightarrow> (bool res \<times> netlink \<times> 's) option" where
  "route_to_any ops [] nls = Some (Inr False, nls)"
| "route_to_any ops (p # ps) nls =
     Option.bind (checkRoute ops p nls) (\<lambda>(r, nls1).
       case r of
         Inl e \<Rightarrow> Some (Inl e, nls1)
       | Inr v \<Rightarrow> if v = 0 then Some (Inr True, nls1) else route_to_any ops ps nls1)"

text \<open>A \<open>NetLink\<close> of its own for each call; it is closed at the end of the block.\<close>

definition hasRoute :: "'s net_ops \<Rightarrow> string \<Rightarrow> routable \<times> 's \<Rightarrow> (bool res \<times> routable \<times> 's) option" where
  "hasRoute ops garbage = (\<lambda>(rt, s).
     case NetLink ops garbage (rt_seq rt) 0 s of
       (Inl e, s1) \<Rightarrow> Some (Inl e, (rt, s1))
     | (Inr nl, s1) \<Rightarrow>
         (if rt_ai rt = AI_freed then Some (Inl (Undefined ''m_ai used after it was freed''), (rt, s1))
          else
            map_option
              (\<lambda>(r, nl1, s2).
                 (r, (rt\<lparr>rt_seq := nl_seq nl1, rt_prefsrc := (if r = Inr True then nl_prefsrc nl1 else rt_prefsrc rt)\<rparr>,
                      netlink_destroy ops nl1 s2)))
              (route_to_any ops (case rt_ai rt of AI_list addrs \<Rightarrow> addrs | _ \<Rightarrow> []) (nl, s1))))"

definition RTMGRP_IPV4_ROUTE :: nat where "RTMGRP_IPV4_ROUTE = 64"
definition RTMGRP_IPV6_ROUTE :: nat where "RTMGRP_IPV6_ROUTE = 1024"

partial_function (option) route_loop ::
  "'s net_ops \<Rightarrow> string \<Rightarrow> netlink \<Rightarrow> routable \<times> 's \<Rightarrow> (bool res \<times> netlink \<times> routable \<times> 's) option"
where
  "route_loop ops garbage nl rts =
     Option.bind (hasRoute ops garbage rts) (\<lambda>(r, rt1, s1).
       case r of
         Inl e \<Rightarrow> Some (Inl e, (nl, (rt1, s1)))
       | Inr found \<Rightarrow>
           (if found then Some (Inr True, (nl, (rt1, s1)))
            else
              Option.bind (waitRouteChange ops (nl, s1)) (\<lambda>(r, nl1, s2).
                case r of
                  Inl e \<Rightarrow> Some (Inl e, (nl1, (rt1, s2)))
                | Inr v \<Rightarrow> if v \<noteq> 0 then Some (Inr False, (nl1, (rt1, s2))) else route_loop ops garbage nl1 (rt1, s2))))"

definition routable_check :: "'s net_ops \<Rightarrow> string \<Rightarrow> int \<Rightarrow> routable \<times> 's \<Rightarrow> (bool res \<times> routable \<times> 's) option" where
  "routable_check ops garbage timeout = (\<lambda>(rt, s).
     case no_clock ops s of
       (t, s1) \<Rightarrow>
         Option.bind (resolve_loop ops (fst t + timeout, snd t) (rt, s1)) (\<lambda>(r, rt1, s2).
           case r of
             Inl e \<Rightarrow> Some (Inl e, (rt1, s2))
           | Inr resolved \<Rightarrow>
               (if \<not> resolved then Some (Inr False, (rt1, s2))
                else
                  (case NetLink ops garbage (rt_seq rt1) (RTMGRP_IPV4_ROUTE + RTMGRP_IPV6_ROUTE) s2 of
                     (Inl e, s3) \<Rightarrow> Some (Inl e, (rt1, s3))
                   | (Inr nl, s3) \<Rightarrow>
                       map_option (\<lambda>(r, nl1, rt2, s4). (r, (rt2, netlink_destroy ops nl1 s4)))
                         (route_loop ops garbage (nl\<lparr>nl_timeout := timeout\<rparr>) (rt1, s3))))))"

section \<open>What an answer means\<close>

lemma route_to_any_True:
  "route_to_any ops addrs nls = Some (Inr True, nls') \<Longrightarrow> \<exists>p \<in> set addrs. \<exists>nls0. checkRoute ops p nls0 = Some (Inr 0, nls')"
proof (induction addrs arbitrary: nls)
  case (Cons p ps)
  then obtain r nls1 where r: "checkRoute ops p nls = Some (r, nls1)"
      and k: "(case r of Inl e \<Rightarrow> Some (Inl e, nls1) | Inr v \<Rightarrow> if v = 0 then Some (Inr True, nls1) else route_to_any ops ps nls1) =
        Some (Inr True, nls')"
    by (auto simp: bind_eq_Some_conv)
  then obtain v where v: "r = Inr v" by (cases r) auto
  show ?case
  proof (cases "v = 0")
    case True
    then have "checkRoute ops p nls = Some (Inr 0, nls')" using r k v by simp
    then show ?thesis by (intro bexI [of _ p] exI [of _ nls]) simp_all
  next
    case False
    then show ?thesis using Cons.IH [of nls1] k v by auto
  qed
qed simp

lemma resolve_True:
  assumes "host_resolve ops (rt, s) = (Inr True, (rt', s'))"
  shows "\<exists>addrs. rt' = rt\<lparr>rt_ai := AI_list addrs\<rparr> \<and> no_getaddrinfo ops (raw_host (rt_host rt)) s = (Inr addrs, s')"
  using assms by (auto simp: host_resolve_def Let_def split: if_splits prod.splits sum.splits)

lemma resolve_False:
  assumes "host_resolve ops (rt, s) = (Inr False, (rt', s'))"
  shows "\<exists>res e. rt_host rt' = rt_host rt \<and> no_getaddrinfo ops (raw_host (rt_host rt)) s = (Inl (res, e), s') \<and>
    res \<in> {EAI_NONAME, EAI_FAIL, EAI_NODATA, EAI_AGAIN}"
  using assms by (auto simp: host_resolve_def Let_def split: if_splits prod.splits sum.splits)

lemma resolve_loop_True:
  fixes ops :: "'a net_ops"
  assumes "resolve_loop ops tstop (rt, s) = Some (Inr True, (rt', s'))"
  shows "\<exists>addrs s0. rt_ai rt' = AI_list addrs \<and> no_getaddrinfo ops (raw_host (rt_host rt)) s0 = (Inr addrs, s')"
proof -
  let ?P = "\<lambda>(ops :: 'a net_ops) (tstop :: int \<times> int) (rts :: routable \<times> 'a) (y :: bool res \<times> routable \<times> 'a). case y of (r, rt', s') \<Rightarrow> r = Inr True \<longrightarrow>
      (\<exists>addrs s0. rt_ai rt' = AI_list addrs \<and> no_getaddrinfo ops (raw_host (rt_host (fst rts))) s0 = (Inr addrs, s'))"
  have "?P ops tstop (rt, s) (Inr True, (rt', s'))"
  proof (rule resolve_loop.raw_induct [rotated, where P = ?P])
    fix f ops tstop rts and y :: "bool res \<times> routable \<times> 'a"
    assume IH: "\<And>ops tstop rts y. f ops tstop rts = Some y \<Longrightarrow> ?P ops tstop rts y"
      and step: "(case host_resolve ops rts of
        (Inl e, rts1) \<Rightarrow> Some (Inl e, rts1)
      | (Inr resolved, (rt1, s1)) \<Rightarrow>
          (if resolved then Some (Inr True, (rt1, s1))
           else
             (case no_clock ops s1 of
                (tnow, s2) \<Rightarrow>
                  (if time_left tstop tnow \<le> 0 then Some (Inr False, (rt1, s2))
                   else f ops tstop (rt1, no_nanosleep ops (wait_period (time_left tstop tnow)) s2))))) = Some y"
    obtain rt0 s0 where rts: "rts = (rt0, s0)" by (cases rts)
    obtain r rt1 s1 where res: "host_resolve ops (rt0, s0) = (r, (rt1, s1))" by (cases "host_resolve ops (rt0, s0)") auto
    consider (err) e where "r = Inl e" | (yes) "r = Inr True" | (no) "r = Inr False" by (cases r) auto
    then show "?P ops tstop rts y"
    proof cases
      case err
      then show ?thesis using step res rts by auto
    next
      case yes
      then have "y = (Inr True, (rt1, s1))" using step res rts by simp
      moreover obtain addrs where "rt1 = rt0\<lparr>rt_ai := AI_list addrs\<rparr>" "no_getaddrinfo ops (raw_host (rt_host rt0)) s0 = (Inr addrs, s1)"
        using resolve_True res yes by metis
      ultimately show ?thesis using rts by auto
    next
      case no
      obtain tnow s2 where c: "no_clock ops s1 = (tnow, s2)" by fastforce
      have h: "rt_host rt1 = rt_host rt0" using resolve_False res no by metis
      show ?thesis
      proof (cases "time_left tstop tnow \<le> 0")
        case True
        then show ?thesis using step res rts no c by auto
      next
        case False
        then have "f ops tstop (rt1, no_nanosleep ops (wait_period (time_left tstop tnow)) s2) = Some y"
          using step res rts no c by simp
        from IH [OF this] show ?thesis using rts h by simp
      qed
    qed
  qed (rule assms)
  then show ?thesis by simp
qed

text \<open>Resolution gives up at once when the first attempt fails and the rest of the time, in milliseconds, does not fit an \<^verbatim>\<open>int\<close>.\<close>

lemma time_left_small:
  assumes "\<bar>fst tend - fst tnow\<bar> \<le> 2147482" and "\<bar>snd tend - snd tnow\<bar> < 1000000000"
  shows "time_left tend tnow = (fst tend - fst tnow) * 1000 + c_div (snd tend - snd tnow) 1000000"
proof -
  let ?d = "fst tend - fst tnow" and ?q = "c_div (snd tend - snd tnow) 1000000"
  have q: "\<bar>?q\<bar> \<le> 999" using assms(2) by (auto simp: c_div_def abs_if)
  have "signed_take_bit 31 (?d * 1000) = ?d * 1000" using assms(1) by (intro signed_take_bit_int_eq_self) auto
  moreover have "signed_take_bit 31 (?d * 1000 + ?q) = ?d * 1000 + ?q" using assms(1) q by (intro signed_take_bit_int_eq_self) auto
  ultimately show ?thesis by (simp add: time_left_def Let_def)
qed

lemma time_left_overflow:
  assumes "2147485 \<le> fst tend - fst tnow" and "fst tend - fst tnow \<le> 4294966" and "\<bar>snd tend - snd tnow\<bar> < 1000000000"
  shows "time_left tend tnow < 0"
proof -
  let ?d = "fst tend - fst tnow" and ?q = "c_div (snd tend - snd tnow) 1000000"
  have q: "\<bar>?q\<bar> \<le> 999" using assms(3) by (auto simp: c_div_def abs_if)
  have "signed_take_bit 31 (?d * 1000) = signed_take_bit 31 (?d * 1000 - 2 ^ 32)"
    by (simp add: signed_take_bit_eq_iff_take_bit_eq take_bit_eq_mod)
  also have "\<dots> = ?d * 1000 - 2 ^ 32" using assms(1,2) by (intro signed_take_bit_int_eq_self) auto
  finally have t: "signed_take_bit 31 (?d * 1000) = ?d * 1000 - 2 ^ 32" .
  moreover have "signed_take_bit 31 (?d * 1000 - 2 ^ 32 + ?q) = ?d * 1000 - 2 ^ 32 + ?q" using assms(1,2) q
    by (intro signed_take_bit_int_eq_self) auto
  ultimately have "time_left tend tnow = ?d * 1000 - 2 ^ 32 + ?q" by (simp add: time_left_def Let_def)
  then show ?thesis using assms(2) q by auto
qed

text \<open>The route that \<open>hasRoute\<close> found and the address it left.\<close>

definition routed :: "'s net_ops \<Rightarrow> addrinfo list \<Rightarrow> string \<Rightarrow> bool" where
  "routed ops addrs text \<longleftrightarrow>
     (\<exists>p \<in> set addrs. \<exists>nls nl' s'. checkRoute ops p nls = Some (Inr 0, (nl', s')) \<and> nl_prefsrc nl' = text)"

lemma hasRoute_cases:
  assumes "hasRoute ops garbage (rt, s) = Some (r, (rt', s'))"
  shows "rt_ai rt' = rt_ai rt \<and> rt_host rt' = rt_host rt \<and>
    (r = Inr True \<longrightarrow> (\<exists>addrs. rt_ai rt = AI_list addrs \<and> routed ops addrs (rt_prefsrc rt')))"
proof (cases "fst (NetLink ops garbage (rt_seq rt) 0 s)")
  case (Inl e)
  then show ?thesis using assms by (auto simp: hasRoute_def split: prod.splits)
next
  case (Inr nl)
  then obtain s1 where n: "NetLink ops garbage (rt_seq rt) 0 s = (Inr nl, s1)" by (metis prod.collapse)
  show ?thesis
  proof (cases "rt_ai rt = AI_freed")
    case True
    then show ?thesis using assms n by (auto simp: hasRoute_def)
  next
    case False
    define addrs where "addrs = (case rt_ai rt of AI_list addrs \<Rightarrow> addrs | _ \<Rightarrow> [])"
    obtain nl1 s2 where a: "route_to_any ops addrs (nl, s1) = Some (r, (nl1, s2))"
        and rt': "rt' = rt\<lparr>rt_seq := nl_seq nl1, rt_prefsrc := (if r = Inr True then nl_prefsrc nl1 else rt_prefsrc rt)\<rparr>"
      using assms n False by (auto simp: hasRoute_def addrs_def)
    have "routed ops addrs (rt_prefsrc rt')" if "r = Inr True"
      using route_to_any_True [of ops addrs "(nl, s1)" "(nl1, s2)"] a rt' that by (fastforce simp: routed_def)
    moreover have "rt_ai rt = AI_list addrs" if "r = Inr True"
    proof (rule ccontr)
      assume "rt_ai rt \<noteq> AI_list addrs"
      then have "addrs = []" by (auto simp: addrs_def split: ai_ptr.splits)
      then show False using a that by simp
    qed
    ultimately show ?thesis using rt' by auto
  qed
qed

lemma route_loop_True:
  fixes ops :: "'s net_ops"
  assumes "route_loop ops garbage nl (rt, s) = Some (Inr True, (nl', (rt', s')))"
  shows "rt_ai rt' = rt_ai rt \<and> (\<exists>addrs. rt_ai rt' = AI_list addrs \<and> routed ops addrs (rt_prefsrc rt'))"
proof -
  let ?P = "\<lambda>(ops :: 's net_ops) (garbage :: string) (nl :: netlink) (rts :: routable \<times> 's) (y :: bool res \<times> netlink \<times> routable \<times> 's).
    case y of (r, nl', rt', s') \<Rightarrow> r = Inr True \<longrightarrow> rt_ai rt' = rt_ai (fst rts) \<and>
      (\<exists>addrs. rt_ai rt' = AI_list addrs \<and> routed ops addrs (rt_prefsrc rt'))"
  have "?P ops garbage nl (rt, s) (Inr True, (nl', (rt', s')))"
  proof (rule route_loop.raw_induct [rotated, where P = ?P])
    fix f ops garbage nl rts and y :: "bool res \<times> netlink \<times> routable \<times> 's"
    assume IH: "\<And>ops garbage nl rts y. f ops garbage nl rts = Some y \<Longrightarrow> ?P ops garbage nl rts y"
      and step: "Option.bind (hasRoute ops garbage rts) (\<lambda>(r, rt1, s1).
       case r of
         Inl e \<Rightarrow> Some (Inl e, (nl, (rt1, s1)))
       | Inr found \<Rightarrow>
           (if found then Some (Inr True, (nl, (rt1, s1)))
            else
              Option.bind (waitRouteChange ops (nl, s1)) (\<lambda>(r, nl1, s2).
                case r of
                  Inl e \<Rightarrow> Some (Inl e, (nl1, (rt1, s2)))
                | Inr v \<Rightarrow> if v \<noteq> 0 then Some (Inr False, (nl1, (rt1, s2))) else f ops garbage nl1 (rt1, s2)))) = Some y"
    obtain rt0 s0 where rts: "rts = (rt0, s0)" by (cases rts)
    obtain r rt1 s1 where h: "hasRoute ops garbage (rt0, s0) = Some (r, (rt1, s1))"
      using step by (auto simp: rts bind_eq_Some_conv)
    note hc = hasRoute_cases [OF h]
    consider (err) e where "r = Inl e" | (yes) "r = Inr True" | (no) "r = Inr False" by (cases r) auto
    then show "?P ops garbage nl rts y"
    proof cases
      case err
      then show ?thesis using step h rts by auto
    next
      case yes
      then have "y = (Inr True, (nl, (rt1, s1)))" using step h rts by simp
      then show ?thesis using hc yes rts by auto
    next
      case no
      then obtain r2 nl1 s2 where w: "waitRouteChange ops (nl, s1) = Some (r2, (nl1, s2))"
        using step h by (auto simp: rts bind_eq_Some_conv)
      consider (err) e where "r2 = Inl e" | (stop) v where "r2 = Inr v" "v \<noteq> 0" | (again) "r2 = Inr 0" by (cases r2) auto
      then show ?thesis
      proof cases
        case again
        then have "f ops garbage nl1 (rt1, s2) = Some y" using step h rts no w by simp
        from IH [OF this] show ?thesis using hc rts by (auto split: prod.splits)
      qed (use step h rts no w in auto)
    qed
  qed (rule assms)
  then show ?thesis unfolding prod.case fst_conv by blast
qed

text \<open>When the check succeeds, the name was resolved and an address of it is routed; \<open>prefsrc()\<close> is the source address of that route.\<close>

lemma routable_check_True:
  assumes "routable_check ops garbage timeout (rt, s) = Some (Inr True, (rt', s'))"
  shows "\<exists>addrs s0 s1. no_getaddrinfo ops (raw_host (rt_host rt)) s0 = (Inr addrs, s1) \<and> rt_ai rt' = AI_list addrs \<and>
    routed ops addrs (rt_prefsrc rt')"
proof -
  obtain t s1 where c: "no_clock ops s = (t, s1)" by fastforce
  obtain r rt1 s2 where l: "resolve_loop ops (fst t + timeout, snd t) (rt, s1) = Some (r, (rt1, s2))"
      and k: "(case r of
             Inl e \<Rightarrow> Some (Inl e, (rt1, s2))
           | Inr resolved \<Rightarrow>
               (if \<not> resolved then Some (Inr False, (rt1, s2))
                else
                  (case NetLink ops garbage (rt_seq rt1) (RTMGRP_IPV4_ROUTE + RTMGRP_IPV6_ROUTE) s2 of
                     (Inl e, s3) \<Rightarrow> Some (Inl e, (rt1, s3))
                   | (Inr nl, s3) \<Rightarrow>
                       map_option (\<lambda>(r, nl1, rt2, s4). (r, (rt2, netlink_destroy ops nl1 s4)))
                         (route_loop ops garbage (nl\<lparr>nl_timeout := timeout\<rparr>) (rt1, s3))))) = Some (Inr True, (rt', s'))"
    using assms by (auto simp: routable_check_def c bind_eq_Some_conv)
  have r: "r = Inr True" using k by (cases r) (auto split: if_splits)
  obtain nl s3 where n: "NetLink ops garbage (rt_seq rt1) (RTMGRP_IPV4_ROUTE + RTMGRP_IPV6_ROUTE) s2 = (Inr nl, s3)"
    using k r by (auto split: prod.splits sum.splits)
  obtain nl1 s4 where rl: "route_loop ops garbage (nl\<lparr>nl_timeout := timeout\<rparr>) (rt1, s3) = Some (Inr True, (nl1, (rt', s4)))"
    using k r n by auto
  obtain addrs s0 where "rt_ai rt1 = AI_list addrs" "no_getaddrinfo ops (raw_host (rt_host rt)) s0 = (Inr addrs, s2)"
    using resolve_loop_True l r by metis
  then show ?thesis using route_loop_True [OF rl] by auto
qed

section \<open>Resolution ends\<close>

text \<open>
  A monotonic clock, in nanoseconds. Asking for the time takes none; a name look-up and a sleep of up to a second take at most
  1000000 seconds, a sleep at least as long as it was asked for.
\<close>

definition nanos :: "int \<times> int \<Rightarrow> int" where
  "nanos t = fst t * 1000000000 + snd t"

definition clock_law :: "'s net_ops \<Rightarrow> ('s \<Rightarrow> int) \<Rightarrow> bool" where
  "clock_law ops now \<longleftrightarrow>
     (\<forall>s. nanos (fst (no_clock ops s)) = now s \<and> now (snd (no_clock ops s)) = now s \<and>
          0 \<le> snd (fst (no_clock ops s)) \<and> snd (fst (no_clock ops s)) < 1000000000) \<and>
     (\<forall>host s. now s \<le> now (snd (no_getaddrinfo ops host s)) \<and> now (snd (no_getaddrinfo ops host s)) \<le> now s + 10 ^ 15) \<and>
     (\<forall>d s. nanos d \<le> 1000000000 \<longrightarrow> now s + nanos d \<le> now (no_nanosleep ops d s) \<and> now (no_nanosleep ops d s) \<le> now s + 10 ^ 15)"

lemma resolve_time:
  assumes "clock_law ops now" and "host_resolve ops (rt, s) = (r, (rt', s'))"
  shows "now s \<le> now s' \<and> now s' \<le> now s + 10 ^ 15"
proof -
  have g: "now s \<le> now (snd (no_getaddrinfo ops (raw_host (rt_host rt)) s))"
    "now (snd (no_getaddrinfo ops (raw_host (rt_host rt)) s)) \<le> now s + 10 ^ 15"
    using assms(1) unfolding clock_law_def by blast+
  then show ?thesis
    using assms(2) by (cases "no_getaddrinfo ops (raw_host (rt_host rt)) s") (auto simp: host_resolve_def Let_def split: if_splits sum.splits)
qed

lemma wait_period_nanos:
  assumes "0 < interval"
  shows "1000000 \<le> nanos (wait_period interval) \<and> nanos (wait_period interval) \<le> 1000000000"
proof -
  let ?i = "min interval 1000"
  have "nanos (wait_period interval) = 1000000000 * (?i div 1000) + 1000000 * (?i mod 1000)"
    by (simp add: nanos_def wait_period_def Let_def)
  moreover have "?i = 1000 * (?i div 1000) + ?i mod 1000" by simp
  moreover have "1 \<le> ?i" "?i \<le> 1000" using assms by simp_all
  ultimately show ?thesis by linarith
qed

text \<open>While there is time left, the clock is in front of the end.\<close>

lemma time_left_positive:
  assumes "0 < time_left tstop tnow" and "nanos tnow \<le> nanos tstop + 2 * 10 ^ 15" and "nanos tstop \<le> nanos tnow + 2147482 * 1000000000"
    and "0 \<le> snd tnow" "snd tnow < 1000000000" "0 \<le> snd tstop" "snd tstop < 1000000000"
  shows "nanos tnow < nanos tstop"
proof -
  have d: "\<bar>fst tstop - fst tnow\<bar> \<le> 2147482" "\<bar>snd tstop - snd tnow\<bar> < 1000000000"
    using assms(2-7) by (auto simp: nanos_def abs_if)
  have "0 < (fst tstop - fst tnow) * 1000 + c_div (snd tstop - snd tnow) 1000000" using assms(1) time_left_small [OF d] by simp
  then show ?thesis using d assms(4-7) by (auto simp: nanos_def c_div_def abs_if split: if_splits)
qed

lemma resolve_loop_ends:
  assumes law: "clock_law ops now" and stop: "0 \<le> snd tstop" "snd tstop < 1000000000"
    and "now s \<le> nanos tstop + 10 ^ 15" and "nanos tstop \<le> now s + 2147482 * 1000000000"
  shows "\<exists>y. resolve_loop ops tstop (rt, s) = Some y"
  using assms(4,5)
proof (induction "nat (nanos tstop - now s)" arbitrary: rt s rule: less_induct)
  case less
  obtain r rt1 s1 where res: "host_resolve ops (rt, s) = (r, (rt1, s1))" by (metis prod.collapse)
  have t1: "now s \<le> now s1" "now s1 \<le> now s + 10 ^ 15" using resolve_time [OF law res] by simp_all
  obtain tnow s2 where c: "no_clock ops s1 = (tnow, s2)" by fastforce
  have "nanos (fst (no_clock ops s1)) = now s1 \<and> now (snd (no_clock ops s1)) = now s1 \<and> 0 \<le> snd (fst (no_clock ops s1)) \<and>
      snd (fst (no_clock ops s1)) < 1000000000" using law unfolding clock_law_def by blast
  then have n: "nanos tnow = now s1" "now s2 = now s1" "0 \<le> snd tnow" "snd tnow < 1000000000" using c by simp_all
  consider (err) e where "r = Inl e" | (yes) "r = Inr True" | (over) "r = Inr False" "time_left tstop tnow \<le> 0"
    | (again) "r = Inr False" "0 < time_left tstop tnow"
    by (metis (full_types) linorder_not_le sum.exhaust)
  then show ?case
  proof cases
    case again
    let ?s3 = "no_nanosleep ops (wait_period (time_left tstop tnow)) s2"
    have "now s2 + nanos (wait_period (time_left tstop tnow)) \<le> now ?s3" "now ?s3 \<le> now s2 + 10 ^ 15"
      using law wait_period_nanos [OF again(2)] unfolding clock_law_def by blast+
    with wait_period_nanos [OF again(2)] n(2) have s3: "now s1 + 1000000 \<le> now ?s3" "now ?s3 \<le> now s1 + 10 ^ 15" by linarith+
    have before: "now s1 < nanos tstop"
      using time_left_positive [OF again(2) _ _ n(3,4) stop] n(1) t1 less.prems by simp
    have "nat (nanos tstop - now ?s3) < nat (nanos tstop - now s)" using s3(1) t1(1) before by simp
    moreover have "now ?s3 \<le> nanos tstop + 10 ^ 15" "nanos tstop \<le> now ?s3 + 2147482 * 1000000000"
      using s3 before less.prems(2) t1(1) by linarith+
    ultimately obtain y where "resolve_loop ops tstop (rt1, ?s3) = Some y" using less.hyps by blast
    then have "resolve_loop ops tstop (rt, s) = Some y" using res c again by (subst resolve_loop.simps) simp
    then show ?thesis by blast
  qed (use res c in \<open>subst resolve_loop.simps, simp\<close>)+
qed

text \<open>With a large time-out one failed look-up is the end.\<close>

lemma routable_check_overflow:
  assumes "no_clock ops s = (t0, s1)" and "host_resolve ops (rt, s1) = (Inr False, (rt1, s2))" and "no_clock ops s2 = (t1, s3)"
    and "0 \<le> snd t0" "snd t0 < 1000000000" "0 \<le> snd t1" "snd t1 < 1000000000" and "fst t0 \<le> fst t1"
    and "2147485 + (fst t1 - fst t0) \<le> timeout" and "timeout \<le> 4294966"
  shows "routable_check ops garbage timeout (rt, s) = Some (Inr False, (rt1, s3))"
proof -
  have "time_left (fst t0 + timeout, snd t0) t1 < 0" using assms(4-10) by (intro time_left_overflow) auto
  then have "resolve_loop ops (fst t0 + timeout, snd t0) (rt, s1) = Some (Inr False, (rt1, s3))"
    using assms(2,3) by (subst resolve_loop.simps) simp
  then show ?thesis using assms(1) by (simp add: routable_check_def)
qed

section \<open>Sockets\<close>

datatype socket_type = ST_TCP | ST_UDP

datatype socket_family = SF_ANY | SF_IPv4 | SF_IPv6

record inet_socket =
  sk_currentFd :: int
  sk_hostname :: string
  sk_service :: string
  sk_socketType :: socket_type
  sk_family :: socket_family

definition socket_hostname :: "string \<Rightarrow> string" where
  "socket_hostname address =
     (if 2 \<le> length address \<and> hd address = CHR ''['' \<and> last address = CHR '']'' then substr address 1 (length address - 2)
      else address)"

definition Socket :: "string \<Rightarrow> string \<Rightarrow> socket_type \<Rightarrow> socket_family \<Rightarrow> inet_socket" where
  "Socket address service socketType family =
     \<lparr>sk_currentFd = -1, sk_hostname = socket_hostname address, sk_service = service, sk_socketType = socketType, sk_family = family\<rparr>"

definition Socket_port :: "string \<Rightarrow> int \<Rightarrow> socket_type \<Rightarrow> socket_family \<Rightarrow> inet_socket" where
  "Socket_port address port socketType family = Socket address (number2string port) socketType family"

definition SOCK_STREAM :: int where "SOCK_STREAM = 1"
definition SOCK_DGRAM :: int where "SOCK_DGRAM = 2"

definition systemFamily :: "socket_family \<Rightarrow> int" where
  "systemFamily family = (case family of SF_IPv4 \<Rightarrow> AF_INET | SF_IPv6 \<Rightarrow> AF_INET6 | SF_ANY \<Rightarrow> AF_UNSPEC)"

definition systemSocketType :: "socket_type \<Rightarrow> int" where
  "systemSocketType socketType = (case socketType of ST_UDP \<Rightarrow> SOCK_DGRAM | ST_TCP \<Rightarrow> SOCK_STREAM)"

record inet_address = addrinfo +
  ai_socktype :: int
  ai_protocol :: int

record 's socket_ops =
  so_getaddrinfo :: "string \<Rightarrow> string \<Rightarrow> int \<Rightarrow> int \<Rightarrow> 's \<Rightarrow> (int + inet_address list) \<times> 's"
  so_socket :: "int \<Rightarrow> int \<Rightarrow> int \<Rightarrow> 's \<Rightarrow> int \<times> 's"
  so_connect :: "int \<Rightarrow> string \<Rightarrow> 's \<Rightarrow> bool \<times> 's"
  so_close :: "int \<Rightarrow> 's \<Rightarrow> 's"

definition socket_close :: "'s socket_ops \<Rightarrow> inet_socket \<Rightarrow> 's \<Rightarrow> inet_socket \<times> 's" where
  "socket_close ops sk s = (if 0 < sk_currentFd sk then (sk\<lparr>sk_currentFd := -1\<rparr>, so_close ops (sk_currentFd sk) s) else (sk, s))"

text \<open>The loop makes a socket for each address, but connects all of them to the address of the list's head, \<open>first\<close>.\<close>

fun connect_loop :: "'s socket_ops \<Rightarrow> string \<Rightarrow> inet_address list \<Rightarrow> inet_socket \<times> 's \<Rightarrow> bool \<times> inet_socket \<times> 's" where
  "connect_loop ops first [] sks = (False, sks)"
| "connect_loop ops first (aip # rest) (sk, s) =
     (case so_socket ops (ai_family aip) (ai_socktype aip) (ai_protocol aip) s of
        (fd, s1) \<Rightarrow>
          (let sk1 = sk\<lparr>sk_currentFd := fd\<rparr>
           in if fd < 0 then connect_loop ops first rest (sk1, s1)
              else
                (case so_connect ops fd first s1 of
                   (True, s2) \<Rightarrow> (True, (sk1, s2))
                 | (False, s2) \<Rightarrow> connect_loop ops first rest (socket_close ops sk1 s2))))"

definition socket_connect :: "'s socket_ops \<Rightarrow> (inet_socket \<times> 's, int) sx" where
  "socket_connect ops = (\<lambda>(sk, s).
     case so_getaddrinfo ops (sk_hostname sk) (sk_service sk) (systemFamily (sk_family sk)) (systemSocketType (sk_socketType sk)) s of
       (Inl n, s1) \<Rightarrow> (Inl (KGaiError (''getaddrinfo() failed for '' @ sk_hostname sk @ ''.'') n), (sk, s1))
     | (Inr res, s1) \<Rightarrow>
         (case connect_loop ops (case res of [] \<Rightarrow> [] | a # as \<Rightarrow> ai_addr a) res (sk, s1) of
            (connected, (sk1, s2)) \<Rightarrow>
              (if connected then Inr (sk_currentFd sk1)
               else Inl (KError (''connect() failed for '' @ sk_hostname sk @ ''.'')), (sk1, s2))))"

text \<open>When no connection to the first address is made, the others are not tried.\<close>

lemma connect_loop_first:
  assumes "\<And>fd s. \<not> fst (so_connect ops fd first s)"
  shows "\<not> fst (connect_loop ops first rest sks)"
proof (induction rest arbitrary: sks)
  case (Cons aip rest)
  obtain sk s where sks: "sks = (sk, s)" by (cases sks)
  obtain fd s1 where f: "so_socket ops (ai_family aip) (ai_socktype aip) (ai_protocol aip) s = (fd, s1)" by fastforce
  obtain b s2 where c: "so_connect ops fd first s1 = (b, s2)" by fastforce
  then have "\<not> b" using assms [of fd s1] by simp
  then show ?case using Cons.IH f c by (simp add: sks Let_def)
qed simp

lemma socket_connect_first:
  assumes "so_getaddrinfo ops (sk_hostname sk) (sk_service sk) (systemFamily (sk_family sk)) (systemSocketType (sk_socketType sk)) s =
      (Inr (a # as), s1)"
    and "\<And>fd s. \<not> fst (so_connect ops fd (ai_addr a) s)"
  shows "fst (socket_connect ops (sk, s)) = Inl (KError (''connect() failed for '' @ sk_hostname sk @ ''.''))"
proof -
  obtain b sks where l: "connect_loop ops (ai_addr a) (a # as) (sk, s1) = (b, sks)" by (metis prod.collapse)
  then have "\<not> b" using connect_loop_first [OF assms(2), where rest = "a # as" and sks = "(sk, s1)"] by simp
  then show ?thesis using assms(1) l by (cases sks) (simp add: socket_connect_def del: connect_loop.simps)
qed

end
