(* ===== verification/DeviceTimeout.thy ===== *)
theory DeviceTimeout
  imports Istream FilePath StateExn
begin

unbundle bit_operations_syntax

text \<open>
  \<^verbatim>\<open>init/device-timeout-generator.c\<close>: the systemd generator that gives the devices below \<^verbatim>\<open>/kdump/\<close> the time-out of the kernel command line.
  Messages to the console and \<^verbatim>\<open>/dev/kmsg\<close> are left out.
\<close>

section \<open>The kernel command line\<close>

text \<open>
  A C string is the list of its bytes. \<open>arg_split\<close> is the loop of \<open>get_arg\<close> over one token; the bytes it overwrites with \<^const>\<open>NUL\<close> are the ends of
  the strings it gives.
\<close>

definition skipws :: "string \<Rightarrow> string" where
  "skipws s = dropWhile isspace s"

fun arg_split :: "bool \<Rightarrow> string \<Rightarrow> string \<times> string" where
  "arg_split inquote [] = ([], [])"
| "arg_split inquote (c # cs) =
     (if inquote \<or> \<not> isspace c
      then (case arg_split (if c = DQUOTE then \<not> inquote else inquote) cs of (t, rest) \<Rightarrow> (c # t, rest))
      else ([], c # cs))"

text \<open>
  \<open>unquote p endp\<close> on the string at \<open>p\<close>, which reaches to \<open>endp\<close> or to the end of the key; \<open>closing\<close> is whether the byte in front of \<open>endp\<close> is
  still a quote. The second result is whether that byte is removed.
\<close>

definition unquote :: "bool \<Rightarrow> string \<Rightarrow> string \<times> bool" where
  "unquote closing s = (if s \<noteq> [] \<and> hd s = DQUOTE then (tl s, closing) else (s, False))"

definition get_arg :: "string \<Rightarrow> (string \<times> string option) \<times> string" where
  "get_arg args =
     (case arg_split False args of
        (token, rest) \<Rightarrow>
          (let closing = (token \<noteq> [] \<and> last token = DQUOTE);
               key = takeWhile (\<lambda>c. c \<noteq> CHR ''='') token
           in (if CHR ''='' \<in> set token
               then
                 (let val = tl (dropWhile (\<lambda>c. c \<noteq> CHR ''='') token);
                      (key1, removed) = unquote closing key;
                      val1 = (if removed then butlast val else val);
                      (val2, removed2) = unquote (closing \<and> \<not> removed) val1
                  in (key1, Some (if removed2 then butlast val2 else val2)))
               else (case unquote closing key of (key1, removed) \<Rightarrow> (if removed then butlast key1 else key1, None)),
               skipws (case rest of [] \<Rightarrow> [] | _ # rest1 \<Rightarrow> rest1))))"

lemma arg_split_append: "arg_split inquote s = (t, rest) \<Longrightarrow> s = t @ rest"
  by (induction inquote s arbitrary: t rest rule: arg_split.induct) (auto split: if_splits prod.splits)

lemma arg_split_consumes: "s \<noteq> [] \<Longrightarrow> \<not> isspace (hd s) \<Longrightarrow> arg_split False s = (t, rest) \<Longrightarrow> length rest < length s"
proof -
  assume s: "s \<noteq> []" "\<not> isspace (hd s)" "arg_split False s = (t, rest)"
  then obtain c cs where c: "s = c # cs" "\<not> isspace c" by (cases s) auto
  then have "t \<noteq> []" using s(3) by (auto split: prod.splits)
  then show ?thesis using arg_split_append [OF s(3)] by (cases t) auto
qed

lemma get_arg_shorter:
  assumes "s \<noteq> []" and "\<not> isspace (hd s)"
  shows "length (snd (get_arg s)) < length s"
proof -
  obtain t rest where r: "arg_split False s = (t, rest)" by fastforce
  have "length rest < length s" by (rule arg_split_consumes [OF assms r])
  moreover have "length (skipws (case rest of [] \<Rightarrow> [] | _ # rest1 \<Rightarrow> rest1)) \<le> length rest"
    by (cases rest) (simp_all add: skipws_def length_dropWhile_le le_SucI)
  ultimately show ?thesis by (simp add: get_arg_def r Let_def)
qed

lemma get_arg_skipped: "snd (get_arg s) = [] \<or> \<not> isspace (hd (snd (get_arg s)))"
proof -
  have "skipws x = [] \<or> \<not> isspace (hd (skipws x))" for x
    using hd_dropWhile [of isspace x] by (auto simp: skipws_def)
  then show ?thesis by (simp add: get_arg_def split_beta Let_def)
qed

text \<open>The parser returns true to stop. \<open>args\<close> does not begin with white space.\<close>

function parse_loop :: "(string \<Rightarrow> string option \<Rightarrow> 's \<Rightarrow> bool \<times> 's) \<Rightarrow> string \<Rightarrow> 's \<Rightarrow> 's" where
  "parse_loop parse p s =
     (if p = [] \<or> isspace (hd p) then s
      else
        (case get_arg p of
           ((key, val), p1) \<Rightarrow> (case parse key val s of (stop, s1) \<Rightarrow> if stop then s1 else parse_loop parse p1 s1)))"
  by pat_completeness auto
termination
  by (relation "measure (\<lambda>(parse, p, s). length p)") (auto dest!: get_arg_shorter, metis snd_conv)

declare parse_loop.simps [simp del]

definition parse_args :: "(string \<Rightarrow> string option \<Rightarrow> 's \<Rightarrow> bool \<times> 's) \<Rightarrow> string \<Rightarrow> 's \<Rightarrow> 's" where
  "parse_args parse args = parse_loop parse (skipws args)"

section \<open>Reading files\<close>

text \<open>
  \<open>slurp_fd\<close> over the results of \<^verbatim>\<open>read\<close>, each at most as long as was asked for; no result is the end of the file. The pointer into the buffer is
  not advanced: every block is written to its beginning. \<open>fresh\<close> is the memory that \<^verbatim>\<open>realloc\<close> adds.
\<close>

definition READ_CHUNK_ADD :: nat where "READ_CHUNK_ADD = 1024"
definition READ_CHUNK_MIN :: nat where "READ_CHUNK_MIN = 256"

record slurp =
  sl_buf :: string
  sl_len :: nat
  sl_remain :: nat

definition slurp_grow :: "(nat \<Rightarrow> string) \<Rightarrow> slurp \<Rightarrow> slurp" where
  "slurp_grow fresh b =
     (if sl_remain b < READ_CHUNK_MIN
      then b\<lparr>sl_buf := take (sl_len b) (sl_buf b) @ take (READ_CHUNK_ADD + 1) (fresh (sl_len b)), sl_len := sl_len b + READ_CHUNK_ADD,
             sl_remain := sl_remain b + READ_CHUNK_ADD\<rparr>
      else b)"

definition slurp_block :: "string \<Rightarrow> slurp \<Rightarrow> slurp" where
  "slurp_block block b = b\<lparr>sl_buf := block @ drop (length block) (sl_buf b), sl_remain := sl_remain b - length block\<rparr>"

definition slurp_result :: "slurp \<Rightarrow> string" where
  "slurp_result b = takeWhile (\<lambda>c. c \<noteq> NUL) (take (sl_len b - sl_remain b) (sl_buf b))"

fun slurp_loop :: "(nat \<Rightarrow> bool) \<Rightarrow> (nat \<Rightarrow> string) \<Rightarrow> (errno + string) list \<Rightarrow> slurp \<Rightarrow> errno + string" where
  "slurp_loop can_alloc fresh reads b =
     (if sl_remain b < READ_CHUNK_MIN \<and> \<not> can_alloc (sl_len b + READ_CHUNK_ADD + 1) then Inl (EOTHER 12)
      else
        (case reads of
           [] \<Rightarrow> Inr (slurp_result (slurp_grow fresh b))
         | Inl e # rest \<Rightarrow> Inl e
         | Inr block # rest \<Rightarrow>
             (if block = [] then Inr (slurp_result (slurp_grow fresh b))
              else slurp_loop can_alloc fresh rest (slurp_block block (slurp_grow fresh b)))))"

declare slurp_loop.simps [simp del]

definition slurp_fd :: "(nat \<Rightarrow> bool) \<Rightarrow> (nat \<Rightarrow> string) \<Rightarrow> (errno + string) list \<Rightarrow> errno + string" where
  "slurp_fd can_alloc fresh reads = slurp_loop can_alloc fresh reads \<lparr>sl_buf = [], sl_len = 0, sl_remain = 0\<rparr>"

text \<open>The files: what \<^verbatim>\<open>open\<close> and then \<^verbatim>\<open>read\<close> give.\<close>

record file_env =
  fe_can_alloc :: "nat \<Rightarrow> bool"
  fe_fresh :: "nat \<Rightarrow> string"
  fe_open :: "string \<Rightarrow> errno + (errno + string) list"
  fe_readable :: "string \<Rightarrow> bool"
  fe_opendir :: "string \<Rightarrow> errno + string list"

definition slurp_file :: "file_env \<Rightarrow> string \<Rightarrow> string option" where
  "slurp_file env path =
     (case fe_open env path of
        Inl e \<Rightarrow> None
      | Inr reads \<Rightarrow> (case slurp_fd (fe_can_alloc env) (fe_fresh env) reads of Inl e \<Rightarrow> None | Inr text \<Rightarrow> Some text))"

definition parse_file :: "file_env \<Rightarrow> (string \<Rightarrow> string option \<Rightarrow> 's \<Rightarrow> bool \<times> 's) \<Rightarrow> string \<Rightarrow> 's \<Rightarrow> 's" where
  "parse_file env parse fname s = (case slurp_file env fname of None \<Rightarrow> s | Some args \<Rightarrow> parse_args parse args s)"

definition CONF_SUFFIX :: string where "CONF_SUFFIX = ''.conf''"

text \<open>The entries of a directory in the order of \<^verbatim>\<open>readdir\<close>; \<^verbatim>\<open>openat\<close> looks below it.\<close>

fun parse_entries :: "file_env \<Rightarrow> (string \<Rightarrow> string option \<Rightarrow> 's \<Rightarrow> bool \<times> 's) \<Rightarrow> string \<Rightarrow> string list \<Rightarrow> 's \<Rightarrow> 's" where
  "parse_entries env parse dname [] s = s"
| "parse_entries env parse dname (e # es) s =
     parse_entries env parse dname es
       (if suffix CONF_SUFFIX e then parse_file env parse (dname @ ''/'' @ e) s else s)"

definition parse_dir :: "file_env \<Rightarrow> (string \<Rightarrow> string option \<Rightarrow> 's \<Rightarrow> bool \<times> 's) \<Rightarrow> string \<Rightarrow> 's \<Rightarrow> 's" where
  "parse_dir env parse dname s = (case fe_opendir env dname of Inl e \<Rightarrow> s | Inr es \<Rightarrow> parse_entries env parse dname es s)"

definition parse_cmdline_files :: "file_env \<Rightarrow> (string \<Rightarrow> string option \<Rightarrow> 's \<Rightarrow> bool \<times> 's) \<Rightarrow> 's \<Rightarrow> 's" where
  "parse_cmdline_files env parse s =
     (let s1 = parse_dir env parse ''/etc/cmdline.d'' s;
          s2 = (if fe_readable env ''/etc/cmdline'' then parse_file env parse ''/etc/cmdline'' s1 else s1)
      in parse_file env parse ''/proc/cmdline'' s2)"

section \<open>The time-out\<close>

text \<open>\<^verbatim>\<open>strtoul(s, &end, 0)\<close>: the value, and whether \<^verbatim>\<open>end\<close> is the end of the string.\<close>

definition digit_val :: "char \<Rightarrow> nat" where
  "digit_val c = (case hex2int c of Inr d \<Rightarrow> d | Inl _ \<Rightarrow> 36)"

definition num_val :: "nat \<Rightarrow> string \<Rightarrow> nat" where
  "num_val base s = foldl (\<lambda>a c. base * a + digit_val c) 0 s"

definition is_num_digit :: "nat \<Rightarrow> char \<Rightarrow> bool" where
  "is_num_digit base c \<longleftrightarrow> isxdigit c \<and> digit_val c < base"

definition num_base :: "string \<Rightarrow> nat \<times> string" where
  "num_base u =
     (if take 1 u = ''0'' \<and> (take 1 (drop 1 u) = ''x'' \<or> take 1 (drop 1 u) = ''X'') \<and> drop 2 u \<noteq> [] \<and> isxdigit (hd (drop 2 u))
      then (16, drop 2 u)
      else if take 1 u = ''0'' then (8, u) else (10, u))"

definition strtoul_base0 :: "string \<Rightarrow> 64 word \<times> bool" where
  "strtoul_base0 s =
     (let t = dropWhile isspace s; (base, u) = num_base (skip_sign t); ds = takeWhile (is_num_digit base) u
      in if ds = [] then (0, s = [])
         else (if num_val base ds > ULONG_MAX then of_nat ULONG_MAX
               else if take 1 t = ''-'' then - of_nat (num_val base ds) else of_nat (num_val base ds),
               dropWhile (is_num_digit base) u = []))"

definition get_timeout :: "string \<Rightarrow> string option \<Rightarrow> 64 word \<Rightarrow> bool \<times> 64 word" where
  "get_timeout key val timeout =
     (False,
      case val of
        None \<Rightarrow> timeout
      | Some v \<Rightarrow>
          (if key = ''rd.timeout'' \<and> v \<noteq> []
           then (case strtoul_base0 v of (num, complete) \<Rightarrow> if complete then num else timeout)
           else timeout))"

section \<open>Devices\<close>

definition isoctal :: "char \<Rightarrow> bool" where
  "isoctal c \<longleftrightarrow> CHR ''0'' \<le> c \<and> c \<le> CHR ''7''"

definition octal_byte :: "char \<Rightarrow> char \<Rightarrow> char \<Rightarrow> char" where
  "octal_byte a b c = chr (((ord a - 48) * 64 + (ord b - 48) * 8 + (ord c - 48)) mod 256)"

text \<open>\<open>unescape_fstab\<close> with its two pointers into one buffer. Behind the end of the list is the terminating byte.\<close>

function unescape_loop :: "string \<Rightarrow> nat \<Rightarrow> nat \<Rightarrow> string" where
  "unescape_loop buf p q =
     (if c_at buf p = NUL then buf
      else if c_at buf p = BSLASH \<and> isoctal (c_at buf (p + 1)) \<and> isoctal (c_at buf (p + 2)) \<and> isoctal (c_at buf (p + 3))
      then unescape_loop (buf[q := octal_byte (c_at buf (p + 1)) (c_at buf (p + 2)) (c_at buf (p + 3))]) (p + 3) (q + 1)
      else unescape_loop (buf[q := c_at buf p]) (p + 1) (q + 1))"
  by pat_completeness auto
termination
  by (relation "measure (\<lambda>(buf, p, q). length buf - p)") (auto simp: c_at_def split: if_splits)

declare unescape_loop.simps [simp del]

definition unescape_fstab :: "string \<Rightarrow> string" where
  "unescape_fstab spec = takeWhile (\<lambda>c. c \<noteq> NUL) (unescape_loop spec 0 0)"

definition DEV_PREFIX :: string where "DEV_PREFIX = ''/dev/disk/by-''"

text \<open>\<open>encode\<close> is \<^verbatim>\<open>blkid_encode_string\<close>. \<^verbatim>\<open>strrchr\<close> looks for the last quote.\<close>

definition evaluate_spec :: "(string \<Rightarrow> string) \<Rightarrow> string \<Rightarrow> string option" where
  "evaluate_spec encode spec =
     (case find_char (CHR ''='') spec of
        None \<Rightarrow> Some spec
      | Some i \<Rightarrow>
          (let tag = take i spec; value = drop (i + 1) spec;
               unquoted =
                 (if value \<noteq> [] \<and> (hd value = DQUOTE \<or> hd value = SQUOTE)
                  then map_option (\<lambda>p. take p (tl value)) (rfind_char (hd value) (tl value))
                  else Some value)
           in map_option (\<lambda>v. DEV_PREFIX @ map tolower tag @ ''/'' @ encode v) unquoted))"

text \<open>\<open>signed_char\<close> is whether \<^verbatim>\<open>char\<close> is signed on the machine.\<close>

definition c_unsigned :: "bool \<Rightarrow> char \<Rightarrow> 32 word" where
  "c_unsigned signed_char c = (if signed_char then word_of_int (signed_take_bit 7 (int (ord c))) else of_nat (ord c))"

definition hex_digit_char :: "32 word \<Rightarrow> char" where
  "hex_digit_char d = chr (unat (if d < 10 then d + 48 else d - 10 + 97) mod 256)"

definition hex_escape :: "bool \<Rightarrow> char \<Rightarrow> string" where
  "hex_escape signed_char c =
     [BSLASH, CHR ''x'', hex_digit_char (drop_bit 4 (c_unsigned signed_char c)), hex_digit_char (c_unsigned signed_char c AND 15)]"

definition safe_unit_char :: "char \<Rightarrow> bool" where
  "safe_unit_char c \<longleftrightarrow> isalpha c \<or> isdigit c \<or> c = CHR '':'' \<or> c = CHR ''_'' \<or> c = CHR ''.''"

text \<open>
  \<open>path_escape\<close> on the buffer it allocates: the path without duplicate slashes goes to its last quarter, and from there, escaped, to its beginning.
  \<open>put\<close> writes some bytes at a place.
\<close>

fun put :: "nat \<Rightarrow> string \<Rightarrow> string \<Rightarrow> string" where
  "put i [] buf = buf"
| "put i (c # s) buf = put (i + 1) s (buf[i := c])"

lemma length_put [simp]: "length (put i s buf) = length buf"
  by (induction i s buf rule: put.induct) simp_all

definition slash_kept :: "char \<Rightarrow> string \<Rightarrow> bool" where
  "slash_kept c src \<longleftrightarrow> c \<noteq> SLASH \<or> (src \<noteq> [] \<and> hd src \<noteq> SLASH)"

fun dedup_loop :: "string \<Rightarrow> nat \<Rightarrow> string \<Rightarrow> string" where
  "dedup_loop [] dst buf = put dst [NUL] buf"
| "dedup_loop (c # src) dst buf =
     (if slash_kept c src then dedup_loop src (dst + 1) (put dst [c] buf) else dedup_loop src dst buf)"

definition escape_char :: "bool \<Rightarrow> char \<Rightarrow> string" where
  "escape_char signed_char c =
     (if c = SLASH then ''-'' else if \<not> safe_unit_char c then hex_escape signed_char c else [c])"

function escape_loop :: "bool \<Rightarrow> nat \<Rightarrow> nat \<Rightarrow> string \<Rightarrow> string" where
  "escape_loop signed_char src dst buf =
     (if c_at buf src = NUL then put dst [NUL] buf
      else
        (let e = escape_char signed_char (c_at buf src)
         in escape_loop signed_char (src + 1) (dst + length e) (put dst e buf)))"
  by pat_completeness auto
termination
  by (relation "measure (\<lambda>(sc, src, dst, buf). length buf - src)") (auto simp: c_at_def split: if_splits)

declare escape_loop.simps [simp del]

definition path_escape_buffer :: "bool \<Rightarrow> (nat \<Rightarrow> string) \<Rightarrow> string \<Rightarrow> string" where
  "path_escape_buffer signed_char fresh path =
     (let pathlen = length path; dedup = pathlen * 3;
          ret = dedup_loop path dedup (take (pathlen * 4 + 1) (fresh (pathlen * 4 + 1)))
      in if c_at ret dedup = NUL then put 0 (''-'' @ [NUL]) ret
         else
           (let src = (if c_at ret dedup = SLASH then dedup + 1 else dedup);
                (src1, dst, ret1) =
                  (if c_at ret src = CHR ''.''
                   then (src + 1, 4, put 0 (hex_escape signed_char (c_at ret src)) ret) else (src, 0, ret))
            in escape_loop signed_char src1 dst ret1))"

definition path_escape :: "bool \<Rightarrow> (nat \<Rightarrow> bool) \<Rightarrow> (nat \<Rightarrow> string) \<Rightarrow> string \<Rightarrow> string option res" where
  "path_escape signed_char can_alloc fresh path =
     (if \<not> can_alloc (length path * 4 + 1) then Inr None
      else if path = [] then Inl (Undefined ''strcpy of two bytes into a buffer of one'')
      else Inr (Some (takeWhile (\<lambda>c. c \<noteq> NUL) (path_escape_buffer signed_char fresh path))))"

section \<open>The configuration files\<close>

record 's conf_env =
  cf_mkdir :: "string \<Rightarrow> 's \<Rightarrow> errno option \<times> 's"
  cf_fopen :: "string \<Rightarrow> 's \<Rightarrow> errno option \<times> 's"
  cf_fprintf :: "string \<Rightarrow> string \<Rightarrow> 's \<Rightarrow> errno option \<times> 's"
  cf_fclose :: "string \<Rightarrow> 's \<Rightarrow> errno option \<times> 's"
  cf_encode :: "string \<Rightarrow> string"
  cf_signed_char :: bool

text \<open>The result is whether 0 is returned. A file that cannot be written is not closed.\<close>

definition write_conf :: "'s conf_env \<Rightarrow> 64 word \<Rightarrow> string \<Rightarrow> 's \<Rightarrow> bool \<times> 's" where
  "write_conf env timeout path s =
     (case cf_fopen env path s of
        (Some e, s1) \<Rightarrow> (False, s1)
      | (None, s1) \<Rightarrow>
          (case cf_fprintf env path (''[Unit]'' @ [NL] @ ''JobTimeoutSec='' @ dec_of_nat (unat timeout) @ [NL]) s1 of
             (Some e, s2) \<Rightarrow> (False, s2)
           | (None, s2) \<Rightarrow> (case cf_fclose env path s2 of (Some e, s3) \<Rightarrow> (False, s3) | (None, s3) \<Rightarrow> (True, s3))))"

definition create_conf :: "'s conf_env \<Rightarrow> file_env \<Rightarrow> string \<Rightarrow> 64 word \<Rightarrow> string \<Rightarrow> ('s, bool) sx" where
  "create_conf env mem unitdir timeout spec s =
     (case evaluate_spec (cf_encode env) spec of
        None \<Rightarrow> (Inr False, s)
      | Some devname \<Rightarrow>
          (case path_escape (cf_signed_char env) (fe_can_alloc mem) (fe_fresh mem) devname of
             Inl e \<Rightarrow> (Inl e, s)
           | Inr None \<Rightarrow> (Inr False, s)
           | Inr (Some unitname) \<Rightarrow>
               (if \<not> fe_can_alloc mem (length unitdir + 1 + length unitname + 23) then (Inr False, s)
                else
                  (let confdir = unitdir @ ''/'' @ unitname @ ''.device.d'';
                       write = (\<lambda>s1. case write_conf env timeout (confdir @ ''/timeout.conf'') s1 of (ok, s2) \<Rightarrow> (Inr ok, s2))
                   in case cf_mkdir env confdir s of
                        (Some e, s1) \<Rightarrow> (if e \<noteq> EEXIST then (Inr False, s1) else write s1)
                      | (None, s1) \<Rightarrow> write s1))))"

definition KDUMP_DIR :: string where "KDUMP_DIR = ''/kdump/''"

text \<open>The entries of \<^verbatim>\<open>fstab\<close> are pairs of the device and the mount point. The exit code does not depend on what becomes of them.\<close>

fun create_confs :: "'s conf_env \<Rightarrow> file_env \<Rightarrow> string \<Rightarrow> 64 word \<Rightarrow> (string \<times> string) list \<Rightarrow> ('s, unit) sx" where
  "create_confs env mem unitdir timeout [] s = (Inr (), s)"
| "create_confs env mem unitdir timeout ((fs_spec, fs_file) # fss) s =
     (if prefix KDUMP_DIR fs_file
      then (case create_conf env mem unitdir timeout (unescape_fstab fs_spec) s of
              (Inl e, s1) \<Rightarrow> (Inl e, s1)
            | (Inr _, s1) \<Rightarrow> create_confs env mem unitdir timeout fss s1)
      else create_confs env mem unitdir timeout fss s)"

definition generator_main :: "'s conf_env \<Rightarrow> file_env \<Rightarrow> string list \<Rightarrow> (string \<times> string) list \<Rightarrow> ('s, nat) sx" where
  "generator_main env files argv fstab s =
     (if length argv \<noteq> 4 then (Inr 1, s)
      else sx_seq (create_confs env files (argv ! 1) (parse_cmdline_files files get_timeout 0) fstab) (sx_return 0) s)"

section \<open>The escaped path\<close>

text \<open>What \<open>path_escape\<close> computes, without a buffer.\<close>

fun dedup_slashes :: "string \<Rightarrow> string" where
  "dedup_slashes [] = []"
| "dedup_slashes (c # s) = (if slash_kept c s then c # dedup_slashes s else dedup_slashes s)"

definition unit_name :: "bool \<Rightarrow> string \<Rightarrow> string" where
  "unit_name signed_char path =
     (let d = dedup_slashes path; e = (if d \<noteq> [] \<and> hd d = SLASH then tl d else d)
      in if d = [] then ''-''
         else if e \<noteq> [] \<and> hd e = CHR ''.'' then hex_escape signed_char (CHR ''.'') @ concat (map (escape_char signed_char) (tl e))
         else concat (map (escape_char signed_char) e))"

lemma put_eq: "i + length s \<le> length buf \<Longrightarrow> put i s buf = take i buf @ s @ drop (i + length s) buf"
proof (induction i s buf rule: put.induct)
  case (2 i c s buf)
  then have i: "i < length buf" by simp
  have "put (i + 1) s (buf[i := c]) = take (i + 1) (buf[i := c]) @ s @ drop (i + 1 + length s) (buf[i := c])"
    by (rule 2) (use 2 in simp)
  moreover have "take (i + 1) (buf[i := c]) = take i buf @ [c]" using i by (simp add: take_Suc_conv_app_nth)
  ultimately show ?case by simp
qed simp

lemma length_dedup: "length (dedup_slashes s) \<le> length s"
  by (induction s) auto

lemma set_dedup: "set (dedup_slashes s) \<subseteq> set s"
  by (induction s) auto

lemma dedup_loop_eq:
  assumes "dst + length src < length buf"
  shows "dedup_loop src dst buf = take dst buf @ dedup_slashes src @ NUL # drop (dst + length (dedup_slashes src) + 1) buf"
  using assms
proof (induction src arbitrary: dst buf)
  case Nil
  then show ?case by (simp add: put_eq del: put.simps)
next
  case (Cons c src)
  show ?case
  proof (cases "slash_kept c src")
    case True
    then have "dedup_loop (c # src) dst buf = take (dst + 1) (put dst [c] buf) @ dedup_slashes src @
        NUL # drop (dst + 1 + length (dedup_slashes src) + 1) (put dst [c] buf)"
      using Cons.IH [of "dst + 1" "put dst [c] buf"] Cons.prems by simp
    then show ?thesis using True Cons.prems by (simp add: put_eq add.commute del: put.simps)
  qed (use Cons in simp)
qed

lemma length_escape_char: "length (escape_char sc c) \<le> 4"
  by (simp add: escape_char_def hex_escape_def)

lemma escape_loop_eq:
  assumes "drop src buf = rest @ NUL # post" and "NUL \<notin> set rest" and "dst + 3 * length rest \<le> src"
  shows "\<exists>post'. escape_loop sc src dst buf = take dst buf @ concat (map (escape_char sc) rest) @ NUL # post'"
  using assms
proof (induction rest arbitrary: src dst buf)
  case Nil
  then have src: "src < length buf" "c_at buf src = NUL"
    by (metis append_Nil drop_all leI list.distinct(1)) (metis Nil.prems(1) append_Nil c_at_def hd_drop_conv_nth list.sel(1))
  then show ?case using Nil.prems(3) by (subst escape_loop.simps) (simp add: put_eq del: put.simps)
next
  case (Cons c rest)
  have lt: "src < length buf" using Cons.prems(1) by (metis append_Cons drop_all leI list.distinct(1))
  then have c: "c_at buf src = c" using Cons.prems(1) by (simp add: c_at_def flip: hd_drop_conv_nth)
  let ?e = "escape_char sc c"
  have e: "length ?e \<le> 4" by (rule length_escape_char)
  then have le: "dst + length ?e \<le> src + 1" using Cons.prems(3) by simp
  then have put: "put dst ?e buf = take dst buf @ ?e @ drop (dst + length ?e) buf" using lt by (intro put_eq) simp
  have "drop (src + 1) (put dst ?e buf) = drop (src + 1) buf" using le lt by (simp add: put)
  also have "\<dots> = rest @ NUL # post" using Cons.prems(1) by (metis Suc_eq_plus1 append_Cons drop_Suc list.sel(3) tl_drop)
  finally have "\<exists>post'. escape_loop sc (src + 1) (dst + length ?e) (put dst ?e buf) =
      take (dst + length ?e) (put dst ?e buf) @ concat (map (escape_char sc) rest) @ NUL # post'"
    by (rule Cons.IH) (use Cons.prems e in auto)
  moreover have "take (dst + length ?e) (put dst ?e buf) = take dst buf @ ?e" using le lt by (simp add: put)
  moreover have "c \<noteq> NUL" using Cons.prems(2) by auto
  ultimately show ?case using c by (subst escape_loop.simps) (simp add: Let_def)
qed

lemma ord_NUL: "ord NUL = 0"
  by (simp add: NUL_def ord_def)

lemma chr_not_NUL: "0 < n \<Longrightarrow> n < 256 \<Longrightarrow> chr n \<noteq> NUL"
  using ord_NUL ord_chr by (metis not_less_zero)

lemma hex_digit_not_NUL:
  assumes "unat d < 16 \<or> (268435448 \<le> unat d \<and> unat d < 268435456)"
  shows "hex_digit_char d \<noteq> NUL"
proof (cases "d < 10")
  case True
  then have "unat d < 10" by (simp add: word_less_nat_alt)
  then have "unat (d + 48) = unat d + 48" by (simp add: unat_word_ariths)
  with \<open>unat d < 10\<close> show ?thesis using True by (simp add: hex_digit_char_def chr_not_NUL)
next
  case False
  have e: "d - 10 + 97 = d + 87" by simp
  have "unat (d + 87) = unat d + 87" using assms by (auto simp: unat_word_ariths)
  moreover have "0 < (unat d + 87) mod 256"
  proof -
    consider "unat d < 16" | k where "unat d = 268435448 + k" "k < 8"
      using assms le_Suc_ex [of 268435448 "unat d"] by fastforce
    then show ?thesis
    proof cases
      case (2 k)
      then have "k \<in> {0, 1, 2, 3, 4, 5, 6, 7}" by auto
      then show ?thesis using 2(1) by auto
    qed simp
  qed
  ultimately show ?thesis using False by (simp only: hex_digit_char_def e if_False) (simp add: chr_not_NUL)
qed

lemma c_unsigned_range:
  "unat (c_unsigned sc c) < 256 \<or> (4294967168 \<le> unat (c_unsigned sc c) \<and> unat (c_unsigned sc c) < 4294967296)"
proof (cases "sc \<and> 128 \<le> ord c")
  case True
  have o: "ord c < 256" by simp
  have s: "signed_take_bit 7 (int (ord c)) = int (ord c) - 256"
  proof -
    obtain k where "ord c = 128 + k" using True le_Suc_ex by blast
    then show ?thesis using o by (simp add: signed_take_bit_eq_take_bit_shift take_bit_eq_mod)
  qed
  have w: "c_unsigned sc c = word_of_int (int (ord c) - 256)" unfolding c_unsigned_def s using True by (simp only: simp_thms if_True)
  have "uint (c_unsigned sc c) = (int (ord c) - 256) mod 2 ^ 32" unfolding w by (rule trans [OF uint_word_of_int]) simp
  also have "\<dots> = (int (ord c) - 256 + 2 ^ 32) mod 2 ^ 32" by (simp only: mod_add_self2)
  also have "\<dots> = int (ord c) - 256 + 2 ^ 32" using True o by (intro mod_pos_pos_trivial) auto
  finally have "int (unat (c_unsigned sc c)) = int (ord c + 4294967040)" by simp
  then have "unat (c_unsigned sc c) = ord c + 4294967040" by (simp only: of_nat_eq_iff)
  then show ?thesis using True o by simp
next
  case False
  have o: "ord c < 256" by simp
  have "c_unsigned sc c = of_nat (ord c)"
    using False o by (auto simp: c_unsigned_def signed_take_bit_int_eq_self)
  moreover have "ord c mod 4294967296 = ord c" using o by (intro mod_less) linarith
  ultimately have "unat (c_unsigned sc c) = ord c" by (simp add: unat_of_nat)
  then show ?thesis using o by presburger
qed

lemma hex_escape_no_NUL: "NUL \<notin> set (hex_escape sc c)"
proof -
  have d: "unat (drop_bit 4 (c_unsigned sc c)) = unat (c_unsigned sc c) div 16" by (simp add: drop_bit_eq_div unat_div_distrib)
  have h: "hex_digit_char (drop_bit 4 (c_unsigned sc c)) \<noteq> NUL"
    using c_unsigned_range [of sc c] by (intro hex_digit_not_NUL) (auto simp: d)
  have m: "c_unsigned sc c AND 15 = take_bit 4 (c_unsigned sc c)" by (simp add: take_bit_eq_mask mask_eq_exp_minus_1)
  have "unat (c_unsigned sc c AND 15) < 16" unfolding m by (simp add: take_bit_eq_mod unat_mod_distrib)
  then have "hex_digit_char (c_unsigned sc c AND 15) \<noteq> NUL" by (intro hex_digit_not_NUL) simp
  then show ?thesis using h by (auto simp: hex_escape_def char_consts)
qed

lemma escape_char_no_NUL: "c \<noteq> NUL \<Longrightarrow> NUL \<notin> set (escape_char sc c)"
  using hex_escape_no_NUL [of sc c] by (auto simp: escape_char_def char_consts)

lemma escapes_no_NUL: "NUL \<notin> set s \<Longrightarrow> NUL \<notin> set (concat (map (escape_char sc) s))"
  using escape_char_no_NUL by (induction s) auto

lemma takeWhile_NUL: "NUL \<notin> set s \<Longrightarrow> takeWhile (\<lambda>c. c \<noteq> NUL) (s @ NUL # t) = s"
  by (induction s) auto

lemma drop_c_at: "drop i buf = c # rest \<Longrightarrow> c_at buf i = c \<and> drop (i + 1) buf = rest"
  by (metis Suc_eq_plus1 c_at_def drop_Suc drop_all hd_drop_conv_nth leI list.distinct(1) list.sel(1,3) tl_drop)

text \<open>
  The buffer is large enough, and the escaped text never overtakes what is still to be read: the result is that of \<open>unit_name\<close>.
\<close>

lemma path_escape_unit_name:
  assumes "NUL \<notin> set path" and "\<And>n. length (fresh n) = n" and "path \<noteq> []"
  shows "takeWhile (\<lambda>c. c \<noteq> NUL) (path_escape_buffer sc fresh path) = unit_name sc path"
proof -
  define n where "n = length path"
  define d where "d = dedup_slashes path"
  define buf where "buf = take (n * 4 + 1) (fresh (n * 4 + 1))"
  define ret where "ret = dedup_loop path (n * 3) buf"
  have lb: "length buf = n * 4 + 1" using assms(2) by (simp add: buf_def)
  obtain post where ret: "ret = take (n * 3) buf @ d @ NUL # post"
    using dedup_loop_eq [of "n * 3" path buf] lb by (simp add: ret_def d_def n_def)
  then have dr: "drop (n * 3) ret = d @ NUL # post" using lb by simp
  have ld: "length d \<le> n" unfolding d_def n_def by (rule length_dedup)
  have nul: "NUL \<notin> set d" using set_dedup [of path] assms(1) unfolding d_def by blast
  have pe: "path_escape_buffer sc fresh path =
      (if c_at ret (n * 3) = NUL then put 0 (''-'' @ [NUL]) ret
       else
         (let src = (if c_at ret (n * 3) = SLASH then n * 3 + 1 else n * 3);
              (src1, dst, ret1) =
                (if c_at ret src = CHR ''.'' then (src + 1, 4, put 0 (hex_escape sc (c_at ret src)) ret) else (src, 0, ret))
          in escape_loop sc src1 dst ret1))"
    by (simp add: path_escape_buffer_def Let_def n_def ret_def buf_def)
  show ?thesis
  proof (cases d)
    case Nil
    then have "c_at ret (n * 3) = NUL" using drop_c_at [of "n * 3" ret NUL post] dr by simp
    moreover have "2 \<le> length ret" using ret lb assms(3) by (auto simp: n_def Suc_le_eq)
    then have "put 0 (''-'' @ [NUL]) ret = ''-'' @ NUL # drop (Suc (Suc 0)) ret" using put_eq [of 0 "''-'' @ [NUL]" ret] by (simp del: put.simps)
    moreover have "unit_name sc path = ''-''" using Nil by (simp add: unit_name_def d_def)
    ultimately show ?thesis using takeWhile_NUL [of "''-''" "drop (Suc (Suc 0)) ret"] by (simp add: pe del: put.simps) (simp add: NUL_def)
  next
    case (Cons c e0)
    have c: "c_at ret (n * 3) = c" "drop (n * 3 + 1) ret = e0 @ NUL # post" using drop_c_at [of "n * 3" ret c] dr Cons by auto
    have cn: "c \<noteq> NUL" using nul Cons by auto
    define e where "e = (if c = SLASH then e0 else d)"
    define src where "src = (if c = SLASH then n * 3 + 1 else n * 3)"
    have de: "drop src ret = e @ NUL # post" using c(2) dr by (simp add: e_def src_def)
    have ne: "NUL \<notin> set e" using nul Cons by (auto simp: e_def)
    have le: "length e \<le> n" "3 * length e \<le> src" using ld Cons by (auto simp: e_def src_def)
    have un: "unit_name sc path = (if e \<noteq> [] \<and> hd e = CHR ''.'' then hex_escape sc (CHR ''.'') @ concat (map (escape_char sc) (tl e))
        else concat (map (escape_char sc) e))"
      using Cons by (simp add: unit_name_def d_def [symmetric] e_def Let_def)
    have pe': "path_escape_buffer sc fresh path =
        (if c_at ret src = CHR ''.'' then escape_loop sc (src + 1) 4 (put 0 (hex_escape sc (CHR ''.'')) ret) else escape_loop sc src 0 ret)"
      using cn c(1) by (simp add: pe src_def Let_def del: put.simps)
    show ?thesis
    proof (cases "e \<noteq> [] \<and> hd e = CHR ''.''")
      case True
      then obtain e1 where e1: "e = CHR ''.'' # e1" by (cases e) auto
      have at: "c_at ret src = CHR ''.''" "drop (src + 1) ret = e1 @ NUL # post" using drop_c_at [of src ret] de e1 by auto
      let ?h = "hex_escape sc (CHR ''.'')"
      have lh: "length ?h = 4" by (simp add: hex_escape_def)
      have "3 \<le> src" using le(2) e1 by simp
      then have lr: "4 \<le> length ret" "4 \<le> src + 1" using at(2) by (auto intro: ccontr)
      then have put: "put 0 ?h ret = ?h @ drop 4 ret" using put_eq [of 0 ?h ret] lh by simp
      have "drop (src + 1) (put 0 ?h ret) = e1 @ NUL # post" using lr at(2) lh by (simp add: put)
      from escape_loop_eq [OF this, of 4 sc] obtain post' where
          "escape_loop sc (src + 1) 4 (put 0 ?h ret) = take 4 (put 0 ?h ret) @ concat (map (escape_char sc) e1) @ NUL # post'"
        using ne le(2) e1 by auto
      then have "path_escape_buffer sc fresh path = (?h @ concat (map (escape_char sc) e1)) @ NUL # post'" using at(1) lh by (simp add: pe' put)
      moreover have "NUL \<notin> set (?h @ concat (map (escape_char sc) e1))" using hex_escape_no_NUL escapes_no_NUL [of e1 sc] ne e1 by simp
      ultimately show ?thesis using takeWhile_NUL [of "?h @ concat (map (escape_char sc) e1)" post'] True e1 un by simp
    next
      case False
      then have "c_at ret src \<noteq> CHR ''.''"
        using drop_c_at [of src ret "hd (e @ NUL # post)" "tl (e @ NUL # post)"] de by (cases e) (auto simp: NUL_def)
      moreover from escape_loop_eq [OF de ne, of 0 sc] obtain post' where
          "escape_loop sc src 0 ret = concat (map (escape_char sc) e) @ NUL # post'" using le(2) by auto
      ultimately have "path_escape_buffer sc fresh path = concat (map (escape_char sc) e) @ NUL # post'" by (simp add: pe')
      moreover have "unit_name sc path = concat (map (escape_char sc) e)" unfolding un by (rule if_not_P [OF False])
      ultimately show ?thesis using takeWhile_NUL [OF escapes_no_NUL [OF ne]] by simp
    qed
  qed
qed

section \<open>Escapes of fstab\<close>

text \<open>What the loop writes: the third digit of an escape is copied once more. What was behind it stays in the buffer.\<close>

function unescaped :: "string \<Rightarrow> string" where
  "unescaped s =
     (case s of
        [] \<Rightarrow> []
      | c # r \<Rightarrow>
          (if c = BSLASH \<and> isoctal (c_at r 0) \<and> isoctal (c_at r 1) \<and> isoctal (c_at r 2)
           then octal_byte (c_at r 0) (c_at r 1) (c_at r 2) # unescaped (drop 2 r)
           else c # unescaped r))"
  by pat_completeness auto
termination
  by (relation "measure length") auto

declare unescaped.simps [simp del]

lemma isoctal_NUL: "\<not> isoctal NUL"
  by (simp add: isoctal_def NUL_def)

lemma unescape_loop_eq:
  assumes "q \<le> p" and "p \<le> length buf" and "NUL \<notin> set (drop p buf)"
  shows "unescape_loop buf p q = take q buf @ unescaped (drop p buf) @ drop (q + length (unescaped (drop p buf))) buf"
  using assms
proof (induction buf p q rule: unescape_loop.induct)
  case (1 buf p q)
  show ?case
  proof (cases "drop p buf")
    case Nil
    then have "c_at buf p = NUL" by (simp add: c_at_def)
    then show ?thesis using Nil by (subst unescape_loop.simps) (simp add: unescaped.simps)
  next
    case (Cons c r)
    have lt: "p < length buf" using Cons by (metis drop_all leI list.distinct(1))
    have c: "c_at buf p = c" using Cons lt by (simp add: c_at_def flip: hd_drop_conv_nth)
    have cn: "c \<noteq> NUL" using 1(5) Cons by auto
    have r: "r = drop (p + 1) buf" using Cons by (metis Suc_eq_plus1 drop_Suc list.sel(3) tl_drop)
    have at: "c_at buf (p + (1 + i)) = c_at r i" for i unfolding r by (auto simp: c_at_def)
    have at': "c_at buf (p + 1) = c_at r 0" "c_at buf (p + 2) = c_at r 1" "c_at buf (p + 3) = c_at r 2"
      using at [of 0] at [of 1] at [of 2] by (simp_all add: numeral_3_eq_3 numeral_2_eq_2)
    show ?thesis
    proof (cases "c = BSLASH \<and> isoctal (c_at r 0) \<and> isoctal (c_at r 1) \<and> isoctal (c_at r 2)")
      case True
      let ?o = "octal_byte (c_at r 0) (c_at r 1) (c_at r 2)"
      have l: "3 \<le> length r" using True isoctal_NUL by (auto simp: c_at_def split: if_splits)
      then have l': "p + 3 \<le> length buf" unfolding r by simp
      have d: "drop (p + 3) (buf[q := ?o]) = drop 2 r" using 1(3) unfolding r by (simp add: numeral_3_eq_3)
      have "unescape_loop (buf[q := ?o]) (p + 3) (q + 1) =
          take (q + 1) (buf[q := ?o]) @ unescaped (drop 2 r) @ drop (q + 1 + length (unescaped (drop 2 r))) (buf[q := ?o])"
        using 1(1) [of] True c at' cn 1(3,5) l' d Cons by (auto dest: in_set_dropD)
      moreover have "take (q + 1) (buf[q := ?o]) = take q buf @ [?o]" using 1(3) lt by (simp add: take_Suc_conv_app_nth)
      moreover have "drop (q + 1 + k) (buf[q := ?o]) = drop (q + 1 + k) buf" for k by simp
      ultimately show ?thesis
        using True c at' cn Cons by (subst unescape_loop.simps) (simp add: unescaped.simps [of "BSLASH # r"])
    next
      case False
      have d: "drop (p + 1) (buf[q := c]) = r" using 1(3) unfolding r by simp
      have "unescape_loop (buf[q := c]) (p + 1) (q + 1) =
          take (q + 1) (buf[q := c]) @ unescaped r @ drop (q + 1 + length (unescaped r)) (buf[q := c])"
        using 1(2) False c at' cn 1(3,5) lt d Cons by auto
      moreover have "take (q + 1) (buf[q := c]) = take q buf @ [c]" using 1(3) lt by (simp add: take_Suc_conv_app_nth)
      moreover have "drop (q + 1 + k) (buf[q := c]) = drop (q + 1 + k) buf" for k by simp
      ultimately show ?thesis
        using False c at' cn Cons by (subst unescape_loop.simps) (auto simp: unescaped.simps [of "c # r"])
    qed
  qed
qed

lemma unescaped_Cons: "c \<noteq> BSLASH \<Longrightarrow> unescaped (c # s) = c # unescaped s"
  by (subst unescaped.simps) simp

lemma unescaped_plain_append: "BSLASH \<notin> set s \<Longrightarrow> unescaped (s @ t) = s @ unescaped t"
  by (induction s) (auto simp: unescaped_Cons)

lemma unescaped_plain: "BSLASH \<notin> set s \<Longrightarrow> unescaped s = s"
  using unescaped_plain_append [of s "[]"] by (simp add: unescaped.simps [of "[]"])

lemma takeWhile_NUL_append: "NUL \<notin> set s \<Longrightarrow> takeWhile (\<lambda>c. c \<noteq> NUL) (s @ t) = s @ takeWhile (\<lambda>c. c \<noteq> NUL) t"
  by (induction s) auto

lemma takeWhile_no_NUL: "NUL \<notin> set s \<Longrightarrow> takeWhile (\<lambda>c. c \<noteq> NUL) s = s"
  by (induction s) auto

lemma unescape_fstab_plain: "BSLASH \<notin> set s \<Longrightarrow> NUL \<notin> set s \<Longrightarrow> unescape_fstab s = s"
  by (simp add: unescape_fstab_def unescape_loop_eq unescaped_plain takeWhile_no_NUL)

lemma unescape_fstab_escape:
  assumes "BSLASH \<notin> set (a @ b)" and "NUL \<notin> set (a @ b)" and oct: "isoctal x" "isoctal y" "isoctal z" and "octal_byte x y z \<noteq> NUL"
  shows "unescape_fstab (a @ [BSLASH, x, y, z] @ b) = a @ octal_byte x y z # z # b @ drop (length b) (y # z # b)"
proof -
  have nz: "x \<noteq> NUL" "y \<noteq> NUL" "z \<noteq> NUL" "BSLASH \<noteq> NUL" using oct isoctal_NUL by (auto simp: char_consts)
  have zb: "z \<noteq> BSLASH" using oct(3) by (auto simp: isoctal_def char_consts)
  have "unescaped ([BSLASH, x, y, z] @ b) = octal_byte x y z # unescaped (z # b)"
    using oct by (subst unescaped.simps) (simp add: c_at_def)
  also have "unescaped (z # b) = z # b" using zb assms(1) by (intro unescaped_plain) auto
  finally have u: "unescaped (a @ [BSLASH, x, y, z] @ b) = a @ octal_byte x y z # z # b"
    using assms(1) by (subst unescaped_plain_append) auto
  have "drop (length (a @ octal_byte x y z # z # b)) (a @ [BSLASH, x, y, z] @ b) = drop (length b) (y # z # b)" by simp
  then have "unescape_loop (a @ [BSLASH, x, y, z] @ b) 0 0 = a @ octal_byte x y z # z # b @ drop (length b) (y # z # b)"
    using assms(2) nz unescape_loop_eq [of 0 0 "a @ [BSLASH, x, y, z] @ b"] by (simp add: u [simplified])
  moreover have "NUL \<notin> set (a @ octal_byte x y z # z # b @ drop (length b) (y # z # b))"
    using assms(2,6) nz by (auto dest: in_set_dropD)
  ultimately show ?thesis unfolding unescape_fstab_def using takeWhile_no_NUL by metis
qed

section \<open>What is read of a file\<close>

lemma slurp_fd_one:
  assumes "\<And>n. can_alloc n" and "length doc \<le> READ_CHUNK_ADD - READ_CHUNK_MIN" and "NUL \<notin> set doc"
  shows "slurp_fd can_alloc fresh [Inr doc] = Inr doc"
  using assms takeWhile_no_NUL [of doc]
  by (simp add: slurp_fd_def slurp_loop.simps slurp_grow_def slurp_block_def slurp_result_def READ_CHUNK_ADD_def READ_CHUNK_MIN_def)

text \<open>A file that needs two reads: the second block is written over the first.\<close>

lemma slurp_fd_two:
  assumes "\<And>n. can_alloc n" and "length a = READ_CHUNK_ADD" and "b \<noteq> []" and "length b \<le> READ_CHUNK_ADD" and "NUL \<notin> set b"
  shows "\<exists>rest. slurp_fd can_alloc fresh [Inr a, Inr b] = Inr (b @ rest)"
proof -
  let ?b1 = "\<lparr>sl_buf = a @ drop READ_CHUNK_ADD (take (READ_CHUNK_ADD + 1) (fresh 0)), sl_len = READ_CHUNK_ADD, sl_remain = 0\<rparr>"
  let ?b2 = "slurp_block b (slurp_grow fresh ?b1)"
  have a: "a \<noteq> []" using assms(2) by (auto simp: READ_CHUNK_ADD_def)
  have g: "slurp_block a (slurp_grow fresh \<lparr>sl_buf = [], sl_len = 0, sl_remain = 0\<rparr>) = ?b1"
    using assms(2) by (simp add: slurp_grow_def slurp_block_def READ_CHUNK_ADD_def READ_CHUNK_MIN_def)
  have "slurp_fd can_alloc fresh [Inr a, Inr b] = slurp_loop can_alloc fresh [Inr b] ?b1"
    unfolding slurp_fd_def g [symmetric] using assms(1) a by (subst slurp_loop.simps) simp
  also have "\<dots> = slurp_loop can_alloc fresh [] ?b2"
    using assms(1,3) by (subst slurp_loop.simps) simp
  also have "\<dots> = Inr (slurp_result (slurp_grow fresh ?b2))"
    using assms(1) by (subst slurp_loop.simps) simp
  finally have s: "slurp_fd can_alloc fresh [Inr a, Inr b] = Inr (slurp_result (slurp_grow fresh ?b2))" .
  have "\<exists>t. take (sl_len (slurp_grow fresh ?b2) - sl_remain (slurp_grow fresh ?b2)) (sl_buf (slurp_grow fresh ?b2)) = b @ t"
    using assms(2,4) by (auto simp: slurp_grow_def slurp_block_def READ_CHUNK_ADD_def READ_CHUNK_MIN_def)
  then obtain t where "slurp_result (slurp_grow fresh ?b2) = takeWhile (\<lambda>c. c \<noteq> NUL) (b @ t)" by (auto simp: slurp_result_def)
  then have "slurp_result (slurp_grow fresh ?b2) = b @ takeWhile (\<lambda>c. c \<noteq> NUL) t" using takeWhile_NUL_append [OF assms(5)] by simp
  then show ?thesis unfolding s by simp
qed

section \<open>Arguments in their order\<close>

definition print_arg :: "string \<times> string option \<Rightarrow> string" where
  "print_arg = (\<lambda>(key, val). key @ (case val of None \<Rightarrow> [] | Some v \<Rightarrow> ''='' @ v))"

definition print_args :: "(string \<times> string option) list \<Rightarrow> string" where
  "print_args as = concat (map (\<lambda>a. print_arg a @ '' '') as)"

definition plain_text :: "string \<Rightarrow> bool" where
  "plain_text s \<longleftrightarrow> (\<forall>c \<in> set s. \<not> isspace c \<and> c \<noteq> DQUOTE)"

definition plain_arg :: "string \<times> string option \<Rightarrow> bool" where
  "plain_arg = (\<lambda>(key, val). key \<noteq> [] \<and> plain_text key \<and> CHR ''='' \<notin> set key \<and> (case val of None \<Rightarrow> True | Some v \<Rightarrow> plain_text v))"

lemma arg_split_plain: "plain_text t \<Longrightarrow> isspace c \<Longrightarrow> arg_split False (t @ c # rest) = (t, c # rest)"
  by (induction t) (auto simp: plain_text_def)

lemma isspace_blank: "isspace (CHR '' '')"
  by (simp add: char_class)

lemma plain_equals: "\<not> isspace (CHR ''='') \<and> CHR ''='' \<noteq> DQUOTE"
  by code_simp

lemma plain_print: "plain_arg a \<Longrightarrow> plain_text (print_arg a) \<and> print_arg a \<noteq> []"
  using plain_equals by (cases a; cases "snd a") (auto simp: plain_arg_def print_arg_def plain_text_def)

lemma get_arg_print:
  assumes "plain_arg (key, val)"
  shows "get_arg (print_arg (key, val) @ '' '' @ rest) = ((key, val), skipws rest)"
proof -
  have p: "plain_text (print_arg (key, val))" "print_arg (key, val) \<noteq> []" using plain_print [OF assms] by simp_all
  have s: "arg_split False (print_arg (key, val) @ '' '' @ rest) = (print_arg (key, val), '' '' @ rest)"
    using arg_split_plain [OF p(1) isspace_blank] by simp
  have q: "last (print_arg (key, val)) \<noteq> DQUOTE" using p last_in_set [OF p(2)] by (auto simp: plain_text_def)
  have k: "key \<noteq> []" "hd key \<noteq> DQUOTE" "CHR ''='' \<notin> set key" using assms by (auto simp: plain_arg_def plain_text_def)
  have tw: "takeWhile (\<lambda>c. c \<noteq> CHR ''='') key = key" using k(3) by (induction key) auto
  show ?thesis
  proof (cases val)
    case None
    then show ?thesis using s q k(1,2) by (simp add: get_arg_def Let_def print_arg_def unquote_def tw k(3))
  next
    case (Some v)
    have "v = [] \<or> hd v \<noteq> DQUOTE" using assms Some by (cases v) (auto simp: plain_arg_def plain_text_def)
    moreover have "takeWhile (\<lambda>c. c \<noteq> CHR ''='') (key @ ''='' @ v) = key" "dropWhile (\<lambda>c. c \<noteq> CHR ''='') (key @ ''='' @ v) = ''='' @ v"
      using k(3) by (induction key) auto
    ultimately show ?thesis using s q k Some by (auto simp: get_arg_def Let_def print_arg_def unquote_def)
  qed
qed

lemma skipws_print: "plain_arg a \<Longrightarrow> skipws (print_arg a @ s) = print_arg a @ s"
  using plain_print [of a] by (cases "print_arg a") (auto simp: skipws_def plain_text_def)

text \<open>The arguments are handed to the parser one after the other.\<close>

lemma parse_args_print:
  assumes "list_all plain_arg as" and "\<And>key val s. \<not> fst (parse key val s)"
  shows "parse_args parse (print_args as) s = fold (\<lambda>(key, val) s. snd (parse key val s)) as s"
  using assms(1)
proof (induction as arbitrary: s)
  case Nil
  then show ?case by (simp add: parse_args_def print_args_def skipws_def parse_loop.simps)
next
  case (Cons a as)
  obtain key val where a: "a = (key, val)" by fastforce
  have pa: "plain_arg (key, val)" using Cons.prems a by simp
  obtain c t where ct: "print_arg a = c # t" "\<not> isspace c" using plain_print [OF pa] a by (cases "print_arg a") (auto simp: plain_text_def)
  have sk: "skipws (print_args (a # as)) = print_arg a @ '' '' @ print_args as"
    using skipws_print [of a] pa a by (simp add: print_args_def)
  obtain stop s1 where st: "parse key val s = (stop, s1)" by fastforce
  then have "\<not> stop" using assms(2) [of key val s] by simp
  then have "parse_loop parse (print_arg a @ '' '' @ print_args as) s = parse_loop parse (skipws (print_args as)) s1"
    using get_arg_print [OF pa, of "print_args as"] ct st a by (subst parse_loop.simps) auto
  then have "parse_args parse (print_args (a # as)) s = parse_args parse (print_args as) s1" unfolding parse_args_def sk .
  then show ?case using Cons st a by simp
qed

section \<open>The last time-out\<close>

lemma digit_val_digit: "isdigit c \<Longrightarrow> digit_val c = ord c - 48"
  by (simp add: digit_val_def hex2int_def)

lemma is_num_digit_10: "isdigit c \<Longrightarrow> is_num_digit 10 c"
  by (auto simp: is_num_digit_def digit_val_digit isxdigit_def isdigit_def)

lemma num_val_dec: "\<forall>c \<in> set s. isdigit c \<Longrightarrow> num_val 10 s = dec_val s"
proof (induction s rule: rev_induct)
  case (snoc c s)
  then have "num_val 10 (s @ [c]) = 10 * num_val 10 s + (ord c - 48)" by (simp add: num_val_def digit_val_digit)
  then show ?case using snoc by simp
qed (simp add: num_val_def dec_val_def)

text \<open>A decimal number does not begin with a zero, unless it is zero.\<close>

lemma dec_of_nat_hd: "0 < n \<Longrightarrow> hd (dec_of_nat n) \<noteq> CHR ''0''"
proof (induction n rule: dec_of_nat.induct)
  case (1 n)
  show ?case
  proof (cases "n < 10")
    case True
    then have "dec_of_nat n = [chr (48 + n)]" by (subst dec_of_nat.simps) simp
    moreover have "ord (chr (48 + n)) \<noteq> ord (CHR ''0'')" using True 1(2) by (simp add: ord_def [of "CHR ''0''"])
    ultimately show ?thesis by auto
  next
    case False
    then have "dec_of_nat n = dec_of_nat (n div 10) @ [chr (48 + n mod 10)]" by (subst dec_of_nat.simps) simp
    then show ?thesis using 1(1) False by simp
  qed
qed

lemma strtoul_base0_dec:
  assumes "0 < n" and "n \<le> ULONG_MAX"
  shows "strtoul_base0 (dec_of_nat n) = (of_nat n, True)"
proof -
  obtain c cs where d: "dec_of_nat n = c # cs" "isdigit c" by (rule dec_of_nat_Cons)
  have dig: "\<forall>x \<in> set (c # cs). isdigit x" using dec_of_nat_digits [of n] d by simp
  have c: "c \<noteq> CHR ''0''" "\<not> isspace c" "c \<noteq> CHR ''-''" "c \<noteq> CHR ''+''"
    using dec_of_nat_hd [OF assms(1)] d by (auto simp: isdigit_not_space char_class)
  have "dropWhile isspace (c # cs) = c # cs" "skip_sign (c # cs) = c # cs" "num_base (c # cs) = (10, c # cs)"
    using c by (simp_all add: skip_sign_def num_base_def)
  moreover have "takeWhile (is_num_digit 10) (c # cs) = c # cs" "dropWhile (is_num_digit 10) (c # cs) = []"
    using dig is_num_digit_10 by (simp_all add: takeWhile_eq_all_conv dropWhile_eq_Nil_conv)
  moreover have "num_val 10 (c # cs) = n" using num_val_dec [OF dig] dec_val_dec_of_nat [of n] d by simp
  ultimately show ?thesis using assms(2) c(3) by (simp only: d strtoul_base0_def Let_def prod.case) simp
qed

lemma get_timeout_other: "key \<noteq> ''rd.timeout'' \<Longrightarrow> snd (get_timeout key val t) = t"
  by (simp add: get_timeout_def split: option.split)

lemma fold_other: "\<forall>(key, val) \<in> set as. key \<noteq> ''rd.timeout'' \<Longrightarrow> fold (\<lambda>(key, val) s. snd (get_timeout key val s)) as t = t"
  by (induction as arbitrary: t) (auto simp: get_timeout_other)

lemma last_timeout:
  assumes "list_all plain_arg (as1 @ as2)" and "\<forall>(key, val) \<in> set as2. key \<noteq> ''rd.timeout''" and "0 < n" "n \<le> ULONG_MAX"
  shows "parse_args get_timeout (print_args (as1 @ (''rd.timeout'', Some (dec_of_nat n)) # as2)) t = of_nat n"
proof -
  have p: "plain_text (dec_of_nat n)" using dec_of_nat_digits [of n] by (auto simp: plain_text_def char_class char_consts)
  have k: "''rd.timeout'' \<noteq> []" "plain_text ''rd.timeout''" "CHR ''='' \<notin> set ''rd.timeout''" by (simp, code_simp, simp)
  then have "plain_arg (''rd.timeout'', Some (dec_of_nat n))" using p by (simp add: plain_arg_def)
  then have "list_all plain_arg (as1 @ (''rd.timeout'', Some (dec_of_nat n)) # as2)" using assms(1) by simp
  from parse_args_print [OF this, of get_timeout t]
  have "parse_args get_timeout (print_args (as1 @ (''rd.timeout'', Some (dec_of_nat n)) # as2)) t =
      fold (\<lambda>(key, val) s. snd (get_timeout key val s)) (as1 @ (''rd.timeout'', Some (dec_of_nat n)) # as2) t"
    by (simp add: get_timeout_def)
  also have "\<dots> = of_nat n" using fold_other [OF assms(2)] strtoul_base0_dec [OF assms(3,4)] by (simp add: get_timeout_def)
  finally show ?thesis .
qed

section \<open>The files written\<close>

text \<open>An environment in which every call succeeds: the files written, with their contents.\<close>

definition log_conf :: "(string \<Rightarrow> string) \<Rightarrow> bool \<Rightarrow> (string \<times> string) list conf_env" where
  "log_conf encode signed_char =
     \<lparr>cf_mkdir = (\<lambda>path s. (None, s)), cf_fopen = (\<lambda>path s. (None, s)), cf_fprintf = (\<lambda>path content s. (None, s @ [(path, content)])),
      cf_fclose = (\<lambda>path s. (None, s)), cf_encode = encode, cf_signed_char = signed_char\<rparr>"

definition conf_file :: "bool \<Rightarrow> string \<Rightarrow> 64 word \<Rightarrow> string \<Rightarrow> string \<times> string" where
  "conf_file signed_char unitdir timeout device =
     (unitdir @ ''/'' @ unit_name signed_char device @ ''.device.d/timeout.conf'',
      ''[Unit]'' @ [NL] @ ''JobTimeoutSec='' @ dec_of_nat (unat timeout) @ [NL])"

definition memory_ok :: "file_env \<Rightarrow> bool" where
  "memory_ok env \<longleftrightarrow> (\<forall>n. fe_can_alloc env n \<and> length (fe_fresh env n) = n)"

lemma create_conf_log:
  assumes "memory_ok mem" and "evaluate_spec encode spec = Some device" and "device \<noteq> []" and "NUL \<notin> set device"
  shows "create_conf (log_conf encode sc) mem unitdir timeout spec s = (Inr True, s @ [conf_file sc unitdir timeout device])"
proof -
  have "path_escape sc (fe_can_alloc mem) (fe_fresh mem) device = Inr (Some (unit_name sc device))"
    using assms path_escape_unit_name [of device "fe_fresh mem" sc] by (simp add: path_escape_def memory_ok_def)
  then show ?thesis
    using assms(1,2) by (simp add: create_conf_def log_conf_def write_conf_def conf_file_def memory_ok_def Let_def)
qed

lemma create_confs_log:
  assumes "memory_ok mem"
    and "\<forall>(spec, mp) \<in> set fstab. prefix KDUMP_DIR mp \<longrightarrow> evaluate_spec encode (unescape_fstab spec) = Some (dev spec) \<and>
      dev spec \<noteq> [] \<and> NUL \<notin> set (dev spec)"
  shows "create_confs (log_conf encode sc) mem unitdir timeout fstab s =
    (Inr (), s @ map (\<lambda>(spec, mp). conf_file sc unitdir timeout (dev spec)) (filter (\<lambda>(spec, mp). prefix KDUMP_DIR mp) fstab))"
  using assms(2)
proof (induction fstab arbitrary: s)
  case (Cons e fstab)
  obtain spec mp where e: "e = (spec, mp)" by fastforce
  show ?case
  proof (cases "prefix KDUMP_DIR mp")
    case True
    then have "create_conf (log_conf encode sc) mem unitdir timeout (unescape_fstab spec) s = (Inr True, s @ [conf_file sc unitdir timeout (dev spec)])"
      using Cons.prems e by (intro create_conf_log [OF assms(1)]) auto
    then show ?thesis using Cons e True by simp
  qed (use Cons e in simp)
qed simp

section \<open>The units of an fstab\<close>

text \<open>
  The entries of \<^verbatim>\<open>fstab\<close> that the generator understands, and the components of the path of their device: a path without
  duplicate slashes, or one of the five tags of \<^verbatim>\<open>udev\<close> with a value, in quotes or not. There is no backslash in them,
  because \<open>unescape_fstab\<close> does not undo escapes correctly, and no equals sign in a path, which would count as a tag.
\<close>

definition device_tags :: "(string \<times> string) list" where
  "device_tags = [(''LABEL'', ''by-label''), (''UUID'', ''by-uuid''), (''PARTLABEL'', ''by-partlabel''),
     (''PARTUUID'', ''by-partuuid''), (''ID'', ''by-id'')]"

definition device_path :: "string list \<Rightarrow> string" where
  "device_path cs = concat (map (\<lambda>c. SLASH # c) cs)"

inductive names_device :: "(string \<Rightarrow> string) \<Rightarrow> string \<Rightarrow> string list \<Rightarrow> bool" for encode where
  device_by_path: "\<forall>c \<in> set cs. CHR ''='' \<notin> set c \<and> BSLASH \<notin> set c \<Longrightarrow> names_device encode (device_path cs) cs"
| device_by_tag: "(tag, dir) \<in> set device_tags \<Longrightarrow> v \<noteq> [] \<Longrightarrow> hd v \<noteq> DQUOTE \<Longrightarrow> hd v \<noteq> SQUOTE \<Longrightarrow>
    BSLASH \<notin> set v \<Longrightarrow> NUL \<notin> set v \<Longrightarrow> names_device encode (tag @ ''='' @ v) [''dev'', ''disk'', dir, encode v]"
| device_by_quoted: "(tag, dir) \<in> set device_tags \<Longrightarrow> q = DQUOTE \<or> q = SQUOTE \<Longrightarrow> BSLASH \<notin> set v \<Longrightarrow> NUL \<notin> set v \<Longrightarrow>
    names_device encode (tag @ ''='' @ [q] @ v @ [q]) [''dev'', ''disk'', dir, encode v]"

text \<open>The components of a path that has a unit: not empty, of ASCII characters, the first without a dot at its beginning.\<close>

definition unit_path :: "string list \<Rightarrow> bool" where
  "unit_path cs \<longleftrightarrow> cs \<noteq> [] \<and> hd (hd cs) \<noteq> CHR ''.'' \<and>
     (\<forall>c \<in> set cs. c \<noteq> [] \<and> (\<forall>x \<in> set c. x \<noteq> SLASH \<and> x \<noteq> NUL \<and> ord x < 128))"

text \<open>The name that \<^verbatim>\<open>systemd\<close> documents: the components with hyphens between them, everything else as \<^verbatim>\<open>\xhh\<close>.\<close>

definition unit_escape :: "char \<Rightarrow> string" where
  "unit_escape x =
     (if isalpha x \<or> isdigit x \<or> x \<in> {CHR '':'', CHR ''_'', CHR ''.''} then [x]
      else [BSLASH, CHR ''x'', ''0123456789abcdef'' ! (ord x div 16), ''0123456789abcdef'' ! (ord x mod 16)])"

definition unit_of :: "string list \<Rightarrow> string" where
  "unit_of cs = tl (concat (map (\<lambda>c. ''-'' @ concat (map unit_escape c)) cs))"

lemma hex_digit_char_eq:
  assumes "unat d < 16"
  shows "hex_digit_char d = ''0123456789abcdef'' ! unat d"
proof -
  have "list_all (\<lambda>n. hex_digit_char (of_nat n) = ''0123456789abcdef'' ! n) [0..<16]" by code_simp
  then have "hex_digit_char (of_nat (unat d)) = ''0123456789abcdef'' ! unat d" using assms by (simp add: list_all_iff del: of_nat_unat)
  then show ?thesis by simp
qed

lemma hex_escape_ascii:
  assumes "ord x < 128"
  shows "hex_escape sc x = [BSLASH, CHR ''x'', ''0123456789abcdef'' ! (ord x div 16), ''0123456789abcdef'' ! (ord x mod 16)]"
proof -
  have c: "c_unsigned sc x = of_nat (ord x)"
    using assms by (auto simp: c_unsigned_def signed_take_bit_int_eq_self)
  have "ord x mod 4294967296 = ord x" using assms by (intro mod_less) linarith
  then have u: "unat (c_unsigned sc x) = ord x" by (simp add: c unat_of_nat)
  have hi: "unat (drop_bit 4 (c_unsigned sc x)) = ord x div 16" by (simp add: drop_bit_eq_div unat_div_distrib u)
  have "c_unsigned sc x AND 15 = take_bit 4 (c_unsigned sc x)" by (simp add: take_bit_eq_mask mask_eq_exp_minus_1)
  then have lo: "unat (c_unsigned sc x AND 15) = ord x mod 16" by (simp add: take_bit_eq_mod unat_mod_distrib u)
  have "ord x div 16 < 16" using assms by simp
  then show ?thesis unfolding hex_escape_def using hi lo by (simp add: hex_digit_char_eq)
qed

lemma escape_char_ascii: "x \<noteq> SLASH \<Longrightarrow> ord x < 128 \<Longrightarrow> escape_char sc x = unit_escape x"
  by (simp add: escape_char_def safe_unit_char_def unit_escape_def hex_escape_ascii)

lemma dedup_component: "SLASH \<notin> set c \<Longrightarrow> dedup_slashes (c @ r) = c @ dedup_slashes r"
  by (induction c) (auto simp: slash_kept_def)

lemma dedup_device_path: "\<forall>c \<in> set cs. c \<noteq> [] \<and> SLASH \<notin> set c \<Longrightarrow> dedup_slashes (device_path cs) = device_path cs"
proof (induction cs)
  case (Cons c cs)
  then have "slash_kept SLASH (c @ device_path cs)" by (cases c) (auto simp: slash_kept_def)
  then show ?case using Cons dedup_component [of c "device_path cs"] by (simp add: device_path_def)
qed (simp add: device_path_def)

text \<open>The code computes the documented name.\<close>

lemma unit_name_device:
  assumes "unit_path cs"
  shows "unit_name sc (device_path cs) = unit_of cs"
proof -
  obtain c cs' where cs: "cs = c # cs'" using assms by (cases cs) (auto simp: unit_path_def)
  have comp: "concat (map (escape_char sc) d) = concat (map unit_escape d)" if "d \<in> set cs" for d
    using assms that by (auto simp: unit_path_def escape_char_ascii intro!: arg_cong [where f = concat])
  have rest: "concat (map (escape_char sc) (device_path ds)) = concat (map (\<lambda>c. ''-'' @ concat (map unit_escape c)) ds)"
    if "set ds \<subseteq> set cs" for ds
    using that comp by (induction ds) (auto simp: device_path_def escape_char_def)
  have c: "c \<noteq> []" "hd c \<noteq> CHR ''.''" using assms cs by (auto simp: unit_path_def)
  have "\<forall>c \<in> set cs. c \<noteq> [] \<and> SLASH \<notin> set c" using assms by (auto simp: unit_path_def)
  from dedup_device_path [OF this] have "dedup_slashes (device_path cs) = SLASH # c @ device_path cs'"
    by (simp only: cs device_path_def list.map concat.simps append_Cons)
  then have "unit_name sc (device_path cs) = concat (map (escape_char sc) c) @ concat (map (escape_char sc) (device_path cs'))"
    using c by (simp add: unit_name_def)
  then show ?thesis using comp [of c] rest [of cs'] by (auto simp: cs unit_of_def)
qed

lemma device_tags_lower:
  assumes "(tag, dir) \<in> set device_tags"
  shows "DEV_PREFIX @ map tolower tag @ ''/'' @ w = device_path [''dev'', ''disk'', dir, w]" and "CHR ''='' \<notin> set tag"
    and "BSLASH \<notin> set tag" and "NUL \<notin> set tag"
proof -
  have "list_all (\<lambda>(tag, dir). DEV_PREFIX @ map tolower tag = device_path [''dev'', ''disk'', dir] \<and>
      CHR ''='' \<notin> set tag \<and> BSLASH \<notin> set tag \<and> NUL \<notin> set tag) device_tags"
    by code_simp
  then have "DEV_PREFIX @ map tolower tag = device_path [''dev'', ''disk'', dir] \<and> CHR ''='' \<notin> set tag \<and>
      BSLASH \<notin> set tag \<and> NUL \<notin> set tag"
    using assms by (auto simp: list_all_iff)
  then show "DEV_PREFIX @ map tolower tag @ ''/'' @ w = device_path [''dev'', ''disk'', dir, w]" and "CHR ''='' \<notin> set tag"
    and "BSLASH \<notin> set tag" and "NUL \<notin> set tag"
    by (simp_all add: device_path_def SLASH_def flip: append_assoc)
qed

lemma evaluate_spec_names:
  assumes "names_device encode spec cs" and "unit_path cs"
  shows "evaluate_spec encode (unescape_fstab spec) = Some (device_path cs)"
  using assms(1)
proof (cases rule: names_device.cases)
  case device_by_path
  have "BSLASH \<notin> set spec" "NUL \<notin> set spec" "CHR ''='' \<notin> set spec"
    using device_by_path assms(2) by (auto simp: device_path_def unit_path_def char_consts SLASH_def)
  moreover from this(3) have "find_char (CHR ''='') spec = None" by simp
  ultimately show ?thesis using device_by_path(1) by (simp add: unescape_fstab_plain evaluate_spec_def del: find_char_None_iff)
next
  case (device_by_tag tag dir v)
  note t = device_tags_lower [OF device_by_tag(3)]
  have "BSLASH \<notin> set spec" "NUL \<notin> set spec" using device_by_tag t by (auto simp: char_consts)
  moreover have "find_char (CHR ''='') spec = Some (length tag)" using device_by_tag(1) t(2) by (simp add: find_char_append_Some)
  ultimately show ?thesis
    using device_by_tag t(1) by (simp add: unescape_fstab_plain evaluate_spec_def Let_def)
next
  case (device_by_quoted tag dir q v)
  note t = device_tags_lower [OF device_by_quoted(3)]
  have "BSLASH \<notin> set spec" "NUL \<notin> set spec" using device_by_quoted t by (auto simp: char_consts)
  moreover have "find_char (CHR ''='') spec = Some (length tag)" using device_by_quoted(1) t(2) by (simp add: find_char_append_Some)
  moreover have "rfind_char q (v @ [q]) = Some (length v)" using rfind_char_append_Some [of q "[]" v] by simp
  ultimately show ?thesis
    using device_by_quoted t(1) by (auto simp: unescape_fstab_plain evaluate_spec_def Let_def)
qed

lemma conf_file_device:
  assumes "unit_path cs" and "n \<le> ULONG_MAX"
  shows "conf_file sc unitdir (of_nat n) (device_path cs) =
    (unitdir @ ''/'' @ unit_of cs @ ''.device.d/timeout.conf'', ''[Unit]'' @ [NL] @ ''JobTimeoutSec='' @ dec_of_nat n @ [NL])"
proof -
  have "unat (of_nat n :: 64 word) = n" using assms(2) by (simp add: unat_of_nat ULONG_MAX_def)
  then show ?thesis using unit_name_device [OF assms(1)] by (simp add: conf_file_def)
qed

text \<open>The files written for a whole \<^verbatim>\<open>fstab\<close>.\<close>

lemma create_confs_units:
  assumes "memory_ok mem" and "n \<le> ULONG_MAX"
    and "\<forall>(spec, mp) \<in> set fstab. prefix KDUMP_DIR mp \<longrightarrow> names_device encode spec (dev spec) \<and> unit_path (dev spec)"
  shows "create_confs (log_conf encode sc) mem unitdir (of_nat n) fstab s =
    (Inr (), s @ map (\<lambda>(spec, mp). (unitdir @ ''/'' @ unit_of (dev spec) @ ''.device.d/timeout.conf'',
      ''[Unit]'' @ [NL] @ ''JobTimeoutSec='' @ dec_of_nat n @ [NL])) (filter (\<lambda>(spec, mp). prefix KDUMP_DIR mp) fstab))"
proof -
  have nul: "device_path cs \<noteq> [] \<and> NUL \<notin> set (device_path cs)" if "unit_path cs" for cs
    using that by (cases cs) (auto simp: device_path_def unit_path_def char_consts SLASH_def)
  have e: "\<forall>(spec, mp) \<in> set fstab. prefix KDUMP_DIR mp \<longrightarrow> evaluate_spec encode (unescape_fstab spec) = Some (device_path (dev spec)) \<and>
      device_path (dev spec) \<noteq> [] \<and> NUL \<notin> set (device_path (dev spec))"
    using assms(3) evaluate_spec_names nul by fast
  have "map (\<lambda>(spec, mp). conf_file sc unitdir (of_nat n) (device_path (dev spec))) (filter (\<lambda>(spec, mp). prefix KDUMP_DIR mp) fstab) =
      map (\<lambda>(spec, mp). (unitdir @ ''/'' @ unit_of (dev spec) @ ''.device.d/timeout.conf'',
        ''[Unit]'' @ [NL] @ ''JobTimeoutSec='' @ dec_of_nat n @ [NL])) (filter (\<lambda>(spec, mp). prefix KDUMP_DIR mp) fstab)"
    using assms(3) conf_file_device [OF _ assms(2)] by (intro map_cong) (auto split: prod.splits)
  then show ?thesis using create_confs_log [OF assms(1) e] by simp
qed

end
