(* ===== verification/DebugLog.thy ===== *)
theory DebugLog
  imports StringUtil
begin

text \<open>
  \<^verbatim>\<open>debug.cc\<close>: messages with levels, to standard error and to a log file. A message is a format of \<^verbatim>\<open>vfprintf\<close> with a \<^verbatim>\<open>va_list\<close>, which
  is indeterminate once \<^verbatim>\<open>vfprintf\<close> was called with it; the model has no arguments (\<^const>\<open>None\<close>) from then on.
\<close>

section \<open>Formats\<close>

datatype printf_arg = ArgStr string | ArgInt int

type_synonym va_list = "printf_arg list option"

text \<open>Strings, and integers in the decimal or hexadecimal system, with their length modifiers.\<close>

definition printf_conv :: "char \<Rightarrow> printf_arg \<Rightarrow> string res" where
  "printf_conv c arg =
     (case arg of
        ArgStr s \<Rightarrow> if c = CHR ''s'' then Inr s else Inl (Undefined ''argument of the wrong type'')
      | ArgInt i \<Rightarrow>
          if c = CHR ''d'' \<or> c = CHR ''u'' then Inr (dec_of_int i)
          else if c = CHR ''x'' then Inr (hex_of_nat (nat i))
          else if c = CHR ''s'' then Inl (Undefined ''argument of the wrong type'')
          else Inl (Undefined ''conversion outside the model''))"

definition length_modifier :: "char \<Rightarrow> bool" where "length_modifier c \<longleftrightarrow> c = CHR ''l'' \<or> c = CHR ''z''"

function vformat :: "string \<Rightarrow> va_list \<Rightarrow> string res" where
  "vformat [] va = Inr []"
| "vformat (c # fmt) va =
     (if c \<noteq> CHR ''%'' then res_bind (vformat fmt va) (\<lambda>t. Inr (c # t))
      else
        (case dropWhile length_modifier fmt of
           [] \<Rightarrow> Inl (Undefined ''conversion without a letter'')
         | d # rest \<Rightarrow>
             if d = CHR ''%'' then res_bind (vformat rest va) (\<lambda>t. Inr (d # t))
             else
               (case va of
                  None \<Rightarrow> Inl (Undefined ''va_list used again after vfprintf'')
                | Some [] \<Rightarrow> Inl (Undefined ''format without an argument'')
                | Some (arg # args) \<Rightarrow>
                    res_bind (printf_conv d arg) (\<lambda>out. res_bind (vformat rest (Some args)) (\<lambda>t. Inr (out @ t))))))"
  by pat_completeness auto

termination
proof (relation "measure (\<lambda>(fmt, va). length fmt)", goal_cases)
  case (3 c fmt va d rest)
  then show ?case using length_dropWhile_le [of length_modifier fmt] by simp
next
  case (4 c fmt va d rest)
  then show ?case using length_dropWhile_le [of length_modifier fmt] by simp
qed simp_all

section \<open>Levels\<close>

datatype debug_level = DL_TRACE | DL_DEBUG | DL_INFO | DL_NONE

fun level_no :: "debug_level \<Rightarrow> nat" where
  "level_no DL_TRACE = 0"
| "level_no DL_DEBUG = 10"
| "level_no DL_INFO = 20"
| "level_no DL_NONE = 100"

text \<open>The object, with whether a file was set, and what was written to both places.\<close>

record debug =
  dg_stderrLevel :: debug_level
  dg_handle :: bool
  dg_useColor :: bool
  dg_useColorAuto :: bool
  dg_stderr :: string
  dg_file :: string

definition Debug :: debug where
  "Debug = \<lparr>dg_stderrLevel = DL_INFO, dg_handle = False, dg_useColor = False, dg_useColorAuto = True, dg_stderr = [], dg_file = []\<rparr>"

definition setStderrLevel :: "debug_level \<Rightarrow> debug \<Rightarrow> debug" where "setStderrLevel level d = d\<lparr>dg_stderrLevel := level\<rparr>"
definition setFileHandle :: "bool \<Rightarrow> debug \<Rightarrow> debug" where "setFileHandle handle d = d\<lparr>dg_handle := handle\<rparr>"
definition setStderrUseColor :: "bool \<Rightarrow> debug \<Rightarrow> debug" where
  "setStderrUseColor useColor d = d\<lparr>dg_useColor := useColor, dg_useColorAuto := False\<rparr>"

definition isDebugEnabled :: "debug \<Rightarrow> bool" where "isDebugEnabled d \<longleftrightarrow> level_no (dg_stderrLevel d) < level_no DL_INFO"

text \<open>The environment: \<^verbatim>\<open>TERM\<close>, and whether standard error is a terminal.\<close>

record term_env =
  en_term :: "string option"
  en_tty :: bool

definition getStderrUseColor :: "term_env \<Rightarrow> debug \<Rightarrow> bool" where
  "getStderrUseColor env d =
     (if dg_useColorAuto d then (if en_term env = Some ''dumb'' then False else en_tty env) else dg_useColor d)"

definition ESC :: char where "ESC = CHR 0x1B"

fun level_color :: "debug_level \<Rightarrow> string" where
  "level_color DL_TRACE = ESC # ''[32m''"
| "level_color DL_INFO = ESC # ''[31m''"
| "level_color DL_DEBUG = ESC # ''[33m''"
| "level_color DL_NONE = []"

fun level_prefix :: "debug_level \<Rightarrow> string" where
  "level_prefix DL_TRACE = ''TRACE: ''"
| "level_prefix DL_INFO = ''INFO: ''"
| "level_prefix DL_DEBUG = ''DEBUG: ''"
| "level_prefix DL_NONE = []"

definition vmsg :: "term_env \<Rightarrow> debug_level \<Rightarrow> string \<Rightarrow> va_list \<Rightarrow> debug \<Rightarrow> unit res \<times> debug" where
  "vmsg env level msg va d =
     (if level_no level < level_no (dg_stderrLevel d) \<and> \<not> dg_handle d then (Inr (), d)
      else
        let color = getStderrUseColor env d;
            stderrss = (if color then level_color level else []) @ level_prefix level @ msg @ (if color then ESC # ''[0m'' else []) @ [NL];
            filess = level_prefix level @ msg @ [NL];
            shown = level_no (dg_stderrLevel d) \<le> level_no level
        in case (if shown then vformat stderrss va else Inr []) of
             Inl e \<Rightarrow> (Inl e, d)
           | Inr t \<Rightarrow>
               (let d1 = d\<lparr>dg_stderr := dg_stderr d @ t\<rparr>
                in if dg_handle d
                   then (case vformat filess (if shown then None else va) of
                           Inl e \<Rightarrow> (Inl e, d1)
                         | Inr u \<Rightarrow> (Inr (), d1\<lparr>dg_file := dg_file d @ u\<rparr>))
                   else (Inr (), d1)))"

definition debug_msg :: "term_env \<Rightarrow> debug_level \<Rightarrow> string \<Rightarrow> printf_arg list \<Rightarrow> debug \<Rightarrow> unit res \<times> debug" where
  "debug_msg env level msg args d = vmsg env level msg (Some args) d"

definition dbg :: "term_env \<Rightarrow> string \<Rightarrow> printf_arg list \<Rightarrow> debug \<Rightarrow> unit res \<times> debug" where
  "dbg env msg args d = vmsg env DL_DEBUG msg (Some args) d"

definition info :: "term_env \<Rightarrow> string \<Rightarrow> printf_arg list \<Rightarrow> debug \<Rightarrow> unit res \<times> debug" where
  "info env msg args d = vmsg env DL_INFO msg (Some args) d"

definition trace :: "term_env \<Rightarrow> string \<Rightarrow> printf_arg list \<Rightarrow> debug \<Rightarrow> unit res \<times> debug" where
  "trace env msg args d = vmsg env DL_TRACE msg (Some args) d"

text \<open>The overloads for strings pass the string as a format.\<close>

definition dbg_string :: "term_env \<Rightarrow> string \<Rightarrow> debug \<Rightarrow> unit res \<times> debug" where "dbg_string env s d = dbg env s [] d"
definition info_string :: "term_env \<Rightarrow> string \<Rightarrow> debug \<Rightarrow> unit res \<times> debug" where "info_string env s d = info env s [] d"
definition trace_string :: "term_env \<Rightarrow> string \<Rightarrow> debug \<Rightarrow> unit res \<times> debug" where "trace_string env s d = trace env s [] d"

text \<open>The part of \<open>KdumpTool::parseCommandline\<close> that sets the object up; \<open>log_opens\<close> is whether the log file can be opened.\<close>

definition setup_debug :: "term_env \<Rightarrow> bool \<Rightarrow> bool \<Rightarrow> bool \<Rightarrow> debug \<Rightarrow> unit res \<times> debug" where
  "setup_debug env logFile debugEnabled log_opens d =
     (if logFile \<and> debugEnabled
      then dbg env ''STARTUP ----------------------------------'' [] (if log_opens then setFileHandle True d else d)
      else if debugEnabled then (Inr (), setStderrLevel DL_TRACE d)
      else (Inr (), d))"

section \<open>What is written\<close>

declare vformat.simps(2) [simp del]

lemma vformat_char: "c \<noteq> CHR ''%'' \<Longrightarrow> vformat (c # fmt) va = res_bind (vformat fmt va) (\<lambda>t. Inr (c # t))"
  by (simp add: vformat.simps(2))

text \<open>A conversion, once its letter is known.\<close>

definition convert :: "char \<Rightarrow> string \<Rightarrow> va_list \<Rightarrow> string res" where
  "convert d rest va =
     (if d = CHR ''%'' then res_bind (vformat rest va) (\<lambda>t. Inr (d # t))
      else (case va of
              None \<Rightarrow> Inl (Undefined ''va_list used again after vfprintf'')
            | Some [] \<Rightarrow> Inl (Undefined ''format without an argument'')
            | Some (arg # args) \<Rightarrow> res_bind (printf_conv d arg) (\<lambda>out. res_bind (vformat rest (Some args)) (\<lambda>t. Inr (out @ t)))))"

lemma vformat_percent:
  "vformat (CHR ''%'' # fmt) va =
     (case dropWhile length_modifier fmt of [] \<Rightarrow> Inl (Undefined ''conversion without a letter'') | d # rest \<Rightarrow> convert d rest va)"
  by (simp add: vformat.simps(2) convert_def cong: list.case_cong)

lemma vformat_plain_append: "CHR ''%'' \<notin> set a \<Longrightarrow> vformat (a @ b) va = res_bind (vformat b va) (\<lambda>t. Inr (a @ t))"
proof (induction a)
  case Nil
  then show ?case by (cases "vformat b va") simp_all
next
  case (Cons c a)
  then have "c \<noteq> CHR ''%''" by auto
  with Cons show ?case by (cases "vformat b va") (simp_all add: vformat_char)
qed

lemma vformat_plain: "CHR ''%'' \<notin> set a \<Longrightarrow> vformat a va = Inr a"
  using vformat_plain_append [of a "[]" va] by simp

lemma drop_modifiers_append:
  "dropWhile length_modifier fmt = d # rest \<Longrightarrow> dropWhile length_modifier (fmt @ b) = d # rest @ b"
  by (induction fmt) (auto split: if_splits)

lemma convert_append:
  assumes "convert d rest va \<noteq> Inl (Undefined ''conversion without a letter'')"
    and IH: "\<And>v. vformat rest v \<noteq> Inl (Undefined ''conversion without a letter'') \<Longrightarrow> vformat (rest @ b) v = res_bind (vformat rest v) (\<lambda>t. Inr (t @ b))"
  shows "convert d (rest @ b) va = res_bind (convert d rest va) (\<lambda>t. Inr (t @ b))"
proof (cases "d = CHR ''%''")
  case True
  then show ?thesis using assms(1) IH [of va] by (cases "vformat rest va") (simp_all add: convert_def)
next
  case False
  show ?thesis
  proof (cases va)
    case (Some as)
    show ?thesis
    proof (cases as)
      case (Cons arg args)
      then show ?thesis using assms(1) IH [of "Some args"] False Some
        by (cases "printf_conv d arg"; cases "vformat rest (Some args)") (simp_all add: convert_def)
    qed (simp add: convert_def False Some)
  qed (simp add: convert_def False)
qed

text \<open>Text after a format that was printed is printed after it; a format that fails still fails with text after it.\<close>

lemma vformat_append:
  "CHR ''%'' \<notin> set b \<Longrightarrow> vformat a va \<noteq> Inl (Undefined ''conversion without a letter'') \<Longrightarrow>
   vformat (a @ b) va = res_bind (vformat a va) (\<lambda>t. Inr (t @ b))"
proof (induction a arbitrary: va rule: length_induct)
  case (1 a)
  show ?case
  proof (cases a)
    case Nil
    with 1 show ?thesis by (simp add: vformat_plain)
  next
    case (Cons c fmt)
    show ?thesis
    proof (cases "c = CHR ''%''")
      case False
      then have "vformat fmt va \<noteq> Inl (Undefined ''conversion without a letter'')" using 1(3) by (auto simp: Cons vformat_char)
      then have "vformat (fmt @ b) va = res_bind (vformat fmt va) (\<lambda>t. Inr (t @ b))" using 1 by (simp add: Cons)
      with False show ?thesis by (cases "vformat fmt va") (simp_all add: Cons vformat_char)
    next
      case True
      with 1(3) obtain d rest where d: "dropWhile length_modifier fmt = d # rest" by (auto simp: Cons vformat_percent split: list.splits)
      then have l: "length rest < length a" using length_dropWhile_le [of length_modifier fmt] by (simp add: Cons)
      have "convert d rest va \<noteq> Inl (Undefined ''conversion without a letter'')" using 1(3) d by (simp add: Cons True vformat_percent)
      then have "convert d (rest @ b) va = res_bind (convert d rest va) (\<lambda>t. Inr (t @ b))"
        by (rule convert_append) (use 1(1,2) l in blast)
      then show ?thesis
        by (simp add: Cons True vformat_percent d drop_modifiers_append [OF d])
    qed
  qed
qed

text \<open>
  A message below the level is not written; otherwise the text of its format goes to standard error, between its prefix and a newline, when there is no log file,
  and only to the log file when it is below the level of standard error.
\<close>

definition log_line :: "term_env \<Rightarrow> debug \<Rightarrow> debug_level \<Rightarrow> string \<Rightarrow> string" where
  "log_line env d level t =
     (if getStderrUseColor env d then level_color level @ level_prefix level @ t @ ESC # ''[0m'' @ [NL] else level_prefix level @ t @ [NL])"

lemma level_plain: "CHR ''%'' \<notin> set (level_color level)" "CHR ''%'' \<notin> set (level_prefix level)"
  by (cases level; simp add: ESC_def)+

lemma format_line:
  assumes "vformat msg va = Inr t" and "CHR ''%'' \<notin> set a" and "CHR ''%'' \<notin> set b"
  shows "vformat (a @ msg @ b) va = Inr (a @ t @ b)"
  using assms vformat_append [of b msg va] by (simp add: vformat_plain_append)

lemma format_line_Inl:
  assumes "vformat msg va = Inl e" and "e \<noteq> Undefined ''conversion without a letter''" and "CHR ''%'' \<notin> set a" and "CHR ''%'' \<notin> set b"
  shows "vformat (a @ msg @ b) va = Inl e"
  using assms vformat_append [of b msg va] by (simp add: vformat_plain_append)

lemma vmsg_silent: "level_no level < level_no (dg_stderrLevel d) \<Longrightarrow> \<not> dg_handle d \<Longrightarrow> vmsg env level msg va d = (Inr (), d)"
  by (simp add: vmsg_def)

lemma stderr_format:
  assumes "vformat msg va = Inr t"
  shows "vformat ((if getStderrUseColor env d then level_color level else []) @ level_prefix level @ msg @
      (if getStderrUseColor env d then ESC # ''[0m'' else []) @ [NL]) va = Inr (log_line env d level t)"
proof (cases "getStderrUseColor env d")
  case True
  then show ?thesis
    using format_line [OF assms, of "level_color level @ level_prefix level" "ESC # ''[0m'' @ [NL]"] level_plain [of level]
    by (simp add: log_line_def ESC_def NL_def)
next
  case False
  then show ?thesis
    using format_line [OF assms, of "level_prefix level" "[NL]"] level_plain [of level] by (simp add: log_line_def NL_def)
qed

lemma vmsg_stderr:
  assumes "vformat msg (Some args) = Inr t" and "level_no (dg_stderrLevel d) \<le> level_no level" and "\<not> dg_handle d"
  shows "vmsg env level msg (Some args) d = (Inr (), d\<lparr>dg_stderr := dg_stderr d @ log_line env d level t\<rparr>)"
  using assms(2,3) stderr_format [OF assms(1), of env d level] by (simp add: vmsg_def Let_def)

lemma vmsg_file:
  assumes "vformat msg (Some args) = Inr t" and "level_no level < level_no (dg_stderrLevel d)" and "dg_handle d"
  shows "vmsg env level msg (Some args) d = (Inr (), d\<lparr>dg_file := dg_file d @ level_prefix level @ t @ [NL]\<rparr>)"
  using assms(2,3) format_line [OF assms(1), of "level_prefix level" "[NL]"] level_plain [of level]
  by (simp add: vmsg_def Let_def NL_def)

text \<open>With both destinations, a message that takes an argument takes it from the \<^verbatim>\<open>va_list\<close> that the first \<^verbatim>\<open>vfprintf\<close> left indeterminate.\<close>

lemma vmsg_both:
  assumes "vformat msg (Some args) = Inr t" and "level_no (dg_stderrLevel d) \<le> level_no level" and "dg_handle d"
    and "vformat msg None = Inl (Undefined ''va_list used again after vfprintf'')"
  shows "vmsg env level msg (Some args) d =
    (Inl (Undefined ''va_list used again after vfprintf''), d\<lparr>dg_stderr := dg_stderr d @ log_line env d level t\<rparr>)"
  using assms(2,3) stderr_format [OF assms(1), of env d level] format_line_Inl [OF assms(4), of "level_prefix level" "[NL]"] level_plain [of level]
  by (simp add: vmsg_def Let_def NL_def)

end
