(* ===== verification/Console.thy ===== *)
theory Console
  imports StateExn StringUtil
begin

text \<open>
  What is shown to the one who waits: the progress bar of \<^verbatim>\<open>progress.cc\<close> and the keyboard lights of \<^verbatim>\<open>ledblink.cc\<close>. Output on \<^verbatim>\<open>cout\<close> is the
  string that a call writes.
\<close>

section \<open>The terminal\<close>

record terminal =
  tw_width :: int
  tw_height :: int
  tw_isdumb :: bool

definition DEFAULT_WIDTH :: int where "DEFAULT_WIDTH = 80"
definition DEFAULT_HEIGHT :: int where "DEFAULT_HEIGHT = 25"
definition NAME_MAXLENGTH :: nat where "NAME_MAXLENGTH = 30"

text \<open>From the size that \<^verbatim>\<open>ioctl(TIOCGWINSZ)\<close> gives, if it succeeds, and \<^verbatim>\<open>TERM\<close>.\<close>

definition Terminal :: "(16 word \<times> 16 word) option \<Rightarrow> string option \<Rightarrow> terminal" where
  "Terminal winsize term_var =
     (let dumb = (term_var = Some ''dumb'')
      in case winsize of
           Some (col, row) \<Rightarrow>
             (if col \<noteq> 0 \<and> row \<noteq> 0 then \<lparr>tw_width = int (unat col), tw_height = int (unat row), tw_isdumb = dumb\<rparr>
              else \<lparr>tw_width = DEFAULT_WIDTH, tw_height = DEFAULT_HEIGHT, tw_isdumb = dumb\<rparr>)
         | None \<Rightarrow> \<lparr>tw_width = DEFAULT_WIDTH, tw_height = DEFAULT_HEIGHT, tw_isdumb = dumb\<rparr>)"

text \<open>\<^verbatim>\<open>setw\<close> with the text on the left and on the right.\<close>

definition setw_left :: "int \<Rightarrow> string \<Rightarrow> string" where
  "setw_left n s = s @ replicate (nat n - length s) (CHR '' '')"

definition setw_right :: "int \<Rightarrow> string \<Rightarrow> string" where
  "setw_right n s = replicate (nat n - length s) (CHR '' '') @ s"

definition printLine :: "terminal \<Rightarrow> string" where
  "printLine t = replicate (nat (tw_width t - 1)) (CHR ''-'') @ [NL]"

section \<open>The bar\<close>

record terminal_progress =
  tp_term :: terminal
  tp_name :: string
  tp_progresslen :: int
  tp_lastUpdate :: int

definition TerminalProgress :: "terminal \<Rightarrow> string \<Rightarrow> terminal_progress" where
  "TerminalProgress t name =
     \<lparr>tp_term = t, tp_name = (if NAME_MAXLENGTH < length name then take NAME_MAXLENGTH name else name),
      tp_progresslen = tw_width t - int NAME_MAXLENGTH - 8, tp_lastUpdate = 0\<rparr>"

definition clearLine :: "terminal_progress \<Rightarrow> string" where
  "clearLine p =
     (if \<not> tw_isdumb (tp_term p) then [CR] @ setw_left (tw_width (tp_term p) - 1) '' '' @ [CR] else [])"

definition progress_start :: "terminal_progress \<Rightarrow> string" where
  "progress_start p = clearLine p @ setw_left (int NAME_MAXLENGTH) (tp_name p) @ '' Starting.''"

definition progress_stop :: "bool \<Rightarrow> terminal_progress \<Rightarrow> string" where
  "progress_stop success p =
     clearLine p @ (if tw_isdumb (tp_term p) then [NL] else []) @ setw_left (int NAME_MAXLENGTH) (tp_name p) @
     (if success then '' Finished.'' else '' Failed.'') @ [NL]"

text \<open>
  \<open>share current max len\<close> is \<^verbatim>\<open>int(double(current)/max*len)\<close>, in floating point. The percentage is computed in 64 bits and stored in an \<^verbatim>\<open>int\<close>.
\<close>

definition number_of_hashes :: "(64 word \<Rightarrow> 64 word \<Rightarrow> int \<Rightarrow> int) \<Rightarrow> 64 word \<Rightarrow> 64 word \<Rightarrow> int \<Rightarrow> int" where
  "number_of_hashes share current mx len =
     (let n = share current mx len;
          n = (if len < n then len else n)
      in if n < 0 then 0 else n)"

definition percentage :: "64 word \<Rightarrow> 64 word \<Rightarrow> int" where
  "percentage current mx = sint (ucast (current * 100 div mx) :: 32 word)"

definition progress_line :: "(64 word \<Rightarrow> 64 word \<Rightarrow> int \<Rightarrow> int) \<Rightarrow> 64 word \<Rightarrow> 64 word \<Rightarrow> terminal_progress \<Rightarrow> string" where
  "progress_line share current mx p =
     (let hashes = number_of_hashes share current mx (tp_progresslen p);
          dashes = tp_progresslen p - hashes
      in setw_left (int NAME_MAXLENGTH) (tp_name p) @ '' '' @ ''|'' @ replicate (nat hashes) (CHR ''#'') @ replicate (nat dashes) (CHR ''-'') @ ''|'' @
         setw_right 3 (dec_of_int (percentage current mx)) @ ''%'')"

definition progressed :: "(64 word \<Rightarrow> 64 word \<Rightarrow> int \<Rightarrow> int) \<Rightarrow> int \<Rightarrow> 64 word \<Rightarrow> 64 word \<Rightarrow> terminal_progress \<Rightarrow> (string \<times> terminal_progress) res" where
  "progressed share now current mx p =
     (if now \<le> tp_lastUpdate p then Inr ([], p)
      else if current = 0 \<and> mx = 0 then Inr ([], p)
      else if mx = 0 then Inl (Undefined ''division by zero'')
      else Inr ((if tw_isdumb (tp_term p) then [NL] else [CR]) @ progress_line share current mx p, p\<lparr>tp_lastUpdate := now\<rparr>))"

subsection \<open>The width of a line\<close>

lemma length_setw [simp]:
  "length (setw_left n s) = max (nat n) (length s)" "length (setw_right n s) = max (nat n) (length s)"
  by (simp_all add: setw_left_def setw_right_def)

lemma hashes_bound:
  assumes "0 \<le> len"
  shows "0 \<le> number_of_hashes share current mx len" "number_of_hashes share current mx len \<le> len"
  using assms by (simp_all add: number_of_hashes_def Let_def)

lemma sint_percent:
  fixes v :: "64 word"
  assumes "unat v \<le> 100"
  shows "sint (ucast v :: 32 word) = int (unat v)"
proof -
  have i: "int (unat v) = uint v" by (rule uint_nat [symmetric])
  then have w: "0 \<le> uint v" "uint v \<le> 100" using assms by linarith+
  have "uint (ucast v :: 32 word) = take_bit LENGTH(32) (uint v)" by (rule unsigned_ucast_eq)
  also have "\<dots> = uint v" using w by (intro take_bit_int_eq_self) simp_all
  finally have u: "uint (ucast v :: 32 word) = uint v" .
  have "sint (ucast v :: 32 word) = signed_take_bit 31 (uint (ucast v :: 32 word))" by (simp add: sint_uint)
  also have "\<dots> = uint v" unfolding u by (rule signed_take_bit_int_eq_self) (use w in \<open>simp_all, linarith?\<close>)
  finally show ?thesis by (simp only: i)
qed

lemma percentage_le:
  assumes "current \<le> mx" and "mx \<noteq> 0"
  shows "0 \<le> percentage current mx" "percentage current mx \<le> 100"
proof -
  have "unat (current * 100) \<le> unat mx * 100"
  proof -
    have "unat (current * 100) \<le> unat current * 100"
      by (simp add: unat_word_ariths)
    also have "\<dots> \<le> unat mx * 100" using assms(1) by (simp add: word_le_nat_alt)
    finally show ?thesis .
  qed
  then have "unat (current * 100) div unat mx \<le> 100"
    using div_le_mono [of "unat (current * 100)" "unat mx * 100" "unat mx"] assms(2) by (simp add: unat_gt_0)
  then have u: "unat (current * 100 div mx) \<le> 100" by (simp add: unat_div)
  then have "percentage current mx = int (unat (current * 100 div mx))" and "int (unat (current * 100 div mx)) \<le> 100"
    unfolding percentage_def by (rule sint_percent, linarith)
  then show "0 \<le> percentage current mx" "percentage current mx \<le> 100" by linarith+
qed

lemma length_percentage:
  assumes "0 \<le> i" and "i \<le> 100"
  shows "length (dec_of_int i) \<le> 3"
proof -
  have "nat i div 10 div 10 < 10" using assms by auto
  then have "length (dec_of_nat (nat i)) \<le> 3"
    by (subst dec_of_nat.simps, subst dec_of_nat.simps, subst dec_of_nat.simps) simp
  then show ?thesis using assms by (simp add: dec_of_int_def)
qed

text \<open>A line of the bar is one column shorter than the terminal, whatever the floating point gives.\<close>

lemma progress_line_length:
  assumes "current \<le> mx" and "mx \<noteq> 0" and "38 \<le> tw_width t"
  shows "length (progress_line share current mx (TerminalProgress t name\<lparr>tp_lastUpdate := was\<rparr>)) = nat (tw_width t - 1)"
proof -
  have len: "0 \<le> tw_width t - 38" using assms(3) by simp
  have n: "length (if NAME_MAXLENGTH < length name then take NAME_MAXLENGTH name else name) \<le> 30" by (simp add: NAME_MAXLENGTH_def)
  show ?thesis
    using hashes_bound [OF len, of share current mx] percentage_le [OF assms(1,2)] length_percentage [OF percentage_le [OF assms(1,2)]] n len
    by (simp add: progress_line_def TerminalProgress_def Let_def NAME_MAXLENGTH_def max_def)
qed

section \<open>Lights\<close>

text \<open>
  The calls on the console: setting the lights may fail, and sleeping returns early for a time that is not one. \<open>LedBlink::execute\<close> has no end of its own;
  in the model it is a partial function.
\<close>

record timespec =
  tv_sec :: int
  tv_nsec :: int

record 's led_ops =
  le_open :: "'s \<Rightarrow> (errno + int) \<times> 's"
  le_on_exit :: "int \<Rightarrow> 's \<Rightarrow> errno option \<times> 's"
  le_setled :: "int \<Rightarrow> nat \<Rightarrow> 's \<Rightarrow> errno option \<times> 's"
  le_getled :: "int \<Rightarrow> nat \<Rightarrow> 's \<Rightarrow> nat \<times> 's"
  le_nanosleep :: "timespec \<Rightarrow> 's \<Rightarrow> 's"
  le_close :: "int \<Rightarrow> 's \<Rightarrow> 's"

text \<open>Division and remainder of C round towards zero.\<close>

definition blink_period :: "int \<Rightarrow> timespec" where
  "blink_period interval =
     \<lparr>tv_sec = sgn interval * (\<bar>interval\<bar> div 1000), tv_nsec = sgn interval * (\<bar>interval\<bar> mod 1000) * 1000 * 1000\<rparr>"

partial_function (option) blink_loop :: "'s led_ops \<Rightarrow> int \<Rightarrow> timespec \<Rightarrow> nat \<Rightarrow> 's \<Rightarrow> (unit res \<times> 's) option" where
  "blink_loop ops console period counter s =
     (case le_setled ops console counter s of
        (Some e, s1) \<Rightarrow> Some (Inl (KSystemError ''Unable to ioctl(KDSETLED) -- are you not on the console?'' e), s1)
      | (None, s1) \<Rightarrow> blink_loop ops console period ((counter + 1) mod 8) (le_nanosleep ops period s1))"

definition ledblink_execute :: "'s led_ops \<Rightarrow> int \<Rightarrow> 's \<Rightarrow> (unit res \<times> 's) option" where
  "ledblink_execute ops interval s =
     (case le_open ops s of
        (Inl e, s1) \<Rightarrow> Some (Inl (KSystemError ''Could not open console.'' e), s1)
      | (Inr console, s1) \<Rightarrow>
          (case le_on_exit ops console s1 of
             (Some e, s2) \<Rightarrow> Some (Inl (KSystemError ''Registering led_exit_handler failed.'' e), s2)
           | (None, s2) \<Rightarrow> blink_loop ops console (blink_period interval) 0 s2))"

definition led_exit_handler :: "'s led_ops \<Rightarrow> int \<Rightarrow> 's \<Rightarrow> 's" where
  "led_exit_handler ops fd s =
     (case le_getled ops fd 0 s of (counter, s1) \<Rightarrow> le_close ops fd (snd (le_setled ops fd counter s1)))"

text \<open>A console that fails after \<open>n\<close> settings, with the lights that were set and the times slept.\<close>

datatype led_event = Lights nat | Slept timespec

definition log_leds :: "nat \<Rightarrow> led_event list led_ops" where
  "log_leds n =
     \<lparr>le_open = (\<lambda>s. (Inr 3, s)), le_on_exit = (\<lambda>fd s. (None, s)),
      le_setled = (\<lambda>fd counter s. if length s = 2 * n then (Some EIO, s) else (None, s @ [Lights counter])),
      le_getled = (\<lambda>fd counter s. (counter, s)), le_nanosleep = (\<lambda>t s. s @ [Slept t]), le_close = (\<lambda>fd s. s)\<rparr>"

lemma log_leds_simps:
  "le_setled (log_leds n) fd counter s = (if length s = 2 * n then (Some EIO, s) else (None, s @ [Lights counter]))"
  "le_nanosleep (log_leds n) t s = s @ [Slept t]"
  by (simp_all add: log_leds_def)

text \<open>The lights count in binary, from 0, with a pause after each step, until the console fails.\<close>

lemma blink_loop_log:
  "length s = 2 * k \<Longrightarrow> k \<le> n \<Longrightarrow>
   blink_loop (log_leds n) fd period (k mod 8) s =
     Some (Inl (KSystemError ''Unable to ioctl(KDSETLED) -- are you not on the console?'' EIO),
           s @ concat (map (\<lambda>i. [Lights (i mod 8), Slept period]) [k..<n]))"
proof (induction "n - k" arbitrary: k s)
  case 0
  then show ?case by (subst blink_loop.simps) (simp add: log_leds_simps)
next
  case (Suc d)
  then have "k < n" by simp
  then have u: "[k..<n] = k # [Suc k..<n]" by (simp add: upt_conv_Cons)
  have l: "length (s @ [Lights (k mod 8), Slept period]) = 2 * Suc k" using Suc(3) by simp
  have m: "(k mod 8 + 1) mod 8 = Suc k mod 8" by (simp add: mod_Suc_eq)
  have "blink_loop (log_leds n) fd period (k mod 8) s =
      blink_loop (log_leds n) fd period (Suc k mod 8) (s @ [Lights (k mod 8), Slept period])"
    using Suc(3) \<open>k < n\<close> by (subst blink_loop.simps) (simp add: log_leds_simps m [simplified])
  then show ?case using Suc(1) [OF _ l] Suc(2) \<open>k < n\<close> by (simp add: u)
qed

text \<open>On a console that does not fail the command never returns.\<close>

lemma blink_loop_None:
  fixes ops :: "'s led_ops"
  assumes never: "\<And>counter s. fst (le_setled ops fd counter s) = None"
  shows "blink_loop ops fd period counter s = None"
proof (rule ccontr)
  let ?P = "\<lambda>(ops1 :: 's led_ops) (fd1 :: int) (period :: timespec) (counter :: nat) (s :: 's) (y :: unit res \<times> 's). \<not> (ops1 = ops \<and> fd1 = fd)"
  assume "blink_loop ops fd period counter s \<noteq> None"
  then obtain y where "blink_loop ops fd period counter s = Some y" by blast
  then have "?P ops fd period counter s y"
  proof (rule blink_loop.raw_induct [rotated, where P = ?P])
    fix f ops1 fd1 period counter s and y :: "unit res \<times> 's"
    assume IH: "\<And>ops1 fd1 period counter s y. f ops1 fd1 period counter s = Some y \<Longrightarrow> ?P ops1 fd1 period counter s y"
      and step: "(case le_setled ops1 fd1 counter s of
        (None, s1) \<Rightarrow> f ops1 fd1 period ((counter + 1) mod 8) (le_nanosleep ops1 period s1)
      | (Some e, s1) \<Rightarrow> Some (Inl (KSystemError ''Unable to ioctl(KDSETLED) -- are you not on the console?'' e), s1)) = Some y"
    show "?P ops1 fd1 period counter s y"
      using step IH never [of counter s] by (auto split: prod.splits option.splits)
  qed
  then show False by simp
qed

end
