(* ===== verification/Email.thy ===== *)
theory Email
  imports SaveDumpRuns
begin

text \<open>
  \<^verbatim>\<open>kdumptool/email.cc\<close>: a notification is sent by \<^verbatim>\<open>libesmtp\<close>, whose calls act on an arbitrary state and return 0 when they fail.
\<close>

section \<open>The message\<close>

record email =
  em_to :: string
  em_cc :: "string list"
  em_subject :: string
  em_from :: string
  em_hostname :: string
  em_body :: string

definition Email :: "string \<Rightarrow> email" where
  "Email from = \<lparr>em_to = [], em_cc = [], em_subject = [], em_from = from, em_hostname = [], em_body = []\<rparr>"

definition setTo :: "string \<Rightarrow> email \<Rightarrow> email" where "setTo recipient em = em\<lparr>em_to := recipient\<rparr>"
definition addCc :: "string \<Rightarrow> email \<Rightarrow> email" where "addCc cc em = em\<lparr>em_cc := em_cc em @ [cc]\<rparr>"
definition setSubject :: "string \<Rightarrow> email \<Rightarrow> email" where "setSubject subject em = em\<lparr>em_subject := subject\<rparr>"
definition setBody :: "string \<Rightarrow> email \<Rightarrow> email" where "setBody body em = em\<lparr>em_body := [CR, NL] @ body\<rparr>"

text \<open>Only the host, not the domain.\<close>

definition setHostname :: "string \<Rightarrow> email \<Rightarrow> email" where
  "setHostname hostname em =
     em\<lparr>em_hostname := (case find_char (CHR ''.'') hostname of None \<Rightarrow> hostname | Some dot \<Rightarrow> take dot hostname)\<rparr>"

section \<open>Callbacks\<close>

text \<open>
  \<open>smtp_messagecb\<close> with its static flag. \<open>buf\<close> and \<open>len\<close> are whether these pointers are given; the result is what it returns and stores in
  \<^verbatim>\<open>*len\<close>. The block is a copy of the body as a C string.
\<close>

definition smtp_messagecb :: "string \<Rightarrow> bool \<Rightarrow> bool \<Rightarrow> bool \<Rightarrow> (string \<times> nat) option \<times> bool" where
  "smtp_messagecb body buf len first_called =
     (if \<not> buf then (None, first_called)
      else if \<not> len then (None, True)
      else if first_called then (Some (takeWhile (\<lambda>c. c \<noteq> NUL) body, length body), False)
      else (None, first_called))"

text \<open>A reader rewinds and then asks for blocks until there is none, at most \<open>n\<close>; the bytes that it takes from each must be there.\<close>

fun read_blocks :: "nat \<Rightarrow> string \<Rightarrow> bool \<Rightarrow> string res" where
  "read_blocks 0 body first = Inr []"
| "read_blocks (Suc n) body first =
     (case smtp_messagecb body True True first of
        (None, first1) \<Rightarrow> Inr []
      | (Some (block, len), first1) \<Rightarrow>
          (if length block < len then Inl (Undefined ''block of the message shorter than its length'')
           else res_bind (read_blocks n body first1) (\<lambda>rest. Inr (take len block @ rest))))"

definition read_message :: "nat \<Rightarrow> string \<Rightarrow> bool \<Rightarrow> string res" where
  "read_message n body first = read_blocks n body (snd (smtp_messagecb body True False first))"

text \<open>
  \<open>authinteract\<close>: the answers to requests for a user name, a password or something else, into which the caller may have put a default. The buffers
  are filled by \<^verbatim>\<open>strncpy\<close>, which does not terminate a string that fills them.
\<close>

datatype auth_request = AuthRequest (AUTH_PASS: bool) (AUTH_USER: bool)

definition auth_buffer :: "string \<Rightarrow> string res" where
  "auth_buffer s = (if length s < BUFSIZ then Inr s else Inl (Undefined ''buffer without terminator''))"

fun auth_answers :: "string res \<Rightarrow> string res \<Rightarrow> (auth_request \<times> string option) list \<Rightarrow> string res option list option" where
  "auth_answers userbuffer passwordbuffer [] = Some []"
| "auth_answers userbuffer passwordbuffer ((r, old) # rs) =
     (if AUTH_PASS r then map_option ((#) (Some userbuffer)) (auth_answers userbuffer passwordbuffer rs)
      else if AUTH_USER r then map_option ((#) (Some passwordbuffer)) (auth_answers userbuffer passwordbuffer rs)
      else case old of
             None \<Rightarrow> None
           | Some v \<Rightarrow> map_option ((#) (Some (Inr v))) (auth_answers userbuffer passwordbuffer rs))"

definition authinteract :: "configuration \<Rightarrow> (auth_request \<times> string option) list \<Rightarrow> string res option list option" where
  "authinteract config request =
     auth_answers (auth_buffer (config_string ''KDUMP_SMTP_USER'' config)) (auth_buffer (config_string ''KDUMP_SMTP_PASSWORD'' config)) request"

datatype smtp_direction = SMTP_CB_READING | SMTP_CB_WRITING | SMTP_CB_OTHER

definition smtp_monitor_cb :: "string \<Rightarrow> smtp_direction \<Rightarrow> string" where
  "smtp_monitor_cb buf writing =
     ''ESMTP: '' @ (case writing of SMTP_CB_READING \<Rightarrow> ''<='' | SMTP_CB_WRITING \<Rightarrow> ''=>'' | SMTP_CB_OTHER \<Rightarrow> []) @ '' '' @
     takeWhile (\<lambda>c. c \<noteq> NUL) (map (\<lambda>c. if c = NL \<or> c = CR then CHR '' '' else c) buf)"

section \<open>Sending\<close>

datatype smtp_call =
    SetMonitorcb
  | SetServer string
  | SetAuthContext
  | SetHostname string
  | SetHeader string string
  | AddRecipient string
  | SetMessagecb string
  | StartSession
  | DestroySession
  | AuthDestroy
  | AuthExit

record 's smtp_api =
  sm_call :: "smtp_call \<Rightarrow> 's \<Rightarrow> int \<times> 's"
  sm_errno :: "'s \<Rightarrow> int"
  sm_strerror :: "int \<Rightarrow> string"
  sm_status :: "'s \<Rightarrow> (int \<times> string) option"

definition MAXERROR :: nat where "MAXERROR = 4096"

definition smtp_message :: "'s smtp_api \<Rightarrow> int \<Rightarrow> string" where
  "smtp_message api code = take (MAXERROR - 1) (sm_strerror api code)"

definition KSmtpError :: "'s smtp_api \<Rightarrow> string \<Rightarrow> int \<Rightarrow> kerror" where
  "KSmtpError api message code = KError (message @ '' ('' @ smtp_message api code @ '')'')"

definition smtp_do :: "'s smtp_api \<Rightarrow> smtp_call \<Rightarrow> ('s, unit) sx" where
  "smtp_do api call s = (Inr (), snd (sm_call api call s))"

definition smtp_require :: "'s smtp_api \<Rightarrow> smtp_call \<Rightarrow> string \<Rightarrow> ('s, unit) sx" where
  "smtp_require api call message s =
     (case sm_call api call s of
        (ret, s1) \<Rightarrow> if ret = 0 then (Inl (KSmtpError api message (sm_errno api s1)), s1) else (Inr (), s1))"

definition smtp_host :: "string \<Rightarrow> string \<times> string" where
  "smtp_host host =
     (case find_char (CHR '':'') host of None \<Rightarrow> (host @ '':25'', host) | Some colonpos \<Rightarrow> (host, take colonpos host))"

definition needs_auth :: "configuration \<Rightarrow> bool" where
  "needs_auth config \<longleftrightarrow> config_string ''KDUMP_SMTP_USER'' config \<noteq> [] \<and> config_string ''KDUMP_SMTP_PASSWORD'' config \<noteq> []"

fun send_cc :: "'s smtp_api \<Rightarrow> string list \<Rightarrow> ('s, unit) sx" where
  "send_cc api [] = sx_return ()"
| "send_cc api (cc # ccs) =
     sx_seq (smtp_require api (SetHeader ''CC'' cc) ''smtp_set_header(CC) failed.'')
    (sx_seq (smtp_require api (AddRecipient cc) ''smtp_add_recipient() failed.'')
            (send_cc api ccs))"

text \<open>The end of a session that was started; \<open>smtp_start_session\<close> fails after its objects are gone.\<close>

definition smtp_finish :: "'s smtp_api \<Rightarrow> bool \<Rightarrow> ('s, unit) sx" where
  "smtp_finish api auth s =
     (case sm_call api StartSession s of
        (ret, s1) \<Rightarrow>
          (let gone = sx_seq (smtp_do api DestroySession)
                 (if auth then sx_seq (smtp_do api AuthDestroy) (smtp_do api AuthExit) else sx_return ())
           in if ret = 0
              then sx_seq gone (\<lambda>s2. (Inl (KSmtpError api ''smtp_start_session() failed.'' (sm_errno api s2)), s2)) s1
              else
                (case sm_status api s1 of
                   Some (code, txt) \<Rightarrow>
                     (if 400 \<le> code
                      then sx_seq gone (sx_throw (KError (''Sending mail failed: '' @ rtrim ([NL] @ '' '' @ [TAB, CR]) txt @ ''. ('' @
                             number2string code @ '')''))) s1
                      else sx_seq (smtp_do api DestroySession) (if auth then smtp_do api AuthDestroy else sx_return ()) s1)
                 | None \<Rightarrow> sx_seq (smtp_do api DestroySession) (if auth then smtp_do api AuthDestroy else sx_return ()) s1)))"

definition email_send :: "'s smtp_api \<Rightarrow> (string \<Rightarrow> ('s, bool) sx) \<Rightarrow> bool \<Rightarrow> configuration \<Rightarrow> email \<Rightarrow> ('s, unit) sx" where
  "email_send api reachable debug config em =
     (let (host, hostname) = smtp_host (config_string ''KDUMP_SMTP_SERVER'' config)
      in sx_seq (if debug then smtp_require api SetMonitorcb ''Cannot set monitor callback.'' else sx_return ())
        (sx_bind (reachable hostname) (\<lambda>up.
          if \<not> up then sx_throw (KError ''SMTP server not reachable'')
          else
            sx_seq (\<lambda>s. case sm_call api (SetServer host) s of
                          (ret, s1) \<Rightarrow> if ret = 0 then (Inl (KSmtpError api ''smtp_set_server() failed.'' ret), s1) else (Inr (), s1))
           (sx_seq (if needs_auth config then smtp_do api SetAuthContext else sx_return ())
           (sx_seq (if em_hostname em \<noteq> [] then smtp_require api (SetHostname (em_hostname em)) ''smtp_set_hostname failed.'' else sx_return ())
           (sx_seq (smtp_require api (SetHeader ''From'' (em_from em)) ''smtp_set_header(From) failed.'')
           (sx_seq (smtp_require api (SetHeader ''To'' (em_to em)) ''smtp_set_header(To) failed.'')
           (sx_seq (smtp_require api (SetHeader ''Subject'' (em_subject em)) ''smtp_set_header(Subject) failed.'')
           (sx_seq (send_cc api (em_cc em))
           (sx_seq (smtp_require api (AddRecipient (em_to em)) ''smtp_add_recipient() failed.'')
           (sx_seq (smtp_require api (SetMessagecb (em_body em)) ''smtp_set_messagecb() failed.'')
                   (smtp_finish api (needs_auth config)))))))))))))"

text \<open>The operation of \<open>SaveDump\<close>: a message is built and sent.\<close>

definition email_of :: "mail \<Rightarrow> email" where
  "email_of m =
     setBody (mail_body m) (setSubject (mail_subject m) (foldl (\<lambda>em cc. addCc cc em) (setTo (mail_to m)
       (setHostname (mail_hostname m) (Email (mail_from m)))) (mail_cc m)))"

definition send_mail :: "'s smtp_api \<Rightarrow> (string \<Rightarrow> ('s, bool) sx) \<Rightarrow> bool \<Rightarrow> configuration \<Rightarrow> mail \<Rightarrow> 's \<Rightarrow> 's \<times> unit res" where
  "send_mail api reachable debug config m s = (case email_send api reachable debug config (email_of m) s of (r, s') \<Rightarrow> (s', r))"

section \<open>What is sent\<close>

text \<open>The body is read once, whatever the flag was before.\<close>

lemma read_message_body:
  assumes "NUL \<notin> set body" and "2 \<le> n"
  shows "read_message n body first = Inr body"
proof -
  obtain k where n: "n = Suc (Suc k)" using assms(2) by (metis Suc_le_D numeral_2_eq_2 Suc_le_mono)
  have "takeWhile (\<lambda>c. c \<noteq> NUL) body = body" using assms(1) by (induction body) auto
  then show ?thesis unfolding n read_message_def by (simp add: smtp_messagecb_def del: takeWhile_eq_all_conv)
qed

lemma authinteract_swaps:
  assumes "length (config_string ''KDUMP_SMTP_USER'' config) < BUFSIZ" and "length (config_string ''KDUMP_SMTP_PASSWORD'' config) < BUFSIZ"
  shows "authinteract config [(AuthRequest False True, u), (AuthRequest True False, p)] =
    Some [Some (Inr (config_string ''KDUMP_SMTP_PASSWORD'' config)), Some (Inr (config_string ''KDUMP_SMTP_USER'' config))]"
  using assms by (simp add: authinteract_def auth_buffer_def)

text \<open>A server whose calls succeed, and the log of them.\<close>

definition log_smtp :: "(int \<times> string) option \<Rightarrow> smtp_call list smtp_api" where
  "log_smtp status = \<lparr>sm_call = (\<lambda>c s. (1, s @ [c])), sm_errno = (\<lambda>s. 0), sm_strerror = (\<lambda>e. []), sm_status = (\<lambda>s. status)\<rparr>"

definition smtp_calls :: "bool \<Rightarrow> configuration \<Rightarrow> email \<Rightarrow> smtp_call list" where
  "smtp_calls debug config em =
     (if debug then [SetMonitorcb] else []) @ [SetServer (fst (smtp_host (config_string ''KDUMP_SMTP_SERVER'' config)))] @
     (if needs_auth config then [SetAuthContext] else []) @ (if em_hostname em \<noteq> [] then [SetHostname (em_hostname em)] else []) @
     [SetHeader ''From'' (em_from em), SetHeader ''To'' (em_to em), SetHeader ''Subject'' (em_subject em)] @
     concat (map (\<lambda>cc. [SetHeader ''CC'' cc, AddRecipient cc]) (em_cc em)) @
     [AddRecipient (em_to em), SetMessagecb (em_body em), StartSession, DestroySession] @ (if needs_auth config then [AuthDestroy] else [])"

lemma log_require: "smtp_require (log_smtp status) c msg s = (Inr (), s @ [c])"
  by (simp add: smtp_require_def log_smtp_def)

lemma log_do: "smtp_do (log_smtp status) c s = (Inr (), s @ [c])"
  by (simp add: smtp_do_def log_smtp_def)

lemma log_require_seq: "sx_seq (smtp_require (log_smtp status) c msg) k s = k (s @ [c])"
  by (rule sx_seq_Inr, rule log_require)

lemma log_do_seq: "sx_seq (smtp_do (log_smtp status) c) k s = k (s @ [c])"
  by (rule sx_seq_Inr, rule log_do)

lemma send_cc_log: "send_cc (log_smtp status) ccs s = (Inr (), s @ concat (map (\<lambda>cc. [SetHeader ''CC'' cc, AddRecipient cc]) ccs))"
  by (induction ccs arbitrary: s) (simp_all add: sx_simps log_require_seq)

lemma send_cc_seq:
  "sx_seq (send_cc (log_smtp status) ccs) k s = k (s @ concat (map (\<lambda>cc. [SetHeader ''CC'' cc, AddRecipient cc]) ccs))"
  by (rule sx_seq_Inr, rule send_cc_log)

lemma if_require_seq:
  "sx_seq (if b then smtp_require (log_smtp status) c msg else sx_return ()) k s = k (s @ (if b then [c] else []))"
  by (rule sx_seq_Inr) (simp add: log_require sx_simps)

lemma if_do_seq: "sx_seq (if b then smtp_do (log_smtp status) c else sx_return ()) k s = k (s @ (if b then [c] else []))"
  by (rule sx_seq_Inr) (simp add: log_do sx_simps)

lemma log_smtp_sel:
  "sm_call (log_smtp status) c s = (1, s @ [c])" "sm_status (log_smtp status) s = status"
  by (simp_all add: log_smtp_def)

lemma smtp_finish_log:
  assumes "\<And>code txt. status = Some (code, txt) \<Longrightarrow> code < 400"
  shows "smtp_finish (log_smtp status) auth s = (Inr (), s @ [StartSession, DestroySession] @ (if auth then [AuthDestroy] else []))"
proof -
  have "\<not> 400 \<le> code" if "status = Some (code, msg)" for code msg using assms [OF that] by simp
  then show ?thesis
    by (cases status; cases auth)
       (simp_all add: smtp_finish_def log_smtp_sel Let_def log_do_seq log_do sx_simps split: prod.split)
qed

lemma email_send_log:
  assumes "\<And>code txt. status = Some (code, txt) \<Longrightarrow> code < 400"
    and "\<And>s. reachable (snd (smtp_host (config_string ''KDUMP_SMTP_SERVER'' config))) s = (Inr True, s)"
  shows "email_send (log_smtp status) reachable debug config em s = (Inr (), s @ smtp_calls debug config em)"
proof -
  obtain host hostname where h: "smtp_host (config_string ''KDUMP_SMTP_SERVER'' config) = (host, hostname)" by fastforce
  have r: "reachable hostname t = (Inr True, t)" for t using assms(2) h by simp
  have server: "(\<lambda>s. case sm_call (log_smtp status) (SetServer host) s of
      (ret, s1) \<Rightarrow> if ret = 0 then (Inl (KSmtpError (log_smtp status) ''smtp_set_server() failed.'' ret), s1) else (Inr (), s1)) =
      (\<lambda>s. (Inr (), s @ [SetServer host]))" by (simp add: log_smtp_def)
  have server_seq: "sx_seq (\<lambda>s. (Inr (), s @ [SetServer host])) k t = k (t @ [SetServer host])" for k :: "(smtp_call list, unit) sx" and t
    by (rule sx_seq_Inr) (rule refl)
  show ?thesis
    unfolding email_send_def h Let_def prod.case
    by (simp only: if_require_seq sx_bind_Inr [OF r] server not_True_eq_False if_False server_seq if_do_seq
        log_require_seq send_cc_seq smtp_finish_log [OF assms(1)] smtp_calls_def fst_conv h append_assoc)
       simp
qed

text \<open>The notification of \<open>SaveDump\<close>, when it is to be sent and sending succeeds.\<close>

lemma sendNotification_sends:
  assumes "mail_configured config s" and "so_send ops (notification failure urlv config (sd_hostname s)) (sd_world s) = (w, Inr ())"
  shows "sendNotification ops config failure urlv s = (Inr (), s\<lparr>sd_world := w\<rparr>)"
  using assms by (simp add: sendNotification_def mail_configured_def need_hostname_def step_simps Let_def sx_try_def sx_seq_def sx_bind_def sx_world_def)

end
