(* ===== verification/TestPrograms.thy ===== *)
theory TestPrograms
  imports SftpPacket SysUtil ConfigParser Kconfig Email
begin

text \<open>
  The programs \<^verbatim>\<open>test*.cc\<close> that drive single classes from the command line, over the definitions of those classes. A program is a function of its arguments,
  without its own name, to its exit status and what it prints on \<^verbatim>\<open>cout\<close>; undefined behaviour has neither.
\<close>

section \<open>Programs\<close>

text \<open>\<^verbatim>\<open>try { ... } catch (const std::exception &ex)\<close>: an exception ends the program with \<^verbatim>\<open>EXIT_FAILURE\<close>, after what was printed.\<close>

definition exits :: "unit res \<Rightarrow> string \<Rightarrow> (int \<times> string) res" where
  "exits r out =
     (case r of
        Inr _ \<Rightarrow> Inr (0, out)
      | Inl (Undefined m) \<Rightarrow> Inl (Undefined m)
      | Inl e \<Rightarrow> Inr (1, out))"

definition usage_failure :: "(int \<times> string) res" where "usage_failure = Inr (1, [])"

lemma exits_Inr [simp]: "exits (Inr u) out = Inr (0, out)"
  by (simp add: exits_def)

section \<open>testsftppacket\<close>

type_synonym packet_run = "sftp_packet \<times> string"

definition hexw :: "nat \<Rightarrow> nat \<Rightarrow> string" where
  "hexw w n = replicate (w - length (hex_of_nat n)) (CHR ''0'') @ hex_of_nat n"

definition dumpvec :: "byte list \<Rightarrow> string" where
  "dumpvec bv =
     (case bv of [] \<Rightarrow> [] | b # bs \<Rightarrow> hexw 2 (unat b) @ concat (map (\<lambda>x. '' '' @ hexw 2 (unat x)) bs)) @ [NL]"

fun parseval_loop :: "string \<Rightarrow> nat \<Rightarrow> string \<Rightarrow> 64 word \<Rightarrow> 64 word res" where
  "parseval_loop all 0 str ret =
     (if str \<noteq> [] then Inl (KError (''Number too big: '' @ [SQUOTE] @ all @ [SQUOTE])) else Inr ret)"
| "parseval_loop all (Suc n) [] ret = Inr ret"
| "parseval_loop all (Suc n) (c # str) ret =
     res_bind (hex2int c) (\<lambda>d. parseval_loop all n str (push_bit 4 ret OR of_nat d))"

definition parseval :: "string \<Rightarrow> nat \<Rightarrow> 64 word res" where
  "parseval str maxdigits = parseval_loop str maxdigits str 0"

fun parsevec :: "string \<Rightarrow> byte list res" where
  "parsevec [] = Inr []"
| "parsevec [c] = res_bind (hex2int c) (\<lambda>h. Inr [of_nat h])"
| "parsevec (c # d # str) =
     res_bind (hex2int c) (\<lambda>h. res_bind (hex2int d) (\<lambda>l. res_bind (parsevec str) (\<lambda>bs. Inr ((push_bit 4 (of_nat h) OR of_nat l) # bs))))"

text \<open>What the functions \<open>getbyte\<close>, \<open>getint32\<close>, \<open>getint64\<close> and \<open>getstring\<close> print.\<close>

definition print_field :: "(sftp_packet \<Rightarrow> ('a \<times> sftp_packet) res) \<Rightarrow> ('a \<Rightarrow> string) \<Rightarrow> (packet_run, unit) sx" where
  "print_field get shows_as = (\<lambda>(pkt, out).
     case get pkt of Inl e \<Rightarrow> (Inl e, (pkt, out)) | Inr (v, pkt1) \<Rightarrow> (Inr (), (pkt1, out @ shows_as v @ [NL])))"

definition change_packet :: "'a res \<Rightarrow> ('a \<Rightarrow> sftp_packet \<Rightarrow> sftp_packet) \<Rightarrow> (packet_run, unit) sx" where
  "change_packet r f = (\<lambda>(pkt, out). case r of Inl e \<Rightarrow> (Inl e, (pkt, out)) | Inr v \<Rightarrow> (Inr (), (f v pkt, out)))"

definition packet_arg :: "string \<Rightarrow> (packet_run, unit) sx" where
  "packet_arg arg =
     (case arg of
        [] \<Rightarrow> sx_return ()
      | c # str \<Rightarrow>
          if c = CHR ''d'' then
            (if str \<noteq> [] then change_packet (parsevec str) setData else (\<lambda>(pkt, out). (Inr (), (pkt, out @ dumpvec (m_vector pkt)))))
          else if c = CHR ''u'' then (\<lambda>(pkt, out). (Inr (), (update pkt, out @ dumpvec (m_vector (update pkt)))))
          else if c = CHR ''b'' then
            (if str \<noteq> [] then change_packet (parseval str 2) (\<lambda>v. addByte (ucast v)) else print_field getByte (\<lambda>b. hexw 2 (unat b)))
          else if c = CHR ''w'' then
            (if str \<noteq> [] then change_packet (parseval str 8) addInt32 else print_field getInt32 (\<lambda>v. hexw 8 (unat v)))
          else if c = CHR ''l'' then
            (if str \<noteq> [] then change_packet (parseval str 16) addInt64 else print_field getInt64 (\<lambda>v. hexw 16 (unat v)))
          else if c = CHR ''s'' then
            (if str \<noteq> [] then change_packet (Inr str) addString else print_field getString (\<lambda>s. s))
          else if c = CHR ''v'' then
            (if str \<noteq> [] then change_packet (parsevec str) addByteVector else sx_return ())
          else sx_throw (KError ''Invalid format specifier''))"

fun packet_args :: "string list \<Rightarrow> (packet_run, unit) sx" where
  "packet_args [] = sx_return ()"
| "packet_args (arg # args) = sx_seq (packet_arg arg) (packet_args args)"

definition testsftppacket :: "string list \<Rightarrow> (int \<times> string) res" where
  "testsftppacket args = (case packet_args args (SFTPPacket, []) of (r, (pkt, out)) \<Rightarrow> exits r out)"

section \<open>teststringutil\<close>

definition run_check :: "string \<times> bool res \<Rightarrow> int \<times> string \<Rightarrow> int \<times> string" where
  "run_check = (\<lambda>(what, fn) (result, out).
     case fn of
       Inr True \<Rightarrow> (result, out @ what @ '': OK'' @ [NL])
     | Inr False \<Rightarrow> (1, out @ what @ '': FAILED'' @ [NL])
     | Inl e \<Rightarrow> (1, out @ what @ '': EXCEPTION'' @ [NL]))"

definition string_checks :: "(string \<times> bool res) list" where
  "string_checks =
     (let empty = []; s = ''prefixed and suffixed''; s_copy = s; s_append = s @ '' and something''; s_prepend = ''something and '' @ s
      in [(''Empty string starts with an empty string'', Inr (startsWith empty [])),
          (''Empty string does not start with a bogus string'', Inr (\<not> startsWith empty ''bogus'')),
          (''Prefix string matches'', Inr (startsWith s ''prefix'')),
          (''Bogus prefix does not match'', Inr (\<not> startsWith s ''bogus'')),
          (''Empty string is a prefix'', Inr (startsWith s empty)),
          (''Identical string is a prefix'', Inr (startsWith s s_copy)),
          (''String does not start with a longer string'', Inr (\<not> startsWith s s_append)),
          (''Empty string ends with an empty string'', Inr (endsWith empty [])),
          (''Empty string does not end with a bogus string'', Inr (\<not> endsWith empty ''bogus'')),
          (''Suffix string matches'', Inr (endsWith s ''suffixed'')),
          (''Bogus suffix does not match'', Inr (\<not> endsWith s ''bogus'')),
          (''Empty string is a suffix'', Inr (endsWith s empty)),
          (''Identical string is a prefix'', Inr (endsWith s s_copy)),
          (''String does not end with a longer string'', Inr (\<not> endsWith s s_prepend))])"

definition teststringutil :: "int \<times> string" where
  "teststringutil = fold run_check string_checks (0, [])"

section \<open>The drivers of one class\<close>

definition testurlparser :: "string list \<Rightarrow> (int \<times> string) res" where
  "testurlparser args =
     (case args of
        [url] \<Rightarrow>
          (case URLParser url of
             Inl e \<Rightarrow> exits (Inl e) []
           | Inr urlp \<Rightarrow> exits (Inr ())
               (''Prot'' @ [TAB] @ getProtocolAsString urlp @ [NL] @ ''Host'' @ [TAB] @ getHostname urlp @ [NL] @
                ''Port'' @ [TAB] @ number2string (getPort urlp) @ [NL] @ ''User'' @ [TAB] @ getUsername urlp @ [NL] @
                ''Pass'' @ [TAB] @ getPassword urlp @ [NL] @ ''Path'' @ [TAB] @ getPath urlp @ [NL]))
      | _ \<Rightarrow> usage_failure)"

fun urldecode_args :: "bool \<Rightarrow> bool \<Rightarrow> string list \<Rightarrow> (string, unit) sx" where
  "urldecode_args formenc addspace [] out = (Inr (), out @ [NL])"
| "urldecode_args formenc addspace (arg # args) out =
     (let out1 = out @ (if addspace then '' '' else [])
      in case decodeURL formenc arg of
           Inl e \<Rightarrow> (Inl e, out1)
         | Inr s \<Rightarrow> urldecode_args formenc True args (out1 @ s))"

definition testurldecode :: "string list \<Rightarrow> (int \<times> string) res" where
  "testurldecode args =
     (let (formenc, rest) = (case args of arg # as \<Rightarrow> if arg = ''-f'' then (True, as) else (False, args) | [] \<Rightarrow> (False, []))
      in case urldecode_args formenc False rest [] of (r, out) \<Rightarrow> exits r out)"

definition testcanonical :: "(string \<Rightarrow> node) \<Rightarrow> string \<Rightarrow> string list \<Rightarrow> (int \<times> string) res" where
  "testcanonical fs cwd args =
     (case args of
        [path, root] \<Rightarrow>
          (case getCanonicalPath fs cwd root path of
             Inl e \<Rightarrow> exits (Inl e) []
           | Inr cpath \<Rightarrow> exits (Inr ()) (''Path'' @ [TAB] @ cpath @ [NL]))
      | _ \<Rightarrow> usage_failure)"

text \<open>\<open>link\<close> is the answer of \<^verbatim>\<open>readlink\<close>.\<close>

definition testreadlink :: "stat_ops \<Rightarrow> (string \<Rightarrow> string) \<Rightarrow> (string \<Rightarrow> node) \<Rightarrow> string \<Rightarrow> string list \<Rightarrow> (int \<times> string) res" where
  "testreadlink ops link fs cwd args =
     (case args of
        [path] \<Rightarrow>
          (case isSymlink ops path of
             Inl e \<Rightarrow> exits (Inl e) []
           | Inr isLink \<Rightarrow>
               (let out = ''Symbolic Link?'' @ [TAB] @ (if isLink then ''true'' else ''false'') @ [NL] @
                      (if isLink then ''Readlink'' @ [TAB] @ readLink (link path) @ [NL] else [])
                in case getCanonicalPath fs cwd ''/'' path of
                     Inl e \<Rightarrow> exits (Inl e) out
                   | Inr canonical \<Rightarrow> exits (Inr ()) (out @ ''Canonical'' @ [TAB] @ canonical @ [NL])))
      | _ \<Rightarrow> usage_failure)"

definition testlistdir ::
    "(string \<Rightarrow> errno + dirent list) \<Rightarrow> (string \<Rightarrow> string \<Rightarrow> bool option) \<Rightarrow> (string \<Rightarrow> string \<Rightarrow> bool) \<Rightarrow> string list \<Rightarrow> (int \<times> string) res"
where
  "testlistdir opendir stat_dir stat_ok args =
     (case args of
        [dir, mode] \<Rightarrow>
          (let list = (\<lambda>filt. case listDir opendir filt dir of
                          Inl e \<Rightarrow> exits (Inl e) []
                        | Inr v \<Rightarrow> exits (Inr ()) (concat (map (\<lambda>s. s @ [NL]) v)))
           in if mode = ''all'' then list FilterDots
              else if mode = ''dirs'' then list (FilterDotsAndNondirs (stat_dir dir))
              else if mode = ''kdumpdirs'' then list (FilterKdumpDirs (stat_dir dir) (stat_ok dir))
              else usage_failure)
      | _ \<Rightarrow> usage_failure)"

definition testconfig :: "(string \<Rightarrow> errno + string) \<Rightarrow> (string \<Rightarrow> string) \<Rightarrow> string list \<Rightarrow> (int \<times> string) res" where
  "testconfig files sh args =
     (case args of
        [configfile, name] \<Rightarrow>
          (case res_bind (shell_parse files sh (addVariable name [] (config_parser_new configfile))) (getValue name) of
             Inl e \<Rightarrow> exits (Inl e) []
           | Inr val \<Rightarrow> exits (Inr ()) (val @ [NL]))
      | _ \<Rightarrow> usage_failure)"

definition testkconfig :: "(string \<Rightarrow> string list option) \<Rightarrow> (string \<Rightarrow> string res) \<Rightarrow> string list \<Rightarrow> (int \<times> string) res" where
  "testkconfig gz extract args =
     (case args of
        [configfile, elfimage, configoption] \<Rightarrow>
          (case readFromConfig gz configfile [] of
             Inl e \<Rightarrow> exits (Inl e) []
           | Inr kconfig1 \<Rightarrow>
               (case readFromKernel (extract elfimage) [] of
                  Inl e \<Rightarrow> exits (Inl e) []
                | Inr kconfig2 \<Rightarrow> exits (Inr ())
                    (configoption @ '' = '' @ toString (kconfig_get configoption kconfig1) @ [NL] @
                     configoption @ '' = '' @ toString (kconfig_get configoption kconfig2) @ [NL])))
      | _ \<Rightarrow> usage_failure)"

text \<open>The configuration is what was read from \<^verbatim>\<open>/etc/sysconfig/kdump\<close>; the build has \<^verbatim>\<open>libesmtp\<close>.\<close>

definition test_message :: email where
  "test_message =
     setBody (''x'' @ [NL, NL] @ ''y'') (setSubject ''Bla'' (addCc ''bernhard@bwalle.de'' (addCc ''bwalle@suse.de'' (setTo ''bwalle@suse.de'' (Email ''root@suse.de'')))))"

definition testmail :: "'s smtp_api \<Rightarrow> (string \<Rightarrow> ('s, bool) sx) \<Rightarrow> configuration res \<Rightarrow> 's \<Rightarrow> (int \<times> string) res \<times> 's" where
  "testmail api reachable config s =
     (case config of
        Inl e \<Rightarrow> (exits (Inl e) [], s)
      | Inr config \<Rightarrow> (case email_send api reachable True config test_message s of (r, s1) \<Rightarrow> (exits r [], s1)))"

section \<open>The string tests pass\<close>

lemma teststringutil_passes: "fst teststringutil = 0"
  by code_simp

section \<open>What is put into a packet is printed again\<close>

text \<open>Hexadecimal numbers of a fixed width are read back.\<close>

lemma parse_append:
  "length a \<le> k \<Longrightarrow> parseval_loop all k (a @ b) r = res_bind (parseval_loop all (length a) a r) (\<lambda>r1. parseval_loop all (k - length a) b r1)"
proof (induction a arbitrary: k r)
  case Nil
  then show ?case by simp
next
  case (Cons c a)
  then obtain n where "k = Suc n" "length a \<le> n" by (cases k) auto
  with Cons.IH [of n] show ?case by (cases "hex2int c") simp_all
qed

lemma nibble_or: "d < 16 \<Longrightarrow> push_bit 4 ret OR of_nat d = (16 * ret + of_nat d :: 64 word)"
proof -
  assume "d < 16"
  then have t: "(of_nat d :: 64 word) = take_bit 4 (of_nat d)"
    by (simp add: take_bit_of_nat take_bit_nat_eq_self)
  have "push_bit 4 ret AND take_bit 4 (of_nat d) = (0 :: 64 word)"
    by (rule bit_word_eqI) (auto simp: bit_simps)
  then have "push_bit 4 ret OR take_bit 4 (of_nat d) = push_bit 4 ret + (take_bit 4 (of_nat d) :: 64 word)"
    by (rule disjunctive_add_eq_or [symmetric])
  then show ?thesis by (simp add: t [symmetric] push_bit_eq_mult mult.commute)
qed

lemma parse_hex:
  "parseval_loop all (length (hex_of_nat n)) (hex_of_nat n) ret = Inr (of_nat (16 ^ length (hex_of_nat n)) * ret + of_nat n)"
proof (induction n arbitrary: ret rule: hex_of_nat.induct)
  case (1 n)
  show ?case
  proof (cases "n < 16")
    case True
    then show ?thesis by (simp add: hex_of_nat.simps [of n] hex2int_hex_digit nibble_or)
  next
    case False
    have m: "n mod 16 < 16" by simp
    have l: "length (hex_of_nat n) = Suc (length (hex_of_nat (n div 16)))" using False by (simp add: hex_of_nat.simps [of n])
    have "of_nat n = (16 * of_nat (n div 16) + of_nat (n mod 16) :: 64 word)"
      by (metis mult_div_mod_eq of_nat_add of_nat_mult of_nat_numeral)
    then show ?thesis
      unfolding l using False 1(1) [OF False]
      by (simp add: hex_of_nat.simps [of n] parse_append hex2int_hex_digit nibble_or [OF m] algebra_simps)
  qed
qed

lemma parse_zeros: "parseval_loop all (k + n) (replicate k (CHR ''0'') @ s) 0 = parseval_loop all n s 0"
proof (induction k)
  case (Suc k)
  have "hex2int (CHR ''0'') = Inr 0" by code_simp
  with Suc show ?case by simp
qed simp

lemma parse_hexw:
  assumes "length (hex_of_nat n) \<le> w"
  shows "parseval (hexw w n) w = Inr (of_nat n)" "length (hexw w n) = w"
proof -
  have w: "w = (w - length (hex_of_nat n)) + length (hex_of_nat n)" using assms by simp
  show "length (hexw w n) = w" using assms by (simp add: hexw_def)
  show "parseval (hexw w n) w = Inr (of_nat n)"
    unfolding parseval_def hexw_def by (subst (2) w, subst parse_zeros, subst parse_hex) simp
qed

lemma length_hex: "n < 16 ^ Suc k \<Longrightarrow> length (hex_of_nat n) \<le> Suc k"
proof (induction k arbitrary: n)
  case 0
  then show ?case by (subst hex_of_nat.simps) simp
next
  case (Suc k)
  have "n div 16 < 16 ^ Suc k" using Suc.prems by (simp add: less_mult_imp_div_less mult.commute)
  with Suc.IH show ?case by (subst hex_of_nat.simps) simp
qed

text \<open>Fields, the arguments that put and print them, and what is printed.\<close>

datatype pkt_field = FByte byte | FInt32 "32 word" | FInt64 "64 word"

fun field_text :: "pkt_field \<Rightarrow> string" where
  "field_text (FByte b) = hexw 2 (unat b)"
| "field_text (FInt32 v) = hexw 8 (unat v)"
| "field_text (FInt64 v) = hexw 16 (unat v)"

fun field_letter :: "pkt_field \<Rightarrow> char" where
  "field_letter (FByte b) = CHR ''b''"
| "field_letter (FInt32 v) = CHR ''w''"
| "field_letter (FInt64 v) = CHR ''l''"

fun field_bytes :: "pkt_field \<Rightarrow> byte list" where
  "field_bytes (FByte b) = [b]"
| "field_bytes (FInt32 v) = be_bytes 4 (ucast v)"
| "field_bytes (FInt64 v) = be_bytes 8 v"

definition put_arg :: "pkt_field \<Rightarrow> string" where "put_arg f = field_letter f # field_text f"
definition get_arg_of :: "pkt_field \<Rightarrow> string" where "get_arg_of f = [field_letter f]"

lemma field_read:
  "parseval (hexw 2 (unat (b :: byte))) 2 = Inr (ucast b)" "hexw 2 (unat b) \<noteq> []"
  "parseval (hexw 8 (unat (v :: 32 word))) 8 = Inr (ucast v)" "hexw 8 (unat v) \<noteq> []"
  "parseval (hexw 16 (unat (x :: 64 word))) 16 = Inr x" "hexw 16 (unat x) \<noteq> []"
proof -
  have u: "unat b < 2 ^ LENGTH(8)" "unat v < 2 ^ LENGTH(32)" "unat x < 2 ^ LENGTH(64)" by (rule unsigned_less)+
  have "length (hex_of_nat (unat b)) \<le> Suc 1" by (rule length_hex) (use u(1) in simp)
  moreover have "length (hex_of_nat (unat v)) \<le> Suc 7" by (rule length_hex) (use u(2) in simp)
  moreover have "length (hex_of_nat (unat x)) \<le> Suc 15" by (rule length_hex) (use u(3) in simp)
  ultimately have l: "length (hex_of_nat (unat b)) \<le> 2" "length (hex_of_nat (unat v)) \<le> 8" "length (hex_of_nat (unat x)) \<le> 16"
    by simp_all
  show "parseval (hexw 2 (unat b)) 2 = Inr (ucast b)" "parseval (hexw 8 (unat v)) 8 = Inr (ucast v)" "parseval (hexw 16 (unat x)) 16 = Inr x"
    using l by (simp_all add: parse_hexw)
  show "hexw 2 (unat b) \<noteq> []" "hexw 8 (unat v) \<noteq> []" "hexw 16 (unat x) \<noteq> []"
    using parse_hexw(2) [OF l(1)] parse_hexw(2) [OF l(2)] parse_hexw(2) [OF l(3)] by auto
qed

lemma packet_put: "packet_arg (put_arg f) (p, out) = (Inr (), (addByteVector (field_bytes f) p, out))"
  by (cases f) (simp_all add: put_arg_def packet_arg_def field_read change_packet_def byte_field.put_enc int32_field.put_enc int64_field.put_enc
      ucast_up_ucast_id is_up)

lemma packet_put_seq: "sx_seq (packet_arg (put_arg f)) k (p, out) = k (addByteVector (field_bytes f) p, out)"
  by (rule sx_seq_Inr, rule packet_put)

lemma packet_put_all: "packet_args (map put_arg fs) (p, out) = (Inr (), (addByteVector (concat (map field_bytes fs)) p, out))"
proof (induction fs arbitrary: p)
  case Nil
  then show ?case by (simp add: sx_simps addByteVector_def)
next
  case (Cons f fs)
  then show ?case by (simp add: packet_put_seq addByteVector_append)
qed

lemma unat_ucast_32: "unat (ucast (v :: 32 word) :: 64 word) = unat v"
proof -
  have "unat v < 2 ^ LENGTH(32)" by (rule unsigned_less)
  then show ?thesis unfolding unsigned_ucast_eq by (intro take_bit_nat_eq_self) simp
qed

lemma packet_get:
  assumes "m_vector p = pre @ field_bytes f @ post" and "m_gpos p = length pre"
  shows "packet_arg (get_arg_of f) (p, out) =
    (Inr (), (p\<lparr>m_gpos := length (pre @ field_bytes f)\<rparr>, out @ field_text f @ [NL]))"
proof (cases f)
  case (FByte b)
  then show ?thesis using byte_field.get_enc [where v = b and p = p and pre = pre and post = post] assms
    by (simp add: get_arg_of_def packet_arg_def print_field_def)
next
  case (FInt32 v)
  have "ucast v < (2 ^ 32 :: 64 word)"
  proof -
    have "unat v < 2 ^ LENGTH(32)" by (rule unsigned_less)
    then show ?thesis by (simp add: word_less_nat_alt unat_ucast_32)
  qed
  then show ?thesis using int32_field.get_enc [where v = "ucast v" and p = p and pre = pre and post = post] assms FInt32
    by (simp add: get_arg_of_def packet_arg_def print_field_def unat_ucast_32)
next
  case (FInt64 v)
  then show ?thesis using int64_field.get_enc [where v = v and p = p and pre = pre and post = post] assms
    by (simp add: get_arg_of_def packet_arg_def print_field_def)
qed

lemma packet_get_all:
  "m_vector p = pre @ concat (map field_bytes fs) @ post \<Longrightarrow> m_gpos p = length pre \<Longrightarrow>
   packet_args (map get_arg_of fs) (p, out) =
     (Inr (), (p\<lparr>m_gpos := length pre + length (concat (map field_bytes fs))\<rparr>, out @ concat (map (\<lambda>f. field_text f @ [NL]) fs)))"
proof (induction fs arbitrary: p pre out)
  case Nil
  then show ?case by (simp add: sx_simps)
next
  case (Cons f fs)
  have g: "packet_arg (get_arg_of f) (p, out) = (Inr (), (p\<lparr>m_gpos := length (pre @ field_bytes f)\<rparr>, out @ field_text f @ [NL]))"
    using Cons.prems by (intro packet_get [where post = "concat (map field_bytes fs) @ post"]) auto
  show ?case
    using Cons.prems Cons.IH [of "p\<lparr>m_gpos := length (pre @ field_bytes f)\<rparr>" "pre @ field_bytes f"]
    by (simp add: sx_seq_Inr [where m = "packet_arg (get_arg_of f)", OF g])
qed

lemma packet_args_append: "packet_args (as @ bs) = sx_seq (packet_args as) (packet_args bs)"
proof (induction as)
  case Nil
  then show ?case by (simp add: fun_eq_iff sx_simps sx_seq_def sx_bind_def)
next
  case (Cons a as)
  then show ?case by (simp add: fun_eq_iff sx_seq_def sx_bind_def split: prod.splits sum.splits)
qed

lemma testsftppacket_fields:
  "testsftppacket (map put_arg fs @ ''w'' # map get_arg_of fs) =
     Inr (0, ''00000000'' @ [NL] @ concat (map (\<lambda>f. field_text f @ [NL]) fs))"
proof -
  let ?p = "addByteVector (concat (map field_bytes fs)) SFTPPacket"
  have h: "be_bytes 4 0 = replicate 4 0" by (simp add: be_bytes_def numeral_eq_Suc)
  have v: "m_vector ?p = [] @ be_bytes 4 0 @ concat (map field_bytes fs)" and g0: "m_gpos ?p = length []"
    unfolding h by (simp_all add: addByteVector_def SFTPPacket_def)
  have t: "hexw 8 0 = ''00000000''" by code_simp
  have g: "packet_arg ''w'' (?p, []) = (Inr (), (?p\<lparr>m_gpos := 4\<rparr>, ''00000000'' @ [NL]))"
    using int32_field.get_enc [OF _ v g0] g0 by (simp add: packet_arg_def print_field_def t)
  have r: "packet_args (map get_arg_of fs) (?p\<lparr>m_gpos := 4\<rparr>, ''00000000'' @ [NL]) =
      (Inr (), (?p\<lparr>m_gpos := 4 + length (concat (map field_bytes fs))\<rparr>, (''00000000'' @ [NL]) @ concat (map (\<lambda>f. field_text f @ [NL]) fs)))"
    using packet_get_all [of "?p\<lparr>m_gpos := 4\<rparr>" "be_bytes 4 0" fs "[]" "''00000000'' @ [NL]"] v by simp
  show ?thesis
    using r by (simp add: testsftppacket_def packet_args_append sx_seq_Inr [where m = "packet_args (map put_arg fs)", OF packet_put_all] sx_seq_Inr [where m = "packet_arg ''w''", OF g])
qed

end
