(* ===== verification/MountTable.thy ===== *)
theory MountTable
  imports Mounts
begin

text \<open>
  The classes of \<^verbatim>\<open>mounts.cc\<close> around \<^verbatim>\<open>libmount\<close>: wrappers that count references, and the iterators of \<open>MountTable\<close>. The search over iterators
  is the search over the list of entries of Mounts.
\<close>

section \<open>References\<close>

text \<open>
  The count of each object of \<^verbatim>\<open>libmount\<close>; it is freed when its count becomes 0, and must not be used then. A wrapper is the number of its object, or
  \<^const>\<open>None\<close> for the null pointer, which is not counted.
\<close>

type_synonym handle = "nat option"
type_synonym ref_counts = "nat \<Rightarrow> nat"

definition take_ref :: "handle \<Rightarrow> ref_counts \<Rightarrow> ref_counts res" where
  "take_ref h r =
     (case h of
        None \<Rightarrow> Inr r
      | Some k \<Rightarrow> if r k = 0 then Inl (Undefined ''use of a freed object'') else Inr (r(k := r k + 1)))"

definition drop_ref :: "handle \<Rightarrow> ref_counts \<Rightarrow> ref_counts res" where
  "drop_ref h r =
     (case h of
        None \<Rightarrow> Inr r
      | Some k \<Rightarrow> if r k = 0 then Inl (Undefined ''use of a freed object'') else Inr (r(k := r k - 1)))"

definition MntFS :: "handle \<Rightarrow> ref_counts \<Rightarrow> (handle \<times> ref_counts) res" where
  "MntFS fs r = res_bind (take_ref fs r) (\<lambda>r1. Inr (fs, r1))"

definition MntFS_copy :: "handle \<Rightarrow> ref_counts \<Rightarrow> (handle \<times> ref_counts) res" where
  "MntFS_copy other r = res_bind (take_ref other r) (\<lambda>r1. Inr (other, r1))"

definition MntFS_end :: "handle \<Rightarrow> ref_counts \<Rightarrow> ref_counts res" where
  "MntFS_end this r = drop_ref this r"

definition MntFS_assign :: "handle \<Rightarrow> handle \<Rightarrow> ref_counts \<Rightarrow> (handle \<times> ref_counts) res" where
  "MntFS_assign this other r = res_bind (drop_ref this r) (\<lambda>r1. res_bind (take_ref other r1) (\<lambda>r2. Inr (other, r2)))"

definition MntTable :: "handle \<Rightarrow> ref_counts \<Rightarrow> (handle \<times> ref_counts) res" where
  "MntTable tb r = res_bind (take_ref tb r) (\<lambda>r1. Inr (tb, r1))"

definition MntTable_copy :: "handle \<Rightarrow> ref_counts \<Rightarrow> (handle \<times> ref_counts) res" where
  "MntTable_copy other r = res_bind (take_ref other r) (\<lambda>r1. Inr (other, r1))"

definition MntTable_end :: "handle \<Rightarrow> ref_counts \<Rightarrow> ref_counts res" where
  "MntTable_end this r = drop_ref this r"

definition MntTable_assign :: "handle \<Rightarrow> handle \<Rightarrow> ref_counts \<Rightarrow> (handle \<times> ref_counts) res" where
  "MntTable_assign this other r = res_bind (drop_ref this r) (\<lambda>r1. res_bind (take_ref other r1) (\<lambda>r2. Inr (other, r2)))"

text \<open>\<open>mnt_new_table\<close> gives a table with one reference, or nothing.\<close>

definition MountTable_new :: "handle \<Rightarrow> ref_counts \<Rightarrow> (handle \<times> ref_counts) res" where
  "MountTable_new fresh r =
     res_bind (MntTable fresh (case fresh of None \<Rightarrow> r | Some k \<Rightarrow> r(k := 1))) (\<lambda>(tb, r1).
       if tb = None then Inl (KError ''Failed to initialize libmount table'') else Inr (tb, r1))"

text \<open>A copy and its end leave the counts alone, and so does an assignment that is followed by the reverse one.\<close>

lemma MntFS_copy_end:
  assumes "MntFS_copy other r = Inr (h, r1)"
  shows "h = other \<and> MntFS_end h r1 = Inr r"
  using assms by (cases other) (auto simp: MntFS_copy_def MntFS_end_def take_ref_def drop_ref_def split: if_splits)

lemma MntFS_assign_counts:
  assumes "r k > 0" and "r l > 0" and "k \<noteq> l"
  shows "MntFS_assign (Some k) (Some l) r = Inr (Some l, r(k := r k - 1, l := r l + 1))"
  using assms by (simp add: MntFS_assign_def drop_ref_def take_ref_def fun_upd_twist)

text \<open>Assigning the only wrapper of an object to itself frees the object before it is taken again.\<close>

lemma MntFS_self_assign: "r k = 1 \<Longrightarrow> MntFS_assign (Some k) (Some k) r = Inl (Undefined ''use of a freed object'')"
  by (simp add: MntFS_assign_def drop_ref_def take_ref_def)

text \<open>The reference of \<open>mnt_new_table\<close> is never given back: the end of the table leaves one.\<close>

lemma MountTable_leak:
  assumes "MountTable_new (Some k) r = Inr (tb, r1)"
  shows "MntTable_end tb r1 = Inr (r(k := 1))"
  using assms by (auto simp: MountTable_new_def MntTable_def MntTable_end_def take_ref_def drop_ref_def)

section \<open>Tables\<close>

definition PATH_PROC_MOUNTS :: string where "PATH_PROC_MOUNTS = ''/proc/mounts''"
definition PATH_PROC_MOUNTINFO :: string where "PATH_PROC_MOUNTINFO = ''/proc/self/mountinfo''"

definition KernelMountTable :: "(string \<Rightarrow> bool) \<Rightarrow> (string \<Rightarrow> mnt_fs list option) \<Rightarrow> mnt_fs list res" where
  "KernelMountTable readable parse_file =
     (case parse_file (if readable PATH_PROC_MOUNTINFO then PATH_PROC_MOUNTINFO else PATH_PROC_MOUNTS) of
        None \<Rightarrow> Inl (KError (''Can'' @ [SQUOTE] @ ''t read kernel mount table''))
      | Some table \<Rightarrow> Inr table)"

definition FstabMountTable :: "mnt_fs list option \<Rightarrow> mnt_fs list res" where
  "FstabMountTable parse_fstab =
     (case parse_fstab of None \<Rightarrow> Inl (KError (''Can'' @ [SQUOTE] @ ''t read fstab'')) | Some table \<Rightarrow> Inr table)"

section \<open>Iterators\<close>

text \<open>The place of the next entry, and the mount point: its entry, if there is one, and its canonical target, once it is known.\<close>

record mount_iterator =
  it_next :: nat
  it_fs :: "nat option"
  it_ctarget :: string

definition iterator_start :: mount_iterator where
  "iterator_start = \<lparr>it_next = 0, it_fs = None, it_ctarget = []\<rparr>"

text \<open>\<open>allocated\<close> is whether \<open>mnt_new_iter\<close> has memory. The direction that the constructor is called with is not used.\<close>

definition iterator_new :: "bool \<Rightarrow> mount_iterator res" where
  "iterator_new allocated = (if allocated then Inr iterator_start else Inl (KError ''Failed to initialize libmount iterator''))"

text \<open>\<open>set_iter k\<close> is where \<open>mnt_table_set_iter\<close> makes an iterator go on that is set to entry \<open>k\<close>; it fails for the null pointer.\<close>

definition iterator_copy :: "bool \<Rightarrow> (nat \<Rightarrow> nat) \<Rightarrow> mount_iterator \<Rightarrow> mount_iterator res" where
  "iterator_copy allocated set_iter other =
     (if \<not> allocated then Inl (KError ''Failed to initialize libmount iterator'')
      else Inr \<lparr>it_next = (case it_fs other of None \<Rightarrow> 0 | Some k \<Rightarrow> set_iter k), it_fs = it_fs other, it_ctarget = it_ctarget other\<rparr>)"

definition iterator_assign :: "(nat \<Rightarrow> nat) \<Rightarrow> mount_iterator \<Rightarrow> mount_iterator \<Rightarrow> mount_iterator" where
  "iterator_assign set_iter this other =
     \<lparr>it_next = (case it_fs other of None \<Rightarrow> it_next this | Some k \<Rightarrow> set_iter k), it_fs = it_fs other, it_ctarget = it_ctarget other\<rparr>"

definition setFS :: "nat option \<Rightarrow> mount_iterator \<Rightarrow> mount_iterator" where
  "setFS fs it = it\<lparr>it_fs := fs, it_ctarget := []\<rparr>"

definition iterator_next :: "mnt_fs list \<Rightarrow> mount_iterator \<Rightarrow> mount_iterator" where
  "iterator_next table it =
     (if it_next it < length table then setFS (Some (it_next it)) (it\<lparr>it_next := it_next it + 1\<rparr>) else setFS None it)"

definition canonicalTarget :: "(string \<Rightarrow> string res) \<Rightarrow> mnt_fs list \<Rightarrow> mount_iterator \<Rightarrow> (string \<times> mount_iterator) res" where
  "canonicalTarget canonical table it =
     (if it_ctarget it = [] then
        (case it_fs it of
           None \<Rightarrow> Inl (Undefined ''target of no mount'')
         | Some k \<Rightarrow> res_bind (canonical (fs_target (table ! k))) (\<lambda>c. Inr (c, it\<lparr>it_ctarget := c\<rparr>)))
      else Inr (it_ctarget it, it))"

function search_loop ::
    "(nat \<Rightarrow> nat) \<Rightarrow> (string \<Rightarrow> string res) \<Rightarrow> mnt_fs list \<Rightarrow> string \<Rightarrow> nat \<Rightarrow> mount_iterator \<Rightarrow> mount_iterator \<Rightarrow> mount_iterator res"
where
  "search_loop set_iter canonical table cpath bestlen it best =
     (let it1 = iterator_next table it
      in case it_fs it1 of
           None \<Rightarrow> Inr best
         | Some k \<Rightarrow>
             if fs_pseudo (table ! k) \<or> fs_swap (table ! k) then search_loop set_iter canonical table cpath bestlen it1 best
             else (case canonicalTarget canonical table it1 of
                     Inl e \<Rightarrow> Inl e
                   | Inr (ctarget, it2) \<Rightarrow>
                       if bestlen \<le> length ctarget \<and> substr cpath 0 (length ctarget) = ctarget
                       then search_loop set_iter canonical table cpath (length ctarget) it2 (iterator_assign set_iter best it2)
                       else search_loop set_iter canonical table cpath bestlen it2 best))"
  by pat_completeness auto

termination
  by (relation "measure (\<lambda>(set_iter, canonical, table, cpath, bestlen, it, best). length table - it_next it)")
     (auto simp: iterator_next_def setFS_def canonicalTarget_def res_bind_def split: if_splits sum.splits option.splits)

definition MountTable_find ::
    "bool \<Rightarrow> bool \<Rightarrow> (nat \<Rightarrow> nat) \<Rightarrow> (string \<Rightarrow> string res) \<Rightarrow> mnt_fs list \<Rightarrow> string \<Rightarrow> mount_iterator res"
where
  "MountTable_find allocated1 allocated2 set_iter canonical table path =
     res_bind (canonical path) (\<lambda>cpath.
     res_bind (iterator_new allocated1) (\<lambda>it.
     res_bind (iterator_copy allocated2 set_iter it) (\<lambda>best.
       search_loop set_iter canonical table cpath 0 it best)))"

text \<open>What an iterator stands for: an entry with its canonical target.\<close>

definition it_entry :: "mnt_fs list \<Rightarrow> mount_iterator \<Rightarrow> (mnt_fs \<times> string) option" where
  "it_entry table it = map_option (\<lambda>k. (table ! k, it_ctarget it)) (it_fs it)"

declare search_loop.simps [simp del]

lemma search_loop_refines:
  "map_sum id (it_entry table) (search_loop set_iter canonical table cpath bestlen it best) =
   find_mount_loop canonical cpath (it_entry table best) bestlen (drop (it_next it) table)"
proof (induction "length table - it_next it" arbitrary: it best bestlen rule: less_induct)
  case less
  show ?case
  proof (cases "it_next it < length table")
    case False
    then show ?thesis by (subst search_loop.simps) (simp add: iterator_next_def setFS_def)
  next
    case True
    let ?k = "it_next it" and ?fs = "table ! it_next it"
    let ?it1 = "\<lparr>it_next = Suc ?k, it_fs = Some ?k, it_ctarget = []\<rparr>"
    have n: "iterator_next table it = ?it1" using True by (simp add: iterator_next_def setFS_def)
    have d: "drop ?k table = ?fs # drop (Suc ?k) table" using True by (simp add: Cons_nth_drop_Suc)
    have IH: "map_sum id (it_entry table) (search_loop set_iter canonical table cpath b \<lparr>it_next = Suc ?k, it_fs = Some ?k, it_ctarget = c\<rparr> best') =
        find_mount_loop canonical cpath (it_entry table best') b (drop (Suc ?k) table)" for b c best'
      using less [of "\<lparr>it_next = Suc ?k, it_fs = Some ?k, it_ctarget = c\<rparr>" b best'] True by simp
    show ?thesis
    proof (cases "fs_pseudo ?fs \<or> fs_swap ?fs")
      case True
      then show ?thesis by (subst search_loop.simps) (simp add: n d IH Let_def)
    next
      case False
      show ?thesis
      proof (cases "canonical (fs_target ?fs)")
        case (Inl e)
        with False show ?thesis by (subst search_loop.simps) (simp add: n d Let_def canonicalTarget_def)
      next
        case (Inr c)
        have "it_entry table (iterator_assign set_iter best \<lparr>it_next = Suc ?k, it_fs = Some ?k, it_ctarget = c\<rparr>) = Some (?fs, c)"
          by (simp add: it_entry_def iterator_assign_def)
        with False Inr show ?thesis by (subst search_loop.simps) (simp add: n d Let_def canonicalTarget_def IH)
      qed
    qed
  qed
qed

lemma MountTable_find_refines:
  "map_sum id (it_entry table) (MountTable_find True True set_iter canonical table path) = find_mount canonical table path"
proof (cases "canonical path")
  case (Inl e)
  then show ?thesis by (simp add: MountTable_find_def find_mount_def)
next
  case (Inr cpath)
  have "it_entry table \<lparr>it_next = 0, it_fs = None, it_ctarget = []\<rparr> = None" by (simp add: it_entry_def)
  then show ?thesis
    using Inr search_loop_refines [of table set_iter canonical cpath 0 iterator_start iterator_start]
    by (simp add: MountTable_find_def find_mount_def iterator_new_def iterator_copy_def iterator_start_def)
qed

lemma MountTable_find_longest:
  assumes "MountTable_find True True set_iter canonical table path = Inr it"
  shows "\<exists>cpath. canonical path = Inr cpath \<and>
    (case it_entry table it of
       None \<Rightarrow> \<forall>fs \<in> set table. \<forall>t. \<not> candidate_mount canonical cpath fs t
     | Some (fs, t) \<Rightarrow> fs \<in> set table \<and> candidate_mount canonical cpath fs t \<and>
         (\<forall>fs' \<in> set table. \<forall>t'. candidate_mount canonical cpath fs' t' \<longrightarrow> length t' \<le> length t))"
  using MountTable_find_refines [of table set_iter canonical path] assms by (intro find_mount_longest) simp

end
