(* ===== verification/SshTransfer.thy ===== *)
theory SshTransfer
  imports SftpTransfer Process
begin

text \<open>
  \<open>SSHTransfer\<close> of \<^verbatim>\<open>kdumptool/sshtransfer.cc\<close>, over the subprocesses and pipes of \<open>Process\<close>: the dump is written
  to the standard input of \<^verbatim>\<open>ssh\<close>, which runs \<^verbatim>\<open>dd\<close> on the other side. The pipe belongs to the scope of
  \<open>SSHTransfer::perform\<close>, so that its writing end is still open when the program waits for \<^verbatim>\<open>ssh\<close>.
\<close>

section \<open>Commands\<close>

definition SSH_makeArgs :: "root_dir_url \<Rightarrow> string \<Rightarrow> string list" where
  "SSH_makeArgs target remote = ssh_config_args target @ [m_hostname target, remote]"

definition SSH_mkdir_command :: "root_dir_url \<Rightarrow> string" where
  "SSH_mkdir_command target = ''mkdir -p '' @ m_path target"

definition SSH_remote :: "root_dir_url \<Rightarrow> string \<Rightarrow> string" where
  "SSH_remote target target_file =
     (let fp = appendPath (m_path target) target_file
      in ''dd of='' @ fp @ ''-incomplete'' @ '' && mv '' @ fp @ ''-incomplete '' @ fp)"

section \<open>The constructor\<close>

text \<open>
  The child has no pipes. \<open>leave_scope\<close> are the destructors at the end of a scope with a subprocess: a child that
  was not waited for is killed and waited for, then the pipe is closed.
\<close>

definition close_pipes :: "sub_process \<Rightarrow> proc_world \<Rightarrow> proc_world" where
  "close_pipes sub w = foldl (\<lambda>w (fd, l). pipe_close l w) w (sp_fdmap sub)"

definition leave_scope :: "proc_env \<Rightarrow> unit res \<Rightarrow> sub_process \<Rightarrow> proc_world \<Rightarrow> unit res \<times> proc_world" where
  "leave_scope env r sub w =
     (case sub_destroy env sub of
        Inl terminated \<Rightarrow> (Inl terminated, w)
      | Inr _ \<Rightarrow> (r, close_pipes sub w))"

definition ssh_status :: "string \<Rightarrow> int \<Rightarrow> unit res" where
  "ssh_status method status =
     (if status \<noteq> 0
      then Inl (KError (''SSHTransfer::'' @ method @ '': ssh command failed with status '' @ number2string status))
      else Inr ())"

text \<open>\<open>reachable\<close> is the result of the network check: without a route there is only a warning.\<close>

definition SSHTransfer :: "proc_env \<Rightarrow> bool res \<Rightarrow> proc_world \<Rightarrow> unit res \<times> proc_world" where
  "SSHTransfer env reachable w =
     (case reachable of
        Inl e \<Rightarrow> (Inl e, w)
      | Inr _ \<Rightarrow>
          (case sub_spawn env SubProcess w of
             (Inl e, sub, w1) \<Rightarrow> leave_scope env (Inl e) sub w1
           | (Inr _, sub, w1) \<Rightarrow>
               (case sub_wait env sub of
                  (Inl e, sub1) \<Rightarrow> leave_scope env (Inl e) sub1 w1
                | (Inr status, sub1) \<Rightarrow> leave_scope env (ssh_status ''SSHTransfer'' status) sub1 w1)))"

text \<open>What the child executes: \<^verbatim>\<open>mkdir -p\<close> on the other side.\<close>

definition SSHTransfer_child :: "errno option \<Rightarrow> root_dir_url list \<Rightarrow> proc_world \<Rightarrow> (fd_table \<times> string list) res" where
  "SSHTransfer_child execvp urlv w =
     spawn_child execvp ''ssh'' (SSH_makeArgs (hd urlv) (SSH_mkdir_command (hd urlv))) SubProcess w"

section \<open>SSHTransfer::perform\<close>

text \<open>The loop around \<^verbatim>\<open>write\<close>, on a descriptor.\<close>

definition SSH_put :: "int \<Rightarrow> string \<Rightarrow> (proc_world, unit) sx" where
  "SSH_put fd buf w =
     (if fd \<notin> pw_open w then (Inl (KSystemError ''SSHTransfer::perform: write failed'' EBADF), w)
      else case write_loop (pw_limits w fd) buf of
             (out, e, ls) \<Rightarrow>
               let w' = w\<lparr>pw_sent := (pw_sent w)(fd := pw_sent w fd @ out), pw_limits := (pw_limits w)(fd := ls)\<rparr>
               in case e of
                    Some e \<Rightarrow> (Inl (KSystemError ''SSHTransfer::perform: write failed'' e), w')
                  | None \<Rightarrow> (Inr (), w'))"

text \<open>
  \<open>child args input eof\<close> is what \<^verbatim>\<open>waitpid\<close> answers for an \<^verbatim>\<open>ssh\<close> with these arguments that has been sent
  \<open>input\<close>, and whose input has ended (\<open>eof\<close>) or not; \<^const>\<open>None\<close> means that it is still waiting for more. The
  program does nothing else while it waits, so that \<^verbatim>\<open>waitpid\<close> does not return then.
\<close>

type_synonym ssh_child = "string list \<Rightarrow> string \<Rightarrow> bool \<Rightarrow> (errno + int \<times> int) option"

definition wait_child ::
    "proc_env \<Rightarrow> (errno + int \<times> int) option \<Rightarrow> sub_process \<Rightarrow> (int res \<times> sub_process) option" where
  "wait_child env answer sub = map_option (\<lambda>a. sub_wait (env\<lparr>pe_waitpid := \<lambda>_. a\<rparr>) sub) answer"

definition ssh_args :: "root_dir_url list \<Rightarrow> string list \<Rightarrow> string list" where
  "ssh_args urlv target_files = SSH_makeArgs (hd urlv) (SSH_remote (hd urlv) (hd target_files))"

text \<open>\<open>make_shared<ParentToChildPipe>()\<close>\<close>

definition make_pipe :: "proc_world \<Rightarrow> proc_world" where
  "make_pipe w = w\<lparr>pw_store := pw_store w @ [ParentToChild (-1) (-1)]\<rparr>"

definition STDIN_FILENO :: int where "STDIN_FILENO = 0"

text \<open>The part behind the writing loop: \<open>finish\<close>, and the wait when nothing was thrown.\<close>

definition SSH_end ::
    "proc_env \<Rightarrow> (bool \<Rightarrow> (errno + int \<times> int) option) \<Rightarrow> 'p data_provider \<Rightarrow> int \<Rightarrow> sub_process \<Rightarrow>
     unit res \<times> 'p \<times> proc_world \<Rightarrow> (unit res \<times> 'p \<times> proc_world) option" where
  "SSH_end env answer dp fd sub rpw =
     (case rpw of (r, p2, w2) \<Rightarrow>
        let leave = (\<lambda>r sub p3. let (r', w') = leave_scope env r sub w2 in Some (r', p3, w'))
        in case dp_finish dp p2 of
             (Inl e, p3) \<Rightarrow> leave (Inl e) sub p3
           | (Inr _, p3) \<Rightarrow>
               (case r of
                  Inl e \<Rightarrow> leave (Inl e) sub p3
                | Inr _ \<Rightarrow>
                    (case wait_child env (answer (fd \<notin> pw_open w2)) sub of
                       None \<Rightarrow> None
                     | Some (Inl e, sub1) \<Rightarrow> leave (Inl e) sub1 p3
                     | Some (Inr status, sub1) \<Rightarrow> leave (ssh_status ''perform'' status) sub1 p3)))"

definition SSH_perform ::
    "proc_env \<Rightarrow> ssh_child \<Rightarrow> root_dir_url list \<Rightarrow> 'p data_provider \<Rightarrow> string list \<Rightarrow> 'p \<Rightarrow> proc_world \<Rightarrow>
     (unit res \<times> 'p \<times> proc_world) option" where
  "SSH_perform env child urlv dp target_files p w =
     (let l = length (pw_store w)
      in case sub_spawn env (setChildFD STDIN_FILENO (Some l) SubProcess) (make_pipe w) of
           (Inl e, sub, w1) \<Rightarrow> (let (r, w') = leave_scope env (Inl e) sub w1 in Some (r, p, w'))
         | (Inr _, sub, w1) \<Rightarrow>
             let fd = own_end (pw_store w1 ! l)
             in case dp_prepare dp p of
                  (Inl e, p1) \<Rightarrow> (let (r, w') = leave_scope env (Inl e) sub w1 in Some (r, p1, w'))
                | (Inr _, p1) \<Rightarrow>
                    (case pump (dp_getData dp) BUFSIZ (SSH_put fd) p1 w1 of
                       None \<Rightarrow> None
                     | Some (r, p2, w2) \<Rightarrow>
                         SSH_end env (child (ssh_args urlv target_files) (drop (length (pw_sent w1 fd)) (pw_sent w2 fd)))
                           dp fd sub (r, p2, w2)))"

text \<open>The child: the reading end of the pipe becomes its standard input.\<close>

definition SSH_perform_child ::
    "errno option \<Rightarrow> root_dir_url list \<Rightarrow> string list \<Rightarrow> nat \<Rightarrow> proc_world \<Rightarrow> (fd_table \<times> string list) res" where
  "SSH_perform_child execvp urlv target_files l w =
     spawn_child execvp ''ssh'' (ssh_args urlv target_files) (setChildFD STDIN_FILENO (Some l) SubProcess) w"

section \<open>Writing to the child\<close>

text \<open>A step of the loop is one \<^verbatim>\<open>write\<close> of the pipe, as the filter makes it.\<close>

lemma SSH_put_write:
  assumes "fd \<in> pw_open w" and "buf \<noteq> []"
  shows "SSH_put fd buf w =
    (case pipe_write fd buf w of
       (Inl e, w') \<Rightarrow> (Inl (KSystemError ''SSHTransfer::perform: write failed'' e), w')
     | (Inr k, w') \<Rightarrow> if drop k buf = [] then (Inr (), w') else SSH_put fd (drop k buf) w')"
proof (cases "pw_limits w fd")
  case Nil
  then show ?thesis using assms by (simp add: SSH_put_def pipe_write_def Let_def fun_upd_idem)
next
  case (Cons l ls)
  show ?thesis
  proof (cases l)
    case (Inl e)
    then show ?thesis using assms Cons by (simp add: SSH_put_def pipe_write_def Let_def fun_upd_idem)
  next
    case (Inr k)
    obtain out e ls' where l: "write_loop ls (drop k buf) = (out, e, ls')" by (metis prod_cases3)
    have nil: "write_loop ls ([] :: string) = ([], None, ls)" by (cases ls) simp_all
    show ?thesis
    proof (cases "length buf \<le> k")
      case True
      then show ?thesis using assms Cons Inr nil by (simp add: SSH_put_def pipe_write_def Let_def min_def)
    next
      case False
      then show ?thesis
        using assms Cons Inr l by (auto simp: SSH_put_def pipe_write_def Let_def min_def split: option.split)
    qed
  qed
qed

lemma SSH_put_Inr:
  "SSH_put fd buf w = (Inr u, w') \<Longrightarrow> pw_sent w' fd = pw_sent w fd @ buf \<and> pw_open w' = pw_open w \<and> fd \<in> pw_open w"
  by (auto simp: SSH_put_def Let_def dest: write_loop_all split: prod.splits option.splits if_splits)

lemma SSH_put_all:
  "put_all (SSH_put fd) cs w = (Inr u, w') \<Longrightarrow> pw_sent w' fd = pw_sent w fd @ concat cs \<and> pw_open w' = pw_open w"
  by (induction cs arbitrary: w) (auto dest!: SSH_put_Inr split: prod.splits sum.splits)

text \<open>Without an error in the list of results everything is written.\<close>

definition writes_succeed :: "int \<Rightarrow> proc_world \<Rightarrow> bool" where
  "writes_succeed fd w \<longleftrightarrow> list_all (\<lambda>l. \<not> isl l) (pw_limits w fd)"

lemma write_loop_succeeds:
  "list_all (\<lambda>l. \<not> isl l) ls \<Longrightarrow> \<exists>ls'. write_loop ls buf = (buf, None, ls') \<and> list_all (\<lambda>l. \<not> isl l) ls'"
proof (induction ls buf rule: write_loop.induct)
  case (2 r rs buf)
  then show ?case by (cases r) (auto simp: Let_def)
qed simp

lemma SSH_put_all_succeeds:
  "fd \<in> pw_open w \<Longrightarrow> writes_succeed fd w \<Longrightarrow> \<exists>w'. put_all (SSH_put fd) cs w = (Inr (), w')"
proof (induction cs arbitrary: w)
  case (Cons c cs)
  obtain ls where ls: "write_loop (pw_limits w fd) c = (c, None, ls)" "list_all (\<lambda>l. \<not> isl l) ls"
    using write_loop_succeeds Cons.prems by (auto simp: writes_succeed_def)
  let ?w = "w\<lparr>pw_sent := (pw_sent w)(fd := pw_sent w fd @ c), pw_limits := (pw_limits w)(fd := ls)\<rparr>"
  have "SSH_put fd c w = (Inr (), ?w)" using ls Cons.prems by (simp add: SSH_put_def)
  then show ?case using Cons.IH [of ?w] Cons.prems ls by (simp add: writes_succeed_def)
qed simp

section \<open>The life of the pipe\<close>

text \<open>
  After \<open>spawn\<close> the parent has the writing end and no longer the reading one; the results of its writes are those of
  before.
\<close>

lemma ssh_spawned:
  assumes "sub_spawn env (setChildFD STDIN_FILENO (Some (length (pw_store w))) SubProcess) (make_pipe w) = (Inr u, sub, w1)"
  obtains r x pid where "pe_pipe2 env (pw_time w) (pw_open w) = Inr (r, x)" and "pe_fork env (Suc (pw_time w)) = Inr pid"
    and "own_end (pw_store w1 ! length (pw_store w)) = x" and "pw_open w1 = insert x (insert r (pw_open w)) - {r}"
    and "pw_sent w1 = pw_sent w" and "pw_limits w1 = pw_limits w"
    and "sub = SubProcess\<lparr>sp_pid := pid, sp_fdmap := [(STDIN_FILENO, length (pw_store w))]\<rparr>"
  using assms
  by (auto simp: sub_spawn_def setChildFD_def SubProcess_def make_pipe_def sub_prepare_def pipe_close_def close_if_def set_pipe_def
      tick_def finalizeParent_def fd_close_def sx_seq_def sx_bind_def Let_def split: sum.splits prod.splits)

lemma ssh_spawns:
  assumes "pe_pipe2 env (pw_time w) (pw_open w) = Inr (r, x)" and "pe_fork env (Suc (pw_time w)) = Inr pid"
  shows "\<exists>sub w1. sub_spawn env (setChildFD STDIN_FILENO (Some (length (pw_store w))) SubProcess) (make_pipe w) = (Inr (), sub, w1)"
  using assms
  by (auto simp: sub_spawn_def setChildFD_def SubProcess_def make_pipe_def sub_prepare_def pipe_close_def close_if_def set_pipe_def
      tick_def finalizeParent_def fd_close_def sx_seq_def sx_bind_def Let_def split: sum.splits prod.splits)

text \<open>What \<open>wait\<close> makes of an answer: the status of the child, when it is the child that ended.\<close>

lemma wait_child_answer:
  assumes "sp_pid sub \<noteq> -1"
  shows "wait_child env None sub = None"
    and "wait_child env (Some (Inr (sp_pid sub, status))) sub = Some (Inr status, sub\<lparr>sp_pid := -1\<rparr>)"
    and "\<not> (\<exists>status. a = Inr (sp_pid sub, status)) \<Longrightarrow> \<exists>e. wait_child env (Some a) sub = Some (Inl e, sub)"
  using assms by (auto simp: wait_child_def sub_wait_def checkSpawned_def split: sum.split)

lemma leave_scope_result:
  "fst (leave_scope env (Inl e) sub w) \<noteq> Inr ()"
  "sp_pid sub = -1 \<Longrightarrow> leave_scope env r sub w = (r, close_pipes sub w)"
  by (auto simp: leave_scope_def sub_destroy_def split: sum.split)

lemma close_pipes_sent [simp]: "pw_sent (close_pipes sub w) = pw_sent w"
proof -
  have "pw_sent (pipe_close l w) = pw_sent w" for l w
    by (auto simp: pipe_close_def set_pipe_def close_if_def fd_close_def split: option.split)
  then have "pw_sent (foldl (\<lambda>w (fd, l). pipe_close l w) w m) = pw_sent w" for m :: "(int \<times> nat) list"
    by (induction m arbitrary: w) auto
  then show ?thesis by (simp add: close_pipes_def)
qed

lemma leave_scope_sent: "pw_sent (snd (leave_scope env r sub w)) = pw_sent w"
  by (simp add: leave_scope_def split: sum.split)

text \<open>
  What the caller gets: with the status 0 of \<^verbatim>\<open>ssh\<close> it returns, with every other answer it throws, and with none it
  waits for ever.
\<close>

definition answer_ok :: "sub_process \<Rightarrow> errno + int \<times> int \<Rightarrow> bool" where
  "answer_ok sub a \<longleftrightarrow> a = Inr (sp_pid sub, 0)"

lemma SSH_end_finished:
  assumes "sp_pid sub \<noteq> -1" and "dp_finish dp p2 = (Inr (), p3)"
  shows "case answer (fd \<notin> pw_open w2) of
      None \<Rightarrow> SSH_end env answer dp fd sub (Inr (), p2, w2) = None
    | Some a \<Rightarrow> \<exists>r w'. SSH_end env answer dp fd sub (Inr (), p2, w2) = Some (r, p3, w') \<and>
        pw_sent w' = pw_sent w2 \<and> (r = Inr () \<longleftrightarrow> answer_ok sub a)"
proof (cases "answer (fd \<notin> pw_open w2)")
  case None
  then show ?thesis using assms by (simp add: SSH_end_def Let_def wait_child_answer(1))
next
  case (Some a)
  show ?thesis
  proof (cases "\<exists>status. a = Inr (sp_pid sub, status)")
    case True
    then obtain status where "a = Inr (sp_pid sub, status)" by blast
    then show ?thesis
      using assms Some by (simp add: SSH_end_def Let_def wait_child_answer(2) leave_scope_result(2) ssh_status_def answer_ok_def)
  next
    case False
    then obtain e where "wait_child env (Some a) sub = Some (Inl e, sub)"
      using wait_child_answer(3) [OF assms(1)] by blast
    then show ?thesis
      using assms Some False leave_scope_result(1) [of env e sub w2] leave_scope_sent [of env "Inl e" sub w2]
      by (cases "leave_scope env (Inl e) sub w2") (auto simp: SSH_end_def Let_def answer_ok_def)
  qed
qed

lemma SSH_end_thrown:
  assumes "SSH_end env answer dp fd sub (r, p2, w2) = Some (Inr (), p', w')"
  shows "r = Inr () \<and> dp_finish dp p2 = (Inr (), p')"
proof -
  have no: False if "(let (r', w') = leave_scope env (Inl e) s w2 in Some (r', q, w')) = Some (Inr (), p', w')" for e s q
    using that leave_scope_result(1) [of env e s w2] by (auto split: prod.splits)
  obtain fr p3 where fin: "dp_finish dp p2 = (fr, p3)" by fastforce
  have fr: "fr = Inr ()" using assms no fin by (cases fr) (auto simp: SSH_end_def)
  have "r = Inr ()" using assms no fin fr by (cases r) (auto simp: SSH_end_def)
  then show ?thesis
    using assms fin fr by (auto simp: SSH_end_def Let_def split: option.splits prod.splits sum.splits)
qed

lemma SSH_end_returns:
  assumes "SSH_end env answer dp fd sub (r, p2, w2) = Some (Inr (), p', w')" and "sp_pid sub \<noteq> -1"
  shows "r = Inr ()" and "answer (fd \<notin> pw_open w2) = Some (Inr (sp_pid sub, 0))" and "pw_sent w' = pw_sent w2"
proof -
  show r: "r = Inr ()" using SSH_end_thrown [OF assms(1)] by blast
  from SSH_end_finished [OF assms(2), of dp p2 p' env answer fd w2] SSH_end_thrown [OF assms(1)]
  show "answer (fd \<notin> pw_open w2) = Some (Inr (sp_pid sub, 0))" and "pw_sent w' = pw_sent w2"
    using assms(1) r by (auto simp: answer_ok_def split: option.splits)
qed

text \<open>
  An upload that returns has handed \<^verbatim>\<open>ssh\<close> exactly the bytes of the provider, and \<^verbatim>\<open>ssh\<close> has ended with status 0
  while its input was still open.
\<close>

context provider
begin

lemma SSH_perform_contents:
  assumes get: "dp_getData dp = get" and prep: "dp_prepare dp p = (Inr (), p1)" and ready: "ready p1"
    and pipe: "pe_pipe2 env (pw_time w) (pw_open w) = Inr (rd, wr)" "rd \<noteq> wr"
    and fork: "pe_fork env (Suc (pw_time w)) = Inr pid" "pid \<noteq> -1"
    and ret: "SSH_perform env child urlv dp fs p w = Some (Inr (), p', w')"
  shows "pw_sent w' wr = pw_sent w wr @ remaining p1 \<and> child (ssh_args urlv fs) (remaining p1) False = Some (Inr (pid, 0))"
proof -
  let ?l = "length (pw_store w)"
  obtain sub w1 where sp: "sub_spawn env (setChildFD STDIN_FILENO (Some ?l) SubProcess) (make_pipe w) = (Inr (), sub, w1)"
    using ssh_spawns [OF pipe(1) fork(1)] by blast
  have fd: "own_end (pw_store w1 ! ?l) = wr" and op: "wr \<in> pw_open w1" and sent: "pw_sent w1 = pw_sent w"
    and sub: "sp_pid sub = pid"
    using pipe fork by (auto intro: ssh_spawned [OF sp])
  let ?r = "put_all (SSH_put wr) (chunks BUFSIZ (remaining p1)) w1"
  obtain p2 where pump: "pump get BUFSIZ (SSH_put wr) p1 w1 = Some (fst ?r, p2, snd ?r)"
    using pump_put_all [OF ready BUFSIZ_pos, of "SSH_put wr" w1] by blast
  let ?answer = "child (ssh_args urlv fs) (drop (length (pw_sent w1 wr)) (pw_sent (snd ?r) wr))"
  have e: "SSH_end env ?answer dp wr sub (fst ?r, p2, snd ?r) = Some (Inr (), p', w')"
    using ret by (simp add: SSH_perform_def sp fd get prep pump Let_def)
  have "fst ?r = Inr ()" using SSH_end_returns(1) [OF e] sub fork by simp
  then have "?r = (Inr (), snd ?r)" by (metis prod.collapse)
  from SSH_put_all [OF this] have s: "pw_sent (snd ?r) wr = pw_sent w wr @ remaining p1" "wr \<in> pw_open (snd ?r)"
    using op sent concat_chunks [OF BUFSIZ_pos, of "remaining p1"] by simp_all
  then show ?thesis using SSH_end_returns(2,3) [OF e] sub fork sent by simp
qed

text \<open>
  When everything is read and written, the result depends on \<^verbatim>\<open>ssh\<close> alone: it is waited for with its input open.
\<close>

lemma SSH_perform_result:
  assumes get: "dp_getData dp = get" and prep: "dp_prepare dp p = (Inr (), p1)" and ready: "ready p1"
    and fin: "\<And>q. ready q \<Longrightarrow> fst (dp_finish dp q) = Inr ()"
    and pipe: "pe_pipe2 env (pw_time w) (pw_open w) = Inr (rd, wr)" "rd \<noteq> wr"
    and fork: "pe_fork env (Suc (pw_time w)) = Inr pid" "pid \<noteq> -1"
    and writes: "writes_succeed wr w"
  shows "case child (ssh_args urlv fs) (remaining p1) False of
      None \<Rightarrow> SSH_perform env child urlv dp fs p w = None
    | Some a \<Rightarrow> \<exists>r p' w'. SSH_perform env child urlv dp fs p w = Some (r, p', w') \<and>
        pw_sent w' wr = pw_sent w wr @ remaining p1 \<and> (r = Inr () \<longleftrightarrow> a = Inr (pid, 0))"
proof -
  let ?l = "length (pw_store w)"
  obtain sub w1 where sp: "sub_spawn env (setChildFD STDIN_FILENO (Some ?l) SubProcess) (make_pipe w) = (Inr (), sub, w1)"
    using ssh_spawns [OF pipe(1) fork(1)] by blast
  have fd: "own_end (pw_store w1 ! ?l) = wr" and op: "wr \<in> pw_open w1" and sent: "pw_sent w1 = pw_sent w"
    and lim: "pw_limits w1 = pw_limits w" and sub: "sp_pid sub = pid"
    using pipe fork by (auto intro: ssh_spawned [OF sp])
  obtain w2 where r: "put_all (SSH_put wr) (chunks BUFSIZ (remaining p1)) w1 = (Inr (), w2)"
    using SSH_put_all_succeeds [OF op] writes lim by (auto simp: writes_succeed_def)
  obtain p2 where pump: "pump get BUFSIZ (SSH_put wr) p1 w1 = Some (Inr (), p2, w2)" and "ready p2"
    using pump_put_all [OF ready BUFSIZ_pos, of "SSH_put wr" w1] r by auto
  then obtain p3 where p3: "dp_finish dp p2 = (Inr (), p3)" using fin [of p2] by (metis prod.collapse)
  have s: "pw_sent w2 wr = pw_sent w wr @ remaining p1" "wr \<in> pw_open w2"
    using SSH_put_all [OF r] op sent concat_chunks [OF BUFSIZ_pos, of "remaining p1"] by simp_all
  have "SSH_perform env child urlv dp fs p w =
      SSH_end env (child (ssh_args urlv fs) (remaining p1)) dp wr sub (Inr (), p2, w2)"
    by (simp add: SSH_perform_def sp fd get prep pump Let_def s sent)
  then show ?thesis
    using SSH_end_finished [of sub dp p2 p3 env "child (ssh_args urlv fs) (remaining p1)" wr w2] sub fork p3 s
    by (auto simp: answer_ok_def split: option.splits)
qed

end

end
