(* ===== verification/ConfigValues.thy ===== *)
theory ConfigValues
  imports KdumpTool
begin

text \<open>
  What the configuration holds after \<open>KdumpTool::readConfiguration\<close>: the shell file and the kernel command line are two
  lists of assignments, and the last assignment of an option counts.
\<close>

section \<open>One reading\<close>

text \<open>The value of an option after assignments, as the parser has it: its old value in print, or the last one assigned.\<close>

definition parsed_value :: "(string \<times> string) list \<Rightarrow> string \<Rightarrow> optval \<Rightarrow> string" where
  "parsed_value env name old = (case map_of (rev env) name of None \<Rightarrow> valueAsString old | Some v \<Rightarrow> v)"

definition assign_all :: "(string \<times> string) list \<Rightarrow> configuration \<Rightarrow> configuration" where
  "assign_all env config =
     config\<lparr>m_options := map (\<lambda>opt. update_option (parsed_value env (co_name opt) (co_value opt)) opt) (m_options config),
       m_readConfig := True\<rparr>"

lemma map_of_options:
  assumes "distinct (map co_name opts)" and "opt \<in> set opts"
  shows "map_of (rev (map (\<lambda>opt. (co_name opt, val opt)) opts)) (co_name opt) = Some (val opt)"
proof -
  have "distinct (map fst (rev (map (\<lambda>opt. (co_name opt, val opt)) opts)))"
    using assms(1) by (simp add: rev_map [symmetric] comp_def)
  then show ?thesis using assms(2) by (auto intro: map_of_is_SomeI)
qed

lemma update_options_assign:
  assumes "config_ok config" and "m_variables cp0 = []"
    and "m_variables cp = smap.insert_all env (m_variables (add_variables (m_options config) cp0))"
  shows "update_options cp (m_options config) = Inr (m_options (assign_all env config))"
proof -
  have "distinct (map co_name (m_options config))"
    using config_ok_names [OF assms(1)] distinct_option_names by simp
  then have "map_of (m_variables cp) (co_name opt) = Some (parsed_value env (co_name opt) (co_value opt))"
    if "opt \<in> set (m_options config)" for opt
    using map_of_options [OF _ that, of "\<lambda>opt. valueAsString (co_value opt)"]
    by (simp add: assms(2,3) smap.find_insert_all map_of_add_variables map_add_def parsed_value_def split: option.splits)
  then show ?thesis by (simp add: update_options_ok assign_all_def)
qed

text \<open>The shell answers with a line for each variable; the kernel command line has assignments in quotes.\<close>

definition line_name :: "string \<Rightarrow> bool" where
  "line_name n \<longleftrightarrow> NL \<notin> set n \<and> CHR ''='' \<notin> set n"

definition default_script :: "configuration \<Rightarrow> string \<Rightarrow> string" where
  "default_script config content =
     shell_script (m_variables (add_variables (m_options config) (config_parser_new []))) content"

lemma add_variables_file:
  "m_variables (add_variables opts (config_parser_new f)) = m_variables (add_variables opts (config_parser_new []))"
  "m_configFile (add_variables opts (config_parser_new f)) = f"
proof -
  have "m_variables (add_variables opts cp) = m_variables (add_variables opts cp')" if "m_variables cp = m_variables cp'" for cp cp'
    using that by (induction opts arbitrary: cp cp') (auto simp: add_variables_def addVariable_def)
  then show "m_variables (add_variables opts (config_parser_new f)) = m_variables (add_variables opts (config_parser_new []))"
    by (simp add: config_parser_new_def)
  have "m_configFile (add_variables opts cp) = m_configFile cp" for cp
    by (induction opts arbitrary: cp) (auto simp: add_variables_def addVariable_def)
  then show "m_configFile (add_variables opts (config_parser_new f)) = f" by (simp add: config_parser_new_def)
qed

lemma readFile_assign:
  assumes "config_ok config" and "files f = Inr content" and "sh (default_script config content) = env_lines env"
    and "\<forall>(n, v) \<in> set env. line_name n \<and> NL \<notin> set v"
  shows "readFile files sh f config = Inr (assign_all env config)"
proof -
  let ?cp = "add_variables (m_options config) (config_parser_new f)"
  have "stream_lines (env_lines env) = map (\<lambda>(name, v). name @ ''='' @ v) env"
    by (rule stream_lines_env) (use assms(4) in \<open>auto simp: line_name_def\<close>)
  moreover have "shell_output (map (\<lambda>(name, v). name @ ''='' @ v) env) 1 ?cp =
      Inr (?cp\<lparr>m_variables := smap.insert_all env (m_variables ?cp)\<rparr>)"
    by (rule shell_output_env) (use assms(4) in \<open>auto simp: line_name_def\<close>)
  ultimately have "shell_parse files sh ?cp = Inr (?cp\<lparr>m_variables := smap.insert_all env (m_variables ?cp)\<rparr>)"
    using assms(2,3) add_variables_file [of "m_options config" f]
    by (simp add: shell_parse_def open_config_def default_script_def)
  moreover have "update_options (?cp\<lparr>m_variables := smap.insert_all env (m_variables ?cp)\<rparr>) (m_options config) =
      Inr (m_options (assign_all env config))"
    by (rule update_options_assign [OF assms(1), of "config_parser_new f"]) (simp_all add: config_parser_new_def)
  ultimately show ?thesis by (simp add: readFile_def assign_all_def)
qed

lemma readCmdLine_assign:
  assumes "config_ok config" and "\<forall>(n, v) \<in> set env. plain_name n"
    and "files f = Inr (concat (map (\<lambda>(n, v). n @ CHR ''='' # kernel_quoted v @ [CHR '' '']) env))"
  shows "readCmdLine files f config = Inr (assign_all env config)"
proof -
  let ?cp = "add_variables (m_options config) (config_parser_new f)"
  have "kernel_parse files ?cp = Inr (?cp\<lparr>m_variables := smap.insert_all env (m_variables ?cp)\<rparr>)"
    using assms(3) add_variables_file(2) [of "m_options config" f]
    by (simp add: kernel_parse_def open_config_def kernel_parse_assignments [OF assms(2)]) (simp add: kparse_init_def)
  moreover have "update_options (?cp\<lparr>m_variables := smap.insert_all env (m_variables ?cp)\<rparr>) (m_options config) =
      Inr (m_options (assign_all env config))"
    by (rule update_options_assign [OF assms(1), of "config_parser_new f"]) (simp_all add: config_parser_new_def)
  ultimately show ?thesis by (simp add: readCmdLine_def assign_all_def)
qed

section \<open>Values\<close>

lemma find_map: "find P (map f xs) = map_option f (find (P \<circ> f) xs)"
  by (induction xs) auto

lemma config_value_assign:
  "config_value name (assign_all env config) =
    map_option (\<lambda>old. update_value (parsed_value env name old) old) (config_value name config)"
proof -
  have n: "find (\<lambda>opt. co_name opt = name) opts = Some opt \<Longrightarrow> co_name opt = name" for opts opt
    by (auto simp: find_Some_iff)
  show ?thesis
    by (cases "find (\<lambda>opt. co_name opt = name) (m_options config)")
      (auto simp: config_value_def assign_all_def find_map comp_def dest: n)
qed

lemma config_ok_assign: "config_ok config \<Longrightarrow> config_ok (assign_all env config)"
  by (auto simp: config_ok_def assign_all_def comp_def value_ok_update)

lemma config_value_ok:
  assumes "config_ok config" and "config_value name config = Some v" and "config_value name configuration_new = Some d"
  shows "value_ok d v"
proof -
  obtain opt where o: "opt \<in> set (m_options config)" "co_name opt = name" "v = co_value opt"
    using assms(2) by (auto simp: config_value_def find_Some_iff) (metis nth_mem)
  obtain opt0 where o0: "opt0 \<in> set (m_options configuration_new)" "co_name opt0 = name" "d = co_value opt0"
    using assms(3) by (auto simp: config_value_def find_Some_iff) (metis nth_mem)
  have "co_defvalue opt0 = co_value opt0" using o0(1) by (auto simp: configuration_new_def)
  moreover have "(name, co_defvalue opt, co_usage opt) \<in> set define_opt"
    using assms(1) o(1,2) unfolding config_ok_def by (metis (mono_tags, lifting) imageI list.set_map)
  moreover have "(name, co_defvalue opt0, co_usage opt0) \<in> set define_opt"
    using config_ok_new o0(1,2) unfolding config_ok_def by (metis (mono_tags, lifting) imageI list.set_map)
  ultimately have "co_defvalue opt = d" using distinct_option_names o0(3) by (metis eq_key_imp_eq_value fst_conv)
  then show ?thesis using assms(1) o by (auto simp: config_ok_def)
qed

text \<open>What an assignment makes of an option of each type; an integer that is not a number in range is left open.\<close>

fun assigned :: "string \<Rightarrow> optval \<Rightarrow> optval \<Rightarrow> bool" where
  "assigned v (StringVal d) new \<longleftrightarrow> new = StringVal v"
| "assigned v (BoolVal d) new \<longleftrightarrow> new = BoolVal (map tolower v \<notin> {''0'', ''false'', ''no''})"
| "assigned v (IntVal d) new \<longleftrightarrow>
     (\<forall>k. INT_MIN \<le> k \<and> k \<le> INT_MAX \<and> v = number2string k \<longrightarrow> new = IntVal k)"

lemma assigned_update:
  assumes "value_ok d old"
  shows "assigned v d (update_value v old)"
proof (cases "(d, old)" rule: value_ok.cases)
  case (2 i j)
  have "update_value (number2string k) (IntVal j) = IntVal k" if "INT_MIN \<le> k" "k \<le> INT_MAX" for k
    using update_value_valueAsString [of "IntVal i" "IntVal k" "IntVal j"] assms 2 that by simp
  then show ?thesis using 2 by simp
qed (use assms in \<open>auto simp: Let_def\<close>)

lemma assign_all_value:
  assumes "config_ok config" and "config_value name configuration_new = Some d" and "config_value name config = Some old"
  shows "\<exists>new. config_value name (assign_all env config) = Some new \<and>
    (case map_of (rev env) name of None \<Rightarrow> new = old | Some v \<Rightarrow> assigned v d new)"
proof -
  have ok: "value_ok d old" by (rule config_value_ok [OF assms(1,3,2)])
  then show ?thesis
    using assms(3) update_value_valueAsString [OF ok ok] assigned_update [OF ok]
    by (auto simp: config_value_assign parsed_value_def split: option.split)
qed

text \<open>Both readings, one after the other.\<close>

lemma assign_twice_value:
  assumes "config_ok config" and "config_value name configuration_new = Some d" and "config_value name config = Some old"
  shows "\<exists>new. config_value name (assign_all env2 (assign_all env1 config)) = Some new \<and>
    (case map_of (rev (env1 @ env2)) name of None \<Rightarrow> new = old | Some v \<Rightarrow> assigned v d new)"
proof -
  obtain mid where m: "config_value name (assign_all env1 config) = Some mid"
    and 1: "case map_of (rev env1) name of None \<Rightarrow> mid = old | Some v \<Rightarrow> assigned v d mid"
    using assign_all_value [OF assms] by blast
  obtain new where n: "config_value name (assign_all env2 (assign_all env1 config)) = Some new"
    and 2: "case map_of (rev env2) name of None \<Rightarrow> new = mid | Some v \<Rightarrow> assigned v d new"
    using assign_all_value [OF config_ok_assign [OF assms(1)] assms(2) m] by blast
  show ?thesis using n 1 2 by (auto simp: map_add_def split: option.splits)
qed

end
