(* ===== verification/Spec2Isabelle.thy ===== *)
theory Spec2Isabelle
  imports DumpConfig RemoveDir SftpProtocol FileTransfer FindKernel SaveDumpRuns CalibrateBounds Multipath KernelScan ElfNotes KdumpTool FilterEnds NetTransfer Routable DeviceTimeout DumpTime SysUtil DebugLog Console Email TestPrograms MountTable SshTransfer ConfigValues
begin

text \<open>
  Verification of kdumptool, the program of the kdump package that saves a crash dump: it reads the
  configuration, finds the kernel for the crash environment, estimates its memory, takes target URLs apart, copies the
  dump to a local directory or a remote host and deletes old dumps.

  How the parts interact. \<open>KdumpTool\<close> runs one subcommand. A subcommand reads the \<open>Configuration\<close>,
  which is filled by the shell and the kernel command line \<open>ConfigParser\<close> and printed by
  \<open>DumpConfig\<close>. The directory \<^verbatim>\<open>KDUMP_SAVEDIR\<close> is a list of URLs; \<open>URLParser\<close> takes them apart and
  \<open>RootDirURL\<close> maps local ones below a root directory with \<open>FilePath::getCanonicalPath\<close>. A \<open>Transfer\<close>
  (file, ssh, SFTP) pulls blocks from a \<open>DataProvider\<close> (file, buffer, process) and stores them.
  \<open>DeleteDumps\<close> removes the oldest dump directories; \<open>FindKernel\<close> selects the kernel image by name and
  by its \<open>Kconfig\<close>.

  Theories, in the order of their imports (sources below \<^verbatim>\<open>src/kdumptool/\<close>):

  \<^item> Kdump\_Prelude: errors, results, and the operations of \<^verbatim>\<open>std::string\<close>, \<^verbatim>\<open>std::map\<close> and streams that the sources
    use; the locale \<open>ordered_map\<close> and its interpretation. StateExn: code that changes state and throws.
  \<^item> StringUtil (\<^verbatim>\<open>stringutil.cc\<close>, \<^verbatim>\<open>stringvector.cc\<close>), QuotedString (\<^verbatim>\<open>quotedstring.cc\<close>): string functions; the
    lemmas give round trips and the equality of the in-place URL decoder with a recursive one.
  \<^item> ConfigParser (\<^verbatim>\<open>configparser.cc\<close>), Configuration (\<^verbatim>\<open>configuration.cc\<close>, \<^verbatim>\<open>define_opt.h\<close>), DumpConfig
    (\<^verbatim>\<open>dumpconfig.cc\<close>): the parser as a fold over the characters with its four local variables, the option table,
    the printed form; the lemmas show that what is printed for the kernel is read back.
  \<^item> URLParser (\<^verbatim>\<open>urlparser.cc\<close>), FilePath and RemoveDir (\<^verbatim>\<open>fileutil.cc\<close>), RootDirURL (\<^verbatim>\<open>rootdirurl.cc\<close>): the stages of the URL
    constructor, the loop over path components with at most 20 links (its measure is the number of links left, then
    the characters left), recursive creation and removal of directories. The file system is a
    function from paths to nodes or a record of system calls on a world.
  \<^item> DeleteDumps (\<^verbatim>\<open>deletedumps.cc\<close>, \<^verbatim>\<open>print_target.cc\<close>): the two subcommands. Its operation \<open>op_rmdir\<close> is
    \<open>with_rmdir\<close> of RemoveDir, whose fuel is the depth of the directory tree.
  \<^item> DataProvider (\<^verbatim>\<open>dataprovider.cc\<close>): providers as records of functions, the reading loop \<open>pump\<close> as a partial
    function (a provider may never end), the locale \<open>provider\<close> with the law that a read returns the
    next bytes, interpreted on the buffer, file and process providers.
  \<^item> FileTransfer (\<^verbatim>\<open>transfer.cc\<close>): the sparse copy, into a buffered output stream: a policy says how many bytes a write hands to the
    kernel, every system call may fail, and \<^verbatim>\<open>fclose\<close> flushes the rest and reports a failure that the code ignores.
  \<^item> SftpPacket, SftpTransfer, SftpProtocol (\<^verbatim>\<open>sshtransfer.cc\<close>): packets over 64-bit words and bytes, the requests, the
    transfer; \<open>packet_field\<close> is the law of a put and a get operation. The ssh process is the list of the chunks
    that \<^verbatim>\<open>read\<close> returns, the list of the results of \<^verbatim>\<open>write\<close>, and the bytes written. SshTransfer: the upload through a
    pipe to a subprocess (of Process), from \<^verbatim>\<open>spawn\<close> to the destructors; what \<^verbatim>\<open>waitpid\<close> answers is a function of the arguments,
    of the bytes sent and of whether the pipe is closed, and no answer is a wait for ever.
  \<^item> Kconfig (\<^verbatim>\<open>kconfig.cc\<close>), FindKernel (\<^verbatim>\<open>kernelpath.cc\<close>, \<^verbatim>\<open>findkernel.cc\<close>): kernel configurations and the search;
    \<open>line_says\<close> lists the forms of a configuration line with their meanings.
  \<^item> Vmcoreinfo (\<^verbatim>\<open>vmcoreinfo.cc\<close>, \<^verbatim>\<open>read_vmcoreinfo.cc\<close>): the loop over the ELF notes (its measure is what is left of the buffer), the
    lines of the note as a map. \<^verbatim>\<open>libelf\<close> is a parameter.
  \<^item> SaveDump, SaveDumpRuns (\<^verbatim>\<open>savedump.cc\<close>): every method of the subcommand as a state transformer over its members and a world with
    a record of operations; how errors reach the exit code, what is uploaded, which mails are sent, when the dump is deleted.

  \<^item> Istream: \<^verbatim>\<open>std::istream\<close> with its state bits. SystemInfo, MemMap, Calibrate (\<^verbatim>\<open>calibrate.cc\<close>): CPU sets, hypervisor, framebuffers
    and slabs; the memory map with its parser and the search for a place; the estimate of the crash kernel memory on 64-bit words,
    with the constants of an architecture as a record. CalibrateBounds relates it to the natural numbers: parts of up to \<open>2 ^ 43\<close> KiB
    (8 PiB) cannot wrap around.
  \<^item> ToolOutput, Mounts (\<^verbatim>\<open>mounts.cc\<close>): the lines of a tool's output, the mount of a path, the root device of the kernel command line, the
    devices below a directory. MountTable: the iterators over a table, whose search refines the one over its list, and the references of the wrappers.
    \<^verbatim>\<open>libmount\<close>, ioctls and \<^verbatim>\<open>lsblk\<close> are parameters.

  \<^item> Multipath (\<^verbatim>\<open>multipath.cc\<close>): the filter of \<^verbatim>\<open>multipath.conf\<close> with its tokenizer (a partial function that is shown to end) and its
    handlers of sections. KernelImage (\<^verbatim>\<open>kerneltool.cc\<close>, \<^verbatim>\<open>identifykernel.cc\<close>, \<^verbatim>\<open>read_ikconfig.cc\<close>) and KernelScan: the type of a kernel
    image, relocatability, and the embedded configuration; which marks of it the overlapping reads find.
  \<^item> ElfNotes (\<^verbatim>\<open>util.cc\<close>): notes by their name, the check for a Xen core. KdumpTool (\<^verbatim>\<open>option.cc\<close>, \<^verbatim>\<open>optionparser.cc\<close>,
    \<^verbatim>\<open>kdumptool.cc\<close>, \<^verbatim>\<open>main.cc\<close>): the command line, the choice of the subcommand and the exit code, also of the process that goes into the background; \<^verbatim>\<open>getopt_long\<close> is
    a parameter. ConfigValues: which of the file, the command line and the default gives an option its value.

  \<^item> Process, ProcessFilter (\<^verbatim>\<open>process.cc\<close>, \<^verbatim>\<open>multiplexio.cc\<close>): child processes with their pipes, both sides of the fork, and the loop
    over \<^verbatim>\<open>poll\<close> that serves them, as partial functions. FilterRuns shows what each object moves through its own descriptor, FilterEnds
    when the loop ends (the measure is the input not yet written plus the output not yet read) and when it cannot.
  \<^item> NetTransfer (\<^verbatim>\<open>transfer.cc\<close>): NFS and CIFS shares, which mount, translate their URLs and unmount over an arbitrary system, with
    the mount points in use as an observation of it; FTP over a record of the results of \<^verbatim>\<open>libcurl\<close>.
  \<^item> NetLink, Routable (\<^verbatim>\<open>routable.cc\<close>, \<^verbatim>\<open>socket.cc\<close>): netlink messages on the bytes of the receive buffer, route requests and their
    replies; the loops that wait for a name and for a route, as partial functions, with their time-outs in \<^verbatim>\<open>int\<close>; sockets.
  \<^item> DeviceTimeout (\<^verbatim>\<open>init/device-timeout-generator.c\<close>): the systemd generator of the kdump initrd, with the buffers it works in
    place on; \<open>names_device\<close> and \<open>unit_of\<close> are the entries of fstab and the unit names as documented, for entries without escapes.
  \<^item> DumpTime (\<^verbatim>\<open>stringutil.cc\<close>): \<^verbatim>\<open>strftime\<close> and the names of dumps, whose order is that of their times. SysUtil (\<^verbatim>\<open>util.cc\<close>, \<^verbatim>\<open>fileutil.cc\<close>,
    \<^verbatim>\<open>charv.cc\<close>): system names, sizes, descriptors as a list that a new one enters at its first free place, and the step into the background.
  \<^item> DebugLog (\<^verbatim>\<open>debug.cc\<close>): formats with a \<^verbatim>\<open>va_list\<close> that one use makes invalid, levels and destinations. Console (\<^verbatim>\<open>progress.cc\<close>,
    \<^verbatim>\<open>ledblink.cc\<close>): the progress bar as the string it writes, and the lights as a partial function.
  \<^item> Email (\<^verbatim>\<open>email.cc\<close>): messages, callbacks and the calls of \<^verbatim>\<open>libesmtp\<close> on an arbitrary state, as the mail operation of SaveDump.
  \<^item> TestPrograms (\<^verbatim>\<open>test*.cc\<close>): the drivers of the test suite over the definitions of the classes they drive.

  This theory states the properties, numbered, with an example for each that has hypotheses.

  Conventions. A class is a record, a constructor or method a function on it; exceptions are the
  datatype \<open>kerror\<close>, whose constructor \<open>Undefined\<close> marks undefined behaviour of the C++ code. Strings are byte
  lists. The environment (files, processes, the network) is a parameter or part of the state, never fixed. Methods are
  modelled without their debug output and warnings on standard error; DebugLog has what such a message does.

  Not modelled: the constants of the 32-bit architectures, where \<^verbatim>\<open>unsigned long\<close> has another width;
  \<^verbatim>\<open>testio\<close> and \<^verbatim>\<open>testprocess\<close>, which only run other programs. FindKernel takes the results of \<^verbatim>\<open>KernelTool\<close> as a record.
\<close>
section \<open>Objects used in the examples\<close>

definition ex_stream :: stdio_file where
  "ex_stream = \<lparr>f_bytes = ''dump'', f_rpos = 0, f_fault = None\<rparr>"

definition ex_process :: process_dp where
  "ex_process = ProcessDataProvider (Inr ex_stream) 0 (\<lambda>_. 0) ''makedumpfile -F'' ''makedumpfile''"

definition ex_target :: root_dir_url where
  "ex_target = \<lparr>m_url = ''sftp://host/dump'', m_protocol = PROT_SFTP, m_hostname = ''host'', m_password = [],
     m_username = ''root'', m_port = -1, m_path = ''/dump'', m_realpath = []\<rparr>"

definition ex_sftp :: sftp where
  "ex_sftp = \<lparr>m_lastid = 0, m_proto_ver = 3, s_out = [], s_results = [],
     s_in = [Inr (upload_answers 0 ''h'' 1)]\<rparr>"

definition ex_file_dp :: file_dp where
  "ex_file_dp = FileDataProvider \<lparr>fe_fopen = Inr ex_stream, fe_fileno = None, fe_size = Inr 4,
     fe_rewind = None, fe_fdpos = int\<rparr> ''/proc/vmcore''"

definition ex_dir :: root_dir_url where
  "ex_dir = \<lparr>m_url = ''/crash'', m_protocol = PROT_FILE, m_hostname = [], m_password = [],
     m_username = [], m_port = -1, m_path = ''/crash'', m_realpath = ''/root/crash''\<rparr>"

definition ex_ops :: "string list dir_ops" where
  "ex_ops = \<lparr>op_exists = (\<lambda>_ _. True),
     op_opendir = (\<lambda>_ _. Inr [\<lparr>d_name = ''b'', d_type = DT_DIR\<rparr>, \<lparr>d_name = ''.'', d_type = DT_DIR\<rparr>,
                              \<lparr>d_name = ''a'', d_type = DT_DIR\<rparr>]),
     op_stat_dir = (\<lambda>_ _ _. None), op_stat_ok = (\<lambda>_ _ _. True), op_rmdir = log_rmdir\<rparr>"

lemma ex_process_ready:
  "pdp_prepare ex_process = (Inr (), ex_process\<lparr>pdp_processFile := Some ex_stream\<rparr>)"
  "exits_ok (ex_process\<lparr>pdp_processFile := Some ex_stream\<rparr>)"
  by (simp_all add: pdp_prepare_def ex_process_def ProcessDataProvider_def exits_ok_def opened_def
      ex_stream_def WEXITSTATUS_def)

lemma ex_rest: "stream_rest ex_stream = ''dump''"
  by (simp add: stream_rest_def ex_stream_def)

lemma ex_chunks: "chunks BUFSIZ ''dump'' = [''dump'']"
  by (simp add: chunks.simps BUFSIZ_def)

lemma ex_served: "served (upload_answers (m_lastid ex_sftp) ''h'' 1) (m_lastid ex_sftp) ex_sftp"
  by (simp add: served_def ex_sftp_def upload_answers_def)

lemma ex_frame: "frame [7] = [0, 0, 0, 1, 7]"
  by code_simp

lemma ex_next_id: "next_id 0 = 1"
  by code_simp

lemma ex_sort: "sort [''b'', ''a''] = [''a'', ''b'']"
  by code_simp

lemma process_provider_sel [simp]:
  "dp_getData process_provider = pdp_getData" "dp_prepare process_provider = pdp_prepare"
  "dp_finish process_provider = pdp_finish"
  by (simp_all add: process_provider_def)

lemma file_provider_sel [simp]:
  "dp_getData file_provider = fdp_getData" "dp_prepare file_provider = fdp_prepare"
  "dp_finish file_provider = fdp_finish"
  by (simp_all add: file_provider_def)

lemma pdp_prepare_opened:
  "pdp_popen p = Inr f \<Longrightarrow> pdp_prepare p = (Inr (), p\<lparr>pdp_processFile := Some f\<rparr>)"
  by (simp add: pdp_prepare_def)

lemma ex_upload: "\<exists>p' s'. SFTP_perform [ex_target] process_provider [''vmcore''] ex_process ex_sftp = Some (Inr (), p', s')"
  using exiting_process.SFTP_perform_succeeds [of process_provider ex_process
      "ex_process\<lparr>pdp_processFile := Some ex_stream\<rparr>" ex_sftp "''h''" "[ex_target]" "[''vmcore'']"]
    ex_process_ready ex_served
  by (simp add: pdp_finish_exits_ok opened_rest_def ex_rest ex_chunks)

section \<open>Transfers\<close>

text \<open>
  C1. What an SFTP upload that returns has put on the wire, whatever the server answered and however its
  answers and the writes were cut into pieces: an open request for the target file, one write request
  per block of the dump process's output with consecutive offsets and identifiers, a close request, and
  nothing else; the blocks concatenated are the output of the process.
\<close>

theorem sftp_upload_wire:
  assumes "pdp_popen p = Inr f" and "f_fault f = None"
    and "SFTP_perform urlv process_provider fs p s = Some (Inr (), p', s')"
  shows "\<exists>handle cs. concat cs = stream_rest f \<and>
    s_out s' = s_out s @ transfer_frames (appendPath (m_path (hd urlv)) (hd fs)) handle (m_lastid s) cs"
  using opened_process.SFTP_perform_out [of process_provider p "p\<lparr>pdp_processFile := Some f\<rparr>" urlv fs s p' s']
    concat_chunks [OF BUFSIZ_pos, of "stream_rest f"] assms
  by (auto simp: pdp_prepare_opened opened_def opened_rest_def)

lemma sftp_upload_wire_witness:
  "\<exists>p' s' handle cs. SFTP_perform [ex_target] process_provider [''vmcore''] ex_process ex_sftp = Some (Inr (), p', s') \<and>
    concat cs = ''dump'' \<and> s_out s' = transfer_frames ''/dump/vmcore'' handle 0 cs"
proof -
  obtain p' s' where r: "SFTP_perform [ex_target] process_provider [''vmcore''] ex_process ex_sftp = Some (Inr (), p', s')"
    using ex_upload by blast
  have "pdp_popen ex_process = Inr ex_stream" "f_fault ex_stream = None" "s_out ex_sftp = []"
    "m_lastid ex_sftp = 0" "appendPath ''/dump'' ''vmcore'' = ''/dump/vmcore''" "m_path ex_target = ''/dump''"
    by (simp_all add: ex_process_def ProcessDataProvider_def ex_stream_def ex_sftp_def ex_target_def) code_simp
  then show ?thesis
    using sftp_upload_wire [OF _ _ r] r by (auto simp: ex_rest)
qed

text \<open>
  C2. Against a server that accepts every request, the upload of a process that exits with status 0
  returns without an error: the loop ends and every answer is matched to its request.
\<close>

theorem sftp_upload_succeeds:
  assumes "pdp_popen p = Inr f" and "f_fault f = None" and "WEXITSTATUS (pdp_pclose p) = 0"
    and "served (upload_answers (m_lastid s) handle (length (chunks BUFSIZ (stream_rest f)))) (m_lastid s) s"
    and "length handle < 2 ^ 30"
  shows "\<exists>p' s'. SFTP_perform urlv process_provider fs p s = Some (Inr (), p', s')"
  by (rule exiting_process.SFTP_perform_succeeds [of _ _ "p\<lparr>pdp_processFile := Some f\<rparr>" _ handle])
    (use assms in \<open>simp_all add: pdp_prepare_opened pdp_finish_exits_ok exits_ok_def opened_def opened_rest_def\<close>)

lemma sftp_upload_succeeds_witness:
  "\<exists>p' s'. SFTP_perform [ex_target] process_provider [''vmcore''] ex_process ex_sftp = Some (Inr (), p', s')"
  by (rule sftp_upload_succeeds [of _ ex_stream _ "''h''"])
    (use ex_served in \<open>simp_all add: ex_process_def ProcessDataProvider_def ex_stream_def stream_rest_def
      WEXITSTATUS_def ex_chunks\<close>)

text \<open>
  Reading one packet takes exactly one frame off the stream and leaves the rest, for any way in which the
  bytes are cut into the chunks that \<^verbatim>\<open>read\<close> returns.
\<close>

theorem recvPacket_reassembles:
  assumes "steady (s_in s)" and "incoming (s_in s) = frame body @ more_in" and "length body < 2 ^ 32"
  shows "\<exists>cs'. recvPacket pkt s = (Inr \<lparr>m_vector = frame body, m_gpos = 4\<rparr>, s\<lparr>s_in := cs'\<rparr>) \<and>
    incoming cs' = more_in \<and> steady cs'"
  by (rule recvPacket_frame [OF assms])

lemma recvPacket_reassembles_witness:
  "\<exists>cs'. recvPacket SFTPPacket (ex_sftp\<lparr>s_in := [Inr [0], Inr [0, 0, 1, 7, 9]]\<rparr>) =
    (Inr \<lparr>m_vector = frame [7], m_gpos = 4\<rparr>, ex_sftp\<lparr>s_in := cs'\<rparr>) \<and> incoming cs' = [9] \<and> steady cs'"
  using recvPacket_reassembles [of "ex_sftp\<lparr>s_in := [Inr [0], Inr [0, 0, 1, 7, 9]]\<rparr>" "[7]" "[9]" SFTPPacket]
  by (simp add: ex_frame)

text \<open>
  \<open>exists\<close> decides by the answer: attributes mean that the file is there, the status
  \<open>SSH_FX_NO_SUCH_FILE\<close> that it is not, another status or type is an error, and an answer to any other
  request is refused.
\<close>

theorem sftp_exists_answer:
  assumes "steady (s_in s)" and "s_results s = []" and "code < 2 ^ 32" and "i < 2 ^ 32"
    and "length flds < 2 ^ 30"
    and "incoming (s_in s) = frame (request_body type i (be_bytes 4 code @ flds)) @ more_in"
  shows "fst (exists path s) =
    (if i = next_id (m_lastid s) then stat_result path type code
     else Inl (KError ''SFTP request/reply id mismatch''))"
  by (rule exists_answer [OF assms])

lemma sftp_exists_answer_witness:
  "fst (exists ''/x'' (ex_sftp\<lparr>s_in := [Inr (frame (request_body SSH_FXP_STATUS 1 (be_bytes 4 2)))]\<rparr>)) = Inr False"
  using sftp_exists_answer [of "ex_sftp\<lparr>s_in := [Inr (frame (request_body SSH_FXP_STATUS 1 (be_bytes 4 2)))]\<rparr>"
      2 1 "[]" SSH_FXP_STATUS "[]" "''/x''"]
  by (simp add: ex_sftp_def ex_next_id stat_result_def fxp SSH_FX_NO_SUCH_FILE_def)

text \<open>
  C3. Saving to a local file: if \<open>performPipe\<close> returns, the file is a prefix of the bytes of the source, with or
  without holes for blocks of zeros, also when the last block became a hole, whatever the buffer of the stream held
  back and whichever system calls failed. It is all of them when \<open>fclose\<close>, whose result the code does not look at,
  succeeded.
\<close>

theorem sparse_copy_exact:
  assumes "fe_fopen (fdp_env p) = Inr f" and "f_fault f = None" and "fe_fileno (fdp_env p) = None"
    and "fe_size (fdp_env p) = Inr len" and "fe_rewind (fdp_env p) = None" and "0 < bufferSize"
    and "performPipe file_provider fopen sparse bufferSize targets p = Some (Inr (), p', Some g)"
  shows "prefix (os_data g) (stream_rest f) \<and> (os_fclose g = None \<longrightarrow> os_data g = stream_rest f)"
proof -
  obtain p1 where p1: "fdp_prepare p = (Inr (), p1)" "fdp_file p1 = Some f"
    using assms by (simp add: fdp_prepare_def adp_prepare_def notify_def Let_def)
  show ?thesis
    using opened_file.performPipe_contents [of file_provider p p1 bufferSize] assms p1
    by (auto simp: opened_def opened_rest_def)
qed

lemma ex_file_ready:
  "\<exists>p1. fdp_prepare ex_file_dp = (Inr (), p1) \<and> fdp_file p1 = Some ex_stream"
  by (simp add: fdp_prepare_def adp_prepare_def notify_def Let_def ex_file_dp_def FileDataProvider_def)

lemma ex_copy:
  "\<exists>p' g. performPipe file_provider (\<lambda>_. Inr (drain, [])) True 2 [''f''] ex_file_dp = Some (Inr (), p', Some g) \<and>
    os_fclose g = None"
proof -
  obtain p1 where p1: "fdp_prepare ex_file_dp = (Inr (), p1)" "fdp_file p1 = Some ex_stream"
    using ex_file_ready by blast
  show ?thesis
    by (rule opened_file.performPipe_no_fault [of file_provider ex_file_dp p1])
      (simp_all add: p1 opened_def ex_stream_def fdp_finish_def adp_finish_def)
qed

lemma sparse_copy_exact_witness:
  "\<exists>p' g. performPipe file_provider (\<lambda>_. Inr (\<lambda>_. 1, [])) True 2 [''f''] ex_file_dp = Some (Inr (), p', Some g) \<and>
    os_data g = ''dump''"
proof -
  obtain p' g where r: "performPipe file_provider (\<lambda>_. Inr (\<lambda>_. 1, [])) True 2 [''f''] ex_file_dp = Some (Inr (), p', Some g)"
    and c: "os_fclose g = None"
    using ex_copy by blast
  have "prefix (os_data g) (stream_rest ex_stream) \<and> (os_fclose g = None \<longrightarrow> os_data g = stream_rest ex_stream)"
    by (rule sparse_copy_exact [of ex_file_dp ex_stream 4, OF _ _ _ _ _ _ r])
      (simp_all add: ex_file_dp_def FileDataProvider_def ex_stream_def)
  then show ?thesis using r c by (simp add: ex_rest)
qed

text \<open>
  The ignored result matters: when the whole file fits into the buffer of the stream and the disk is full, the
  transfer returns without an error and leaves an empty file.
\<close>

theorem close_failure_ignored:
  "\<exists>p' g. performPipe file_provider (\<lambda>_. Inr (\<lambda>_. 0, [Fails 0 (EOTHER 28)])) False 8 [''f''] ex_file_dp =
    Some (Inr (), p', Some g) \<and> os_data g = [] \<and> os_fclose g = Some (EOTHER 28)"
proof -
  obtain p1 where p1: "fdp_prepare ex_file_dp = (Inr (), p1)" "fdp_file p1 = Some ex_stream"
    using ex_file_ready by blast
  define fp where "fp = \<lparr>os_data = [], os_off = 0, os_pending = [], os_drain = \<lambda>_. 0,
    os_faults = [Fails 0 (EOTHER 28)], os_fclose = None\<rparr>"
  let ?s0 = "ostream.extend fp \<lparr>last_was_sparse = False\<rparr>"
  have fp: "open_out (\<lambda>_. Inr (\<lambda>_. 0, [Fails 0 (EOTHER 28)])) ''f'' = Inr fp" by (simp add: open_out_def fp_def)
  have o1: "opened (fdp_file p1)" using p1 by (simp add: opened_def ex_stream_def)
  have o2: "opened_rest (fdp_file p1) = ''dump''" using p1 by (simp add: opened_rest_def ex_rest)
  have c: "chunks 8 ''dump'' = [''dump'']" by (simp add: chunks.simps)
  define s where "s = ostream.extend (fp\<lparr>os_pending := ''dump''\<rparr>) \<lparr>last_was_sparse = False\<rparr>"
  have r: "put_all (pipe_put False 8) [''dump''] ?s0 = (Inr (), s)"
    by (simp add: s_def pipe_put_def fwrite_def Let_def fp_def ostream.defs)
  have s: "ostream.truncate s = fp\<lparr>os_pending := ''dump''\<rparr>" "\<not> last_was_sparse s"
    by (simp_all add: s_def ostream.defs)
  obtain p2 where pump: "pump fdp_getData 8 (pipe_put False 8) p1 ?s0 = Some (Inr (), p2, s)"
    using opened_file.pump_put_all [OF o1, of 8 "pipe_put False 8" ?s0] r o2 c by auto
  have cl: "os_data (close_out (fp\<lparr>os_pending := ''dump''\<rparr>)) = [] \<and>
      os_fclose (close_out (fp\<lparr>os_pending := ''dump''\<rparr>)) = Some (EOTHER 28)"
    by (simp add: close_out_def fclose_def fflush_def write_out_def next_fault_def write_at_def fp_def Let_def)
  obtain p3 where fin: "fdp_finish p2 = (Inr (), p3)" by (simp add: fdp_finish_def adp_finish_def)
  show ?thesis using pump s fin cl by (auto simp: performPipe_def fp p1 Let_def)
qed

text \<open>
  C4. An upload over ssh that returns has written to the pipe exactly the bytes of the dump process, and the
  \<^verbatim>\<open>ssh\<close> started for it, with the arguments of the target, was reported by \<^verbatim>\<open>waitpid\<close> with the status 0 after these
  bytes. By then its input had not ended: the last argument of \<open>child\<close> is whether the writing end is closed.
\<close>

theorem ssh_upload_contents:
  assumes "pdp_popen p = Inr f" and "f_fault f = None"
    and "pe_pipe2 env (pw_time w) (pw_open w) = Inr (rd, wr)" and "rd \<noteq> wr"
    and "pe_fork env (Suc (pw_time w)) = Inr pid" and "pid \<noteq> -1"
    and "SSH_perform env child urlv process_provider fs p w = Some (Inr (), p', w')"
  shows "pw_sent w' wr = pw_sent w wr @ stream_rest f \<and>
    child (SSH_makeArgs (hd urlv) (SSH_remote (hd urlv) (hd fs))) (stream_rest f) False = Some (Inr (pid, 0))"
  using opened_process.SSH_perform_contents [of process_provider p "p\<lparr>pdp_processFile := Some f\<rparr>" env w rd wr pid child urlv fs p' w']
    assms
  by (auto simp: pdp_prepare_opened opened_def opened_rest_def ssh_args_def)

text \<open>
  When the dump process succeeds and every write to the pipe does, \<^verbatim>\<open>ssh\<close> decides, and it decides with its
  input still open, because the program waits for it before it closes the pipe. If it ends after reading these bytes,
  the transfer returns exactly for the status 0 of this \<^verbatim>\<open>ssh\<close> and throws otherwise. If it goes on reading until the
  end of its input, as the \<^verbatim>\<open>dd\<close> of the remote command does, the transfer never returns.
\<close>

theorem ssh_upload_waits:
  assumes "pdp_popen p = Inr f" and "f_fault f = None" and "WEXITSTATUS (pdp_pclose p) = 0"
    and "pe_pipe2 env (pw_time w) (pw_open w) = Inr (rd, wr)" and "rd \<noteq> wr"
    and "pe_fork env (Suc (pw_time w)) = Inr pid" and "pid \<noteq> -1"
    and "writes_succeed wr w"
  shows "case child (SSH_makeArgs (hd urlv) (SSH_remote (hd urlv) (hd fs))) (stream_rest f) False of
      None \<Rightarrow> SSH_perform env child urlv process_provider fs p w = None
    | Some a \<Rightarrow> \<exists>r p' w'. SSH_perform env child urlv process_provider fs p w = Some (r, p', w') \<and>
        pw_sent w' wr = pw_sent w wr @ stream_rest f \<and> (r = Inr () \<longleftrightarrow> a = Inr (pid, 0))"
  using exiting_process.SSH_perform_result [of process_provider p "p\<lparr>pdp_processFile := Some f\<rparr>" env w rd wr pid child urlv fs]
    assms
  by (auto simp: pdp_prepare_opened pdp_finish_exits_ok exits_ok_def opened_def opened_rest_def ssh_args_def
      split: option.splits)

text \<open>
  Two children: one that ends by itself after the four bytes of the example, and one that reads until its input ends.
\<close>

definition ex_child :: ssh_child where
  "ex_child args input eof = (if input = ''dump'' then Some (Inr (7, 0)) else None)"

definition ex_dd :: ssh_child where
  "ex_dd args input eof = (if eof then Some (Inr (7, 0)) else None)"

definition ex_ssh_env :: proc_env where
  "ex_ssh_env = \<lparr>pe_pipe2 = (\<lambda>_ _. Inr (3, 4)), pe_fork = (\<lambda>_. Inr 7), pe_poll = (\<lambda>_. Inl (EOTHER 4)),
     pe_kill = (\<lambda>_ _. None), pe_waitpid = (\<lambda>_. Inr (7, 0))\<rparr>"

definition ex_ssh_world :: proc_world where
  "ex_ssh_world = \<lparr>pw_time = 0, pw_open = {0, 1, 2}, pw_store = [], pw_reads = (\<lambda>_. []),
     pw_limits = (\<lambda>_. [Inr 1]), pw_sent = (\<lambda>_. [])\<rparr>"

lemma ex_ssh_ready:
  "pdp_popen ex_process = Inr ex_stream" "f_fault ex_stream = None" "WEXITSTATUS (pdp_pclose ex_process) = 0"
  "pe_pipe2 ex_ssh_env (pw_time ex_ssh_world) (pw_open ex_ssh_world) = Inr (3, 4)" "(3::int) \<noteq> 4"
  "pe_fork ex_ssh_env (Suc (pw_time ex_ssh_world)) = Inr 7" "(7::int) \<noteq> -1"
  "writes_succeed 4 ex_ssh_world" "pw_sent ex_ssh_world 4 = []"
  by (simp_all add: ex_process_def ProcessDataProvider_def ex_stream_def WEXITSTATUS_def ex_ssh_env_def ex_ssh_world_def
      writes_succeed_def)

lemma ex_ssh_returns:
  "\<exists>p' w'. SSH_perform ex_ssh_env ex_child [ex_target] process_provider [''f''] ex_process ex_ssh_world = Some (Inr (), p', w')"
proof -
  have "exits_ok (ex_process\<lparr>pdp_processFile := Some ex_stream\<rparr>)" by (rule ex_process_ready(2))
  then show ?thesis
    using exiting_process.SSH_perform_result [of process_provider ex_process "ex_process\<lparr>pdp_processFile := Some ex_stream\<rparr>"
        ex_ssh_env ex_ssh_world 3 4 7 ex_child "[ex_target]" "[''f'']"] ex_ssh_ready ex_process_ready(1)
    by (auto simp: pdp_finish_exits_ok opened_rest_def ex_rest ex_child_def)
qed

lemma ssh_upload_contents_witness:
  "\<exists>p' w'. SSH_perform ex_ssh_env ex_child [ex_target] process_provider [''f''] ex_process ex_ssh_world = Some (Inr (), p', w') \<and>
    pw_sent w' 4 = ''dump''"
proof -
  obtain p' w' where r:
    "SSH_perform ex_ssh_env ex_child [ex_target] process_provider [''f''] ex_process ex_ssh_world = Some (Inr (), p', w')"
    using ex_ssh_returns by blast
  show ?thesis
    using ssh_upload_contents [OF ex_ssh_ready(1,2,4-7) r] r by (simp add: ex_rest ex_ssh_ready(9))
qed

lemma ssh_upload_waits_witness:
  "SSH_perform ex_ssh_env ex_dd [ex_target] process_provider [''f''] ex_process ex_ssh_world = None"
  using ssh_upload_waits [OF ex_ssh_ready(1-8), of ex_dd "[ex_target]" "[''f'']"] by (simp add: ex_dd_def)

section \<open>Paths\<close>

text \<open>
  C5. For an absolute path and a root directory without a trailing slash, \<open>getCanonicalPath\<close> returns a path made
  of the root and of components none of which is empty, \<^verbatim>\<open>.\<close>, \<^verbatim>\<open>..\<close> or a symbolic link, or it throws a
  system error; it does nothing undefined. Links, loops of links and any number of \<^verbatim>\<open>..\<close> do not lead out of
  the root.
\<close>

theorem canonical_path_confined:
  assumes "root_ok root" and "path \<noteq> []" and "hd path = SLASH"
  shows "(\<exists>r. getCanonicalPath fs cwd root path = Inr r \<and> canonical_below fs root r) \<or>
         (\<exists>m x. getCanonicalPath fs cwd root path = Inl (KSystemError m x))"
  by (rule getCanonicalPath_below [OF assms])

lemma canonical_path_confined_witness:
  "(\<exists>r. getCanonicalPath fs_dirs [] ''/root'' ''/../etc'' = Inr r \<and> canonical_below fs_dirs ''/root'' r) \<or>
   (\<exists>m x. getCanonicalPath fs_dirs [] ''/root'' ''/../etc'' = Inl (KSystemError m x))"
  by (rule canonical_path_confined) (simp_all add: root_ok_def SLASH_def)

text \<open>
  With the empty root directory, that is without \<^verbatim>\<open>-R\<close>, the first component is stripped wrongly behind a link
  to an absolute target: the last character of an empty string is read.
\<close>

theorem canonical_path_root_undefined:
  "getCanonicalPath fs_bin cwd [] ''/bin/sh'' = Inl (Undefined ''*ret.rbegin() of an empty string'')"
  by (rule canonical_root_undefined)

text \<open>
  A relative path is accepted when the current directory merely begins with the characters of the root, and the
  result is then outside the root.
\<close>

theorem canonical_path_cwd_escapes:
  "getCanonicalPath fs_dirs ''/x/rootfs'' ''/x/root'' ''../etc'' = Inr ''/x/etc''"
  by (rule canonical_cwd_escapes)

text \<open>
  C6. The real path of a local target given below a root directory lies below that directory.
\<close>

theorem root_dir_url_confined:
  assumes "root_ok rootdir" and "RootDirURL fs cwd url rootdir = Inr u" and "m_protocol u = PROT_FILE"
  shows "canonical_below fs rootdir (getRealPath u)"
  by (rule RootDirURL_confined [OF assms])

lemma root_dir_url_confined_witness:
  "canonical_below fs_dirs ''/root'' (getRealPath
     \<lparr>m_url = ''/a'', m_protocol = PROT_FILE, m_hostname = [], m_password = [], m_username = [],
      m_port = -1, m_path = ''/a'', m_realpath = ''/root/a''\<rparr>)"
proof (rule root_dir_url_confined [of _ _ "[]" "''/a''"])
  have "URLParser ''/a'' = Inr \<lparr>m_url = ''/a'', m_protocol = PROT_FILE, m_hostname = [], m_password = [],
      m_username = [], m_port = -1, m_path = ''/a''\<rparr>"
    by code_simp
  moreover have "getCanonicalPath fs_dirs [] ''/root'' ''/a'' = Inr ''/root/a''"
    by (simp add: canonical_eval fs_dirs_def)
  ultimately show "RootDirURL fs_dirs [] ''/a'' ''/root'' = Inr
     \<lparr>m_url = ''/a'', m_protocol = PROT_FILE, m_hostname = [], m_password = [], m_username = [],
      m_port = -1, m_path = ''/a'', m_realpath = ''/root/a''\<rparr>"
    by (simp add: RootDirURL_def url_getters url_parser.defs)
qed (simp_all add: root_ok_def SLASH_def)

text \<open>
  The recursive \<open>mkdir\<close> of an absolute path, with any number of trailing slashes, asks for every ancestor
  from the outermost to the directory itself, once each.
\<close>

theorem mkdir_creates_parents:
  assumes "\<forall>d \<in> set (d # ds). d \<noteq> [] \<and> SLASH \<notin> set d" and "set t \<subseteq> {SLASH}"
  shows "mkdir log_mkdir True (joinp [] (d # ds) @ t) w = (w @ parents [] (d # ds), Inr ())"
  by (rule mkdir_recursive [OF assms])

lemma mkdir_creates_parents_witness:
  "mkdir log_mkdir True ''/a/b//'' [] = ([''/a'', ''/a/b''], Inr ())"
  using mkdir_creates_parents [of "''a''" "[''b'']" "''//''" "[]"] by (simp add: joinp_def SLASH_def)

text \<open>
  \<open>listDir\<close> returns the names of exactly the entries that pass the filter, in ascending order.
\<close>

theorem listDir_sorted_entries:
  assumes "opendir this = Inr es" and "listDir opendir test this = Inr v"
  shows "sorted v \<and> set v = d_name ` {d \<in> set es. test d}"
  using listDir_sorted [OF assms(2)] listDir_mem [OF assms(2,1)] by auto

lemma listDir_sorted_entries_witness:
  "sorted [''a'', ''b''] \<and> set [''a'', ''b''] = d_name `
     {d \<in> set [\<lparr>d_name = ''b'', d_type = DT_DIR\<rparr>, \<lparr>d_name = ''.'', d_type = DT_DIR\<rparr>,
               \<lparr>d_name = ''a'', d_type = DT_DIR\<rparr>]. FilterDots d}"
  by (rule listDir_sorted_entries [where opendir = "\<lambda>_. Inr [\<lparr>d_name = ''b'', d_type = DT_DIR\<rparr>,
      \<lparr>d_name = ''.'', d_type = DT_DIR\<rparr>, \<lparr>d_name = ''a'', d_type = DT_DIR\<rparr>]"])
    (simp_all add: listDir_def FilterDots_def ex_sort)

section \<open>Deleting old dumps\<close>

text \<open>
  Given a count \<open>k\<close> not larger than the number of dumps, exactly the dumps with the \<open>k\<close> greatest names stay and
  all others are removed, in ascending order.
\<close>

theorem delete_keeps_newest:
  assumes "op_rmdir ops = log_rmdir" and "m_protocol url = PROT_FILE"
    and "op_exists ops w (getRealPath url)" and "kdump_dirs ops w (getRealPath url) = Inr v"
    and "0 \<le> k" and "k \<le> int (length v)"
  shows "\<exists>old new. v = old @ new \<and> int (length new) = k \<and> (\<forall>x \<in> set old. \<forall>y \<in> set new. x \<le> y) \<and>
    delete_one ops False url k w = (w @ map (appendPath (getRealPath url)) old, Inr ())"
  by (rule delete_one_keeps_newest [OF assms])

lemma ex_kdump_dirs: "kdump_dirs ex_ops w dir = Inr [''a'', ''b'']"
  by (simp add: kdump_dirs_def listDir_def ex_ops_def FilterKdumpDirs_def FilterDotsAndNondirs_def
      FilterDots_def ex_sort)

lemma delete_keeps_newest_witness:
  "\<exists>old new. [''a'', ''b''] = old @ new \<and> int (length new) = 1 \<and> (\<forall>x \<in> set old. \<forall>y \<in> set new. x \<le> y) \<and>
    delete_one ex_ops False ex_dir 1 [] = ([] @ map (appendPath (getRealPath ex_dir)) old, Inr ())"
  by (rule delete_keeps_newest [OF _ _ _ ex_kdump_dirs]) (simp_all add: ex_ops_def ex_dir_def)

text \<open>
  A dry run removes nothing, for every target list and whatever the operating system does.
\<close>

theorem delete_dry_run:
  "fst (delete_dumps_execute ops fs cwd rootdir True config w) = w"
  by (simp add: delete_dumps_execute_def Let_def delete_urls_dry)

text \<open>
  A configured count below \<open>-1\<close> makes \<open>delete_one\<close> copy more names than there are.
\<close>

theorem delete_negative_undefined:
  assumes "m_protocol url = PROT_FILE" and "op_exists ops w (getRealPath url)"
    and "kdump_dirs ops w (getRealPath url) = Inr v" and "k < -1"
  shows "delete_one ops dryRun url k w = (w, Inl (Undefined ''copy_n past the end''))"
  by (rule delete_one_undefined [OF assms])

lemma delete_negative_undefined_witness:
  "delete_one ex_ops False ex_dir (-2) [] = ([], Inl (Undefined ''copy_n past the end''))"
  by (rule delete_negative_undefined [OF _ _ ex_kdump_dirs]) (simp_all add: ex_ops_def ex_dir_def)

section \<open>Configuration\<close>

text \<open>
  C7. What \<^verbatim>\<open>dump_config --format=kernel\<close> prints on the kernel command line is read back by \<open>readCmdLine\<close> as the same
  value for every option, whatever the values contain (spaces, quotes, backslashes, any byte), on top of
  any configuration.
\<close>

theorem dump_config_readback:
  assumes "config_ok c" and "config_ok c0"
    and "m_format dc = FMT_KERNEL" and "m_usage dc = all_usage" and "\<not> m_nodefault dc"
    and "files filename = Inr (dump_config_execute dc c)"
  shows "readCmdLine files filename c0 = Inr \<lparr>m_readConfig = True, m_options = m_options c\<rparr>"
  by (rule dump_config_roundtrip [where files = files and filename = filename]) (rule assms)+

definition ex_dump_config :: "bool \<Rightarrow> dump_config" where
  "ex_dump_config nodefault = \<lparr>m_format = FMT_KERNEL, m_usage = all_usage, m_nodefault = nodefault\<rparr>"

lemma dump_config_readback_witness:
  "readCmdLine (\<lambda>_. Inr (dump_config_execute (ex_dump_config False) configuration_new)) ''f'' configuration_new =
    Inr \<lparr>m_readConfig = True, m_options = m_options configuration_new\<rparr>"
  by (rule dump_config_readback [where dc = "ex_dump_config False" and filename = "''f''" and
      files = "\<lambda>_. Inr (dump_config_execute (ex_dump_config False) configuration_new)"])
    (simp_all add: config_ok_new ex_dump_config_def)

text \<open>
  With \<^verbatim>\<open>--nodefault\<close> the options that have their default are left out, and a fresh configuration still
  comes out equal.
\<close>

theorem dump_config_nodefault_readback:
  assumes "config_ok c" and "m_format dc = FMT_KERNEL" and "m_usage dc = all_usage"
    and "files filename = Inr (dump_config_execute dc c)"
  shows "readCmdLine files filename configuration_new =
    Inr \<lparr>m_readConfig = True, m_options = m_options c\<rparr>"
  by (rule dump_config_nodefault_roundtrip [where files = files and filename = filename]) (rule assms)+

lemma dump_config_nodefault_readback_witness:
  "readCmdLine (\<lambda>_. Inr (dump_config_execute (ex_dump_config True) configuration_new)) ''f'' configuration_new =
    Inr \<lparr>m_readConfig = True, m_options = m_options configuration_new\<rparr>"
  by (rule dump_config_nodefault_readback [where dc = "ex_dump_config True" and filename = "''f''" and
      files = "\<lambda>_. Inr (dump_config_execute (ex_dump_config True) configuration_new)"])
    (simp_all add: config_ok_new ex_dump_config_def)

text \<open>
  The command line parser assigns exactly the variables of a printed list of assignments, in order, whatever the
  values contain.
\<close>

theorem kernel_assignments_parsed:
  assumes "\<forall>(n, v) \<in> set env. plain_name n"
  shows "kernel_parse_loop
           (concat (map (\<lambda>(n, v). n @ CHR ''='' # kernel_quoted v @ [CHR '' '']) env))
           (kparse_init vars) = kparse_init (smap.insert_all env vars)"
  by (rule kernel_parse_assignments [OF assms])

lemma kernel_assignments_parsed_witness:
  "kernel_parse_loop ''K=1 '' (kparse_init []) = kparse_init [(''K'', ''1'')]"
proof -
  have "kernel_quoted ''1'' = ''1''" "plain_name ''K''" "smap.insert_all [(''K'', ''1'')] [] = [(''K'', ''1'')]"
    by (simp_all add: kernel_quoted_eq kesc_char_def plain_name_def char_consts is_kernel_space_def ord_def)
  then show ?thesis
    using kernel_assignments_parsed [of "[(''K'', ''1'')]" "[]"] by simp
qed

text \<open>
  After a value without a name (\<^verbatim>\<open>=x\<close>) the parser never assigns a variable again: the rest of the command
  line is lost.
\<close>

theorem kernel_nameless_swallows:
  assumes "kp_name st = []" and "kp_in_value st"
  shows "kp_vars (kernel_parse_loop cs st) = kp_vars st"
  by (rule kernel_parse_no_name [OF assms])

lemma kernel_nameless_swallows_witness:
  "kp_vars (kernel_parse_loop ''=x KDUMP_SAVEDIR=/var '' (kparse_init [])) = []"
proof -
  have "kernel_parse_loop ''=x KDUMP_SAVEDIR=/var '' (kparse_init []) =
      kernel_parse_loop ''x KDUMP_SAVEDIR=/var '' ((kparse_init [])\<lparr>kp_in_value := True\<rparr>)"
    by (subst kernel_parse_loop.simps(2)) (simp add: kparse_init_def DQUOTE_def)
  then show ?thesis
    using kernel_nameless_swallows [of "(kparse_init [])\<lparr>kp_in_value := True\<rparr>" "''x KDUMP_SAVEDIR=/var ''"]
    by (simp add: kparse_init_def)
qed

text \<open>
  The loop over the usage option treats its comma-separated parts one by one, from the left, and stops at the
  first unknown one.
\<close>

theorem usage_mask_tokens:
  "usage_loop s 0 u =
     foldl (\<lambda>acc token. res_bind acc (usage_token token)) (Inr u) (ksplit (CHR '','') s)"
  by (simp add: usage_loop_split ksplit_def)

section \<open>Quoting and strings\<close>

text \<open>
  C8. A shell that reads a word printed with \<open>ShellQuotedString\<close> gets the original string, for every string.
\<close>

theorem shell_quoting_roundtrip:
  "sh_unquote False (shell_quoted s) = Some s"
  by (rule shell_quoting.unquote_quote)

text \<open>
  The in-place decoder, with two iterators over one buffer, computes the plain recursive decoding and reads
  nothing outside the string; the result is never longer.
\<close>

theorem decodeURL_in_place:
  "decodeURL formenc s = Inr (url_decode formenc s) \<and> length (url_decode formenc s) \<le> length s"
  by (simp add: decodeURL_eq_url_decode length_url_decode)

text \<open>
  Percent-encoding every byte but those of a set that keeps out \<^verbatim>\<open>%\<close> (and \<^verbatim>\<open>+\<close> for forms) is undone by
  \<open>decodeURL\<close>.
\<close>

theorem percent_roundtrip:
  assumes "\<And>c. keep c \<Longrightarrow> c \<noteq> CHR ''%'' \<and> \<not> (formenc \<and> c = CHR ''+'')"
  shows "decodeURL formenc (pct_encode keep s) = Inr s"
  by (simp add: decodeURL_eq_url_decode url_decode_pct_encode [OF assms])

lemma percent_roundtrip_witness: "decodeURL True (pct_encode isdigit ''a+1%'') = Inr ''a+1%''"
  by (rule percent_roundtrip) (auto simp: isdigit_def ord_def)

text \<open>
  \<open>join\<close> undoes \<open>split\<close> for every string, and \<open>split\<close> undoes \<open>join\<close> for every non-empty list of strings
  without the separator.
\<close>

theorem split_join_roundtrip:
  "join c (ksplit c s) = s \<and>
   (xs \<noteq> [] \<longrightarrow> (\<forall>x \<in> set xs. c \<notin> set x) \<longrightarrow> ksplit c (join c xs) = xs)"
  using join_ksplit ksplit_join by blast

lemma split_join_roundtrip_witness: "ksplit (CHR '','') (join (CHR '','') [''a'', '''']) = [''a'', '''']"
  using split_join_roundtrip [of "CHR '',''" "''''" "[''a'', '''']"] by simp

text \<open>
  Every \<^verbatim>\<open>int\<close> printed with \<open>number2string\<close> is read back by \<open>asInt\<close>.
\<close>

theorem asInt_roundtrip:
  assumes "INT_MIN \<le> i" and "i \<le> INT_MAX"
  shows "asInt (number2string i) = Inr i"
  by (rule asInt_number2string [OF assms])

lemma asInt_roundtrip_witness: "asInt (number2string (-2147483648)) = Inr (-2147483648)"
  by (rule asInt_roundtrip) (simp_all add: int_limits)

section \<open>URLs\<close>

text \<open>
  C9. A URL put together from a protocol other than file, a user name that is not empty, a password, a host, an
  optional port and an absolute path, each percent-encoded, is taken apart into exactly these parts.
\<close>

theorem url_roundtrip:
  assumes "prot \<noteq> PROT_FILE" and "user \<noteq> []" and "-1 \<le> port" and "port \<le> INT_MAX"
    and "path \<noteq> []" and "hd path = CHR ''/''"
  shows "URLParser (print_url prot user pass host port path) =
     Inr \<lparr>m_url = print_url prot user pass host port path, m_protocol = prot, m_hostname = host,
          m_password = pass, m_username = user, m_port = port, m_path = path\<rparr>"
  by (rule URLParser_print_url [OF assms])

lemma url_roundtrip_witness:
  "URLParser (print_url PROT_SFTP ''me'' ''p@:/'' ''h'' 22 ''/a b'') =
     Inr \<lparr>m_url = print_url PROT_SFTP ''me'' ''p@:/'' ''h'' 22 ''/a b'', m_protocol = PROT_SFTP, m_hostname = ''h'',
          m_password = ''p@:/'', m_username = ''me'', m_port = 22, m_path = ''/a b''\<rparr>"
  by (rule url_roundtrip) (simp_all add: int_limits)

text \<open>
  C10. Whatever the string, a URL that is accepted has an absolute path, no host when it is a local file, a user name when
  the protocol logs in, and a port within \<^verbatim>\<open>int\<close> (\<open>-1\<close> for none).
\<close>

theorem url_wellformed:
  assumes "URLParser url = Inr u"
  shows "url_ok u"
  by (rule URLParser_ok [OF assms])

lemma url_wellformed_witness:
  "url_ok \<lparr>m_url = ''/a'', m_protocol = PROT_FILE, m_hostname = [], m_password = [],
      m_username = [], m_port = -1, m_path = ''/a''\<rparr>"
  by (rule url_wellformed [of "''/a''"]) code_simp

section \<open>Kernels\<close>

text \<open>
  C11. A kernel configuration of lines of the forms in \<open>line_says\<close>, in any order: a symbol has the value that
  the last line about it says, or the invalid value. That holds for the configuration inside a kernel and for a file of short lines. A value between
  double quotes is taken as it is, without undoing the backslashes, and a number that is too large for an \<^verbatim>\<open>int\<close>
  becomes the largest one. The first malformed line is an error.
\<close>

theorem kernel_config_values:
  assumes "list_all2 line_says ls ss"
  shows "\<exists>configs. readFromKernel (Inr (config_text ls)) [] = Inr configs \<and>
    (\<forall>gz f. gz f = Some (map (\<lambda>l. l @ [NL]) ls) \<longrightarrow> readFromConfig gz f [] = Inr configs) \<and>
    (\<forall>n. kconfig_get n configs = (case map_of (rev (said ss)) n of None \<Rightarrow> T_INVALID | Some v \<Rightarrow> v)) \<and>
    (\<forall>l rest. line_bad l \<longrightarrow> (\<exists>m. readFromKernel (Inr (config_text (ls @ l # rest))) [] = Inl (KError m)))"
  using readFromKernel_lines [OF assms, of "[]" "[]"] readFromConfig_lines [OF assms] readFromKernel_bad [OF assms]
    kconfig_get_insert_all
  by auto

lemma kernel_config_values_witness:
  "\<exists>configs. readFromKernel (Inr (config_text [''# A is not set'', ''B=0099999999999'', ''# text'', ''C='' @ [DQUOTE] @ ''x'' @ [DQUOTE], ''A=m'']))
      [] = Inr configs \<and>
    kconfig_get ''A'' configs = T_TRISTATE MODULE \<and> kconfig_get ''B'' configs = T_INTEGER 2147483647 \<and>
    kconfig_get ''C'' configs = T_STRING ''x'' \<and> kconfig_get ''D'' configs = T_INVALID"
proof -
  have n: "symbol_name ''A''" "symbol_name ''B''" "symbol_name ''C''"
    by (simp_all add: symbol_name_def isalpha_def isupper_def ord_def NL_def)
  have a: "line_says ''# A is not set'' (Some (''A'', T_TRISTATE OFF))" "line_says ''A=m'' (Some (''A'', T_TRISTATE MODULE))"
    using says_not_set [OF n(1)] says_m [OF n(1)] by simp_all
  have b: "line_says ''B=0099999999999'' (Some (''B'', T_INTEGER 2147483647))"
  proof -
    have "max INT_MIN (min INT_MAX (1 * int (dec_val ''0099999999999''))) = 2147483647"
      by (simp add: int_limits dec_val_def ord_def)
    moreover have "line_says (''B'' @ ''='' @ [] @ ''0099999999999'')
        (Some (''B'', T_INTEGER (max INT_MIN (min INT_MAX (1 * int (dec_val ''0099999999999''))))))"
      by (rule says_integer [OF n(2)]) (simp_all add: isdigit_def ord_def)
    ultimately show ?thesis by simp
  qed
  have c: "line_says (''C='' @ [DQUOTE] @ ''x'' @ [DQUOTE]) (Some (''C'', T_STRING ''x''))"
    using says_string [OF n(3), of "''x''"] by (simp add: NL_def)
  have t: "line_says ''# text'' None"
    by (rule says_comment) (simp_all add: NL_def sublist_code)
  have "list_all2 line_says
      [''# A is not set'', ''B=0099999999999'', ''# text'', ''C='' @ [DQUOTE] @ ''x'' @ [DQUOTE], ''A=m'']
      [Some (''A'', T_TRISTATE OFF), Some (''B'', T_INTEGER 2147483647), None, Some (''C'', T_STRING ''x''),
       Some (''A'', T_TRISTATE MODULE)]"
    using a b c t by simp
  from kernel_config_values [OF this] show ?thesis by (elim exE conjE) (simp add: said_def)
qed

text \<open>
  C12. The kernel that \<open>find_kernel\<close> reports is an image of this architecture in \<^verbatim>\<open>/boot\<close>, of the configured version
  or of one of the candidates. It exists, its name ends in \<^verbatim>\<open>kdump\<close> or it is relocatable, and its configuration has
  neither of the two Xen options. The initrd carries the same version, and the suffix \<^verbatim>\<open>-kdump\<close> unless the version
  has it or fadump is used.
\<close>

theorem found_kernel_suitable:
  assumes "getPaths m config = Inr (Some (k, initrd))"
  shows "\<exists>ver img kt kconfig.
    ver \<in> (if config_string ''KDUMP_KERNELVER'' config \<noteq> [] then {config_string ''KDUMP_KERNELVER'' config}
      else fst ` set (kernel_candidates (getKernelRelease m))) \<and>
    img \<in> set (imageNames (getArch m)) \<and> k = ''/boot/'' @ img @ (if ver = [] then [] else ''-'' @ ver) \<and> file_exists m k \<and>
    kernelTool m k = Inr kt \<and> (suffix ''kdump'' k \<or> kt_isRelocatable kt = Inr True) \<and>
    kt_retrieveKernelConfig kt = Inr kconfig \<and>
    kconfig_get ''CONFIG_X86_64_XEN'' kconfig \<noteq> T_TRISTATE ON \<and> kconfig_get ''CONFIG_X86_XEN'' kconfig \<noteq> T_TRISTATE ON \<and>
    (SLASH \<notin> set ver \<longrightarrow> initrd = ''/boot/initrd'' @ (if ver = [] then [] else ''-'' @ ver) @
      (if config_bool ''KDUMP_FADUMP'' config \<or> suffix ''kdump'' ver then [] else ''-kdump''))"
  by (rule getPaths_suitable [OF assms])

definition ex_machine :: machine where
  "ex_machine = \<lparr>getArch = ''x86_64'', getKernelRelease = ''6.4-default'',
     file_exists = (\<lambda>f. f = ''/boot/vmlinuz-6.4-default''),
     kernelTool = (\<lambda>_. Inr \<lparr>kt_isRelocatable = Inr True, kt_retrieveKernelConfig = Inr []\<rparr>)\<rparr>"

lemma ex_auto: "findKernelAuto ex_machine = Inr ''/boot/vmlinuz-6.4-default''"
  by code_simp

lemma ex_kernelver: "config_string ''KDUMP_KERNELVER'' configuration_new = []"
  by (simp add: config_string_def config_value_def configuration_new_def define_opt_def Let_def)

lemma found_kernel_suitable_witness:
  "\<exists>initrd. getPaths ex_machine configuration_new = Inr (Some (''/boot/vmlinuz-6.4-default'', initrd)) \<and>
    file_exists ex_machine ''/boot/vmlinuz-6.4-default'' \<and> suffix ''-kdump'' initrd"
proof -
  have f: "\<not> config_bool ''KDUMP_FADUMP'' configuration_new"
    by (simp add: config_bool_def config_value_def configuration_new_def define_opt_def Let_def)
  obtain initrd where r: "getPaths ex_machine configuration_new = Inr (Some (''/boot/vmlinuz-6.4-default'', initrd))"
    by (simp add: getPaths_def ex_kernelver ex_auto Let_def)
  obtain ver img where v: "''/boot/vmlinuz-6.4-default'' = ''/boot/'' @ img @ (if ver = [] then [] else ''-'' @ ver)"
    and img: "img \<in> {''vmlinuz'', ''vmlinux''}" and e: "file_exists ex_machine ''/boot/vmlinuz-6.4-default''"
    and i: "SLASH \<notin> set ver \<longrightarrow> initrd = ''/boot/initrd'' @ (if ver = [] then [] else ''-'' @ ver) @
      (if suffix ''kdump'' ver then [] else ''-kdump'')"
    using found_kernel_suitable [OF r] f by (auto simp: ex_machine_def imageNames_def)
  have "ver = ''6.4-default''" using v img by (auto split: if_splits)
  then show ?thesis using r e i by (simp add: SLASH_def suffix_def)
qed

text \<open>
  The automatic search takes the first of its eight candidates that has an image which passes the check with the
  candidate's strictness; all earlier ones have no image or failed. It finds nothing only if all eight fail.
\<close>

theorem kernel_search_order:
  assumes "findKernelAuto m = Inr k"
  shows "(k = [] \<and> list_all (rejected m) (kernel_candidates (getKernelRelease m))) \<or>
    (\<exists>pre ver strict post. kernel_candidates (getKernelRelease m) = pre @ (ver, strict) # post \<and>
       list_all (rejected m) pre \<and> k = findForVersion m ver \<and> suitableForKdump m k strict = Inr True)"
proof (cases "k = []")
  case True
  then show ?thesis using try_candidates_none assms by (simp add: findKernelAuto_def)
next
  case False
  from try_candidates_first [OF assms [unfolded findKernelAuto_def] this] show ?thesis by blast
qed

lemma kernel_search_order_witness:
  "\<exists>pre ver strict post. kernel_candidates ''6.4-default'' = pre @ (ver, strict) # post \<and>
     list_all (rejected ex_machine) pre \<and> ''/boot/vmlinuz-6.4-default'' = findForVersion ex_machine ver \<and>
     suitableForKdump ex_machine ''/boot/vmlinuz-6.4-default'' strict = Inr True"
  using kernel_search_order [OF ex_auto] by (simp add: ex_machine_def)

text \<open>
  The image file of a kernel version is taken apart into \<^verbatim>\<open>/boot\<close>, the image name and the version, and its initrd is
  \<^verbatim>\<open>/boot/initrd-<version>-kdump\<close>, without the suffix for a version that ends in \<^verbatim>\<open>kdump\<close>.
\<close>

theorem initrd_of_version:
  assumes "img \<in> set (imageNames arch)" and "SLASH \<notin> set ver" and "ver \<noteq> []"
  shows "KernelPath arch (kernel_file ver img) = \<lparr>kp_directory = BOOTDIR, kp_image = img, kp_version = ver\<rparr> \<and>
    initrdPath False (KernelPath arch (kernel_file ver img)) =
      ''/boot/initrd-'' @ ver @ (if suffix ''kdump'' ver then [] else ''-kdump'')"
  using KernelPath_kernel_file [OF assms(1,2)] initrdPath_kernel_file [OF assms] by simp

lemma initrd_of_version_witness:
  "KernelPath ''ia64'' (kernel_file ''2.6-kdump'' ''vmlinuz'') =
     \<lparr>kp_directory = BOOTDIR, kp_image = ''vmlinuz'', kp_version = ''2.6-kdump''\<rparr> \<and>
   initrdPath False (KernelPath ''ia64'' (kernel_file ''2.6-kdump'' ''vmlinuz'')) =
     ''/boot/initrd-'' @ ''2.6-kdump'' @ (if suffix ''kdump'' ''2.6-kdump'' then [] else ''-kdump'')"
  by (rule initrd_of_version) (simp_all add: imageNames_def SLASH_def)

section \<open>Removing trees\<close>

text \<open>
  C13. The recursive \<open>rmdir\<close> of a directory tree returns and makes exactly the system calls that take the tree away, each
  directory after everything in it; all paths are the directory itself or below it.
\<close>

theorem rmdir_removes_tree:
  assumes "is_dir t" and "tree_ok t" and "listed ls p t" and "depth t \<le> fuel" and "p \<noteq> []" and "last p \<noteq> SLASH"
  shows "rmdir fuel (log_ops ls) True p w = Some (w @ removals p t, Inr ()) \<and>
    (\<forall>r \<in> set (removals p t). removal_path r = p \<or> prefix (p @ [SLASH]) (removal_path r))"
  using rmdir_tree [OF assms(1-4)] removals_below [OF assms(2,5,6)] by blast

lemma rmdir_removes_tree_witness:
  "rmdir 1 (log_ops (\<lambda>_. dirents [(''vmcore'', File)])) True ''/d'' [] =
     Some ([Removed ''/d/vmcore'', Rmdired ''/d''], Inr ())"
proof -
  have "appendPath ''/d'' ''vmcore'' = ''/d/vmcore''" by code_simp
  then show ?thesis
    using rmdir_removes_tree [of "Dir [(''vmcore'', File)]" "\<lambda>_. dirents [(''vmcore'', File)]" "''/d''" 1 "[]"]
    by (simp add: SLASH_def)
qed

section \<open>Vmcoreinfo\<close>

text \<open>
  Of a well-formed sequence of ELF notes, the first VMCOREINFO note is taken, or without one the last
  VMCOREINFO_XEN note, with exactly the bytes of its descriptor; without either the search ends with an error. Nothing is read outside
  the notes, and the flag says whether a Xen note was passed.
\<close>

theorem vmcoreinfo_note_selected:
  assumes "\<forall>n \<in> set ns. note_ok n"
  shows "readVmcoreinfoFromNotes (concat (map encode_note ns)) Vmcoreinfo =
    (case vmcoreinfo_note ns of None \<Rightarrow> Inl (KError ''VMCOREINFO not found.'') | Some d \<Rightarrow> Inr d,
     \<lparr>m_map = [], m_xenVmcoreinfo = xen_note_seen ns\<rparr>)"
  using readVmcoreinfoFromNotes_notes [OF assms, of Vmcoreinfo] by (simp add: Vmcoreinfo_def)

definition ex_notes :: "elf_note list" where
  "ex_notes =
     [\<lparr>n_name = ''CORE'', n_type = 1, n_desc = ''abcde''\<rparr>,
      \<lparr>n_name = ''VMCOREINFO'', n_type = 0, n_desc = ''A=1'' @ [NL] @ ''B=2'' @ [NL]\<rparr>]"

lemma ex_notes_ok: "\<forall>n \<in> set ex_notes. note_ok n" "vmcoreinfo_note ex_notes = Some (''A=1'' @ [NL] @ ''B=2'' @ [NL])"
  "\<not> xen_note_seen ex_notes"
  by (simp_all add: ex_notes_def note_ok_def NUL_def vmcoreinfo_note_def VMCOREINFO_NOTE_NAME_def
      VMCOREINFO_XEN_NOTE_NAME_def xen_note_seen_def)

lemma vmcoreinfo_note_selected_witness:
  "readVmcoreinfoFromNotes (concat (map encode_note ex_notes)) Vmcoreinfo =
     (Inr (''A=1'' @ [NL] @ ''B=2'' @ [NL]), \<lparr>m_map = [], m_xenVmcoreinfo = False\<rparr>)"
  using vmcoreinfo_note_selected [OF ex_notes_ok(1)] ex_notes_ok(2,3) by simp

text \<open>
  C14. Reading the core file whose note holds one \<^verbatim>\<open>KEY=VALUE\<close> line for every pair succeeds, and afterwards every
  key has the value of its last line; other keys give an error.
\<close>

theorem vmcoreinfo_values_read:
  assumes "note_segment elf_memory path (dumps path) = Inr (concat (map encode_note ns))"
    and "\<forall>n \<in> set ns. note_ok n" and "vmcoreinfo_note ns = Some (print_info kvs)" and "\<forall>kv \<in> set kvs. info_ok kv"
  shows "\<exists>vm. readFromELF elf_memory dumps path Vmcoreinfo = (Inr (), vm) \<and>
    vm_getStringValue key vm =
      (case map_of (rev kvs) key of
         None \<Rightarrow> Inl (KError (''Vmcoreinfo: key '' @ key @ '' not found.''))
       | Some v \<Rightarrow> Inr v)"
  using readVmcoreinfoFromNotes_notes [OF assms(2), of Vmcoreinfo] assms(1,3)
    vm_getStringValue_info [OF assms(4) refl, of "\<lparr>m_map = [], m_xenVmcoreinfo = xen_note_seen ns\<rparr>" key]
  by (simp add: readFromELF_def readElfNote_def sx_bind_def sx_lift_def Vmcoreinfo_def)

definition ex_dump_file :: dump_file where
  "ex_dump_file =
     \<lparr>df_open = None, df_mmap = Some ''elf'', df_reads = [], df_lseek = (\<lambda>_. None),
      df_read_at = (\<lambda>_ _. Inr (concat (map encode_note ex_notes)))\<rparr>"

definition ex_elf :: elf_object where
  "ex_elf = \<lparr>el_is_elf = True, el_class = 2,
     el_phdrs = Inr [Inr \<lparr>p_type = PT_NOTE, p_offset = 64, p_filesz = length (concat (map encode_note ex_notes))\<rparr>]\<rparr>"

lemma vmcoreinfo_values_read_witness:
  "\<exists>vm. readFromELF (\<lambda>_. Some ex_elf) (\<lambda>_. ex_dump_file) ''/proc/vmcore'' Vmcoreinfo = (Inr (), vm) \<and>
     vm_getStringValue ''B'' vm = Inr ''2''"
  using vmcoreinfo_values_read [of "\<lambda>_. Some ex_elf" "''/proc/vmcore''" "\<lambda>_. ex_dump_file" ex_notes
      "[(''A'', ''1''), (''B'', ''2'')]" "''B''", OF _ ex_notes_ok(1)] ex_notes_ok(2)
  by (simp add: note_segment_def ex_dump_file_def ex_elf_def elf_header_def ELFCLASSNONE_def print_info_def
      info_line_def info_ok_def trim_default_def char_consts)

text \<open>
  \<open>getLLongValue\<close> of a decimal number in the range of \<^verbatim>\<open>long long\<close> returns its lower 32 bits, so the number itself is
  returned exactly if it is in the range of \<^verbatim>\<open>int\<close>: a crash time from the year 2038 on becomes negative.
\<close>

theorem vmcoreinfo_number_range:
  assumes "map_of (m_map vm) key = Some (number2string i)" and "LLONG_MIN \<le> i" and "i \<le> LLONG_MAX"
  shows "\<exists>v. getLLongValue key vm = Inr v \<and> v = word_of_int i \<and> (sint v = i \<longleftrightarrow> INT_MIN \<le> i \<and> i \<le> INT_MAX)"
  using getLLongValue_number [OF assms] sint_word_of_int_iff by blast

lemma vmcoreinfo_number_range_witness:
  "\<exists>v. getLLongValue ''CRASHTIME'' \<lparr>m_map = [(''CRASHTIME'', number2string 2147483648)], m_xenVmcoreinfo = False\<rparr> = Inr v \<and>
     v = word_of_int 2147483648 \<and> (sint v = 2147483648 \<longleftrightarrow> INT_MIN \<le> 2147483648 \<and> 2147483648 \<le> INT_MAX)"
  by (rule vmcoreinfo_number_range) (simp_all add: int_limits)

section \<open>Saving the dump\<close>

text \<open>
  C15. The error code of \<^verbatim>\<open>save_dump\<close>, for the whole of \<open>execute\<close>, compared with the plain sequence of its
  steps. When a preparation up to the transfer object throws, the method throws that error and the code is 0 (so that the program
  exits with -1). When all steps return, the method returns in the same state with the code 0. When one of the steps throws a
  \<open>KError\<close> (saving the dump, the check of the disk space, \<^verbatim>\<open>makedumpfile-R.pl\<close>, the information file, the kernel), the code is 1,
  and the method throws unless it is to continue on errors; any other exception passes with the code 0. What is swallowed inside a
  step is no error: a failing extraction of the kernel messages, a mail that cannot be sent, a missing VMCOREINFO or release.
\<close>

theorem save_dump_exit_code:
  assumes "sd_errorcode s = 0"
  shows "case save_prepare ops config s of
      (Inl e, s1) \<Rightarrow> save_dump_execute ops config s = (Inl e, s1) \<and> sd_errorcode s1 = 0
    | (Inr urlv, s1) \<Rightarrow>
        (case save_steps ops config urlv s1 of
           (Inr _, s2) \<Rightarrow> save_dump_execute ops config s = (Inr (), s2) \<and> sd_errorcode s2 = 0
         | (Inl e, s2) \<Rightarrow>
             if is_kerror e
             then sd_errorcode (snd (save_dump_execute ops config s)) = 1 \<and>
               (\<not> config_bool ''KDUMP_CONTINUE_ON_ERROR'' config \<longrightarrow> fst (save_dump_execute ops config s) \<noteq> Inr ())
             else save_dump_execute ops config s = (Inl e, s2) \<and> sd_errorcode s2 = 0)"
  by (rule execute_code [OF assms])

definition ex_config :: "(string \<times> optval) list \<Rightarrow> configuration" where
  "ex_config opts = \<lparr>m_readConfig = True,
     m_options = map (\<lambda>(n, v). \<lparr>co_name = n, co_usage = 0, co_defvalue = v, co_value = v\<rparr>) opts\<rparr>"

definition ex_save_ops ::
    "64 word \<Rightarrow> (dump_source \<Rightarrow> string list \<Rightarrow> 'w \<Rightarrow> 'w \<times> unit res \<times> bool option) \<Rightarrow> (mail \<Rightarrow> 'w \<Rightarrow> 'w \<times> unit res) \<Rightarrow> 'w save_ops"
where
  "ex_save_ops sz perform send =
     \<lparr>so_exists = (\<lambda>w p. True), so_fileSize = (\<lambda>w p. Inr sz), so_freeDiskSize = (\<lambda>w p. Inr (push_bit 30 1)),
      so_rmdir = (\<lambda>p w. (w, Inr ())), so_isElfFile = (\<lambda>w p. Inr True), so_isXenCoreDump = (\<lambda>w p. Inr False),
      so_numOnline = (\<lambda>w. Inr 1), so_time = (\<lambda>w. 0), so_strftime = (\<lambda>fmt t. ''2024''),
      so_getHostDomain = (\<lambda>w. Inr ''h''), so_cmdline = (\<lambda>w. None), so_elf_memory = (\<lambda>b. None),
      so_dump_file = (\<lambda>w p. ex_dump_file), so_fs = (\<lambda>w. fs_dirs), so_cwd = (\<lambda>w. ''/''),
      so_route_check = (\<lambda>h t w. (w, Inr None)), so_transfer_new = (\<lambda>p urlv w. (w, Inr ())),
      so_perform = (\<lambda>prot urlv. perform), so_send = send\<rparr>"

definition ex_save_dump :: "'w \<Rightarrow> 'w save_dump" where
  "ex_save_dump w = (SaveDump w)\<lparr>sd_transfer := Some (PROT_FTP, []), sd_hostname := ''h'', sd_crashrelease := ''6.4''\<rparr>"

lemma ex_saveDump_zero:
  "saveDump (ex_save_ops 0 perform send) config (ex_save_dump w) =
     (Inl (KError ''Zero size vmcore (/proc/vmcore).''), ex_save_dump w)"
  by (simp add: saveDump_def step_simps ex_save_ops_def ex_save_dump_def SaveDump_def DEFAULT_DUMP_def)

definition ex_ftp_url :: "string \<Rightarrow> root_dir_url" where
  "ex_ftp_url path = \<lparr>m_url = ''ftp://h'' @ path, m_protocol = PROT_FTP, m_hostname = ''h'', m_password = [],
     m_username = ''anonymous'', m_port = -1, m_path = path, m_realpath = []\<rparr>"

lemma ex_ftp_urls:
  "stream_words ''ftp://h/d'' = [''ftp://h/d'']" "appendPath ''ftp://h/d'' (''unknown-'' @ ''2024'') = ''ftp://h/d/unknown-2024''"
  by code_simp+

lemma ex_ftp_parse:
  "RootDirURL fs cwd ''ftp://h/d'' [] = Inr (ex_ftp_url ''/d'')"
  "RootDirURL fs cwd ''ftp://h/d/unknown-2024'' [] = Inr (ex_ftp_url ''/d/unknown-2024'')"
  by code_simp+

lemma ex_prepare:
  "save_prepare (ex_save_ops 0 perform send) (ex_config [(''KDUMP_SAVEDIR'', StringVal ''ftp://h/d'')]) (SaveDump w) =
     (Inr [ex_ftp_url ''/d/unknown-2024''], (SaveDump w)\<lparr>sd_transfer := Some (PROT_FTP, [ex_ftp_url ''/d/unknown-2024''])\<rparr>)"
proof -
  let ?ops = "ex_save_ops 0 perform send" and ?c = "ex_config [(''KDUMP_SAVEDIR'', StringVal ''ftp://h/d'')]"
  have f: "sx_try (fillVmcoreinfo ?ops) (\<lambda>_. sx_return ()) (SaveDump w) = (Inr (), SaveDump w)"
    by (simp add: fillVmcoreinfo_def ex_save_ops_def readFromELF_def readElfNote_def note_segment_def sx_try_def sx_basic
        sx_bind_def sx_lift_def ex_dump_file_def elf_header_def ELFCLASSNONE_def res_bind_def)
  have c: "config_string ''KDUMP_SAVEDIR'' ?c = ''ftp://h/d''"
    by (simp add: ex_config_def config_string_def config_value_def)
  have p: "m_protocol (ex_ftp_url path) = PROT_FTP" for path by (simp add: ex_ftp_url_def)
  have t: "target_url ?ops ?c ''2024'' ''ftp://h/d'' (SaveDump w) = (Inr (ex_ftp_url ''/d/unknown-2024''), SaveDump w)"
    using ex_ftp_urls(2)
    by (simp add: target_url_def step_simps Let_def sx_bind_def sx_world_def ex_save_ops_def SaveDump_def ex_ftp_parse p)
  have e: "so_exists ?ops (sd_world (SaveDump w)) (sd_dump (SaveDump w))" "so_strftime ?ops ISO_DATETIME (sd_crashtime (SaveDump w)) = ''2024''"
    by (simp_all add: ex_save_ops_def)
  have g: "getTransfer ?ops [ex_ftp_url ''/d/unknown-2024''] (SaveDump w) =
      (Inr (), (SaveDump w)\<lparr>sd_transfer := Some (PROT_FTP, [ex_ftp_url ''/d/unknown-2024''])\<rparr>)"
    by (simp add: getTransfer_def sx_seq_def sx_bind_def sx_world_def sx_modify_def p ex_save_ops_def SaveDump_def)
  show ?thesis
    by (simp add: save_prepare_def sx_get_def e sx_seq_def sx_bind_def f c ex_ftp_urls(1) t g sx_return_def)
qed

lemma save_dump_exit_code_witness:
  "sd_errorcode (snd (save_dump_execute (ex_save_ops 0 (\<lambda>source targets w. (w, Inr (), Some True)) (\<lambda>m w. (w, Inr ())))
     (ex_config [(''KDUMP_SAVEDIR'', StringVal ''ftp://h/d'')]) (SaveDump ()))) = 1"
proof -
  let ?ops = "ex_save_ops 0 (\<lambda>source targets w. (w, Inr (), Some True)) (\<lambda>m w. (w, Inr ()))" and ?c = "ex_config [(''KDUMP_SAVEDIR'', StringVal ''ftp://h/d'')]"
  let ?s = "(SaveDump ())\<lparr>sd_transfer := Some (PROT_FTP, [ex_ftp_url ''/d/unknown-2024''])\<rparr>"
  have "saveDump ?ops ?c ?s = (Inl (KError ''Zero size vmcore (/proc/vmcore).''), ?s)"
    by (simp add: saveDump_def step_simps ex_save_ops_def SaveDump_def DEFAULT_DUMP_def)
  then have "save_steps ?ops ?c [ex_ftp_url ''/d/unknown-2024''] ?s = (Inl (KError ''Zero size vmcore (/proc/vmcore).''), ?s)"
    by (simp add: save_steps_def sx_seq_Inl)
  then show ?thesis
    using save_dump_exit_code [of "SaveDump ()" ?ops ?c, unfolded ex_prepare] by (simp add: SaveDump_def)
qed

text \<open>
  C16. When nothing is missing and the transfers succeed, \<^verbatim>\<open>save_dump\<close> uploads, in this order, the kernel messages, the dump
  (as one file or as the split parts), the tool and the script that rearrange a flattened dump, the README,
  and the System.map and kernel of the crashed system, and leaves the error code alone.
\<close>

theorem save_dump_uploads:
  assumes "uploading ops direct" and "run_env ops config urlv s cpus xen"
    and "complete_env ops s mapfile kimage script" and "\<not> dumpformat_is config ''none''"
    and "x \<longleftrightarrow> \<not> kdumptoolContainsFlag ''XENALLDOMAINS'' config \<and> xen"
    and "s1 = (set_parallel config cpus s)\<lparr>sd_useMakedumpfile := uses_makedumpfile config x, sd_usedDirectSave := direct\<rparr>"
  shows "\<exists>s'. save_all ops config urlv s = (Inr (), s') \<and> sd_errorcode s' = sd_errorcode s \<and>
    sd_world s' = sd_world s @
      [(dmesg_source (sd_dump s), [''dmesg.txt'']), (dump_provider config x s1, dump_targets (sd_split s1))] @
      extra_uploads ops config s1 mapfile kimage script"
  using save_all_uploads [OF assms] assms(6) by (simp add: set_parallel_def)

definition ex_uploads :: "uploads save_ops" where
  "ex_uploads = ex_save_ops 1 (\<lambda>source targets w. (w @ [(source, targets)], Inr (), Some True)) (\<lambda>m w. (w, Inr ()))"

lemma ex_uploads_env:
  "uploading ex_uploads True"
  "complete_env ex_uploads ((ex_save_dump [])\<lparr>sd_nomail := True\<rparr>) (appendPath ''/boot'' ''System.map-6.4'')
     (appendPath ''/boot'' ''vmlinux-6.4'') ''/bin/makedumpfile-R.pl''"
  by (simp_all add: uploading_def ex_uploads_def ex_save_ops_def complete_env_def ex_save_dump_def
      makedumpfile_R_paths_def findMapfile_def sd_findKernel_def crash_kernel_candidates_def)

lemma ex_uploads_run: "run_env ex_uploads (ex_config [(''KDUMP_CPUS'', IntVal 0)]) [] ((ex_save_dump [])\<lparr>sd_nomail := True\<rparr>) 0 False"
  by (simp add: run_env_def ex_uploads_def ex_save_ops_def ex_save_dump_def used_cpus_def ex_config_def config_int_def
      config_value_def int_limits)

lemma save_dump_uploads_witness:
  "\<exists>s'. save_all ex_uploads (ex_config [(''KDUMP_CPUS'', IntVal 0)]) [] ((ex_save_dump [])\<lparr>sd_nomail := True\<rparr>) = (Inr (), s') \<and>
     map snd (sd_world s') = [[''dmesg.txt''], [''vmcore''], [''README.txt'']]"
proof -
  let ?c = "ex_config [(''KDUMP_CPUS'', IntVal 0)]" and ?s = "(ex_save_dump [])\<lparr>sd_nomail := True\<rparr> :: uploads save_dump"
  have n: "\<not> dumpformat_is ?c ''none''"
    by (simp add: dumpformat_is_def ex_config_def config_string_def config_value_def strcaseeq_def)
  have k: "\<not> config_bool ''KDUMP_COPY_KERNEL'' ?c"
    by (simp add: ex_config_def config_bool_def config_value_def)
  show ?thesis
    using save_dump_uploads [OF ex_uploads_env(1) ex_uploads_run ex_uploads_env(2) n refl refl]
    by (auto simp: extra_uploads_def k dump_targets_def set_parallel_def ex_save_dump_def SaveDump_def)
qed

text \<open>
  Exactly one mail is sent about the dump, that of success after it was saved and that of failure otherwise; but when
  the program is to continue on errors, a failure sends both, the second one claiming that the dump was copied.
\<close>

theorem save_dump_two_mails:
  assumes "\<And>m w. so_send ops m w = (w @ [m], Inr ())" and "saveDump ops config s = (r, s1)"
    and "\<And>e. r = Inl e \<Longrightarrow> is_kerror e" and "mail_configured config s1" and "\<forall>u \<in> set urlv. m_protocol u \<noteq> PROT_FILE"
  shows "sd_world (snd (save_and_notify ops config urlv s)) = sd_world s1 @
    (if r = Inr () then [notification False urlv config (sd_hostname s1)]
     else notification True urlv config (sd_hostname s1) #
       (if config_bool ''KDUMP_CONTINUE_ON_ERROR'' config
        then [notification False urlv config (sd_hostname s1)] else []))"
  using save_and_notify_mails assms by blast

definition ex_mail_config :: configuration where
  "ex_mail_config = ex_config [(''KDUMP_CONTINUE_ON_ERROR'', BoolVal True), (''KDUMP_SMTP_SERVER'', StringVal ''mail''),
     (''KDUMP_NOTIFICATION_TO'', StringVal ''root'')]"

lemma save_dump_two_mails_witness:
  "map mail_body (sd_world (snd (save_and_notify (ex_save_ops 0 (\<lambda>_ _ w. (w, Inr (), None)) (\<lambda>m w. (w @ [m], Inr ())))
     ex_mail_config [] (ex_save_dump [])))) =
   [''Your machine h crashed.'' @ [NL] @ ''Copying dump failed.'' @ [NL],
    ''Your machine h crashed.'' @ [NL] @ ''Dump has been copied to'' @ [NL]]"
proof -
  have m: "mail_configured ex_mail_config (ex_save_dump [] :: mail list save_dump)"
    by (simp add: mail_configured_def ex_mail_config_def ex_config_def ex_save_dump_def SaveDump_def
        config_string_def config_value_def)
  have c: "config_bool ''KDUMP_CONTINUE_ON_ERROR'' ex_mail_config"
    by (simp add: ex_mail_config_def ex_config_def config_bool_def config_value_def)
  have h: "sd_hostname (ex_save_dump ([] :: mail list)) = ''h''" "sd_world (ex_save_dump ([] :: mail list)) = []"
    by (simp_all add: ex_save_dump_def SaveDump_def)
  let ?ops = "ex_save_ops 0 (\<lambda>_ _ w. (w, Inr (), None)) (\<lambda>m w. (w @ [m], Inr ())) :: mail list save_ops"
  have send: "so_send ?ops x w = (w @ [x], Inr ())" for x w by (simp add: ex_save_ops_def)
  have "sd_world (snd (save_and_notify ?ops ex_mail_config [] (ex_save_dump []))) =
      [notification True [] ex_mail_config ''h'', notification False [] ex_mail_config ''h'']"
    using save_dump_two_mails [OF send ex_saveDump_zero _ m, of "[]"] c h by simp
  then show ?thesis by (simp add: notification_def)
qed

text \<open>
  C17. After the disk space check has returned, every local target has at least the configured number of free megabytes and nothing was changed;
  a local target with less is removed and the check fails.
\<close>

theorem dump_removed_without_space:
  assumes "0 \<le> config_int ''KDUMP_FREE_DISK_SIZE'' config" and "config_int ''KDUMP_FREE_DISK_SIZE'' config \<le> INT_MAX"
  shows "(checkAndDelete ops config urlv s = (Inr (), s') \<longrightarrow>
      s' = s \<and> (\<forall>u \<in> set urlv. m_protocol u = PROT_FILE \<longrightarrow> enough_space ops config (sd_world s) u)) \<and>
    (m_protocol u = PROT_FILE \<and> so_freeDiskSize ops (sd_world s) (getRealPath u) = Inr free \<and>
      int (unat free div 2 ^ 20) < config_int ''KDUMP_FREE_DISK_SIZE'' config \<and>
      so_rmdir ops (getRealPath u) (sd_world s) = (w', Inr ()) \<longrightarrow>
      check_one ops config u s =
        (Inl (KError ''Dump too large. Aborting. Check KDUMP_FREE_DISK_SIZE.''), s\<lparr>sd_world := w'\<rparr>))"
  by (intro conjI impI) (auto simp only: dest!: checkAndDelete_returns [OF assms] intro!: check_one_removes [OF assms])

definition ex_local_url :: root_dir_url where
  "ex_local_url = url_parser.extend \<lparr>m_url = ''/d'', m_protocol = PROT_FILE, m_hostname = [],
     m_password = [], m_username = [], m_port = -1, m_path = ''/d''\<rparr> \<lparr>m_realpath = ''/d''\<rparr>"

lemma dump_removed_without_space_witness:
  "check_one ((ex_save_ops 1 (\<lambda>_ _ w. (w, Inr (), None)) (\<lambda>m w. (w, Inr ())))\<lparr>so_rmdir := \<lambda>p w. (w @ [p], Inr ())\<rparr>)
     (ex_config [(''KDUMP_FREE_DISK_SIZE'', IntVal 2000)]) ex_local_url (ex_save_dump []) =
   (Inl (KError ''Dump too large. Aborting. Check KDUMP_FREE_DISK_SIZE.''), ex_save_dump [''/d''])"
proof -
  have k: "config_int ''KDUMP_FREE_DISK_SIZE'' (ex_config [(''KDUMP_FREE_DISK_SIZE'', IntVal 2000)]) = 2000"
    by (simp add: ex_config_def config_int_def config_value_def)
  have p: "getRealPath ex_local_url = ''/d''" "m_protocol ex_local_url = PROT_FILE"
    by (simp_all add: ex_local_url_def getRealPath_def)
  show ?thesis
    using dump_removed_without_space [of "ex_config [(''KDUMP_FREE_DISK_SIZE'', IntVal 2000)]"
        "(ex_save_ops 1 (\<lambda>_ _ w. (w, Inr (), None)) (\<lambda>m w. (w, Inr ())))\<lparr>so_rmdir := \<lambda>p w. (w @ [p], Inr ())\<rparr>" "[]"
        "ex_save_dump []" "ex_save_dump []" ex_local_url "push_bit 30 1" "[''/d'']"]
    by (simp add: k p int_limits ex_save_ops_def ex_save_dump_def SaveDump_def)
qed

section \<open>Calibration\<close>

text \<open>
  C18. As long as the parts of the estimate sum up to at most \<open>2 ^ 43\<close> KiB, the 64-bit computation of the reservation does
  not wrap around on any supported architecture: it is the larger of what booting needs and the same formula over the natural
  numbers, with the page cache, the hash tables and the page structures of the crash kernel on top of the parts, each rounded
  as the formula says.
\<close>

theorem calibrate_estimate:
  assumes "(ce_arch env, g) \<in> set archs" and "4096 \<le> unat (ce_pagesize env)" "unat (ce_pagesize env) \<le> 65536"
    and "parts_kb env config memtotal needsnet = Inr parts" "unat parts \<le> 2 ^ 43"
  shows "\<exists>required. required_kb env config memtotal needsnet = Inr required \<and>
    unat required = max (unat (boot_kb (ce_arch env) needsnet))
      (spec_scaled g (unat (KDUMP_PHYS_LOAD (ce_arch env))) (unat (ce_pagesize env)) (unat parts))"
  using required_nat [OF assms] .

definition ex_mounts :: mount_env where
  "ex_mounts = \<lparr>me_fs = fs_dirs, me_cwd = ''/'', me_kernel = None, me_fstab = None, me_resolve_spec = (\<lambda>_. None),
     me_cmdline = None, me_btrfs_open = (\<lambda>_. Some ENOENT), me_btrfs_info = (\<lambda>_. Inl ENOENT),
     me_btrfs_dev = (\<lambda>_ _. Inl None), me_lsblk = (\<lambda>_. Inl (KError ''lsblk''))\<rparr>"

definition ex_calib :: "arch \<Rightarrow> calib_env" where
  "ex_calib a = \<lparr>ce_arch = a, ce_files = (\<lambda>_. Inl ENOENT), ce_opendir = (\<lambda>_. Inl ENOENT), ce_pagesize = 4096,
     ce_mounts = ex_mounts, ce_cryptsetup = (\<lambda>_. Inl (KError ''cryptsetup''))\<rparr>"

definition ex_calib_config :: configuration where
  "ex_calib_config = ex_config [(''KDUMP_CPUS'', IntVal 1), (''KDUMP_DUMPLEVEL'', IntVal 31)]"

lemma ex_calib_values:
  "config_int ''KDUMP_CPUS'' ex_calib_config = 1" "config_string ''KDUMP_SAVEDIR'' ex_calib_config = []"
  "\<not> config_bool ''KDUMP_COPY_KERNEL'' ex_calib_config" "needsMakedumpfile ex_calib_config"
  "needsNetwork ex_calib_config = Inr False"
  by (simp_all add: ex_calib_config_def ex_config_def config_int_def config_string_def config_bool_def config_value_def
      needsMakedumpfile_def needsNetwork_def)

lemma stream_words_empty: "stream_words [] = []"
  by (subst stream_words.simps) simp

lemma ex_calib_fixed: "fixed_kb (ex_calib arch_x86_64) ex_calib_config False = Inr 105472"
  by (simp add: fixed_kb_def framebuffer_kb_def framebuffers_size_def listDir_def slabs_kb_def getInfo_def crypto_kb_def
      ex_calib_values stream_words_empty sx_seq_def sx_bind_def sx_return_def res_or_def assumed_cpus_def ex_calib_def
      devices_def fstype_map_new_def Let_def arch_x86_64_def ramfs_kb_def MB_def KERNEL_DYNAMIC_KB_def)

lemma ex_calib_arch: "(ce_arch (ex_calib arch_x86_64), 1) \<in> set archs" "ce_pagesize (ex_calib arch_x86_64) = 4096"
  by (simp_all add: ex_calib_def archs_def)

lemma ex_calib_parts: "parts_kb (ex_calib arch_x86_64) ex_calib_config 4194304 False = Inr 163168"
  by (simp add: parts_kb_def ex_calib_fixed ex_calib_values user_kb_def USER_BASE_KB_def MB_def bitmap_kb_def
      shr_round_up_def MAX_BITMAP_KB_def ex_calib_arch Let_def drop_bit_eq_div push_bit_eq_mult)

lemma calibrate_estimate_witness:
  "\<exists>required. required_kb (ex_calib arch_x86_64) ex_calib_config 4194304 False = Inr required \<and> unat required = 210828"
  using calibrate_estimate [OF ex_calib_arch(1) _ _ ex_calib_parts]
  by (simp add: ex_calib_arch(2) spec_scaled_def boot_kb_def ramfs_kb_def INITRD_COMPRESS_def MB_def)
    (simp add: ex_calib_def arch_x86_64_def MB_def)

text \<open>
  C19. The reservation is never smaller than what booting the crash kernel needs, whether it was calculated (with
  or without wrapping around) or is the default of the architecture.
\<close>

theorem calibrate_covers_boot:
  assumes "(ce_arch env, g) \<in> set archs" and "reservation env config memtotal = Inr (bootsize, required)"
  shows "bootsize \<le> required"
  by (rule reservation_boots [OF assms])

lemma ex_calib_reservation:
  "\<exists>b r. reservation (ex_calib arch_x86_64) ex_calib_config 4194304 = Inr (b, r)"
  by (simp add: reservation_def Let_def ex_calib_values required_kb_def ex_calib_parts res_or_def)

lemma calibrate_covers_boot_witness:
  "\<exists>b r. reservation (ex_calib arch_x86_64) ex_calib_config 4194304 = Inr (b, r) \<and> b \<le> r"
  using ex_calib_reservation calibrate_covers_boot [OF ex_calib_arch(1)] by blast

text \<open>
  With everything else equal, a machine with more RAM gets no smaller reservation, and the same minimum for booting.
\<close>

theorem calibrate_monotone:
  assumes "(ce_arch env, g) \<in> set archs" and "4096 \<le> unat (ce_pagesize env)" "unat (ce_pagesize env) \<le> 65536"
    and "\<forall>needsnet f. fixed_kb env config needsnet = Inr f \<longrightarrow> unat f \<le> 2 ^ 42"
    and "t \<le> t'" "unat t' \<le> 2 ^ 48" and "reservation env config t = Inr (b, r)"
  shows "\<exists>r'. reservation env config t' = Inr (b, r') \<and> r \<le> r'"
  by (rule reservation_mono [OF assms(1-3) _ assms(5-7)]) (use assms(4) in blast)

lemma ex_calib_fixed_any: "fixed_kb (ex_calib arch_x86_64) ex_calib_config needsnet = Inr f \<Longrightarrow> unat f \<le> 2 ^ 42"
  by (auto simp: fixed_kb_def framebuffer_kb_def framebuffers_size_def listDir_def slabs_kb_def getInfo_def crypto_kb_def
      ex_calib_values stream_words_empty sx_seq_def sx_bind_def sx_return_def res_or_def assumed_cpus_def ex_calib_def
      devices_def fstype_map_new_def Let_def arch_x86_64_def ramfs_kb_def MB_def KERNEL_DYNAMIC_KB_def)

lemma calibrate_monotone_witness:
  "\<exists>b r r'. reservation (ex_calib arch_x86_64) ex_calib_config 4194304 = Inr (b, r) \<and>
     reservation (ex_calib arch_x86_64) ex_calib_config 8388608 = Inr (b, r') \<and> r \<le> r'"
proof -
  obtain b r where r: "reservation (ex_calib arch_x86_64) ex_calib_config 4194304 = Inr (b, r)"
    using ex_calib_reservation by blast
  have fixed: "\<forall>needsnet f. fixed_kb (ex_calib arch_x86_64) ex_calib_config needsnet = Inr f \<longrightarrow> unat f \<le> 2 ^ 42"
    using ex_calib_fixed_any by blast
  have "\<exists>r'. reservation (ex_calib arch_x86_64) ex_calib_config 8388608 = Inr (b, r') \<and> r \<le> r'"
    by (rule calibrate_monotone [OF ex_calib_arch(1) _ _ fixed _ _ r]) (simp_all add: ex_calib_arch(2))
  with r show ?thesis by blast
qed

text \<open>
  C20. On a memory map of disjoint ranges in ascending order, low memory is reserved for a crash kernel in high memory
  unless the reservation fits, aligned to 16 MiB, into a range of the RAM and only below 4 GiB: the search takes the highest place.
\<close>

theorem crash_kernel_place:
  assumes "mem_map_ok mm" and "0 < (push_bit 10 required :: 64 word)"
  shows "fst (low_high mm bootsize required) = 0 \<longleftrightarrow>
    (\<exists>b. place_ok mm required b) \<and> (\<forall>b. place_ok mm required b \<longrightarrow> b < push_bit 32 1)"
  by (rule low_high_place [OF assms])

lemma crash_kernel_place_witness:
  "\<exists>b. place_ok [\<lparr>mr_start = 0x100000, mr_end = 0x7FFFFFFF\<rparr>] 210828 b \<and> b < push_bit 32 1"
proof -
  let ?mm = "[\<lparr>mr_start = 0x100000, mr_end = 0x7FFFFFFF\<rparr>]"
  have ok: "mem_map_ok ?mm" by (simp add: mem_map_ok_def)
  have "fst (low_high ?mm 0 210828) = 0"
    by (simp add: low_high_def mm_find_def Let_def push_bit_eq_mult)
  with crash_kernel_place [OF ok, of 210828 0]
  have "(\<exists>b. place_ok ?mm 210828 b) \<and> (\<forall>b. place_ok ?mm 210828 b \<longrightarrow> b < push_bit 32 1)" by simp
  then show ?thesis by blast
qed

text \<open>
  Reading a \<^verbatim>\<open>/proc/iomem\<close> of top-level resources and indented nested ones gives exactly the ranges called
  \<^verbatim>\<open>System RAM\<close>, in their order, with their addresses.
\<close>

theorem iomem_read_back:
  assumes "files ''/proc/iomem'' = Inr (istream_new (concat (map print_entry es)))"
    and "\<forall>entry \<in> set es. iomem_entry_ok entry"
  shows "MemMap files ''/proc'' = Inr (concat (map entry_range es))"
proof -
  have "appendPath ''/proc'' ''iomem'' = ''/proc/iomem''" by code_simp
  then show ?thesis by (simp add: MemMap_def Let_def assms(1) iomem_loop_print [OF assms(2)])
qed

lemma iomem_read_back_witness:
  "MemMap (\<lambda>_. Inr (istream_new (concat (map print_entry
      [Resource 0 0xfff ''Reserved'', Resource 0x1000 0x9ffff ''System RAM'', Nested ''2000-2fff : Kernel code'']))))
    ''/proc'' = Inr [\<lparr>mr_start = 0x1000, mr_end = 0x9ffff\<rparr>]"
  by (subst iomem_read_back [OF refl]) (simp_all add: NL_def)

text \<open>
  C21. The mount found for a path is a real file system whose canonical target is a prefix of the canonical path, and no
  other real one has a longer such target; nothing is found if and only if there is none.
\<close>

theorem mount_longest_target:
  assumes "MountTable_find True True set_iter canonical table path = Inr it"
  shows "\<exists>cpath. canonical path = Inr cpath \<and>
    (case it_entry table it of
       None \<Rightarrow> \<forall>fs \<in> set table. \<forall>t. \<not> candidate_mount canonical cpath fs t
     | Some (fs, t) \<Rightarrow> fs \<in> set table \<and> candidate_mount canonical cpath fs t \<and>
         (\<forall>fs' \<in> set table. \<forall>t'. candidate_mount canonical cpath fs' t' \<longrightarrow> length t' \<le> length t))"
  by (rule MountTable_find_longest [OF assms])

definition ex_fs :: "string \<Rightarrow> mnt_fs" where
  "ex_fs target = \<lparr>fs_source = ''/dev/sda'', fs_target = target, fs_type = ''ext4'', fs_pseudo = False, fs_swap = False\<rparr>"

lemma mount_longest_target_witness:
  "candidate_mount Inr ''/var/crash'' (ex_fs ''/var'') ''/var''"
proof -
  let ?table = "[ex_fs ''/'', ex_fs ''/var'', ex_fs ''/srv'']"
  have "find_mount Inr ?table ''/var/crash'' = Inr (Some (ex_fs ''/var'', ''/var''))"
    by (simp add: find_mount_def ex_fs_def substr_def)
  then obtain it where it: "MountTable_find True True Suc Inr ?table ''/var/crash'' = Inr it" "it_entry ?table it = Some (ex_fs ''/var'', ''/var'')"
    using MountTable_find_refines [of ?table Suc Inr "''/var/crash''"]
    by (cases "MountTable_find True True Suc Inr ?table ''/var/crash''") auto
  from mount_longest_target [OF it(1)] show ?thesis by (simp add: it(2))
qed

section \<open>Multipath\<close>

text \<open>
  The filter keeps every byte of \<^verbatim>\<open>multipath.conf\<close>, in order. Behind each line that opens a \<^verbatim>\<open>blacklist\<close> it adds the
  entry for all devices, behind each that opens \<^verbatim>\<open>blacklist_exceptions\<close> the exceptions, and the sections that no line opens
  are put before the first line.
\<close>

theorem multipath_output:
  assumes "conf_lines input = (ls, e)"
  shows "concat ls @ e = input \<and> multipath_execute input exceptions =
    (if list_ex (opens ''blacklist'') ls then [] else ''blacklist {'' @ [NL] @ wwid_line @ ''}'' @ [NL]) @
    (if list_ex (opens ''blacklist_exceptions'') ls then []
     else ''blacklist_exceptions {'' @ [NL] @ concat (map exception_line exceptions) @ ''}'' @ [NL]) @
    concat (map (\<lambda>l. l @ concat (additions exceptions l)) ls) @ e"
  using conf_lines_concat [OF assms] multipath_lines [OF assms] by blast

lemma multipath_output_witness:
  "multipath_execute ''x'' [''wwid y''] = ''blacklist {'' @ [NL] @ wwid_line @ ''}'' @ [NL] @
     ''blacklist_exceptions {'' @ [NL, TAB] @ ''wwid y'' @ [NL] @ ''}'' @ [NL] @ ''x''"
proof -
  have "conf_lines ''x'' = ([], ''x'')" by (subst conf_lines.simps) (simp add: NL_def CR_def)
  from multipath_output [OF this, of "[''wwid y'']"] show ?thesis by (simp add: exception_line_def)
qed

text \<open>
  The tokenizer of a line, a loop that would not end if it ever took an empty token, returns on every line, and
  no token is empty.
\<close>

theorem multipath_tokens_end:
  "\<exists>ts. mp_tokens stringmode line [] = Some ts \<and> [] \<notin> set ts"
  using mp_tokens_terminate [of stringmode line "[]"] mp_tokens_nonempty [of stringmode line "[]"] by fastforce

section \<open>Kernel images\<close>

text \<open>
  C22. When a kernel image has one start mark and one end mark of an embedded configuration, in different reads of the
  image and neither at the beginning of a buffer, exactly the bytes between them (without the gzip header) are inflated.
\<close>

theorem ikconfig_extracted:
  assumes "fd_lseek_error fd = None" "fd_dup fd" "fd_gzdopen fd" and "fd_gz fd 0 = d"
    and "\<forall>i. occurs MAGIC_START d i \<longleftrightarrow> i = b" "\<forall>i. occurs MAGIC_END d i \<longleftrightarrow> i = e"
      "visible b" "visible e" "mark_window b < mark_window e" and "b + 18 \<le> e"
  shows "extractKernelConfigELF inflate fd = extractFromIKconfigBuffer inflate (take (e - b - 18) (drop (b + 18) d))"
  by (rule extract_found [OF assms])

definition ex_image :: "nat \<Rightarrow> string" where
  "ex_image n = MAGIC_START @ replicate n (CHR ''x'') @ MAGIC_END"

definition ex_fd :: "string \<Rightarrow> kernel_fd" where
  "ex_fd d = \<lparr>m_kernel = ''vmlinux'', fd_data = d, fd_lseek_error = None, fd_read_error = (\<lambda>_. None), fd_errno = ENOENT,
     fd_dup = True, fd_gzdopen = True, fd_gz = (\<lambda>off. drop off d)\<rparr>"

lemma occurs_nth: "occurs m s i \<Longrightarrow> j < length m \<Longrightarrow> i + j < length s \<and> s ! (i + j) = m ! j"
  unfolding occurs_def
  by (metis length_drop length_take less_diff_conv add.commute min_less_iff_conj nth_drop nth_take add_leD1 leI le_add_diff_inverse2
      less_imp_le_nat order_less_le_trans not_less)

lemma ex_image_marks:
  "occurs MAGIC_START (ex_image n) i \<longleftrightarrow> i = 0" "occurs MAGIC_END (ex_image n) i \<longleftrightarrow> i = n + 8"
proof -
  have nth: "ex_image n ! k = (if k < 8 then MAGIC_START ! k else if k < n + 8 then CHR ''x'' else MAGIC_END ! (k - (n + 8)))" for k
    by (auto simp: ex_image_def nth_append marks_8 add.commute)
  have "i = 0" if "occurs MAGIC_START (ex_image n) i"
  proof -
    from occurs_nth [OF that, of 6] have o: "i + 6 < n + 16" "ex_image n ! (i + 6) = CHR ''S''"
      by (simp_all add: marks_8 MAGIC_START_def ex_image_def MAGIC_END_def)
    have "MAGIC_END ! j \<noteq> CHR ''S''" if "j < 8" for j
      using that by (auto simp: MAGIC_END_def less_Suc_eq numeral_eq_Suc)
    moreover have "j = 6" if "MAGIC_START ! j = CHR ''S''" "j < 8" for j
      using that by (auto simp: MAGIC_START_def less_Suc_eq numeral_eq_Suc)
    ultimately show ?thesis using o by (fastforce simp: nth split: if_splits)
  qed
  moreover have "i = n + 8" if "occurs MAGIC_END (ex_image n) i"
  proof -
    from occurs_nth [OF that, of 7] have o: "i + 7 < n + 16" "ex_image n ! (i + 7) = CHR ''D''"
      by (simp_all add: marks_8 MAGIC_END_def ex_image_def MAGIC_START_def)
    have "MAGIC_START ! j \<noteq> CHR ''D''" if "j < 8" for j
      using that by (auto simp: MAGIC_START_def less_Suc_eq numeral_eq_Suc)
    moreover have "j = 7" if "MAGIC_END ! j = CHR ''D''" "j < 8" for j
      using that by (auto simp: MAGIC_END_def less_Suc_eq numeral_eq_Suc)
    ultimately show ?thesis using o by (fastforce simp: nth split: if_splits)
  qed
  ultimately show "occurs MAGIC_START (ex_image n) i \<longleftrightarrow> i = 0" "occurs MAGIC_END (ex_image n) i \<longleftrightarrow> i = n + 8"
    by (auto simp: occurs_def ex_image_def marks_8)
qed

lemma ikconfig_extracted_witness:
  "extractKernelConfigELF (\<lambda>s n. if s = replicate 8990 (CHR ''x'') then Some ''A'' else None) (ex_fd (ex_image 9000)) = Inr ''A''"
proof -
  have w: "visible 0" "visible 9008" "mark_window 0 < mark_window 9008"
    by (simp_all add: visible_def mark_window_def chunk_size_def BUFSIZ_def MAGIC_LEN_def)
  have t: "take (9008 - 0 - 18) (drop (0 + 18) (ex_image 9000)) = replicate 8990 (CHR ''x'')"
    by (simp add: ex_image_def marks_8)
  have "extractKernelConfigELF inflate (ex_fd (ex_image 9000)) = extractFromIKconfigBuffer inflate (replicate 8990 (CHR ''x''))"
    for inflate
    unfolding t [symmetric] by (rule ikconfig_extracted [OF _ _ _ _ _ _ w]) (simp_all add: ex_fd_def ex_image_marks)
  then show ?thesis by (simp add: extractFromIKconfigBuffer_def c_string_def NUL_def)
qed

text \<open>
  A start mark is overlooked when it begins together with a buffer, that is, when it fills the last eight bytes of a
  read: then the image counts as one without a configuration (here for images that are a whole number of reads).
\<close>

theorem ikconfig_missed:
  assumes "fd_lseek_error fd = None" "fd_dup fd" "fd_gzdopen fd"
    and "\<forall>i. occurs MAGIC_START (fd_gz fd 0) i \<longrightarrow> \<not> visible i" and "chunk_size dvd length (fd_gz fd 0)"
  shows "extractKernelConfigELF inflate fd = Inl (KError (''Cannot read configuration from '' @ m_kernel fd @ ''.''))"
  by (rule extract_missed [OF assms])

lemma ikconfig_missed_witness:
  "extractKernelConfigELF (\<lambda>_ _. None) (ex_fd (replicate 8176 (CHR ''x'') @ MAGIC_START)) =
     Inl (KError ''Cannot read configuration from vmlinux.'')"
proof -
  let ?d = "replicate 8176 (CHR ''x'') @ MAGIC_START"
  have v: "\<not> visible i" if "occurs MAGIC_START ?d i" for i
  proof -
    have "i \<ge> 8176" using occurs_nth [OF that, of 0] by (auto simp: MAGIC_START_def nth_append split: if_splits)
    moreover have "i + 7 < 8184" using occurs_nth [OF that, of 7] by (simp add: marks_8)
    ultimately have "i = 8176" by simp
    then show ?thesis by (simp add: visible_def chunk_size_def BUFSIZ_def MAGIC_LEN_def)
  qed
  have "extractKernelConfigELF (\<lambda>_ _. None) (ex_fd ?d) =
      Inl (KError (''Cannot read configuration from '' @ m_kernel (ex_fd ?d) @ ''.''))"
    by (rule ikconfig_missed) (use v in \<open>simp_all add: ex_fd_def chunk_size_def BUFSIZ_def MAGIC_LEN_def marks_8\<close>)
  then show ?thesis by (simp add: ex_fd_def)
qed

section \<open>Xen core dumps\<close>

text \<open>
  A core file whose program headers are within the mapped 128 KiB is a Xen core exactly when a note segment
  holds a note of the name \<^verbatim>\<open>Xen\<close>, whatever the other notes are and however little each \<^verbatim>\<open>read\<close> delivers.
\<close>

theorem xen_core_detected:
  assumes "reads_file fd d" and "cf_mmap fd XEN_HEADER_MAPSIZE = Some m" and "elf_memory m = Inr elf" "el_is_elf elf"
    and "endphdr (el_class elf) m = Inr endp" "endp \<le> XEN_HEADER_MAPSIZE" and "el_phdrs elf = Inr (map Inr phdrs)"
    and "\<forall>phdr \<in> set phdrs. p_type phdr = PT_NOTE \<longrightarrow> p_offset phdr + p_filesz phdr \<le> length d \<and>
      take (p_filesz phdr) (drop (p_offset phdr) d) = concat (map encode_note (notes phdr)) \<and> (\<forall>n \<in> set (notes phdr). note_small n)"
  shows "isXenCoreDump_fd True elf_memory fd =
    Inr (\<exists>phdr \<in> set phdrs. p_type phdr = PT_NOTE \<and> (\<exists>n \<in> set (notes phdr). n_name n = ''Xen''))"
  using xen_note_in_notes [OF assms(1,8)] assms(2-7) by (simp add: isXenCoreDump_fd_def map_elf_def enlarge_def)

definition ex_xen_notes :: "elf_note list" where
  "ex_xen_notes = [\<lparr>n_name = ''CORE'', n_type = 1, n_desc = ''ab''\<rparr>, \<lparr>n_name = ''Xen'', n_type = 2, n_desc = []\<rparr>]"

definition ex_core :: core_fd where
  "ex_core =
     (let d = concat (map encode_note ex_xen_notes)
      in \<lparr>cf_lseek = (\<lambda>_. None), cf_read = (\<lambda>pos n. Inr (take 1 (drop pos d))), cf_mmap = (\<lambda>_. Some (replicate 64 NUL)),
          cf_alloc = (\<lambda>_. None), cf_new = (\<lambda>_. True), cf_pagesize = 4096\<rparr>)"

lemma xen_core_detected_witness:
  "isXenCoreDump_fd True (\<lambda>_. Inr \<lparr>el_is_elf = True, el_class = 2,
     el_phdrs = Inr [Inr \<lparr>p_type = 4, p_offset = 0, p_filesz = length (concat (map encode_note ex_xen_notes))\<rparr>]\<rparr>) ex_core = Inr True"
proof -
  let ?d = "concat (map encode_note ex_xen_notes)"
  let ?phdrs = "[\<lparr>p_type = 4, p_offset = 0, p_filesz = length ?d\<rparr>]"
  have r: "reads_file ex_core ?d"
    unfolding reads_file_def by (auto simp: ex_core_def Let_def intro!: exI [of _ "1::nat"])
  have z: "le_nat (replicate k NUL) = 0" for k by (induction k) (simp_all add: NUL_def ord_def)
  have e: "endphdr 2 (replicate 64 NUL) = Inr 0" by (simp add: endphdr_def table_size_def z)
  have ok: "\<forall>n \<in> set ex_xen_notes. note_small n"
    by (simp add: ex_xen_notes_def note_small_def note_ok_def NUL_def)
  show ?thesis
    using xen_core_detected [OF r, of "replicate 64 NUL"
        "\<lambda>_. Inr \<lparr>el_is_elf = True, el_class = 2, el_phdrs = Inr (map Inr ?phdrs)\<rparr>" _ 0 ?phdrs "\<lambda>_. ex_xen_notes"] e ok
    by (simp add: ex_core_def PT_NOTE_def XEN_HEADER_MAPSIZE_def) (simp add: ex_xen_notes_def)
qed

section \<open>The command line of the tool\<close>

definition option_arg :: "(char \<times> string option) list \<Rightarrow> char \<Rightarrow> string \<Rightarrow> string" where
  "option_arg rs c dflt = (case filter (\<lambda>(l, arg). l = c) rs of [] \<Rightarrow> dflt | xs \<Rightarrow> the (snd (last xs)))"

text \<open>
  When the command line is accepted, each flag in front of the subcommand is set if and only if it was given, and
  the configuration file and the kernel command line file are the arguments of the last such option, or the defaults.
\<close>

theorem global_options_last:
  assumes "parse_cmdline getopt global_options subcommands argv = Inr (st, sub)"
    and "getopt ''+hvbDL:F:C:'' (map (snd \<circ> getoptArgs) global_options) argv = (rs, i, args)"
  shows "(flag_set st ''help'' \<longleftrightarrow> CHR ''h'' \<in> fst ` set rs) \<and> (flag_set st ''version'' \<longleftrightarrow> CHR ''v'' \<in> fst ` set rs) \<and>
    (flag_set st ''background'' \<longleftrightarrow> CHR ''b'' \<in> fst ` set rs) \<and> (flag_set st ''debug'' \<longleftrightarrow> CHR ''D'' \<in> fst ` set rs) \<and>
    string_or st ''configfile'' DEFAULT_CONFIG = option_arg rs (CHR ''F'') DEFAULT_CONFIG \<and>
    string_or st ''cmdline'' [] = option_arg rs (CHR ''C'') []"
proof -
  have "concat (map (fst \<circ> getoptArgs) global_options) = ''hvbDL:F:C:''" by (simp add: global_options_def getoptArgs_def)
  then have run: "set_options global_options rs (\<lambda>_. None) = Inr st"
    using assms by (auto simp: parse_cmdline_def parsePartial_def res_bind_eq_Inr_iff split: if_splits option.splits)
  note flag = set_options_flag [OF run global_options_distinct] and str = set_options_last [OF run global_options_distinct]
  show ?thesis
    using flag [of "global_options ! 0"] flag [of "global_options ! 1"] flag [of "global_options ! 2"] flag [of "global_options ! 3"]
      str [of "global_options ! 5"] str [of "global_options ! 6"]
    by (auto simp: global_options_def flag_set_def string_or_def option_arg_def split: list.splits)
qed

lemma global_options_last_witness:
  "\<exists>st. parse_cmdline (\<lambda>_ _ argv. ([(CHR ''F'', Some ''a''), (CHR ''h'', None), (CHR ''F'', Some ''b'')], 6, argv)) global_options []
       [''kdumptool'', ''-F'', ''a'', ''-h'', ''-F'', ''b''] = Inr (st, None) \<and> flag_set st ''help'' \<and>
     string_or st ''configfile'' DEFAULT_CONFIG = ''b''"
proof -
  let ?g = "\<lambda>_ _ argv :: string list. ([(CHR ''F'', Some ''a''), (CHR ''h'', None :: string option), (CHR ''F'', Some ''b'')], 6 :: nat, argv)"
  let ?argv = "[''kdumptool'', ''-F'', ''a'', ''-h'', ''-F'', ''b'']"
  let ?st = "(\<lambda>_. None)(''configfile'' \<mapsto> StringVal ''b'', ''help'' \<mapsto> BoolVal True)"
  have p: "parse_cmdline ?g global_options [] ?argv = Inr (?st, None)"
    by (auto simp: parse_cmdline_def parsePartial_def global_options_def setValue_def)
  from global_options_last [OF p refl] p show ?thesis by (auto simp: option_arg_def)
qed

text \<open>
  C23. The exit code of the process that was started: 0 when help or the version was asked for; 0 also when it went
  into the background with \<^verbatim>\<open>-b\<close>, where the launching process exits at once, whatever becomes of the subcommand and even when
  \<^verbatim>\<open>fork\<close> failed; -1 when the command line, the configuration or a step into the background failed; otherwise the error
  code that the subcommand left, or -1 when it left none and threw an exception.
\<close>

theorem tool_exit_code:
  assumes "kdumptool_main env subs argv = Inr (text, c)"
  shows "c = (case tool_course env subs argv of
      Informs \<Rightarrow> 0
    | Launches \<Rightarrow> 0
    | Fails_early \<Rightarrow> -1
    | Runs r code \<Rightarrow> if code = 0 \<and> r \<noteq> Inr () then -1 else code)"
  by (rule main_course [OF assms])

definition ex_tool :: tool_env where
  "ex_tool = \<lparr>te_getopt = (\<lambda>_ _ argv. ([], 1, argv)), te_esmtp = False, te_files = (\<lambda>_. Inl ENOENT), te_sh = (\<lambda>s. s),
     te_daemon = \<lparr>dm_fork = (0, EIO), dm_setsid = None, dm_chdir = None, dm_open_max = 1024\<rparr>,
     te_process = \<lparr>pr_fds = [], pr_cwd = ''/'', pr_umask = 0, pr_leader = False\<rparr>, te_message = (\<lambda>e. case e of KError s \<Rightarrow> s | _ \<Rightarrow> [])\<rparr>"

lemma tool_exit_code_witness:
  "kdumptool_main ex_tool ([] :: unit subcommand list) [''kdumptool'', ''dump''] =
     Inr (''Subcommand dump does not exist.'' @ [NL], -1)"
proof -
  have p: "parseCommandline (te_getopt ex_tool) (te_esmtp ex_tool) ([] :: unit subcommand list) [''kdumptool'', ''dump''] =
      Inl (KError ''Subcommand dump does not exist.'')"
    by (simp add: parseCommandline_def parse_cmdline_def parsePartial_def ex_tool_def addSubcommands_def)
  then obtain c where c: "kdumptool_main ex_tool ([] :: unit subcommand list) [''kdumptool'', ''dump''] =
      Inr (''Subcommand dump does not exist.'' @ [NL], c)"
    by (simp add: kdumptool_main_def report_def ex_tool_def)
  have "tool_course ex_tool ([] :: unit subcommand list) [''kdumptool'', ''dump''] = Fails_early"
    by (simp add: tool_course_def p)
  then show ?thesis using tool_exit_code [OF c] c by simp
qed







section \<open>Processes\<close>

text \<open>
  C25. When the process filter returns, every output holds what the child wrote to it, in order (all of it when no hang-up is
  reported before the end of the data), the child was sent a prefix of every input (all of it when no write was short), every
  descriptor that was opened is closed again, and the pipes can be used again.
\<close>

theorem filter_moves:
  assumes "filter_execute env ios w = Some (Inr status, ios', w')" and "filter_ok ios w" and "pipes_fresh env"
    and "H \<longrightarrow> hup_with_in env"
  shows "\<exists>ds. distinct ds \<and> list_all2 (\<lambda>(d, fd, obj) (fd', obj'). fd' = fd \<and> moved H d w obj w' obj') (zip ds ios) ios' \<and>
    length ds = length ios \<and> pw_open w' = pw_open w \<and> (\<forall>(fd, obj) \<in> set ios'. new_pipe (pw_store w' ! io_pipe obj))"
  by (rule execute_moves [OF assms])

definition ex_env :: "16 word \<Rightarrow> proc_env" where
  "ex_env events =
     \<lparr>pe_pipe2 = (\<lambda>t D. if finite D then Inr (Max (insert 2 D) + 1, Max (insert 2 D) + 2) else Inl EIO), pe_fork = (\<lambda>t. Inr 77),
      pe_poll = (\<lambda>t. if t = 2 then Inl EINTR else Inr (\<lambda>d. events)), pe_kill = (\<lambda>pid sig. None),
      pe_waitpid = (\<lambda>pid. Inr (pid, 512))\<rparr>"

definition ex_world :: proc_world where
  "ex_world =
     \<lparr>pw_time = 0, pw_open = {}, pw_store = [ParentToChild (-1) (-1), ChildToParent (-1) (-1)],
      pw_reads = (\<lambda>d. if d = 5 then [Inr ''he'', Inr ''llo''] else []), pw_limits = (\<lambda>d. []), pw_sent = (\<lambda>d. [])\<rparr>"

definition ex_ios :: "io_map" where
  "ex_ios = [(0, IStreamIO 0 0 (istream_new ''input'') []), (1, OStreamIO 1 0 [])]"

lemma ex_filter_ok: "filter_ok ex_ios ex_world"
  by (simp add: filter_ok_def ex_ios_def ex_world_def smap_ok_def pipes_of_def)

lemma ex_calls_succeed: "calls_succeed (ex_env events)"
proof -
  have new: "Max (insert 2 D) + 1 \<notin> D" "Max (insert 2 D) + 2 \<notin> D" "0 \<le> Max (insert 2 D)" if "finite D" for D :: "int set"
  proof -
    have le: "d \<le> Max (insert 2 D)" if "d \<in> insert 2 D" for d using \<open>finite D\<close> that by (intro Max_ge) auto
    show "Max (insert 2 D) + 1 \<notin> D" "Max (insert 2 D) + 2 \<notin> D" using le [of "Max (insert 2 D) + 1"] le [of "Max (insert 2 D) + 2"] by auto
    show "0 \<le> Max (insert 2 D)" using le [of 2] by simp
  qed
  have "pipes_fresh (ex_env events)"
    unfolding pipes_fresh_def ex_env_def using new by (simp split: if_split)
  then show ?thesis by (simp add: calls_succeed_def ex_env_def)
qed

lemma ex_polls_ready: "polls_ready (ex_env (POLLIN OR POLLOUT))"
  unfolding polls_ready_def
proof
  fix t :: nat
  let ?k = "if t = 2 then 1 else 0 :: nat"
  show "\<exists>k ready. (\<forall>j < k. pe_poll (ex_env (POLLIN OR POLLOUT)) (t + j) = Inl EINTR) \<and>
      pe_poll (ex_env (POLLIN OR POLLOUT)) (t + k) = Inr ready \<and> (\<forall>d. ready d AND POLLIN \<noteq> 0 \<and> ready d AND POLLOUT \<noteq> 0)"
    by (rule exI [of _ ?k]) (simp add: ex_env_def POLLIN_def POLLOUT_def)
qed

lemma ex_lively: "\<forall>(fd, obj) \<in> set ex_ios. \<forall>d. d \<notin> pw_open ex_world \<longrightarrow> lively d ex_world obj"
  by (auto simp: ex_ios_def ex_world_def istream_new_def)

lemma filter_moves_witness:
  "\<exists>status ios' w' ds. filter_execute (ex_env (POLLIN OR POLLOUT)) ex_ios ex_world = Some (Inr status, ios', w') \<and>
     pw_open w' = {} \<and> length ds = 2 \<and> moved True (ds ! 0) ex_world (snd (ex_ios ! 0)) w' (snd (ios' ! 0)) \<and>
     moved True (ds ! 1) ex_world (snd (ex_ios ! 1)) w' (snd (ios' ! 1))"
proof -
  obtain status ios' w' where run: "filter_execute (ex_env (POLLIN OR POLLOUT)) ex_ios ex_world = Some (Inr status, ios', w')"
    using execute_returns [OF ex_filter_ok ex_calls_succeed ex_polls_ready ex_lively, of 77 512] by (auto simp: ex_env_def)
  have "hup_with_in (ex_env (POLLIN OR POLLOUT))"
    by (auto simp: hup_with_in_def ex_env_def POLLIN_def POLLOUT_def)
  moreover have "pipes_fresh (ex_env (POLLIN OR POLLOUT))" using ex_calls_succeed by (simp add: calls_succeed_def)
  ultimately obtain ds where
    "list_all2 (\<lambda>(d, fd, obj) (fd', obj'). fd' = fd \<and> moved True d ex_world obj w' obj') (zip ds ex_ios) ios'"
    "length ds = length ex_ios" "pw_open w' = pw_open ex_world"
    using filter_moves [OF run ex_filter_ok, of True] by blast
  then show ?thesis
    using run by (intro exI [of _ status] exI [of _ ios'] exI [of _ w'] exI [of _ ds])
      (auto simp: list_all2_conv_all_nth ex_ios_def ex_world_def case_prod_beta)
qed

text \<open>
  C26. The filter returns the exit status of the child (bits 8 to 15 of what \<^verbatim>\<open>waitpid\<close> reports for the process that
  \<^verbatim>\<open>fork\<close> made) when the calls of the system succeed, \<^verbatim>\<open>poll\<close> (after any number of interruptions) reports the pipes as
  ready, every write takes at least a byte and the child closes its outputs in the end.
\<close>

theorem filter_returns:
  assumes "filter_ok ios w" and "calls_succeed env" and "polls_ready env"
    and "\<forall>(fd, obj) \<in> set ios. \<forall>d. d \<notin> pw_open w \<longrightarrow> lively d w obj"
    and "\<forall>t. pe_fork env t = Inr pid" and "pe_waitpid env pid = Inr (pid, status)"
  shows "\<exists>ios' w'. filter_execute env ios w = Some (Inr (nat (status div 256 mod 256)), ios', w')"
  using execute_returns [OF assms] by (simp add: exit_status_def)

lemma filter_returns_witness:
  "\<exists>ios' w'. filter_execute (ex_env (POLLIN OR POLLOUT)) ex_ios ex_world = Some (Inr 2, ios', w')"
  using filter_returns [OF ex_filter_ok ex_calls_succeed ex_polls_ready ex_lively, of 77 512] by (simp add: ex_env_def)

text \<open>
  C27. From the round on in which \<^verbatim>\<open>poll\<close> begins to report nothing but error conditions, as it does for the full pipe to
  a child that ended without reading its input, the loop makes round after round, each with a call of \<^verbatim>\<open>poll\<close> and none with any
  effect: no object, no pipe and no byte changes, only time passes. So the filter never returns, and the child is not waited for.
\<close>

theorem filter_spins:
  assumes "sub_spawn env (filter_process ios) w = (Inr (), p1, w1)" and "setup_all (pw_store w1) ios MultiplexIO = (ios1, mx1)"
    and "filter_rounds env k (ios1, mx1, w1) (ios2, mx2, w2)" and "mx_active mx2 > 0" and "errors_from (pw_time w2) env"
  shows "(\<forall>n. \<exists>fds. filter_rounds env n (ios2, mx2, w2) (ios2, mx2\<lparr>mx_fds := fds\<rparr>, w2\<lparr>pw_time := pw_time w2 + n\<rparr>)) \<and>
    filter_execute env ios w = None"
  using execute_spins [OF assms] by blast

text \<open>The first call of \<^verbatim>\<open>poll\<close> still reports the pipes as ready.\<close>

definition ex_late :: proc_env where
  "ex_late = (ex_env POLLERR)\<lparr>pe_poll := \<lambda>t. Inr (\<lambda>d. if t < 4 then POLLIN OR POLLOUT else POLLERR)\<rparr>"

lemma ex_late_spawn:
  "sub_spawn ex_late (filter_process ex_ios) ex_world =
    (Inr (), SubProcess\<lparr>sp_pid := 77, sp_fdmap := [(0, 0), (1, 1)]\<rparr>,
     ex_world\<lparr>pw_time := 3, pw_open := {4, 5}, pw_store := [ParentToChild (-1) 4, ChildToParent 5 (-1)]\<rparr>)"
  by (auto simp: sub_spawn_def filter_process_def ex_ios_def ex_world_def ex_late_def ex_env_def setChildFD_def SubProcess_def
      sub_prepare_def pipe_close_def set_pipe_def close_if_def tick_def finalizeParent_def fd_close_def sx_seq_Inr)

lemma ex_late_round:
  assumes "setup_all (pw_store w1) ex_ios MultiplexIO = (ios1, mx1)"
    and w1: "w1 = ex_world\<lparr>pw_time := 3, pw_open := {4, 5}, pw_store := [ParentToChild (-1) 4, ChildToParent 5 (-1)]\<rparr>"
  shows "\<exists>ios2 mx2 w2. filter_rounds ex_late 1 (ios1, mx1, w1) (ios2, mx2, w2) \<and> mx_active mx2 = 1 \<and> pw_time w2 = 4"
proof -
  have ios1: "ios1 = [(0, IStreamIO 0 0 (istream_new ''input'') []), (1, OStreamIO 1 1 [])]"
    and mx1: "mx1 = \<lparr>mx_fds = [\<lparr>pf_fd = 4, pf_events = POLLOUT, pf_revents = 0\<rparr>, \<lparr>pf_fd = 5, pf_events = POLLIN, pf_revents = 0\<rparr>], mx_active = 2\<rparr>"
    using assms by (auto simp: ex_ios_def MultiplexIO_def mx_add_def)
  let ?mx = "mx1\<lparr>mx_fds := [\<lparr>pf_fd = 4, pf_events = POLLOUT, pf_revents = 4\<rparr>, \<lparr>pf_fd = 5, pf_events = POLLIN, pf_revents = 1\<rparr>]\<rparr>"
  have m: "mx_monitor ex_late mx1 w1 = Some (Inr (), ?mx, tick w1)"
    by (subst mx_monitor.simps)
      (simp add: ex_late_def w1 mx1 poll_entry_def POLLIN_def POLLOUT_def POLLERR_def POLLHUP_def POLLNVAL_def)
  obtain ios2 mx2 w2 where h: "handle_all ios1 ?mx (tick w1) = (Inr (), ios2, mx2, w2)" and "mx_active mx2 = 1" and "pw_time w2 = 4"
    by (simp add: ios1 mx1 w1 mx_at_def POLLIN_def POLLOUT_def POLLHUP_def input_underflow_def is_read_def istream_new_def BUFSIZ_def
      Let_def pipe_write_def pipe_read_def ex_world_def tick_def deactivate_def pipe_close_def set_pipe_def close_if_def fd_close_def)
  then show ?thesis using next_round [OF _ m h no_round] by (auto simp: mx1)
qed

lemma filter_spins_witness:
  "filter_execute ex_late ex_ios ex_world = None"
proof -
  let ?w1 = "ex_world\<lparr>pw_time := 3, pw_open := {4, 5}, pw_store := [ParentToChild (-1) 4, ChildToParent 5 (-1)]\<rparr>"
  obtain ios1 mx1 where su: "setup_all (pw_store ?w1) ex_ios MultiplexIO = (ios1, mx1)" by fastforce
  then obtain ios2 mx2 w2 where r: "filter_rounds ex_late 1 (ios1, mx1, ?w1) (ios2, mx2, w2)" "mx_active mx2 = 1" "pw_time w2 = 4"
    using ex_late_round by blast
  have "errors_from (pw_time w2) ex_late"
    by (simp add: errors_from_def r(3) ex_late_def POLLIN_def POLLOUT_def POLLHUP_def POLLERR_def)
  then show ?thesis using filter_spins [OF ex_late_spawn su r(1)] r(2) by simp
qed

text \<open>
  C28. When the ends of the pipes are distinct and none is a descriptor that the child is to have, the child is executed with
  each such descriptor being its end of the pipe, without the ends themselves, and with every other descriptor as it was.
\<close>

theorem child_gets_pipes:
  assumes "child_ready (sp_fdmap p) (pw_store w) (\<lambda>fd. if fd \<in> pw_open w then Some fd else None)"
  shows "\<exists>t. spawn_child None nm args p w = Inr (t, nm # args) \<and>
    (\<forall>(fd, l) \<in> set (sp_fdmap p). t fd = Some (other_end (pw_store w ! l))) \<and>
    (\<forall>d \<in> set (ends_list (sp_fdmap p) (pw_store w)). t d = None) \<and>
    (\<forall>d. d \<notin> set (map fst (sp_fdmap p)) \<union> set (ends_list (sp_fdmap p) (pw_store w)) \<longrightarrow>
       t d = (if d \<in> pw_open w then Some d else None))"
proof -
  let ?t0 = "\<lambda>fd. if fd \<in> pw_open w then Some fd else None"
  have "?t0 (other_end (pw_store w ! l)) = Some (other_end (pw_store w ! l))" if "(fd, l) \<in> set (sp_fdmap p)" for fd l
    using assms that by (auto simp: child_ready_def split: if_splits)
  then show ?thesis using child_setup_ok [OF assms] by (fastforce simp: spawn_child_def)
qed

lemma child_gets_pipes_witness:
  "\<exists>t. spawn_child None ''mount'' [''-a''] (SubProcess\<lparr>sp_fdmap := [(0, 0), (2, 1)]\<rparr>)
     (ex_world\<lparr>pw_open := {0, 1, 2, 5, 6, 7, 8}, pw_store := [ParentToChild 5 6, ChildToParent 7 8]\<rparr>) = Inr (t, [''mount'', ''-a'']) \<and>
     t 0 = Some 5 \<and> t 1 = Some 1 \<and> t 2 = Some 8 \<and> t 6 = None"
proof -
  let ?p = "SubProcess\<lparr>sp_fdmap := [(0, 0), (2, 1)]\<rparr>"
  let ?w = "ex_world\<lparr>pw_open := {0, 1, 2, 5, 6, 7, 8}, pw_store := [ParentToChild 5 6, ChildToParent 7 8]\<rparr>"
  have "child_ready (sp_fdmap ?p) (pw_store ?w) (\<lambda>fd. if fd \<in> pw_open ?w then Some fd else None)"
    by (simp add: child_ready_def ends_list_def)
  from child_gets_pipes [OF this, of "''mount''" "[''-a'']"] show ?thesis by (auto simp: ends_list_def)
qed

section \<open>Shares and FTP\<close>

text \<open>
  A CIFS URL whose path is a share and a rest mounts the share with the user, password and port of the URL, and the
  transfer saves below the mount point: the rest of the path, decoded once more, without its leading slashes.
\<close>

theorem cifs_target:
  assumes "m_path u = slashes @ share @ ''/'' @ rest" and "set slashes \<subseteq> {SLASH}" and "SLASH \<notin> set share" and "share \<noteq> []"
    and "sy_reachable env (m_hostname u) s = (Inr b, s1)"
    and "sy_execute env ''mount'' (mount_args (''//'' @ m_hostname u @ ''/'' @ share) ''/mnt'' ''cifs'' (cifs_options u)) s1 =
      (Inr (0, err), s2)"
    and "cifs_translate env u (s, mp) = (Inr f, t)"
  shows "t = (s2, ''/mnt'') \<and> m_protocol f = PROT_FILE \<and>
    m_path f = url_decode False (''/mnt/'' @ dropWhile (\<lambda>c. c = SLASH) rest)"
  by (rule cifs_translate_target [OF assms])

text \<open>A system that keeps the mount points in use; every command, check and directory succeeds.\<close>

definition ex_system :: "string list share_env" where
  "ex_system =
     \<lparr>sy_execute = (\<lambda>cmd args ms.
        (Inr (0, []), if cmd = ''mount'' then last args # ms else if cmd = ''umount'' then remove1 (last args) ms else ms)),
      sy_reachable = (\<lambda>host ms. (Inr True, ms)), sy_sys_mkdir = (\<lambda>path ms. (ms, None)), sy_blksize = (\<lambda>ms path. Some 4096),
      sy_fs = (\<lambda>ms path. Directory), sy_cwd = ''/''\<rparr>"

definition ex_share :: "string \<Rightarrow> protocol \<Rightarrow> string \<Rightarrow> root_dir_url" where
  "ex_share url prot path =
     \<lparr>m_url = url, m_protocol = prot, m_hostname = ''nas'', m_password = ''pw'', m_username = ''joe'', m_port = 445,
      m_path = path, m_realpath = []\<rparr>"

definition ex_dump :: root_dir_url where
  "ex_dump = ex_share ''cifs://joe:pw@nas:445/dumps/vm1/'' PROT_CIFS ''/dumps/vm1''"

definition ex_file :: "string \<Rightarrow> root_dir_url" where
  "ex_file path =
     \<lparr>m_url = ''file://'' @ path, m_protocol = PROT_FILE, m_hostname = [], m_password = [], m_username = [], m_port = -1,
      m_path = path, m_realpath = path\<rparr>"

lemma ex_cifs_translate: "cifs_translate ex_system ex_dump ([], []) = (Inr (ex_file ''/mnt/vm1''), ([''/mnt''], ''/mnt''))"
  by code_simp

lemma cifs_target_witness:
  "cifs_translate ex_system ex_dump ([], []) = (Inr (ex_file ''/mnt/vm1''), ([''/mnt''], ''/mnt'')) \<and>
   m_protocol (ex_file ''/mnt/vm1'') = PROT_FILE \<and> m_path (ex_file ''/mnt/vm1'') = ''/mnt/vm1''"
proof -
  have u: "m_path ex_dump = ''/'' @ ''dumps'' @ ''/'' @ ''vm1''" "m_hostname ex_dump = ''nas''" by (simp_all add: ex_dump_def ex_share_def)
  have m: "sy_reachable ex_system (m_hostname ex_dump) [] = (Inr True, [])"
      "sy_execute ex_system ''mount'' (mount_args (''//'' @ m_hostname ex_dump @ ''/'' @ ''dumps'') ''/mnt'' ''cifs'' (cifs_options ex_dump)) [] =
        (Inr (0, []), [''/mnt''])" by (simp_all add: ex_system_def mount_args_def)
  have "([''/mnt''], ''/mnt'') = ([''/mnt''], ''/mnt'') \<and> m_protocol (ex_file ''/mnt/vm1'') = PROT_FILE \<and>
      m_path (ex_file ''/mnt/vm1'') = url_decode False (''/mnt/'' @ dropWhile (\<lambda>c. c = SLASH) ''vm1'')"
    by (rule cifs_target [OF u(1) _ _ _ m ex_cifs_translate]) (simp_all add: SLASH_def)
  then show ?thesis using ex_cifs_translate by (simp add: SLASH_def)
qed

text \<open>
  C29. Of the shares that an NFS transfer with several URLs has mounted, closing it unmounts the last one only: the mount
  points of the others stay in use. With one URL everything is as it was.
\<close>

theorem nfs_shares_left:
  assumes "mounts_law env mounted" and "NFSTransfer env urlv s = (Inr ft, (s1, mp))" and "urlv \<noteq> []"
    and "transfer_close env (s1, mp) = (Inr u, (s2, mp2))"
  shows "mounted s2 = rev (map nfs_mountpoint (butlast urlv)) @ mounted s \<and> mp2 = []"
  by (rule NFSTransfer_close_mounts [OF assms])

lemma ex_system_law: "mounts_law ex_system (\<lambda>ms. ms)"
  by (simp add: mounts_law_def ex_system_def mount_args_def)

definition ex_shares :: "root_dir_url list" where
  "ex_shares = [ex_share ''nfs://nas/a/x'' PROT_NFS ''/a/x'', ex_share ''nfs://nas/b/x'' PROT_NFS ''/b/x'']"

lemma ex_nfs:
  "NFSTransfer ex_system ex_shares [] =
    (Inr \<lparr>ft_urlVector = [ex_file ''/mnt/nas/a/x'', ex_file ''/mnt/nas/b/x''], ft_bufferSize = 4096\<rparr>,
     ([''/mnt/nas/b'', ''/mnt/nas/a''], ''/mnt/nas/b''))"
  by code_simp

lemma nfs_shares_left_witness:
  "fst (snd (transfer_close ex_system (snd (NFSTransfer ex_system ex_shares [])))) = [''/mnt/nas/a'']"
proof -
  have c: "transfer_close ex_system ([''/mnt/nas/b'', ''/mnt/nas/a''], ''/mnt/nas/b'') = (Inr (), ([''/mnt/nas/a''], []))"
    by code_simp
  have "map nfs_mountpoint (butlast ex_shares) = [''/mnt/nas/a'']" by code_simp
  then show ?thesis
    using nfs_shares_left [OF ex_system_law ex_nfs _ c] ex_nfs c by (simp add: ex_shares_def)
qed

text \<open>
  When the process whose output is sent by FTP fails at its end, or cannot be started, the handler of the transfer closes the
  pipe again: \<^verbatim>\<open>pclose(NULL)\<close> in place of the error that was thrown.
\<close>

theorem ftp_closes_twice:
  assumes "target_files \<noteq> []" and "FTPTransfer_open api reachable urlv (hd target_files) c = (Inr (), c1)"
    and "(pdp_popen p = Inl e \<and> pdp_processFile p = None) \<or>
      (pdp_popen p = Inr f \<and>
       cu_perform api (curl_readfunction process_provider) (p\<lparr>pdp_processFile := Some f\<rparr>) c1 = (0, p2, c2) \<and>
       pdp_processFile p2 = Some f2 \<and> WEXITSTATUS (pdp_pclose p2) \<noteq> 0)"
  shows "fst (FTPTransfer_perform api reachable urlv process_provider target_files (p, c)) =
    (Inl (Undefined ''pclose(NULL)''), Some False)"
  using FTPTransfer_send_not_started [OF assms(2), of p e] FTPTransfer_send_failed_process [OF assms(2), of p f p2 c2 f2] assms(1,3)
  by (auto simp: FTPTransfer_perform_def split: prod.splits)

text \<open>A library whose calls succeed and which asks for one block of data.\<close>

definition ex_curl :: "(nat, process_dp) curl_api" where
  "ex_curl =
     \<lparr>cu_global_init = (\<lambda>c. (0, c)), cu_easy_init = (\<lambda>c. (True, c)), cu_setopt = (\<lambda>opt c. (0, c + 1)), cu_error = (\<lambda>c. []),
      cu_perform = (\<lambda>get p c. (0, snd (get 1 16384 p), c))\<rparr>"

definition ex_output :: stdio_file where
  "ex_output = \<lparr>f_bytes = ''data'', f_rpos = 0, f_fault = None\<rparr>"

definition ex_ftp_process :: "errno + stdio_file \<Rightarrow> process_dp" where
  "ex_ftp_process popen = ProcessDataProvider popen 256 (\<lambda>cmd. 0) ''makedumpfile -F /proc/vmcore'' []"

lemma ftp_closes_twice_witness:
  "fst (FTPTransfer_perform ex_curl (\<lambda>host. Inr True) [ex_dump] process_provider [''vmcore''] (ex_ftp_process (Inl EIO), 0)) =
    (Inl (Undefined ''pclose(NULL)''), Some False) \<and>
   fst (FTPTransfer_perform ex_curl (\<lambda>host. Inr True) [ex_dump] process_provider [''vmcore''] (ex_ftp_process (Inr ex_output), 0)) =
    (Inl (Undefined ''pclose(NULL)''), Some False)"
proof
  have o: "FTPTransfer_open ex_curl (\<lambda>host. Inr True) [ex_dump] (hd [''vmcore'']) 0 = (Inr (), 2)"
    by (simp add: FTPTransfer_open_def sx_seq_def sx_bind_def sx_simps curl_setopt_def ex_curl_def)
  show "fst (FTPTransfer_perform ex_curl (\<lambda>host. Inr True) [ex_dump] process_provider [''vmcore''] (ex_ftp_process (Inl EIO), 0)) =
      (Inl (Undefined ''pclose(NULL)''), Some False)"
    by (rule ftp_closes_twice [OF _ o, where e = EIO]) (simp_all add: ex_ftp_process_def ProcessDataProvider_def)
  let ?p = "ex_ftp_process (Inr ex_output)"
  have "cu_perform ex_curl (curl_readfunction process_provider) (?p\<lparr>pdp_processFile := Some ex_output\<rparr>) 2 =
      (0, ?p\<lparr>pdp_processFile := Some (ex_output\<lparr>f_rpos := 4\<rparr>)\<rparr>, 2)"
    by (simp add: ex_curl_def curl_readfunction_def process_provider_def pdp_getData_def fread_def Let_def stream_rest_def ex_output_def)
  then show "fst (FTPTransfer_perform ex_curl (\<lambda>host. Inr True) [ex_dump] process_provider [''vmcore''] (?p, 0)) =
      (Inl (Undefined ''pclose(NULL)''), Some False)"
    by (intro ftp_closes_twice [OF _ o, where f = ex_output]) (auto simp: ex_ftp_process_def ProcessDataProvider_def WEXITSTATUS_def)
qed

section \<open>Routes\<close>

text \<open>
  C30. A route request that the kernel answers with any well-formed routing message, wherever that message stands among others
  in the datagram, gives the preferred source address of its attributes, the last one if there are several, or the error of its type of route.
\<close>

theorem route_reply_read:
  assumes "nl_timeout nl = -1" and "nl_local_pid nl < 2 ^ 32" and "answered ops nl (request_bytes nl ai) s dg s'"
    and "dg_sender dg = 0" and "dg_namelen dg = sizeof_sockaddr_nl"
    and "m = route_message RTM_NEWROUTE flags ((nl_seq nl + 1) mod 2 ^ 32) (nl_local_pid nl) family misc rtype rflags as"
    and "length misc = 6" and "family < 256" and "rtype < 256" and "list_all attr_ok as" and "length (concat (ms1 @ m # ms2)) < 2 ^ 32"
    and "dg_data dg = concat (ms1 @ m # ms2)" and "\<forall>x \<in> set (ms1 @ ms2). nl_message_ok x"
    and "\<forall>x \<in> set ms1. nlmsg_pid x 0 \<noteq> nl_local_pid nl \<or> nlmsg_seq x 0 \<noteq> (nl_seq nl + 1) mod 2 ^ 32"
  shows "\<exists>nl'. nl_prefsrc nl' = nl_prefsrc nl \<and>
    checkRoute ops ai (nl, s) =
      Some (if rtype \<in> usable_types then set_attrs ops as (nl'\<lparr>nl_family := int family\<rparr>, s') else (Inr (reply_result rtype), (nl', s')))"
  by (rule checkRoute_answered [OF assms])

text \<open>A kernel that answers with one datagram, and a clock that only a sleep advances.\<close>

definition ex_reply :: "nat \<Rightarrow> string" where
  "ex_reply seq =
     route_message RTM_NEWROUTE 0 seq 4711 2 (chr 32 # replicate 5 NUL) RTN_UNICAST 0
       [(RTA_DST, map chr [10, 0, 0, 1]), (RTA_PREFSRC, map chr [10, 0, 0, 7])]"

definition ex_datagram :: datagram where
  "ex_datagram = \<lparr>dg_data = concat [ex_reply 5, ex_reply 6], dg_sender = 0, dg_namelen = 12, dg_trunc = False\<rparr>"

definition ex_net :: "(int \<times> errno + addrinfo list) \<Rightarrow> int net_ops" where
  "ex_net addrs =
     \<lparr>no_socket = (\<lambda>s. (Inr 3, s)), no_bind = (\<lambda>fd groups s. (None, s)), no_getsockname = (\<lambda>fd s. (Inr (12, 16, 4711), s)),
      no_close = (\<lambda>fd s. s), no_clock = (\<lambda>s. ((s div 1000000000, s mod 1000000000), s)), no_poll = (\<lambda>fd t s. (Inr 1, s)),
      no_recvmsg = (\<lambda>fd n s. (Inr ex_datagram, s)), no_sendmsg = (\<lambda>fd peer groups req s. (None, s)),
      no_getnameinfo = (\<lambda>family addr s. (Inr (if addr = map chr [10, 0, 0, 7] then ''10.0.0.7'' else ''other''), s)),
      no_getaddrinfo = (\<lambda>host s. (addrs, s)), no_nanosleep = (\<lambda>d s. s + nanos d)\<rparr>"

definition ex_netlink :: netlink where
  "ex_netlink =
     \<lparr>nl_timeout = -1, nl_fd = 3, nl_local_pid = 4711, nl_seq = 5, nl_buflen = 1024, nl_buffer = [], nl_message = None,
      nl_family = 0, nl_prefsrc = []\<rparr>"

definition ex_address :: addrinfo where
  "ex_address = \<lparr>ai_family = 2, ai_addr = map chr [2, 0, 0, 0, 10, 0, 0, 1]\<rparr>"

definition ex_attrs :: "(nat \<times> string) list" where
  "ex_attrs = [(RTA_DST, map chr [10, 0, 0, 1]), (RTA_PREFSRC, map chr [10, 0, 0, 7])]"

lemma ex_answer:
  shows "nl_timeout ex_netlink = -1" and "nl_local_pid ex_netlink < 2 ^ 32"
    and "answered (ex_net addrs) ex_netlink (request_bytes ex_netlink ex_address) s ex_datagram s"
    and "dg_sender ex_datagram = 0" and "dg_namelen ex_datagram = sizeof_sockaddr_nl"
    and "ex_reply 6 = route_message RTM_NEWROUTE 0 ((nl_seq ex_netlink + 1) mod 2 ^ 32) (nl_local_pid ex_netlink) 2
      (chr 32 # replicate 5 NUL) RTN_UNICAST 0 ex_attrs"
    and "length (chr 32 # replicate 5 NUL) = 6" and "(2 :: nat) < 256" and "RTN_UNICAST < 256" and "list_all attr_ok ex_attrs"
    and "length (concat ([ex_reply 5] @ ex_reply 6 # [])) < 2 ^ 32"
    and "dg_data ex_datagram = concat ([ex_reply 5] @ ex_reply 6 # [])" and "\<forall>x \<in> set ([ex_reply 5] @ []). nl_message_ok x"
    and "\<forall>x \<in> set [ex_reply 5]. nlmsg_pid x 0 \<noteq> nl_local_pid ex_netlink \<or> nlmsg_seq x 0 \<noteq> (nl_seq ex_netlink + 1) mod 2 ^ 32"
proof -
  show "\<forall>x \<in> set ([ex_reply 5] @ []). nl_message_ok x"
    by (simp add: ex_reply_def) (rule route_message_ok, simp_all add: attr_bytes_def nl_align_def)
  show "answered (ex_net addrs) ex_netlink (request_bytes ex_netlink ex_address) s ex_datagram s"
    by (simp add: answered_def ex_net_def)
qed (simp_all add: ex_netlink_def ex_datagram_def sizeof_sockaddr_nl_def ex_reply_def ex_attrs_def attr_ok_def sizeof_rtattr_def
    RTN_UNICAST_def RTA_DST_def RTA_PREFSRC_def route_message_seq length_route_message attr_bytes_def nl_align_def)

lemma ex_set_attrs:
  "RTN_UNICAST \<in> usable_types \<and> set_attrs (ex_net addrs) ex_attrs (nl'\<lparr>nl_family := int 2\<rparr>, s) =
    (Inr 0, (nl'\<lparr>nl_family := 2, nl_prefsrc := ''10.0.0.7''\<rparr>, s))"
  by (simp add: usable_types_def ex_attrs_def RTA_DST_def RTA_PREFSRC_def prefsrc_attr_def AF_INET_def ex_net_def)

lemma route_reply_read_witness:
  "\<exists>nl'. nl_prefsrc nl' = ''10.0.0.7'' \<and> checkRoute (ex_net (Inr [])) ex_address (ex_netlink, 0) = Some (Inr 0, (nl', 0))"
  using route_reply_read [OF ex_answer, of "Inr []" 0] ex_set_attrs [of "Inr []"] by auto

text \<open>
  C31. A host is reported as reachable only after its name, without the brackets of an IPv6 literal, was resolved and a route
  request for one of its addresses returned 0; \<open>prefsrc()\<close> is then the source address that this request gave.
\<close>

theorem routable_checked:
  assumes "routable_check ops garbage timeout (rt, s) = Some (Inr True, (rt', s'))"
  shows "\<exists>addrs s0 s1. no_getaddrinfo ops (raw_host (rt_host rt)) s0 = (Inr addrs, s1) \<and> rt_ai rt' = AI_list addrs \<and>
    routed ops addrs (rt_prefsrc rt')"
  by (rule routable_check_True [OF assms])

lemma ex_routable_check:
  "\<exists>rt'. routable_check (ex_net (Inr [ex_address])) [] 30 (Routable 5 ''[fe80::1]'', 0) = Some (Inr True, (rt', 0)) \<and>
    rt_prefsrc rt' = ''10.0.0.7''"
proof -
  let ?ops = "ex_net (Inr [ex_address])"
  have n: "NetLink ?ops [] 5 groups 0 = (Inr ex_netlink, 0)" for groups
    by (simp add: NetLink_def ex_net_def ex_netlink_def sizeof_sockaddr_nl_def AF_NETLINK_def NETLINK_DEF_RECV_MAX_def AF_UNSPEC_def)
  have r: "host_resolve ?ops (Routable 5 ''[fe80::1]'', 0) = (Inr True, ((Routable 5 ''[fe80::1]'')\<lparr>rt_ai := AI_list [ex_address]\<rparr>, 0))"
    by (simp add: host_resolve_def Routable_def ex_net_def Let_def)
  have l: "resolve_loop ?ops stop (Routable 5 ''[fe80::1]'', 0) = Some (Inr True, ((Routable 5 ''[fe80::1]'')\<lparr>rt_ai := AI_list [ex_address]\<rparr>, 0))" for stop
    by (simp add: resolve_loop.simps r)
  obtain nl' where c: "checkRoute ?ops ex_address (ex_netlink, 0) = Some (Inr 0, (nl', 0))" "nl_prefsrc nl' = ''10.0.0.7''"
    using checkRoute_answered [OF ex_answer, of "Inr [ex_address]" 0] ex_set_attrs [of "Inr [ex_address]"] by auto
  have d: "netlink_destroy ?ops nl s = s" for nl s by (simp add: netlink_destroy_def ex_net_def)
  have k: "no_clock ?ops 0 = ((0, 0), 0)" by (simp add: ex_net_def)
  have "rt_seq (Routable 5 ''[fe80::1]'') = 5" by (simp add: Routable_def)
  then show ?thesis
    using c by (simp add: routable_check_def k l n d route_loop.simps hasRoute_def)
qed

lemma routable_checked_witness:
  "\<exists>text. routed (ex_net (Inr [ex_address])) [ex_address] text \<and> text = ''10.0.0.7''"
proof -
  obtain rt' where c: "routable_check (ex_net (Inr [ex_address])) [] 30 (Routable 5 ''[fe80::1]'', 0) = Some (Inr True, (rt', 0))"
      and t: "rt_prefsrc rt' = ''10.0.0.7''"
    using ex_routable_check by blast
  have "no_getaddrinfo (ex_net (Inr [ex_address])) host s = (Inr [ex_address], s)" for host s by (simp add: ex_net_def)
  then show ?thesis using routable_checked [OF c] t by auto
qed

text \<open>
  C32. Waiting for a name to be resolved ends, with an answer or an error, for every time-out up to 2147482 seconds, when the clock is
  monotonic, sleeps last as long as they were asked to, and no call takes longer than 1000000 seconds.
\<close>

theorem resolution_ends:
  assumes "clock_law ops now" and "0 \<le> timeout" and "timeout \<le> 2147482" and "no_clock ops s = (t, s1)"
  shows "\<exists>y. resolve_loop ops (fst t + timeout, snd t) (rt, s1) = Some y"
proof -
  have "nanos (fst (no_clock ops s)) = now s \<and> now (snd (no_clock ops s)) = now s \<and> 0 \<le> snd (fst (no_clock ops s)) \<and>
      snd (fst (no_clock ops s)) < 1000000000" using assms(1) unfolding clock_law_def by blast
  then have t: "nanos t = now s1" "0 \<le> snd t" "snd t < 1000000000" using assms(4) by simp_all
  show ?thesis
    by (rule resolve_loop_ends [OF assms(1)]) (use t assms(2,3) in \<open>auto simp: nanos_def\<close>)
qed

lemma resolution_ends_witness:
  "\<exists>y. resolve_loop (ex_net (Inl (EAI_AGAIN, EIO))) (30, 0) (Routable 5 ''host'', 0) = Some y"
proof -
  have "clock_law (ex_net (Inl (EAI_AGAIN, EIO))) (\<lambda>s. s)"
    by (auto simp: clock_law_def ex_net_def nanos_def)
  from resolution_ends [OF this, of 30 0 "(0, 0)" 0 "Routable 5 ''host''"] show ?thesis by (simp add: ex_net_def)
qed

text \<open>
  With a time-out of 2147485 seconds or more (up to 4294966), the milliseconds left do not fit an \<^verbatim>\<open>int\<close>: when the
  first attempt to resolve the name fails, the check gives up at once.
\<close>

theorem net_timeout_overflow:
  assumes "no_clock ops s = (t0, s1)" and "host_resolve ops (rt, s1) = (Inr False, (rt1, s2))" and "no_clock ops s2 = (t1, s3)"
    and "0 \<le> snd t0" "snd t0 < 1000000000" "0 \<le> snd t1" "snd t1 < 1000000000" and "fst t0 \<le> fst t1"
    and "2147485 + (fst t1 - fst t0) \<le> timeout" and "timeout \<le> 4294966"
  shows "routable_check ops garbage timeout (rt, s) = Some (Inr False, (rt1, s3))"
  by (rule routable_check_overflow [OF assms])

lemma net_timeout_overflow_witness:
  "routable_check (ex_net (Inl (EAI_AGAIN, EIO))) [] 3000000 (Routable 5 ''host'', 0) = Some (Inr False, (Routable 5 ''host'', 0))"
  by (rule net_timeout_overflow [where ?t0.0 = "(0, 0)" and ?t1.0 = "(0, 0)" and ?s1.0 = 0 and ?s2.0 = 0])
    (simp_all add: ex_net_def host_resolve_def Routable_def EAI_AGAIN_def EAI_SYSTEM_def EAI_NONAME_def EAI_FAIL_def EAI_NODATA_def)

section \<open>Device time-outs\<close>

text \<open>
  C33. For entries of fstab below \<^verbatim>\<open>/kdump/\<close> that name their device by a path or by a tag, without escapes and in ASCII, the generator
  writes for each of them and for no other entry the drop-in file of the unit that \<^verbatim>\<open>systemd\<close> has for the device: the components of
  its path with hyphens between them, escaped. The file has the last time-out of the kernel command line, when that is the only one
  and short enough for one read. Other specifications are outside the statement: of some of them the code makes another device
  (\<open>unescape_fstab_escape\<close>).
\<close>

theorem generator_run:
  assumes "length argv = 4" and "memory_ok files"
    and "fe_opendir files ''/etc/cmdline.d'' = Inl ENOENT" and "\<not> fe_readable files ''/etc/cmdline''"
    and "fe_open files ''/proc/cmdline'' = Inr [Inr (print_args (as1 @ (''rd.timeout'', Some (dec_of_nat n)) # as2))]"
    and "length (print_args (as1 @ (''rd.timeout'', Some (dec_of_nat n)) # as2)) \<le> 768"
    and "NUL \<notin> set (print_args (as1 @ (''rd.timeout'', Some (dec_of_nat n)) # as2))"
    and "list_all plain_arg (as1 @ as2)" and "\<forall>(key, val) \<in> set as2. key \<noteq> ''rd.timeout''" and "0 < n" and "n \<le> ULONG_MAX"
    and "\<forall>(spec, mp) \<in> set fstab. prefix ''/kdump/'' mp \<longrightarrow> names_device encode spec (dev spec) \<and> unit_path (dev spec)"
  shows "generator_main (log_conf encode sc) files argv fstab [] =
    (Inr 0, map (\<lambda>(spec, mp). (argv ! 1 @ ''/'' @ unit_of (dev spec) @ ''.device.d/timeout.conf'',
      ''[Unit]'' @ [NL] @ ''JobTimeoutSec='' @ dec_of_nat n @ [NL])) (filter (\<lambda>(spec, mp). prefix ''/kdump/'' mp) fstab))"
proof -
  have "parse_cmdline_files files get_timeout 0 = of_nat n"
    using assms(2-7) last_timeout [OF assms(8-11)] slurp_fd_one [of "fe_can_alloc files"]
    by (simp add: parse_cmdline_files_def parse_dir_def parse_file_def slurp_file_def memory_ok_def READ_CHUNK_ADD_def READ_CHUNK_MIN_def)
  then show ?thesis
    using assms(1) create_confs_units [OF assms(2,11,12) [folded KDUMP_DIR_def]]
    by (simp add: generator_main_def sx_seq_Inr sx_simps KDUMP_DIR_def)
qed

definition ex_boot_files :: "string \<Rightarrow> file_env" where
  "ex_boot_files cmdline =
     \<lparr>fe_can_alloc = (\<lambda>n. True), fe_fresh = (\<lambda>n. replicate n (CHR ''?'')),
      fe_open = (\<lambda>path. if path = ''/proc/cmdline'' then Inr [Inr cmdline] else Inl ENOENT), fe_readable = (\<lambda>path. False),
      fe_opendir = (\<lambda>path. Inl ENOENT)\<rparr>"

lemma generator_run_witness:
  "generator_main (log_conf (\<lambda>s. s) True) (ex_boot_files (print_args [(''quiet'', None), (''rd.timeout'', Some ''90'')]))
     [''gen'', ''/run/units'', [], []] [(''LABEL=a-b'', ''/kdump/mnt0''), (''/dev/sda1'', ''/home''), (''/dev/sdb2'', ''/kdump/x'')] [] =
   (Inr 0, [(''/run/units/dev-disk-by'' @ [BSLASH] @ ''x2dlabel-a'' @ [BSLASH] @ ''x2db.device.d/timeout.conf'',
             ''[Unit]'' @ [NL] @ ''JobTimeoutSec=90'' @ [NL]),
            (''/run/units/dev-sdb2.device.d/timeout.conf'', ''[Unit]'' @ [NL] @ ''JobTimeoutSec=90'' @ [NL])])"
proof -
  let ?fstab = "[(''LABEL=a-b'', ''/kdump/mnt0''), (''/dev/sda1'', ''/home''), (''/dev/sdb2'', ''/kdump/x'')]"
  let ?dev = "\<lambda>spec. if spec = ''LABEL=a-b'' then [''dev'', ''disk'', ''by-label'', ''a-b''] else [''dev'', ''sdb2'']"
  have d: "dec_of_nat 90 = ''90''" by code_simp
  have tag: "names_device (\<lambda>s. s) (''LABEL'' @ ''='' @ ''a-b'') [''dev'', ''disk'', ''by-label'', ''a-b'']"
    by (rule device_by_tag) (simp_all add: device_tags_def char_consts)
  have path: "names_device (\<lambda>s. s) (device_path [''dev'', ''sdb2'']) [''dev'', ''sdb2'']"
    by (rule device_by_path) (simp add: char_consts)
  have units: "unit_path [''dev'', ''disk'', ''by-label'', ''a-b'']" "unit_path [''dev'', ''sdb2'']" by code_simp+
  have names: "unit_of [''dev'', ''disk'', ''by-label'', ''a-b''] = ''dev-disk-by'' @ [BSLASH] @ ''x2dlabel-a'' @ [BSLASH] @ ''x2db''"
    "unit_of [''dev'', ''sdb2''] = ''dev-sdb2''" by code_simp+
  have "generator_main (log_conf (\<lambda>s. s) True) (ex_boot_files (print_args ([(''quiet'', None)] @ (''rd.timeout'', Some (dec_of_nat 90)) # [])))
     [''gen'', ''/run/units'', [], []] ?fstab [] =
   (Inr 0, map (\<lambda>(spec, mp). ([''gen'', ''/run/units'', [], []] ! 1 @ ''/'' @ unit_of (?dev spec) @ ''.device.d/timeout.conf'',
      ''[Unit]'' @ [NL] @ ''JobTimeoutSec='' @ dec_of_nat 90 @ [NL])) (filter (\<lambda>(spec, mp). prefix ''/kdump/'' mp) ?fstab))"
  proof (rule generator_run)
    show "\<forall>(spec, mp) \<in> set ?fstab. prefix ''/kdump/'' mp \<longrightarrow> names_device (\<lambda>s. s) spec (?dev spec) \<and> unit_path (?dev spec)"
      using tag path units by (simp add: device_path_def SLASH_def)
    show "list_all plain_arg ([(''quiet'', None)] @ [])" by code_simp
    show "NUL \<notin> set (print_args ([(''quiet'', None)] @ (''rd.timeout'', Some (dec_of_nat 90)) # []))" by code_simp
  qed (simp_all add: memory_ok_def ex_boot_files_def d print_args_def print_arg_def ULONG_MAX_def)
  then show ?thesis by (simp add: d names)
qed

text \<open>
  C34. The unit name of a path is computed inside one buffer: the path without duplicate slashes is put at its end and escaped
  into its beginning. For every path that is not empty the bytes written never reach those still to be read, and the result is the escaped path.
\<close>

theorem path_escape_in_place:
  assumes "path \<noteq> []" and "NUL \<notin> set path" and "\<And>n. can_alloc n" and "\<And>n. length (fresh n) = n"
  shows "path_escape sc can_alloc fresh path = Inr (Some (unit_name sc path))"
  using path_escape_unit_name [OF assms(2,4,1)] assms(1,3) by (simp add: path_escape_def)

lemma path_escape_in_place_witness:
  "path_escape True (\<lambda>n. True) (\<lambda>n. replicate n (CHR ''?'')) ''//dev/./sd-a//'' = Inr (Some (unit_name True ''//dev/./sd-a//'')) \<and>
   unit_name True ''//dev/./sd-a//'' = ''dev-.-sd'' @ [BSLASH] @ ''x2da''"
proof
  have "NUL \<notin> set ''//dev/./sd-a//''" by code_simp
  then show "path_escape True (\<lambda>n. True) (\<lambda>n. replicate n (CHR ''?'')) ''//dev/./sd-a//'' = Inr (Some (unit_name True ''//dev/./sd-a//''))"
    by (intro path_escape_in_place) simp_all
  show "unit_name True ''//dev/./sd-a//'' = ''dev-.-sd'' @ [BSLASH] @ ''x2da''" by code_simp
qed

text \<open>
  Of a file that takes two reads, the second block is stored over the first: what is parsed begins with the bytes behind
  the first 1024.
\<close>

theorem long_file_overwritten:
  assumes "\<And>n. can_alloc n" and "length a = 1024" and "b \<noteq> []" and "length b \<le> 1024" and "NUL \<notin> set b"
  shows "\<exists>rest. slurp_fd can_alloc fresh [Inr a, Inr b] = Inr (b @ rest)"
  using slurp_fd_two [OF assms(1) _ assms(3) _ assms(5)] assms(2,4) by (simp add: READ_CHUNK_ADD_def)

lemma long_file_overwritten_witness:
  "\<exists>rest. slurp_fd (\<lambda>n. True) (\<lambda>n. replicate n NUL) [Inr (replicate 1024 (CHR ''x'')), Inr ''quiet''] = Inr (''quiet'' @ rest)"
  by (rule long_file_overwritten) (simp_all add: NUL_def)

section \<open>The age of dumps\<close>

text \<open>
  C35. When the dumps below a target are directories that \<^verbatim>\<open>save_dump\<close> named after the local time of their crash, \<^verbatim>\<open>delete_dumps\<close>
  removes the oldest and keeps the configured number of the newest: its order of names is the order of those times.
\<close>

theorem oldest_dumps_removed:
  assumes "op_rmdir ops = log_rmdir" and "m_protocol url = PROT_FILE" and "op_exists ops w (getRealPath url)"
    and "kdump_dirs ops w (getRealPath url) = Inr v" and "0 \<le> k" and "k \<le> int (length v)"
    and "\<forall>name \<in> set v. named_by_time localtime (saved name) name"
  shows "\<exists>old new. v = old @ new \<and> int (length new) = k \<and>
    (\<forall>x \<in> set old. \<forall>y \<in> set new. time_key localtime (saved x) \<le> time_key localtime (saved y)) \<and>
    delete_one ops False url k w = (w @ map (appendPath (getRealPath url)) old, Inr ())"
  by (rule delete_one_oldest [OF assms])

definition ex_localtime :: "int \<Rightarrow> tm option" where
  "ex_localtime value =
     (if value = 1 then Some \<lparr>tm_year = 123, tm_mon = 11, tm_mday = 31, tm_hour = 23, tm_min = 59, tm_gmtoff = 60\<rparr>
      else Some \<lparr>tm_year = 124, tm_mon = 0, tm_mday = 2, tm_hour = 3, tm_min = 4, tm_gmtoff = 60\<rparr>)"

definition ex_dumps :: "string list dir_ops" where
  "ex_dumps = ex_ops\<lparr>op_opendir := (\<lambda>_ _. Inr [\<lparr>d_name = ''2024-01-02-03:04'', d_type = DT_DIR\<rparr>, \<lparr>d_name = ''.'', d_type = DT_DIR\<rparr>,
     \<lparr>d_name = ''2023-12-31-23:59'', d_type = DT_DIR\<rparr>])\<rparr>"

lemma ex_dumps_dirs: "kdump_dirs ex_dumps w dir = Inr [''2023-12-31-23:59'', ''2024-01-02-03:04'']"
proof -
  have "sort [''2024-01-02-03:04'', ''2023-12-31-23:59''] = [''2023-12-31-23:59'', ''2024-01-02-03:04'']" by code_simp
  then show ?thesis
    by (simp add: kdump_dirs_def listDir_def ex_dumps_def ex_ops_def FilterKdumpDirs_def FilterDotsAndNondirs_def FilterDots_def)
qed

lemma ex_dumps_named:
  "named_by_time ex_localtime 1 ''2023-12-31-23:59''" "named_by_time ex_localtime 2 ''2024-01-02-03:04''"
proof -
  have n: "iso_name \<lparr>tm_year = 123, tm_mon = 11, tm_mday = 31, tm_hour = 23, tm_min = 59, tm_gmtoff = 60\<rparr> = ''2023-12-31-23:59''"
    "iso_name \<lparr>tm_year = 124, tm_mon = 0, tm_mday = 2, tm_hour = 3, tm_min = 4, tm_gmtoff = 60\<rparr> = ''2024-01-02-03:04''"
    by code_simp+
  show "named_by_time ex_localtime 1 ''2023-12-31-23:59''" "named_by_time ex_localtime 2 ''2024-01-02-03:04''"
    by (simp_all add: named_by_time_def ex_localtime_def valid_tm_def formatUnixTime_def iso_format n BUFSIZ_def)
qed

lemma oldest_dumps_removed_witness:
  "\<exists>old new. [''2023-12-31-23:59'', ''2024-01-02-03:04''] = old @ new \<and> int (length new) = 1 \<and>
    (\<forall>x \<in> set old. \<forall>y \<in> set new. time_key ex_localtime (if x = ''2023-12-31-23:59'' then 1 else 2) \<le>
       time_key ex_localtime (if y = ''2023-12-31-23:59'' then 1 else 2)) \<and>
    delete_one ex_dumps False ex_dir 1 [] = ([] @ map (appendPath (getRealPath ex_dir)) old, Inr ())"
  by (rule oldest_dumps_removed [OF _ _ _ ex_dumps_dirs]) (use ex_dumps_named in \<open>auto simp: ex_dumps_def ex_ops_def ex_dir_def\<close>)

section \<open>Notification by mail\<close>

text \<open>
  C36. When the server is reachable and takes the message, the notification of \<^verbatim>\<open>save_dump\<close> makes exactly the calls of \<open>smtp_calls\<close> (server,
  authentication, headers, one recipient for each address, the body, the session and its end), and the transport reads the body once, after an empty line.
\<close>

theorem mail_sent:
  assumes "mail_configured config s" and "so_send ops = send_mail (log_smtp status) reachable debug config"
    and "\<And>code msg. status = Some (code, msg) \<Longrightarrow> code < 400"
    and "\<And>w. reachable (snd (smtp_host (config_string ''KDUMP_SMTP_SERVER'' config))) w = (Inr True, w)"
    and "m = notification failure urlv config (sd_hostname s)" and "NUL \<notin> set (mail_body m)" and "2 \<le> n"
  shows "sendNotification ops config failure urlv s = (Inr (), s\<lparr>sd_world := sd_world s @ smtp_calls debug config (email_of m)\<rparr>) \<and>
    read_message n (em_body (email_of m)) first = Inr ([CR, NL] @ mail_body m)"
proof
  have "so_send ops m (sd_world s) = (sd_world s @ smtp_calls debug config (email_of m), Inr ())"
    using email_send_log [where status = status and reachable = reachable and config = config and debug = debug and em = "email_of m" and
        s = "sd_world s"] assms(3,4) by (simp add: assms(2) send_mail_def)
  then show "sendNotification ops config failure urlv s = (Inr (), s\<lparr>sd_world := sd_world s @ smtp_calls debug config (email_of m)\<rparr>)"
    using assms(1) unfolding assms(5) by (rule sendNotification_sends [rotated])
  show "read_message n (em_body (email_of m)) first = Inr ([CR, NL] @ mail_body m)"
    using read_message_body [of "em_body (email_of m)" n first] assms(6,7) by (simp add: email_of_def setBody_def CR_def NL_def NUL_def)
qed

lemma mail_sent_witness:
  "sendNotification (ex_save_ops 0 (\<lambda>_ _ w. (w, Inr (), None)) (send_mail (log_smtp (Some (250, ''OK''))) (\<lambda>_ w. (Inr True, w)) False ex_mail_config))
     ex_mail_config True [] (ex_save_dump []) =
   (Inr (), ex_save_dump [SetServer ''mail:25'', SetHostname ''h'', SetHeader ''From'' ''root@h'', SetHeader ''To'' ''root'',
      SetHeader ''Subject'' ''kdump: h crashed'', AddRecipient ''root'',
      SetMessagecb ([CR, NL] @ ''Your machine h crashed.'' @ [NL] @ ''Copying dump failed.'' @ [NL]), StartSession, DestroySession])"
proof -
  let ?ops = "ex_save_ops 0 (\<lambda>_ _ w. (w, Inr (), None)) (send_mail (log_smtp (Some (250, ''OK''))) (\<lambda>_ w. (Inr True, w)) False ex_mail_config)"
  let ?m = "notification True [] ex_mail_config ''h''"
  have c: "config_string ''KDUMP_SMTP_SERVER'' ex_mail_config = ''mail''" "config_string ''KDUMP_NOTIFICATION_TO'' ex_mail_config = ''root''"
    "config_string ''KDUMP_NOTIFICATION_CC'' ex_mail_config = []" "\<not> needs_auth ex_mail_config"
    by (simp_all add: ex_mail_config_def ex_config_def config_string_def config_value_def needs_auth_def)
  have h: "sd_hostname (ex_save_dump w) = ''h''" "sd_world (ex_save_dump w) = w" "(ex_save_dump w)\<lparr>sd_world := w'\<rparr> = ex_save_dump w'"
    for w w' :: "smtp_call list"
    by (simp_all add: ex_save_dump_def SaveDump_def)
  have cc: "stream_words [] = []" by code_simp
  have m: "mail_configured ex_mail_config (ex_save_dump [] :: smtp_call list save_dump)"
    by (simp add: mail_configured_def c ex_save_dump_def SaveDump_def)
  have l: "smtp_calls False ex_mail_config (email_of ?m) =
     [SetServer ''mail:25'', SetHostname ''h'', SetHeader ''From'' ''root@h'', SetHeader ''To'' ''root'',
      SetHeader ''Subject'' ''kdump: h crashed'', AddRecipient ''root'',
      SetMessagecb ([CR, NL] @ ''Your machine h crashed.'' @ [NL] @ ''Copying dump failed.'' @ [NL]), StartSession, DestroySession]"
    using c(4) by (simp add: smtp_calls_def c notification_def email_of_def setBody_def setSubject_def setTo_def setHostname_def Email_def
        smtp_host_def find_char_def cc)
  have "sendNotification ?ops ex_mail_config True [] (ex_save_dump []) =
      (Inr (), (ex_save_dump [])\<lparr>sd_world := sd_world (ex_save_dump []) @ smtp_calls False ex_mail_config (email_of ?m)\<rparr>) \<and>
    read_message 2 (em_body (email_of ?m)) True = Inr ([CR, NL] @ mail_body ?m)"
    by (rule mail_sent [OF m]) (auto simp: ex_save_ops_def h notification_def NUL_def NL_def)
  then show ?thesis by (simp add: h l)
qed

section \<open>Messages and the background\<close>

text \<open>
  C37. With both \<^verbatim>\<open>-D\<close> and \<^verbatim>\<open>-L\<close> a message of level debug goes to the log file, with its prefix and a newline, but one of level info that
  takes an argument reads a \<^verbatim>\<open>va_list\<close> that is not valid any more: it is printed on standard error first and the same list is then used for the file.
\<close>

theorem log_file_breaks_info:
  assumes "vformat msg (Some args) = Inr t" and "vformat msg None = Inl (Undefined ''va_list used again after vfprintf'')"
    and "d = snd (setup_debug env True True True Debug)"
  shows "dbg env msg args d = (Inr (), d\<lparr>dg_file := dg_file d @ ''DEBUG: '' @ t @ [NL]\<rparr>) \<and>
    info env msg args d = (Inl (Undefined ''va_list used again after vfprintf''), d\<lparr>dg_stderr := log_line env d DL_INFO t\<rparr>) \<and>
    info env msg args Debug = (Inr (), Debug\<lparr>dg_stderr := log_line env Debug DL_INFO t\<rparr>)"
proof -
  let ?d0 = "Debug\<lparr>dg_handle := True\<rparr>"
  have "vformat ''STARTUP ----------------------------------'' (Some []) = Inr ''STARTUP ----------------------------------''"
    by (rule vformat_plain) simp
  from vmsg_file [OF this, where level = DL_DEBUG and d = ?d0 and env = env]
  have d: "d = ?d0\<lparr>dg_file := ''DEBUG: STARTUP ----------------------------------'' @ [NL]\<rparr>"
    unfolding assms(3) by (simp add: setup_debug_def setFileHandle_def dbg_def Debug_def)
  show ?thesis
    using vmsg_file [OF assms(1), where level = DL_DEBUG and d = d and env = env]
      vmsg_both [OF assms(1) _ _ assms(2), where level = DL_INFO and d = d and env = env]
      vmsg_stderr [OF assms(1), where level = DL_INFO and d = Debug and env = env]
    by (simp add: d dbg_def info_def Debug_def)
qed

lemma log_file_breaks_info_witness:
  "fst (info \<lparr>en_term = None, en_tty = False\<rparr> ''Deleting %s.'' [ArgStr ''2023-12-31-23:59'']
     (snd (setup_debug \<lparr>en_term = None, en_tty = False\<rparr> True True True Debug))) =
   Inl (Undefined ''va_list used again after vfprintf'')"
proof -
  have "vformat ''Deleting %s.'' (Some [ArgStr ''2023-12-31-23:59'']) = Inr ''Deleting 2023-12-31-23:59.''"
    "vformat ''Deleting %s.'' None = Inl (Undefined ''va_list used again after vfprintf'')" by code_simp+
  from log_file_breaks_info [OF this refl] show ?thesis by simp
qed

text \<open>
  C38. In the background the process leads a session in the root directory and keeps only its standard input: the first two files that
  it opens there become its standard output and standard error.
\<close>

theorem daemon_descriptors:
  assumes "fst (dm_fork env) = 0" and "dm_setsid env = None" and "dm_chdir env = None"
    and "pr_fds p \<noteq> []" and "hd (pr_fds p) \<noteq> None" and "length (pr_fds p) \<le> nat (dm_open_max env) + 1"
  shows "\<exists>q. daemonize env p = (Continues (Inr ()), q) \<and> pr_leader q \<and> pr_cwd q = ''/'' \<and> pr_umask q = 0 \<and>
    pr_fds q = hd (pr_fds p) # replicate (length (pr_fds p) - 1) None \<and>
    fst (open_fd a (pr_fds q)) = 1 \<and> fst (open_fd b (snd (open_fd a (pr_fds q)))) = 2"
proof -
  have t: "take (Suc 0) (pr_fds p) = [hd (pr_fds p)]" using assms(4) by (cases "pr_fds p") auto
  show ?thesis
    using open_after_daemonize(1) [OF assms(4-6), where a = a] open_after_daemonize(2) [OF assms(4-6), where a = a and b = b] close_down_all [OF assms(6)] assms(1-3)
    by (auto simp: daemonize_def Let_def t)
qed

lemma daemon_descriptors_witness:
  "fst (open_fd ''/proc/vmcore'' (pr_fds (snd (daemonize \<lparr>dm_fork = (0, EIO), dm_setsid = None, dm_chdir = None, dm_open_max = 1024\<rparr>
     \<lparr>pr_fds = [Some ''stdin'', Some ''stdout'', Some ''stderr''], pr_cwd = ''/root'', pr_umask = 18, pr_leader = False\<rparr>)))) = 1"
  using daemon_descriptors [where env = "\<lparr>dm_fork = (0, EIO), dm_setsid = None, dm_chdir = None, dm_open_max = 1024\<rparr>" and
      p = "\<lparr>pr_fds = [Some ''stdin'', Some ''stdout'', Some ''stderr''], pr_cwd = ''/root'', pr_umask = 18, pr_leader = False\<rparr>" and
      a = "''/proc/vmcore''" and b = "''/root/crash''"]
  by auto

text \<open>
  When \<^verbatim>\<open>fork\<close> fails, the program ends with the exit status of success and without doing anything; the exception for this case cannot be reached.
\<close>

theorem fork_failure_exits:
  assumes "fst (dm_fork env) < 0"
  shows "daemonize env p = (Exits 0, p)"
  using assms by (simp add: daemonize_def)

section \<open>Progress and lights\<close>

text \<open>
  C39. On a terminal that is wide enough, an update of the progress bar writes one line that is one column shorter than the terminal,
  whatever the floating point computation gives and however large the numbers are, so that the line is never broken.
\<close>

theorem progress_line_fits:
  assumes "38 \<le> tw_width t" and "current \<le> mx" and "mx \<noteq> 0" and "was < now"
  shows "\<exists>line p'. progressed share now current mx (TerminalProgress t name\<lparr>tp_lastUpdate := was\<rparr>) =
      Inr ((if tw_isdumb t then [NL] else [CR]) @ line, p') \<and>
    length line = nat (tw_width t - 1) \<and> p' = TerminalProgress t name\<lparr>tp_lastUpdate := now\<rparr>"
  using progress_line_length [OF assms(2,3,1), where share = share and name = name and was = was] assms(3,4)
  by (auto simp: progressed_def TerminalProgress_def)

lemma progress_line_fits_witness:
  "\<exists>line p'. progressed (\<lambda>c m l. 999) 1 3 4 (TerminalProgress (Terminal None None) ''Saving dump''\<lparr>tp_lastUpdate := 0\<rparr>) = Inr (CR # line, p') \<and>
    length line = 79"
  using progress_line_fits [where t = "Terminal None None" and current = 3 and mx = 4 and was = 0 and now = 1 and share = "\<lambda>c m l. 999" and
      name = "''Saving dump''"]
  by (auto simp: Terminal_def DEFAULT_WIDTH_def)

text \<open>
  The lights count from 0 to 7 again and again, with a pause after each step, until the console fails; on one that does not fail the command does not return.
\<close>

theorem ledblink_counts:
  "ledblink_execute (log_leds n) interval [] =
     Some (Inl (KSystemError ''Unable to ioctl(KDSETLED) -- are you not on the console?'' EIO),
           concat (map (\<lambda>i. [Lights (i mod 8), Slept (blink_period interval)]) [0..<n]))"
  using blink_loop_log [of "[]" 0 n 3 "blink_period interval"] by (simp add: ledblink_execute_def log_leds_def)

section \<open>The programs that test single classes\<close>

text \<open>
  C40. \<^verbatim>\<open>testsftppacket\<close> prints the fields that its arguments put into the packet, in their order and as the same digits, after a
  length that is 0 because nothing updated it.
\<close>

theorem packet_driver_reads_back:
  "testsftppacket (map put_arg fs @ ''w'' # map get_arg_of fs) =
     Inr (0, ''00000000'' @ [NL] @ concat (map (\<lambda>f. field_text f @ [NL]) fs))"
  by (rule testsftppacket_fields)

text \<open>The checks of \<^verbatim>\<open>teststringutil\<close> hold.\<close>

theorem string_tests_pass: "fst teststringutil = 0"
  by (rule teststringutil_passes)

end
